(* ===== verification/Prelude.thy ===== *)
theory Prelude
  imports Main "HOL-Library.Char_ord" "HOL-Library.List_Lexorder"
    "HOL-Library.Product_Lexorder" "HOL-Library.Multiset"
begin

text \<open>
  Shared vocabulary of the development: the rule collections the component
  theories extend, the sequencing of fallible computations (Rust's
  \<open>Result\<close> with the question-mark operator), and the lemmas on lists that
  several components use.  Tables of the SQLite store and the hash maps of the
  caches are lists of records, so updating the rows that satisfy a predicate,
  counting rows and looking a row up by its key are treated here once.
\<close>

named_theorems store_defs \<open>definitions of the store operations\<close>
named_theorems row_simps \<open>how the row updates act on the columns\<close>
named_theorems invariants \<open>preservation of component invariants\<close>

subsection \<open>Fallible computations\<close>

text \<open>\<open>and_then r f\<close> is \<open>f(r?)\<close>: an error (\<open>Inl\<close>) returns early.\<close>

definition and_then :: "'e + 'a \<Rightarrow> ('a \<Rightarrow> 'e + 'b) \<Rightarrow> 'e + 'b" where
  "and_then r f = (case r of Inl e \<Rightarrow> Inl e | Inr a \<Rightarrow> f a)"

lemma and_then_simps [simp]:
  "and_then (Inl e) f = Inl e"
  "and_then (Inr a) f = f a"
  by (simp_all add: and_then_def)

lemma and_then_Inr_iff:
  "and_then r f = Inr b \<longleftrightarrow> (\<exists>a. r = Inr a \<and> f a = Inr b)"
  by (cases r) auto

text \<open>\<open>ok_or e x\<close> is \<open>x.ok_or(e)\<close>.\<close>

definition ok_or :: "'e \<Rightarrow> 'a option \<Rightarrow> 'e + 'a" where
  "ok_or e x = (case x of None \<Rightarrow> Inl e | Some a \<Rightarrow> Inr a)"

lemma ok_or_simps [simp]:
  "ok_or e None = Inl e"
  "ok_or e (Some a) = Inr a"
  by (simp_all add: ok_or_def)

lemma ok_or_Inr_iff [simp]: "ok_or e x = Inr a \<longleftrightarrow> x = Some a"
  by (cases x) auto

text \<open>A loop that stops at the first error.\<close>

fun try_fold :: "('a \<Rightarrow> 's \<Rightarrow> 'e + 's) \<Rightarrow> 'a list \<Rightarrow> 's \<Rightarrow> 'e + 's" where
  "try_fold f [] s = Inr s"
| "try_fold f (x # xs) s = and_then (f x s) (try_fold f xs)"

lemma try_fold_invariant:
  assumes "try_fold f xs s = Inr t" and "P s"
    and "\<And>x u v. x \<in> set xs \<Longrightarrow> P u \<Longrightarrow> f x u = Inr v \<Longrightarrow> P v"
  shows "P t"
  using assms
proof (induction xs arbitrary: s)
  case Nil
  then show ?case by simp
next
  case (Cons x xs)
  then obtain u where "f x s = Inr u" and "try_fold f xs u = Inr t"
    by (auto simp: and_then_Inr_iff)
  with Cons show ?case by (meson list.set_intros)
qed

subsection \<open>Rows and keys\<close>

text \<open>The effect of an SQL \<open>UPDATE ... WHERE p\<close> on a table.\<close>

definition update_where :: "('r \<Rightarrow> bool) \<Rightarrow> ('r \<Rightarrow> 'r) \<Rightarrow> 'r list \<Rightarrow> 'r list" where
  "update_where p f rs = map (\<lambda>r. if p r then f r else r) rs"

text \<open>The effect of \<open>SELECT ... WHERE key = k\<close> when the key is unique.\<close>

definition find_by :: "('r \<Rightarrow> 'k) \<Rightarrow> 'k \<Rightarrow> 'r list \<Rightarrow> 'r option" where
  "find_by key k rs = find (\<lambda>r. key r = k) rs"

lemma length_update_where [simp]: "length (update_where p f rs) = length rs"
  by (simp add: update_where_def)

lemma update_where_Nil [simp]: "update_where p f [] = []"
  by (simp add: update_where_def)

lemma update_where_Cons [simp]:
  "update_where p f (r # rs) = (if p r then f r else r) # update_where p f rs"
  by (simp add: update_where_def)

lemma set_update_where:
  "set (update_where p f rs) = (\<lambda>r. if p r then f r else r) ` set rs"
  by (simp add: update_where_def)

lemma in_update_where:
  "r \<in> set (update_where p f rs) \<longleftrightarrow>
   (r \<in> set rs \<and> \<not> p r) \<or> (\<exists>q \<in> set rs. p q \<and> r = f q)"
  by (auto simp: set_update_where image_iff)

lemma map_update_where [simp]:
  assumes "\<And>r. key (f r) = key r"
  shows "map key (update_where p f rs) = map key rs"
  using assms by (induction rs) auto

lemma update_where_id: "(\<And>r. r \<in> set rs \<Longrightarrow> \<not> p r) \<Longrightarrow> update_where p f rs = rs"
  by (induction rs) auto

lemma find_by_Nil [simp]: "find_by key k [] = None"
  by (simp add: find_by_def)

lemma find_by_Cons [simp]:
  "find_by key k (r # rs) = (if key r = k then Some r else find_by key k rs)"
  by (simp add: find_by_def)

lemma find_by_SomeD: "find_by key k rs = Some r \<Longrightarrow> r \<in> set rs \<and> key r = k"
  by (induction rs) (auto split: if_splits)

lemma find_by_None_iff: "find_by key k rs = None \<longleftrightarrow> (\<forall>r \<in> set rs. key r \<noteq> k)"
  by (induction rs) auto

lemma find_by_eq:
  assumes "distinct (map key rs)" and "r \<in> set rs" and "key r = k"
  shows "find_by key k rs = Some r"
  using assms by (induction rs) (auto simp: image_iff)

lemma find_by_Some_iff:
  "distinct (map key rs) \<Longrightarrow> find_by key k rs = Some r \<longleftrightarrow> r \<in> set rs \<and> key r = k"
  by (metis find_by_SomeD find_by_eq)

lemma find_by_update_where:
  assumes "\<And>r. key (f r) = key r"
  shows "find_by key k (update_where p f rs) =
    map_option (\<lambda>r. if p r then f r else r) (find_by key k rs)"
  using assms by (induction rs) auto

lemma find_by_append:
  "find_by key k (xs @ ys) =
    (case find_by key k xs of None \<Rightarrow> find_by key k ys | Some r \<Rightarrow> Some r)"
  by (induction xs) auto

lemma find_by_filter_key:
  "find_by key k (filter (\<lambda>r. P (key r)) rs) = (if P k then find_by key k rs else None)"
  by (induction rs) auto

lemma distinct_key_unique:
  "distinct (map key rs) \<Longrightarrow> a \<in> set rs \<Longrightarrow> b \<in> set rs \<Longrightarrow> key a = key b \<Longrightarrow> a = b"
  by (induction rs) (auto simp: image_iff)

lemma distinct_map_filter_key: "distinct (map key rs) \<Longrightarrow> distinct (map key (filter p rs))"
  by (rule distinct_map_filter)

subsection \<open>Counting\<close>

definition count_where :: "('r \<Rightarrow> bool) \<Rightarrow> 'r list \<Rightarrow> nat" where
  "count_where p rs = length (filter p rs)"

lemma count_where_Nil [simp]: "count_where p [] = 0"
  by (simp add: count_where_def)

lemma count_where_Cons [simp]:
  "count_where p (r # rs) = (if p r then Suc (count_where p rs) else count_where p rs)"
  by (simp add: count_where_def)

lemma count_where_append [simp]:
  "count_where p (xs @ ys) = count_where p xs + count_where p ys"
  by (simp add: count_where_def)

lemma count_where_0_iff [simp]: "count_where p rs = 0 \<longleftrightarrow> (\<forall>r \<in> set rs. \<not> p r)"
  by (induction rs) auto

lemma count_where_pos_iff: "0 < count_where p rs \<longleftrightarrow> (\<exists>r \<in> set rs. p r)"
  using count_where_0_iff [of p rs] by (simp del: count_where_0_iff add: neq0_conv [symmetric])

lemma count_where_cong:
  "(\<And>r. r \<in> set rs \<Longrightarrow> p r = q r) \<Longrightarrow> count_where p rs = count_where q rs"
  by (induction rs) auto

lemma count_where_le_length: "count_where p rs \<le> length rs"
  by (simp add: count_where_def)

lemma count_where_filter_le: "count_where p (filter q rs) \<le> count_where p rs"
  by (induction rs) auto

lemma count_where_eq_length: "count_where p rs = length rs \<longleftrightarrow> (\<forall>r \<in> set rs. p r)"
proof (induction rs)
  case (Cons r rs)
  then show ?case using count_where_le_length [of p rs] by auto
qed simp

lemma count_where_update:
  "count_where q (update_where p f rs) =
    count_where (\<lambda>r. if p r then q (f r) else q r) rs"
  by (induction rs) auto

lemma count_where_update_one:
  assumes "distinct (map key rs)" "r \<in> set rs"
  shows "count_where q (update_where (\<lambda>x. key x = key r) f rs) + (if q r then 1 else 0)
       = count_where q rs + (if q (f r) then 1 else 0)"
  using assms
proof (induction rs)
  case (Cons a rs)
  show ?case
  proof (cases "a = r")
    case True
    with Cons.prems(1) have "update_where (\<lambda>x. key x = key r) f rs = rs"
      by (intro update_where_id) (auto simp: image_iff)
    with True show ?thesis by simp
  next
    case False
    with Cons.prems have "r \<in> set rs" "key a \<noteq> key r" by (auto simp: image_iff)
    with Cons show ?thesis by (simp split: if_splits)
  qed
qed simp

subsection \<open>First occurrences\<close>

text \<open>
  The source's deduplication loop: a hash set of what was seen and the list of
  the first occurrences in order.
\<close>

fun dedupe_from :: "'a set \<Rightarrow> 'a list \<Rightarrow> 'a list" where
  "dedupe_from seen [] = []"
| "dedupe_from seen (x # xs) =
     (if x \<in> seen then dedupe_from seen xs else x # dedupe_from (insert x seen) xs)"

lemma set_dedupe_from: "set (dedupe_from seen xs) = set xs - seen"
  by (induction xs arbitrary: seen) auto

lemma distinct_dedupe_from: "distinct (dedupe_from seen xs)"
  by (induction xs arbitrary: seen) (auto simp: set_dedupe_from)

lemma dedupe_from_id: "distinct xs \<Longrightarrow> set xs \<inter> seen = {} \<Longrightarrow> dedupe_from seen xs = xs"
  by (induction xs arbitrary: seen) auto

lemma dedupe_from_append:
  "dedupe_from seen (xs @ ys) = dedupe_from seen xs @ dedupe_from (seen \<union> set xs) ys"
proof (induction xs arbitrary: seen)
  case (Cons x xs)
  have "insert x seen \<union> set xs = seen \<union> set (x # xs)" by auto
  with Cons show ?case by (auto simp: insert_absorb)
qed simp

lemma length_dedupe_from: "length (dedupe_from seen xs) \<le> length xs"
  by (induction xs arbitrary: seen) (auto intro: le_SucI)

subsection \<open>Saturating machine arithmetic on naturals below a limit\<close>

definition saturating_add :: "nat \<Rightarrow> nat \<Rightarrow> nat \<Rightarrow> nat" where
  "saturating_add lim a b = min lim (a + b)"

definition saturating_mul :: "nat \<Rightarrow> nat \<Rightarrow> nat \<Rightarrow> nat" where
  "saturating_mul lim a b = min lim (a * b)"

abbreviation "u32_max \<equiv> (4294967295 :: nat)"
abbreviation "u64_max \<equiv> (18446744073709551615 :: nat)"

text \<open>The cast \<open>as u32\<close>.\<close>

definition as_u32 :: "nat \<Rightarrow> nat" where
  "as_u32 n = n mod 4294967296"

lemma as_u32_id: "n \<le> u32_max \<Longrightarrow> as_u32 n = n"
  by (simp add: as_u32_def)

lemma saturating_add_le [simp]: "saturating_add lim a b \<le> lim"
  by (simp add: saturating_add_def)

lemma saturating_add_exact: "a + b \<le> lim \<Longrightarrow> saturating_add lim a b = a + b"
  by (simp add: saturating_add_def)

lemma saturating_mul_le [simp]: "saturating_mul lim a b \<le> lim"
  by (simp add: saturating_mul_def)

lemma saturating_mul_exact: "a * b \<le> lim \<Longrightarrow> saturating_mul lim a b = a * b"
  by (simp add: saturating_mul_def)

subsection \<open>Loops that drain a queue\<close>

text \<open>
  The interface between a loop and the state it works on: a turn either ends the
  loop with a result or goes on with a new state, and every turn that goes on
  keeps the state good and lowers its rank, a lexicographically ordered pair.
\<close>

locale draining_loop =
  fixes turn :: "'s \<Rightarrow> 'r + 's" and loop :: "'s \<Rightarrow> 'r option"
    and good :: "'s \<Rightarrow> bool" and rank :: "'s \<Rightarrow> nat \<times> nat"
  assumes unfold: "loop st = (case turn st of Inl r \<Rightarrow> Some r | Inr st' \<Rightarrow> loop st')"
    and keeps: "good st \<Longrightarrow> turn st = Inr st' \<Longrightarrow> good st'"
    and decreases: "good st \<Longrightarrow> turn st = Inr st' \<Longrightarrow> (rank st', rank st) \<in> less_than <*lex*> less_than"
begin

lemma returns:
  assumes "good st"
  shows "\<exists>last r. good last \<and> turn last = Inl r \<and> loop st = Some r"
proof -
  have "wf (inv_image (less_than <*lex*> less_than) rank)"
    by (intro wf_inv_image wf_lex_prod wf_less_than)
  then show ?thesis
    using assms
  proof (induction st rule: wf_induct_rule)
    case (less st)
    show ?case
    proof (cases "turn st")
      case (Inl r)
      with less.prems unfold [of st] show ?thesis by auto
    next
      case (Inr st')
      have "(st', st) \<in> inv_image (less_than <*lex*> less_than) rank"
        using decreases [OF less.prems Inr] by (simp only: in_inv_image)
      from less.IH [OF this keeps [OF less.prems Inr]] show ?thesis
        using unfold [of st] Inr by simp
    qed
  qed
qed

lemma result:
  assumes "good st" "loop st = Some r"
  shows "\<exists>last. good last \<and> turn last = Inl r"
  using returns [OF assms(1)] assms(2) by auto

end

end
