(* ===== verification/RustStrings.thy ===== *)
theory RustStrings
  imports Prelude
begin

text \<open>
  Rust strings.  A \<open>str\<close> is its list of UTF-8 bytes (\<open>char\<close> is a byte), so
  \<open>len()\<close> is \<open>length\<close> and every offset is a byte offset as in the source.
  \<open>chars\<close> splits the bytes into scalar values by their leading byte, and
  whitespace is the Unicode \<open>White_Space\<close> set that \<open>char::is_whitespace\<close> uses.
  The ASCII case mappings act on bytes, as \<open>to_ascii_uppercase\<close> does.
\<close>

subsection \<open>Scalar values\<close>

abbreviation byte :: "char \<Rightarrow> nat" where "byte c \<equiv> of_char c"

definition utf8_len :: "char \<Rightarrow> nat" where
  "utf8_len c = (if byte c < 192 then 1 else if byte c < 224 then 2
                 else if byte c < 240 then 3 else 4)"

lemma utf8_len_pos [simp]: "0 < utf8_len c"
  by (simp add: utf8_len_def)

function chars :: "string \<Rightarrow> string list" where
  "chars [] = []"
| "chars (c # s) = (c # take (utf8_len c - 1) s) # chars (drop (utf8_len c - 1) s)"
  by pat_completeness auto
termination by (relation "measure length") auto

definition is_whitespace :: "string \<Rightarrow> bool" where
  "is_whitespace ch \<longleftrightarrow>
     (case ch of
        [a] \<Rightarrow> 9 \<le> byte a \<and> byte a \<le> 13 \<or> byte a = 32
      | [a, b] \<Rightarrow> byte a = 194 \<and> (byte b = 133 \<or> byte b = 160)
      | [a, b, c] \<Rightarrow>
          byte a = 225 \<and> byte b = 154 \<and> byte c = 128
          \<or> byte a = 226 \<and> byte b = 128 \<and>
             (128 \<le> byte c \<and> byte c \<le> 138 \<or> byte c = 168 \<or> byte c = 169 \<or> byte c = 175)
          \<or> byte a = 226 \<and> byte b = 129 \<and> byte c = 159
          \<or> byte a = 227 \<and> byte b = 128 \<and> byte c = 128
      | _ \<Rightarrow> False)"

text \<open>A list of chunks that \<open>chars\<close> can produce: only the last may be cut short.\<close>

fun chunked :: "string list \<Rightarrow> bool" where
  "chunked [] = True"
| "chunked [ch] = (ch \<noteq> [] \<and> length ch \<le> utf8_len (hd ch))"
| "chunked (ch # d # ds) = (ch \<noteq> [] \<and> length ch = utf8_len (hd ch) \<and> chunked (d # ds))"

lemma concat_chars [simp]: "concat (chars s) = s"
  by (induction s rule: chars.induct) auto

lemma chars_eq_Nil_iff [simp]: "chars s = [] \<longleftrightarrow> s = []"
  by (cases s) auto

lemma chunked_chars: "chunked (chars s)"
proof (induction s rule: chars.induct)
  case (2 c s)
  obtain m where m: "utf8_len c = Suc m"
    by (metis gr0_implies_Suc utf8_len_pos)
  show ?case
  proof (cases "drop m s")
    case Nil
    with m show ?thesis by simp
  next
    case (Cons d ds)
    then have "m < length s"
      by (metis drop_all leI list.discI)
    with "2.IH" Cons m show ?thesis by (simp add: min_def)
  qed
qed simp

lemma chunked_Cons: "chunked (ch # cs) \<Longrightarrow> chunked cs"
  by (cases cs) auto

lemma chunked_not_Nil: "chunked cs \<Longrightarrow> ch \<in> set cs \<Longrightarrow> ch \<noteq> []"
  by (induction cs rule: chunked.induct) auto

lemma chars_concat: "chunked cs \<Longrightarrow> chars (concat cs) = cs"
proof (induction cs rule: chunked.induct)
  case (2 ch)
  then show ?case by (cases ch) auto
next
  case (3 ch d ds)
  then show ?case by (cases ch) auto
qed simp

lemma chunked_drop: "chunked cs \<Longrightarrow> chunked (drop n cs)"
  by (induction n arbitrary: cs) (auto simp: drop_Suc dest: chunked_Cons split: list.splits
      intro: chunked_Cons simp: tl_def)

lemma chunked_dropWhile: "chunked cs \<Longrightarrow> chunked (dropWhile p cs)"
  by (simp add: dropWhile_eq_drop chunked_drop)

lemma chunked_butlast: "chunked (cs @ ds) \<Longrightarrow> chunked cs"
proof (induction cs rule: chunked.induct)
  case (2 ch)
  then show ?case by (cases ds) auto
qed auto

lemma chunked_rev_dropWhile:
  assumes "chunked cs"
  shows "chunked (rev (dropWhile p (rev cs)))"
proof -
  have "cs = rev (dropWhile p (rev cs)) @ rev (takeWhile p (rev cs))"
    by (metis rev_append rev_rev_ident takeWhile_dropWhile_id)
  with assms show ?thesis
    by (metis chunked_butlast)
qed

lemma chars_ascii:
  "list_all (\<lambda>c. byte c < 128) s \<Longrightarrow> chars s = map (\<lambda>c. [c]) s"
  by (induction s) (auto simp: utf8_len_def)

subsection \<open>Trimming\<close>

definition trim_start :: "string \<Rightarrow> string" where
  "trim_start s = concat (dropWhile is_whitespace (chars s))"

definition trim_end :: "string \<Rightarrow> string" where
  "trim_end s = concat (rev (dropWhile is_whitespace (rev (chars s))))"

definition trim :: "string \<Rightarrow> string" where
  "trim s = trim_end (trim_start s)"

text \<open>What trimming establishes: no whitespace at either end.\<close>

definition trimmed :: "string \<Rightarrow> bool" where
  "trimmed s \<longleftrightarrow> s = [] \<or>
     (\<not> is_whitespace (hd (chars s)) \<and> \<not> is_whitespace (last (chars s)))"

definition strip_chunks :: "string list \<Rightarrow> string list" where
  "strip_chunks cs = rev (dropWhile is_whitespace (rev (dropWhile is_whitespace cs)))"

lemma trim_chunks: "trim s = concat (strip_chunks (chars s))"
  by (simp add: trim_def trim_start_def trim_end_def strip_chunks_def
      chars_concat chunked_dropWhile chunked_chars)

lemma chars_trim: "chars (trim s) = strip_chunks (chars s)"
  by (simp add: trim_chunks strip_chunks_def chars_concat chunked_rev_dropWhile
      chunked_dropWhile chunked_chars)

lemma dropWhile_hd: "dropWhile p xs \<noteq> [] \<Longrightarrow> \<not> p (hd (dropWhile p xs))"
  by (rule hd_dropWhile)

lemma strip_chunks_last:
  "strip_chunks cs \<noteq> [] \<Longrightarrow> \<not> is_whitespace (last (strip_chunks cs))"
  by (simp add: strip_chunks_def last_rev hd_dropWhile)

lemma strip_chunks_hd:
  assumes "strip_chunks cs \<noteq> []"
  shows "\<not> is_whitespace (hd (strip_chunks cs))"
proof -
  let ?ds = "dropWhile is_whitespace cs"
  have split: "?ds = strip_chunks cs @ rev (takeWhile is_whitespace (rev ?ds))"
    by (metis rev_append rev_rev_ident strip_chunks_def takeWhile_dropWhile_id)
  with assms have "hd ?ds = hd (strip_chunks cs)" and "?ds \<noteq> []"
    by (metis hd_append2, metis append_is_Nil_conv)
  then show ?thesis by (metis hd_dropWhile)
qed

lemma trim_Nil [simp]: "trim [] = []"
  by (simp add: trim_chunks strip_chunks_def)

lemma trim_eq_Nil_iff: "trim s = [] \<longleftrightarrow> strip_chunks (chars s) = []"
  by (metis chars_eq_Nil_iff chars_trim)

lemma trimmed_trim: "trimmed (trim s)"
  by (auto simp: trimmed_def chars_trim trim_eq_Nil_iff strip_chunks_hd strip_chunks_last)

lemma trim_id:
  assumes "trimmed s"
  shows "trim s = s"
proof (cases "s = []")
  case False
  with assms have h: "\<not> is_whitespace (hd (chars s))" and l: "\<not> is_whitespace (last (chars s))"
    by (auto simp: trimmed_def)
  have ne: "chars s \<noteq> []" using False by simp
  with h have d: "dropWhile is_whitespace (chars s) = chars s"
    by (cases "chars s") auto
  from ne l have "dropWhile is_whitespace (rev (chars s)) = rev (chars s)"
    by (cases "rev (chars s)") (auto simp: hd_rev [symmetric])
  with d show ?thesis by (simp add: trim_chunks strip_chunks_def)
qed simp

lemma trim_trim [simp]: "trim (trim s) = trim s"
  by (rule trim_id) (rule trimmed_trim)

lemma set_strip_chunks: "set (strip_chunks cs) \<subseteq> set cs"
  by (auto simp: strip_chunks_def dest!: set_dropWhileD)

lemma length_trim_le: "length (trim s) \<le> length s"
proof -
  have "length (concat (dropWhile p cs)) \<le> length (concat cs)" for p and cs :: "string list"
    by (induction cs) auto
  then have "length (trim_start t) \<le> length t" for t
    by (metis concat_chars trim_start_def)
  moreover have "length (trim_end t) \<le> length t" for t
  proof -
    have "length (concat (rev (dropWhile is_whitespace (rev cs)))) \<le> length (concat cs)"
      for cs :: "string list"
    proof -
      have "cs = rev (dropWhile is_whitespace (rev cs)) @ rev (takeWhile is_whitespace (rev cs))"
        by (metis rev_append rev_rev_ident takeWhile_dropWhile_id)
      then show ?thesis
        by (metis concat_append le_add1 length_append)
    qed
    then show ?thesis by (metis concat_chars trim_end_def)
  qed
  ultimately show ?thesis
    unfolding trim_def using le_trans by blast
qed

subsection \<open>ASCII classes and case mapping\<close>

definition is_ascii_digit :: "char \<Rightarrow> bool" where
  "is_ascii_digit c \<longleftrightarrow> 48 \<le> byte c \<and> byte c \<le> 57"

definition is_ascii_uppercase :: "char \<Rightarrow> bool" where
  "is_ascii_uppercase c \<longleftrightarrow> 65 \<le> byte c \<and> byte c \<le> 90"

definition is_ascii_lowercase :: "char \<Rightarrow> bool" where
  "is_ascii_lowercase c \<longleftrightarrow> 97 \<le> byte c \<and> byte c \<le> 122"

definition is_ascii_alphanumeric :: "char \<Rightarrow> bool" where
  "is_ascii_alphanumeric c \<longleftrightarrow>
     is_ascii_digit c \<or> is_ascii_uppercase c \<or> is_ascii_lowercase c"

definition ascii_upper :: "char \<Rightarrow> char" where
  "ascii_upper c = (if is_ascii_lowercase c then char_of (byte c - 32) else c)"

definition ascii_lower :: "char \<Rightarrow> char" where
  "ascii_lower c = (if is_ascii_uppercase c then char_of (byte c + 32) else c)"

definition to_ascii_uppercase :: "string \<Rightarrow> string" where
  "to_ascii_uppercase s = map ascii_upper s"

definition to_ascii_lowercase :: "string \<Rightarrow> string" where
  "to_ascii_lowercase s = map ascii_lower s"

definition eq_ignore_ascii_case :: "string \<Rightarrow> string \<Rightarrow> bool" where
  "eq_ignore_ascii_case s t \<longleftrightarrow> to_ascii_lowercase s = to_ascii_lowercase t"

lemma byte_bound: "byte c < 256"
  by simp

lemma byte_char_of [simp]: "n < 256 \<Longrightarrow> byte (char_of n) = n"
  by simp

lemma byte_ascii_upper:
  "byte (ascii_upper c) = (if is_ascii_lowercase c then byte c - 32 else byte c)"
  by (auto simp: ascii_upper_def is_ascii_lowercase_def)

lemma byte_ascii_lower:
  "byte (ascii_lower c) = (if is_ascii_uppercase c then byte c + 32 else byte c)"
  by (auto simp: ascii_lower_def is_ascii_uppercase_def)

lemma char_eq_byte: "c = d \<longleftrightarrow> byte c = byte d"
  by simp

lemma ascii_upper_upper [simp]: "ascii_upper (ascii_upper c) = ascii_upper c"
  by (auto simp: char_eq_byte byte_ascii_upper is_ascii_lowercase_def)

lemma ascii_lower_upper [simp]: "ascii_lower (ascii_upper c) = ascii_lower c"
  by (auto simp: char_eq_byte byte_ascii_upper byte_ascii_lower
      is_ascii_lowercase_def is_ascii_uppercase_def)

lemma not_lower_ascii_upper [simp]: "\<not> is_ascii_lowercase (ascii_upper c)"
  by (auto simp: is_ascii_lowercase_def byte_ascii_upper)

lemma alphanumeric_ascii_upper [simp]:
  "is_ascii_alphanumeric (ascii_upper c) = is_ascii_alphanumeric c"
  by (auto simp: is_ascii_alphanumeric_def is_ascii_digit_def is_ascii_lowercase_def
      is_ascii_uppercase_def byte_ascii_upper)

lemma to_ascii_uppercase_idem [simp]:
  "to_ascii_uppercase (to_ascii_uppercase s) = to_ascii_uppercase s"
  by (simp add: to_ascii_uppercase_def)

lemma length_to_ascii_uppercase [simp]: "length (to_ascii_uppercase s) = length s"
  by (simp add: to_ascii_uppercase_def)

lemma length_to_ascii_lowercase [simp]: "length (to_ascii_lowercase s) = length s"
  by (simp add: to_ascii_lowercase_def)

lemma to_ascii_lowercase_upper [simp]:
  "to_ascii_lowercase (to_ascii_uppercase s) = to_ascii_lowercase s"
  by (simp add: to_ascii_uppercase_def to_ascii_lowercase_def)

lemma eq_ignore_ascii_case_upper [simp]: "eq_ignore_ascii_case (to_ascii_uppercase s) s"
  by (simp add: eq_ignore_ascii_case_def)

lemma not_whitespace_ascii: "byte c < 128 \<Longrightarrow> 32 < byte c \<Longrightarrow> \<not> is_whitespace [c]"
  by (simp add: is_whitespace_def)

lemma trimmed_ascii:
  assumes "\<And>c. c \<in> set s \<Longrightarrow> 32 < byte c \<and> byte c < 128"
  shows "trimmed s"
proof (cases "s = []")
  case False
  from assms have "chars s = map (\<lambda>c. [c]) s"
    by (intro chars_ascii) (simp add: list_all_iff)
  with False assms show ?thesis
    by (auto simp: trimmed_def hd_map last_map not_whitespace_ascii)
qed (simp add: trimmed_def)

subsection \<open>Searching and splitting\<close>

definition starts_with :: "string \<Rightarrow> string \<Rightarrow> bool" where
  "starts_with p s \<longleftrightarrow> take (length p) s = p"

definition ends_with :: "string \<Rightarrow> string \<Rightarrow> bool" where
  "ends_with p s \<longleftrightarrow> length p \<le> length s \<and> drop (length s - length p) s = p"

text \<open>\<open>str_find p s\<close> is \<open>s.find(p)\<close>: the byte offset of the first occurrence.\<close>

fun str_find :: "string \<Rightarrow> string \<Rightarrow> nat option" where
  "str_find p [] = (if p = [] then Some 0 else None)"
| "str_find p (c # s) =
     (if starts_with p (c # s) then Some 0 else map_option Suc (str_find p s))"

definition str_contains :: "string \<Rightarrow> string \<Rightarrow> bool" where
  "str_contains p s \<longleftrightarrow> str_find p s \<noteq> None"

definition split_once :: "string \<Rightarrow> string \<Rightarrow> (string \<times> string) option" where
  "split_once p s =
     map_option (\<lambda>i. (take i s, drop (i + length p) s)) (str_find p s)"

text \<open>\<open>rsplit_once\<close> on a one-byte pattern: the last occurrence.\<close>

definition rsplit_once :: "char \<Rightarrow> string \<Rightarrow> (string \<times> string) option" where
  "rsplit_once c s =
     (if c \<in> set s
      then Some (rev (tl (dropWhile (\<lambda>x. x \<noteq> c) (rev s))), rev (takeWhile (\<lambda>x. x \<noteq> c) (rev s)))
      else None)"

text \<open>\<open>split(p)\<close> on a predicate over the elements (bytes or scalar values).\<close>

fun split_on :: "('a \<Rightarrow> bool) \<Rightarrow> 'a list \<Rightarrow> 'a list list" where
  "split_on p [] = [[]]"
| "split_on p (x # xs) =
     (if p x then [] # split_on p xs
      else (case split_on p xs of [] \<Rightarrow> [[x]] | w # ws \<Rightarrow> (x # w) # ws))"

definition split_whitespace :: "string \<Rightarrow> string list" where
  "split_whitespace s = filter (\<lambda>w. w \<noteq> []) (map concat (split_on is_whitespace (chars s)))"

lemma starts_with_iff: "starts_with p s \<longleftrightarrow> (\<exists>t. s = p @ t)"
  by (metis append_eq_conv_conj append_take_drop_id starts_with_def)

lemma str_find_SomeD: "str_find p s = Some i \<Longrightarrow> \<exists>t. s = take i s @ p @ t \<and> i + length p \<le> length s"
proof (induction s arbitrary: i)
  case (Cons c s)
  show ?case
  proof (cases "starts_with p (c # s)")
    case True
    with Cons.prems show ?thesis
      by (auto simp: starts_with_iff) (metis le_add1 length_append length_Cons)
  next
    case False
    with Cons obtain j where j: "str_find p s = Some j" "i = Suc j"
      by auto
    from Cons.IH [OF j(1)] j(2) show ?thesis by auto
  qed
qed (auto split: if_splits)

lemma split_once_SomeD: "split_once p s = Some (a, b) \<Longrightarrow> s = a @ p @ b"
  unfolding split_once_def by (auto dest!: str_find_SomeD) (metis append_eq_conv_conj drop_drop add.commute length_take append.assoc min.absorb2 le_add1 le_trans)

lemma rsplit_once_SomeD:
  assumes "rsplit_once c s = Some (a, b)"
  shows "s = a @ c # b \<and> c \<notin> set b"
proof -
  let ?p = "\<lambda>x. x \<noteq> c"
  let ?d = "dropWhile ?p (rev s)"
  from assms have c: "c \<in> set s" and a: "a = rev (tl ?d)" and b: "b = rev (takeWhile ?p (rev s))"
    by (auto simp: rsplit_once_def split: if_splits)
  from c have ne: "?d \<noteq> []" by (auto simp: dropWhile_eq_Nil_conv)
  then have "hd ?d = c" using hd_dropWhile [of ?p "rev s"] by simp
  with ne have d: "?d = c # rev a" by (cases ?d) (auto simp: a)
  have "rev s = takeWhile ?p (rev s) @ ?d" by simp
  with d have "rev s = rev b @ c # rev a" by (simp only: b rev_rev_ident)
  then have "rev (rev s) = rev (rev b @ c # rev a)" by (rule arg_cong)
  then have "s = a @ c # b" by simp
  moreover have "c \<notin> set b" by (auto simp: b dest: set_takeWhileD)
  ultimately show ?thesis by simp
qed

lemma rsplit_once_eq: "c \<notin> set b \<Longrightarrow> rsplit_once c (a @ c # b) = Some (a, b)"
proof -
  assume c: "c \<notin> set b"
  have "takeWhile (\<lambda>x. x \<noteq> c) (rev b @ c # rev a) = rev b"
    using c by (subst takeWhile_append2) auto
  moreover have "dropWhile (\<lambda>x. x \<noteq> c) (rev b @ c # rev a) = c # rev a"
    using c by (subst dropWhile_append2) auto
  ultimately show ?thesis by (simp add: rsplit_once_def)
qed

lemma split_on_not_Nil [simp]: "split_on p xs \<noteq> []"
  by (induction xs) (auto split: list.splits)

lemma set_split_on: "w \<in> set (split_on p xs) \<Longrightarrow> x \<in> set w \<Longrightarrow> x \<in> set xs \<and> \<not> p x"
  by (induction xs arbitrary: w) (fastforce split: if_splits list.splits)+

subsection \<open>Decimal numbers\<close>

definition digit_char :: "nat \<Rightarrow> char" where
  "digit_char d = char_of (48 + d)"

function show_nat :: "nat \<Rightarrow> string" where
  "show_nat n = (if n < 10 then [digit_char n]
                 else show_nat (n div 10) @ [digit_char (n mod 10)])"
  by pat_completeness auto
termination by (relation "measure id") auto

declare show_nat.simps [simp del]

definition digits_val :: "string \<Rightarrow> nat" where
  "digits_val s = foldl (\<lambda>v c. 10 * v + (byte c - 48)) 0 s"

text \<open>
  \<open>str::parse\<close> for an unsigned type with maximum \<open>lim\<close>: an optional plus sign,
  at least one digit, nothing else, no overflow.
\<close>

definition parse_uint :: "nat \<Rightarrow> string \<Rightarrow> nat option" where
  "parse_uint lim s =
     (let ds = (case s of [] \<Rightarrow> [] | c # r \<Rightarrow> if c = CHR ''+'' then r else s)
      in if ds = [] \<or> \<not> list_all is_ascii_digit ds then None
         else if digits_val ds \<le> lim then Some (digits_val ds) else None)"

lemma is_ascii_digit_digit_char [simp]: "d < 10 \<Longrightarrow> is_ascii_digit (digit_char d)"
  by (simp add: is_ascii_digit_def digit_char_def)

lemma byte_digit_char [simp]: "d < 10 \<Longrightarrow> byte (digit_char d) = 48 + d"
  by (simp add: digit_char_def)

lemma show_nat_not_Nil [simp]: "show_nat n \<noteq> []"
  by (subst show_nat.simps) simp

lemma show_nat_digits: "c \<in> set (show_nat n) \<Longrightarrow> is_ascii_digit c"
proof (induction n rule: show_nat.induct)
  case (1 n)
  show ?case
  proof (cases "n < 10")
    case True
    with "1.prems" show ?thesis by (simp add: show_nat.simps [of n])
  next
    case False
    with "1.prems" have "c \<in> set (show_nat (n div 10)) \<or> c = digit_char (n mod 10)"
      by (auto simp: show_nat.simps [of n])
    with "1.IH" False show ?thesis by auto
  qed
qed

lemma digits_val_snoc [simp]: "digits_val (s @ [c]) = 10 * digits_val s + (byte c - 48)"
  by (simp add: digits_val_def)

lemma digits_val_show_nat [simp]: "digits_val (show_nat n) = n"
proof (induction n rule: show_nat.induct)
  case (1 n)
  show ?case
  proof (cases "n < 10")
    case True
    then show ?thesis by (simp add: show_nat.simps [of n] digits_val_def)
  next
    case False
    then have "show_nat n = show_nat (n div 10) @ [digit_char (n mod 10)]"
      by (simp add: show_nat.simps [of n])
    with "1.IH" False show ?thesis by simp
  qed
qed

lemma show_nat_inject [simp]: "show_nat m = show_nat n \<longleftrightarrow> m = n"
  by (metis digits_val_show_nat)

lemma parse_uint_show_nat: "n \<le> lim \<Longrightarrow> parse_uint lim (show_nat n) = Some n"
proof -
  assume n: "n \<le> lim"
  obtain c r where cr: "show_nat n = c # r"
    by (cases "show_nat n") auto
  have "is_ascii_digit c" by (rule show_nat_digits [of _ n]) (simp add: cr)
  then have "c \<noteq> CHR ''+''" by (auto simp: is_ascii_digit_def)
  moreover have "list_all is_ascii_digit (show_nat n)"
    by (auto simp: list_all_iff dest: show_nat_digits)
  ultimately show ?thesis
    using n digits_val_show_nat [of n] by (simp add: parse_uint_def cr)
qed

text \<open>A separator that no decimal number contains splits an identifier uniquely.\<close>

lemma append_digits_inject:
  assumes "a @ c # show_nat m = b @ c # show_nat n" and "\<not> is_ascii_digit c"
  shows "a = b \<and> m = n"
proof -
  have "c \<notin> set (show_nat m)" and "c \<notin> set (show_nat n)"
    using assms(2) by (auto dest: show_nat_digits)
  then have "Some (a, show_nat m) = Some (b, show_nat n)"
    using assms(1) by (metis rsplit_once_eq)
  then show ?thesis by simp
qed

end
