(* ===== verification/StoreTypes.thy ===== *)
theory StoreTypes
  imports RustStrings
begin

text \<open>
  Data model of the workspace store: the enumerations of \<open>imports.rs\<close>,
  \<open>jobs.rs\<close> and \<open>storage.rs\<close> with their database encoding, the tables of
  \<open>schema.rs\<close> as records, the store as the record of its tables, and the
  projections (\<open>map_*\<close>) the queries return.  A JSON column holding a list of
  identifiers is that list.  Table columns are prefixed by the table
  (\<open>j_\<close> jobs, \<open>i_\<close> items, \<open>a_\<close> attempts, \<open>r_\<close> sheet rows).
\<close>

subsection \<open>Enumerations\<close>

datatype import_kind = Kind_Bag | Kind_Manifest

datatype import_mode = Mode_Replace | Mode_Append

datatype import_job_status =
  Job_Pending | Job_Running | Job_Completed | Job_Failed | Job_Cancelled

datatype import_job_item_status =
  Item_Pending | Item_Running | Item_Succeeded | Item_Failed | Item_Cancelled

datatype import_source_item_kind = Src_Bag | Src_Manifest | Src_ManifestBag

datatype import_attempt_status =
  Attempt_Running | Attempt_Succeeded | Attempt_Failed | Attempt_Cancelled | Attempt_Interrupted

datatype sheet_row_status =
  Row_Empty | Row_Pending | Row_Loading | Row_Loaded | Row_Failed | Row_Stale

subsection \<open>Errors\<close>

text \<open>
  The only database errors the statements of the model can raise are constraint
  violations and a value too large for the integer type it is read into;
  input/output failures of SQLite are outside the model.
\<close>

datatype sqlite_error =
    Unique_Constraint string
  | Foreign_Key_Constraint
  | Integral_Value_Out_Of_Range nat

datatype store_error =
    Sqlite sqlite_error
  | Missing_Import_Job string
  | Row_Ownership_Conflict string string string
  | Invalid_Value string string

subsection \<open>Database encoding of the enumerations\<close>

definition invalid_db_value :: "string \<Rightarrow> string \<Rightarrow> store_error + 'a" where
  "invalid_db_value field value = Inl (Invalid_Value field value)"

fun sheet_row_status_to_db :: "sheet_row_status \<Rightarrow> string" where
  "sheet_row_status_to_db Row_Empty = ''empty''"
| "sheet_row_status_to_db Row_Pending = ''pending''"
| "sheet_row_status_to_db Row_Loading = ''loading''"
| "sheet_row_status_to_db Row_Loaded = ''loaded''"
| "sheet_row_status_to_db Row_Failed = ''failed''"
| "sheet_row_status_to_db Row_Stale = ''stale''"

definition sheet_row_status_from_db :: "string \<Rightarrow> store_error + sheet_row_status" where
  "sheet_row_status_from_db v =
     (if v = ''empty'' then Inr Row_Empty
      else if v = ''pending'' then Inr Row_Pending
      else if v = ''loading'' then Inr Row_Loading
      else if v = ''loaded'' then Inr Row_Loaded
      else if v = ''failed'' then Inr Row_Failed
      else if v = ''stale'' then Inr Row_Stale
      else invalid_db_value ''sheet_row_status'' v)"

fun import_kind_to_db :: "import_kind \<Rightarrow> string" where
  "import_kind_to_db Kind_Bag = ''bag''"
| "import_kind_to_db Kind_Manifest = ''manifest''"

definition import_kind_from_db :: "string \<Rightarrow> store_error + import_kind" where
  "import_kind_from_db v =
     (if v = ''bag'' then Inr Kind_Bag
      else if v = ''manifest'' then Inr Kind_Manifest
      else invalid_db_value ''import_kind'' v)"

fun import_mode_to_db :: "import_mode \<Rightarrow> string" where
  "import_mode_to_db Mode_Replace = ''replace''"
| "import_mode_to_db Mode_Append = ''append''"

definition import_mode_from_db :: "string \<Rightarrow> store_error + import_mode" where
  "import_mode_from_db v =
     (if v = ''replace'' then Inr Mode_Replace
      else if v = ''append'' then Inr Mode_Append
      else invalid_db_value ''import_mode'' v)"

fun import_job_status_to_db :: "import_job_status \<Rightarrow> string" where
  "import_job_status_to_db Job_Pending = ''pending''"
| "import_job_status_to_db Job_Running = ''running''"
| "import_job_status_to_db Job_Completed = ''completed''"
| "import_job_status_to_db Job_Failed = ''failed''"
| "import_job_status_to_db Job_Cancelled = ''cancelled''"

definition import_job_status_from_db :: "string \<Rightarrow> store_error + import_job_status" where
  "import_job_status_from_db v =
     (if v = ''pending'' then Inr Job_Pending
      else if v = ''running'' then Inr Job_Running
      else if v = ''completed'' then Inr Job_Completed
      else if v = ''failed'' then Inr Job_Failed
      else if v = ''cancelled'' then Inr Job_Cancelled
      else invalid_db_value ''import_job_status'' v)"

fun import_job_item_status_to_db :: "import_job_item_status \<Rightarrow> string" where
  "import_job_item_status_to_db Item_Pending = ''pending''"
| "import_job_item_status_to_db Item_Running = ''running''"
| "import_job_item_status_to_db Item_Succeeded = ''succeeded''"
| "import_job_item_status_to_db Item_Failed = ''failed''"
| "import_job_item_status_to_db Item_Cancelled = ''cancelled''"

definition import_job_item_status_from_db :: "string \<Rightarrow> store_error + import_job_item_status" where
  "import_job_item_status_from_db v =
     (if v = ''pending'' then Inr Item_Pending
      else if v = ''running'' then Inr Item_Running
      else if v = ''succeeded'' then Inr Item_Succeeded
      else if v = ''failed'' then Inr Item_Failed
      else if v = ''cancelled'' then Inr Item_Cancelled
      else invalid_db_value ''import_job_item_status'' v)"

fun import_attempt_status_to_db :: "import_attempt_status \<Rightarrow> string" where
  "import_attempt_status_to_db Attempt_Running = ''running''"
| "import_attempt_status_to_db Attempt_Succeeded = ''succeeded''"
| "import_attempt_status_to_db Attempt_Failed = ''failed''"
| "import_attempt_status_to_db Attempt_Cancelled = ''cancelled''"
| "import_attempt_status_to_db Attempt_Interrupted = ''interrupted''"

definition import_attempt_status_from_db :: "string \<Rightarrow> store_error + import_attempt_status" where
  "import_attempt_status_from_db v =
     (if v = ''running'' then Inr Attempt_Running
      else if v = ''succeeded'' then Inr Attempt_Succeeded
      else if v = ''failed'' then Inr Attempt_Failed
      else if v = ''cancelled'' then Inr Attempt_Cancelled
      else if v = ''interrupted'' then Inr Attempt_Interrupted
      else invalid_db_value ''import_attempt_status'' v)"

fun item_status_for_attempt_status :: "import_attempt_status \<Rightarrow> import_job_item_status" where
  "item_status_for_attempt_status Attempt_Running = Item_Running"
| "item_status_for_attempt_status Attempt_Succeeded = Item_Succeeded"
| "item_status_for_attempt_status Attempt_Failed = Item_Failed"
| "item_status_for_attempt_status Attempt_Interrupted = Item_Failed"
| "item_status_for_attempt_status Attempt_Cancelled = Item_Cancelled"

fun import_source_item_kind_to_db :: "import_source_item_kind \<Rightarrow> string" where
  "import_source_item_kind_to_db Src_Bag = ''bag''"
| "import_source_item_kind_to_db Src_Manifest = ''manifest''"
| "import_source_item_kind_to_db Src_ManifestBag = ''manifest_bag''"

definition import_source_item_kind_from_db :: "string \<Rightarrow> store_error + import_source_item_kind" where
  "import_source_item_kind_from_db v =
     (if v = ''bag'' then Inr Src_Bag
      else if v = ''manifest'' then Inr Src_Manifest
      else if v = ''manifest_bag'' then Inr Src_ManifestBag
      else invalid_db_value ''import_source_item_kind'' v)"

subsection \<open>Tables\<close>

record import_job =
  j_id :: string
  j_sheet_id :: string
  j_kind :: import_kind
  j_mode :: import_mode
  j_status :: import_job_status
  j_total_count :: nat
  j_success_count :: nat
  j_failed_count :: nat
  j_pending_count :: nat
  j_created_at :: string
  j_updated_at :: string
  j_completed_at :: "string option"
  j_cancelled_at :: "string option"

record import_item =
  i_id :: string
  i_job_id :: string
  i_source_item_id :: string
  i_source_item_kind :: import_source_item_kind
  i_position :: nat
  i_status :: import_job_item_status
  i_tracking_ids :: "string list"
  i_sheet_row_ids :: "string list"
  i_error_message :: "string option"
  i_attempt_count :: nat
  i_next_retry_at :: "string option"
  i_created_at :: string
  i_updated_at :: string

record import_attempt =
  a_id :: string
  a_item_id :: string
  a_number :: nat
  a_status :: import_attempt_status
  a_error_message :: "string option"
  a_raw_blob_id :: "string option"
  a_started_at :: string
  a_finished_at :: "string option"

record sheet_row =
  r_id :: string
  r_sheet_id :: string
  r_position :: nat
  r_display_id :: string
  r_lookup_id :: string
  r_generation :: string
  r_tracking_record_id :: "string option"
  r_status :: sheet_row_status
  r_error_message :: "string option"
  r_created_at :: string
  r_updated_at :: string

record sheet =
  s_id :: string
  s_workspace_id :: string
  s_name :: string
  s_position :: nat
  s_created_at :: string
  s_updated_at :: string

record analytics_entry =
  c_id :: string
  c_sheet_id :: string
  c_query_hash :: string
  c_result :: string

record store =
  sheets :: "sheet list"
  rows :: "sheet_row list"
  jobs :: "import_job list"
  items :: "import_item list"
  attempts :: "import_attempt list"
  cache :: "analytics_entry list"

text \<open>
  What an operation draws from its environment: the text of the current UTC
  time and the row-generation tokens \<open>next_row_generation\<close> returns, in order.
\<close>

record env =
  now :: string
  gen :: "nat \<Rightarrow> string"

subsection \<open>Inputs and projections\<close>

record create_import_job_input =
  cj_job_id :: string
  cj_sheet_id :: string
  cj_kind :: import_kind
  cj_mode :: import_mode
  cj_total_count :: nat

record create_import_job_item_input =
  ci_item_id :: string
  ci_job_id :: string
  ci_source_item_id :: string
  ci_source_item_kind :: import_source_item_kind
  ci_position :: nat

record update_import_job_item_status_input =
  ui_item_id :: string
  ui_status :: import_job_item_status
  ui_tracking_ids :: "string list"
  ui_error_message :: "string option"

record start_import_attempt_input =
  sa_attempt_id :: string
  sa_item_id :: string
  sa_raw_blob_id :: "string option"

record finish_import_attempt_input =
  fa_attempt_id :: string
  fa_status :: import_attempt_status
  fa_tracking_ids :: "string list"
  fa_error_message :: "string option"
  fa_raw_blob_id :: "string option"

record upsert_sheet_row_input =
  ur_row_id :: string
  ur_sheet_id :: string
  ur_position :: nat
  ur_display_id :: string
  ur_lookup_id :: string
  ur_status :: sheet_row_status
  ur_error_message :: "string option"

record transfer_sheet_rows_input =
  tr_source_sheet_id :: string
  tr_target_sheet_id :: string
  tr_row_ids :: "string list"
  tr_delete_source_rows :: bool

record import_job_summary =
  js_job_id :: string
  js_sheet_id :: string
  js_kind :: import_kind
  js_mode :: import_mode
  js_status :: import_job_status
  js_total_count :: nat
  js_success_count :: nat
  js_failed_count :: nat
  js_pending_count :: nat

record import_job_item =
  ji_item_id :: string
  ji_source_item_id :: string
  ji_source_item_kind :: import_source_item_kind
  ji_position :: nat
  ji_status :: import_job_item_status
  ji_tracking_ids :: "string list"
  ji_sheet_row_ids :: "string list"
  ji_error_message :: "string option"
  ji_attempt_count :: nat

record import_job_detail =
  jd_summary :: import_job_summary
  jd_items :: "import_job_item list"

record import_attempt_record =
  ar_attempt_id :: string
  ar_job_item_id :: string
  ar_attempt_number :: nat
  ar_status :: import_attempt_status
  ar_error_message :: "string option"
  ar_raw_blob_id :: "string option"

record import_retry_targets =
  rt_source_item_ids :: "string list"
  rt_manifest_bag_ids :: "string list"

record job_recovery_summary =
  rs_recovered_job_ids :: "string list"
  rs_recovered_item_ids :: "string list"
  rs_interrupted_attempt_ids :: "string list"

definition map_import_job_summary :: "import_job \<Rightarrow> import_job_summary" where
  "map_import_job_summary j =
     \<lparr>js_job_id = j_id j, js_sheet_id = j_sheet_id j, js_kind = j_kind j, js_mode = j_mode j,
      js_status = j_status j, js_total_count = j_total_count j,
      js_success_count = j_success_count j, js_failed_count = j_failed_count j,
      js_pending_count = j_pending_count j\<rparr>"

definition map_import_job_item :: "import_item \<Rightarrow> import_job_item" where
  "map_import_job_item i =
     \<lparr>ji_item_id = i_id i, ji_source_item_id = i_source_item_id i,
      ji_source_item_kind = i_source_item_kind i, ji_position = i_position i,
      ji_status = i_status i, ji_tracking_ids = i_tracking_ids i,
      ji_sheet_row_ids = i_sheet_row_ids i, ji_error_message = i_error_message i,
      ji_attempt_count = i_attempt_count i\<rparr>"

definition map_import_attempt :: "import_attempt \<Rightarrow> import_attempt_record" where
  "map_import_attempt a =
     \<lparr>ar_attempt_id = a_id a, ar_job_item_id = a_item_id a, ar_attempt_number = a_number a,
      ar_status = a_status a, ar_error_message = a_error_message a,
      ar_raw_blob_id = a_raw_blob_id a\<rparr>"

subsection \<open>Statements and transactions\<close>

text \<open>
  A statement or a transaction body takes the store and returns an error or a
  value with the new store.  An operation that runs a body as a transaction
  keeps the old store when the body fails (rollback on drop).
\<close>

type_synonym 'a body = "store \<Rightarrow> store_error + ('a \<times> store)"
type_synonym 'a operation = "store \<Rightarrow> (store_error + 'a) \<times> store"

definition in_transaction :: "'a body \<Rightarrow> 'a operation" where
  "in_transaction body s =
     (case body s of Inl e \<Rightarrow> (Inl e, s) | Inr (v, t) \<Rightarrow> (Inr v, t))"

lemma in_transaction_Inl: "fst (in_transaction body s) = Inl e \<Longrightarrow> snd (in_transaction body s) = s"
  by (auto simp: in_transaction_def split: sum.splits)

lemma in_transaction_cases:
  assumes "snd (in_transaction body s) = t"
  obtains "t = s" | v where "body s = Inr (v, t)"
  using assms by (auto simp: in_transaction_def split: sum.splits)

lemma in_transaction_Inr_iff:
  "in_transaction body s = (Inr v, t) \<longleftrightarrow> body s = Inr (v, t)"
  by (auto simp: in_transaction_def split: sum.splits)

text \<open>\<open>ORDER BY key LIMIT 1\<close>\<close>

definition first_by :: "('r \<Rightarrow> 'k::linorder) \<Rightarrow> 'r list \<Rightarrow> 'r option" where
  "first_by key rs = (case sort_key key rs of [] \<Rightarrow> None | r # _ \<Rightarrow> Some r)"

lemma first_by_None_iff [simp]: "first_by key rs = None \<longleftrightarrow> rs = []"
  by (auto simp: first_by_def split: list.splits)
    (metis length_0_conv length_sort)

lemma first_by_SomeD:
  assumes "first_by key rs = Some r"
  shows "r \<in> set rs \<and> (\<forall>q \<in> set rs. key r \<le> key q)"
proof -
  from assms obtain qs where qs: "sort_key key rs = r # qs"
    by (auto simp: first_by_def split: list.splits)
  have "sorted (map key (r # qs))" by (metis qs sorted_sort_key)
  moreover have "set rs = set (r # qs)" by (metis qs set_sort)
  ultimately show ?thesis by auto
qed

text \<open>\<open>COALESCE(MAX(n), -1) + 1\<close> over the matching rows.\<close>

definition next_after_max :: "nat list \<Rightarrow> nat" where
  "next_after_max ns = (if ns = [] then 0 else Suc (Max (set ns)))"

lemma next_after_max_gt: "n \<in> set ns \<Longrightarrow> n < next_after_max ns"
  by (auto simp: next_after_max_def less_Suc_eq_le)

end
