(* ===== verification/SheetRows.thy ===== *)
theory SheetRows
  imports StoreTypes
begin

text \<open>
  The sheet rows of the workspace store (\<open>storage.rs\<close>): the SQL statements on
  \<open>sheet_rows\<close> with the constraints of \<open>schema.rs\<close> (primary key, one row per
  position of a sheet, existing sheet), and the operations built from them:
  generated row ids, upsert, append, clear, delete with compaction of the
  positions, transfer and copy between sheets, deletion of a sheet.
  Each operation that the source runs in a transaction is \<open>in_transaction\<close>.
\<close>

subsection \<open>Statements\<close>

definition sheet_exists :: "store \<Rightarrow> string \<Rightarrow> bool" where
  "sheet_exists s sid \<longleftrightarrow> find_by s_id sid (sheets s) \<noteq> None"

text \<open>Another row already sits at this position of the sheet.\<close>

definition position_taken :: "sheet_row list \<Rightarrow> string \<Rightarrow> string \<Rightarrow> nat \<Rightarrow> bool" where
  "position_taken rs rid sid p \<longleftrightarrow>
     (\<exists>r \<in> set rs. r_id r \<noteq> rid \<and> r_sheet_id r = sid \<and> r_position r = p)"

definition insert_sheet_row :: "sheet_row \<Rightarrow> store \<Rightarrow> store_error + store" where
  "insert_sheet_row r s =
     (if find_by r_id (r_id r) (rows s) \<noteq> None then Inl (Sqlite (Unique_Constraint ''sheet_rows.id''))
      else if position_taken (rows s) (r_id r) (r_sheet_id r) (r_position r)
           then Inl (Sqlite (Unique_Constraint ''sheet_rows.sheet_id, sheet_rows.position''))
      else if \<not> sheet_exists s (r_sheet_id r) then Inl (Sqlite Foreign_Key_Constraint)
      else Inr (s\<lparr>rows := rows s @ [r]\<rparr>))"

text \<open>\<open>UPDATE sheet_rows SET position, updated_at WHERE sheet_id AND id\<close>\<close>

definition set_row_position ::
  "string \<Rightarrow> string \<Rightarrow> nat \<times> string \<Rightarrow> store \<Rightarrow> store_error + store" where
  "set_row_position updated_at sid = (\<lambda>(p, rid) s.
     let hit = (\<lambda>r. r_sheet_id r = sid \<and> r_id r = rid)
     in if (\<exists>r \<in> set (rows s). hit r) \<and> position_taken (rows s) rid sid p
        then Inl (Sqlite (Unique_Constraint ''sheet_rows.sheet_id, sheet_rows.position''))
        else Inr (s\<lparr>rows := update_where hit
                      (\<lambda>r. r\<lparr>r_position := p, r_updated_at := updated_at\<rparr>) (rows s)\<rparr>))"

definition delete_row :: "string \<Rightarrow> string \<Rightarrow> store \<Rightarrow> store" where
  "delete_row sid rid s =
     s\<lparr>rows := filter (\<lambda>r. \<not> (r_sheet_id r = sid \<and> r_id r = rid)) (rows s)\<rparr>"

definition delete_rows_of_sheet :: "string \<Rightarrow> store \<Rightarrow> store" where
  "delete_rows_of_sheet sid s = s\<lparr>rows := filter (\<lambda>r. r_sheet_id r \<noteq> sid) (rows s)\<rparr>"

definition invalidate_cache :: "string \<Rightarrow> store \<Rightarrow> store" where
  "invalidate_cache sid s = s\<lparr>cache := filter (\<lambda>c. c_sheet_id c \<noteq> sid) (cache s)\<rparr>"

definition rows_of :: "string \<Rightarrow> store \<Rightarrow> sheet_row list" where
  "rows_of sid s = filter (\<lambda>r. r_sheet_id r = sid) (rows s)"

text \<open>\<open>SELECT id ... WHERE sheet_id ORDER BY position ASC, id ASC\<close>\<close>

definition list_sheet_row_ids :: "string \<Rightarrow> store \<Rightarrow> string list" where
  "list_sheet_row_ids sid s =
     map r_id (sort_key (\<lambda>r. (r_position r, r_id r)) (rows_of sid s))"

definition next_row_position :: "string \<Rightarrow> store \<Rightarrow> nat" where
  "next_row_position sid s = next_after_max (map r_position (rows_of sid s))"

definition next_sheet_row_position :: "string \<Rightarrow> store \<Rightarrow> nat" where
  "next_sheet_row_position sid s = as_u32 (next_row_position sid s)"

definition sheet_row_id_for_display_tracking_id :: "string \<Rightarrow> string \<Rightarrow> store \<Rightarrow> string option" where
  "sheet_row_id_for_display_tracking_id sid display s =
     map_option r_id
       (first_by (\<lambda>r. (r_position r, r_id r))
         (filter (\<lambda>r. r_sheet_id r = sid \<and> r_display_id r = display) (rows s)))"

definition sheet_has_display_tracking_id :: "string \<Rightarrow> string \<Rightarrow> store \<Rightarrow> bool" where
  "sheet_has_display_tracking_id sid display s \<longleftrightarrow>
     0 < count_where (\<lambda>r. r_sheet_id r = sid \<and> r_display_id r = display) (rows s)"

subsection \<open>Generated row ids\<close>

definition generated_row_id :: "string \<Rightarrow> nat \<Rightarrow> nat \<Rightarrow> string" where
  "generated_row_id sid p suffix =
     (if suffix = 0 then sid @ '':row:'' @ show_nat p
      else sid @ '':row:'' @ show_nat p @ '':'' @ show_nat suffix)"

text \<open>
  The loop of \<open>next_available_generated_sheet_row_id\<close>, with fuel: it tries the
  suffixes 0, 1, 2, ... until the id is free.  \<open>generated_row_id_total\<close> below
  proves that one more try than there are rows is enough.
\<close>

fun search_row_id :: "nat \<Rightarrow> store \<Rightarrow> string \<Rightarrow> nat \<Rightarrow> nat \<Rightarrow> string option" where
  "search_row_id 0 s sid p suffix = None"
| "search_row_id (Suc fuel) s sid p suffix =
     (let row_id = generated_row_id sid p suffix
      in if count_where (\<lambda>r. r_id r = row_id) (rows s) = 0 then Some row_id
         else search_row_id fuel s sid p (saturating_add u32_max suffix 1))"

definition next_available_generated_sheet_row_id :: "store \<Rightarrow> string \<Rightarrow> nat \<Rightarrow> string option" where
  "next_available_generated_sheet_row_id s sid p = search_row_id (Suc (length (rows s))) s sid p 0"

subsection \<open>Upsert\<close>

text \<open>The \<open>DELETE\<close> that frees the position: every other row there goes.\<close>

definition free_position :: "upsert_sheet_row_input \<Rightarrow> store \<Rightarrow> store" where
  "free_position input s =
     s\<lparr>rows := filter (\<lambda>r. \<not> (r_sheet_id r = ur_sheet_id input
                 \<and> r_position r = ur_position input \<and> r_id r \<noteq> ur_row_id input)) (rows s)\<rparr>"

text \<open>The \<open>VALUES\<close> of the insert, and the assignments of \<open>DO UPDATE SET\<close>.\<close>

definition inserted_row :: "env \<Rightarrow> nat \<Rightarrow> upsert_sheet_row_input \<Rightarrow> sheet_row" where
  "inserted_row env k input =
     \<lparr>r_id = ur_row_id input, r_sheet_id = ur_sheet_id input,
      r_position = ur_position input, r_display_id = ur_display_id input,
      r_lookup_id = ur_lookup_id input, r_generation = gen env k,
      r_tracking_record_id = None, r_status = ur_status input,
      r_error_message = ur_error_message input, r_created_at = now env,
      r_updated_at = now env\<rparr>"

definition updated_row ::
  "env \<Rightarrow> nat \<Rightarrow> upsert_sheet_row_input \<Rightarrow> bool \<Rightarrow> sheet_row \<Rightarrow> sheet_row" where
  "updated_row env k input preserve r =
     r\<lparr>r_position := ur_position input,
       r_display_id := ur_display_id input,
       r_tracking_record_id :=
         (if r_lookup_id r \<noteq> ur_lookup_id input then None else r_tracking_record_id r),
       r_lookup_id := ur_lookup_id input,
       r_generation :=
         (if r_lookup_id r \<noteq> ur_lookup_id input then gen env k else r_generation r),
       r_status :=
         (if preserve \<and> r_lookup_id r = ur_lookup_id input then r_status r
          else ur_status input),
       r_error_message :=
         (if preserve \<and> r_lookup_id r = ur_lookup_id input then r_error_message r
          else ur_error_message input),
       r_updated_at := now env\<rparr>"

definition upsert_sheet_row_with_mode ::
  "env \<Rightarrow> nat \<Rightarrow> upsert_sheet_row_input \<Rightarrow> bool \<Rightarrow> store \<Rightarrow> store_error + store" where
  "upsert_sheet_row_with_mode env k input preserve s =
     (case find_by r_id (ur_row_id input) (rows s) of
        Some existing \<Rightarrow>
          if r_sheet_id existing \<noteq> ur_sheet_id input
          then Inl (Row_Ownership_Conflict (ur_row_id input) (r_sheet_id existing) (ur_sheet_id input))
          else
            let s1 = free_position input s
            in if position_taken (rows s1) (ur_row_id input) (ur_sheet_id input) (ur_position input)
               then Inl (Sqlite (Unique_Constraint ''sheet_rows.sheet_id, sheet_rows.position''))
               else Inr (s1\<lparr>rows := update_where (\<lambda>r. r_id r = ur_row_id input)
                                     (updated_row env k input preserve) (rows s1)\<rparr>)
      | None \<Rightarrow> insert_sheet_row (inserted_row env k input) (free_position input s))"

definition upsert_sheet_row_on ::
  "env \<Rightarrow> nat \<Rightarrow> upsert_sheet_row_input \<Rightarrow> store \<Rightarrow> store_error + store" where
  "upsert_sheet_row_on env k input = upsert_sheet_row_with_mode env k input False"

text \<open>The loop over the inputs; \<open>k\<close> counts the generation tokens drawn.\<close>

fun upsert_all ::
  "env \<Rightarrow> nat \<Rightarrow> upsert_sheet_row_input list \<Rightarrow> bool \<Rightarrow> store \<Rightarrow> store_error + store" where
  "upsert_all env k [] preserve s = Inr s"
| "upsert_all env k (input # inputs) preserve s =
     and_then (upsert_sheet_row_with_mode env k input preserve s)
       (upsert_all env (Suc k) inputs preserve)"

definition upsert_sheet_rows_with_mode ::
  "env \<Rightarrow> string \<Rightarrow> upsert_sheet_row_input list \<Rightarrow> bool \<Rightarrow> bool \<Rightarrow> unit operation" where
  "upsert_sheet_rows_with_mode env sid inputs replace_existing preserve = (\<lambda>s.
     if list_ex (\<lambda>input. ur_sheet_id input \<noteq> sid) inputs
     then (Inl (Invalid_Value ''sheet_row_sheet_id'' sid), s)
     else in_transaction (\<lambda>s.
       let s1 = (if replace_existing then delete_rows_of_sheet sid s else s)
       in and_then (upsert_all env 0 inputs preserve s1)
            (\<lambda>s2. Inr ((), invalidate_cache sid s2))) s)"

definition upsert_sheet_rows_atomic ::
  "env \<Rightarrow> string \<Rightarrow> upsert_sheet_row_input list \<Rightarrow> bool \<Rightarrow> unit operation" where
  "upsert_sheet_rows_atomic env sid inputs replace_existing =
     upsert_sheet_rows_with_mode env sid inputs replace_existing False"

definition edit_sheet_rows_atomic ::
  "env \<Rightarrow> string \<Rightarrow> upsert_sheet_row_input list \<Rightarrow> bool \<Rightarrow> unit operation" where
  "edit_sheet_rows_atomic env sid inputs replace_existing =
     upsert_sheet_rows_with_mode env sid inputs replace_existing True"

definition upsert_sheet_row :: "env \<Rightarrow> upsert_sheet_row_input \<Rightarrow> unit operation" where
  "upsert_sheet_row env input = upsert_sheet_rows_atomic env (ur_sheet_id input) [input] False"

subsection \<open>Append\<close>

fun append_all ::
  "env \<Rightarrow> string \<Rightarrow> nat \<Rightarrow> nat \<Rightarrow> upsert_sheet_row_input list \<Rightarrow> store \<Rightarrow> store_error + store" where
  "append_all env sid start index [] s = Inr s"
| "append_all env sid start index (input # inputs) s =
     (if ur_sheet_id input \<noteq> sid \<or> find_by r_id (ur_row_id input) (rows s) \<noteq> None
      then Inl (Invalid_Value ''append_row'' (ur_row_id input))
      else if u32_max < index \<or> u32_max < start + index
      then Inl (Invalid_Value ''append_position'' (show_nat index))
      else and_then
             (upsert_sheet_row_on env index (input\<lparr>ur_position := start + index\<rparr>) s)
             (append_all env sid start (Suc index) inputs))"

definition append_sheet_rows_atomic ::
  "env \<Rightarrow> string \<Rightarrow> upsert_sheet_row_input list \<Rightarrow> unit operation" where
  "append_sheet_rows_atomic env sid inputs = in_transaction (\<lambda>s.
     let start = next_row_position sid s
     in if u32_max < start then Inl (Sqlite (Integral_Value_Out_Of_Range start))
        else and_then (append_all env sid start 0 inputs s)
               (\<lambda>s1. Inr ((), invalidate_cache sid s1)))"

subsection \<open>Clear, delete, compact\<close>

definition clear_sheet_rows :: "string \<Rightarrow> unit operation" where
  "clear_sheet_rows sid = in_transaction (\<lambda>s.
     Inr ((), invalidate_cache sid (delete_rows_of_sheet sid s)))"

definition compact_sheet_row_positions :: "string \<Rightarrow> string \<Rightarrow> store \<Rightarrow> store_error + store" where
  "compact_sheet_row_positions sid updated_at s =
     try_fold (set_row_position updated_at sid)
       (map (\<lambda>(p, rid). (as_u32 p, rid)) (enumerate 0 (list_sheet_row_ids sid s))) s"

definition delete_sheet_rows :: "env \<Rightarrow> string \<Rightarrow> string list \<Rightarrow> unit operation" where
  "delete_sheet_rows env sid row_ids = (\<lambda>s.
     if row_ids = [] then (Inr (), s)
     else in_transaction (\<lambda>s.
       and_then (compact_sheet_row_positions sid (now env) (fold (delete_row sid) row_ids s))
         (\<lambda>s1. Inr ((), invalidate_cache sid s1))) s)"

text \<open>\<open>DELETE FROM sheets\<close> with the cascades of the schema.\<close>

definition delete_sheet :: "string \<Rightarrow> store \<Rightarrow> store" where
  "delete_sheet sid s =
     (let dead_jobs = map j_id (filter (\<lambda>j. j_sheet_id j = sid) (jobs s));
          dead_items = map i_id (filter (\<lambda>i. i_job_id i \<in> set dead_jobs) (items s))
      in s\<lparr>sheets := filter (\<lambda>x. s_id x \<noteq> sid) (sheets s),
           rows := filter (\<lambda>r. r_sheet_id r \<noteq> sid) (rows s),
           jobs := filter (\<lambda>j. j_sheet_id j \<noteq> sid) (jobs s),
           items := filter (\<lambda>i. i_job_id i \<notin> set dead_jobs) (items s),
           attempts := filter (\<lambda>a. a_item_id a \<notin> set dead_items) (attempts s),
           cache := filter (\<lambda>c. c_sheet_id c \<noteq> sid) (cache s)\<rparr>)"

subsection \<open>Transfer and copy\<close>

text \<open>
  The loop over the requested row ids: blank, repeated and unknown ids are
  skipped; every other row is inserted into the target sheet under a generated
  id at the next position.  The state carries the seen ids, the next position
  and the copied ids.  An exhausted id search cannot happen
  (\<open>generated_row_id_total\<close>); the model reports it as an invalid value.
\<close>

fun transfer_loop ::
  "env \<Rightarrow> string \<Rightarrow> string \<Rightarrow> string list \<Rightarrow> string set \<Rightarrow> nat \<Rightarrow> nat \<Rightarrow> string list \<Rightarrow> store
   \<Rightarrow> store_error + (string list \<times> store)" where
  "transfer_loop env src tgt [] seen next_position k copied s = Inr (copied, s)"
| "transfer_loop env src tgt (raw_id # ids) seen next_position k copied s =
     (let row_id = trim raw_id
      in if row_id = [] \<or> row_id \<in> seen
         then transfer_loop env src tgt ids seen next_position k copied s
         else case find (\<lambda>r. r_sheet_id r = src \<and> r_id r = row_id) (rows s) of
           None \<Rightarrow> transfer_loop env src tgt ids (insert row_id seen) next_position k copied s
         | Some r \<Rightarrow>
             (case next_available_generated_sheet_row_id s tgt next_position of
                None \<Rightarrow> Inl (Invalid_Value ''sheet_row_id'' tgt)
              | Some target_id \<Rightarrow>
                  and_then (insert_sheet_row
                      \<lparr>r_id = target_id, r_sheet_id = tgt, r_position = next_position,
                       r_display_id = r_display_id r, r_lookup_id = r_lookup_id r,
                       r_generation = gen env k,
                       r_tracking_record_id = r_tracking_record_id r,
                       r_status = r_status r, r_error_message = r_error_message r,
                       r_created_at = now env, r_updated_at = now env\<rparr> s)
                    (transfer_loop env src tgt ids (insert row_id seen)
                       (saturating_add u32_max next_position 1) (Suc k) (copied @ [row_id]))))"

definition transfer_sheet_rows :: "env \<Rightarrow> transfer_sheet_rows_input \<Rightarrow> unit operation" where
  "transfer_sheet_rows env input = (\<lambda>s.
     let src = tr_source_sheet_id input; tgt = tr_target_sheet_id input
     in if tr_row_ids input = [] \<or> src = tgt then (Inr (), s)
        else in_transaction (\<lambda>s.
          and_then
            (transfer_loop env src tgt (tr_row_ids input) {} (as_u32 (next_row_position tgt s)) 0 [] s)
            (\<lambda>(copied, s1).
              and_then
                (if tr_delete_source_rows input
                 then compact_sheet_row_positions src (now env) (fold (delete_row src) copied s1)
                 else Inr s1)
                (\<lambda>s2.
                  let s3 = invalidate_cache tgt s2
                  in Inr ((), if tr_delete_source_rows input then invalidate_cache src s3 else s3)))) s)"

definition copy_sheet_rows :: "env \<Rightarrow> string \<Rightarrow> string \<Rightarrow> unit operation" where
  "copy_sheet_rows env src tgt = (\<lambda>s.
     transfer_sheet_rows env
       \<lparr>tr_source_sheet_id = src, tr_target_sheet_id = tgt,
        tr_row_ids = list_sheet_row_ids src s, tr_delete_source_rows = False\<rparr> s)"

subsection \<open>Invariant of the table\<close>

definition positions_unique :: "sheet_row list \<Rightarrow> bool" where
  "positions_unique rs \<longleftrightarrow>
     (\<forall>a \<in> set rs. \<forall>b \<in> set rs.
        r_sheet_id a = r_sheet_id b \<and> r_position a = r_position b \<longrightarrow> r_id a = r_id b)"

definition rows_ok :: "store \<Rightarrow> bool" where
  "rows_ok s \<longleftrightarrow> distinct (map r_id (rows s)) \<and> positions_unique (rows s)
     \<and> (\<forall>r \<in> set (rows s). sheet_exists s (r_sheet_id r))"

lemma positions_uniqueI:
  "(\<And>a b. a \<in> set rs \<Longrightarrow> b \<in> set rs \<Longrightarrow> r_sheet_id a = r_sheet_id b \<Longrightarrow>
     r_position a = r_position b \<Longrightarrow> r_id a = r_id b) \<Longrightarrow> positions_unique rs"
  unfolding positions_unique_def by blast

lemma positions_uniqueD:
  "positions_unique rs \<Longrightarrow> a \<in> set rs \<Longrightarrow> b \<in> set rs \<Longrightarrow> r_sheet_id a = r_sheet_id b \<Longrightarrow>
   r_position a = r_position b \<Longrightarrow> r_id a = r_id b"
  unfolding positions_unique_def by blast

lemma positions_unique_subset:
  "positions_unique rs \<Longrightarrow> set qs \<subseteq> set rs \<Longrightarrow> positions_unique qs"
  unfolding positions_unique_def by blast

lemma rows_ok_distinct: "rows_ok s \<Longrightarrow> distinct (map r_id (rows s))"
  by (simp add: rows_ok_def)

lemma rows_ok_position:
  "rows_ok s \<Longrightarrow> a \<in> set (rows s) \<Longrightarrow> b \<in> set (rows s) \<Longrightarrow>
   r_sheet_id a = r_sheet_id b \<Longrightarrow> r_position a = r_position b \<Longrightarrow> r_id a = r_id b"
  unfolding rows_ok_def by (blast dest: positions_uniqueD)

lemma rows_ok_same_id:
  "rows_ok s \<Longrightarrow> a \<in> set (rows s) \<Longrightarrow> b \<in> set (rows s) \<Longrightarrow> r_id a = r_id b \<Longrightarrow> a = b"
  by (rule distinct_key_unique [OF rows_ok_distinct])

lemma rows_ok_cong:
  "rows s = rows t \<Longrightarrow> sheets s = sheets t \<Longrightarrow> rows_ok s = rows_ok t"
  by (simp add: rows_ok_def sheet_exists_def)

lemma sheet_exists_rows [simp]: "sheet_exists (s\<lparr>rows := rs\<rparr>) = sheet_exists s"
  by (simp add: sheet_exists_def fun_eq_iff)

lemma rows_ok_filter: "rows_ok s \<Longrightarrow> rows_ok (s\<lparr>rows := filter p (rows s)\<rparr>)"
  by (simp add: rows_ok_def distinct_map_filter positions_unique_subset [of "rows s"])

lemma rows_ok_invalidate_cache [simp]: "rows_ok (invalidate_cache sid s) = rows_ok s"
  by (rule rows_ok_cong) (simp_all add: invalidate_cache_def)

lemma rows_invalidate_cache [simp]: "rows (invalidate_cache sid s) = rows s"
  by (simp add: invalidate_cache_def)

lemma rows_ok_delete_row: "rows_ok s \<Longrightarrow> rows_ok (delete_row sid rid s)"
  unfolding delete_row_def by (rule rows_ok_filter)

lemma rows_ok_delete_rows_of_sheet: "rows_ok s \<Longrightarrow> rows_ok (delete_rows_of_sheet sid s)"
  unfolding delete_rows_of_sheet_def by (rule rows_ok_filter)

lemma rows_fold_delete_row:
  "fold (delete_row sid) ids s =
     s\<lparr>rows := filter (\<lambda>r. \<not> (r_sheet_id r = sid \<and> r_id r \<in> set ids)) (rows s)\<rparr>"
proof (induction ids arbitrary: s)
  case (Cons x xs)
  have "filter (\<lambda>r. \<not> (r_sheet_id r = sid \<and> r_id r \<in> set xs))
        (filter (\<lambda>r. \<not> (r_sheet_id r = sid \<and> r_id r = x)) (rows s))
      = filter (\<lambda>r. \<not> (r_sheet_id r = sid \<and> r_id r \<in> set (x # xs))) (rows s)"
    unfolding filter_filter by (rule filter_cong) auto
  then have "(delete_row sid x s)\<lparr>rows := filter (\<lambda>r. \<not> (r_sheet_id r = sid \<and> r_id r \<in> set xs))
        (rows (delete_row sid x s))\<rparr>
      = s\<lparr>rows := filter (\<lambda>r. \<not> (r_sheet_id r = sid \<and> r_id r \<in> set (x # xs))) (rows s)\<rparr>"
    unfolding delete_row_def by simp
  then show ?case by (simp only: fold_simps comp_apply Cons)
qed simp

lemma rows_ok_fold_delete_row: "rows_ok s \<Longrightarrow> rows_ok (fold (delete_row sid) ids s)"
  unfolding rows_fold_delete_row by (rule rows_ok_filter)

lemma insert_sheet_row_Inr:
  assumes "insert_sheet_row r s = Inr t"
  shows "t = s\<lparr>rows := rows s @ [r]\<rparr> \<and> find_by r_id (r_id r) (rows s) = None
    \<and> \<not> position_taken (rows s) (r_id r) (r_sheet_id r) (r_position r)
    \<and> sheet_exists s (r_sheet_id r)"
  using assms by (simp add: insert_sheet_row_def split: if_splits)

lemma rows_ok_insert:
  assumes "insert_sheet_row r s = Inr t" and "rows_ok s"
  shows "rows_ok t"
proof -
  have t: "t = s\<lparr>rows := rows s @ [r]\<rparr>" and new: "r_id r \<notin> r_id ` set (rows s)"
    and free: "\<not> position_taken (rows s) (r_id r) (r_sheet_id r) (r_position r)"
    and ex: "sheet_exists s (r_sheet_id r)"
    using insert_sheet_row_Inr [OF assms(1)] by (auto simp: find_by_None_iff)
  have "positions_unique (rows s @ [r])"
  proof (rule positions_uniqueI)
    fix a b assume ab: "a \<in> set (rows s @ [r])" "b \<in> set (rows s @ [r])"
      "r_sheet_id a = r_sheet_id b" "r_position a = r_position b"
    then consider "a = r" | "b = r" | "a \<in> set (rows s)" "b \<in> set (rows s)" by auto
    then show "r_id a = r_id b"
    proof cases
      case 1
      with ab free show ?thesis unfolding position_taken_def by fastforce
    next
      case 2
      with ab free show ?thesis unfolding position_taken_def by fastforce
    next
      case 3
      with ab assms(2) show ?thesis by (blast intro: rows_ok_position)
    qed
  qed
  with t new ex assms(2) show ?thesis by (simp add: rows_ok_def)
qed

text \<open>Updating the row with a given id keeps the table well formed when its position is free.\<close>

lemma rows_ok_update_row:
  assumes ok: "rows_ok s"
    and hit: "\<And>r. hit r \<Longrightarrow> r_id r = rid \<and> r_sheet_id r = sid"
    and keep: "\<And>r. r_id (f r) = r_id r \<and> r_sheet_id (f r) = r_sheet_id r \<and> r_position (f r) = p"
    and free: "\<And>r. r \<in> set (rows s) \<Longrightarrow> hit r \<Longrightarrow> \<not> position_taken (rows s) rid sid p"
  shows "rows_ok (s\<lparr>rows := update_where hit f (rows s)\<rparr>)"
proof -
  have dist: "distinct (map r_id (update_where hit f (rows s)))"
    using ok keep by (simp add: rows_ok_def)
  have same: "r_id a = r_id b"
    if a: "a \<in> set (update_where hit f (rows s))" and b: "b \<in> set (update_where hit f (rows s))"
      and eq: "r_sheet_id a = r_sheet_id b" "r_position a = r_position b" for a b
  proof -
    obtain a' where a': "a' \<in> set (rows s)" "a = (if hit a' then f a' else a')"
      using a by (auto simp: set_update_where)
    obtain b' where b': "b' \<in> set (rows s)" "b = (if hit b' then f b' else b')"
      using b by (auto simp: set_update_where)
    have id: "r_id a = r_id a'" "r_id b = r_id b'" "r_sheet_id a = r_sheet_id a'"
      "r_sheet_id b = r_sheet_id b'"
      using a'(2) b'(2) keep by auto
    have clash: "r_id y = rid"
      if "x \<in> set (rows s)" "hit x" "y \<in> set (rows s)" "r_sheet_id y = sid" "r_position y = p" for x y
      using free [OF that(1,2)] that(3-) by (auto simp: position_taken_def)
    show ?thesis
    proof (cases "hit a' \<or> hit b'")
      case True
      then show ?thesis
        using a' b' id eq keep hit clash by metis
    next
      case False
      with a'(2) b'(2) have ab: "a = a'" "b = b'" by auto
      with eq show ?thesis using rows_ok_position [OF ok a'(1) b'(1)] by simp
    qed
  qed
  moreover have "positions_unique (update_where hit f (rows s))"
    by (rule positions_uniqueI) (rule same)
  moreover have "\<forall>r \<in> set (update_where hit f (rows s)). sheet_exists s (r_sheet_id r)"
    using ok keep by (auto simp: rows_ok_def in_update_where)
  ultimately show ?thesis using dist unfolding rows_ok_def by simp
qed

lemma rows_ok_set_row_position:
  assumes "set_row_position u sid (p, rid) s = Inr t" and "rows_ok s"
  shows "rows_ok t"
proof -
  let ?hit = "\<lambda>r. r_sheet_id r = sid \<and> r_id r = rid"
  from assms(1) have free: "\<And>r. r \<in> set (rows s) \<Longrightarrow> ?hit r \<Longrightarrow> \<not> position_taken (rows s) rid sid p"
    and t: "t = s\<lparr>rows := update_where ?hit
                  (\<lambda>r. r\<lparr>r_position := p, r_updated_at := u\<rparr>) (rows s)\<rparr>"
    by (auto simp: set_row_position_def Let_def split: if_splits)
  show ?thesis unfolding t
    by (rule rows_ok_update_row [OF assms(2)]) (use free in auto)
qed

lemma free_position_simps [simp]:
  "sheets (free_position input s) = sheets s"
  "sheet_exists (free_position input s) = sheet_exists s"
  by (simp_all add: free_position_def sheet_exists_def fun_eq_iff)

lemma rows_ok_free_position: "rows_ok s \<Longrightarrow> rows_ok (free_position input s)"
  unfolding free_position_def by (rule rows_ok_filter)

lemma free_position_frees:
  "\<not> position_taken (rows (free_position input s)) (ur_row_id input) (ur_sheet_id input)
       (ur_position input)"
  by (auto simp: free_position_def position_taken_def)

lemma updated_row_simps [simp]:
  "r_id (updated_row env k input preserve r) = r_id r"
  "r_sheet_id (updated_row env k input preserve r) = r_sheet_id r"
  "r_position (updated_row env k input preserve r) = ur_position input"
  "r_display_id (updated_row env k input preserve r) = ur_display_id input"
  "r_lookup_id (updated_row env k input preserve r) = ur_lookup_id input"
  by (simp_all add: updated_row_def)

lemma inserted_row_simps [simp]:
  "r_id (inserted_row env k input) = ur_row_id input"
  "r_sheet_id (inserted_row env k input) = ur_sheet_id input"
  "r_position (inserted_row env k input) = ur_position input"
  "r_display_id (inserted_row env k input) = ur_display_id input"
  "r_lookup_id (inserted_row env k input) = ur_lookup_id input"
  by (simp_all add: inserted_row_def)

lemma find_by_free_position:
  "find_by r_id (ur_row_id input) (rows (free_position input s))
     = find_by r_id (ur_row_id input) (rows s)"
proof -
  have "find_by r_id k (filter (\<lambda>r. \<not> (P r \<and> r_id r \<noteq> k)) rs) = find_by r_id k rs" for P k rs
    by (induction rs) auto
  from this [of "ur_row_id input" "\<lambda>r. r_sheet_id r = ur_sheet_id input \<and> r_position r = ur_position input"]
  show ?thesis by (simp add: free_position_def conj_assoc)
qed

text \<open>What an upsert does: the only failures are a foreign owner and a missing sheet.\<close>

lemma upsert_new:
  assumes "find_by r_id (ur_row_id input) (rows s) = None"
  shows "upsert_sheet_row_with_mode env k input preserve s =
    (if sheet_exists s (ur_sheet_id input)
     then Inr ((free_position input s)\<lparr>rows := rows (free_position input s) @ [inserted_row env k input]\<rparr>)
     else Inl (Sqlite Foreign_Key_Constraint))"
  using assms free_position_frees [of input s]
  by (simp add: upsert_sheet_row_with_mode_def insert_sheet_row_def find_by_free_position)

lemma upsert_existing:
  assumes "find_by r_id (ur_row_id input) (rows s) = Some r"
  shows "upsert_sheet_row_with_mode env k input preserve s =
    (if r_sheet_id r \<noteq> ur_sheet_id input
     then Inl (Row_Ownership_Conflict (ur_row_id input) (r_sheet_id r) (ur_sheet_id input))
     else Inr ((free_position input s)\<lparr>rows := update_where (\<lambda>r. r_id r = ur_row_id input)
            (updated_row env k input preserve) (rows (free_position input s))\<rparr>))"
  using assms free_position_frees [of input s]
  by (simp add: upsert_sheet_row_with_mode_def Let_def)

lemma rows_ok_upsert:
  assumes up: "upsert_sheet_row_with_mode env k input preserve s = Inr t" and ok: "rows_ok s"
  shows "rows_ok t"
proof (cases "find_by r_id (ur_row_id input) (rows s)")
  case None
  then have "insert_sheet_row (inserted_row env k input) (free_position input s) = Inr t"
    using up by (simp add: upsert_sheet_row_with_mode_def)
  then show ?thesis by (rule rows_ok_insert) (rule rows_ok_free_position [OF ok])
next
  case (Some e)
  let ?s1 = "free_position input s"
  let ?f = "updated_row env k input preserve"
  have ok1: "rows_ok ?s1" by (rule rows_ok_free_position [OF ok])
  from up have own: "r_sheet_id e = ur_sheet_id input"
    and t: "t = ?s1\<lparr>rows := update_where (\<lambda>r. r_id r = ur_row_id input) ?f (rows ?s1)\<rparr>"
    by (auto simp: upsert_existing [OF Some] split: if_splits)
  have e: "e \<in> set (rows ?s1)" "r_id e = ur_row_id input"
    using find_by_SomeD [of r_id _ "rows ?s1"] Some find_by_free_position [of input s] by auto
  have "update_where (\<lambda>r. r_id r = ur_row_id input) ?f (rows ?s1)
      = update_where (\<lambda>r. r_id r = ur_row_id input \<and> r_sheet_id r = ur_sheet_id input) ?f (rows ?s1)"
    unfolding update_where_def
    by (rule map_cong) (use rows_ok_same_id [OF ok1 _ e(1)] e(2) own in auto)
  moreover have "rows_ok (?s1\<lparr>rows := update_where
      (\<lambda>r. r_id r = ur_row_id input \<and> r_sheet_id r = ur_sheet_id input) ?f (rows ?s1)\<rparr>)"
    by (rule rows_ok_update_row [OF ok1, where rid = "ur_row_id input"
        and sid = "ur_sheet_id input" and p = "ur_position input"])
      (use free_position_frees in auto)
  ultimately show ?thesis by (simp add: t)
qed

subsection \<open>Generated ids are found and are free\<close>

lemma show_nat_colon: "CHR '':'' \<notin> set (show_nat n)"
  using show_nat_digits [of "CHR '':''" n] by (auto simp: is_ascii_digit_def)

lemma generated_row_id_inject:
  "generated_row_id sid p k = generated_row_id sid p k' \<longleftrightarrow> k = k'"
proof -
  have "show_nat p \<noteq> show_nat p @ '':'' @ x" for x by simp
  then show ?thesis by (auto simp: generated_row_id_def)
qed

text \<open>Ids generated for different positions differ, whatever their suffixes.\<close>

lemma split_at_colon:
  assumes "a @ CHR '':'' # x = b @ CHR '':'' # y" and "CHR '':'' \<notin> set a" "CHR '':'' \<notin> set b"
  shows "a = b \<and> x = y"
proof -
  have "takeWhile (\<lambda>c. c \<noteq> CHR '':'') (a @ CHR '':'' # x) = a"
    using assms(2) by (subst takeWhile_append2) auto
  moreover have "takeWhile (\<lambda>c. c \<noteq> CHR '':'') (b @ CHR '':'' # y) = b"
    using assms(3) by (subst takeWhile_append2) auto
  ultimately have "a = b" using assms(1) by simp
  with assms(1) show ?thesis by simp
qed

lemma generated_row_id_position:
  assumes "generated_row_id sid p k = generated_row_id sid q l"
  shows "p = q"
proof -
  have c: "CHR '':'' \<notin> set (show_nat n)" for n by (rule show_nat_colon)
  consider "k = 0 \<and> l = 0" | "k = 0 \<and> l \<noteq> 0" | "k \<noteq> 0 \<and> l = 0" | "k \<noteq> 0 \<and> l \<noteq> 0"
    by fastforce
  then show ?thesis
  proof cases
    case 1
    with assms show ?thesis by (simp add: generated_row_id_def)
  next
    case 2
    with assms have "show_nat p = show_nat q @ CHR '':'' # show_nat l"
      by (simp add: generated_row_id_def)
    with c [of p] show ?thesis by simp
  next
    case 3
    with assms have "show_nat q = show_nat p @ CHR '':'' # show_nat k"
      by (simp add: generated_row_id_def)
    with c [of q] show ?thesis by simp
  next
    case 4
    with assms have "show_nat p @ CHR '':'' # show_nat k = show_nat q @ CHR '':'' # show_nat l"
      by (simp add: generated_row_id_def)
    from split_at_colon [OF this c c] show ?thesis by simp
  qed
qed

lemma search_row_id_free:
  "search_row_id fuel s sid p k = Some x \<Longrightarrow> find_by r_id x (rows s) = None"
proof (induction fuel arbitrary: k)
  case (Suc fuel)
  show ?case
  proof (cases "count_where (\<lambda>r. r_id r = generated_row_id sid p k) (rows s) = 0")
    case True
    with Suc.prems show ?thesis by (auto simp: find_by_None_iff)
  next
    case False
    with Suc show ?thesis by (simp add: Let_def del: count_where_0_iff)
  qed
qed simp

lemma search_row_id_shape:
  "search_row_id fuel s sid p k = Some x \<Longrightarrow> \<exists>m. x = generated_row_id sid p m"
proof (induction fuel arbitrary: k)
  case (Suc fuel)
  show ?case
  proof (cases "count_where (\<lambda>r. r_id r = generated_row_id sid p k) (rows s) = 0")
    case True
    with Suc.prems show ?thesis by (auto simp: Let_def)
  next
    case False
    with Suc show ?thesis by (simp add: Let_def del: count_where_0_iff)
  qed
qed simp

text \<open>If the search fails, every id it tried is the id of some row.\<close>

lemma search_row_id_None:
  assumes "search_row_id fuel s sid p k = None" and "k + fuel \<le> u32_max" and "i < fuel"
  shows "\<exists>r \<in> set (rows s). r_id r = generated_row_id sid p (k + i)"
  using assms
proof (induction fuel arbitrary: k i)
  case (Suc fuel)
  have taken: "\<exists>r \<in> set (rows s). r_id r = generated_row_id sid p k"
    and rest: "search_row_id fuel s sid p (Suc k) = None"
    using Suc.prems(1,2) by (auto simp: Let_def saturating_add_exact split: if_splits)
  show ?case
  proof (cases i)
    case 0
    with taken show ?thesis by simp
  next
    case (Suc j)
    with Suc.IH [OF rest, of j] Suc.prems(2,3) show ?thesis by simp
  qed
qed simp

lemma generated_row_id_total:
  assumes "length (rows s) < u32_max"
  shows "\<exists>x. next_available_generated_sheet_row_id s sid p = Some x"
proof (rule ccontr)
  let ?n = "length (rows s)"
  assume "\<nexists>x. next_available_generated_sheet_row_id s sid p = Some x"
  then have "search_row_id (Suc ?n) s sid p 0 = None"
    by (simp add: next_available_generated_sheet_row_id_def)
  then have "\<exists>r \<in> set (rows s). r_id r = generated_row_id sid p i" if "i < Suc ?n" for i
    using search_row_id_None [of "Suc ?n" s sid p 0 i] assms that by simp
  then have "generated_row_id sid p ` {..<Suc ?n} \<subseteq> r_id ` set (rows s)"
    by (auto simp: image_iff) metis
  moreover have "inj_on (generated_row_id sid p) {..<Suc ?n}"
    by (simp add: inj_on_def generated_row_id_inject)
  ultimately have "Suc ?n \<le> card (r_id ` set (rows s))"
    by (metis card_image card_lessThan card_mono finite_imageI finite_set)
  also have "\<dots> \<le> ?n" by (metis card_image_le card_length finite_set le_trans)
  finally show False by simp
qed

lemma generated_row_id_fresh:
  "next_available_generated_sheet_row_id s sid p = Some x \<Longrightarrow> find_by r_id x (rows s) = None"
  unfolding next_available_generated_sheet_row_id_def by (rule search_row_id_free)

subsection \<open>Compaction of the positions\<close>

definition rows_in_order :: "string \<Rightarrow> store \<Rightarrow> sheet_row list" where
  "rows_in_order sid s = sort_key (\<lambda>r. (r_position r, r_id r)) (rows_of sid s)"

definition index_of :: "'a list \<Rightarrow> 'a \<Rightarrow> nat" where
  "index_of xs x = length (takeWhile (\<lambda>y. y \<noteq> x) xs)"

lemma index_of_nth: "distinct xs \<Longrightarrow> k < length xs \<Longrightarrow> index_of xs (xs ! k) = k"
proof (induction xs arbitrary: k)
  case (Cons x xs)
  then show ?case by (cases k) (auto simp: index_of_def)
qed simp

lemma index_of_take: "distinct xs \<Longrightarrow> x \<in> set (take k xs) \<Longrightarrow> index_of xs x < k"
  by (auto simp: in_set_conv_nth index_of_nth)

lemma list_sheet_row_ids_order: "list_sheet_row_ids sid s = map r_id (rows_in_order sid s)"
  by (simp add: list_sheet_row_ids_def rows_in_order_def)

lemma set_rows_in_order [simp]: "set (rows_in_order sid s) = set (rows_of sid s)"
  by (simp add: rows_in_order_def)

lemma length_rows_in_order [simp]: "length (rows_in_order sid s) = length (rows_of sid s)"
  by (simp add: rows_in_order_def)

lemma set_list_sheet_row_ids: "set (list_sheet_row_ids sid s) = r_id ` set (rows_of sid s)"
  by (simp add: list_sheet_row_ids_order)

lemma distinct_list_sheet_row_ids:
  assumes "rows_ok s"
  shows "distinct (list_sheet_row_ids sid s)"
proof -
  have "distinct (map r_id (rows_of sid s))"
    using assms by (simp add: rows_ok_def rows_of_def distinct_map_filter)
  then have "distinct (map r_id (rows_in_order sid s))"
    by (simp add: distinct_map rows_in_order_def)
  then show ?thesis by (simp add: list_sheet_row_ids_order)
qed

lemma positions_increasing:
  assumes "rows_ok s"
  shows "sorted_wrt (<) (map r_position (rows_in_order sid s))"
proof -
  let ?rs = "rows_in_order sid s"
  have "sorted (map (\<lambda>r. (r_position r, r_id r)) ?rs)"
    unfolding rows_in_order_def by (rule sorted_sort_key)
  then have "sorted_wrt (\<lambda>a b. r_position a \<le> r_position b) ?rs"
    by (auto simp: sorted_map less_eq_prod_def elim!: sorted_wrt_mono_rel [rotated])
  then have "sorted (map r_position ?rs)"
    by (simp add: sorted_map)
  moreover have "distinct (map r_position ?rs)"
  proof -
    have "distinct ?rs" using distinct_list_sheet_row_ids [OF assms, of sid]
      by (simp add: list_sheet_row_ids_order distinct_map)
    moreover have "inj_on r_position (set ?rs)"
    proof (rule inj_onI)
      fix a b assume "a \<in> set ?rs" "b \<in> set ?rs" and p: "r_position a = r_position b"
      then have ab: "a \<in> set (rows s)" "b \<in> set (rows s)" and "r_sheet_id a = r_sheet_id b"
        by (simp_all add: rows_of_def)
      then have "r_id a = r_id b" using p by (intro rows_ok_position [OF assms])
      then show "a = b" by (rule rows_ok_same_id [OF assms ab])
    qed
    ultimately show ?thesis by (simp add: distinct_map)
  qed
  ultimately show ?thesis by (simp add: strict_sorted_iff)
qed

lemma position_ge_index:
  assumes "rows_ok s" and "r \<in> set (rows_of sid s)" and "r_id r = list_sheet_row_ids sid s ! j"
    and "j < length (list_sheet_row_ids sid s)"
  shows "j \<le> r_position r"
proof -
  let ?rs = "rows_in_order sid s"
  have j: "j < length ?rs" using assms(4) by (simp add: list_sheet_row_ids_order)
  then have "?rs ! j \<in> set (rows_of sid s)" by (metis nth_mem set_rows_in_order)
  moreover have "r_id (?rs ! j) = r_id r" using assms(3) j by (simp add: list_sheet_row_ids_order)
  ultimately have "?rs ! j = r"
    using assms(1,2) rows_ok_same_id by (metis (mono_tags, lifting) filter_is_subset rows_of_def subsetD)
  moreover have "j \<le> map r_position ?rs ! j"
    using sorted_wrt_less_idx [OF positions_increasing [OF assms(1)]] j by simp
  ultimately show ?thesis using j by simp
qed

text \<open>The table after the first \<open>k\<close> rows of the order got their new positions.\<close>

definition repositioned ::
  "string \<Rightarrow> string \<Rightarrow> string list \<Rightarrow> nat \<Rightarrow> sheet_row list \<Rightarrow> sheet_row list" where
  "repositioned u sid ids k = update_where (\<lambda>r. r_sheet_id r = sid \<and> r_id r \<in> set (take k ids))
     (\<lambda>r. r\<lparr>r_position := index_of ids (r_id r), r_updated_at := u\<rparr>)"

lemma compact_step:
  assumes ok: "rows_ok s" and ids: "ids = list_sheet_row_ids sid s" and k: "k < length ids"
  shows "set_row_position u sid (k, ids ! k) (s\<lparr>rows := repositioned u sid ids k (rows s)\<rparr>)
       = Inr (s\<lparr>rows := repositioned u sid ids (Suc k) (rows s)\<rparr>)"
proof -
  let ?rs = "repositioned u sid ids k (rows s)"
  let ?hit = "\<lambda>r. r_sheet_id r = sid \<and> r_id r = ids ! k"
  have dist: "distinct ids" unfolding ids by (rule distinct_list_sheet_row_ids [OF ok])
  have "\<not> position_taken ?rs (ids ! k) sid k"
  proof
    assume "position_taken ?rs (ids ! k) sid k"
    then obtain r where r: "r \<in> set ?rs" "r_id r \<noteq> ids ! k" "r_sheet_id r = sid" "r_position r = k"
      by (auto simp: position_taken_def)
    then consider
      (old) "r \<in> set (rows s)" "r_id r \<notin> set (take k ids)"
      | (new) q where "r_id q \<in> set (take k ids)"
          "r = q\<lparr>r_position := index_of ids (r_id q), r_updated_at := u\<rparr>"
      by (auto simp: repositioned_def in_update_where)
    then show False
    proof cases
      case new
      with r(4) index_of_take [OF dist] show False by fastforce
    next
      case old
      with r(3) have of: "r \<in> set (rows_of sid s)" by (simp add: rows_of_def)
      then have "r_id r \<in> set ids" by (simp add: ids set_list_sheet_row_ids)
      then obtain j where j: "j < length ids" "ids ! j = r_id r" by (auto simp: in_set_conv_nth)
      with old(2) have "k \<le> j" by (metis in_set_conv_nth leI length_take min_less_iff_conj nth_take)
      with r(2) j(2) have "k < j" by (metis le_neq_implies_less)
      moreover have "j \<le> r_position r"
        using position_ge_index [OF ok of, of j] j ids by simp
      ultimately show False using r(4) by simp
    qed
  qed
  moreover have "update_where ?hit (\<lambda>r. r\<lparr>r_position := k, r_updated_at := u\<rparr>) ?rs
      = repositioned u sid ids (Suc k) (rows s)"
  proof -
    have "index_of ids (ids ! k) = k" by (rule index_of_nth [OF dist k])
    moreover have "ids ! k \<notin> set (take k ids)"
      using dist k by (auto simp: in_set_conv_nth nth_eq_iff_index_eq)
    ultimately show ?thesis
      by (auto simp: repositioned_def update_where_def take_Suc_conv_app_nth [OF k])
  qed
  ultimately show ?thesis by (simp add: set_row_position_def)
qed

lemma try_fold_append:
  "try_fold f (xs @ ys) s = and_then (try_fold f xs s) (try_fold f ys)"
  by (induction xs arbitrary: s) (auto simp: and_then_def split: sum.splits)

lemma compact_prefix:
  assumes ok: "rows_ok s" and ids: "ids = list_sheet_row_ids sid s" and len: "length ids \<le> u32_max"
    and "k \<le> length ids"
  shows "try_fold (set_row_position u sid) (take k (map (\<lambda>(p, rid). (as_u32 p, rid)) (enumerate 0 ids))) s
       = Inr (s\<lparr>rows := repositioned u sid ids k (rows s)\<rparr>)"
  using assms(4)
proof (induction k)
  case 0
  then show ?case by (simp add: repositioned_def update_where_id)
next
  case (Suc k)
  then have k: "k < length ids" by simp
  let ?ps = "map (\<lambda>(p, rid). (as_u32 p, rid)) (enumerate 0 ids)"
  have "?ps ! k = (k, ids ! k)"
    using k len by (simp add: nth_enumerate_eq as_u32_id)
  moreover have "k < length ?ps" using k by simp
  ultimately have "take (Suc k) ?ps = take k ?ps @ [(k, ids ! k)]"
    by (simp only: take_Suc_conv_app_nth)
  with Suc.IH k show ?case
    by (simp add: try_fold_append compact_step [OF ok ids k] del: take_map)
qed

lemma compact_total:
  assumes ok: "rows_ok s" and len: "length (list_sheet_row_ids sid s) \<le> u32_max"
  shows "compact_sheet_row_positions sid u s
       = Inr (s\<lparr>rows := repositioned u sid (list_sheet_row_ids sid s)
                          (length (list_sheet_row_ids sid s)) (rows s)\<rparr>)"
  using compact_prefix [OF ok refl len order_refl]
  by (simp add: compact_sheet_row_positions_def)

lemma rows_ok_compact:
  assumes "compact_sheet_row_positions sid u s = Inr t" and "rows_ok s"
  shows "rows_ok t"
  using assms(1) unfolding compact_sheet_row_positions_def
  by (rule try_fold_invariant [where P = rows_ok, OF _ assms(2)])
    (metis prod.exhaust rows_ok_set_row_position)

lemma rows_of_repositioned_other:
  "sid \<noteq> other \<Longrightarrow> filter (\<lambda>r. r_sheet_id r = other) (repositioned u sid ids k rs)
     = filter (\<lambda>r. r_sheet_id r = other) rs"
  by (induction rs) (auto simp: repositioned_def)

lemma rows_of_repositioned:
  assumes "ids = list_sheet_row_ids sid s" and "n = length ids"
  shows "rows_of sid (s\<lparr>rows := repositioned u sid ids n (rows s)\<rparr>)
       = map (\<lambda>r. r\<lparr>r_position := index_of ids (r_id r), r_updated_at := u\<rparr>) (rows_of sid s)"
proof -
  have "filter (\<lambda>r. r_sheet_id r = sid) (repositioned u sid ids n rs)
      = map (\<lambda>r. r\<lparr>r_position := index_of ids (r_id r), r_updated_at := u\<rparr>)
          (filter (\<lambda>r. r_sheet_id r = sid) rs)"
    if "\<And>r. r \<in> set rs \<Longrightarrow> r_sheet_id r = sid \<Longrightarrow> r_id r \<in> set ids" for rs
    using that assms(2) by (induction rs) (auto simp: repositioned_def)
  then show ?thesis
    using assms(1) by (auto simp: rows_of_def set_list_sheet_row_ids)
qed

lemma rows_in_order_repositioned:
  assumes ok: "rows_ok s" and ids: "ids = list_sheet_row_ids sid s"
  shows "rows_in_order sid (s\<lparr>rows := repositioned u sid ids (length ids) (rows s)\<rparr>)
       = map (\<lambda>r. r\<lparr>r_position := index_of ids (r_id r), r_updated_at := u\<rparr>) (rows_in_order sid s)"
proof -
  let ?g = "\<lambda>r. r\<lparr>r_position := index_of ids (r_id r), r_updated_at := u\<rparr>"
  let ?key = "\<lambda>r. (r_position r, r_id r)"
  let ?rs = "rows_in_order sid s"
  have len: "length ids = length ?rs" by (simp add: ids list_sheet_row_ids_order)
  have dist: "distinct ids" unfolding ids by (rule distinct_list_sheet_row_ids [OF ok])
  have nth: "index_of ids (r_id (?rs ! k)) = k" if "k < length ?rs" for k
    using index_of_nth [OF dist, of k] that len by (simp add: ids list_sheet_row_ids_order)
  have "mset (map ?g (rows_of sid s)) = mset (map ?g ?rs)"
    by (simp add: rows_in_order_def)
  moreover have "inj_on ?key (set (map ?g (rows_of sid s)))"
  proof (rule inj_onI)
    fix a b assume a: "a \<in> set (map ?g (rows_of sid s))" and b: "b \<in> set (map ?g (rows_of sid s))"
      and eq: "?key a = ?key b"
    obtain a' b' where ab: "a' \<in> set (rows s)" "b' \<in> set (rows s)" "a = ?g a'" "b = ?g b'"
      using a b by (auto simp: rows_of_def)
    with eq have "r_id a' = r_id b'" by simp
    with ab rows_ok_same_id [OF ok] show "a = b" by blast
  qed
  moreover have "sorted (map ?key (map ?g ?rs))"
    by (auto simp: sorted_iff_nth_mono_less less_eq_prod_def nth)
  ultimately have "sort_key ?key (map ?g (rows_of sid s)) = map ?g ?rs"
    by (rule sort_key_inj_key_eq)
  then show ?thesis
    by (simp add: rows_in_order_def [of sid "s\<lparr>rows := r\<rparr>" for r] rows_of_repositioned [OF ids refl])
qed

lemma compacted_order:
  assumes "rows_ok s" and "ids = list_sheet_row_ids sid s"
    and "t = s\<lparr>rows := repositioned u sid ids (length ids) (rows s)\<rparr>"
  shows "list_sheet_row_ids sid t = ids \<and> map r_position (rows_in_order sid t) = [0..<length ids]"
proof -
  have dist: "distinct ids" unfolding assms(2) by (rule distinct_list_sheet_row_ids [OF assms(1)])
  have order: "rows_in_order sid t =
      map (\<lambda>r. r\<lparr>r_position := index_of ids (r_id r), r_updated_at := u\<rparr>) (rows_in_order sid s)"
    unfolding assms(3) by (rule rows_in_order_repositioned [OF assms(1,2)])
  have "map (index_of ids) ids = [0..<length ids]"
    by (rule nth_equalityI) (simp_all add: index_of_nth [OF dist])
  then show ?thesis
    by (simp add: list_sheet_row_ids_order [of sid t] order assms(2) list_sheet_row_ids_order comp_def)
qed

lemma list_sheet_row_ids_delete:
  "list_sheet_row_ids sid (fold (delete_row sid) del s)
     = filter (\<lambda>x. x \<notin> set del) (list_sheet_row_ids sid s)"
proof -
  have "rows_of sid (fold (delete_row sid) del s) = filter (\<lambda>r. r_id r \<notin> set del) (rows_of sid s)"
    by (simp add: rows_fold_delete_row rows_of_def) (rule filter_cong, auto)
  then have "rows_in_order sid (fold (delete_row sid) del s)
      = filter (\<lambda>r. r_id r \<notin> set del) (rows_in_order sid s)"
    by (simp add: rows_in_order_def filter_sort)
  then show ?thesis by (simp add: list_sheet_row_ids_order filter_map comp_def)
qed

lemma list_sheet_row_ids_cong:
  "rows s = rows t \<Longrightarrow> list_sheet_row_ids sid s = list_sheet_row_ids sid t"
  "rows s = rows t \<Longrightarrow> rows_in_order sid s = rows_in_order sid t"
  by (simp_all add: list_sheet_row_ids_def rows_in_order_def rows_of_def)

lemma length_list_sheet_row_ids_le: "length (list_sheet_row_ids sid s) \<le> length (rows s)"
  by (simp add: list_sheet_row_ids_def rows_of_def)

text \<open>
  \<open>C22.\<close> Deleting rows from a well-formed sheet never fails: the position
  updates of the compaction, issued one by one under the uniqueness constraint
  on (sheet, position), never collide.  The remaining rows keep their order and
  get the positions 0, 1, 2, ...; the rows of every other sheet are untouched.
\<close>

theorem delete_sheet_rows_compacts:
  assumes ok: "rows_ok s" and len: "length (rows s) \<le> u32_max" and ne: "row_ids \<noteq> []"
  shows "\<exists>t. delete_sheet_rows env sid row_ids s = (Inr (), t) \<and> rows_ok t
    \<and> list_sheet_row_ids sid t = filter (\<lambda>x. x \<notin> set row_ids) (list_sheet_row_ids sid s)
    \<and> map r_position (rows_in_order sid t) = [0..<length (list_sheet_row_ids sid t)]
    \<and> (\<forall>other. other \<noteq> sid \<longrightarrow> rows_of other t = rows_of other s)"
proof -
  let ?s1 = "fold (delete_row sid) row_ids s"
  let ?ids = "list_sheet_row_ids sid ?s1"
  let ?s2 = "?s1\<lparr>rows := repositioned (now env) sid ?ids (length ?ids) (rows ?s1)\<rparr>"
  let ?t = "invalidate_cache sid ?s2"
  have ok1: "rows_ok ?s1" by (rule rows_ok_fold_delete_row [OF ok])
  have "length (rows ?s1) \<le> length (rows s)" by (simp add: rows_fold_delete_row)
  with len length_list_sheet_row_ids_le [of sid ?s1] have len1: "length ?ids \<le> u32_max"
    by linarith
  have run: "compact_sheet_row_positions sid (now env) ?s1 = Inr ?s2"
    by (rule compact_total [OF ok1 len1])
  have "delete_sheet_rows env sid row_ids s = (Inr (), ?t)"
    using ne run by (simp add: delete_sheet_rows_def in_transaction_def)
  moreover have "rows_ok ?t" using rows_ok_compact [OF run ok1] by simp
  moreover have "list_sheet_row_ids sid ?t = ?ids"
    "map r_position (rows_in_order sid ?t) = [0..<length ?ids]"
    using compacted_order [OF ok1 refl refl, of sid "now env"]
      list_sheet_row_ids_cong [of ?t ?s2] by simp_all
  moreover have "rows_of other ?t = rows_of other s" if "other \<noteq> sid" for other
    using that by (simp add: rows_of_def rows_of_repositioned_other rows_fold_delete_row)
      (rule filter_cong, auto)
  ultimately show ?thesis by (auto simp: list_sheet_row_ids_delete)
qed

definition sample_row :: "string \<Rightarrow> string \<Rightarrow> nat \<Rightarrow> sheet_row" where
  "sample_row rid sid p =
     \<lparr>r_id = rid, r_sheet_id = sid, r_position = p, r_display_id = rid, r_lookup_id = rid,
      r_generation = ''g'', r_tracking_record_id = None, r_status = Row_Loaded,
      r_error_message = None, r_created_at = ''t0'', r_updated_at = ''t0''\<rparr>"

definition sample_sheet :: "string \<Rightarrow> sheet" where
  "sample_sheet sid = \<lparr>s_id = sid, s_workspace_id = ''w'', s_name = sid, s_position = 0,
     s_created_at = ''t0'', s_updated_at = ''t0''\<rparr>"

definition sample_env :: env where
  "sample_env = \<lparr>now = ''t1'', gen = (\<lambda>k. ''g'' @ show_nat k)\<rparr>"

definition sample_store :: store where
  "sample_store =
     \<lparr>sheets = [sample_sheet ''A'', sample_sheet ''B''],
      rows = [sample_row ''r2'' ''A'' 2, sample_row ''r0'' ''A'' 0, sample_row ''r1'' ''A'' 1,
              sample_row ''q0'' ''B'' 0],
      jobs = [], items = [], attempts = [], cache = []\<rparr>"

lemma rows_ok_sample_store: "rows_ok sample_store"
  by (simp add: rows_ok_def positions_unique_def sample_store_def sample_row_def sample_sheet_def
      sheet_exists_def)

theorem delete_sheet_rows_compacts_witness:
  "\<exists>t. delete_sheet_rows sample_env ''A'' [''r0''] sample_store = (Inr (), t) \<and> rows_ok t
    \<and> list_sheet_row_ids ''A'' t = [''r1'', ''r2'']"
proof -
  have "length (rows sample_store) \<le> u32_max" by (simp add: sample_store_def)
  moreover have "list_sheet_row_ids ''A'' sample_store = [''r0'', ''r1'', ''r2'']"
    by (simp add: list_sheet_row_ids_def rows_of_def sample_store_def sample_row_def)
  ultimately show ?thesis
    using delete_sheet_rows_compacts [OF rows_ok_sample_store, of "[''r0'']" sample_env "''A''"]
    by auto
qed

end
