(* ===== verification/ImportJobs.thy ===== *)
theory ImportJobs
  imports SheetRows
begin

text \<open>
  The import-job tables of the workspace store (\<open>storage.rs\<close>): creating a job
  with its items, claiming the next pending item, starting and finishing an
  attempt, cancelling, recovering after a shutdown, retrying what failed, and the
  recomputation of a job's counters and status from its items.
\<close>

subsection \<open>Queries\<close>

definition job_of :: "store \<Rightarrow> string \<Rightarrow> import_job option" where
  "job_of s jid = find_by j_id jid (jobs s)"

definition item_of :: "store \<Rightarrow> string \<Rightarrow> import_item option" where
  "item_of s iid = find_by i_id iid (items s)"

definition attempt_of :: "store \<Rightarrow> string \<Rightarrow> import_attempt option" where
  "attempt_of s aid = find_by a_id aid (attempts s)"

definition items_of :: "store \<Rightarrow> string \<Rightarrow> import_item list" where
  "items_of s jid = filter (\<lambda>i. i_job_id i = jid) (items s)"

definition get_import_job_summary :: "string \<Rightarrow> store \<Rightarrow> import_job_summary option" where
  "get_import_job_summary jid s = map_option map_import_job_summary (job_of s jid)"

definition get_import_job_item :: "string \<Rightarrow> store \<Rightarrow> import_job_item option" where
  "get_import_job_item iid s = map_option map_import_job_item (item_of s iid)"

definition get_import_attempt :: "string \<Rightarrow> store \<Rightarrow> import_attempt_record option" where
  "get_import_attempt aid s = map_option map_import_attempt (attempt_of s aid)"

definition get_import_job :: "string \<Rightarrow> store \<Rightarrow> import_job_detail option" where
  "get_import_job jid s =
     (case get_import_job_summary jid s of
        None \<Rightarrow> None
      | Some summary \<Rightarrow>
          Some \<lparr>jd_summary = summary,
                jd_items = map map_import_job_item
                  (sort_key (\<lambda>i. (i_position i, i_id i)) (items_of s jid))\<rparr>)"

definition list_import_attempts_for_item :: "string \<Rightarrow> store \<Rightarrow> import_attempt_record list" where
  "list_import_attempts_for_item iid s =
     map map_import_attempt
       (sort_key (\<lambda>a. (a_number a, a_id a)) (filter (\<lambda>a. a_item_id a = iid) (attempts s)))"

definition next_import_job_item_position :: "string \<Rightarrow> store \<Rightarrow> nat" where
  "next_import_job_item_position jid s = as_u32 (next_after_max (map i_position (items_of s jid)))"

definition count_import_items_by_status_on :: "store \<Rightarrow> string \<Rightarrow> import_job_item_status \<Rightarrow> nat" where
  "count_import_items_by_status_on s jid st =
     count_where (\<lambda>i. i_job_id i = jid \<and> i_status i = st) (items s)"

subsection \<open>Counters and status of a job\<close>

definition derived_job_status ::
  "import_job_status \<Rightarrow> nat \<Rightarrow> nat \<Rightarrow> nat \<Rightarrow> nat \<Rightarrow> import_job_status" where
  "derived_job_status current success_count failed_count pending_count total_count =
     (if current = Job_Cancelled then Job_Cancelled
      else if 0 < pending_count then Job_Running
      else if 0 < failed_count then Job_Failed
      else if total_count = success_count then Job_Completed
      else Job_Pending)"

text \<open>The status the counters of the items give a job whose status is \<open>current\<close>.\<close>

definition status_from_items :: "store \<Rightarrow> string \<Rightarrow> import_job_status \<Rightarrow> import_job_status" where
  "status_from_items s jid current =
     derived_job_status current
       (count_import_items_by_status_on s jid Item_Succeeded)
       (count_import_items_by_status_on s jid Item_Failed)
       (count_import_items_by_status_on s jid Item_Pending
          + count_import_items_by_status_on s jid Item_Running)
       (length (items_of s jid))"

definition recounted_job :: "env \<Rightarrow> store \<Rightarrow> string \<Rightarrow> import_job_status \<Rightarrow> import_job \<Rightarrow> import_job" where
  "recounted_job env s jid status x =
     x\<lparr>j_success_count := count_import_items_by_status_on s jid Item_Succeeded,
       j_failed_count := count_import_items_by_status_on s jid Item_Failed,
       j_pending_count := count_import_items_by_status_on s jid Item_Pending
          + count_import_items_by_status_on s jid Item_Running,
       j_total_count := length (items_of s jid),
       j_status := status,
       j_completed_at :=
         (if status = Job_Cancelled then j_completed_at x
          else if status = Job_Completed then Some (now env) else None),
       j_updated_at := now env\<rparr>"

definition recompute_import_job_counts_on :: "env \<Rightarrow> string \<Rightarrow> store \<Rightarrow> store_error + store" where
  "recompute_import_job_counts_on env jid s =
     (case job_of s jid of
        None \<Rightarrow> Inl (Missing_Import_Job jid)
      | Some j \<Rightarrow>
          Inr (s\<lparr>jobs := update_where (\<lambda>x. j_id x = jid)
             (recounted_job env s jid (status_from_items s jid (j_status j))) (jobs s)\<rparr>))"

subsection \<open>Creating jobs and items\<close>

text \<open>\<open>INSERT INTO import_jobs ... ON CONFLICT(id) DO UPDATE\<close>, as both creation paths run it.\<close>

definition upsert_import_job :: "env \<Rightarrow> create_import_job_input \<Rightarrow> nat \<Rightarrow> store \<Rightarrow> store_error + store" where
  "upsert_import_job env input n_items s =
     (if \<not> sheet_exists s (cj_sheet_id input) then Inl (Sqlite Foreign_Key_Constraint)
      else case job_of s (cj_job_id input) of
        None \<Rightarrow>
          Inr (s\<lparr>jobs := jobs s @
            [\<lparr>j_id = cj_job_id input, j_sheet_id = cj_sheet_id input, j_kind = cj_kind input,
              j_mode = cj_mode input, j_status = Job_Pending, j_total_count = n_items,
              j_success_count = 0, j_failed_count = 0, j_pending_count = n_items,
              j_created_at = now env, j_updated_at = now env,
              j_completed_at = None, j_cancelled_at = None\<rparr>]\<rparr>)
      | Some _ \<Rightarrow>
          Inr (s\<lparr>jobs := update_where (\<lambda>x. j_id x = cj_job_id input)
            (\<lambda>x. x\<lparr>j_sheet_id := cj_sheet_id input, j_kind := cj_kind input,
                   j_mode := cj_mode input, j_status := Job_Pending, j_total_count := n_items,
                   j_success_count := 0, j_failed_count := 0, j_pending_count := n_items,
                   j_completed_at := None, j_cancelled_at := None,
                   j_updated_at := now env\<rparr>) (jobs s)\<rparr>))"

definition create_import_job :: "env \<Rightarrow> create_import_job_input \<Rightarrow> import_job_summary operation" where
  "create_import_job env input s =
     (case upsert_import_job env input (cj_total_count input) s of
        Inl e \<Rightarrow> (Inl e, s)
      | Inr t \<Rightarrow> (ok_or (Missing_Import_Job (cj_job_id input))
                     (get_import_job_summary (cj_job_id input) t), t))"

definition new_item :: "env \<Rightarrow> create_import_job_item_input \<Rightarrow> import_item" where
  "new_item env c =
     \<lparr>i_id = ci_item_id c, i_job_id = ci_job_id c, i_source_item_id = ci_source_item_id c,
      i_source_item_kind = ci_source_item_kind c, i_position = ci_position c,
      i_status = Item_Pending, i_tracking_ids = [], i_sheet_row_ids = [],
      i_error_message = None, i_attempt_count = 0, i_next_retry_at = None,
      i_created_at = now env, i_updated_at = now env\<rparr>"

definition same_source :: "create_import_job_item_input \<Rightarrow> import_item \<Rightarrow> bool" where
  "same_source c i \<longleftrightarrow> i_job_id i = ci_job_id c \<and> i_source_item_id i = ci_source_item_id c
     \<and> i_source_item_kind i = ci_source_item_kind c"

text \<open>The plain \<open>INSERT\<close> of an item.\<close>

definition insert_import_job_item ::
  "env \<Rightarrow> create_import_job_item_input \<Rightarrow> store \<Rightarrow> store_error + store" where
  "insert_import_job_item env c s =
     (if item_of s (ci_item_id c) \<noteq> None
      then Inl (Sqlite (Unique_Constraint ''import_job_items.id''))
      else if list_ex (same_source c) (items s)
      then Inl (Sqlite (Unique_Constraint ''import_job_items.job_id, source_item_id, source_item_kind''))
      else if job_of s (ci_job_id c) = None then Inl (Sqlite Foreign_Key_Constraint)
      else Inr (s\<lparr>items := items s @ [new_item env c]\<rparr>))"

text \<open>\<open>DELETE FROM import_job_items WHERE job_id\<close>; the attempts go with the items.\<close>

definition delete_items_of_job :: "string \<Rightarrow> store \<Rightarrow> store" where
  "delete_items_of_job jid s =
     (let dead = map i_id (items_of s jid)
      in s\<lparr>items := filter (\<lambda>i. i_job_id i \<noteq> jid) (items s),
           attempts := filter (\<lambda>a. a_item_id a \<notin> set dead) (attempts s)\<rparr>)"

definition create_import_job_with_items ::
  "env \<Rightarrow> create_import_job_input \<Rightarrow> create_import_job_item_input list
   \<Rightarrow> import_job_summary operation" where
  "create_import_job_with_items env input new_items s =
     (if list_ex (\<lambda>c. ci_job_id c \<noteq> cj_job_id input) new_items
      then (Inl (Invalid_Value ''import_job_item_job_id'' (cj_job_id input)), s)
      else
        case in_transaction (\<lambda>s.
          let s1 = (if cj_mode input = Mode_Replace
                    then invalidate_cache (cj_sheet_id input)
                           (delete_rows_of_sheet (cj_sheet_id input) s)
                    else s)
          in and_then (upsert_import_job env input (as_u32 (length new_items)) s1)
            (\<lambda>s2. and_then (try_fold (insert_import_job_item env) new_items
                              (delete_items_of_job (cj_job_id input) s2))
            (\<lambda>s3. and_then (recompute_import_job_counts_on env (cj_job_id input) s3)
            (\<lambda>s4. Inr ((), s4))))) s
        of (Inl e, t) \<Rightarrow> (Inl e, t)
         | (Inr _, t) \<Rightarrow> (ok_or (Missing_Import_Job (cj_job_id input))
                            (get_import_job_summary (cj_job_id input) t), t))"

text \<open>
  \<open>create_import_job_item\<close> is not a transaction: the insert or update stays when
  the recomputation or the final query fails.
\<close>

definition create_import_job_item ::
  "env \<Rightarrow> create_import_job_item_input \<Rightarrow> import_job_item operation" where
  "create_import_job_item env c s =
     (let written =
        (if list_ex (same_source c) (items s)
         then Inr (s\<lparr>items := update_where (same_source c)
                (\<lambda>i. i\<lparr>i_position := ci_position c, i_status := Item_Pending,
                       i_tracking_ids := [], i_sheet_row_ids := [], i_error_message := None,
                       i_updated_at := now env\<rparr>) (items s)\<rparr>)
         else insert_import_job_item env c s)
      in case written of
           Inl e \<Rightarrow> (Inl e, s)
         | Inr s1 \<Rightarrow>
             (case recompute_import_job_counts_on env (ci_job_id c) s1 of
                Inl e \<Rightarrow> (Inl e, s1)
              | Inr s2 \<Rightarrow> (ok_or (Invalid_Value ''import_job_item'' (ci_item_id c))
                             (get_import_job_item (ci_item_id c) s2), s2)))"

definition update_import_job_item_status ::
  "env \<Rightarrow> update_import_job_item_status_input \<Rightarrow> unit operation" where
  "update_import_job_item_status env input s =
     (case item_of s (ui_item_id input) of
        None \<Rightarrow> (Inl (Invalid_Value ''import_job_item'' (ui_item_id input)), s)
      | Some i \<Rightarrow>
          let s1 = s\<lparr>items := update_where (\<lambda>x. i_id x = ui_item_id input)
                 (\<lambda>x. x\<lparr>i_status := ui_status input, i_tracking_ids := ui_tracking_ids input,
                        i_error_message := ui_error_message input,
                        i_attempt_count := i_attempt_count x + 1,
                        i_updated_at := now env\<rparr>) (items s)\<rparr>
          in case recompute_import_job_counts_on env (i_job_id i) s1 of
               Inl e \<Rightarrow> (Inl e, s1)
             | Inr s2 \<Rightarrow> (Inr (), s2))"

definition update_import_job_item_sheet_row_ids ::
  "env \<Rightarrow> string \<Rightarrow> string list \<Rightarrow> unit operation" where
  "update_import_job_item_sheet_row_ids env iid row_ids s =
     (Inr (), s\<lparr>items := update_where (\<lambda>x. i_id x = iid)
        (\<lambda>x. x\<lparr>i_sheet_row_ids := row_ids, i_updated_at := now env\<rparr>) (items s)\<rparr>)"

subsection \<open>Claiming\<close>

text \<open>A pending item of a job that exists and is not cancelled.\<close>

definition claimable :: "store \<Rightarrow> import_item \<Rightarrow> bool" where
  "claimable s i \<longleftrightarrow> i_status i = Item_Pending
     \<and> (\<exists>j \<in> set (jobs s). j_id j = i_job_id i \<and> j_status j \<noteq> Job_Cancelled)"

definition claim_next_pending_import_job_item ::
  "env \<Rightarrow> string \<Rightarrow> import_job_item option operation" where
  "claim_next_pending_import_job_item env jid s =
     (case in_transaction (\<lambda>s.
        case first_by (\<lambda>i. (i_position i, i_id i))
               (filter (\<lambda>i. i_job_id i = jid \<and> claimable s i) (items s)) of
          None \<Rightarrow> Inr (None, s)
        | Some it \<Rightarrow>
            let hit = (\<lambda>i. i_id i = i_id it \<and> claimable s i)
            in if count_where hit (items s) = 0 then Inr (None, s)
               else and_then
                 (recompute_import_job_counts_on env jid
                   (s\<lparr>items := update_where hit
                       (\<lambda>i. i\<lparr>i_status := Item_Running, i_error_message := None,
                              i_updated_at := now env\<rparr>) (items s)\<rparr>))
                 (\<lambda>s1. Inr (Some (i_id it), s1))) s
      of (Inl e, t) \<Rightarrow> (Inl e, t)
       | (Inr None, t) \<Rightarrow> (Inr None, t)
       | (Inr (Some iid), t) \<Rightarrow> (Inr (get_import_job_item iid t), t))"

subsection \<open>Attempts\<close>

definition next_attempt_number :: "store \<Rightarrow> string \<Rightarrow> nat" where
  "next_attempt_number s iid =
     (let ns = map a_number (filter (\<lambda>a. a_item_id a = iid) (attempts s))
      in (if ns = [] then 0 else Max (set ns)) + 1)"

definition insert_import_attempt :: "import_attempt \<Rightarrow> store \<Rightarrow> store_error + store" where
  "insert_import_attempt a s =
     (if attempt_of s (a_id a) \<noteq> None then Inl (Sqlite (Unique_Constraint ''import_attempts.id''))
      else if item_of s (a_item_id a) = None then Inl (Sqlite Foreign_Key_Constraint)
      else Inr (s\<lparr>attempts := attempts s @ [a]\<rparr>))"

definition start_import_attempt ::
  "env \<Rightarrow> start_import_attempt_input \<Rightarrow> import_attempt_record operation" where
  "start_import_attempt env input s =
     (case in_transaction (\<lambda>s.
        case item_of s (sa_item_id input) of
          None \<Rightarrow> Inl (Invalid_Value ''import_job_item'' (sa_item_id input))
        | Some i \<Rightarrow>
            (case job_of s (i_job_id i) of
               None \<Rightarrow> Inl (Invalid_Value ''import_job_item'' (sa_item_id input))
             | Some j \<Rightarrow>
                 if i_status i \<noteq> Item_Running \<or> j_status j = Job_Cancelled
                 then Inl (Invalid_Value ''import_attempt_state'' (sa_item_id input))
                 else
                   let hit = (\<lambda>x. i_id x = sa_item_id input \<and> i_status x = Item_Running)
                   in and_then (insert_import_attempt
                        \<lparr>a_id = sa_attempt_id input, a_item_id = sa_item_id input,
                         a_number = as_u32 (next_attempt_number s (sa_item_id input)),
                         a_status = Attempt_Running, a_error_message = None,
                         a_raw_blob_id = sa_raw_blob_id input,
                         a_started_at = now env, a_finished_at = None\<rparr> s)
                      (\<lambda>s1.
                        if count_where hit (items s1) = 0
                        then Inl (Invalid_Value ''import_attempt_state'' (sa_item_id input))
                        else and_then
                          (recompute_import_job_counts_on env (i_job_id i)
                            (s1\<lparr>items := update_where hit
                              (\<lambda>x. x\<lparr>i_status := Item_Running, i_error_message := None,
                                     i_attempt_count := i_attempt_count x + 1,
                                     i_updated_at := now env\<rparr>) (items s1)\<rparr>))
                          (\<lambda>s2. Inr ((), s2))))) s
      of (Inl e, t) \<Rightarrow> (Inl e, t)
       | (Inr _, t) \<Rightarrow> (ok_or (Invalid_Value ''import_attempt'' (sa_attempt_id input))
                          (get_import_attempt (sa_attempt_id input) t), t))"

text \<open>
  The item and the job of an attempt, if the attempt and its item are running and
  the job is not cancelled.
\<close>

definition running_import_attempt_context ::
  "string \<Rightarrow> store \<Rightarrow> store_error + (string \<times> string) option" where
  "running_import_attempt_context aid s =
     (case attempt_of s aid of
        None \<Rightarrow> Inl (Invalid_Value ''import_attempt'' aid)
      | Some a \<Rightarrow>
          (case item_of s (a_item_id a) of
             None \<Rightarrow> Inl (Invalid_Value ''import_attempt'' aid)
           | Some i \<Rightarrow>
               (case job_of s (i_job_id i) of
                  None \<Rightarrow> Inl (Invalid_Value ''import_attempt'' aid)
                | Some j \<Rightarrow>
                    if a_status a \<noteq> Attempt_Running \<or> i_status i \<noteq> Item_Running
                       \<or> j_status j = Job_Cancelled
                    then Inr None
                    else Inr (Some (a_item_id a, i_job_id i)))))"

text \<open>Returns whether the attempt was finished, with the store to keep if it was.\<close>

definition finish_running_import_attempt_on ::
  "env \<Rightarrow> finish_import_attempt_input \<Rightarrow> bool body" where
  "finish_running_import_attempt_on env input s =
     and_then (running_import_attempt_context (fa_attempt_id input) s)
       (\<lambda>context. case context of
          None \<Rightarrow> Inr (False, s)
        | Some (iid, jid) \<Rightarrow>
            let hit_a = (\<lambda>a. a_id a = fa_attempt_id input \<and> a_status a = Attempt_Running);
                hit_i = (\<lambda>i. i_id i = iid \<and> i_status i = Item_Running);
                finished_at = (if fa_status input \<noteq> Attempt_Running then Some (now env) else None);
                s1 = s\<lparr>attempts := update_where hit_a
                       (\<lambda>a. a\<lparr>a_status := fa_status input,
                              a_error_message := fa_error_message input,
                              a_raw_blob_id := (case fa_raw_blob_id input of
                                                  None \<Rightarrow> a_raw_blob_id a | Some b \<Rightarrow> Some b),
                              a_finished_at := finished_at\<rparr>) (attempts s)\<rparr>;
                s2 = s1\<lparr>items := update_where hit_i
                       (\<lambda>i. i\<lparr>i_status := item_status_for_attempt_status (fa_status input),
                              i_tracking_ids := fa_tracking_ids input,
                              i_error_message := fa_error_message input,
                              i_updated_at := now env\<rparr>) (items s1)\<rparr>
            in if count_where hit_a (attempts s) = 0 then Inr (False, s)
               else if count_where hit_i (items s1) = 0 then Inr (False, s1)
               else and_then (recompute_import_job_counts_on env jid s2) (\<lambda>s3. Inr (True, s3)))"

definition finish_import_attempt :: "env \<Rightarrow> finish_import_attempt_input \<Rightarrow> unit operation" where
  "finish_import_attempt env input = in_transaction (\<lambda>s.
     and_then (finish_running_import_attempt_on env input s)
       (\<lambda>(finished, s1). if \<not> finished then Inr ((), s) else Inr ((), s1)))"

text \<open>\<open>INSERT ... ON CONFLICT(job_id, source_item_id, source_item_kind) DO NOTHING\<close>\<close>

definition insert_item_or_ignore ::
  "env \<Rightarrow> create_import_job_item_input \<Rightarrow> store \<Rightarrow> store_error + store" where
  "insert_item_or_ignore env c s =
     (if list_ex (same_source c) (items s) then Inr s else insert_import_job_item env c s)"

definition finish_manifest_import_attempt_with_items ::
  "env \<Rightarrow> finish_import_attempt_input \<Rightarrow> create_import_job_item_input list \<Rightarrow> bool operation" where
  "finish_manifest_import_attempt_with_items env input new_items = in_transaction (\<lambda>s.
     and_then (running_import_attempt_context (fa_attempt_id input) s)
       (\<lambda>context. case context of
          None \<Rightarrow> Inr (False, s)
        | Some (_, jid) \<Rightarrow>
            if list_ex (\<lambda>c. ci_job_id c \<noteq> jid) new_items
            then Inl (Invalid_Value ''import_job_item_job_id'' jid)
            else and_then (try_fold (insert_item_or_ignore env) new_items s)
              (\<lambda>s1. and_then (finish_running_import_attempt_on env input s1)
              (\<lambda>(finished, s2). if \<not> finished then Inr (False, s) else Inr (True, s2)))))"

fun upsert_rows_and_invalidate ::
  "env \<Rightarrow> nat \<Rightarrow> upsert_sheet_row_input list \<Rightarrow> store \<Rightarrow> store_error + store" where
  "upsert_rows_and_invalidate env k [] s = Inr s"
| "upsert_rows_and_invalidate env k (r # rs) s =
     and_then (upsert_sheet_row_on env k r s)
       (\<lambda>s1. upsert_rows_and_invalidate env (Suc k) rs (invalidate_cache (ur_sheet_id r) s1))"

definition finish_bag_import_attempt_with_sheet_rows ::
  "env \<Rightarrow> finish_import_attempt_input \<Rightarrow> string \<Rightarrow> upsert_sheet_row_input list \<Rightarrow> string list
   \<Rightarrow> bool operation" where
  "finish_bag_import_attempt_with_sheet_rows env input iid new_rows sheet_row_ids =
     in_transaction (\<lambda>s.
       and_then (running_import_attempt_context (fa_attempt_id input) s)
         (\<lambda>context. case context of
            None \<Rightarrow> Inr (False, s)
          | Some (running_item_id, _) \<Rightarrow>
              if running_item_id \<noteq> iid then Inl (Invalid_Value ''import_job_item'' iid)
              else and_then (upsert_rows_and_invalidate env 0 new_rows s)
                (\<lambda>s1.
                  let s2 = s1\<lparr>items := update_where (\<lambda>i. i_id i = iid \<and> i_status i = Item_Running)
                        (\<lambda>i. i\<lparr>i_sheet_row_ids := sheet_row_ids, i_updated_at := now env\<rparr>)
                        (items s1)\<rparr>
                  in and_then (finish_running_import_attempt_on env input s2)
                    (\<lambda>(finished, s3). if \<not> finished then Inr (False, s) else Inr (True, s3)))))"

subsection \<open>Cancelling, recovering, retrying\<close>

definition coalesce :: "'a option \<Rightarrow> 'a \<Rightarrow> 'a option" where
  "coalesce x d = (case x of None \<Rightarrow> Some d | Some v \<Rightarrow> Some v)"

definition cancel_import_job :: "env \<Rightarrow> string \<Rightarrow> unit operation" where
  "cancel_import_job env jid s =
     (if get_import_job_summary jid s = None then (Inl (Missing_Import_Job jid), s)
      else in_transaction (\<lambda>s.
        let s1 = s\<lparr>attempts := update_where
                   (\<lambda>a. a_item_id a \<in> set (map i_id (items_of s jid)) \<and> a_status a = Attempt_Running)
                   (\<lambda>a. a\<lparr>a_status := Attempt_Cancelled,
                          a_error_message := coalesce (a_error_message a) ''cancelled'',
                          a_finished_at := Some (now env)\<rparr>) (attempts s)\<rparr>;
            s2 = s1\<lparr>items := update_where
                   (\<lambda>i. i_job_id i = jid \<and> i_status i \<in> {Item_Pending, Item_Running})
                   (\<lambda>i. i\<lparr>i_status := Item_Cancelled,
                          i_error_message := coalesce (i_error_message i) ''cancelled'',
                          i_updated_at := now env\<rparr>) (items s1)\<rparr>;
            success_count = count_import_items_by_status_on s2 jid Item_Succeeded;
            failed_count = count_import_items_by_status_on s2 jid Item_Failed
        in Inr ((), s2\<lparr>jobs := update_where (\<lambda>j. j_id j = jid)
              (\<lambda>j. j\<lparr>j_status := Job_Cancelled, j_success_count := success_count,
                     j_failed_count := failed_count, j_pending_count := 0,
                     j_cancelled_at := Some (now env), j_updated_at := now env\<rparr>)
              (jobs s2)\<rparr>)) s)"

fun recompute_all :: "env \<Rightarrow> string list \<Rightarrow> unit operation" where
  "recompute_all env [] s = (Inr (), s)"
| "recompute_all env (jid # jids) s =
     (case recompute_import_job_counts_on env jid s of
        Inl e \<Rightarrow> (Inl e, s)
      | Inr t \<Rightarrow> recompute_all env jids t)"

text \<open>\<open>push\<close> unless \<open>contains\<close>\<close>

definition push_new :: "'a \<Rightarrow> 'a list \<Rightarrow> 'a list" where
  "push_new x xs = (if x \<in> set xs then xs else xs @ [x])"

definition recover_interrupted_import_jobs :: "env \<Rightarrow> job_recovery_summary operation" where
  "recover_interrupted_import_jobs env s =
     (let interrupted = sort_key (\<lambda>a. (a_started_at a, a_id a))
            (filter (\<lambda>a. a_status a = Attempt_Running \<and> a_finished_at a = None) (attempts s));
          s1 = s\<lparr>attempts := update_where
                 (\<lambda>a. a_status a = Attempt_Running \<and> a_finished_at a = None)
                 (\<lambda>a. a\<lparr>a_status := Attempt_Interrupted,
                        a_error_message := coalesce (a_error_message a) ''interrupted by shutdown'',
                        a_finished_at := Some (now env)\<rparr>) (attempts s)\<rparr>;
          running = sort_key (\<lambda>i. (i_job_id i, i_position i, i_id i))
            (filter (\<lambda>i. i_status i = Item_Running) (items s1));
          summary =
            \<lparr>rs_recovered_job_ids = fold push_new (map i_job_id running) [],
             rs_recovered_item_ids =
               fold push_new (map i_id running) (fold push_new (map a_item_id interrupted) []),
             rs_interrupted_attempt_ids = map a_id interrupted\<rparr>;
          s2 = s1\<lparr>items := update_where (\<lambda>i. i_status i = Item_Running)
                 (\<lambda>i. i\<lparr>i_status := Item_Pending, i_error_message := None,
                        i_next_retry_at := None, i_updated_at := now env\<rparr>) (items s1)\<rparr>
      in case recompute_all env (rs_recovered_job_ids summary) s2 of
           (Inl e, t) \<Rightarrow> (Inl e, t)
         | (Inr _, t) \<Rightarrow> (Inr summary, t))"

definition retryable :: "nat \<Rightarrow> import_job_item \<Rightarrow> bool" where
  "retryable max_attempts i \<longleftrightarrow> ji_status i = Item_Failed \<and> ji_attempt_count i < max_attempts"

definition requeue_item :: "env \<Rightarrow> string \<Rightarrow> store \<Rightarrow> store" where
  "requeue_item env iid s =
     s\<lparr>items := update_where (\<lambda>i. i_id i = iid)
        (\<lambda>i. i\<lparr>i_status := Item_Pending, i_tracking_ids := [], i_sheet_row_ids := [],
               i_error_message := None, i_next_retry_at := None,
               i_updated_at := now env\<rparr>) (items s)\<rparr>"

definition retry_import_job_failed :: "env \<Rightarrow> string \<Rightarrow> nat \<Rightarrow> import_retry_targets operation" where
  "retry_import_job_failed env jid max_attempts s =
     (case get_import_job jid s of
        None \<Rightarrow> (Inl (Missing_Import_Job jid), s)
      | Some detail \<Rightarrow>
          let picked = filter (retryable max_attempts) (jd_items detail);
              targets =
                \<lparr>rt_source_item_ids = map ji_source_item_id
                   (filter (\<lambda>i. ji_source_item_kind i \<noteq> Src_ManifestBag) picked),
                 rt_manifest_bag_ids = map ji_source_item_id
                   (filter (\<lambda>i. ji_source_item_kind i = Src_ManifestBag) picked)\<rparr>;
              s1 = fold (requeue_item env) (map ji_item_id picked) s
          in case recompute_import_job_counts_on env jid s1 of
               Inl e \<Rightarrow> (Inl e, s1)
             | Inr s2 \<Rightarrow> (Inr targets, s2))"

subsection \<open>Structure of the tables\<close>

definition source_key :: "import_item \<Rightarrow> string \<times> string \<times> import_source_item_kind" where
  "source_key i = (i_job_id i, i_source_item_id i, i_source_item_kind i)"

text \<open>Primary keys, the unique index on an item's source, and the foreign keys.\<close>

definition jobs_ok :: "store \<Rightarrow> bool" where
  "jobs_ok s \<longleftrightarrow> distinct (map j_id (jobs s)) \<and> distinct (map i_id (items s))
     \<and> distinct (map a_id (attempts s)) \<and> distinct (map source_key (items s))
     \<and> set (map i_job_id (items s)) \<subseteq> set (map j_id (jobs s))
     \<and> set (map a_item_id (attempts s)) \<subseteq> set (map i_id (items s))"

lemma jobs_ok_cong:
  assumes "map j_id (jobs t) = map j_id (jobs s)"
    and "map i_id (items t) = map i_id (items s)"
    and "map i_job_id (items t) = map i_job_id (items s)"
    and "map source_key (items t) = map source_key (items s)"
    and "map a_id (attempts t) = map a_id (attempts s)"
    and "map a_item_id (attempts t) = map a_item_id (attempts s)"
  shows "jobs_ok t = jobs_ok s"
  by (simp only: jobs_ok_def assms)

lemma jobs_ok_job: "jobs_ok s \<Longrightarrow> i \<in> set (items s) \<Longrightarrow> \<exists>j. job_of s (i_job_id i) = Some j"
  by (cases "job_of s (i_job_id i)")
    (fastforce simp: jobs_ok_def job_of_def find_by_None_iff)+

lemma jobs_ok_item: "jobs_ok s \<Longrightarrow> a \<in> set (attempts s) \<Longrightarrow> \<exists>i. item_of s (a_item_id a) = Some i"
  by (cases "item_of s (a_item_id a)")
    (fastforce simp: jobs_ok_def item_of_def find_by_None_iff)+

lemma item_of_SomeD: "item_of s iid = Some i \<Longrightarrow> i \<in> set (items s) \<and> i_id i = iid"
  unfolding item_of_def by (rule find_by_SomeD)

lemma job_of_SomeD: "job_of s jid = Some j \<Longrightarrow> j \<in> set (jobs s) \<and> j_id j = jid"
  unfolding job_of_def by (rule find_by_SomeD)

lemma attempt_of_SomeD: "attempt_of s aid = Some a \<Longrightarrow> a \<in> set (attempts s) \<and> a_id a = aid"
  unfolding attempt_of_def by (rule find_by_SomeD)

lemma item_unique: "jobs_ok s \<Longrightarrow> i \<in> set (items s) \<Longrightarrow> k \<in> set (items s) \<Longrightarrow> i_id i = i_id k \<Longrightarrow> i = k"
  by (auto simp: jobs_ok_def intro: distinct_key_unique [of i_id])

lemma attempt_unique:
  "jobs_ok s \<Longrightarrow> a \<in> set (attempts s) \<Longrightarrow> b \<in> set (attempts s) \<Longrightarrow> a_id a = a_id b \<Longrightarrow> a = b"
  by (auto simp: jobs_ok_def intro: distinct_key_unique [of a_id])

lemma job_unique: "jobs_ok s \<Longrightarrow> i \<in> set (jobs s) \<Longrightarrow> k \<in> set (jobs s) \<Longrightarrow> j_id i = j_id k \<Longrightarrow> i = k"
  by (auto simp: jobs_ok_def intro: distinct_key_unique [of j_id])

lemma item_of_eq: "jobs_ok s \<Longrightarrow> i \<in> set (items s) \<Longrightarrow> item_of s (i_id i) = Some i"
  by (auto simp: jobs_ok_def item_of_def intro: find_by_eq)

text \<open>The counters and the status of a job agree with its items.\<close>

definition job_counts_ok :: "store \<Rightarrow> import_job \<Rightarrow> bool" where
  "job_counts_ok s j \<longleftrightarrow>
     j_success_count j = count_import_items_by_status_on s (j_id j) Item_Succeeded
     \<and> j_failed_count j = count_import_items_by_status_on s (j_id j) Item_Failed
     \<and> j_pending_count j = count_import_items_by_status_on s (j_id j) Item_Pending
         + count_import_items_by_status_on s (j_id j) Item_Running
     \<and> j_total_count j = length (items_of s (j_id j))
     \<and> j_status j = status_from_items s (j_id j) (j_status j)"

definition counts_ok_outside :: "string set \<Rightarrow> store \<Rightarrow> bool" where
  "counts_ok_outside J s \<longleftrightarrow> (\<forall>j \<in> set (jobs s). j_id j \<notin> J \<longrightarrow> job_counts_ok s j)"

definition counts_ok :: "store \<Rightarrow> bool" where
  "counts_ok s \<longleftrightarrow> (\<forall>j \<in> set (jobs s). job_counts_ok s j)"

lemma counts_ok_outside_empty: "counts_ok_outside {} s = counts_ok s"
  by (simp add: counts_ok_outside_def counts_ok_def)

lemma counts_ok_outsideI: "counts_ok s \<Longrightarrow> counts_ok_outside J s"
  by (simp add: counts_ok_outside_def counts_ok_def)

lemma count_items_of:
  "count_import_items_by_status_on s jid st = count_where (\<lambda>i. i_status i = st) (items_of s jid)"
  unfolding count_import_items_by_status_on_def items_of_def count_where_def filter_filter
  by (simp add: conj_commute)

lemma status_from_items_cong:
  "items_of s k = items_of t k \<Longrightarrow> status_from_items s k c = status_from_items t k c"
  by (simp add: status_from_items_def count_items_of)

lemma job_counts_ok_cong:
  "items_of s (j_id j) = items_of t (j_id j) \<Longrightarrow> job_counts_ok s j = job_counts_ok t j"
  by (simp add: job_counts_ok_def count_items_of status_from_items_cong [of s _ t])

lemma derived_job_status_idem:
  "derived_job_status (derived_job_status c a b p n) a b p n = derived_job_status c a b p n"
  by (simp add: derived_job_status_def)

lemma status_from_items_idem:
  "status_from_items s k (status_from_items s k c) = status_from_items s k c"
  by (simp add: status_from_items_def derived_job_status_idem)

lemma items_of_update_other:
  assumes "\<And>i. p i \<Longrightarrow> i_job_id i \<noteq> k" and "\<And>i. i_job_id (f i) = i_job_id i"
  shows "filter (\<lambda>i. i_job_id i = k) (update_where p f is) = filter (\<lambda>i. i_job_id i = k) is"
  using assms by (induction "is") auto

lemma items_of_update:
  assumes "\<And>i. i_job_id (f i) = i_job_id i"
  shows "filter (\<lambda>i. i_job_id i = k) (update_where p f is)
       = update_where p f (filter (\<lambda>i. i_job_id i = k) is)"
  using assms by (induction "is") auto

text \<open>If outside \<open>J\<close> the jobs and their items are those of \<open>s\<close>, their counters still agree.\<close>

lemma counts_ok_outside_mono:
  assumes "counts_ok_outside K s" and "K \<subseteq> J"
    and "\<And>j. j \<in> set (jobs t) \<Longrightarrow> j_id j \<notin> J \<Longrightarrow> j \<in> set (jobs s)"
    and "\<And>k. k \<notin> J \<Longrightarrow> items_of t k = items_of s k"
  shows "counts_ok_outside J t"
  unfolding counts_ok_outside_def
proof (intro ballI impI)
  fix j assume j: "j \<in> set (jobs t)" "j_id j \<notin> J"
  then have "job_counts_ok s j"
    using assms(1,2,3) by (auto simp: counts_ok_outside_def)
  then show "job_counts_ok t j"
    using job_counts_ok_cong [of t j s] assms(4) j(2) by simp
qed

lemma recompute_Inr:
  assumes "recompute_import_job_counts_on env jid s = Inr t"
  obtains j where "job_of s jid = Some j"
    and "t = s\<lparr>jobs := update_where (\<lambda>x. j_id x = jid)
               (recounted_job env s jid (status_from_items s jid (j_status j))) (jobs s)\<rparr>"
  using assms that by (auto simp: recompute_import_job_counts_on_def split: option.splits)

lemma recompute_frame:
  assumes "recompute_import_job_counts_on env jid s = Inr t"
  shows "items t = items s" "attempts t = attempts s" "rows t = rows s" "sheets t = sheets s"
    "cache t = cache s" "map j_id (jobs t) = map j_id (jobs s)"
  using assms by (auto elim!: recompute_Inr simp: recounted_job_def)

lemma recompute_total:
  "job_of s jid \<noteq> None \<Longrightarrow> \<exists>t. recompute_import_job_counts_on env jid s = Inr t"
  by (auto simp: recompute_import_job_counts_on_def)

lemma counts_ok_recompute:
  assumes run: "recompute_import_job_counts_on env jid s = Inr t"
    and ok: "counts_ok_outside J s" and dist: "distinct (map j_id (jobs s))"
  shows "counts_ok_outside (J - {jid}) t"
proof -
  obtain j0 where j0: "job_of s jid = Some j0"
    and t: "t = s\<lparr>jobs := update_where (\<lambda>x. j_id x = jid)
               (recounted_job env s jid (status_from_items s jid (j_status j0))) (jobs s)\<rparr>"
    by (rule recompute_Inr [OF run])
  have same: "items_of t k = items_of s k" for k by (simp add: t items_of_def)
  show ?thesis
    unfolding counts_ok_outside_def
  proof (intro ballI impI)
    fix j assume j: "j \<in> set (jobs t)" "j_id j \<notin> J - {jid}"
    have "(j \<in> set (jobs s) \<and> j_id j \<noteq> jid) \<or> (\<exists>x \<in> set (jobs s). j_id x = jid
        \<and> j = recounted_job env s jid (status_from_items s jid (j_status j0)) x)"
      using j(1) unfolding t by (simp add: in_update_where)
    then consider (other) "j \<in> set (jobs s)" "j_id j \<noteq> jid"
      | (hit) x where "x \<in> set (jobs s)" "j_id x = jid"
          "j = recounted_job env s jid (status_from_items s jid (j_status j0)) x"
      by blast
    then show "job_counts_ok t j"
    proof cases
      case other
      with ok j(2) have "job_counts_ok s j" by (auto simp: counts_ok_outside_def)
      then show ?thesis using job_counts_ok_cong [of t j s] same by simp
    next
      case hit
      have "j_id j = jid" unfolding hit(3) by (simp add: recounted_job_def hit(2))
      moreover have "j_status j = status_from_items s jid (j_status j)"
        unfolding hit(3) by (simp add: recounted_job_def status_from_items_idem)
      ultimately have "job_counts_ok s j"
        unfolding job_counts_ok_def by (simp add: hit(3) recounted_job_def)
      then show ?thesis using job_counts_ok_cong [of t j s] same by simp
    qed
  qed
qed

lemma jobs_ok_recompute:
  "recompute_import_job_counts_on env jid s = Inr t \<Longrightarrow> jobs_ok t = jobs_ok s"
  by (rule jobs_ok_cong) (simp_all add: recompute_frame)

subsection \<open>Attempts and their items\<close>

text \<open>
  \<open>held\<close> is the set of items a worker has claimed and not yet started.  A
  running attempt belongs to a running item that no worker holds; an item has at
  most one running attempt; an attempt has no finishing time exactly while it runs.
\<close>

definition attempts_ok :: "string set \<Rightarrow> store \<Rightarrow> bool" where
  "attempts_ok held s \<longleftrightarrow>
     (\<forall>a \<in> set (attempts s). a_status a = Attempt_Running \<longrightarrow>
        a_item_id a \<notin> held
        \<and> (\<exists>i \<in> set (items s). i_id i = a_item_id a \<and> i_status i = Item_Running))
     \<and> (\<forall>a \<in> set (attempts s). \<forall>b \<in> set (attempts s).
          a_status a = Attempt_Running \<and> a_status b = Attempt_Running \<and> a_item_id a = a_item_id b
          \<longrightarrow> a_id a = a_id b)
     \<and> (\<forall>a \<in> set (attempts s). (a_finished_at a = None) = (a_status a = Attempt_Running))"

definition import_inv :: "string set \<Rightarrow> store \<Rightarrow> bool" where
  "import_inv held s \<longleftrightarrow> jobs_ok s \<and> counts_ok s \<and> attempts_ok held s"

lemma attempts_okD:
  assumes "attempts_ok held s" "a \<in> set (attempts s)" "a_status a = Attempt_Running"
  shows "a_item_id a \<notin> held" "\<exists>i \<in> set (items s). i_id i = a_item_id a \<and> i_status i = Item_Running"
  using assms by (auto simp: attempts_ok_def)

lemma attempts_ok_single:
  assumes "attempts_ok held s" "a \<in> set (attempts s)" "b \<in> set (attempts s)"
    and "a_status a = Attempt_Running" "a_status b = Attempt_Running" "a_item_id a = a_item_id b"
  shows "a_id a = a_id b"
  using assms unfolding attempts_ok_def by blast

lemma attempts_ok_finished:
  assumes "attempts_ok held s" "a \<in> set (attempts s)"
  shows "a_finished_at a = None \<longleftrightarrow> a_status a = Attempt_Running"
  using assms unfolding attempts_ok_def by blast

lemma attempts_okI:
  assumes "\<And>a. a \<in> set (attempts s) \<Longrightarrow> a_status a = Attempt_Running \<Longrightarrow> a_item_id a \<notin> held"
    and "\<And>a. a \<in> set (attempts s) \<Longrightarrow> a_status a = Attempt_Running \<Longrightarrow>
      \<exists>i \<in> set (items s). i_id i = a_item_id a \<and> i_status i = Item_Running"
    and "\<And>a b. a \<in> set (attempts s) \<Longrightarrow> b \<in> set (attempts s) \<Longrightarrow> a_status a = Attempt_Running \<Longrightarrow>
      a_status b = Attempt_Running \<Longrightarrow> a_item_id a = a_item_id b \<Longrightarrow> a_id a = a_id b"
    and "\<And>a. a \<in> set (attempts s) \<Longrightarrow> (a_finished_at a = None) = (a_status a = Attempt_Running)"
  shows "attempts_ok held s"
  using assms unfolding attempts_ok_def by blast

lemma attempts_ok_cong:
  "attempts t = attempts s \<Longrightarrow> items t = items s \<Longrightarrow> attempts_ok held t = attempts_ok held s"
  by (simp add: attempts_ok_def)

lemma attempts_ok_subset: "attempts_ok held s \<Longrightarrow> held' \<subseteq> held \<Longrightarrow> attempts_ok held' s"
  unfolding attempts_ok_def by blast

lemma import_inv_parts:
  assumes "import_inv held s"
  shows "jobs_ok s" "counts_ok s" "attempts_ok held s"
  using assms by (simp_all add: import_inv_def)

text \<open>Operations that leave jobs, items and attempts alone.\<close>

lemma import_inv_cong:
  assumes "jobs t = jobs s" "items t = items s" "attempts t = attempts s"
  shows "import_inv held t = import_inv held s"
proof -
  have "jobs_ok t = jobs_ok s" by (rule jobs_ok_cong) (simp_all add: assms)
  moreover have "counts_ok t = counts_ok s"
    by (simp add: counts_ok_def assms job_counts_ok_cong [of t _ s] items_of_def)
  ultimately show ?thesis
    by (simp add: import_inv_def attempts_ok_cong [OF assms(3,2)])
qed

text \<open>
  The common end of the operations: items of one job were updated, then the job
  was recounted.
\<close>

lemma import_inv_recompute:
  assumes run: "recompute_import_job_counts_on env jid s1 = Inr t"
    and ok: "counts_ok s" and jobs: "jobs s1 = jobs s" and struct: "jobs_ok s1"
    and other: "\<And>k. k \<noteq> jid \<Longrightarrow> items_of s1 k = items_of s k"
    and att: "attempts_ok held s1"
  shows "import_inv held t"
proof -
  have "counts_ok_outside {jid} s1"
    by (rule counts_ok_outside_mono [where s = s and K = "{}"])
      (use ok jobs other in \<open>auto simp: counts_ok_outside_empty\<close>)
  then have "counts_ok_outside ({jid} - {jid}) t"
    by (rule counts_ok_recompute [OF run]) (use struct in \<open>simp add: jobs_ok_def\<close>)
  then have "counts_ok t" by (simp add: counts_ok_outside_empty)
  moreover have "jobs_ok t" using jobs_ok_recompute [OF run] struct by simp
  moreover have "attempts_ok held t"
    using att attempts_ok_cong [OF recompute_frame(2) [OF run] recompute_frame(1) [OF run]] by simp
  ultimately show ?thesis by (simp add: import_inv_def)
qed

subsection \<open>Claiming\<close>

definition claimed_item :: "env \<Rightarrow> import_item \<Rightarrow> import_item" where
  "claimed_item env i =
     i\<lparr>i_status := Item_Running, i_error_message := None, i_updated_at := now env\<rparr>"

lemma claimed_item_simps [simp]:
  "i_id (claimed_item env i) = i_id i" "i_job_id (claimed_item env i) = i_job_id i"
  "source_key (claimed_item env i) = source_key i" "i_status (claimed_item env i) = Item_Running"
  "i_source_item_kind (claimed_item env i) = i_source_item_kind i"
  "i_source_item_id (claimed_item env i) = i_source_item_id i"
  "i_attempt_count (claimed_item env i) = i_attempt_count i"
  "i_position (claimed_item env i) = i_position i"
  by (simp_all add: claimed_item_def source_key_def)

lemma claim_cases:
  assumes ok: "jobs_ok s" and run: "claim_next_pending_import_job_item env jid s = (r, t)"
  obtains
    (empty) "r = Inr None" "t = s" "\<forall>i \<in> set (items s). i_job_id i = jid \<longrightarrow> \<not> claimable s i"
  | (claimed) it where "it \<in> set (items s)" "i_job_id it = jid" "claimable s it"
      "\<forall>i \<in> set (items s). i_job_id i = jid \<and> claimable s i
         \<longrightarrow> (i_position it, i_id it) \<le> (i_position i, i_id i)"
      "recompute_import_job_counts_on env jid
         (s\<lparr>items := update_where (\<lambda>i. i_id i = i_id it) (claimed_item env) (items s)\<rparr>) = Inr t"
      "r = Inr (Some (map_import_job_item (claimed_item env it)))"
proof (cases "first_by (\<lambda>i. (i_position i, i_id i))
               (filter (\<lambda>i. i_job_id i = jid \<and> claimable s i) (items s))")
  case None
  with run have "r = Inr None" "t = s"
    by (auto simp: claim_next_pending_import_job_item_def in_transaction_def)
  moreover from None have "\<forall>i \<in> set (items s). i_job_id i = jid \<longrightarrow> \<not> claimable s i"
    by (auto simp: filter_empty_conv)
  ultimately show ?thesis by (rule empty)
next
  case (Some it)
  from first_by_SomeD [OF Some] have it: "it \<in> set (items s)" "i_job_id it = jid" "claimable s it"
    and least: "\<forall>i \<in> set (items s). i_job_id i = jid \<and> claimable s i
         \<longrightarrow> (i_position it, i_id it) \<le> (i_position i, i_id i)"
    by auto
  let ?hit = "\<lambda>i. i_id i = i_id it \<and> claimable s i"
  let ?s1 = "s\<lparr>items := update_where (\<lambda>i. i_id i = i_id it) (claimed_item env) (items s)\<rparr>"
  have upd: "update_where ?hit f (items s) = update_where (\<lambda>i. i_id i = i_id it) f (items s)" for f
    unfolding update_where_def
    by (rule map_cong) (use item_unique [OF ok _ it(1)] it(3) in auto)
  obtain j where j: "job_of s jid = Some j" using jobs_ok_job [OF ok it(1)] it(2) by auto
  then have "job_of ?s1 jid \<noteq> None" by (simp add: job_of_def)
  then obtain t' where t': "recompute_import_job_counts_on env jid ?s1 = Inr t'"
    using recompute_total by blast
  have "count_where ?hit (items s) \<noteq> 0"
    using it by (auto simp: count_where_0_iff)
  then have run': "claim_next_pending_import_job_item env jid s = (Inr (get_import_job_item (i_id it) t'), t')"
    using Some t' upd
    by (simp add: claim_next_pending_import_job_item_def in_transaction_def Let_def
        claimed_item_def [abs_def] del: count_where_0_iff)
  have "item_of t' (i_id it) = Some (claimed_item env it)"
    using item_of_eq [OF ok it(1)] recompute_frame(1) [OF t']
    by (simp add: item_of_def find_by_update_where)
  then have "get_import_job_item (i_id it) t' = Some (map_import_job_item (claimed_item env it))"
    by (simp add: get_import_job_item_def)
  with run run' t' it least show ?thesis by (intro claimed [of it]) auto
qed

text \<open>Updating items and attempts without touching their keys.\<close>

lemma jobs_ok_update:
  assumes "\<And>i. i_id (f i) = i_id i" "\<And>i. source_key (f i) = source_key i"
    and "\<And>a. a_id (g a) = a_id a" "\<And>a. a_item_id (g a) = a_item_id a"
  shows "jobs_ok (s\<lparr>attempts := update_where q g (attempts s), items := update_where p f (items s)\<rparr>)
       = jobs_ok s"
proof -
  have "i_job_id (f i) = i_job_id i" for i using assms(2) [of i] by (simp add: source_key_def)
  then show ?thesis by (intro jobs_ok_cong) (simp_all add: assms)
qed

lemma jobs_ok_update_items:
  assumes "\<And>i. i_id (f i) = i_id i" "\<And>i. source_key (f i) = source_key i"
  shows "jobs_ok (s\<lparr>items := update_where p f (items s)\<rparr>) = jobs_ok s"
proof -
  have "i_job_id (f i) = i_job_id i" for i using assms(2) [of i] by (simp add: source_key_def)
  then show ?thesis by (intro jobs_ok_cong) (simp_all add: assms)
qed

lemma items_of_update_job:
  assumes "\<And>i. i \<in> set is \<Longrightarrow> p i \<Longrightarrow> i_job_id i = jid" and "\<And>i. i_job_id (f i) = i_job_id i"
    and "k \<noteq> jid"
  shows "filter (\<lambda>i. i_job_id i = k) (update_where p f is) = filter (\<lambda>i. i_job_id i = k) is"
  using assms(1) by (induction "is") (auto simp: assms(2) assms(3) [symmetric])

lemma running_attempt_item:
  assumes inv: "import_inv held s" and a: "a \<in> set (attempts s)" "a_status a = Attempt_Running"
    and i: "i \<in> set (items s)" "a_item_id a = i_id i"
  shows "i_status i = Item_Running" "i_id i \<notin> held"
proof -
  note ok = import_inv_parts [OF inv]
  from attempts_okD(2) [OF ok(3) a] obtain k
    where k: "k \<in> set (items s)" "i_id k = a_item_id a" "i_status k = Item_Running" by auto
  then have "i_id k = i_id i" using i(2) by simp
  then have "k = i" by (rule item_unique [OF ok(1) k(1) i(1)])
  then show "i_status i = Item_Running" using k(3) by simp
  show "i_id i \<notin> held" using attempts_okD(1) [OF ok(3) a] i(2) by simp
qed

lemma attempts_ok_claimed:
  assumes inv: "import_inv held s" and it: "it \<in> set (items s)" "i_status it \<noteq> Item_Running"
  shows "attempts_ok (insert (i_id it) held)
    (s\<lparr>items := update_where (\<lambda>i. i_id i = i_id it) (claimed_item env) (items s)\<rparr>)"
proof -
  note ok = import_inv_parts(3) [OF inv]
  have none: "a_item_id a \<noteq> i_id it" if "a \<in> set (attempts s)" "a_status a = Attempt_Running" for a
    using running_attempt_item(1) [OF inv that it(1)] it(2) by blast
  show ?thesis (is "attempts_ok ?held ?s")
  proof (rule attempts_okI)
    fix a assume "a \<in> set (attempts ?s)" and run: "a_status a = Attempt_Running"
    then have a: "a \<in> set (attempts s)" by simp
    show "a_item_id a \<notin> ?held"
      using none [OF a run] attempts_okD(1) [OF ok a run] by simp
    obtain i where i: "i \<in> set (items s)" "i_id i = a_item_id a" "i_status i = Item_Running"
      using attempts_okD(2) [OF ok a run] by auto
    then have "i_id i \<noteq> i_id it" using none [OF a run] by simp
    with i show "\<exists>i \<in> set (items ?s). i_id i = a_item_id a \<and> i_status i = Item_Running"
      by (auto simp: in_update_where)
  next
    fix a b assume "a \<in> set (attempts ?s)" "b \<in> set (attempts ?s)"
      and "a_status a = Attempt_Running" "a_status b = Attempt_Running" "a_item_id a = a_item_id b"
    then show "a_id a = a_id b" using attempts_ok_single [OF ok, of a b] by simp
  next
    fix a assume "a \<in> set (attempts ?s)"
    then show "(a_finished_at a = None) = (a_status a = Attempt_Running)"
      using attempts_ok_finished [OF ok, of a] by simp
  qed
qed

lemma import_inv_claim:
  assumes inv: "import_inv held s" and run: "claim_next_pending_import_job_item env jid s = (r, t)"
  shows "import_inv (case r of Inr (Some i) \<Rightarrow> insert (ji_item_id i) held | _ \<Rightarrow> held) t"
proof -
  note ok = import_inv_parts [OF inv]
  from ok(1) run show ?thesis
  proof (cases rule: claim_cases)
    case empty
    with inv show ?thesis by simp
  next
    case (claimed it)
    let ?s1 = "s\<lparr>items := update_where (\<lambda>i. i_id i = i_id it) (claimed_item env) (items s)\<rparr>"
    have pend: "i_status it = Item_Pending" using claimed(3) by (simp add: claimable_def)
    have hit: "i_job_id i = jid" if "i \<in> set (items s)" "i_id i = i_id it" for i
      using item_unique [OF ok(1) that(1) claimed(1) that(2)] claimed(2) by simp
    have "import_inv (insert (i_id it) held) t"
    proof (rule import_inv_recompute [OF claimed(5) ok(2)])
      show "jobs_ok ?s1"
        using ok(1) by (simp add: jobs_ok_update_items)
      show "items_of ?s1 k = items_of s k" if "k \<noteq> jid" for k
        unfolding items_of_def using items_of_update_job [OF hit _ that] by simp
      show "attempts_ok (insert (i_id it) held) ?s1"
        by (rule attempts_ok_claimed [OF inv claimed(1)]) (simp add: pend)
    qed simp
    then show ?thesis by (simp add: claimed(6) map_import_job_item_def)
  qed
qed

lemma attempts_ok_update:
  assumes ok: "attempts_ok held s"
    and keys: "\<And>a. a_id (g a) = a_id a" "\<And>a. a_item_id (g a) = a_item_id a" "\<And>i. i_id (f i) = i_id i"
    and was: "\<And>a. a \<in> set (attempts s) \<Longrightarrow> p a \<Longrightarrow> a_status a = Attempt_Running"
    and fin: "\<And>a. a \<in> set (attempts s) \<Longrightarrow> p a \<Longrightarrow>
      (a_finished_at (g a) = None) = (a_status (g a) = Attempt_Running)"
    and itm: "\<And>a i. a \<in> set (attempts s) \<Longrightarrow> a_status a = Attempt_Running \<Longrightarrow>
      a_status (if p a then g a else a) = Attempt_Running \<Longrightarrow> i \<in> set (items s) \<Longrightarrow>
      i_id i = a_item_id a \<Longrightarrow> i_status i = Item_Running \<Longrightarrow> q i \<Longrightarrow> i_status (f i) = Item_Running"
  shows "attempts_ok held (s\<lparr>attempts := update_where p g (attempts s), items := update_where q f (items s)\<rparr>)"
    (is "attempts_ok held ?s")
proof -
  have old: "\<exists>b \<in> set (attempts s). a = (if p b then g b else b) \<and> a_id a = a_id b
      \<and> a_item_id a = a_item_id b \<and> (a_status a = Attempt_Running \<longrightarrow> a_status b = Attempt_Running)"
    if "a \<in> set (attempts ?s)" for a
    using that was by (auto simp: set_update_where keys)
  show ?thesis
  proof (rule attempts_okI)
    fix a assume a: "a \<in> set (attempts ?s)" and run: "a_status a = Attempt_Running"
    obtain b where b: "b \<in> set (attempts s)" "a = (if p b then g b else b)"
      "a_item_id a = a_item_id b" "a_status b = Attempt_Running"
      using old [OF a] run by auto
    show "a_item_id a \<notin> held" using attempts_okD(1) [OF ok b(1,4)] b(3) by simp
    obtain i where i: "i \<in> set (items s)" "i_id i = a_item_id b" "i_status i = Item_Running"
      using attempts_okD(2) [OF ok b(1,4)] by auto
    have "i_status (f i) = Item_Running" if "q i"
      by (rule itm [OF b(1,4) _ i that]) (use b(2) run in simp)
    then have "i_status (if q i then f i else i) = Item_Running" using i(3) by simp
    moreover have "(if q i then f i else i) \<in> set (items ?s)"
      using i(1) by (simp add: set_update_where image_iff) blast
    moreover have "i_id (if q i then f i else i) = a_item_id a" using i(2) b(3) by (simp add: keys)
    ultimately show "\<exists>i \<in> set (items ?s). i_id i = a_item_id a \<and> i_status i = Item_Running" by blast
  next
    fix a b assume ab: "a \<in> set (attempts ?s)" "b \<in> set (attempts ?s)"
      and run: "a_status a = Attempt_Running" "a_status b = Attempt_Running"
      and eq: "a_item_id a = a_item_id b"
    obtain a' where a': "a' \<in> set (attempts s)" "a_id a = a_id a'" "a_item_id a = a_item_id a'"
      "a_status a' = Attempt_Running" using old [OF ab(1)] run(1) by auto
    obtain b' where b': "b' \<in> set (attempts s)" "a_id b = a_id b'" "a_item_id b = a_item_id b'"
      "a_status b' = Attempt_Running" using old [OF ab(2)] run(2) by auto
    have "a_item_id a' = a_item_id b'" using eq a'(3) b'(3) by (rule_tac trans) simp_all
    then have "a_id a' = a_id b'" by (rule attempts_ok_single [OF ok a'(1) b'(1) a'(4) b'(4)])
    then show "a_id a = a_id b" using a'(2) b'(2) by (rule_tac trans) simp_all
  next
    fix a assume "a \<in> set (attempts ?s)"
    then have "(\<exists>b \<in> set (attempts s). p b \<and> a = g b) \<or> a \<in> set (attempts s) \<and> \<not> p a"
      by (auto simp: in_update_where)
    then show "(a_finished_at a = None) = (a_status a = Attempt_Running)"
      using fin attempts_ok_finished [OF ok, of a] by auto
  qed
qed

lemma attempts_ok_update_items:
  assumes ok: "attempts_ok held s" and key: "\<And>i. i_id (f i) = i_id i"
    and itm: "\<And>i. i \<in> set (items s) \<Longrightarrow> i_status i = Item_Running \<Longrightarrow> q i \<Longrightarrow> i_status (f i) = Item_Running"
  shows "attempts_ok held (s\<lparr>items := update_where q f (items s)\<rparr>)"
  using attempts_ok_update [OF ok, of "\<lambda>a. a" f "\<lambda>_. False" q] key itm by (simp add: update_where_id)

text \<open>What holds while the items of job \<open>jid\<close> are being written.\<close>

definition import_inv_but :: "string \<Rightarrow> string set \<Rightarrow> store \<Rightarrow> bool" where
  "import_inv_but jid held s \<longleftrightarrow> jobs_ok s \<and> counts_ok_outside {jid} s \<and> attempts_ok held s"

lemma import_inv_butI: "import_inv held s \<Longrightarrow> import_inv_but jid held s"
  by (simp add: import_inv_def import_inv_but_def counts_ok_outsideI)

lemma import_inv_but_recompute:
  assumes "recompute_import_job_counts_on env jid s = Inr t" "import_inv_but jid held s"
  shows "import_inv held t"
proof -
  have ok: "jobs_ok s" "counts_ok_outside {jid} s" "attempts_ok held s"
    using assms(2) by (simp_all add: import_inv_but_def)
  have "counts_ok_outside ({jid} - {jid}) t"
    by (rule counts_ok_recompute [OF assms(1) ok(2)]) (use ok(1) in \<open>simp add: jobs_ok_def\<close>)
  then show ?thesis
    using ok jobs_ok_recompute [OF assms(1)]
      attempts_ok_cong [OF recompute_frame(2) [OF assms(1)] recompute_frame(1) [OF assms(1)]]
    by (simp add: import_inv_def counts_ok_outside_empty)
qed

lemma import_inv_but_update:
  assumes inv: "import_inv_but jid held s"
    and keys: "\<And>i. i_id (f i) = i_id i" "\<And>i. source_key (f i) = source_key i"
      "\<And>a. a_id (g a) = a_id a" "\<And>a. a_item_id (g a) = a_item_id a"
    and hit: "\<And>i. i \<in> set (items s) \<Longrightarrow> p i \<Longrightarrow> i_job_id i = jid"
    and att: "attempts_ok held t"
    and t: "t = s\<lparr>attempts := update_where q g (attempts s), items := update_where p f (items s)\<rparr>"
  shows "import_inv_but jid held t"
proof -
  have job: "i_job_id (f i) = i_job_id i" for i using keys(2) [of i] by (simp add: source_key_def)
  have ok: "jobs_ok s" "counts_ok_outside {jid} s" using inv by (simp_all add: import_inv_but_def)
  have "jobs_ok t" unfolding t using ok(1) by (simp add: jobs_ok_update keys)
  moreover have "counts_ok_outside {jid} t"
  proof (rule counts_ok_outside_mono [OF ok(2)])
    fix k assume "k \<notin> {jid}"
    then have "k \<noteq> jid" by simp
    then show "items_of t k = items_of s k"
      unfolding items_of_def t using items_of_update_job [OF hit job] by simp
  qed (simp_all add: t)
  ultimately show ?thesis using att by (simp add: import_inv_but_def)
qed

subsection \<open>Starting an attempt\<close>

definition started_item :: "env \<Rightarrow> import_item \<Rightarrow> import_item" where
  "started_item env i =
     i\<lparr>i_status := Item_Running, i_error_message := None,
       i_attempt_count := i_attempt_count i + 1, i_updated_at := now env\<rparr>"

definition new_attempt :: "env \<Rightarrow> start_import_attempt_input \<Rightarrow> store \<Rightarrow> import_attempt" where
  "new_attempt env input s =
     \<lparr>a_id = sa_attempt_id input, a_item_id = sa_item_id input,
      a_number = as_u32 (next_attempt_number s (sa_item_id input)),
      a_status = Attempt_Running, a_error_message = None,
      a_raw_blob_id = sa_raw_blob_id input, a_started_at = now env, a_finished_at = None\<rparr>"

lemma started_item_simps [simp]:
  "i_id (started_item env i) = i_id i" "i_job_id (started_item env i) = i_job_id i"
  "source_key (started_item env i) = source_key i" "i_status (started_item env i) = Item_Running"
  "i_attempt_count (started_item env i) = i_attempt_count i + 1"
  by (simp_all add: started_item_def source_key_def)

lemma new_attempt_simps [simp]:
  "a_id (new_attempt env input s) = sa_attempt_id input"
  "a_item_id (new_attempt env input s) = sa_item_id input"
  "a_status (new_attempt env input s) = Attempt_Running"
  "a_finished_at (new_attempt env input s) = None"
  by (simp_all add: new_attempt_def)

lemma start_cases:
  assumes "start_import_attempt env input s = (r, t)"
  obtains (refused) e where "r = Inl e" "t = s"
  | (started) i j where "item_of s (sa_item_id input) = Some i" "job_of s (i_job_id i) = Some j"
      "i_status i = Item_Running" "j_status j \<noteq> Job_Cancelled"
      "attempt_of s (sa_attempt_id input) = None"
      "recompute_import_job_counts_on env (i_job_id i)
         (s\<lparr>attempts := attempts s @ [new_attempt env input s],
            items := update_where (\<lambda>x. i_id x = sa_item_id input \<and> i_status x = Item_Running)
              (started_item env) (items s)\<rparr>) = Inr t"
      "r = Inr (map_import_attempt (new_attempt env input s))"
proof (cases "(\<exists>e. r = Inl e) \<and> t = s")
  case True
  then show ?thesis using refused by auto
next
  case False
  note not = this
  show ?thesis
  proof (cases "item_of s (sa_item_id input)")
    case None
    with assms not show ?thesis by (auto simp: start_import_attempt_def in_transaction_def)
  next
    case (Some i)
    note i = this
    show ?thesis
    proof (cases "job_of s (i_job_id i)")
      case None
      with i assms not show ?thesis by (auto simp: start_import_attempt_def in_transaction_def)
    next
      case (Some j)
      have st: "i_status i = Item_Running" "j_status j \<noteq> Job_Cancelled"
        "attempt_of s (sa_attempt_id input) = None"
        using i Some assms not
        by (auto simp: start_import_attempt_def in_transaction_def insert_import_attempt_def
            split: if_splits)
      let ?s1 = "s\<lparr>attempts := attempts s @ [new_attempt env input s],
            items := update_where (\<lambda>x. i_id x = sa_item_id input \<and> i_status x = Item_Running)
              (started_item env) (items s)\<rparr>"
      have "job_of ?s1 (i_job_id i) \<noteq> None" using Some by (simp add: job_of_def)
      then obtain t' where t': "recompute_import_job_counts_on env (i_job_id i) ?s1 = Inr t'"
        using recompute_total by blast
      have "count_where (\<lambda>x. i_id x = sa_item_id input \<and> i_status x = Item_Running) (items s) \<noteq> 0"
        using item_of_SomeD [OF i] st(1) by auto
      then have "start_import_attempt env input s =
          (ok_or (Invalid_Value ''import_attempt'' (sa_attempt_id input))
             (get_import_attempt (sa_attempt_id input) t'), t')"
        using i Some st t'
        by (simp add: start_import_attempt_def in_transaction_def insert_import_attempt_def
            new_attempt_def [symmetric] started_item_def [abs_def] Let_def del: count_where_0_iff)
      moreover have "get_import_attempt (sa_attempt_id input) t'
          = Some (map_import_attempt (new_attempt env input s))"
        using st(3) recompute_frame(2) [OF t']
        by (simp add: get_import_attempt_def attempt_of_def find_by_append)
      ultimately show ?thesis using started [OF i Some st] t' assms by simp
    qed
  qed
qed

lemma jobs_ok_append_attempt:
  assumes "jobs_ok s" "attempt_of s (a_id a) = None" "item_of s (a_item_id a) \<noteq> None"
  shows "jobs_ok (s\<lparr>attempts := attempts s @ [a]\<rparr>)"
proof -
  have "a_id a \<notin> set (map a_id (attempts s))"
    using assms(2) by (auto simp: attempt_of_def find_by_None_iff)
  moreover have "a_item_id a \<in> set (map i_id (items s))"
    using assms(3) by (auto dest!: item_of_SomeD intro: rev_image_eqI)
  ultimately show ?thesis using assms(1) by (auto simp: jobs_ok_def)
qed

lemma attempts_ok_append_attempt:
  assumes ok: "attempts_ok held s" and held: "a_item_id a \<in> held"
    and a: "a_status a = Attempt_Running" "a_finished_at a = None"
    and i: "i \<in> set (items s)" "i_id i = a_item_id a" "i_status i = Item_Running"
  shows "attempts_ok (held - {a_item_id a}) (s\<lparr>attempts := attempts s @ [a]\<rparr>)"
proof (rule attempts_okI)
  let ?s = "s\<lparr>attempts := attempts s @ [a]\<rparr>"
  have free: "a_item_id b \<noteq> a_item_id a" if "b \<in> set (attempts s)" "a_status b = Attempt_Running" for b
    using attempts_okD(1) [OF ok that] held by metis
  show "a_item_id b \<notin> held - {a_item_id a}"
    if "b \<in> set (attempts ?s)" "a_status b = Attempt_Running" for b
    using that attempts_okD(1) [OF ok, of b] by auto
  show "\<exists>i \<in> set (items ?s). i_id i = a_item_id b \<and> i_status i = Item_Running"
    if "b \<in> set (attempts ?s)" "a_status b = Attempt_Running" for b
    using that attempts_okD(2) [OF ok, of b] i by auto
  show "a_id b = a_id c"
    if "b \<in> set (attempts ?s)" "c \<in> set (attempts ?s)" "a_status b = Attempt_Running"
      "a_status c = Attempt_Running" "a_item_id b = a_item_id c" for b c
    using that free [of b] free [of c] attempts_ok_single [OF ok, of b c] by auto
  show "(a_finished_at b = None) = (a_status b = Attempt_Running)" if "b \<in> set (attempts ?s)" for b
    using that a attempts_ok_finished [OF ok, of b] by auto
qed

lemma import_inv_start:
  assumes inv: "import_inv held s" and held: "sa_item_id input \<in> held"
    and run: "start_import_attempt env input s = (r, t)"
  shows "import_inv (case r of Inl _ \<Rightarrow> held | Inr _ \<Rightarrow> held - {sa_item_id input}) t"
proof -
  note ok = import_inv_parts [OF inv]
  from run show ?thesis
  proof (cases rule: start_cases)
    case refused
    with inv show ?thesis by simp
  next
    case (started i j)
    let ?p = "\<lambda>x. i_id x = sa_item_id input \<and> i_status x = Item_Running"
    let ?s0 = "s\<lparr>attempts := attempts s @ [new_attempt env input s]\<rparr>"
    let ?s1 = "?s0\<lparr>items := update_where ?p (started_item env) (items ?s0)\<rparr>"
    have i: "i \<in> set (items s)" "i_id i = sa_item_id input" using item_of_SomeD [OF started(1)] by simp_all
    have recompute: "recompute_import_job_counts_on env (i_job_id i) ?s1 = Inr t"
      using started(6) by simp
    have "import_inv (held - {sa_item_id input}) t"
    proof (rule import_inv_recompute [OF recompute ok(2)])
      have "jobs_ok ?s0"
        by (rule jobs_ok_append_attempt [OF ok(1)]) (simp_all add: started(1,5))
      then show "jobs_ok ?s1" by (simp only: jobs_ok_update_items started_item_simps)
      have hit: "i_job_id x = i_job_id i" if "x \<in> set (items s)" "?p x" for x
        using item_unique [OF ok(1) that(1) i(1)] that(2) i(2) by simp
      show "items_of ?s1 k = items_of s k" if "k \<noteq> i_job_id i" for k
        unfolding items_of_def using items_of_update_job [OF hit _ that] by simp
      have "attempts_ok (held - {a_item_id (new_attempt env input s)}) ?s0"
        by (rule attempts_ok_append_attempt [OF ok(3) _ _ _ i(1)])
          (simp_all add: held i(2) started(3))
      then have "attempts_ok (held - {sa_item_id input}) ?s0" by simp
      then show "attempts_ok (held - {sa_item_id input}) ?s1"
        by (rule attempts_ok_update_items) simp_all
    qed simp
    then show ?thesis by (simp add: started(7))
  qed
qed

subsection \<open>Finishing an attempt\<close>

definition finished_attempt :: "env \<Rightarrow> finish_import_attempt_input \<Rightarrow> import_attempt \<Rightarrow> import_attempt" where
  "finished_attempt env input a =
     a\<lparr>a_status := fa_status input, a_error_message := fa_error_message input,
       a_raw_blob_id := (case fa_raw_blob_id input of None \<Rightarrow> a_raw_blob_id a | Some b \<Rightarrow> Some b),
       a_finished_at := (if fa_status input \<noteq> Attempt_Running then Some (now env) else None)\<rparr>"

definition finished_item :: "env \<Rightarrow> finish_import_attempt_input \<Rightarrow> import_item \<Rightarrow> import_item" where
  "finished_item env input i =
     i\<lparr>i_status := item_status_for_attempt_status (fa_status input),
       i_tracking_ids := fa_tracking_ids input, i_error_message := fa_error_message input,
       i_updated_at := now env\<rparr>"

lemma finished_attempt_simps [simp]:
  "a_id (finished_attempt env input a) = a_id a"
  "a_item_id (finished_attempt env input a) = a_item_id a"
  "a_status (finished_attempt env input a) = fa_status input"
  "a_finished_at (finished_attempt env input a) = None \<longleftrightarrow> fa_status input = Attempt_Running"
  by (simp_all add: finished_attempt_def)

lemma finished_item_simps [simp]:
  "i_id (finished_item env input i) = i_id i" "i_job_id (finished_item env input i) = i_job_id i"
  "source_key (finished_item env input i) = source_key i"
  "i_status (finished_item env input i) = item_status_for_attempt_status (fa_status input)"
  by (simp_all add: finished_item_def source_key_def)

text \<open>An attempt that runs, with its item and its job.\<close>

definition running_context ::
  "store \<Rightarrow> string \<Rightarrow> import_attempt \<Rightarrow> import_item \<Rightarrow> import_job \<Rightarrow> bool" where
  "running_context s aid a i j \<longleftrightarrow> attempt_of s aid = Some a \<and> item_of s (a_item_id a) = Some i
     \<and> job_of s (i_job_id i) = Some j \<and> a_status a = Attempt_Running
     \<and> i_status i = Item_Running \<and> j_status j \<noteq> Job_Cancelled"

lemma running_import_attempt_context_Some:
  "running_import_attempt_context aid s = Inr (Some (iid, jid)) \<longleftrightarrow>
   (\<exists>a i j. running_context s aid a i j \<and> iid = i_id i \<and> jid = i_job_id i)"
  by (auto simp: running_import_attempt_context_def running_context_def
      dest: item_of_SomeD split: option.splits)

definition finish_store ::
  "env \<Rightarrow> finish_import_attempt_input \<Rightarrow> string \<Rightarrow> store \<Rightarrow> store" where
  "finish_store env input iid s =
     s\<lparr>attempts := update_where (\<lambda>a. a_id a = fa_attempt_id input \<and> a_status a = Attempt_Running)
         (finished_attempt env input) (attempts s),
       items := update_where (\<lambda>i. i_id i = iid \<and> i_status i = Item_Running)
         (finished_item env input) (items s)\<rparr>"

lemma finish_running_cases:
  assumes "finish_running_import_attempt_on env input s = r"
  obtains (refused) e where "running_import_attempt_context (fa_attempt_id input) s = Inl e" "r = Inl e"
  | (late) "running_import_attempt_context (fa_attempt_id input) s = Inr None" "r = Inr (False, s)"
  | (finished) a i j t where "running_context s (fa_attempt_id input) a i j"
      "recompute_import_job_counts_on env (i_job_id i) (finish_store env input (i_id i) s) = Inr t"
      "r = Inr (True, t)"
proof (cases "running_import_attempt_context (fa_attempt_id input) s")
  case (Inl e)
  with assms show ?thesis by (intro refused) (auto simp: finish_running_import_attempt_on_def)
next
  case (Inr c)
  show ?thesis
  proof (cases c)
    case None
    with assms Inr show ?thesis by (intro late) (auto simp: finish_running_import_attempt_on_def)
  next
    case (Some ij)
    obtain iid jid where ij: "ij = (iid, jid)" by (cases ij)
    with Inr Some have "running_import_attempt_context (fa_attempt_id input) s = Inr (Some (iid, jid))"
      by simp
    then obtain a i j where c: "running_context s (fa_attempt_id input) a i j"
      and ids: "iid = i_id i" "jid = i_job_id i"
      unfolding running_import_attempt_context_Some by blast
    have "job_of (finish_store env input (i_id i) s) (i_job_id i) \<noteq> None"
      using c by (simp add: job_of_def finish_store_def running_context_def)
    then obtain t where t: "recompute_import_job_counts_on env (i_job_id i)
        (finish_store env input (i_id i) s) = Inr t"
      using recompute_total by blast
    have "count_where (\<lambda>a. a_id a = fa_attempt_id input \<and> a_status a = Attempt_Running) (attempts s) \<noteq> 0"
      using c attempt_of_SomeD [of s "fa_attempt_id input" a] by (auto simp: running_context_def)
    moreover have "count_where (\<lambda>i'. i_id i' = i_id i \<and> i_status i' = Item_Running) (items s) \<noteq> 0"
      using c item_of_SomeD [of s "a_item_id a" i] by (auto simp: running_context_def)
    ultimately have "r = Inr (True, t)"
      using assms Inr Some ij ids t
      by (simp add: finish_running_import_attempt_on_def finish_store_def Let_def
          finished_attempt_def [abs_def] finished_item_def [abs_def] del: count_where_0_iff)
    with c t show ?thesis by (rule finished)
  qed
qed

lemma import_inv_finish_running:
  assumes inv: "import_inv_but (i_job_id i) held s" and c: "running_context s (fa_attempt_id input) a i j"
    and run: "recompute_import_job_counts_on env (i_job_id i) (finish_store env input (i_id i) s) = Inr t"
  shows "import_inv held t"
proof (rule import_inv_but_recompute [OF run])
  have ok: "jobs_ok s" "attempts_ok held s" using inv by (simp_all add: import_inv_but_def)
  have a: "a \<in> set (attempts s)" "a_id a = fa_attempt_id input" "a_status a = Attempt_Running"
    and i: "i \<in> set (items s)" "i_id i = a_item_id a"
    using c by (auto simp: running_context_def dest: attempt_of_SomeD item_of_SomeD)
  show "import_inv_but (i_job_id i) held (finish_store env input (i_id i) s)"
  proof (rule import_inv_but_update [OF inv])
    fix x assume x: "x \<in> set (items s)" "i_id x = i_id i \<and> i_status x = Item_Running"
    show "i_job_id x = i_job_id i" using item_unique [OF ok(1) x(1) i(1)] x(2) by blast
  next
    show "attempts_ok held (finish_store env input (i_id i) s)"
      unfolding finish_store_def
    proof (rule attempts_ok_update [OF ok(2)])
      fix b x assume b: "b \<in> set (attempts s)" "a_status b = Attempt_Running"
        and run': "a_status (if a_id b = fa_attempt_id input \<and> a_status b = Attempt_Running
           then finished_attempt env input b else b) = Attempt_Running"
        and x: "x \<in> set (items s)" "i_id x = a_item_id b" "i_id x = i_id i \<and> i_status x = Item_Running"
      have "a_item_id b = a_item_id a" using x(2,3) i(2) by (rule_tac trans) auto
      then have "a_id b = a_id a" by (rule attempts_ok_single [OF ok(2) b(1) a(1) b(2) a(3)])
      then have "fa_status input = Attempt_Running" using run' b(2) a(2) by simp
      then show "i_status (finished_item env input x) = Item_Running" by simp
    qed simp_all
  qed (simp_all add: finish_store_def)
qed

lemma import_inv_finish:
  assumes inv: "import_inv held s"
  shows "import_inv held (snd (finish_import_attempt env input s))"
proof -
  obtain r where run: "finish_running_import_attempt_on env input s = r" by blast
  then show ?thesis
  proof (cases rule: finish_running_cases)
    case (finished a i j t)
    with import_inv_finish_running [OF import_inv_butI [OF inv] finished(1,2)] run show ?thesis
      by (simp add: finish_import_attempt_def in_transaction_def)
  qed (simp_all add: finish_import_attempt_def in_transaction_def inv run)
qed

text \<open>Queueing an item: the shared step of job creation and of manifest expansion.\<close>

lemma insert_item_Inr:
  "insert_import_job_item env c s = Inr t \<longleftrightarrow>
     item_of s (ci_item_id c) = None \<and> \<not> list_ex (same_source c) (items s)
     \<and> job_of s (ci_job_id c) \<noteq> None \<and> t = s\<lparr>items := items s @ [new_item env c]\<rparr>"
  by (auto simp: insert_import_job_item_def)

lemma new_item_simps [simp]:
  "i_id (new_item env c) = ci_item_id c" "i_job_id (new_item env c) = ci_job_id c"
  "i_status (new_item env c) = Item_Pending"
  "i_source_item_id (new_item env c) = ci_source_item_id c"
  "i_source_item_kind (new_item env c) = ci_source_item_kind c"
  "i_position (new_item env c) = ci_position c"
  "i_attempt_count (new_item env c) = 0"
  by (simp_all add: new_item_def)

lemma same_source_key:
  "same_source c i \<longleftrightarrow> source_key i = (ci_job_id c, ci_source_item_id c, ci_source_item_kind c)"
  by (auto simp: same_source_def source_key_def)

lemma import_inv_but_insert_item:
  assumes run: "insert_import_job_item env c s = Inr t" and inv: "import_inv_but jid held s"
    and job: "ci_job_id c = jid"
  shows "import_inv_but jid held t"
proof -
  note t = run [unfolded insert_item_Inr]
  have ok: "jobs_ok s" "counts_ok_outside {jid} s" "attempts_ok held s"
    using inv by (simp_all add: import_inv_but_def)
  have "ci_item_id c \<notin> set (map i_id (items s))"
    using t by (auto simp: item_of_def find_by_None_iff)
  moreover have "source_key (new_item env c) \<notin> set (map source_key (items s))"
    using t by (auto simp: list_ex_iff same_source_key source_key_def [of "new_item env c"])
  moreover have "ci_job_id c \<in> set (map j_id (jobs s))"
    using t by (auto dest!: job_of_SomeD intro: rev_image_eqI)
  ultimately have "jobs_ok t" using ok(1) t by (auto simp: jobs_ok_def)
  moreover have "counts_ok_outside {jid} t"
    by (rule counts_ok_outside_mono [OF ok(2)]) (use t job in \<open>auto simp: items_of_def\<close>)
  moreover have "attempts_ok held t"
  proof -
    have "attempts_ok held (s\<lparr>items := items s @ [new_item env c]\<rparr>)" (is "attempts_ok held ?s")
    proof (rule attempts_okI)
      show "\<exists>i \<in> set (items ?s). i_id i = a_item_id a \<and> i_status i = Item_Running"
        if "a \<in> set (attempts ?s)" "a_status a = Attempt_Running" for a
        using attempts_okD(2) [OF ok(3), of a] that by auto
      show "a_item_id a \<notin> held" if "a \<in> set (attempts ?s)" "a_status a = Attempt_Running" for a
        using attempts_okD(1) [OF ok(3), of a] that by simp
      show "a_id a = a_id b" if "a \<in> set (attempts ?s)" "b \<in> set (attempts ?s)"
        "a_status a = Attempt_Running" "a_status b = Attempt_Running" "a_item_id a = a_item_id b" for a b
        by (rule attempts_ok_single [OF ok(3)]) (use that in simp_all)
      show "(a_finished_at a = None) = (a_status a = Attempt_Running)" if "a \<in> set (attempts ?s)" for a
        by (rule attempts_ok_finished [OF ok(3)]) (use that in simp)
    qed
    then show ?thesis using t by simp
  qed
  ultimately show ?thesis by (simp add: import_inv_but_def)
qed

lemma import_inv_but_insert_or_ignore:
  assumes "insert_item_or_ignore env c s = Inr t" "import_inv_but jid held s" "ci_job_id c = jid"
  shows "import_inv_but jid held t"
  using assms import_inv_but_insert_item [of env c s t jid held]
  by (auto simp: insert_item_or_ignore_def split: if_splits)

lemma running_context_cong:
  assumes "attempt_of t aid = attempt_of s aid" "\<And>k. item_of s k \<noteq> None \<Longrightarrow> item_of t k = item_of s k"
    and "\<And>k. job_of t k = job_of s k" and "running_context s aid a i j"
  shows "running_context t aid a i j"
  using assms by (simp add: running_context_def)

text \<open>
  The queueing of a manifest's bags.  The counters of the job are stale while it
  runs, but nothing else of the invariant breaks and the attempt keeps running.
\<close>

lemma queue_items_frame:
  assumes "try_fold (insert_item_or_ignore env) cs s = Inr t"
  shows "jobs t = jobs s" "attempts t = attempts s" "rows t = rows s"
    "\<exists>added. items t = items s @ added \<and> set added \<subseteq> new_item env ` set cs"
proof -
  let ?P = "\<lambda>u. jobs u = jobs s \<and> attempts u = attempts s \<and> rows u = rows s
    \<and> (\<exists>added. items u = items s @ added \<and> set added \<subseteq> new_item env ` set cs)"
  have "?P t"
  proof (rule try_fold_invariant [OF assms, of ?P])
    show "?P v" if "c \<in> set cs" "?P u" "insert_item_or_ignore env c u = Inr v" for c u v
      using that by (fastforce simp: insert_item_or_ignore_def insert_item_Inr split: if_splits)
  qed simp
  then show "jobs t = jobs s" "attempts t = attempts s" "rows t = rows s"
    "\<exists>added. items t = items s @ added \<and> set added \<subseteq> new_item env ` set cs" by simp_all
qed

lemma import_inv_but_queue_items:
  assumes "try_fold (insert_item_or_ignore env) cs s = Inr t" "import_inv_but jid held s"
    and "\<forall>c \<in> set cs. ci_job_id c = jid"
  shows "import_inv_but jid held t"
  by (rule try_fold_invariant [OF assms(1), of "import_inv_but jid held"])
    (use assms(2,3) import_inv_but_insert_or_ignore in blast)+

lemma running_context_facts:
  assumes "running_context s aid a i j"
  shows "a \<in> set (attempts s)" "a_id a = aid" "a_status a = Attempt_Running"
    "i \<in> set (items s)" "i_id i = a_item_id a" "i_status i = Item_Running"
    "j \<in> set (jobs s)" "j_id j = i_job_id i" "j_status j \<noteq> Job_Cancelled"
  using assms by (auto simp: running_context_def dest: attempt_of_SomeD item_of_SomeD job_of_SomeD)

lemma running_context_Inr:
  "running_context s aid a i j \<Longrightarrow>
     running_import_attempt_context aid s = Inr (Some (i_id i, i_job_id i))"
  using running_import_attempt_context_Some by blast

lemma running_context_unique:
  "running_context s aid a i j \<Longrightarrow> running_context s aid b k l \<Longrightarrow> b = a \<and> k = i \<and> l = j"
  by (auto simp: running_context_def)

lemma finish_manifest_cases:
  assumes "finish_manifest_import_attempt_with_items env input cs s = (r, t)"
  obtains (refused) e where "r = Inl e" "t = s"
  | (late) "running_import_attempt_context (fa_attempt_id input) s = Inr None" "r = Inr False" "t = s"
  | (finished) a i j s1 where "running_context s (fa_attempt_id input) a i j"
      "running_context s1 (fa_attempt_id input) a i j"
      "\<forall>c \<in> set cs. ci_job_id c = i_job_id i"
      "try_fold (insert_item_or_ignore env) cs s = Inr s1"
      "recompute_import_job_counts_on env (i_job_id i) (finish_store env input (i_id i) s1) = Inr t"
      "r = Inr True"
proof (cases "running_import_attempt_context (fa_attempt_id input) s")
  case (Inl e)
  with assms show ?thesis
    by (intro refused) (auto simp: finish_manifest_import_attempt_with_items_def in_transaction_def)
next
  case (Inr c)
  show ?thesis
  proof (cases c)
    case None
    with Inr assms show ?thesis
      by (intro late) (auto simp: finish_manifest_import_attempt_with_items_def in_transaction_def)
  next
    case (Some ij)
    obtain a i j where ctx: "running_context s (fa_attempt_id input) a i j" and ij: "ij = (i_id i, i_job_id i)"
      using Inr Some running_import_attempt_context_Some [of "fa_attempt_id input" s] by (cases ij) auto
    show ?thesis
    proof (cases "list_ex (\<lambda>c. ci_job_id c \<noteq> i_job_id i) cs \<or> (\<exists>e. try_fold (insert_item_or_ignore env) cs s = Inl e)")
      case True
      with Inr Some ij assms have "\<exists>e. r = Inl e \<and> t = s"
        by (auto simp: finish_manifest_import_attempt_with_items_def in_transaction_def split: if_splits)
      then show ?thesis using refused by blast
    next
      case False
      then obtain s1 where s1: "try_fold (insert_item_or_ignore env) cs s = Inr s1"
        by (cases "try_fold (insert_item_or_ignore env) cs s") auto
      from False have cs: "\<forall>c \<in> set cs. ci_job_id c = i_job_id i" by (auto simp: list_ex_iff)
      obtain added where "items s1 = items s @ added" using queue_items_frame(4) [OF s1] by auto
      then have ctx1: "running_context s1 (fa_attempt_id input) a i j"
        using ctx queue_items_frame(1,2) [OF s1]
        by (simp add: running_context_def attempt_of_def item_of_def job_of_def find_by_append)
      obtain r1 where r1: "finish_running_import_attempt_on env input s1 = r1" by blast
      then show ?thesis
      proof (cases rule: finish_running_cases)
        case (finished a' i' j' t')
        then have eq: "a' = a" "i' = i" "j' = j" using ctx1 by (simp_all add: running_context_def)
        have "r = Inr True \<and> t = t'"
          using assms Inr Some ij False s1 r1 finished(3)
          by (simp add: finish_manifest_import_attempt_with_items_def in_transaction_def)
        with that(3) [OF ctx ctx1 cs s1] finished(2) eq show ?thesis by simp
      qed (use running_context_Inr [OF ctx1] in simp_all)
    qed
  qed
qed

lemma import_inv_finish_manifest:
  assumes inv: "import_inv held s"
  shows "import_inv held (snd (finish_manifest_import_attempt_with_items env input cs s))"
proof -
  obtain r t where run: "finish_manifest_import_attempt_with_items env input cs s = (r, t)" by fastforce
  then show ?thesis
  proof (cases rule: finish_manifest_cases)
    case (finished a i j s1)
    have "import_inv_but (i_job_id i) held s1"
      by (rule import_inv_but_queue_items [OF finished(4) import_inv_butI [OF inv] finished(3)])
    with import_inv_finish_running [OF _ finished(2,5)] run show ?thesis by simp
  qed (simp_all add: run inv)
qed

lemma upsert_with_mode_frame:
  assumes "upsert_sheet_row_with_mode env k input preserve s = Inr t"
  shows "jobs t = jobs s" "items t = items s" "attempts t = attempts s" "sheets t = sheets s"
    "cache t = cache s"
  using assms
  by (auto simp: upsert_sheet_row_with_mode_def Let_def free_position_def insert_sheet_row_def
      split: option.splits if_splits)

lemma upsert_rows_and_invalidate_frame:
  "upsert_rows_and_invalidate env k rs s = Inr t \<Longrightarrow>
     jobs t = jobs s \<and> items t = items s \<and> attempts t = attempts s \<and> sheets t = sheets s"
proof (induction rs arbitrary: k s)
  case (Cons r rs)
  then obtain u where u: "upsert_sheet_row_with_mode env k r False s = Inr u"
    and run: "upsert_rows_and_invalidate env (Suc k) rs (invalidate_cache (ur_sheet_id r) u) = Inr t"
    by (auto simp: and_then_Inr_iff upsert_sheet_row_on_def)
  from Cons.IH [OF run] upsert_with_mode_frame [OF u] show ?case by (simp add: invalidate_cache_def)
qed simp

lemma rows_ok_upsert_rows_and_invalidate:
  "upsert_rows_and_invalidate env k rs s = Inr t \<Longrightarrow> rows_ok s \<Longrightarrow> rows_ok t"
proof (induction rs arbitrary: k s)
  case (Cons r rs)
  then obtain u where u: "upsert_sheet_row_with_mode env k r False s = Inr u"
    and run: "upsert_rows_and_invalidate env (Suc k) rs (invalidate_cache (ur_sheet_id r) u) = Inr t"
    by (auto simp: and_then_Inr_iff upsert_sheet_row_on_def)
  from Cons.IH [OF run] rows_ok_upsert [OF u Cons.prems(2)] show ?case by simp
qed simp

definition with_sheet_row_ids :: "env \<Rightarrow> string list \<Rightarrow> import_item \<Rightarrow> import_item" where
  "with_sheet_row_ids env row_ids i = i\<lparr>i_sheet_row_ids := row_ids, i_updated_at := now env\<rparr>"

lemma with_sheet_row_ids_simps [simp]:
  "i_id (with_sheet_row_ids env row_ids i) = i_id i"
  "i_job_id (with_sheet_row_ids env row_ids i) = i_job_id i"
  "source_key (with_sheet_row_ids env row_ids i) = source_key i"
  "i_status (with_sheet_row_ids env row_ids i) = i_status i"
  by (simp_all add: with_sheet_row_ids_def source_key_def)

definition bag_store :: "env \<Rightarrow> string \<Rightarrow> string list \<Rightarrow> store \<Rightarrow> store" where
  "bag_store env iid row_ids s =
     s\<lparr>items := update_where (\<lambda>i. i_id i = iid \<and> i_status i = Item_Running)
         (with_sheet_row_ids env row_ids) (items s)\<rparr>"

lemma finish_bag_run:
  assumes ctx: "running_context s (fa_attempt_id input) a i j" and iid: "i_id i = iid"
    and s1: "upsert_rows_and_invalidate env 0 new_rows s = Inr s1"
  obtains t where "running_context (bag_store env iid row_ids s1) (fa_attempt_id input) a
         (with_sheet_row_ids env row_ids i) j"
    "recompute_import_job_counts_on env (i_job_id i)
         (finish_store env input iid (bag_store env iid row_ids s1)) = Inr t"
    "finish_bag_import_attempt_with_sheet_rows env input iid new_rows row_ids s = (Inr True, t)"
proof -
  let ?s2 = "bag_store env iid row_ids s1"
  let ?i = "with_sheet_row_ids env row_ids i"
  have ctx1: "running_context ?s2 (fa_attempt_id input) a ?i j"
    using ctx upsert_rows_and_invalidate_frame [OF s1] iid running_context_facts(5) [OF ctx]
    by (simp add: running_context_def attempt_of_def item_of_def job_of_def bag_store_def
        find_by_update_where)
  obtain r1 where r1: "finish_running_import_attempt_on env input ?s2 = r1" by blast
  then show ?thesis
  proof (cases rule: finish_running_cases)
    case (finished a' i' j' t)
    have eq: "a' = a" "i' = ?i" "j' = j" using running_context_unique [OF ctx1 finished(1)] by simp_all
    have "finish_bag_import_attempt_with_sheet_rows env input iid new_rows row_ids s = (Inr True, t)"
      using running_context_Inr [OF ctx] iid s1 r1 finished(3)
      by (simp add: finish_bag_import_attempt_with_sheet_rows_def in_transaction_def Let_def
          bag_store_def with_sheet_row_ids_def [abs_def])
    with that ctx1 finished(2) eq iid show ?thesis by simp
  qed (use running_context_Inr [OF ctx1] in simp_all)
qed

lemma finish_bag_cases:
  assumes "finish_bag_import_attempt_with_sheet_rows env input iid new_rows row_ids s = (r, t)"
  obtains (refused) e where "r = Inl e" "t = s"
  | (late) "running_import_attempt_context (fa_attempt_id input) s = Inr None" "r = Inr False" "t = s"
  | (finished) a i j s1 where "running_context s (fa_attempt_id input) a i j" "i_id i = iid"
      "upsert_rows_and_invalidate env 0 new_rows s = Inr s1"
      "running_context (bag_store env iid row_ids s1) (fa_attempt_id input) a
         (with_sheet_row_ids env row_ids i) j"
      "recompute_import_job_counts_on env (i_job_id i)
         (finish_store env input iid (bag_store env iid row_ids s1)) = Inr t"
      "r = Inr True"
proof (cases "running_import_attempt_context (fa_attempt_id input) s")
  case (Inl e)
  with assms show ?thesis
    by (intro refused) (auto simp: finish_bag_import_attempt_with_sheet_rows_def in_transaction_def)
next
  case (Inr c)
  show ?thesis
  proof (cases c)
    case None
    with Inr assms show ?thesis
      by (intro late) (auto simp: finish_bag_import_attempt_with_sheet_rows_def in_transaction_def)
  next
    case (Some ij)
    obtain a i j where ctx: "running_context s (fa_attempt_id input) a i j" and ij: "ij = (i_id i, i_job_id i)"
      using Inr Some running_import_attempt_context_Some [of "fa_attempt_id input" s] by (cases ij) auto
    show ?thesis
    proof (cases "i_id i \<noteq> iid \<or> (\<exists>e. upsert_rows_and_invalidate env 0 new_rows s = Inl e)")
      case True
      with Inr Some ij assms have "\<exists>e. r = Inl e \<and> t = s"
        by (auto simp: finish_bag_import_attempt_with_sheet_rows_def in_transaction_def split: if_splits)
      then show ?thesis using refused by blast
    next
      case False
      then obtain s1 where s1: "upsert_rows_and_invalidate env 0 new_rows s = Inr s1" and iid: "i_id i = iid"
        by (cases "upsert_rows_and_invalidate env 0 new_rows s") auto
      from finish_bag_run [OF ctx iid s1, where row_ids = row_ids] assms finished [OF ctx iid s1]
      show ?thesis by (metis prod.inject)
    qed
  qed
qed

lemma import_inv_finish_bag:
  assumes inv: "import_inv held s"
  shows "import_inv held (snd (finish_bag_import_attempt_with_sheet_rows env input iid new_rows row_ids s))"
proof -
  obtain r t where run: "finish_bag_import_attempt_with_sheet_rows env input iid new_rows row_ids s = (r, t)"
    by fastforce
  then show ?thesis
  proof (cases rule: finish_bag_cases)
    case (finished a i j s1)
    let ?s2 = "bag_store env iid row_ids s1"
    have inv1: "import_inv held s1"
      using import_inv_cong [of s1 s held] upsert_rows_and_invalidate_frame [OF finished(3)] inv by simp
    have i: "i \<in> set (items s1)"
      using running_context_facts(4) [OF finished(1)] upsert_rows_and_invalidate_frame [OF finished(3)] by simp
    note ok = import_inv_parts [OF inv1]
    have "import_inv_but (i_job_id i) held ?s2"
    proof (rule import_inv_but_update [OF import_inv_butI [OF inv1]])
      show "i_job_id x = i_job_id i" if "x \<in> set (items s1)" "i_id x = iid \<and> i_status x = Item_Running" for x
        using item_unique [OF ok(1) that(1) i] that(2) finished(2) by simp
      show "attempts_ok held ?s2"
        unfolding bag_store_def by (rule attempts_ok_update_items [OF ok(3)]) simp_all
      show "?s2 = s1\<lparr>attempts := update_where (\<lambda>_. False) (\<lambda>a. a) (attempts s1),
          items := update_where (\<lambda>i. i_id i = iid \<and> i_status i = Item_Running)
            (with_sheet_row_ids env row_ids) (items s1)\<rparr>"
        by (simp add: bag_store_def update_where_id)
    qed simp_all
    with import_inv_finish_running [OF _ finished(4)] finished(5) finished(2) run show ?thesis by simp
  qed (simp_all add: run inv)
qed

subsection \<open>Cancelling, recovering, retrying\<close>

definition cancelled_attempt :: "env \<Rightarrow> import_attempt \<Rightarrow> import_attempt" where
  "cancelled_attempt env a =
     a\<lparr>a_status := Attempt_Cancelled, a_error_message := coalesce (a_error_message a) ''cancelled'',
       a_finished_at := Some (now env)\<rparr>"

definition cancelled_item :: "env \<Rightarrow> import_item \<Rightarrow> import_item" where
  "cancelled_item env i =
     i\<lparr>i_status := Item_Cancelled, i_error_message := coalesce (i_error_message i) ''cancelled'',
       i_updated_at := now env\<rparr>"

lemma cancelled_simps [simp]:
  "a_id (cancelled_attempt env a) = a_id a" "a_item_id (cancelled_attempt env a) = a_item_id a"
  "a_status (cancelled_attempt env a) = Attempt_Cancelled"
  "a_finished_at (cancelled_attempt env a) = Some (now env)"
  "i_id (cancelled_item env i) = i_id i" "i_job_id (cancelled_item env i) = i_job_id i"
  "source_key (cancelled_item env i) = source_key i"
  "i_status (cancelled_item env i) = Item_Cancelled"
  by (simp_all add: cancelled_attempt_def cancelled_item_def source_key_def)

definition closing_store :: "env \<Rightarrow> string \<Rightarrow> store \<Rightarrow> store" where
  "closing_store env jid s =
     s\<lparr>attempts := update_where
         (\<lambda>a. a_item_id a \<in> set (map i_id (items_of s jid)) \<and> a_status a = Attempt_Running)
         (cancelled_attempt env) (attempts s),
       items := update_where (\<lambda>i. i_job_id i = jid \<and> i_status i \<in> {Item_Pending, Item_Running})
         (cancelled_item env) (items s)\<rparr>"

definition cancelled_job :: "env \<Rightarrow> store \<Rightarrow> import_job \<Rightarrow> import_job" where
  "cancelled_job env s j =
     j\<lparr>j_status := Job_Cancelled,
       j_success_count := count_import_items_by_status_on s (j_id j) Item_Succeeded,
       j_failed_count := count_import_items_by_status_on s (j_id j) Item_Failed,
       j_pending_count := 0, j_cancelled_at := Some (now env), j_updated_at := now env\<rparr>"

lemma update_where_cong:
  "(\<And>r. r \<in> set rs \<Longrightarrow> p r = q r) \<Longrightarrow> (\<And>r. r \<in> set rs \<Longrightarrow> q r \<Longrightarrow> f r = g r) \<Longrightarrow>
   update_where p f rs = update_where q g rs"
  by (induction rs) auto

lemma cancel_eq:
  "cancel_import_job env jid s =
     (if job_of s jid = None then (Inl (Missing_Import_Job jid), s)
      else (Inr (), (closing_store env jid s)\<lparr>jobs := update_where (\<lambda>j. j_id j = jid)
             (cancelled_job env (closing_store env jid s)) (jobs s)\<rparr>))"
proof -
  have "update_where (\<lambda>j. j_id j = jid)
      (\<lambda>j. j\<lparr>j_status := Job_Cancelled,
             j_success_count := count_import_items_by_status_on (closing_store env jid s) jid Item_Succeeded,
             j_failed_count := count_import_items_by_status_on (closing_store env jid s) jid Item_Failed,
             j_pending_count := 0, j_cancelled_at := Some (now env), j_updated_at := now env\<rparr>) (jobs s)
    = update_where (\<lambda>j. j_id j = jid) (cancelled_job env (closing_store env jid s)) (jobs s)"
    by (rule update_where_cong) (simp_all add: cancelled_job_def)
  then show ?thesis
    by (simp add: cancel_import_job_def get_import_job_summary_def in_transaction_def Let_def
        closing_store_def cancelled_attempt_def [abs_def] cancelled_item_def [abs_def])
qed

lemma closing_store_items_of:
  "items_of (closing_store env jid s) k =
     (if k = jid then update_where (\<lambda>i. i_status i \<in> {Item_Pending, Item_Running})
                        (cancelled_item env) (items_of s jid)
      else items_of s k)"
proof -
  have "items_of (closing_store env jid s) k = update_where
      (\<lambda>i. i_job_id i = jid \<and> i_status i \<in> {Item_Pending, Item_Running}) (cancelled_item env) (items_of s k)"
    unfolding items_of_def closing_store_def by (simp add: items_of_update)
  also have "\<dots> = (if k = jid then update_where (\<lambda>i. i_status i \<in> {Item_Pending, Item_Running})
                        (cancelled_item env) (items_of s jid) else items_of s k)"
    by (auto simp: items_of_def intro!: update_where_cong update_where_id)
  finally show ?thesis .
qed

lemma closing_store_counts:
  "count_import_items_by_status_on (closing_store env jid s) jid Item_Pending = 0"
  "count_import_items_by_status_on (closing_store env jid s) jid Item_Running = 0"
  "count_import_items_by_status_on (closing_store env jid s) jid Item_Succeeded
     = count_import_items_by_status_on s jid Item_Succeeded"
  "count_import_items_by_status_on (closing_store env jid s) jid Item_Failed
     = count_import_items_by_status_on s jid Item_Failed"
  unfolding count_items_of closing_store_items_of if_P [OF refl] count_where_update
  by (auto intro: count_where_cong simp del: count_where_0_iff) (auto intro!: count_where_cong)

lemma import_inv_cancel:
  assumes inv: "import_inv held s"
  shows "import_inv held (snd (cancel_import_job env jid s))"
proof (cases "job_of s jid")
  case None
  with inv show ?thesis by (simp add: cancel_eq)
next
  case (Some j0)
  let ?s1 = "closing_store env jid s"
  let ?t = "?s1\<lparr>jobs := update_where (\<lambda>j. j_id j = jid) (cancelled_job env ?s1) (jobs s)\<rparr>"
  note ok = import_inv_parts [OF inv]
  have att: "attempts_ok held ?s1"
    unfolding closing_store_def
    by (rule attempts_ok_update [OF ok(3)])
      (auto simp: items_of_def intro: rev_image_eqI split: if_splits)
  have "import_inv_but jid held ?s1"
    by (rule import_inv_but_update [OF import_inv_butI [OF inv] _ _ _ _ _ att closing_store_def]) auto
  then have ok1: "jobs_ok ?s1" "counts_ok_outside {jid} ?s1" by (simp_all add: import_inv_but_def)
  have js: "jobs ?s1 = jobs s" by (simp add: closing_store_def)
  have "jobs_ok ?t = jobs_ok ?s1" by (rule jobs_ok_cong) (simp_all add: js cancelled_job_def)
  then have "jobs_ok ?t" using ok1(1) by simp
  moreover have "attempts_ok held ?t" using attempts_ok_cong [of ?t ?s1] att by simp
  moreover have "job_counts_ok ?t j" if j: "j \<in> set (jobs ?t)" for j
  proof (cases "j_id j = jid")
    case True
    then obtain j1 where j1: "j1 \<in> set (jobs s)" "j_id j1 = jid" "j = cancelled_job env ?s1 j1"
      using j by (auto simp: in_update_where)
    have "job_counts_ok s j1" using ok(2) j1(1) by (simp add: counts_ok_def)
    then have "j_total_count j1 = length (items_of ?s1 jid)"
      by (simp add: job_counts_ok_def j1(2) closing_store_items_of)
    then have "job_counts_ok ?s1 j"
      using j1 by (simp add: job_counts_ok_def cancelled_job_def closing_store_counts
          status_from_items_def derived_job_status_def)
    then show ?thesis using job_counts_ok_cong [of ?t j ?s1] by (simp add: items_of_def)
  next
    case False
    with j have "j \<in> set (jobs ?s1)" by (auto simp: in_update_where closing_store_def cancelled_job_def)
    with ok1(2) False have "job_counts_ok ?s1 j" by (simp add: counts_ok_outside_def)
    then show ?thesis using job_counts_ok_cong [of ?t j ?s1] by (simp add: items_of_def)
  qed
  ultimately have "import_inv held ?t" by (simp add: import_inv_def counts_ok_def)
  then show ?thesis by (simp add: cancel_eq Some)
qed

text \<open>Recovery at start-up: no worker holds an item any more.\<close>

definition interrupted_attempt :: "env \<Rightarrow> import_attempt \<Rightarrow> import_attempt" where
  "interrupted_attempt env a =
     a\<lparr>a_status := Attempt_Interrupted,
       a_error_message := coalesce (a_error_message a) ''interrupted by shutdown'',
       a_finished_at := Some (now env)\<rparr>"

definition recovered_item :: "env \<Rightarrow> import_item \<Rightarrow> import_item" where
  "recovered_item env i =
     i\<lparr>i_status := Item_Pending, i_error_message := None, i_next_retry_at := None,
       i_updated_at := now env\<rparr>"

lemma recovered_simps [simp]:
  "a_id (interrupted_attempt env a) = a_id a" "a_item_id (interrupted_attempt env a) = a_item_id a"
  "a_status (interrupted_attempt env a) = Attempt_Interrupted"
  "a_finished_at (interrupted_attempt env a) = Some (now env)"
  "i_id (recovered_item env i) = i_id i" "i_job_id (recovered_item env i) = i_job_id i"
  "source_key (recovered_item env i) = source_key i"
  "i_status (recovered_item env i) = Item_Pending"
  "i_position (recovered_item env i) = i_position i"
  "i_attempt_count (recovered_item env i) = i_attempt_count i"
  by (simp_all add: interrupted_attempt_def recovered_item_def source_key_def)

definition recovery_store :: "env \<Rightarrow> store \<Rightarrow> store" where
  "recovery_store env s =
     s\<lparr>attempts := update_where (\<lambda>a. a_status a = Attempt_Running \<and> a_finished_at a = None)
         (interrupted_attempt env) (attempts s),
       items := update_where (\<lambda>i. i_status i = Item_Running) (recovered_item env) (items s)\<rparr>"

definition running_in_order :: "store \<Rightarrow> import_item list" where
  "running_in_order s = sort_key (\<lambda>i. (i_job_id i, i_position i, i_id i))
     (filter (\<lambda>i. i_status i = Item_Running) (items s))"

definition interrupted_in_order :: "store \<Rightarrow> import_attempt list" where
  "interrupted_in_order s = sort_key (\<lambda>a. (a_started_at a, a_id a))
     (filter (\<lambda>a. a_status a = Attempt_Running \<and> a_finished_at a = None) (attempts s))"

definition recovery_summary :: "store \<Rightarrow> job_recovery_summary" where
  "recovery_summary s =
     \<lparr>rs_recovered_job_ids = fold push_new (map i_job_id (running_in_order s)) [],
      rs_recovered_item_ids = fold push_new (map i_id (running_in_order s))
        (fold push_new (map a_item_id (interrupted_in_order s)) []),
      rs_interrupted_attempt_ids = map a_id (interrupted_in_order s)\<rparr>"

lemma recover_eq:
  "recover_interrupted_import_jobs env s =
     (case recompute_all env (rs_recovered_job_ids (recovery_summary s)) (recovery_store env s) of
        (Inl e, t) \<Rightarrow> (Inl e, t)
      | (Inr _, t) \<Rightarrow> (Inr (recovery_summary s), t))"
  by (simp add: recover_interrupted_import_jobs_def recovery_summary_def recovery_store_def
      running_in_order_def interrupted_in_order_def Let_def
      interrupted_attempt_def [abs_def] recovered_item_def [abs_def] split: sum.split prod.split)

lemma set_fold_push_new: "set (fold push_new xs ys) = set xs \<union> set ys"
  by (induction xs arbitrary: ys) (auto simp: push_new_def)

lemma distinct_fold_push_new: "distinct ys \<Longrightarrow> distinct (fold push_new xs ys)"
  by (induction xs arbitrary: ys) (auto simp: push_new_def)

lemma recompute_all_total:
  assumes "\<forall>jid \<in> set jids. job_of s jid \<noteq> None"
    and "jobs_ok s" "counts_ok_outside J s"
  shows "\<exists>t. recompute_all env jids s = (Inr (), t) \<and> jobs_ok t \<and> counts_ok_outside (J - set jids) t
    \<and> items t = items s \<and> attempts t = attempts s \<and> rows t = rows s \<and> sheets t = sheets s
    \<and> map j_id (jobs t) = map j_id (jobs s)"
  using assms
proof (induction jids arbitrary: s J)
  case (Cons jid jids)
  then obtain u where u: "recompute_import_job_counts_on env jid s = Inr u"
    using recompute_total [of s jid env] by auto
  note fr = recompute_frame [OF u]
  have "counts_ok_outside (J - {jid}) u"
    by (rule counts_ok_recompute [OF u Cons.prems(3)]) (use Cons.prems(2) in \<open>simp add: jobs_ok_def\<close>)
  moreover have "jobs_ok u" using jobs_ok_recompute [OF u] Cons.prems(2) by simp
  moreover have "\<forall>k \<in> set jids. job_of u k \<noteq> None"
  proof
    fix k assume "k \<in> set jids"
    then have "job_of s k \<noteq> None" using Cons.prems(1) by simp
    then have "k \<in> set (map j_id (jobs s))" by (auto dest!: job_of_SomeD intro: rev_image_eqI)
    then have "k \<in> set (map j_id (jobs u))" by (simp only: fr(6))
    then show "job_of u k \<noteq> None" by (auto simp: job_of_def find_by_None_iff)
  qed
  ultimately obtain t where t: "recompute_all env jids u = (Inr (), t)" "jobs_ok t"
    "counts_ok_outside (J - {jid} - set jids) t" "items t = items u" "attempts t = attempts u"
    "rows t = rows u" "sheets t = sheets u" "map j_id (jobs t) = map j_id (jobs u)"
    using Cons.IH [of u "J - {jid}"] by blast
  have "J - {jid} - set jids = J - set (jid # jids)" by auto
  with t fr u show ?case by auto
qed auto

lemma recover_total:
  assumes inv: "import_inv held s"
  shows "\<exists>t. recover_interrupted_import_jobs env s = (Inr (recovery_summary s), t)
    \<and> import_inv {} t \<and> items t = items (recovery_store env s)
    \<and> attempts t = attempts (recovery_store env s) \<and> rows t = rows s \<and> sheets t = sheets s"
proof -
  note ok = import_inv_parts [OF inv]
  let ?s1 = "recovery_store env s"
  let ?J = "i_job_id ` {i \<in> set (items s). i_status i = Item_Running}"
  have js: "set (rs_recovered_job_ids (recovery_summary s)) = ?J"
    by (auto simp: recovery_summary_def set_fold_push_new running_in_order_def)
  have known: "\<forall>jid \<in> ?J. job_of ?s1 jid \<noteq> None"
    using jobs_ok_job [OF ok(1)] by (auto simp: recovery_store_def job_of_def)
  have jo: "jobs_ok ?s1" unfolding recovery_store_def using ok(1) by (simp add: jobs_ok_update)
  have co: "counts_ok_outside ?J ?s1"
  proof (rule counts_ok_outside_mono [where s = s and K = "{}"])
    fix k assume "k \<notin> ?J"
    then show "items_of ?s1 k = items_of s k"
      by (simp add: items_of_def recovery_store_def items_of_update) (auto intro!: update_where_id)
  qed (use ok(2) in \<open>simp_all add: counts_ok_outside_empty recovery_store_def\<close>)
  have at: "attempts_ok {} ?s1"
    unfolding recovery_store_def
    by (rule attempts_ok_update [OF attempts_ok_subset [OF ok(3)]])
      (use attempts_ok_finished [OF ok(3)] in auto)
  obtain t where t: "recompute_all env (rs_recovered_job_ids (recovery_summary s)) ?s1 = (Inr (), t)"
    "jobs_ok t" "counts_ok_outside (?J - ?J) t" "items t = items ?s1" "attempts t = attempts ?s1"
    "rows t = rows ?s1" "sheets t = sheets ?s1"
    using recompute_all_total [OF _ jo co, of "rs_recovered_job_ids (recovery_summary s)" env] known js
    by auto
  have "import_inv {} t"
    using t(2,3) at attempts_ok_cong [OF t(5,4)] by (simp add: import_inv_def counts_ok_outside_empty)
  then show ?thesis using t by (simp add: recover_eq recovery_store_def)
qed

definition requeued_item :: "env \<Rightarrow> import_item \<Rightarrow> import_item" where
  "requeued_item env i =
     i\<lparr>i_status := Item_Pending, i_tracking_ids := [], i_sheet_row_ids := [],
       i_error_message := None, i_next_retry_at := None, i_updated_at := now env\<rparr>"

lemma requeued_item_simps [simp]:
  "i_id (requeued_item env i) = i_id i" "i_job_id (requeued_item env i) = i_job_id i"
  "source_key (requeued_item env i) = source_key i"
  "i_status (requeued_item env i) = Item_Pending"
  "i_attempt_count (requeued_item env i) = i_attempt_count i"
  "i_position (requeued_item env i) = i_position i"
  "requeued_item env (requeued_item env i) = requeued_item env i"
  by (simp_all add: requeued_item_def source_key_def)

text \<open>The items \<open>retry_import_job_failed\<close> picks.\<close>

definition to_retry :: "string \<Rightarrow> nat \<Rightarrow> import_item \<Rightarrow> bool" where
  "to_retry jid max_attempts i \<longleftrightarrow>
     i_job_id i = jid \<and> i_status i = Item_Failed \<and> i_attempt_count i < max_attempts"

lemma requeue_all:
  "fold (requeue_item env) ids s =
     s\<lparr>items := update_where (\<lambda>i. i_id i \<in> set ids) (requeued_item env) (items s)\<rparr>"
proof (induction ids arbitrary: s)
  case (Cons iid ids)
  have "update_where (\<lambda>i. i_id i \<in> set ids) (requeued_item env)
      (update_where (\<lambda>i. i_id i = iid) (requeued_item env) is)
    = update_where (\<lambda>i. i_id i \<in> set (iid # ids)) (requeued_item env) is" for "is"
    by (induction "is") auto
  with Cons show ?case by (simp add: requeue_item_def requeued_item_def [abs_def])
qed (simp add: update_where_id)

definition items_in_order :: "string \<Rightarrow> store \<Rightarrow> import_item list" where
  "items_in_order jid s = sort_key (\<lambda>i. (i_position i, i_id i)) (items_of s jid)"

definition retry_targets :: "string \<Rightarrow> nat \<Rightarrow> store \<Rightarrow> import_retry_targets" where
  "retry_targets jid max_attempts s =
     (let picked = filter (to_retry jid max_attempts) (items_in_order jid s)
      in \<lparr>rt_source_item_ids = map i_source_item_id
            (filter (\<lambda>i. i_source_item_kind i \<noteq> Src_ManifestBag) picked),
          rt_manifest_bag_ids = map i_source_item_id
            (filter (\<lambda>i. i_source_item_kind i = Src_ManifestBag) picked)\<rparr>)"

lemma filter_map_items:
  "filter (retryable max_attempts) (map map_import_job_item (items_in_order jid s))
     = map map_import_job_item (filter (to_retry jid max_attempts) (items_in_order jid s))"
proof -
  have "filter (retryable max_attempts \<circ> map_import_job_item) (items_in_order jid s)
      = filter (to_retry jid max_attempts) (items_in_order jid s)"
    by (rule filter_cong)
      (auto simp: retryable_def to_retry_def map_import_job_item_def items_in_order_def items_of_def)
  then show ?thesis by (simp add: filter_map)
qed

lemma retry_eq:
  assumes ok: "jobs_ok s" and job: "job_of s jid \<noteq> None"
  shows "\<exists>t. retry_import_job_failed env jid max_attempts s = (Inr (retry_targets jid max_attempts s), t)
    \<and> recompute_import_job_counts_on env jid
        (s\<lparr>items := update_where (to_retry jid max_attempts) (requeued_item env) (items s)\<rparr>) = Inr t"
proof -
  let ?picked = "filter (to_retry jid max_attempts) (items_in_order jid s)"
  let ?s1 = "s\<lparr>items := update_where (to_retry jid max_attempts) (requeued_item env) (items s)\<rparr>"
  have hit: "i_id i \<in> set (map i_id ?picked) \<longleftrightarrow> to_retry jid max_attempts i" if i: "i \<in> set (items s)" for i
  proof
    assume "i_id i \<in> set (map i_id ?picked)"
    then obtain k where k: "k \<in> set (items s)" "to_retry jid max_attempts k" "i_id i = i_id k"
      by (auto simp: items_in_order_def items_of_def)
    from item_unique [OF ok i k(1,3)] k(2) show "to_retry jid max_attempts i" by simp
  next
    assume "to_retry jid max_attempts i"
    with i show "i_id i \<in> set (map i_id ?picked)"
      by (auto simp: items_in_order_def items_of_def to_retry_def)
  qed
  have "fold (requeue_item env) (map i_id ?picked) s = ?s1"
  proof -
    have "update_where (\<lambda>i. i_id i \<in> set (map i_id ?picked)) (requeued_item env) (items s)
        = update_where (to_retry jid max_attempts) (requeued_item env) (items s)"
      by (rule update_where_cong) (rule hit, assumption, rule refl)
    then show ?thesis unfolding requeue_all by (rule arg_cong)
  qed
  moreover have "job_of ?s1 jid \<noteq> None" using job by (simp add: job_of_def)
  then obtain t where t: "recompute_import_job_counts_on env jid ?s1 = Inr t"
    using recompute_total by blast
  moreover have "map ji_item_id (filter (retryable max_attempts) (map map_import_job_item (items_in_order jid s)))
      = map i_id ?picked"
    unfolding filter_map_items by (simp add: map_import_job_item_def)
  moreover have kinds: "map ji_source_item_id (filter (\<lambda>i. P (ji_source_item_kind i))
        (filter (retryable max_attempts) (map map_import_job_item (items_in_order jid s))))
      = map i_source_item_id (filter (\<lambda>i. P (i_source_item_kind i)) ?picked)" for P
    unfolding filter_map_items by (simp add: filter_map comp_def map_import_job_item_def del: filter_filter)
  ultimately have "retry_import_job_failed env jid max_attempts s = (Inr (retry_targets jid max_attempts s), t)"
    using job kinds [of "\<lambda>k. k = Src_ManifestBag"] kinds [of "\<lambda>k. k \<noteq> Src_ManifestBag"]
    by (auto simp: retry_import_job_failed_def get_import_job_def get_import_job_summary_def
        retry_targets_def Let_def items_in_order_def [symmetric]
        simp del: filter_filter)
  with t show ?thesis by blast
qed

lemma import_inv_retry:
  assumes inv: "import_inv held s"
  shows "import_inv held (snd (retry_import_job_failed env jid max_attempts s))"
proof (cases "job_of s jid")
  case None
  with inv show ?thesis
    by (simp add: retry_import_job_failed_def get_import_job_def get_import_job_summary_def)
next
  case (Some j)
  note ok = import_inv_parts [OF inv]
  let ?s1 = "s\<lparr>items := update_where (to_retry jid max_attempts) (requeued_item env) (items s)\<rparr>"
  obtain t where t: "retry_import_job_failed env jid max_attempts s = (Inr (retry_targets jid max_attempts s), t)"
    and run: "recompute_import_job_counts_on env jid ?s1 = Inr t"
    using retry_eq [OF ok(1)] Some by blast
  have "attempts_ok held ?s1"
    by (rule attempts_ok_update_items [OF ok(3)]) (auto simp: to_retry_def)
  then have "import_inv_but jid held ?s1"
    by (rule import_inv_but_update [OF import_inv_butI [OF inv], where q = "\<lambda>_. False"
          and g = "\<lambda>a. a" and p = "to_retry jid max_attempts" and f = "requeued_item env", rotated 5])
      (auto simp: to_retry_def update_where_id)
  from import_inv_but_recompute [OF run this] t show ?thesis by simp
qed

subsection \<open>Creating and deleting\<close>

lemma upsert_import_job_Inr:
  assumes "upsert_import_job env input n s = Inr t" "jobs_ok s"
  shows "items t = items s" "attempts t = attempts s" "rows t = rows s"
    "distinct (map j_id (jobs t))" "set (map j_id (jobs s)) \<subseteq> set (map j_id (jobs t))"
    "job_of t (cj_job_id input) \<noteq> None"
    "\<And>j. j \<in> set (jobs t) \<Longrightarrow> j_id j \<noteq> cj_job_id input \<Longrightarrow> j \<in> set (jobs s)"
proof -
  have d: "distinct (map j_id (jobs s))" using assms(2) by (simp add: jobs_ok_def)
  show "items t = items s" "attempts t = attempts s" "rows t = rows s"
    using assms(1) by (auto simp: upsert_import_job_def split: if_splits option.splits)
  show "distinct (map j_id (jobs t))"
    using assms(1) d
    by (fastforce simp: upsert_import_job_def job_of_def find_by_None_iff split: if_splits option.splits)
  show "set (map j_id (jobs s)) \<subseteq> set (map j_id (jobs t))"
    using assms(1)
    by (auto simp: upsert_import_job_def simp flip: set_map split: if_splits option.splits)
  show "job_of t (cj_job_id input) \<noteq> None"
    using assms(1)
    by (auto simp: upsert_import_job_def job_of_def find_by_append find_by_update_where
        split: if_splits option.splits)
  show "j \<in> set (jobs s)" if "j \<in> set (jobs t)" "j_id j \<noteq> cj_job_id input" for j
    using assms(1) that
    by (auto simp: upsert_import_job_def in_update_where split: if_splits option.splits)
qed

text \<open>Dropping whole jobs, with their items and the attempts of these.\<close>

lemma attempts_ok_drop_items:
  assumes ok: "attempts_ok held s" and dist: "distinct (map i_id (items s))"
    and t: "items t = filter p (items s)"
      "attempts t = filter (\<lambda>a. a_item_id a \<notin> i_id ` {i \<in> set (items s). \<not> p i}) (attempts s)"
  shows "attempts_ok held t"
proof (rule attempts_okI)
  fix a assume "a \<in> set (attempts t)" "a_status a = Attempt_Running"
  then have a: "a \<in> set (attempts s)" "a_status a = Attempt_Running"
    and keep: "a_item_id a \<notin> i_id ` {i \<in> set (items s). \<not> p i}" by (simp_all add: t)
  show "a_item_id a \<notin> held" by (rule attempts_okD(1) [OF ok a])
  show "\<exists>i \<in> set (items t). i_id i = a_item_id a \<and> i_status i = Item_Running"
    using attempts_okD(2) [OF ok a] keep by (auto simp: t image_iff)
next
  fix a b assume "a \<in> set (attempts t)" "b \<in> set (attempts t)" "a_status a = Attempt_Running"
    "a_status b = Attempt_Running" "a_item_id a = a_item_id b"
  then show "a_id a = a_id b" using attempts_ok_single [OF ok, of a b] by (simp add: t)
next
  fix a assume "a \<in> set (attempts t)"
  then show "(a_finished_at a = None) = (a_status a = Attempt_Running)"
    using attempts_ok_finished [OF ok, of a] by (simp add: t)
qed

lemma jobs_ok_drop_items:
  assumes ok: "jobs_ok s" and j: "distinct (map j_id (jobs t))"
    and fk: "i_job_id ` {i \<in> set (items s). p i} \<subseteq> set (map j_id (jobs t))"
    and t: "items t = filter p (items s)"
      "attempts t = filter (\<lambda>a. a_item_id a \<notin> i_id ` {i \<in> set (items s). \<not> p i}) (attempts s)"
  shows "jobs_ok t"
proof -
  have "set (map a_item_id (attempts t)) \<subseteq> set (map i_id (items t))"
  proof
    fix x assume "x \<in> set (map a_item_id (attempts t))"
    then obtain a where a: "a \<in> set (attempts s)" "x = a_item_id a"
      and keep: "a_item_id a \<notin> i_id ` {i \<in> set (items s). \<not> p i}" by (auto simp: t)
    from a(1) ok have "a_item_id a \<in> i_id ` set (items s)" by (auto simp: jobs_ok_def)
    then obtain i where i: "i \<in> set (items s)" "a_item_id a = i_id i" by auto
    with keep have "p i" by auto
    with i a(2) show "x \<in> set (map i_id (items t))" by (auto simp: t)
  qed
  with ok j fk show ?thesis
    by (auto simp: jobs_ok_def t distinct_map_filter)
qed

lemma import_inv_create_with_items:
  assumes inv: "import_inv held s"
  shows "import_inv held (snd (create_import_job_with_items env input new_items s))"
proof (cases "list_ex (\<lambda>c. ci_job_id c \<noteq> cj_job_id input) new_items")
  case True
  with inv show ?thesis by (simp add: create_import_job_with_items_def)
next
  case False
  then have own: "\<forall>c \<in> set new_items. ci_job_id c = cj_job_id input" by (auto simp: list_ex_iff)
  let ?jid = "cj_job_id input"
  let ?s1 = "if cj_mode input = Mode_Replace
    then invalidate_cache (cj_sheet_id input) (delete_rows_of_sheet (cj_sheet_id input) s) else s"
  have inv1: "import_inv held ?s1"
    using import_inv_cong [of ?s1 s held] inv
    by (auto simp: invalidate_cache_def delete_rows_of_sheet_def)
  note ok = import_inv_parts [OF inv1]
  have "import_inv held u"
    if s2: "upsert_import_job env input (as_u32 (length new_items)) ?s1 = Inr s2"
      and s3: "try_fold (insert_import_job_item env) new_items (delete_items_of_job ?jid s2) = Inr s3"
      and u: "recompute_import_job_counts_on env ?jid s3 = Inr u" for s2 s3 u
  proof -
    note up = upsert_import_job_Inr [OF s2 ok(1)]
    let ?d = "delete_items_of_job ?jid s2"
    have d: "items ?d = filter (\<lambda>i. i_job_id i \<noteq> ?jid) (items ?s1)"
      "attempts ?d = filter (\<lambda>a. a_item_id a \<notin> i_id ` {i \<in> set (items ?s1). \<not> i_job_id i \<noteq> ?jid}) (attempts ?s1)"
      by (simp_all add: delete_items_of_job_def items_of_def up(1,2))
    have jd: "jobs ?d = jobs s2" by (simp add: delete_items_of_job_def)
    have "jobs_ok ?d"
    proof (rule jobs_ok_drop_items [OF ok(1) _ _ d])
      show "distinct (map j_id (jobs ?d))" using up(4) by (simp add: jd)
      show "i_job_id ` {i \<in> set (items ?s1). i_job_id i \<noteq> ?jid} \<subseteq> set (map j_id (jobs ?d))"
      proof -
        have "i_job_id ` {i \<in> set (items ?s1). i_job_id i \<noteq> ?jid} \<subseteq> set (map i_job_id (items ?s1))"
          by auto
        also have "\<dots> \<subseteq> set (map j_id (jobs ?s1))" using ok(1) unfolding jobs_ok_def by blast
        finally show ?thesis using up(5) unfolding jd by (rule order_trans)
      qed
    qed
    moreover have "attempts_ok held ?d"
      by (rule attempts_ok_drop_items [OF ok(3) _ d]) (use ok(1) in \<open>simp add: jobs_ok_def\<close>)
    moreover have "counts_ok_outside {?jid} ?d"
      by (rule counts_ok_outside_mono [where s = ?s1 and K = "{}"])
        (use ok(2) up(7) in \<open>auto simp: counts_ok_outside_empty jd items_of_def d intro!: filter_cong\<close>)
    ultimately have "import_inv_but ?jid held ?d" by (simp add: import_inv_but_def)
    then have "import_inv_but ?jid held s3"
      by (rule try_fold_invariant [OF s3]) (use own import_inv_but_insert_item in blast)
    with u show ?thesis by (rule import_inv_but_recompute)
  qed
  then show ?thesis
    using inv False
    by (auto simp: create_import_job_with_items_def in_transaction_def Let_def and_then_def
        split: sum.splits simp del: if_split)
qed

lemma import_inv_delete_sheet:
  assumes inv: "import_inv held s"
  shows "import_inv held (delete_sheet sid s)"
proof -
  note ok = import_inv_parts [OF inv]
  let ?t = "delete_sheet sid s"
  let ?dead = "j_id ` {j \<in> set (jobs s). j_sheet_id j = sid}"
  have t: "jobs ?t = filter (\<lambda>j. j_sheet_id j \<noteq> sid) (jobs s)"
    "items ?t = filter (\<lambda>i. i_job_id i \<notin> ?dead) (items s)"
    "attempts ?t = filter (\<lambda>a. a_item_id a \<notin> i_id ` {i \<in> set (items s). \<not> i_job_id i \<notin> ?dead}) (attempts s)"
    by (simp_all add: delete_sheet_def Let_def)
  have dist: "distinct (map j_id (jobs s))" "distinct (map i_id (items s))"
    using ok(1) by (simp_all add: jobs_ok_def)
  have alive: "j_id j \<notin> ?dead" if "j \<in> set (jobs ?t)" for j
    using that job_unique [OF ok(1)] by (auto simp: t)
  have "jobs_ok ?t"
  proof (rule jobs_ok_drop_items [OF ok(1) _ _ t(2,3)])
    show "distinct (map j_id (jobs ?t))" using dist(1) by (simp add: t distinct_map_filter)
    show "i_job_id ` {i \<in> set (items s). i_job_id i \<notin> ?dead} \<subseteq> set (map j_id (jobs ?t))"
    proof
      fix x assume "x \<in> i_job_id ` {i \<in> set (items s). i_job_id i \<notin> ?dead}"
      then obtain i where i: "i \<in> set (items s)" "x = i_job_id i" "x \<notin> ?dead" by auto
      from jobs_ok_job [OF ok(1) i(1)] obtain j where "j \<in> set (jobs s)" "j_id j = x"
        using i(2) by (auto dest: job_of_SomeD)
      with i(3) show "x \<in> set (map j_id (jobs ?t))" by (auto simp: t)
    qed
  qed
  moreover have "attempts_ok held ?t" by (rule attempts_ok_drop_items [OF ok(3) dist(2) t(2,3)])
  moreover have "job_counts_ok ?t j" if j: "j \<in> set (jobs ?t)" for j
  proof -
    have "items_of ?t (j_id j) = items_of s (j_id j)"
      unfolding items_of_def t(2) filter_filter using alive [OF j]
      by (intro filter_cong [OF refl]) metis
    then have "job_counts_ok ?t j = job_counts_ok s j" by (rule job_counts_ok_cong)
    then show ?thesis using ok(2) j by (simp add: counts_ok_def t)
  qed
  ultimately show ?thesis by (simp add: import_inv_def counts_ok_def)
qed

end
