(* ===== verification/StoreMachine.thy ===== *)
theory StoreMachine
  imports ImportJobs
begin

text \<open>
  The workspace store as a state machine: every mutating operation the import
  engine and the sheet commands call is a step, taken by a number of workers
  that share the store.  \<open>held\<close> are the items some worker has claimed and not
  started yet; a recovery happens at start-up and empties it.  The invariant of
  the store holds in every reachable state.
\<close>

subsection \<open>Row operations and the invariant\<close>

definition store_inv :: "string set \<Rightarrow> store \<Rightarrow> bool" where
  "store_inv held s \<longleftrightarrow> rows_ok s \<and> import_inv held s"

text \<open>The tables a row operation leaves alone.\<close>

definition import_tables :: "store \<Rightarrow> import_job list \<times> import_item list \<times> import_attempt list \<times> sheet list" where
  "import_tables s = (jobs s, items s, attempts s, sheets s)"

lemma import_tables_simps [simp]:
  "import_tables (s\<lparr>rows := r\<rparr>) = import_tables s"
  "import_tables (s\<lparr>cache := c\<rparr>) = import_tables s"
  "import_tables (invalidate_cache sid s) = import_tables s"
  "import_tables (delete_rows_of_sheet sid s) = import_tables s"
  "import_tables (delete_row sid rid s) = import_tables s"
  "import_tables (free_position input s) = import_tables s"
  by (simp_all add: import_tables_def invalidate_cache_def delete_rows_of_sheet_def
      delete_row_def free_position_def)

lemma store_inv_rows:
  assumes "store_inv held s" "rows_ok t" "import_tables t = import_tables s"
  shows "store_inv held t"
  using assms import_inv_cong [of t s held] by (simp add: store_inv_def import_tables_def)

text \<open>A row operation keeps the rows well formed and leaves the import tables alone.\<close>

definition row_frame :: "store \<Rightarrow> store \<Rightarrow> bool" where
  "row_frame s t \<longleftrightarrow> (rows_ok s \<longrightarrow> rows_ok t) \<and> import_tables t = import_tables s"

lemma row_frame_refl [simp]: "row_frame s s"
  by (simp add: row_frame_def)

lemma row_frame_trans: "row_frame s t \<Longrightarrow> row_frame t u \<Longrightarrow> row_frame s u"
  by (simp add: row_frame_def)

lemma store_inv_row_frame: "store_inv held s \<Longrightarrow> row_frame s t \<Longrightarrow> store_inv held t"
  using store_inv_rows [of held s t] by (simp add: row_frame_def store_inv_def)

lemma row_frame_invalidate_cache [simp]: "row_frame s (invalidate_cache sid s)"
  by (simp add: row_frame_def)

lemma row_frame_delete_rows_of_sheet [simp]: "row_frame s (delete_rows_of_sheet sid s)"
  by (simp add: row_frame_def rows_ok_delete_rows_of_sheet)

lemma row_frame_fold_delete_row [simp]: "row_frame s (fold (delete_row sid) ids s)"
proof (induction ids arbitrary: s)
  case (Cons i ids)
  have "row_frame s (delete_row sid i s)" by (simp add: row_frame_def rows_ok_delete_row)
  with Cons show ?case by (auto intro: row_frame_trans)
qed simp

lemma row_frame_upsert:
  "upsert_sheet_row_with_mode env k input preserve s = Inr t \<Longrightarrow> row_frame s t"
  using rows_ok_upsert upsert_with_mode_frame(1-4) by (simp add: row_frame_def import_tables_def)

lemma row_frame_upsert_all: "upsert_all env k inputs preserve s = Inr t \<Longrightarrow> row_frame s t"
proof (induction inputs arbitrary: k s)
  case (Cons input inputs)
  then obtain u where "upsert_sheet_row_with_mode env k input preserve s = Inr u"
    "upsert_all env (Suc k) inputs preserve u = Inr t" by (auto simp: and_then_Inr_iff)
  with Cons.IH show ?case by (blast intro: row_frame_trans row_frame_upsert)
qed simp

lemma row_frame_append_all: "append_all env sid start i inputs s = Inr t \<Longrightarrow> row_frame s t"
proof (induction inputs arbitrary: i s)
  case (Cons input inputs)
  then obtain u where "upsert_sheet_row_with_mode env i (input\<lparr>ur_position := start + i\<rparr>) False s = Inr u"
    "append_all env sid start (Suc i) inputs u = Inr t"
    by (auto simp: and_then_Inr_iff upsert_sheet_row_on_def split: if_splits)
  with Cons.IH show ?case by (blast intro: row_frame_trans row_frame_upsert)
qed simp

lemma row_frame_insert: "insert_sheet_row r s = Inr t \<Longrightarrow> row_frame s t"
  using rows_ok_insert [of r s t] by (auto simp: row_frame_def insert_sheet_row_def split: if_splits)

lemma row_frame_transfer_loop:
  "transfer_loop env src tgt ids seen p k copied s = Inr (c, t) \<Longrightarrow> row_frame s t"
  by (induction env src tgt ids seen p k copied s rule: transfer_loop.induct)
    (auto simp: Let_def and_then_Inr_iff split: if_splits option.splits
      intro: row_frame_trans row_frame_insert)

lemma row_frame_set_position: "set_row_position u sid pr s = Inr t \<Longrightarrow> row_frame s t"
  using rows_ok_set_row_position [of u sid "fst pr" "snd pr" s t]
  by (cases pr) (auto simp: row_frame_def set_row_position_def Let_def split: if_splits)

lemma row_frame_compact: "compact_sheet_row_positions sid u s = Inr t \<Longrightarrow> row_frame s t"
  unfolding compact_sheet_row_positions_def
  by (rule try_fold_invariant [where P = "row_frame s"])
    (auto intro: row_frame_trans row_frame_set_position)

lemma row_frame_transaction:
  assumes "\<And>v t. body s = Inr (v, t) \<Longrightarrow> row_frame s t"
  shows "row_frame s (snd (in_transaction body s))"
  using assms by (auto simp: in_transaction_def split: sum.split)

text \<open>The row operations of the workspace, as the commands call them.\<close>

datatype row_command =
    Upsert_Rows string "upsert_sheet_row_input list" bool bool
  | Append_Rows string "upsert_sheet_row_input list"
  | Clear_Rows string
  | Delete_Rows string "string list"
  | Transfer_Rows transfer_sheet_rows_input
  | Copy_Rows string string

fun run_row_command :: "env \<Rightarrow> row_command \<Rightarrow> unit operation" where
  "run_row_command env (Upsert_Rows sid inputs replace_existing preserve) =
     upsert_sheet_rows_with_mode env sid inputs replace_existing preserve"
| "run_row_command env (Append_Rows sid inputs) = append_sheet_rows_atomic env sid inputs"
| "run_row_command env (Clear_Rows sid) = clear_sheet_rows sid"
| "run_row_command env (Delete_Rows sid ids) = delete_sheet_rows env sid ids"
| "run_row_command env (Transfer_Rows input) = transfer_sheet_rows env input"
| "run_row_command env (Copy_Rows src tgt) = copy_sheet_rows env src tgt"

lemma row_frame_transfer: "row_frame s (snd (transfer_sheet_rows env input s))"
proof -
  let ?src = "tr_source_sheet_id input" and ?tgt = "tr_target_sheet_id input"
  have core: "row_frame s s2"
    if loop: "transfer_loop env ?src ?tgt ids {} p 0 [] s = Inr (copied, s1)"
      and s2: "(if tr_delete_source_rows input
         then compact_sheet_row_positions ?src (now env) (fold (delete_row ?src) copied s1)
         else Inr s1) = Inr s2" for ids p copied s1 s2
  proof -
    have "row_frame s1 s2"
    proof (cases "tr_delete_source_rows input")
      case True
      with s2 have "compact_sheet_row_positions ?src (now env) (fold (delete_row ?src) copied s1) = Inr s2"
        by simp
      then show ?thesis by (rule row_frame_trans [OF row_frame_fold_delete_row row_frame_compact])
    qed (use s2 in simp)
    with row_frame_transfer_loop [OF loop] show ?thesis by (rule row_frame_trans)
  qed
  show ?thesis
  proof (cases "tr_row_ids input = [] \<or> ?src = ?tgt")
    case False
    show ?thesis
      unfolding transfer_sheet_rows_def Let_def if_not_P [OF False]
      by (rule row_frame_transaction, simp only: and_then_Inr_iff)
        (clarsimp simp only: and_then_Inr_iff split: prod.splits,
         auto intro: row_frame_trans [OF core row_frame_invalidate_cache]
           row_frame_trans [OF row_frame_trans [OF core row_frame_invalidate_cache] row_frame_invalidate_cache])
  qed (auto simp: transfer_sheet_rows_def)
qed

lemma row_frame_command: "row_frame s (snd (run_row_command env c s))"
proof (cases c)
  case (Upsert_Rows sid inputs replace_existing preserve)
  have "row_frame s (invalidate_cache sid t)"
    if "upsert_all env 0 inputs preserve (if replace_existing then delete_rows_of_sheet sid s else s) = Inr t" for t
    by (rule row_frame_trans [OF row_frame_trans [OF _ row_frame_upsert_all [OF that]]
          row_frame_invalidate_cache]) simp
  then show ?thesis
    by (auto simp: Upsert_Rows upsert_sheet_rows_with_mode_def Let_def and_then_Inr_iff
        intro!: row_frame_transaction)
next
  case (Append_Rows sid inputs)
  then show ?thesis
    by (auto simp: append_sheet_rows_atomic_def Let_def and_then_Inr_iff split: if_splits
        intro!: row_frame_transaction
        intro: row_frame_trans [OF row_frame_append_all row_frame_invalidate_cache])
next
  case (Clear_Rows sid)
  have "row_frame s (invalidate_cache sid (delete_rows_of_sheet sid s))"
    by (rule row_frame_trans [OF row_frame_delete_rows_of_sheet row_frame_invalidate_cache])
  then show ?thesis by (simp add: Clear_Rows clear_sheet_rows_def in_transaction_def)
next
  case (Delete_Rows sid ids)
  have "row_frame s (invalidate_cache sid t)"
    if "compact_sheet_row_positions sid u (fold (delete_row sid) ids s) = Inr t" for u t
    using row_frame_trans [OF row_frame_fold_delete_row row_frame_compact [OF that]]
    by (blast intro: row_frame_trans row_frame_invalidate_cache)
  then show ?thesis
    by (auto simp: Delete_Rows delete_sheet_rows_def and_then_Inr_iff intro!: row_frame_transaction)
qed (simp_all add: row_frame_transfer copy_sheet_rows_def)

lemma row_command_rollback:
  "fst (run_row_command env c s) = Inl e \<Longrightarrow> snd (run_row_command env c s) = s"
  by (cases c)
    (auto simp: upsert_sheet_rows_with_mode_def append_sheet_rows_atomic_def clear_sheet_rows_def
      delete_sheet_rows_def transfer_sheet_rows_def copy_sheet_rows_def Let_def
      dest: in_transaction_Inl split: if_splits)

subsection \<open>Import operations and the rows\<close>

lemma rows_ok_same: "rows t = rows s \<Longrightarrow> sheets t = sheets s \<Longrightarrow> rows_ok s \<Longrightarrow> rows_ok t"
  using rows_ok_cong [of s t] by simp

lemma rows_ok_recompute:
  "recompute_import_job_counts_on env jid s = Inr t \<Longrightarrow> rows_ok s \<Longrightarrow> rows_ok t"
  by (rule rows_ok_same) (simp_all add: recompute_frame)

lemma rows_ok_claim:
  assumes "claim_next_pending_import_job_item env jid s = (r, t)" "jobs_ok s" "rows_ok s"
  shows "rows_ok t"
  using assms(2,1)
proof (cases rule: claim_cases)
  case (claimed it)
  show ?thesis by (rule rows_ok_recompute [OF claimed(5)], rule rows_ok_same [OF _ _ assms(3)]) simp_all
qed (use assms(3) in simp)

lemma rows_ok_start:
  assumes "start_import_attempt env input s = (r, t)" "rows_ok s"
  shows "rows_ok t"
  using assms(1)
proof (cases rule: start_cases)
  case (started i j)
  show ?thesis by (rule rows_ok_recompute [OF started(6)], rule rows_ok_same [OF _ _ assms(2)]) simp_all
qed (use assms(2) in simp)

lemma rows_ok_finish_store:
  assumes "recompute_import_job_counts_on env jid (finish_store env input iid s) = Inr t" "rows_ok s"
  shows "rows_ok t"
  by (rule rows_ok_recompute [OF assms(1)], rule rows_ok_same [OF _ _ assms(2)])
    (simp_all add: finish_store_def)

lemma rows_ok_finish:
  assumes "rows_ok s"
  shows "rows_ok (snd (finish_import_attempt env input s))"
proof -
  obtain r where run: "finish_running_import_attempt_on env input s = r" by blast
  then show ?thesis
  proof (cases rule: finish_running_cases)
    case (finished a i j t)
    from rows_ok_finish_store [OF finished(2) assms] finished(3) run show ?thesis
      by (simp add: finish_import_attempt_def in_transaction_def)
  qed (simp_all add: finish_import_attempt_def in_transaction_def assms run)
qed

lemma queue_items_sheets:
  assumes "try_fold (insert_item_or_ignore env) cs s = Inr t"
  shows "sheets t = sheets s"
proof (rule try_fold_invariant [OF assms, of "\<lambda>u. sheets u = sheets s"])
  show "sheets v = sheets s" if "sheets u = sheets s" "insert_item_or_ignore env c u = Inr v" for c u v
    using that by (auto simp: insert_item_or_ignore_def insert_item_Inr split: if_splits)
qed simp

lemma rows_ok_finish_manifest:
  assumes ok: "rows_ok s"
  shows "rows_ok (snd (finish_manifest_import_attempt_with_items env input cs s))"
proof -
  obtain r t where run: "finish_manifest_import_attempt_with_items env input cs s = (r, t)" by fastforce
  then show ?thesis
  proof (cases rule: finish_manifest_cases)
    case (finished a i j s1)
    have "rows_ok s1"
      by (rule rows_ok_same [OF _ _ ok]) (simp_all add: queue_items_frame [OF finished(4)] queue_items_sheets [OF finished(4)])
    with rows_ok_finish_store [OF finished(5)] run show ?thesis by simp
  qed (simp_all add: run ok)
qed

lemma rows_ok_finish_bag:
  assumes ok: "rows_ok s"
  shows "rows_ok (snd (finish_bag_import_attempt_with_sheet_rows env input iid new_rows row_ids s))"
proof -
  obtain r t where run: "finish_bag_import_attempt_with_sheet_rows env input iid new_rows row_ids s = (r, t)"
    by fastforce
  then show ?thesis
  proof (cases rule: finish_bag_cases)
    case (finished a i j s1)
    have "rows_ok (bag_store env iid row_ids s1)"
      by (rule rows_ok_same [OF _ _ rows_ok_upsert_rows_and_invalidate [OF finished(3) ok]])
        (simp_all add: bag_store_def)
    with rows_ok_finish_store [OF finished(5)] run show ?thesis by simp
  qed (simp_all add: run ok)
qed

lemma rows_ok_cancel: "rows_ok s \<Longrightarrow> rows_ok (snd (cancel_import_job env jid s))"
  by (auto simp: cancel_eq closing_store_def elim!: rows_ok_same [rotated 2])

lemma rows_ok_retry:
  assumes "jobs_ok s" "rows_ok s"
  shows "rows_ok (snd (retry_import_job_failed env jid n s))"
proof (cases "job_of s jid")
  case None
  with assms show ?thesis
    by (simp add: retry_import_job_failed_def get_import_job_def get_import_job_summary_def)
next
  case (Some j)
  then obtain t where t: "snd (retry_import_job_failed env jid n s) = t"
    "recompute_import_job_counts_on env jid
        (s\<lparr>items := update_where (to_retry jid n) (requeued_item env) (items s)\<rparr>) = Inr t"
    using retry_eq [OF assms(1), of jid env n] by fastforce
  show ?thesis
    unfolding t(1) by (rule rows_ok_recompute [OF t(2)], rule rows_ok_same [OF _ _ assms(2)]) simp_all
qed

lemma rows_ok_create_with_items:
  assumes ok: "rows_ok s"
  shows "rows_ok (snd (create_import_job_with_items env input new_items s))"
proof -
  let ?s1 = "if cj_mode input = Mode_Replace
    then invalidate_cache (cj_sheet_id input) (delete_rows_of_sheet (cj_sheet_id input) s) else s"
  have ok1: "rows_ok ?s1" using ok by (simp add: rows_ok_delete_rows_of_sheet)
  have "rows_ok u"
    if s2: "upsert_import_job env input n ?s1 = Inr s2"
      and s3: "try_fold (insert_import_job_item env) cs (delete_items_of_job jid s2) = Inr s3"
      and u: "recompute_import_job_counts_on env jid s3 = Inr u" for n s2 cs jid s3 u
  proof -
    have "rows_ok s2"
      by (rule rows_ok_same [OF _ _ ok1])
        (use s2 in \<open>auto simp: upsert_import_job_def split: if_splits option.splits\<close>)
    then have "rows_ok (delete_items_of_job jid s2)"
      by (rule rows_ok_same [rotated 2]) (simp_all add: delete_items_of_job_def)
    then have "rows_ok s3"
      by (rule try_fold_invariant [OF s3])
        (auto simp: insert_item_Inr elim!: rows_ok_same [rotated 2])
    then show ?thesis by (rule rows_ok_recompute [OF u])
  qed
  then show ?thesis
    using ok
    by (auto simp: create_import_job_with_items_def in_transaction_def Let_def and_then_def
        split: sum.splits simp del: if_split)
qed

lemma rows_ok_delete_sheet:
  assumes "rows_ok s"
  shows "rows_ok (delete_sheet sid s)"
proof -
  have kept: "find_by s_id x (filter (\<lambda>y. s_id y \<noteq> sid) ss) = (if x \<noteq> sid then find_by s_id x ss else None)" for x ss
    by (rule find_by_filter_key)
  show ?thesis
    using assms
    by (auto simp: rows_ok_def delete_sheet_def Let_def sheet_exists_def distinct_map_filter kept
        intro: positions_unique_subset)
qed

subsection \<open>The machine\<close>

text \<open>
  What the rest of the program does to these tables: sheets come and change, rows are
  updated, the import tables are left alone.
\<close>

definition other_write :: "store \<Rightarrow> store \<Rightarrow> bool" where
  "other_write s t \<longleftrightarrow> (rows_ok s \<longrightarrow> rows_ok t) \<and> jobs t = jobs s \<and> items t = items s \<and> attempts t = attempts s"

text \<open>
  A state is the store with the held items.  \<open>Claim\<close> of a worker makes it hold the
  item, and it starts only what it holds; every other operation may be called by
  any worker or command at any time, with any arguments.  \<open>Others\<close> is the rest of the
  program.
\<close>

inductive store_step :: "store \<times> string set \<Rightarrow> store \<times> string set \<Rightarrow> bool" where
  Claim: "claim_next_pending_import_job_item env jid s = (r, t) \<Longrightarrow>
    store_step (s, held)
      (t, case r of Inr (Some i) \<Rightarrow> insert (ji_item_id i) held | _ \<Rightarrow> held)"
| Start: "sa_item_id input \<in> held \<Longrightarrow> start_import_attempt env input s = (r, t) \<Longrightarrow>
    store_step (s, held) (t, case r of Inl _ \<Rightarrow> held | Inr _ \<Rightarrow> held - {sa_item_id input})"
| Finish: "finish_import_attempt env input s = (r, t) \<Longrightarrow> store_step (s, held) (t, held)"
| Finish_Manifest: "finish_manifest_import_attempt_with_items env input cs s = (b, t) \<Longrightarrow>
    store_step (s, held) (t, held)"
| Finish_Bag: "finish_bag_import_attempt_with_sheet_rows env input iid new_rows row_ids s = (b, t) \<Longrightarrow>
    store_step (s, held) (t, held)"
| Cancel: "cancel_import_job env jid s = (r, t) \<Longrightarrow> store_step (s, held) (t, held)"
| Retry: "retry_import_job_failed env jid max_attempts s = (targets, t) \<Longrightarrow>
    store_step (s, held) (t, held)"
| Create: "create_import_job_with_items env job cs s = (summary, t) \<Longrightarrow> store_step (s, held) (t, held)"
| Delete_Sheet: "store_step (s, held) (delete_sheet sid s, held)"
| Rows: "run_row_command env c s = (r, t) \<Longrightarrow> store_step (s, held) (t, held)"
| Others: "other_write s t \<Longrightarrow> store_step (s, held) (t, held)"
| Restart: "recover_interrupted_import_jobs env s = (summary2, t) \<Longrightarrow> store_step (s, held) (t, {})"

inductive_cases store_stepE: "store_step st st'"

text \<open>A workspace starts with sheets only.\<close>

definition fresh_store :: "store \<Rightarrow> bool" where
  "fresh_store s \<longleftrightarrow> rows s = [] \<and> jobs s = [] \<and> items s = [] \<and> attempts s = []"

inductive reachable :: "store \<times> string set \<Rightarrow> bool" where
  Fresh: "fresh_store s \<Longrightarrow> reachable (s, {})"
| Step: "reachable st \<Longrightarrow> store_step st st' \<Longrightarrow> reachable st'"

lemma store_inv_fresh: "fresh_store s \<Longrightarrow> store_inv {} s"
  by (simp add: fresh_store_def store_inv_def import_inv_def jobs_ok_def counts_ok_def
      attempts_ok_def rows_ok_def positions_unique_def)

lemma store_inv_step:
  assumes "store_step st st'" "store_inv (snd st) (fst st)"
  shows "store_inv (snd st') (fst st')"
  using assms
proof (induction rule: store_step.induct)
  case (Claim env jid s r t held)
  then show ?case
    using import_inv_claim [of held s env jid r t] rows_ok_claim [of env jid s r t] import_inv_parts(1)
    by (auto simp: store_inv_def)
next
  case (Start input held env s r t)
  then show ?case
    using import_inv_start [of held s input env r t] rows_ok_start [of env input s r t]
    by (auto simp: store_inv_def)
next
  case (Finish env input s r t held)
  then show ?case
    using import_inv_finish [of held s env input] rows_ok_finish [of s env input]
    by (simp add: store_inv_def)
next
  case (Finish_Manifest env input cs s b t held)
  then show ?case
    using import_inv_finish_manifest [of held s env input cs] rows_ok_finish_manifest [of s env input cs]
    by (simp add: store_inv_def)
next
  case (Finish_Bag env input iid new_rows row_ids s b t held)
  then show ?case
    using import_inv_finish_bag [of held s env input iid new_rows row_ids]
      rows_ok_finish_bag [of s env input iid new_rows row_ids]
    by (simp add: store_inv_def)
next
  case (Cancel env jid s r t held)
  then show ?case
    using import_inv_cancel [of held s env jid] rows_ok_cancel [of s env jid]
    by (simp add: store_inv_def)
next
  case (Retry env jid n s targets t held)
  then show ?case
    using import_inv_retry [of held s env jid n] rows_ok_retry [of s env jid n] import_inv_parts(1)
    by (auto simp: store_inv_def)
next
  case (Create env job cs s summary t held)
  then show ?case
    using import_inv_create_with_items [of held s env job cs] rows_ok_create_with_items [of s env job cs]
    by (simp add: store_inv_def)
next
  case (Delete_Sheet s held sid)
  then show ?case
    using import_inv_delete_sheet rows_ok_delete_sheet by (simp add: store_inv_def)
next
  case (Rows env c s r t held)
  then show ?case using row_frame_command [of s env c] store_inv_row_frame by simp
next
  case (Others s t held)
  then show ?case
    using import_inv_cong [of t s held] by (simp add: store_inv_def other_write_def)
next
  case (Restart env s summary t held)
  then have inv: "import_inv held s" "rows_ok s" by (simp_all add: store_inv_def)
  from recover_total [OF inv(1), of env] Restart(1) have "import_inv {} t" "rows t = rows s" "sheets t = sheets s"
    by auto
  then show ?case using rows_ok_same [of t s] inv(2) by (simp add: store_inv_def)
qed

lemma store_inv_reachable: "reachable st \<Longrightarrow> store_inv (snd st) (fst st)"
  by (induction rule: reachable.induct) (simp_all add: store_inv_fresh store_inv_step)

end
