(* ===== verification/StoreProperties.thy ===== *)
theory StoreProperties
  imports StoreMachine
begin

text \<open>
  What the workspace store guarantees: the agreement of counters and items in
  every reachable state, exclusive claiming, the finality of a finish and of a
  cancellation, recovery and retry.
\<close>

subsection \<open>A small workspace for the witnesses\<close>

definition demo_start :: store where
  "demo_start = \<lparr>sheets = [sample_sheet ''s''], rows = [], jobs = [], items = [], attempts = [], cache = []\<rparr>"

definition demo_job :: create_import_job_input where
  "demo_job = \<lparr>cj_job_id = ''j'', cj_sheet_id = ''s'', cj_kind = Kind_Bag, cj_mode = Mode_Append,
     cj_total_count = 2\<rparr>"

definition demo_item :: "string \<Rightarrow> nat \<Rightarrow> create_import_job_item_input" where
  "demo_item iid p = \<lparr>ci_item_id = iid, ci_job_id = ''j'', ci_source_item_id = iid,
     ci_source_item_kind = Src_Bag, ci_position = p\<rparr>"

definition demo_store :: store where
  "demo_store = snd (create_import_job_with_items sample_env demo_job
     [demo_item ''b'' 0, demo_item ''a'' 1] demo_start)"

lemma reachable_demo_store: "reachable (demo_store, {})"
proof -
  have "fresh_store demo_start" by (simp add: fresh_store_def demo_start_def)
  then have "reachable (demo_start, {})" by (rule Fresh)
  moreover have "store_step (demo_start, {}) (demo_store, {})"
    unfolding demo_store_def by (rule Create, rule prod.collapse [symmetric])
  ultimately show ?thesis by (rule Step)
qed

lemmas store_eval =
  in_transaction_def Let_def sheet_exists_def job_of_def item_of_def attempt_of_def items_of_def
  recompute_import_job_counts_on_def recounted_job_def status_from_items_def derived_job_status_def
  count_import_items_by_status_on_def claimable_def first_by_def
  get_import_job_summary_def get_import_job_item_def get_import_attempt_def
  create_import_job_with_items_def upsert_import_job_def insert_import_job_item_def
  delete_items_of_job_def new_item_def same_source_def as_u32_def
  sample_sheet_def sample_env_def demo_start_def demo_job_def demo_item_def

definition demo_items :: "import_item list" where
  "demo_items = map (\<lambda>(iid, p). new_item sample_env (demo_item iid p)) [(''b'', 0), (''a'', 1)]"

lemma demo_store_eq:
  "demo_store = \<lparr>sheets = [sample_sheet ''s''], rows = [],
     jobs = [\<lparr>j_id = ''j'', j_sheet_id = ''s'', j_kind = Kind_Bag, j_mode = Mode_Append,
       j_status = Job_Running, j_total_count = 2, j_success_count = 0, j_failed_count = 0,
       j_pending_count = 2, j_created_at = ''t1'', j_updated_at = ''t1'',
       j_completed_at = None, j_cancelled_at = None\<rparr>],
     items = demo_items, attempts = [], cache = []\<rparr>"
  by (simp add: demo_store_def demo_items_def store_eval)

definition demo_claimed :: store where
  "demo_claimed = snd (claim_next_pending_import_job_item sample_env ''j'' demo_store)"

definition demo_start_input :: start_import_attempt_input where
  "demo_start_input = \<lparr>sa_attempt_id = ''b:1'', sa_item_id = ''b'', sa_raw_blob_id = None\<rparr>"

definition demo_started :: store where
  "demo_started = snd (start_import_attempt sample_env demo_start_input demo_claimed)"

definition demo_finish :: finish_import_attempt_input where
  "demo_finish = \<lparr>fa_attempt_id = ''b:1'', fa_status = Attempt_Failed, fa_tracking_ids = [],
     fa_error_message = Some ''boom'', fa_raw_blob_id = None\<rparr>"

lemma demo_claimed_run:
  "claim_next_pending_import_job_item sample_env ''j'' demo_store =
     (Inr (Some (map_import_job_item (claimed_item sample_env (hd demo_items)))), demo_claimed)"
  by (simp add: demo_claimed_def demo_store_eq demo_items_def store_eval
      claim_next_pending_import_job_item_def claimed_item_def)

lemma demo_claimed_eq:
  "demo_claimed = demo_store\<lparr>items := claimed_item sample_env (hd demo_items) # tl demo_items\<rparr>"
  by (simp add: demo_claimed_def demo_store_eq demo_items_def store_eval
      claim_next_pending_import_job_item_def claimed_item_def)

lemma demo_started_run:
  "start_import_attempt sample_env demo_start_input demo_claimed =
     (Inr (map_import_attempt (new_attempt sample_env demo_start_input demo_claimed)), demo_started)"
  by (simp add: demo_started_def demo_claimed_eq demo_store_eq demo_items_def store_eval
      start_import_attempt_def demo_start_input_def insert_import_attempt_def new_attempt_def
      next_attempt_number_def claimed_item_def map_import_attempt_def)

lemma demo_started_eq:
  "demo_started = demo_store\<lparr>
     items := started_item sample_env (claimed_item sample_env (hd demo_items)) # tl demo_items,
     attempts := [new_attempt sample_env demo_start_input demo_claimed]\<rparr>"
  by (simp add: demo_started_def demo_claimed_eq demo_store_eq demo_items_def store_eval
      start_import_attempt_def demo_start_input_def insert_import_attempt_def new_attempt_def
      next_attempt_number_def claimed_item_def started_item_def)

lemma reachable_demo_claimed: "reachable (demo_claimed, {''b''})"
  using Step [OF reachable_demo_store Claim [OF demo_claimed_run]]
  by (simp add: map_import_job_item_def demo_items_def demo_item_def)

lemma reachable_demo_started: "reachable (demo_started, {})"
  using Step [OF reachable_demo_claimed Start [OF _ demo_started_run]]
  by (simp add: demo_start_input_def)

subsection \<open>Reachable states\<close>

lemma reachable_inv:
  assumes "reachable (s, held)"
  shows "rows_ok s" "jobs_ok s" "counts_ok s" "attempts_ok held s" "import_inv held s"
  using store_inv_reachable [OF assms] by (auto simp: store_inv_def import_inv_def)

text \<open>
  \<open>C1.\<close> In every reachable state, whatever the workers and commands did and
  in whichever order, the four counters of a job are the numbers of its items in
  the corresponding states, and a job that is not cancelled is completed exactly
  when all its items succeeded, failed exactly when nothing is open and something
  failed, and running exactly when an item is pending or running.
\<close>

theorem reachable_counters:
  assumes "reachable (s, held)" and "j \<in> set (jobs s)"
  shows "j_total_count j = length (items_of s (j_id j))
    \<and> j_success_count j = count_where (\<lambda>i. i_status i = Item_Succeeded) (items_of s (j_id j))
    \<and> j_failed_count j = count_where (\<lambda>i. i_status i = Item_Failed) (items_of s (j_id j))
    \<and> j_pending_count j = count_where (\<lambda>i. i_status i \<in> {Item_Pending, Item_Running}) (items_of s (j_id j))
    \<and> (j_status j = Job_Cancelled
       \<or> (j_status j = Job_Completed \<longleftrightarrow> (\<forall>i \<in> set (items_of s (j_id j)). i_status i = Item_Succeeded))
         \<and> (j_status j = Job_Running \<longleftrightarrow>
              (\<exists>i \<in> set (items_of s (j_id j)). i_status i \<in> {Item_Pending, Item_Running}))
         \<and> (j_status j = Job_Failed \<longleftrightarrow>
              (\<exists>i \<in> set (items_of s (j_id j)). i_status i = Item_Failed)
              \<and> (\<forall>i \<in> set (items_of s (j_id j)). i_status i \<notin> {Item_Pending, Item_Running})))"
proof -
  let ?is = "items_of s (j_id j)"
  let ?n = "\<lambda>st. count_where (\<lambda>i. i_status i = st) ?is"
  have ok: "job_counts_ok s j" using reachable_inv(3) [OF assms(1)] assms(2) by (simp add: counts_ok_def)
  have split: "count_where (\<lambda>i. i_status i \<in> {Item_Pending, Item_Running}) is
      = count_where (\<lambda>i. i_status i = Item_Pending) is + count_where (\<lambda>i. i_status i = Item_Running) is"
    for "is" by (induction "is") auto
  have all: "length is = count_where (\<lambda>i. i_status i = Item_Succeeded) is \<longleftrightarrow>
      (\<forall>i \<in> set is. i_status i = Item_Succeeded)" for "is" :: "import_item list"
    using count_where_eq_length [of "\<lambda>i. i_status i = Item_Succeeded" "is"] by (simp add: eq_commute)
  have st: "j_status j = derived_job_status (j_status j) (?n Item_Succeeded) (?n Item_Failed)
      (?n Item_Pending + ?n Item_Running) (length ?is)"
    using ok by (simp add: job_counts_ok_def status_from_items_def count_items_of)
  let ?open = "\<exists>i \<in> set ?is. i_status i \<in> {Item_Pending, Item_Running}"
  let ?failed = "\<exists>i \<in> set ?is. i_status i = Item_Failed"
  let ?done = "\<forall>i \<in> set ?is. i_status i = Item_Succeeded"
  have open_iff: "0 < ?n Item_Pending + ?n Item_Running \<longleftrightarrow> ?open"
    unfolding split [symmetric] by (rule count_where_pos_iff)
  have failed_iff: "0 < ?n Item_Failed \<longleftrightarrow> ?failed" by (rule count_where_pos_iff)
  have closed: "?done \<Longrightarrow> \<not> ?open \<and> \<not> ?failed" by auto
  have "j_status j = Job_Cancelled
    \<or> (j_status j = (if ?open then Job_Running else if ?failed then Job_Failed
         else if ?done then Job_Completed else Job_Pending))"
    using st unfolding derived_job_status_def open_iff failed_iff all by (auto split: if_splits)
  then have "j_status j = Job_Cancelled
       \<or> (j_status j = Job_Completed \<longleftrightarrow> ?done) \<and> (j_status j = Job_Running \<longleftrightarrow> ?open)
         \<and> (j_status j = Job_Failed \<longleftrightarrow> ?failed \<and> \<not> ?open)"
    using closed by (cases ?open; cases ?failed; cases ?done) (simp_all only: if_True if_False, auto)
  with ok split [of ?is] show ?thesis by (simp add: job_counts_ok_def count_items_of)
qed

theorem reachable_counters_witness:
  "j_pending_count (hd (jobs demo_store)) = 2 \<and> j_status (hd (jobs demo_store)) = Job_Running
   \<and> count_where (\<lambda>i. i_status i \<in> {Item_Pending, Item_Running}) (items_of demo_store ''j'') = 2"
proof -
  have j: "hd (jobs demo_store) \<in> set (jobs demo_store)" by (simp add: demo_store_eq)
  from reachable_counters [OF reachable_demo_store j] show ?thesis by (simp add: demo_store_eq)
qed

text \<open>
  \<open>C24.\<close> In every reachable state an item has at most one running attempt, that
  attempt's item is running and no worker that claimed it is still about to start
  it, an attempt carries a finishing time exactly when it no longer runs, and
  every item and attempt refers to an existing job and item.
\<close>

theorem reachable_attempts:
  assumes "reachable (s, held)" and "a \<in> set (attempts s)"
  shows "(\<exists>!i. i \<in> set (items s) \<and> i_id i = a_item_id a)
    \<and> (a_finished_at a = None \<longleftrightarrow> a_status a = Attempt_Running)
    \<and> (a_status a = Attempt_Running \<longrightarrow> a_item_id a \<notin> held
         \<and> (\<forall>i \<in> set (items s). i_id i = a_item_id a \<longrightarrow> i_status i = Item_Running)
         \<and> (\<forall>b \<in> set (attempts s). a_status b = Attempt_Running \<and> a_item_id b = a_item_id a \<longrightarrow> b = a))"
proof (intro conjI impI)
  note inv = reachable_inv [OF assms(1)]
  obtain i where i: "i \<in> set (items s)" "i_id i = a_item_id a"
    using jobs_ok_item [OF inv(2) assms(2)] by (auto dest: item_of_SomeD)
  show "\<exists>!i. i \<in> set (items s) \<and> i_id i = a_item_id a"
  proof (rule ex1I [of _ i])
    fix k assume k: "k \<in> set (items s) \<and> i_id k = a_item_id a"
    then show "k = i" using item_unique [OF inv(2) _ i(1), of k] i(2) by simp
  qed (use i in simp)
  show "a_finished_at a = None \<longleftrightarrow> a_status a = Attempt_Running"
    by (rule attempts_ok_finished [OF inv(4) assms(2)])
  assume run: "a_status a = Attempt_Running"
  show "a_item_id a \<notin> held" by (rule attempts_okD(1) [OF inv(4) assms(2) run])
  show "\<forall>i \<in> set (items s). i_id i = a_item_id a \<longrightarrow> i_status i = Item_Running"
    using running_attempt_item(1) [OF inv(5) assms(2) run] by simp
  show "\<forall>b \<in> set (attempts s). a_status b = Attempt_Running \<and> a_item_id b = a_item_id a \<longrightarrow> b = a"
  proof (intro ballI impI)
    fix b assume b: "b \<in> set (attempts s)" "a_status b = Attempt_Running \<and> a_item_id b = a_item_id a"
    then have "a_id b = a_id a" using attempts_ok_single [OF inv(4) b(1) assms(2)] run by simp
    then show "b = a" by (rule attempt_unique [OF inv(2) b(1) assms(2)])
  qed
qed

theorem reachable_attempts_witness:
  "\<exists>a. attempts demo_started = [a] \<and> a_finished_at a = None \<and> a_item_id a = ''b''
     \<and> (\<forall>i \<in> set (items demo_started). i_id i = ''b'' \<longrightarrow> i_status i = Item_Running)"
proof -
  let ?a = "new_attempt sample_env demo_start_input demo_claimed"
  have a: "attempts demo_started = [?a]" by (simp add: demo_started_eq)
  then have "?a \<in> set (attempts demo_started)" by simp
  from reachable_attempts [OF reachable_demo_started this] a show ?thesis
    by (simp add: demo_start_input_def)
qed

subsection \<open>Claiming\<close>

text \<open>
  A claim takes the first pending item of a job in (position, id) order
  unless the job is cancelled: it turns that item, and only that item, running
  and clears its error; attempts and other jobs' items stay.  It returns nothing,
  and changes nothing, exactly when the job has no pending item or is cancelled.
\<close>

theorem claim_takes_first:
  assumes "reachable (s, held)" and "claim_next_pending_import_job_item env jid s = (r, t)"
    and "job_of s jid = Some j"
  shows "(r = Inr None \<and> t = s \<and> (j_status j = Job_Cancelled \<or> (\<forall>i \<in> set (items_of s jid). i_status i \<noteq> Item_Pending)))
    \<or> (\<exists>it \<in> set (items_of s jid). i_status it = Item_Pending \<and> j_status j \<noteq> Job_Cancelled
        \<and> (\<forall>i \<in> set (items_of s jid). i_status i = Item_Pending \<longrightarrow> (i_position it, i_id it) \<le> (i_position i, i_id i))
        \<and> items t = map (\<lambda>i. if i_id i = i_id it then i\<lparr>i_status := Item_Running, i_error_message := None,
             i_updated_at := now env\<rparr> else i) (items s)
        \<and> attempts t = attempts s \<and> rows t = rows s
        \<and> (\<exists>taken. r = Inr (Some taken) \<and> ji_item_id taken = i_id it \<and> ji_status taken = Item_Running))"
proof -
  note inv = reachable_inv [OF assms(1)]
  have claimable: "claimable s i \<longleftrightarrow> i_status i = Item_Pending \<and> j_status j \<noteq> Job_Cancelled"
    if "i_job_id i = jid" for i
  proof -
    have j: "j \<in> set (jobs s)" "j_id j = i_job_id i" using that job_of_SomeD [OF assms(3)] by auto
    have "(\<exists>k \<in> set (jobs s). j_id k = i_job_id i \<and> j_status k \<noteq> Job_Cancelled) \<longleftrightarrow> j_status j \<noteq> Job_Cancelled"
      using job_unique [OF inv(2) _ j(1)] j by metis
    then show ?thesis by (simp add: claimable_def)
  qed
  from inv(2) assms(2) show ?thesis
  proof (cases rule: claim_cases)
    case empty
    then show ?thesis using claimable by (auto simp: items_of_def)
  next
    case (claimed it)
    have "it \<in> set (items_of s jid)" using claimed by (simp add: items_of_def)
    moreover have "i_status it = Item_Pending" "j_status j \<noteq> Job_Cancelled"
      using claimed(2,3) claimable by auto
    moreover have "\<forall>i \<in> set (items_of s jid). i_status i = Item_Pending \<longrightarrow>
        (i_position it, i_id it) \<le> (i_position i, i_id i)"
      using claimed(4) claimable calculation(3) by (simp add: items_of_def)
    moreover note recompute_frame [OF claimed(5)]
    ultimately show ?thesis
      using claimed(6)
      by (intro disjI2 bexI [of _ it])
        (simp_all add: update_where_def claimed_item_def [abs_def] map_import_job_item_def)
  qed
qed

theorem claim_takes_first_witness:
  "items demo_claimed = map (\<lambda>i. if i_id i = ''b'' then i\<lparr>i_status := Item_Running, i_error_message := None,
       i_updated_at := ''t1''\<rparr> else i) demo_items"
proof -
  have "job_of demo_store ''j'' = Some (hd (jobs demo_store))"
    by (simp add: job_of_def demo_store_eq)
  from claim_takes_first [OF reachable_demo_store demo_claimed_run this]
  show ?thesis
    by (auto simp: demo_store_eq map_import_job_item_def demo_items_def demo_item_def items_of_def
        sample_env_def)
qed

text \<open>
  Two claims never hand out the same item, whichever workers make them and
  for whichever jobs: the item a claim returned is not returned by the next one.
\<close>

theorem claim_exclusive:
  assumes "reachable (s, held)"
    and "claim_next_pending_import_job_item env jid s = (Inr (Some i), t)"
    and "claim_next_pending_import_job_item env' jid' t = (Inr (Some k), u)"
  shows "ji_item_id k \<noteq> ji_item_id i \<and> ji_status k = Item_Running
    \<and> (\<exists>x \<in> set (items u). i_id x = ji_item_id i \<and> i_status x = Item_Running)"
proof -
  have t: "reachable (t, insert (ji_item_id i) held)"
    using Step [OF assms(1) Claim [OF assms(2)]] by simp
  have first: "\<exists>x \<in> set (items t). i_id x = ji_item_id i \<and> i_status x = Item_Running"
    using reachable_inv(2) [OF assms(1)] assms(2)
  proof (cases rule: claim_cases)
    case (claimed it)
    have "claimed_item env it \<in> set (items t)"
      using claimed(1) by (auto simp: recompute_frame(1) [OF claimed(5)] in_update_where)
    moreover have "ji_item_id i = i_id it" using claimed(6) by (simp add: map_import_job_item_def)
    ultimately show ?thesis by (intro bexI [of _ "claimed_item env it"]) simp_all
  qed simp
  from reachable_inv(2) [OF t] assms(3) show ?thesis
  proof (cases rule: claim_cases)
    case (claimed it)
    have k: "ji_item_id k = i_id it" "ji_status k = Item_Running"
      using claimed(6) by (simp_all add: map_import_job_item_def)
    obtain x where x: "x \<in> set (items t)" "i_id x = ji_item_id i" "i_status x = Item_Running"
      using first by auto
    have ne: "i_id x \<noteq> i_id it"
      using item_unique [OF reachable_inv(2) [OF t] x(1) claimed(1)] x(3) claimed(3)
      by (auto simp: claimable_def)
    then have "x \<in> set (items u)"
      using x(1) by (simp add: recompute_frame(1) [OF claimed(5)] in_update_where)
    with x k ne show ?thesis by auto
  qed simp
qed

theorem claim_exclusive_witness:
  "\<exists>k u. claim_next_pending_import_job_item sample_env ''j'' demo_claimed = (Inr (Some k), u)
     \<and> ji_item_id k \<noteq> ''b''"
proof -
  obtain k u where ku: "claim_next_pending_import_job_item sample_env ''j'' demo_claimed = (Inr (Some k), u)"
    by (simp add: demo_claimed_eq demo_store_eq demo_items_def store_eval claimed_item_def
        claim_next_pending_import_job_item_def)
  from claim_exclusive [OF reachable_demo_store demo_claimed_run ku] ku show ?thesis
    by (auto simp: map_import_job_item_def demo_items_def demo_item_def)
qed

subsection \<open>Cancelling\<close>

lemma late_context:
  assumes "attempt_of s aid = Some a" "item_of s (a_item_id a) = Some i" "job_of s (i_job_id i) = Some j"
    and "a_status a \<noteq> Attempt_Running \<or> i_status i \<noteq> Item_Running \<or> j_status j = Job_Cancelled"
  shows "running_import_attempt_context aid s = Inr None"
  using assms by (simp add: running_import_attempt_context_def)

text \<open>A finish that comes too late: the answer of the three finishing operations.\<close>

lemma late_finish:
  assumes "running_import_attempt_context (fa_attempt_id input) s = Inr None"
  shows "finish_import_attempt env input s = (Inr (), s)"
    "finish_manifest_import_attempt_with_items env input cs s = (Inr False, s)"
    "finish_bag_import_attempt_with_sheet_rows env input iid new_rows row_ids s = (Inr False, s)"
  using assms
  by (simp_all add: finish_import_attempt_def finish_manifest_import_attempt_with_items_def
      finish_bag_import_attempt_with_sheet_rows_def finish_running_import_attempt_on_def in_transaction_def)

text \<open>
  \<open>C17.\<close> Cancelling a job is final.  It leaves no item of the job pending or
  running and no attempt of it running, keeps the counts of what succeeded and
  failed, and touches no other job; afterwards nothing of the job can be claimed
  or started, and finishing one of its attempts, in any of the three ways,
  reports nothing done and leaves the store as it is.
\<close>

theorem cancel_is_final:
  assumes "reachable (s, held)" and "job_of s jid = Some j"
    and "cancel_import_job env jid s = (r, t)"
  shows "r = Inr ()
    \<and> (\<exists>j'. job_of t jid = Some j' \<and> j_status j' = Job_Cancelled \<and> j_pending_count j' = 0
         \<and> j_success_count j' = j_success_count j \<and> j_failed_count j' = j_failed_count j)
    \<and> (\<forall>i \<in> set (items_of t jid). i_status i \<in> {Item_Succeeded, Item_Failed, Item_Cancelled})
    \<and> (\<forall>k. k \<noteq> jid \<longrightarrow> items_of t k = items_of s k \<and> job_of t k = job_of s k)
    \<and> claim_next_pending_import_job_item env' jid t = (Inr None, t)
    \<and> (\<forall>i \<in> set (items_of t jid). \<forall>input. sa_item_id input = i_id i \<longrightarrow>
         start_import_attempt env' input t = (Inl (Invalid_Value ''import_attempt_state'' (i_id i)), t))
    \<and> (\<forall>i \<in> set (items_of t jid). \<forall>a \<in> set (attempts t). a_item_id a = i_id i \<longrightarrow>
         a_status a \<noteq> Attempt_Running
         \<and> (\<forall>input cs iid new_rows row_ids. fa_attempt_id input = a_id a \<longrightarrow>
              finish_import_attempt env' input t = (Inr (), t)
              \<and> finish_manifest_import_attempt_with_items env' input cs t = (Inr False, t)
              \<and> finish_bag_import_attempt_with_sheet_rows env' input iid new_rows row_ids t = (Inr False, t)))"
proof -
  note inv = reachable_inv [OF assms(1)]
  let ?s1 = "closing_store env jid s"
  have r: "r = Inr ()"
    and t: "t = ?s1\<lparr>jobs := update_where (\<lambda>j. j_id j = jid) (cancelled_job env ?s1) (jobs s)\<rparr>"
    using assms(2,3) by (simp_all add: cancel_eq)
  have "reachable (t, held)" using Step [OF assms(1) Cancel [OF assms(3)]] .
  note inv' = reachable_inv [OF this]
  have items: "items_of t k = items_of ?s1 k" for k by (simp add: t items_of_def)
  have jc: "job_counts_ok s j" using inv(3) job_of_SomeD [OF assms(2)] by (simp add: counts_ok_def)
  have j': "job_of t jid = Some (cancelled_job env ?s1 j)"
    using assms(2) job_of_SomeD [OF assms(2)]
    by (simp add: t job_of_def find_by_update_where cancelled_job_def)
  have closed: "\<forall>i \<in> set (items_of t jid). i_status i \<in> {Item_Succeeded, Item_Failed, Item_Cancelled}"
    unfolding items closing_store_items_of by (auto simp: in_update_where) (metis import_job_item_status.exhaust)
  have job_other: "job_of t k = job_of s k" if "k \<noteq> jid" for k
  proof -
    have "find_by j_id k (update_where (\<lambda>j. j_id j = jid) f js) = find_by j_id k js"
      if "\<And>j. j_id (f j) = j_id j" for f js
      using \<open>k \<noteq> jid\<close> that by (induction js) auto
    from this [of "cancelled_job env ?s1"] show ?thesis by (simp add: t job_of_def cancelled_job_def)
  qed
  have no_claim: "claim_next_pending_import_job_item env' jid t = (Inr None, t)"
  proof -
    obtain r' u where run: "claim_next_pending_import_job_item env' jid t = (r', u)" by fastforce
    with inv'(2) show ?thesis
    proof (cases rule: claim_cases)
      case (claimed it)
      then have "it \<in> set (items_of t jid)" "i_status it = Item_Pending"
        by (simp_all add: items_of_def claimable_def)
      with closed show ?thesis by auto
    qed (use run in simp)
  qed
  have in_job: "item_of t (i_id i) = Some i \<and> job_of t (i_job_id i) = Some (cancelled_job env ?s1 j)"
    if "i \<in> set (items_of t jid)" for i
    using that item_of_eq [OF inv'(2), of i] j' by (auto simp: items_of_def)
  have late: "running_import_attempt_context (a_id a) t = Inr None"
    if "i \<in> set (items_of t jid)" "a \<in> set (attempts t)" "a_item_id a = i_id i" for i a
    by (rule late_context [where a = a and i = i and j = "cancelled_job env ?s1 j"])
      (use that in_job [OF that(1)] inv'(2) find_by_eq [of a_id "attempts t" a] in
        \<open>auto simp: attempt_of_def jobs_ok_def cancelled_job_def\<close>)
  have no_run: "a_status a \<noteq> Attempt_Running"
    if "i \<in> set (items_of t jid)" "a \<in> set (attempts t)" "a_item_id a = i_id i" for i a
    using running_attempt_item(1) [OF inv'(5) that(2) _ _ that(3)] that(1) closed
    by (auto simp: items_of_def)
  show ?thesis
  proof (intro conjI)
    show "\<exists>j'. job_of t jid = Some j' \<and> j_status j' = Job_Cancelled \<and> j_pending_count j' = 0
         \<and> j_success_count j' = j_success_count j \<and> j_failed_count j' = j_failed_count j"
      using j' jc job_of_SomeD [OF assms(2)]
      by (simp add: cancelled_job_def closing_store_counts job_counts_ok_def)
    show "\<forall>k. k \<noteq> jid \<longrightarrow> items_of t k = items_of s k \<and> job_of t k = job_of s k"
      using job_other by (simp add: items closing_store_items_of)
    show "\<forall>i \<in> set (items_of t jid). \<forall>input. sa_item_id input = i_id i \<longrightarrow>
         start_import_attempt env' input t = (Inl (Invalid_Value ''import_attempt_state'' (i_id i)), t)"
      using in_job by (simp add: start_import_attempt_def in_transaction_def cancelled_job_def)
  qed (use r closed no_claim no_run late late_finish in \<open>simp_all\<close>)
qed

definition demo_cancelled :: store where
  "demo_cancelled = snd (cancel_import_job sample_env ''j'' demo_started)"

theorem cancel_is_final_witness:
  "finish_import_attempt sample_env demo_finish demo_cancelled = (Inr (), demo_cancelled)
   \<and> claim_next_pending_import_job_item sample_env ''j'' demo_cancelled = (Inr None, demo_cancelled)
   \<and> map i_status (items demo_cancelled) = [Item_Cancelled, Item_Cancelled]"
proof -
  have j: "job_of demo_started ''j'' = Some (hd (jobs demo_store))"
    by (simp add: job_of_def demo_started_eq demo_store_eq)
  have run: "cancel_import_job sample_env ''j'' demo_started = (Inr (), demo_cancelled)"
    by (simp add: demo_cancelled_def cancel_eq j)
  have vals: "map i_id (items_of demo_cancelled ''j'') = [''b'', ''a'']"
    "map i_status (items demo_cancelled) = [Item_Cancelled, Item_Cancelled]"
    "map a_id (attempts demo_cancelled) = [''b:1'']" "map a_item_id (attempts demo_cancelled) = [''b'']"
    by (simp_all add: demo_cancelled_def cancel_eq job_of_def closing_store_def items_of_def demo_started_eq
        demo_store_eq demo_items_def demo_item_def demo_start_input_def)
  from vals(1) obtain i where i: "i \<in> set (items_of demo_cancelled ''j'')" "i_id i = ''b''"
  proof -
    have "''b'' \<in> set (map i_id (items_of demo_cancelled ''j''))" by (simp only: vals(1)) simp
    then show ?thesis using that by (auto simp only: set_map)
  qed
  from vals(3,4) obtain a where
    a: "a \<in> set (attempts demo_cancelled)" "a_id a = ''b:1''" "a_item_id a = ''b''"
    by (auto simp: map_eq_Cons_conv)
  from cancel_is_final [OF reachable_demo_started j run, of sample_env] i a vals(2)
  show ?thesis by (auto simp: demo_finish_def)
qed

subsection \<open>Finishing\<close>

text \<open>
  Finishing a running attempt with a final status takes effect once: the
  attempt and its item get the reported outcome, every other item and attempt
  stays, and a second finish of the same attempt, whatever it reports and in any
  of the three ways, changes nothing.
\<close>

theorem finish_takes_effect_once:
  assumes "reachable (s, held)" and "running_context s (fa_attempt_id input) a i j"
    and "fa_status input \<noteq> Attempt_Running"
  shows "\<exists>t. finish_import_attempt env input s = (Inr (), t)
    \<and> item_of t (i_id i) = Some (i\<lparr>i_status := item_status_for_attempt_status (fa_status input),
         i_tracking_ids := fa_tracking_ids input, i_error_message := fa_error_message input,
         i_updated_at := now env\<rparr>)
    \<and> (\<exists>a'. attempt_of t (a_id a) = Some a' \<and> a_status a' = fa_status input
         \<and> a_finished_at a' = Some (now env) \<and> a_error_message a' = fa_error_message input)
    \<and> (\<forall>k. k \<noteq> i_id i \<longrightarrow> item_of t k = item_of s k)
    \<and> (\<forall>k. k \<noteq> a_id a \<longrightarrow> attempt_of t k = attempt_of s k)
    \<and> (\<forall>input' cs iid new_rows row_ids. fa_attempt_id input' = fa_attempt_id input \<longrightarrow>
         finish_import_attempt env' input' t = (Inr (), t)
         \<and> finish_manifest_import_attempt_with_items env' input' cs t = (Inr False, t)
         \<and> finish_bag_import_attempt_with_sheet_rows env' input' iid new_rows row_ids t = (Inr False, t))"
proof -
  note inv = reachable_inv [OF assms(1)]
  note ctx = running_context_facts [OF assms(2)]
  obtain r where r: "finish_running_import_attempt_on env input s = r" by blast
  then obtain t where t: "recompute_import_job_counts_on env (i_job_id i)
      (finish_store env input (i_id i) s) = Inr t" and r': "r = Inr (True, t)"
  proof (cases rule: finish_running_cases)
    case (finished a' i' j' u)
    then show ?thesis using that running_context_unique [OF assms(2) finished(1)] by simp
  qed (use running_context_Inr [OF assms(2)] in simp_all)
  note fr = recompute_frame [OF t]
  have items: "item_of t k = (if k = i_id i then Some (finished_item env input i) else item_of s k)" for k
  proof -
    have "item_of t k = map_option (\<lambda>x. if i_id x = i_id i \<and> i_status x = Item_Running
        then finished_item env input x else x) (item_of s k)"
      by (simp add: item_of_def fr finish_store_def find_by_update_where)
    moreover have "item_of s (i_id i) = Some i" by (rule item_of_eq [OF inv(2) ctx(4)])
    ultimately show ?thesis using ctx(6) by (cases "item_of s k") (auto dest: item_of_SomeD)
  qed
  have atts: "attempt_of t k = (if k = a_id a then Some (finished_attempt env input a) else attempt_of s k)" for k
  proof -
    have "attempt_of t k = map_option (\<lambda>x. if a_id x = fa_attempt_id input \<and> a_status x = Attempt_Running
        then finished_attempt env input x else x) (attempt_of s k)"
      by (simp add: attempt_of_def fr finish_store_def find_by_update_where)
    moreover have "attempt_of s (a_id a) = Some a" using assms(2) ctx(2) by (simp add: running_context_def)
    ultimately show ?thesis using ctx(2,3) by (cases "attempt_of s k") (auto dest: attempt_of_SomeD)
  qed
  have job: "job_of t (i_job_id i) \<noteq> None"
  proof -
    have "i_job_id i \<in> set (map j_id (jobs s))" using ctx(7,8) by (auto intro: rev_image_eqI)
    then have "i_job_id i \<in> set (map j_id (jobs t))" by (simp only: fr(6) finish_store_def) simp
    then show ?thesis by (auto simp: job_of_def find_by_None_iff)
  qed
  have "running_import_attempt_context (fa_attempt_id input') t = Inr None"
    if "fa_attempt_id input' = fa_attempt_id input" for input'
  proof -
    from job obtain j' where "job_of t (i_job_id i) = Some j'" by auto
    then show ?thesis
      using late_context [of t "a_id a" "finished_attempt env input a" "finished_item env input i" j']
        assms(3) items atts ctx(2,5) that by simp
  qed
  then have late: "finish_import_attempt env' input' t = (Inr (), t)
      \<and> finish_manifest_import_attempt_with_items env' input' cs t = (Inr False, t)
      \<and> finish_bag_import_attempt_with_sheet_rows env' input' iid new_rows row_ids t = (Inr False, t)"
    if "fa_attempt_id input' = fa_attempt_id input" for input' cs iid new_rows row_ids
    using late_finish that by blast
  have "finish_import_attempt env input s = (Inr (), t)"
    using r r' by (simp add: finish_import_attempt_def in_transaction_def)
  with late items atts show ?thesis
    using assms(3) by (intro exI [of _ t]) (simp add: finished_item_def finished_attempt_def)
qed

lemma demo_running_context:
  "running_context demo_started ''b:1'' (new_attempt sample_env demo_start_input demo_claimed)
     (started_item sample_env (claimed_item sample_env (hd demo_items))) (hd (jobs demo_store))"
  by (simp add: running_context_def demo_started_eq demo_store_eq demo_items_def demo_item_def
      attempt_of_def item_of_def job_of_def demo_start_input_def)

theorem finish_takes_effect_once_witness:
  "\<exists>t i. finish_import_attempt sample_env demo_finish demo_started = (Inr (), t)
     \<and> item_of t ''b'' = Some i \<and> i_status i = Item_Failed \<and> i_error_message i = Some ''boom''
     \<and> finish_import_attempt sample_env demo_finish t = (Inr (), t)"
proof -
  have "running_context demo_started (fa_attempt_id demo_finish)
      (new_attempt sample_env demo_start_input demo_claimed)
      (started_item sample_env (claimed_item sample_env (hd demo_items))) (hd (jobs demo_store))"
    using demo_running_context by (simp add: demo_finish_def)
  from finish_takes_effect_once [OF reachable_demo_started this, of sample_env sample_env]
  show ?thesis by (auto simp: demo_finish_def demo_items_def demo_item_def)
qed

subsection \<open>Recovery\<close>

text \<open>
  Recovery after a shutdown never fails.  It turns exactly the running
  items pending and exactly the running attempts interrupted, keeps everything
  else, and reports the affected jobs, items and attempts; a second recovery
  finds nothing to do and changes nothing.
\<close>

theorem recover_resets_running:
  assumes "reachable (s, held)"
  shows "\<exists>summary t. recover_interrupted_import_jobs env s = (Inr summary, t)
    \<and> items t = map (\<lambda>i. if i_status i = Item_Running
         then i\<lparr>i_status := Item_Pending, i_error_message := None, i_next_retry_at := None,
                i_updated_at := now env\<rparr> else i) (items s)
    \<and> (\<forall>a \<in> set (attempts t). a_status a \<noteq> Attempt_Running)
    \<and> map a_id (attempts t) = map a_id (attempts s) \<and> rows t = rows s \<and> sheets t = sheets s
    \<and> set (rs_recovered_job_ids summary) = i_job_id ` {i \<in> set (items s). i_status i = Item_Running}
    \<and> set (rs_recovered_item_ids summary) = i_id ` {i \<in> set (items s). i_status i = Item_Running}
    \<and> set (rs_interrupted_attempt_ids summary) = a_id ` {a \<in> set (attempts s). a_status a = Attempt_Running}
    \<and> recover_interrupted_import_jobs env' t =
        (Inr \<lparr>rs_recovered_job_ids = [], rs_recovered_item_ids = [], rs_interrupted_attempt_ids = []\<rparr>, t)"
proof -
  note inv = reachable_inv [OF assms]
  obtain t where t: "recover_interrupted_import_jobs env s = (Inr (recovery_summary s), t)"
    "items t = items (recovery_store env s)" "attempts t = attempts (recovery_store env s)"
    "rows t = rows s" "sheets t = sheets s"
    using recover_total [OF inv(5)] by blast
  have fin: "a_finished_at a = None \<longleftrightarrow> a_status a = Attempt_Running" if "a \<in> set (attempts s)" for a
    by (rule attempts_ok_finished [OF inv(4) that])
  have no_att: "\<forall>a \<in> set (attempts t). a_status a \<noteq> Attempt_Running"
  proof -
    have "a_finished_at a = None" if "a \<in> set (attempts s)" "a_status a = Attempt_Running" for a
      using fin that by simp
    then show ?thesis by (auto simp: t recovery_store_def in_update_where)
  qed
  have no_item: "\<forall>i \<in> set (items t). i_status i \<noteq> Item_Running"
    by (auto simp: t recovery_store_def in_update_where)
  have "running_in_order t = []" "interrupted_in_order t = []"
    using no_att no_item by (simp_all add: running_in_order_def interrupted_in_order_def filter_empty_conv)
  then have "recovery_summary t =
      \<lparr>rs_recovered_job_ids = [], rs_recovered_item_ids = [], rs_interrupted_attempt_ids = []\<rparr>"
    by (simp add: recovery_summary_def)
  moreover have "recovery_store env' t = t"
    using no_att no_item by (simp add: recovery_store_def update_where_id)
  ultimately have again: "recover_interrupted_import_jobs env' t =
      (Inr \<lparr>rs_recovered_job_ids = [], rs_recovered_item_ids = [], rs_interrupted_attempt_ids = []\<rparr>, t)"
    by (simp add: recover_eq)
  have "set (rs_recovered_job_ids (recovery_summary s)) = i_job_id ` {i \<in> set (items s). i_status i = Item_Running}"
    by (simp add: recovery_summary_def set_fold_push_new running_in_order_def)
  moreover have "set (rs_interrupted_attempt_ids (recovery_summary s)) =
      a_id ` {a \<in> set (attempts s). a_status a = Attempt_Running}"
    using fin by (auto simp: recovery_summary_def interrupted_in_order_def)
  moreover have "set (rs_recovered_item_ids (recovery_summary s)) = i_id ` {i \<in> set (items s). i_status i = Item_Running}"
  proof -
    have "a_item_id a \<in> i_id ` {i \<in> set (items s). i_status i = Item_Running}"
      if "a \<in> set (attempts s)" "a_status a = Attempt_Running" for a
      using attempts_okD(2) [OF inv(4) that] by (auto intro: rev_image_eqI)
    then show ?thesis
      by (auto simp: recovery_summary_def set_fold_push_new running_in_order_def interrupted_in_order_def)
  qed
  moreover have "items t = map (\<lambda>i. if i_status i = Item_Running
         then i\<lparr>i_status := Item_Pending, i_error_message := None, i_next_retry_at := None,
                i_updated_at := now env\<rparr> else i) (items s)"
    by (simp add: t recovery_store_def update_where_def recovered_item_def)
  moreover have "map a_id (attempts t) = map a_id (attempts s)"
    by (simp add: t recovery_store_def)
  ultimately show ?thesis using t no_att again by blast
qed

theorem recover_resets_running_witness:
  "\<exists>summary t. recover_interrupted_import_jobs sample_env demo_started = (Inr summary, t)
     \<and> map i_status (items t) = [Item_Pending, Item_Pending]
     \<and> set (rs_recovered_item_ids summary) = {''b''}"
proof -
  have "{i \<in> set (items demo_started). i_status i = Item_Running}
      = {started_item sample_env (claimed_item sample_env (hd demo_items))}"
    by (auto simp: demo_started_eq demo_items_def)
  with recover_resets_running [OF reachable_demo_started, of sample_env sample_env]
  show ?thesis by (auto simp: demo_started_eq demo_items_def demo_item_def)
qed

subsection \<open>Retry\<close>

text \<open>
  Retrying a job requeues exactly its failed items with fewer than the
  given number of attempts: those become pending with their results cleared, and
  keep their attempt count; nothing else changes.  The answer names their sources
  in position order, bags of manifests apart from the others.  Unless the job was
  cancelled, something requeued can be claimed again.
\<close>

theorem retry_requeues_failed:
  assumes "reachable (s, held)" and "job_of s jid = Some j"
    and "retry_import_job_failed env jid max_attempts s = (r, t)"
  shows "r = Inr \<lparr>rt_source_item_ids = map i_source_item_id (filter (\<lambda>i. i_status i = Item_Failed
            \<and> i_attempt_count i < max_attempts \<and> i_source_item_kind i \<noteq> Src_ManifestBag) (items_in_order jid s)),
          rt_manifest_bag_ids = map i_source_item_id (filter (\<lambda>i. i_status i = Item_Failed
            \<and> i_attempt_count i < max_attempts \<and> i_source_item_kind i = Src_ManifestBag) (items_in_order jid s))\<rparr>
    \<and> items t = map (\<lambda>i. if i_job_id i = jid \<and> i_status i = Item_Failed \<and> i_attempt_count i < max_attempts
         then i\<lparr>i_status := Item_Pending, i_tracking_ids := [], i_sheet_row_ids := [],
                i_error_message := None, i_next_retry_at := None, i_updated_at := now env\<rparr> else i) (items s)
    \<and> attempts t = attempts s \<and> rows t = rows s
    \<and> (j_status j = Job_Cancelled
       \<or> \<not> (\<exists>i \<in> set (items_of s jid). i_status i = Item_Failed \<and> i_attempt_count i < max_attempts)
       \<or> (\<exists>taken u. claim_next_pending_import_job_item env' jid t = (Inr (Some taken), u)))"
proof -
  note inv = reachable_inv [OF assms(1)]
  let ?s1 = "s\<lparr>items := update_where (to_retry jid max_attempts) (requeued_item env) (items s)\<rparr>"
  have r: "r = Inr (retry_targets jid max_attempts s)"
    and t: "recompute_import_job_counts_on env jid ?s1 = Inr t"
    using retry_eq [OF inv(2), of jid env max_attempts] assms(2,3) by auto
  note fr = recompute_frame [OF t]
  have in_job: "filter (\<lambda>i. to_retry jid max_attempts i \<and> P i) (items_in_order jid s)
      = filter (\<lambda>i. i_status i = Item_Failed \<and> i_attempt_count i < max_attempts \<and> P i) (items_in_order jid s)" for P
    by (rule filter_cong) (auto simp: to_retry_def items_in_order_def items_of_def)
  have "r = Inr \<lparr>rt_source_item_ids = map i_source_item_id (filter (\<lambda>i. i_status i = Item_Failed
            \<and> i_attempt_count i < max_attempts \<and> i_source_item_kind i \<noteq> Src_ManifestBag) (items_in_order jid s)),
          rt_manifest_bag_ids = map i_source_item_id (filter (\<lambda>i. i_status i = Item_Failed
            \<and> i_attempt_count i < max_attempts \<and> i_source_item_kind i = Src_ManifestBag) (items_in_order jid s))\<rparr>"
    using in_job [of "\<lambda>i. i_source_item_kind i \<noteq> Src_ManifestBag"] in_job [of "\<lambda>i. i_source_item_kind i = Src_ManifestBag"]
    by (simp add: r retry_targets_def conj_ac)
  moreover have "items t = map (\<lambda>i. if i_job_id i = jid \<and> i_status i = Item_Failed \<and> i_attempt_count i < max_attempts
         then i\<lparr>i_status := Item_Pending, i_tracking_ids := [], i_sheet_row_ids := [],
                i_error_message := None, i_next_retry_at := None, i_updated_at := now env\<rparr> else i) (items s)"
    by (simp add: fr update_where_def requeued_item_def [abs_def] to_retry_def)
  moreover have "attempts t = attempts s" "rows t = rows s" by (simp_all add: fr)
  moreover have "\<exists>taken u. claim_next_pending_import_job_item env' jid t = (Inr (Some taken), u)"
    if live: "j_status j \<noteq> Job_Cancelled" and i: "i \<in> set (items_of s jid)" "i_status i = Item_Failed"
      "i_attempt_count i < max_attempts" for i
  proof -
    have "reachable (t, held)" using Step [OF assms(1) Retry [OF assms(3)]] .
    note inv' = reachable_inv [OF this]
    let ?i = "requeued_item env i"
    have "?i \<in> set (items t)"
      using i by (auto simp: fr in_update_where to_retry_def items_of_def)
    moreover have "\<exists>j' \<in> set (jobs t). j_id j' = jid \<and> j_status j' \<noteq> Job_Cancelled"
    proof -
      have "job_of ?s1 jid = Some j" using assms(2) by (simp add: job_of_def)
      with t have "t = ?s1\<lparr>jobs := update_where (\<lambda>x. j_id x = jid)
          (recounted_job env ?s1 jid (status_from_items ?s1 jid (j_status j))) (jobs s)\<rparr>"
        by (simp add: recompute_import_job_counts_on_def)
      moreover have "status_from_items ?s1 jid (j_status j) \<noteq> Job_Cancelled"
        using live by (simp add: status_from_items_def derived_job_status_def)
      ultimately show ?thesis
        using job_of_SomeD [OF assms(2)]
        by (intro bexI [of _ "recounted_job env ?s1 jid (status_from_items ?s1 jid (j_status j)) j"])
          (auto simp: in_update_where recounted_job_def)
    qed
    ultimately have claimable: "claimable t ?i" "i_job_id ?i = jid" "?i \<in> set (items t)"
      using i(1) by (auto simp: claimable_def items_of_def)
    obtain r' u where run: "claim_next_pending_import_job_item env' jid t = (r', u)" by fastforce
    with inv'(2) show ?thesis
    proof (cases rule: claim_cases)
      case empty
      with claimable show ?thesis by blast
    qed (use run in blast)
  qed
  ultimately show ?thesis by blast
qed

definition demo_failed :: store where
  "demo_failed = snd (finish_import_attempt sample_env demo_finish demo_started)"

lemma reachable_demo_failed: "reachable (demo_failed, {})"
  unfolding demo_failed_def
  by (rule Step [OF reachable_demo_started Finish [OF prod.collapse [symmetric]]])

lemma demo_failed_eq:
  "demo_failed = demo_started\<lparr>
     items := finished_item sample_env demo_finish
       (started_item sample_env (claimed_item sample_env (hd demo_items))) # tl demo_items,
     attempts := [finished_attempt sample_env demo_finish
       (new_attempt sample_env demo_start_input demo_claimed)],
     jobs := [(hd (jobs demo_store))\<lparr>j_failed_count := 1, j_pending_count := 1\<rparr>]\<rparr>"
  using demo_running_context
  by (simp add: demo_failed_def demo_started_eq demo_store_eq demo_items_def store_eval
      finish_import_attempt_def finish_running_import_attempt_on_def running_import_attempt_context_def
      running_context_def demo_finish_def finished_item_def finished_attempt_def demo_start_input_def)

theorem retry_requeues_failed_witness:
  "\<exists>t. retry_import_job_failed sample_env ''j'' 2 demo_failed
       = (Inr \<lparr>rt_source_item_ids = [''b''], rt_manifest_bag_ids = []\<rparr>, t)
     \<and> map i_status (items t) = [Item_Pending, Item_Pending]"
proof -
  have j: "job_of demo_failed ''j'' = Some (hd (jobs demo_failed))"
    by (simp add: job_of_def demo_failed_eq demo_store_eq)
  obtain r t where run: "retry_import_job_failed sample_env ''j'' 2 demo_failed = (r, t)" by fastforce
  have "items_in_order ''j'' demo_failed = items demo_failed"
    by (simp add: items_in_order_def items_of_def demo_failed_eq demo_items_def demo_item_def
        finished_item_def started_item_def claimed_item_def)
  with retry_requeues_failed [OF reachable_demo_failed j run] run show ?thesis
    by (simp add: demo_failed_eq demo_items_def demo_item_def demo_finish_def finished_item_def
        started_item_def claimed_item_def)
qed

text \<open>
  \<open>C25.\<close> Retrying a cancelled job with a failed item leaves it stuck: the item is
  pending again and counted as pending, but the job stays cancelled, so that no
  worker can ever claim the item.
\<close>

theorem retry_of_cancelled_job_stalls:
  assumes "reachable (s, held)" and "job_of s jid = Some j" and "j_status j = Job_Cancelled"
    and "i \<in> set (items_of s jid)" and "i_status i = Item_Failed" and "i_attempt_count i < max_attempts"
  shows "\<exists>targets t j'. retry_import_job_failed env jid max_attempts s = (Inr targets, t)
    \<and> job_of t jid = Some j' \<and> j_status j' = Job_Cancelled \<and> 0 < j_pending_count j'
    \<and> claim_next_pending_import_job_item env' jid t = (Inr None, t)"
proof -
  note inv = reachable_inv [OF assms(1)]
  let ?s1 = "s\<lparr>items := update_where (to_retry jid max_attempts) (requeued_item env) (items s)\<rparr>"
  obtain t where t: "retry_import_job_failed env jid max_attempts s = (Inr (retry_targets jid max_attempts s), t)"
    "recompute_import_job_counts_on env jid ?s1 = Inr t"
    using retry_eq [OF inv(2), of jid env max_attempts] assms(2) by auto
  let ?j = "recounted_job env ?s1 jid Job_Cancelled j"
  have "job_of ?s1 jid = Some j" using assms(2) by (simp add: job_of_def)
  then have t': "t = ?s1\<lparr>jobs := update_where (\<lambda>x. j_id x = jid) (recounted_job env ?s1 jid Job_Cancelled) (jobs s)\<rparr>"
    using t(2) assms(3) by (simp add: recompute_import_job_counts_on_def status_from_items_def derived_job_status_def)
  have j': "job_of t jid = Some ?j"
    using assms(2) job_of_SomeD [OF assms(2)]
    by (simp add: t' job_of_def find_by_update_where recounted_job_def)
  have "requeued_item env i \<in> set (items_of ?s1 jid)"
    using assms(4-6) by (auto simp: items_of_def in_update_where to_retry_def)
  then have "0 < count_where (\<lambda>i. i_status i = Item_Pending) (items_of ?s1 jid)"
    unfolding count_where_pos_iff by (rule rev_bexI) simp
  then have "0 < j_pending_count ?j" by (simp add: recounted_job_def count_items_of)
  moreover have "claim_next_pending_import_job_item env' jid t = (Inr None, t)"
  proof -
    have "reachable (t, held)" using Step [OF assms(1) Retry [OF t(1)]] .
    note inv' = reachable_inv [OF this]
    obtain r u where run: "claim_next_pending_import_job_item env' jid t = (r, u)" by fastforce
    with inv'(2) show ?thesis
    proof (cases rule: claim_cases)
      case (claimed it)
      then obtain k where k: "k \<in> set (jobs t)" "j_id k = jid" "j_status k \<noteq> Job_Cancelled"
        by (auto simp: claimable_def)
      have "k = ?j" using job_unique [OF inv'(2) k(1), of ?j] job_of_SomeD [OF j'] k(2) by auto
      with k(3) show ?thesis by (simp add: recounted_job_def)
    qed (use run in simp)
  qed
  ultimately show ?thesis using t(1) j' by (auto simp: recounted_job_def)
qed

theorem retry_of_cancelled_job_stalls_witness:
  "\<exists>s t targets. cancel_import_job sample_env ''j'' demo_failed = (Inr (), s)
     \<and> retry_import_job_failed sample_env ''j'' 2 s = (Inr targets, t)
     \<and> claim_next_pending_import_job_item sample_env ''j'' t = (Inr None, t)"
proof -
  obtain s where run: "cancel_import_job sample_env ''j'' demo_failed = (Inr (), s)"
    by (simp add: cancel_eq job_of_def demo_failed_eq demo_store_eq)
  have r: "reachable (s, {})" by (rule Step [OF reachable_demo_failed Cancel [OF run]])
  let ?i = "hd (items demo_failed)"
  have i: "?i \<in> set (items_of s ''j'')" "i_status ?i = Item_Failed" "i_attempt_count ?i < 2"
    using run
    by (auto simp: cancel_eq job_of_def demo_failed_eq demo_store_eq closing_store_def items_of_def
        demo_items_def demo_item_def demo_finish_def finished_item_def started_item_def claimed_item_def)
  obtain j where j: "job_of s ''j'' = Some j" "j_status j = Job_Cancelled"
    using run by (auto simp: cancel_eq job_of_def demo_failed_eq demo_store_eq cancelled_job_def)
  from retry_of_cancelled_job_stalls [OF r j i] run show ?thesis by blast
qed

subsection \<open>Database encoding\<close>

text \<open>
  The database text of every enumeration reads back as the value, and no
  other text does: what \<open>from_db\<close> accepts is exactly what \<open>to_db\<close> writes, so an
  unknown text is always rejected.
\<close>

theorem db_encoding_roundtrip:
  "(sheet_row_status_from_db v = Inr x1 \<longleftrightarrow> v = sheet_row_status_to_db x1)
   \<and> (import_kind_from_db v = Inr x2 \<longleftrightarrow> v = import_kind_to_db x2)
   \<and> (import_mode_from_db v = Inr x3 \<longleftrightarrow> v = import_mode_to_db x3)
   \<and> (import_job_status_from_db v = Inr x4 \<longleftrightarrow> v = import_job_status_to_db x4)
   \<and> (import_job_item_status_from_db v = Inr x5 \<longleftrightarrow> v = import_job_item_status_to_db x5)
   \<and> (import_attempt_status_from_db v = Inr x6 \<longleftrightarrow> v = import_attempt_status_to_db x6)
   \<and> (import_source_item_kind_from_db v = Inr x7 \<longleftrightarrow> v = import_source_item_kind_to_db x7)"
proof (intro conjI)
  show "sheet_row_status_from_db v = Inr x1 \<longleftrightarrow> v = sheet_row_status_to_db x1"
    by (cases x1) (auto simp: sheet_row_status_from_db_def invalid_db_value_def)
  show "import_kind_from_db v = Inr x2 \<longleftrightarrow> v = import_kind_to_db x2"
    by (cases x2) (auto simp: import_kind_from_db_def invalid_db_value_def)
  show "import_mode_from_db v = Inr x3 \<longleftrightarrow> v = import_mode_to_db x3"
    by (cases x3) (auto simp: import_mode_from_db_def invalid_db_value_def)
  show "import_job_status_from_db v = Inr x4 \<longleftrightarrow> v = import_job_status_to_db x4"
    by (cases x4) (auto simp: import_job_status_from_db_def invalid_db_value_def)
  show "import_job_item_status_from_db v = Inr x5 \<longleftrightarrow> v = import_job_item_status_to_db x5"
    by (cases x5) (auto simp: import_job_item_status_from_db_def invalid_db_value_def)
  show "import_attempt_status_from_db v = Inr x6 \<longleftrightarrow> v = import_attempt_status_to_db x6"
    by (cases x6) (auto simp: import_attempt_status_from_db_def invalid_db_value_def)
  show "import_source_item_kind_from_db v = Inr x7 \<longleftrightarrow> v = import_source_item_kind_to_db x7"
    by (cases x7) (auto simp: import_source_item_kind_from_db_def invalid_db_value_def)
qed

end
