(* ===== verification/SheetProperties.thy ===== *)
theory SheetProperties
  imports StoreMachine
begin

text \<open>
  What the sheet operations guarantee: generated ids are free, an append puts
  the given rows in order behind the existing ones or changes nothing, a
  transfer copies or moves the requested rows in the requested order.
\<close>

subsection \<open>Rows behind the existing ones\<close>

lemma rows_in_order_append:
  assumes ok: "rows_ok s" and rows: "rows t = rows s @ new"
    and sheet: "\<forall>r \<in> set new. r_sheet_id r = sid"
    and inc: "sorted_wrt (<) (map r_position new)"
    and behind: "\<forall>r \<in> set (rows_of sid s). \<forall>n \<in> set new. r_position r < r_position n"
  shows "rows_in_order sid t = rows_in_order sid s @ new"
proof -
  let ?key = "\<lambda>r. (r_position r, r_id r)"
  have of: "rows_of sid t = rows_of sid s @ new" using rows sheet by (simp add: rows_of_def)
  have "mset (rows_of sid t) = mset (rows_in_order sid s @ new)"
    by (simp add: of rows_in_order_def)
  moreover have "inj_on ?key (set (rows_of sid t))"
  proof (rule inj_onI)
    fix a b assume a: "a \<in> set (rows_of sid t)" and b: "b \<in> set (rows_of sid t)" and eq: "?key a = ?key b"
    have new: "x = y" if "x \<in> set new" "y \<in> set new" "r_position x = r_position y" for x y
      using that inc distinct_key_unique [of r_position new x y] by (simp add: strict_sorted_iff)
    have old: "x = y" if "x \<in> set (rows_of sid s)" "y \<in> set (rows_of sid s)" "r_id x = r_id y" for x y
      using that rows_ok_same_id [OF ok, of x y] by (simp add: rows_of_def)
    have pos: "r_position a = r_position b" and ids: "r_id a = r_id b" using eq by simp_all
    have apart: "False" if "x \<in> set (rows_of sid s)" "y \<in> set new" "r_position x = r_position y" for x y
      using behind that by fastforce
    from a b show "a = b"
      unfolding of set_append using new [OF _ _ pos] old [OF _ _ ids] apart [OF _ _ pos]
        apart [OF _ _ pos [symmetric]] by blast
  qed
  moreover have "sorted (map ?key (rows_in_order sid s @ new))"
  proof -
    have "sorted (map ?key (rows_in_order sid s))" by (simp add: rows_in_order_def)
    moreover have "sorted (map ?key new)"
      using inc by (induction new) (auto simp: less_eq_prod_def)
    moreover have "\<forall>a \<in> set (rows_in_order sid s). \<forall>b \<in> set new. ?key a \<le> ?key b"
      using behind by (auto simp: less_eq_prod_def)
    ultimately show ?thesis by (auto simp: sorted_append)
  qed
  ultimately show ?thesis
    unfolding rows_in_order_def [of sid t] by (rule sort_key_inj_key_eq)
qed

lemma next_row_position_gt: "r \<in> set (rows_of sid s) \<Longrightarrow> r_position r < next_row_position sid s"
  unfolding next_row_position_def by (rule next_after_max_gt) simp

subsection \<open>Append\<close>

fun appended :: "env \<Rightarrow> nat \<Rightarrow> nat \<Rightarrow> upsert_sheet_row_input list \<Rightarrow> sheet_row list" where
  "appended env start i [] = []"
| "appended env start i (input # inputs) =
     inserted_row env i (input\<lparr>ur_position := start + i\<rparr>) # appended env start (Suc i) inputs"

definition appendable :: "string \<Rightarrow> nat \<Rightarrow> nat \<Rightarrow> upsert_sheet_row_input list \<Rightarrow> store \<Rightarrow> bool" where
  "appendable sid start i inputs s \<longleftrightarrow>
     (\<forall>input \<in> set inputs. ur_sheet_id input = sid \<and> find_by r_id (ur_row_id input) (rows s) = None)
     \<and> distinct (map ur_row_id inputs)
     \<and> (inputs = [] \<or> sheet_exists s sid \<and> start + i + length inputs \<le> Suc u32_max)"

lemma append_one:
  assumes fresh: "find_by r_id (ur_row_id input) (rows s) = None" and "ur_sheet_id input = sid"
    and behind: "\<forall>r \<in> set (rows_of sid s). r_position r < p"
  shows "upsert_sheet_row_with_mode env k (input\<lparr>ur_position := p\<rparr>) preserve s =
    (if sheet_exists s sid then Inr (s\<lparr>rows := rows s @ [inserted_row env k (input\<lparr>ur_position := p\<rparr>)]\<rparr>)
     else Inl (Sqlite Foreign_Key_Constraint))"
proof -
  have "free_position (input\<lparr>ur_position := p\<rparr>) s = s"
  proof -
    have "filter (\<lambda>r. \<not> (r_sheet_id r = sid \<and> r_position r = p \<and> r_id r \<noteq> ur_row_id input)) (rows s) = rows s"
      using behind by (intro filter_True) (auto simp: rows_of_def)
    then show ?thesis using assms(2) by (simp add: free_position_def)
  qed
  with upsert_new [of "input\<lparr>ur_position := p\<rparr>" s env k preserve] fresh assms(2) show ?thesis by simp
qed

lemma append_all_spec:
  assumes "\<forall>r \<in> set (rows_of sid s). r_position r < start + i"
  shows "if appendable sid start i inputs s
    then append_all env sid start i inputs s = Inr (s\<lparr>rows := rows s @ appended env start i inputs\<rparr>)
    else \<exists>e. append_all env sid start i inputs s = Inl e"
  using assms
proof (induction inputs arbitrary: i s)
  case Nil
  then show ?case by (simp add: appendable_def)
next
  case (Cons input inputs)
  let ?new = "inserted_row env i (input\<lparr>ur_position := start + i\<rparr>)"
  let ?s1 = "s\<lparr>rows := rows s @ [?new]\<rparr>"
  show ?case
  proof (cases "ur_sheet_id input = sid \<and> find_by r_id (ur_row_id input) (rows s) = None
      \<and> start + i \<le> u32_max \<and> sheet_exists s sid")
    case False
    then have "\<not> appendable sid start i (input # inputs) s" by (auto simp: appendable_def)
    moreover have "\<exists>e. append_all env sid start i (input # inputs) s = Inl e"
      using False append_one [of input s sid "start + i" env i False] Cons.prems
      by (auto simp: upsert_sheet_row_on_def)
    ultimately show ?thesis by simp
  next
    case True
    have step: "append_all env sid start i (input # inputs) s = append_all env sid start (Suc i) inputs ?s1"
      using True append_one [of input s sid "start + i" env i False] Cons.prems
      by (simp add: upsert_sheet_row_on_def)
    have "\<forall>r \<in> set (rows_of sid ?s1). r_position r < start + Suc i"
      using Cons.prems by (auto simp: rows_of_def less_Suc_eq)
    note IH = Cons.IH [OF this]
    have "find_by r_id x (rows ?s1) = None \<longleftrightarrow> find_by r_id x (rows s) = None \<and> x \<noteq> ur_row_id input" for x
      by (auto simp: find_by_append split: option.splits)
    note fresh = this
    have "(\<forall>x \<in> set (input # inputs). ur_sheet_id x = sid \<and> find_by r_id (ur_row_id x) (rows s) = None)
          \<and> distinct (map ur_row_id (input # inputs))
        \<longleftrightarrow> (\<forall>x \<in> set inputs. ur_sheet_id x = sid \<and> find_by r_id (ur_row_id x) (rows ?s1) = None)
          \<and> distinct (map ur_row_id inputs)"
      using True unfolding fresh list.set(2) list.map(2) distinct.simps set_map ball_simps(7) image_iff by metis
    moreover have "sheet_exists s sid \<and> start + i + length (input # inputs) \<le> Suc u32_max
        \<longleftrightarrow> (inputs = [] \<or> sheet_exists ?s1 sid \<and> start + Suc i + length inputs \<le> Suc u32_max)"
      using True by (cases inputs) simp_all
    ultimately have same: "appendable sid start i (input # inputs) s = appendable sid start (Suc i) inputs ?s1"
      unfolding appendable_def by (simp only: list.distinct simp_thms) argo
    show ?thesis
    proof (cases "appendable sid start (Suc i) inputs ?s1")
      case True
      with IH step same show ?thesis by simp
    next
      case False
      with IH step same show ?thesis by simp
    qed
  qed
qed

lemma appended_positions:
  "map r_position (appended env start i inputs) = [start + i..<start + i + length inputs]"
proof (induction inputs arbitrary: i)
  case (Cons input inputs)
  have "[start + i..<start + i + length (input # inputs)]
      = (start + i) # [start + Suc i..<start + Suc i + length inputs]"
    by (subst upt_conv_Cons) simp_all
  with Cons show ?case by simp
qed simp

lemma appended_facts:
  "map r_id (appended env start i inputs) = map ur_row_id inputs"
  "\<forall>input \<in> set inputs. ur_sheet_id input = sid \<Longrightarrow> r \<in> set (appended env start i inputs) \<Longrightarrow> r_sheet_id r = sid"
  by (induction inputs arbitrary: i) auto

text \<open>
  \<open>C23.\<close> An append succeeds exactly when the next position and every given row
  fit: the rows name the sheet, their ids are new and distinct, the sheet exists
  and the positions stay in 32 bits.  Then the rows follow the existing ones in
  the given order at consecutive positions and no other row changes; otherwise
  an error is returned and the store is unchanged.
\<close>

theorem append_in_order_or_nothing:
  assumes "rows_ok s"
  shows "if next_row_position sid s \<le> u32_max \<and> appendable sid (next_row_position sid s) 0 inputs s
    then \<exists>t. append_sheet_rows_atomic env sid inputs s = (Inr (), t)
      \<and> list_sheet_row_ids sid t = list_sheet_row_ids sid s @ map ur_row_id inputs
      \<and> (\<exists>new. rows t = rows s @ new \<and> map r_position new = [next_row_position sid s..<next_row_position sid s + length inputs]
           \<and> (\<forall>r \<in> set new. r_sheet_id r = sid))
    else \<exists>e. append_sheet_rows_atomic env sid inputs s = (Inl e, s)"
proof -
  define start where "start = next_row_position sid s"
  have behind: "\<forall>r \<in> set (rows_of sid s). r_position r < start + 0"
    using next_row_position_gt by (simp add: start_def)
  note spec = append_all_spec [OF behind, where env = env and inputs = inputs]
  show ?thesis
  proof (cases "start \<le> u32_max \<and> appendable sid start 0 inputs s")
    case True
    let ?new = "appended env start 0 inputs"
    let ?t = "invalidate_cache sid (s\<lparr>rows := rows s @ ?new\<rparr>)"
    have own: "\<forall>r \<in> set ?new. r_sheet_id r = sid"
      using True appended_facts(2) [of inputs sid] by (auto simp: appendable_def)
    have pos: "map r_position ?new = [start..<start + length inputs]"
      using appended_positions [of env start 0 inputs] by simp
    have "rows_in_order sid ?t = rows_in_order sid s @ ?new"
    proof (rule rows_in_order_append [OF assms(1) _ own])
      show "sorted_wrt (<) (map r_position ?new)" by (simp add: pos)
      have "start \<le> r_position n" if "n \<in> set ?new" for n
      proof -
        have "r_position n \<in> set (map r_position ?new)" using that by simp
        then show ?thesis unfolding pos by simp
      qed
      with behind show "\<forall>r \<in> set (rows_of sid s). \<forall>n \<in> set ?new. r_position r < r_position n"
        by fastforce
    qed simp
    moreover have "append_sheet_rows_atomic env sid inputs s = (Inr (), ?t)"
      using True spec by (simp add: append_sheet_rows_atomic_def in_transaction_def Let_def start_def)
    ultimately have "append_sheet_rows_atomic env sid inputs s = (Inr (), ?t)
      \<and> list_sheet_row_ids sid ?t = list_sheet_row_ids sid s @ map ur_row_id inputs
      \<and> rows ?t = rows s @ ?new \<and> map r_position ?new = [start..<start + length inputs]
      \<and> (\<forall>r \<in> set ?new. r_sheet_id r = sid)"
      using own pos by (simp add: list_sheet_row_ids_order appended_facts(1))
    then show ?thesis unfolding start_def [symmetric] if_P [OF True] by blast
  next
    case False
    then have "\<exists>e. append_sheet_rows_atomic env sid inputs s = (Inl e, s)"
      using spec by (auto simp: append_sheet_rows_atomic_def in_transaction_def Let_def start_def)
    then show ?thesis unfolding start_def [symmetric] if_not_P [OF False] .
  qed
qed


definition sample_input :: "string \<Rightarrow> string \<Rightarrow> upsert_sheet_row_input" where
  "sample_input rid sid = \<lparr>ur_row_id = rid, ur_sheet_id = sid, ur_position = 7, ur_display_id = rid,
     ur_lookup_id = rid, ur_status = Row_Pending, ur_error_message = None\<rparr>"

theorem append_in_order_or_nothing_witness:
  "\<exists>t. append_sheet_rows_atomic sample_env ''A'' [sample_input ''n1'' ''A'', sample_input ''n2'' ''A''] sample_store = (Inr (), t)
     \<and> list_sheet_row_ids ''A'' t = [''r0'', ''r1'', ''r2'', ''n1'', ''n2'']"
proof -
  have "list_sheet_row_ids ''A'' sample_store = [''r0'', ''r1'', ''r2'']"
    by (simp add: list_sheet_row_ids_def rows_of_def sample_store_def sample_row_def)
  moreover have "next_row_position ''A'' sample_store = 3"
    by (simp add: next_row_position_def next_after_max_def rows_of_def sample_store_def sample_row_def)
  moreover have "appendable ''A'' 3 0 [sample_input ''n1'' ''A'', sample_input ''n2'' ''A''] sample_store"
    by (simp add: appendable_def sample_input_def sample_store_def sample_row_def sheet_exists_def sample_sheet_def)
  ultimately show ?thesis
    using append_in_order_or_nothing [OF rows_ok_sample_store, of "''A''"
        "[sample_input ''n1'' ''A'', sample_input ''n2'' ''A'']" sample_env]
    by (auto simp: sample_input_def)
qed

subsection \<open>Transfer\<close>

text \<open>The rows a request picks: trimmed ids, each once, that name a row of the source sheet.\<close>

fun picked_rows :: "string \<Rightarrow> string list \<Rightarrow> string set \<Rightarrow> sheet_row list \<Rightarrow> sheet_row list" where
  "picked_rows src [] seen rs = []"
| "picked_rows src (raw_id # ids) seen rs =
     (let row_id = trim raw_id
      in if row_id = [] \<or> row_id \<in> seen then picked_rows src ids seen rs
         else case find (\<lambda>r. r_sheet_id r = src \<and> r_id r = row_id) rs of
                None \<Rightarrow> picked_rows src ids (insert row_id seen) rs
              | Some r \<Rightarrow> r # picked_rows src ids (insert row_id seen) rs)"

text \<open>What a copied row takes over from its original.\<close>

definition row_content ::
  "sheet_row \<Rightarrow> string \<times> string \<times> string option \<times> sheet_row_status \<times> string option" where
  "row_content r = (r_display_id r, r_lookup_id r, r_tracking_record_id r, r_status r, r_error_message r)"

lemma display_ids_of_content:
  assumes "map row_content xs = map row_content ys"
  shows "map r_display_id xs = map r_display_id ys"
proof -
  have "map fst (map row_content zs) = map r_display_id zs" for zs by (induction zs) (simp_all add: row_content_def)
  then show ?thesis using assms by metis
qed

lemma picked_rows_in: "r \<in> set (picked_rows src ids seen rs) \<Longrightarrow> r \<in> set rs \<and> r_sheet_id r = src \<and> r_id r \<notin> seen"
proof (induction src ids seen rs rule: picked_rows.induct)
  case (2 src raw_id ids seen rs)
  have found: "x \<in> set rs \<and> r_sheet_id x = src \<and> r_id x = y"
    if "find (\<lambda>r. r_sheet_id r = src \<and> r_id r = y) rs = Some x" for x y
    using that by (auto simp: find_Some_iff)
  from 2 show ?case by (auto simp: Let_def split: if_splits option.splits dest!: found)
qed simp

lemma length_picked_rows: "length (picked_rows src ids seen rs) \<le> length ids"
  by (induction src ids seen rs rule: picked_rows.induct)
    (auto simp: Let_def intro: le_SucI split: if_splits option.splits)

lemma picked_rows_append:
  "\<forall>r \<in> set new. r_sheet_id r \<noteq> src \<Longrightarrow> picked_rows src ids seen (rs @ new) = picked_rows src ids seen rs"
proof (induction src ids seen rs rule: picked_rows.induct)
  case (2 src raw_id ids seen rs)
  have "find (\<lambda>r. r_sheet_id r = src \<and> r_id r = x) (rs @ new)
      = find (\<lambda>r. r_sheet_id r = src \<and> r_id r = x) rs" for x
  proof -
    have "find (\<lambda>r. r_sheet_id r = src \<and> r_id r = x) new = None"
      using 2(4) by (auto simp: find_None_iff)
    then show ?thesis by (induction rs) auto
  qed
  with 2 show ?case by (auto simp: Let_def split: option.splits)
qed simp

lemma insert_at_end:
  assumes "find_by r_id (r_id r) (rows s) = None" "sheet_exists s (r_sheet_id r)"
    and "\<forall>q \<in> set (rows_of (r_sheet_id r) s). r_position q < r_position r"
  shows "insert_sheet_row r s = Inr (s\<lparr>rows := rows s @ [r]\<rparr>)"
proof -
  have "\<not> position_taken (rows s) (r_id r) (r_sheet_id r) (r_position r)"
    using assms(3) by (fastforce simp: position_taken_def rows_of_def)
  with assms(1,2) show ?thesis by (simp add: insert_sheet_row_def)
qed

text \<open>What the loop leaves: the copies behind the rows, the ids it copied.\<close>

definition copies_of :: "string \<Rightarrow> nat \<Rightarrow> sheet_row list \<Rightarrow> sheet_row list \<Rightarrow> bool" where
  "copies_of tgt p picked new \<longleftrightarrow> map row_content new = map row_content picked
     \<and> map r_position new = [p..<p + length picked] \<and> (\<forall>r \<in> set new. r_sheet_id r = tgt)"

lemma copies_of_Cons:
  assumes "copies_of tgt (Suc p) picked new" "r_sheet_id c = tgt" "r_position c = p" "row_content c = row_content r"
  shows "copies_of tgt p (r # picked) (c # new)"
proof -
  have "[p..<p + length (r # picked)] = p # [Suc p..<Suc p + length picked]"
    by (subst upt_conv_Cons) simp_all
  with assms show ?thesis by (simp add: copies_of_def)
qed

lemma transfer_loop_spec:
  assumes "src \<noteq> tgt" "sheet_exists s tgt" "\<forall>q \<in> set (rows_of tgt s). r_position q < p"
    and "p + length (picked_rows src ids seen (rows s)) \<le> u32_max" "length (rows s) + length ids < u32_max"
  shows "\<exists>new. transfer_loop env src tgt ids seen p k copied s =
      Inr (copied @ map r_id (picked_rows src ids seen (rows s)), s\<lparr>rows := rows s @ new\<rparr>)
    \<and> copies_of tgt p (picked_rows src ids seen (rows s)) new"
  using assms
proof (induction ids arbitrary: seen p k copied s)
  case Nil
  then show ?case by (simp add: copies_of_def)
next
  case (Cons raw ids)
  let ?rid = "trim raw"
  show ?case
  proof (cases "?rid = [] \<or> ?rid \<in> seen")
    case True
    with Cons.IH [OF Cons.prems(1-3), of seen k copied] Cons.prems(4,5) show ?thesis
      by (simp add: Let_def)
  next
    case False
    note skip = this
    show ?thesis
    proof (cases "find (\<lambda>r. r_sheet_id r = src \<and> r_id r = ?rid) (rows s)")
      case None
      with skip Cons.IH [OF Cons.prems(1-3), of "insert ?rid seen" k copied] Cons.prems(4,5) show ?thesis
        by (simp add: Let_def)
    next
      case (Some r)
      then have r: "r_id r = ?rid" by (auto simp: find_Some_iff)
      obtain tid where tid: "next_available_generated_sheet_row_id s tgt p = Some tid"
        using generated_row_id_total [of s tgt p] Cons.prems(5) by auto
      define c where "c = \<lparr>r_id = tid, r_sheet_id = tgt, r_position = p,
         r_display_id = r_display_id r, r_lookup_id = r_lookup_id r, r_generation = gen env k,
         r_tracking_record_id = r_tracking_record_id r, r_status = r_status r,
         r_error_message = r_error_message r, r_created_at = now env, r_updated_at = now env\<rparr>"
      let ?s1 = "s\<lparr>rows := rows s @ [c]\<rparr>"
      have ins: "insert_sheet_row c s = Inr ?s1"
        by (rule insert_at_end)
          (use generated_row_id_fresh [OF tid] Cons.prems(2,3) in \<open>simp_all add: c_def\<close>)
      have picked: "picked_rows src ids (insert ?rid seen) (rows ?s1) = picked_rows src ids (insert ?rid seen) (rows s)"
        using picked_rows_append [of "[c]" src] Cons.prems(1) by (simp add: c_def)
      let ?picked = "picked_rows src ids (insert ?rid seen) (rows s)"
      have step: "picked_rows src (raw # ids) seen (rows s) = r # ?picked"
        using skip Some by (simp add: Let_def)
      have bound: "Suc p + length ?picked \<le> u32_max" using Cons.prems(4) unfolding step by simp
      have "saturating_add u32_max p 1 = Suc p" using bound by (simp add: saturating_add_exact)
      then have loop: "transfer_loop env src tgt (raw # ids) seen p k copied s
          = transfer_loop env src tgt ids (insert ?rid seen) (Suc p) (Suc k) (copied @ [?rid]) ?s1"
        using skip Some tid ins by (simp add: Let_def c_def)
      obtain new where new: "transfer_loop env src tgt ids (insert ?rid seen) (Suc p) (Suc k) (copied @ [?rid]) ?s1 =
          Inr ((copied @ [?rid]) @ map r_id ?picked, ?s1\<lparr>rows := rows ?s1 @ new\<rparr>)"
        "copies_of tgt (Suc p) ?picked new"
        using Cons.IH [of ?s1 "Suc p" "insert ?rid seen" "Suc k" "copied @ [?rid]"]
          Cons.prems(1,2,3,5) bound picked
        by (fastforce simp: rows_of_def less_Suc_eq c_def)
      have "copies_of tgt p (r # ?picked) (c # new)"
        by (rule copies_of_Cons [OF new(2)]) (simp_all add: c_def row_content_def)
      then show ?thesis unfolding loop new(1) step by (intro exI [of _ "c # new"]) (simp add: r)
    qed
  qed
qed

lemma rows_of_fold_delete_other:
  "other \<noteq> sid \<Longrightarrow> rows_of other (fold (delete_row sid) ids s) = rows_of other s"
  by (simp add: rows_of_def rows_fold_delete_row) (rule filter_cong, auto)

lemma length_fold_delete_row: "length (rows (fold (delete_row sid) ids s)) \<le> length (rows s)"
  by (simp add: rows_fold_delete_row)

text \<open>
  \<open>C16.\<close> A transfer within the 32-bit position range never fails.  The target
  sheet gets, behind its own rows and in the order of the request, a copy of
  every requested row that exists in the source (ids are trimmed; blank, repeated
  and unknown ids are skipped) with the same content.  When the source rows are
  to be deleted, exactly the copied rows leave the source and the remaining ones
  keep their order at positions 0, 1, 2, ...; otherwise the source is unchanged.
  Other sheets are never touched.
\<close>

theorem transfer_moves_requested_rows:
  assumes ok: "rows_ok s" and ne: "src \<noteq> tgt" "ids \<noteq> []" and tgt: "sheet_exists s tgt"
    and bound: "next_row_position tgt s + length ids \<le> u32_max" "length (rows s) + length ids < u32_max"
  shows "\<exists>t. transfer_sheet_rows env \<lparr>tr_source_sheet_id = src, tr_target_sheet_id = tgt,
        tr_row_ids = ids, tr_delete_source_rows = delete\<rparr> s = (Inr (), t)
    \<and> map row_content (rows_in_order tgt t)
        = map row_content (rows_in_order tgt s) @ map row_content (picked_rows src ids {} (rows s))
    \<and> (if delete
       then list_sheet_row_ids src t
            = filter (\<lambda>x. x \<notin> r_id ` set (picked_rows src ids {} (rows s))) (list_sheet_row_ids src s)
          \<and> map r_position (rows_in_order src t) = [0..<length (list_sheet_row_ids src t)]
       else rows_of src t = rows_of src s)
    \<and> (\<forall>other. other \<noteq> src \<longrightarrow> other \<noteq> tgt \<longrightarrow> rows_of other t = rows_of other s)"
proof -
  let ?p = "next_row_position tgt s"
  let ?picked = "picked_rows src ids {} (rows s)"
  have fits: "?p + length ?picked \<le> u32_max" "as_u32 ?p = ?p"
    using bound(1) length_picked_rows [of src ids "{}" "rows s"] by (simp_all add: as_u32_id)
  obtain new where loop: "transfer_loop env src tgt ids {} ?p 0 [] s =
        Inr (map r_id ?picked, s\<lparr>rows := rows s @ new\<rparr>)" and new: "copies_of tgt ?p ?picked new"
    using transfer_loop_spec [OF ne(1) tgt _ fits(1) bound(2), of env 0 "[]"] next_row_position_gt
    by fastforce
  let ?s1 = "s\<lparr>rows := rows s @ new\<rparr>"
  have ok1: "rows_ok ?s1" using row_frame_transfer_loop [OF loop] ok by (simp add: row_frame_def)
  have pos: "map r_position new = [?p..<?p + length ?picked]" and own: "\<forall>r \<in> set new. r_sheet_id r = tgt"
    and content: "map row_content new = map row_content ?picked"
    using new by (simp_all add: copies_of_def)
  have order1: "rows_in_order tgt ?s1 = rows_in_order tgt s @ new"
  proof (rule rows_in_order_append [OF ok _ own])
    show "sorted_wrt (<) (map r_position new)" by (simp add: pos)
    have "?p \<le> r_position n" if "n \<in> set new" for n
    proof -
      have "r_position n \<in> set (map r_position new)" using that by simp
      then show ?thesis unfolding pos by simp
    qed
    then show "\<forall>r \<in> set (rows_of tgt s). \<forall>n \<in> set new. r_position r < r_position n"
      using next_row_position_gt by fastforce
  qed simp
  have others1: "rows_of other ?s1 = rows_of other s" if "other \<noteq> tgt" for other
    using own that by (auto simp: rows_of_def)
  show ?thesis
  proof (cases delete)
    case False
    let ?t = "invalidate_cache tgt ?s1"
    have "transfer_sheet_rows env \<lparr>tr_source_sheet_id = src, tr_target_sheet_id = tgt,
        tr_row_ids = ids, tr_delete_source_rows = delete\<rparr> s = (Inr (), ?t)"
      using ne loop fits(2) False by (simp add: transfer_sheet_rows_def in_transaction_def)
    moreover have "rows_in_order tgt ?t = rows_in_order tgt s @ new"
      using order1 list_sheet_row_ids_cong(2) [of ?t ?s1] by simp
    moreover have "rows_of other ?t = rows_of other s" if "other \<noteq> tgt" for other
      using others1 [OF that] by (simp add: rows_of_def)
    ultimately show ?thesis using False ne(1) content by auto
  next
    case True
    let ?s2 = "fold (delete_row src) (map r_id ?picked) ?s1"
    let ?ids = "list_sheet_row_ids src ?s2"
    let ?s3 = "?s2\<lparr>rows := repositioned (now env) src ?ids (length ?ids) (rows ?s2)\<rparr>"
    let ?t = "invalidate_cache src (invalidate_cache tgt ?s3)"
    have ok2: "rows_ok ?s2" by (rule rows_ok_fold_delete_row [OF ok1])
    have "length new = length ?picked" using content by (metis length_map)
    then have "length (rows ?s2) \<le> length (rows s) + length ids"
    proof -
      have "length (rows ?s2) \<le> length (rows ?s1)" by (rule length_fold_delete_row)
      also have "\<dots> = length (rows s) + length ?picked" using \<open>length new = length ?picked\<close> by simp
      also have "\<dots> \<le> length (rows s) + length ids"
        using length_picked_rows [of src ids "{}" "rows s"] by simp
      finally show ?thesis .
    qed
    with bound(2) length_list_sheet_row_ids_le [of src ?s2] have "length ?ids \<le> u32_max" by linarith
    then have run: "compact_sheet_row_positions src (now env) ?s2 = Inr ?s3"
      by (rule compact_total [OF ok2])
    have "transfer_sheet_rows env \<lparr>tr_source_sheet_id = src, tr_target_sheet_id = tgt,
        tr_row_ids = ids, tr_delete_source_rows = delete\<rparr> s = (Inr (), ?t)"
      using ne loop fits(2) True run by (simp add: transfer_sheet_rows_def in_transaction_def)
    moreover have kept: "rows_of other ?t = rows_of other ?s1" if "other \<noteq> src" for other
    proof -
      have "rows_of other ?t = filter (\<lambda>r. r_sheet_id r = other) (rows ?s2)"
        using that by (simp add: rows_of_def rows_of_repositioned_other)
      also have "\<dots> = rows_of other ?s1"
        using rows_of_fold_delete_other [OF that] by (simp only: rows_of_def)
      finally show ?thesis .
    qed
    moreover have "rows_in_order tgt ?t = rows_in_order tgt s @ new"
      using order1 kept [of tgt] ne(1) by (simp add: rows_in_order_def)
    moreover have "list_sheet_row_ids src ?t = ?ids"
      "map r_position (rows_in_order src ?t) = [0..<length ?ids]"
      using compacted_order [OF ok2 refl refl, of src "now env"]
        list_sheet_row_ids_cong [of ?t ?s3] by simp_all
    moreover have "?ids = filter (\<lambda>x. x \<notin> r_id ` set ?picked) (list_sheet_row_ids src s)"
    proof -
      have "list_sheet_row_ids src ?s1 = list_sheet_row_ids src s"
        using others1 [OF ne(1)] by (simp add: list_sheet_row_ids_def)
      then show ?thesis by (simp only: list_sheet_row_ids_delete set_map)
    qed
    ultimately show ?thesis using True content others1 by auto
  qed
qed

theorem transfer_moves_requested_rows_witness:
  "\<exists>t. transfer_sheet_rows sample_env \<lparr>tr_source_sheet_id = ''A'', tr_target_sheet_id = ''B'',
        tr_row_ids = ['' r2 '', ''r0'', ''r2'', ''zz''], tr_delete_source_rows = True\<rparr> sample_store = (Inr (), t)
     \<and> map r_display_id (rows_in_order ''B'' t) = [''q0'', ''r2'', ''r0'']
     \<and> list_sheet_row_ids ''A'' t = [''r1'']"
proof -
  let ?ids = "['' r2 '', ''r0'', ''r2'', ''zz'']"
  have trims: "trim '' r2 '' = ''r2''" "trim ''r0'' = ''r0''" "trim ''r2'' = ''r2''" "trim ''zz'' = ''zz''"
    by code_simp+
  have picked: "picked_rows ''A'' ?ids {} (rows sample_store) = [sample_row ''r2'' ''A'' 2, sample_row ''r0'' ''A'' 0]"
    by (simp add: sample_store_def sample_row_def trims Let_def)
  have ids: "list_sheet_row_ids ''A'' sample_store = [''r0'', ''r1'', ''r2'']"
    by (simp add: list_sheet_row_ids_def rows_of_def sample_store_def sample_row_def)
  have tgt: "rows_in_order ''B'' sample_store = [sample_row ''q0'' ''B'' 0]"
    by (simp add: rows_in_order_def rows_of_def sample_store_def sample_row_def)
  have ne: "''A'' \<noteq> ''B''" "?ids \<noteq> []" by simp_all
  have B: "sheet_exists sample_store ''B''" by (simp add: sheet_exists_def sample_store_def sample_sheet_def)
  have small: "next_row_position ''B'' sample_store + length ?ids \<le> u32_max"
    "length (rows sample_store) + length ?ids < u32_max"
    by (simp_all add: next_row_position_def next_after_max_def rows_of_def sample_store_def sample_row_def)
  from transfer_moves_requested_rows [OF rows_ok_sample_store ne B small, where env = sample_env and delete = True,
      unfolded picked ids tgt if_True]
  obtain t where t: "transfer_sheet_rows sample_env \<lparr>tr_source_sheet_id = ''A'', tr_target_sheet_id = ''B'',
        tr_row_ids = ?ids, tr_delete_source_rows = True\<rparr> sample_store = (Inr (), t)"
    and c: "map row_content (rows_in_order ''B'' t) = map row_content [sample_row ''q0'' ''B'' 0]
        @ map row_content [sample_row ''r2'' ''A'' 2, sample_row ''r0'' ''A'' 0]"
    and l: "list_sheet_row_ids ''A'' t = filter (\<lambda>x. x \<notin> r_id ` set [sample_row ''r2'' ''A'' 2,
        sample_row ''r0'' ''A'' 0]) [''r0'', ''r1'', ''r2'']"
    by (elim exE conjE) (rule that; assumption)
  have "map r_display_id (rows_in_order ''B'' t)
      = map r_display_id [sample_row ''q0'' ''B'' 0, sample_row ''r2'' ''A'' 2, sample_row ''r0'' ''A'' 0]"
    by (rule display_ids_of_content) (simp only: c list.map append.simps)
  then have "map r_display_id (rows_in_order ''B'' t) = [''q0'', ''r2'', ''r0'']"
    by (simp add: sample_row_def)
  moreover have "list_sheet_row_ids ''A'' t = [''r1'']" unfolding l by (simp add: sample_row_def)
  ultimately show ?thesis using t by (intro exI conjI)
qed

end
