(* ===== verification/TrackingIds.thy ===== *)
theory TrackingIds
  imports StoreTypes
begin

text \<open>
  Identifiers a user enters: splitting and deduplicating a pasted list
  (\<open>parse_import_ids\<close> of \<open>imports.rs\<close>), the limits on an import request
  (\<open>validate_import_source_ids\<close>, \<open>dedupe_non_empty\<close>, \<open>extend_unique_bounded\<close> of
  \<open>import_engine.rs\<close>), and the lookup id behind a displayed tracking id
  (\<open>resolve_tracking_id\<close> of \<open>tracking.rs\<close>).
\<close>

subsection \<open>Lookup ids\<close>

datatype tracking_id_resolution = Exact | Stripped_Numeric_Suffix

record resolved_tracking_id =
  rti_display_id :: string
  rti_lookup_id :: string
  rti_resolution :: tracking_id_resolution

definition stripped_lookup_id :: "string \<Rightarrow> string option" where
  "stripped_lookup_id display_id =
     (case rsplit_once CHR ''.'' display_id of
        None \<Rightarrow> None
      | Some (base, suffix) \<Rightarrow>
          if base \<noteq> [] \<and> suffix \<noteq> [] \<and> list_all is_ascii_digit suffix then Some base else None)"

definition resolve_tracking_id :: "string \<Rightarrow> resolved_tracking_id" where
  "resolve_tracking_id raw =
     (let display_id = trim raw
      in case stripped_lookup_id display_id of
           Some lookup_id \<Rightarrow> \<lparr>rti_display_id = display_id, rti_lookup_id = lookup_id,
                              rti_resolution = Stripped_Numeric_Suffix\<rparr>
         | None \<Rightarrow> \<lparr>rti_display_id = display_id, rti_lookup_id = display_id, rti_resolution = Exact\<rparr>)"

subsection \<open>Import ids\<close>

abbreviation "max_import_source_ids \<equiv> (10000 :: nat)"
abbreviation "max_import_job_items \<equiv> (100000 :: nat)"
abbreviation "max_import_source_id_bytes \<equiv> (64 :: nat)"
abbreviation "max_import_request_bytes \<equiv> (1048576 :: nat)"

datatype import_engine_error =
    Store_Error store_error
  | Missing_Job string
  | Json_Error
  | Blob_Error
  | Invalid_Input string

definition is_separator :: "string \<Rightarrow> bool" where
  "is_separator ch \<longleftrightarrow> is_whitespace ch \<or> ch = '','' \<or> ch = '';''"

definition parse_import_ids :: "string \<Rightarrow> string list" where
  "parse_import_ids value =
     dedupe_from {} (filter (\<lambda>item. item \<noteq> [])
       (map trim (map concat (split_on is_separator (chars value)))))"

definition dedupe_non_empty :: "string list \<Rightarrow> string list" where
  "dedupe_non_empty values = dedupe_from {} (filter (\<lambda>value. value \<noteq> []) (map trim values))"

text \<open>\<open>char::is_control\<close>: the scalar values 0 to 31 and 127 to 159.\<close>

definition is_control :: "string \<Rightarrow> bool" where
  "is_control ch \<longleftrightarrow>
     (case ch of
        [a] \<Rightarrow> byte a < 32 \<or> byte a = 127
      | [a, b] \<Rightarrow> byte a = 194 \<and> 128 \<le> byte b \<and> byte b \<le> 159
      | _ \<Rightarrow> False)"

text \<open>The loop over the ids; \<open>total_bytes\<close> is a \<open>usize\<close>, 64 bits wide.\<close>

fun check_source_ids :: "nat \<Rightarrow> string list \<Rightarrow> import_engine_error + unit" where
  "check_source_ids total_bytes [] = Inr ()"
| "check_source_ids total_bytes (raw # ids) =
     (let trimmed_id = trim raw
      in if max_import_source_id_bytes < length trimmed_id
         then Inl (Invalid_Input ''Import source ID exceeds 64 bytes.'')
         else if list_ex is_control (chars trimmed_id)
         then Inl (Invalid_Input ''Import source ID contains control characters.'')
         else let total_bytes = saturating_add u64_max total_bytes (length trimmed_id)
              in if max_import_request_bytes < total_bytes
                 then Inl (Invalid_Input ''Import request exceeds 1048576 bytes.'')
                 else check_source_ids total_bytes ids)"

definition validate_import_source_ids :: "string list \<Rightarrow> import_engine_error + string list" where
  "validate_import_source_ids ids =
     (if max_import_source_ids < length ids
      then Inl (Invalid_Input ''Import request exceeds 10000 source IDs.'')
      else and_then (check_source_ids 0 ids)
        (\<lambda>_. let source_ids = dedupe_non_empty ids
             in if max_import_source_ids < length source_ids
                then Inl (Invalid_Input ''Import request exceeds 10000 unique source IDs.'')
                else Inr source_ids))"

fun extend_loop :: "string set \<Rightarrow> string list \<Rightarrow> string list \<Rightarrow> import_engine_error + string list" where
  "extend_loop seen target [] = Inr target"
| "extend_loop seen target (v # vs) =
     (if v \<in> seen then extend_loop seen target vs
      else if max_import_job_items \<le> length target
      then Inl (Invalid_Input ''Import preview exceeds 100000 unique items.'')
      else extend_loop (insert v seen) (target @ [v]) vs)"

definition extend_unique_bounded :: "string list \<Rightarrow> string list \<Rightarrow> import_engine_error + string list" where
  "extend_unique_bounded target values = extend_loop (set target) target values"

subsection \<open>Resolution\<close>

lemma stripped_lookup_id_iff:
  "stripped_lookup_id d = Some base \<longleftrightarrow>
     (\<exists>suffix. d = base @ ''.'' @ suffix \<and> base \<noteq> [] \<and> suffix \<noteq> [] \<and> list_all is_ascii_digit suffix)"
proof
  assume "stripped_lookup_id d = Some base"
  then obtain suffix where "rsplit_once CHR ''.'' d = Some (base, suffix)"
    "base \<noteq> []" "suffix \<noteq> []" "list_all is_ascii_digit suffix"
    by (auto simp: stripped_lookup_id_def split: option.splits if_splits)
  then show "\<exists>suffix. d = base @ ''.'' @ suffix \<and> base \<noteq> [] \<and> suffix \<noteq> [] \<and> list_all is_ascii_digit suffix"
    using rsplit_once_SomeD by fastforce
next
  assume "\<exists>suffix. d = base @ ''.'' @ suffix \<and> base \<noteq> [] \<and> suffix \<noteq> [] \<and> list_all is_ascii_digit suffix"
  then obtain suffix where d: "d = base @ CHR ''.'' # suffix" "base \<noteq> []" "suffix \<noteq> []"
    "list_all is_ascii_digit suffix" by auto
  then have "CHR ''.'' \<notin> set suffix" by (auto simp: list_all_iff is_ascii_digit_def)
  with d show "stripped_lookup_id d = Some base"
    by (simp add: stripped_lookup_id_def rsplit_once_eq)
qed

text \<open>
  Resolving a tracking id keeps the trimmed input as display id, and strips
  exactly a final dot with decimal digits from it for the lookup: the lookup id
  differs from the display id only by such a suffix, it is empty only when the
  input is blank, and resolving the display id again gives the same result.
\<close>

theorem resolve_tracking_id_spec:
  "rti_display_id (resolve_tracking_id raw) = trim raw
   \<and> (rti_resolution (resolve_tracking_id raw) = Stripped_Numeric_Suffix \<longleftrightarrow>
        (\<exists>base suffix. trim raw = base @ ''.'' @ suffix \<and> base \<noteq> [] \<and> suffix \<noteq> [] \<and> list_all is_ascii_digit suffix))
   \<and> (rti_lookup_id (resolve_tracking_id raw) = trim raw
      \<or> (\<exists>suffix. trim raw = rti_lookup_id (resolve_tracking_id raw) @ ''.'' @ suffix
           \<and> suffix \<noteq> [] \<and> list_all is_ascii_digit suffix))
   \<and> (rti_lookup_id (resolve_tracking_id raw) = [] \<longleftrightarrow> trim raw = [])
   \<and> resolve_tracking_id (rti_display_id (resolve_tracking_id raw)) = resolve_tracking_id raw"
proof (cases "stripped_lookup_id (trim raw)")
  case None
  then show ?thesis
    using stripped_lookup_id_iff [of "trim raw"] by (auto simp: resolve_tracking_id_def Let_def)
next
  case (Some base)
  then show ?thesis
    using stripped_lookup_id_iff [of "trim raw" base] by (auto simp: resolve_tracking_id_def Let_def)
qed

subsection \<open>Lists of ids\<close>

lemma dedupe_non_empty_id:
  assumes "distinct ids" "\<forall>x \<in> set ids. x \<noteq> [] \<and> trim x = x"
  shows "dedupe_non_empty ids = ids"
proof -
  have "map trim ids = ids" using assms(2) by (intro map_idI) simp
  moreover have "filter (\<lambda>v. v \<noteq> []) ids = ids" using assms(2) by (intro filter_True) simp
  ultimately show ?thesis using assms(1) by (simp add: dedupe_non_empty_def dedupe_from_id)
qed

lemma set_dedupe_non_empty: "set (dedupe_non_empty ids) = trim ` set ids - {[]}"
  by (auto simp: dedupe_non_empty_def set_dedupe_from)

lemma distinct_dedupe_non_empty: "distinct (dedupe_non_empty ids)"
  by (simp add: dedupe_non_empty_def distinct_dedupe_from)

lemma length_dedupe_non_empty: "length (dedupe_non_empty ids) \<le> length ids"
  unfolding dedupe_non_empty_def
  by (rule order_trans [OF length_dedupe_from]) (metis length_filter_le length_map)

lemma dedupe_non_empty_idem: "dedupe_non_empty (dedupe_non_empty ids) = dedupe_non_empty ids"
  by (rule dedupe_non_empty_id [OF distinct_dedupe_non_empty]) (auto simp: set_dedupe_non_empty)

text \<open>The exact condition under which the id loop accepts.\<close>

definition acceptable_id :: "string \<Rightarrow> bool" where
  "acceptable_id raw \<longleftrightarrow> length (trim raw) \<le> max_import_source_id_bytes
     \<and> \<not> list_ex is_control (chars (trim raw))"

lemma check_source_ids_iff:
  assumes "used \<le> max_import_request_bytes"
  shows "check_source_ids used ids = Inr () \<longleftrightarrow>
    list_all acceptable_id ids \<and> used + sum_list (map (\<lambda>x. length (trim x)) ids) \<le> max_import_request_bytes"
  using assms
proof (induction ids arbitrary: used)
  case (Cons raw ids)
  show ?case
  proof (cases "acceptable_id raw \<and> used + length (trim raw) \<le> max_import_request_bytes")
    case True
    then have "saturating_add u64_max used (length (trim raw)) = used + length (trim raw)"
      by (simp add: saturating_add_exact)
    with True Cons.IH [of "used + length (trim raw)"] show ?thesis
      by (auto simp: acceptable_id_def Let_def)
  next
    case False
    then have "check_source_ids used (raw # ids) \<noteq> Inr ()"
      using Cons.prems by (auto simp: acceptable_id_def Let_def saturating_add_def)
    with False show ?thesis by auto
  qed
qed simp

text \<open>
  Validation of an import request accepts exactly the requests of at most
  10000 ids whose trimmed ids have at most 64 bytes each and no control
  character, and 1 MiB together.  It then returns the trimmed ids, each once, in
  the order of first occurrence and without blanks; validating that list again
  returns it unchanged.
\<close>

theorem validate_import_source_ids_spec:
  "(case validate_import_source_ids ids of
      Inl _ \<Rightarrow> max_import_source_ids < length ids \<or> \<not> list_all acceptable_id ids
        \<or> max_import_request_bytes < sum_list (map (\<lambda>x. length (trim x)) ids)
    | Inr result \<Rightarrow> length ids \<le> max_import_source_ids \<and> list_all acceptable_id ids
        \<and> sum_list (map (\<lambda>x. length (trim x)) ids) \<le> max_import_request_bytes
        \<and> distinct result \<and> set result = trim ` set ids - {[]} \<and> length result \<le> length ids
        \<and> validate_import_source_ids result = Inr result)"
proof -
  let ?bytes = "\<lambda>xs. sum_list (map (\<lambda>x. length (trim x)) xs)"
  have check: "check_source_ids 0 xs = Inr () \<longleftrightarrow> list_all acceptable_id xs \<and> ?bytes xs \<le> max_import_request_bytes" for xs
    using check_source_ids_iff [of 0 xs] by simp
  have error: "check_source_ids 0 xs \<noteq> Inr () \<Longrightarrow> \<exists>e. check_source_ids 0 xs = Inl e" for xs
    by (cases "check_source_ids 0 xs") auto
  let ?result = "dedupe_non_empty ids"
  show ?thesis
  proof (cases "length ids \<le> max_import_source_ids \<and> list_all acceptable_id ids \<and> ?bytes ids \<le> max_import_request_bytes")
    case False
    then have "\<exists>e. validate_import_source_ids ids = Inl e"
      using check [of ids] error [of ids] by (auto simp: validate_import_source_ids_def)
    with False show ?thesis by auto
  next
    case True
    then have ok: "validate_import_source_ids ids = Inr ?result"
      using check [of ids] length_dedupe_non_empty [of ids] by (simp add: validate_import_source_ids_def)
    have "list_all acceptable_id ?result"
      using True by (auto simp: list_all_iff set_dedupe_non_empty acceptable_id_def)
    moreover have "?bytes ?result \<le> ?bytes ids"
    proof -
      have le: "sum_list (map length (dedupe_from seen (filter (\<lambda>v. v \<noteq> []) xs))) \<le> sum_list (map length xs)" for seen and xs :: "string list"
        by (induction xs arbitrary: seen) (auto intro: trans_le_add2 add_mono)
      have eq: "map (\<lambda>x. length (trim x)) ?result = map length ?result"
        by (rule map_cong) (auto simp: set_dedupe_non_empty)
      show ?thesis
        unfolding eq using le [of "{}" "map trim ids"] by (simp add: dedupe_non_empty_def comp_def)
    qed
    ultimately have "validate_import_source_ids ?result = Inr ?result"
      using True check [of ?result] length_dedupe_non_empty [of ids]
      by (simp add: validate_import_source_ids_def dedupe_non_empty_idem)
    with True ok show ?thesis
      by (simp add: distinct_dedupe_non_empty set_dedupe_non_empty length_dedupe_non_empty)
  qed
qed

theorem validate_import_source_ids_spec_witness:
  "\<exists>result. validate_import_source_ids ['' P1 '', ''P2'', ''P1''] = Inr result
     \<and> set result = {''P1'', ''P2''} \<and> distinct result"
proof -
  have "trim '' P1 '' = ''P1''" "trim ''P2'' = ''P2''" "trim ''P1'' = ''P1''" by code_simp+
  moreover from this have "list_all acceptable_id ['' P1 '', ''P2'', ''P1'']"
    by (simp add: acceptable_id_def is_control_def utf8_len_def)
  ultimately show ?thesis
    using validate_import_source_ids_spec [of "['' P1 '', ''P2'', ''P1'']"]
    by (auto split: sum.splits)
qed

lemma split_on_separated:
  assumes "\<forall>x \<in> set w. \<not> p x"
  shows "split_on p w = [w]" "p x \<Longrightarrow> split_on p (w @ x # xs) = w # split_on p xs"
  using assms by (induction w) auto

text \<open>A list of ids joined with commas.\<close>

fun joined :: "string list \<Rightarrow> string" where
  "joined [] = []"
| "joined [x] = x"
| "joined (x # y # ys) = x @ '','' @ joined (y # ys)"

definition plain_id :: "string \<Rightarrow> bool" where
  "plain_id x \<longleftrightarrow> x \<noteq> [] \<and> (\<forall>c \<in> set x. 32 < byte c \<and> byte c < 128 \<and> c \<noteq> CHR '','' \<and> c \<noteq> CHR '';'')"

lemma joined_ascii: "\<forall>x \<in> set ids. plain_id x \<Longrightarrow> list_all (\<lambda>c. byte c < 128) (joined ids)"
  by (induction ids rule: joined.induct) (auto simp: list_all_iff plain_id_def)

lemma split_joined:
  assumes "\<forall>x \<in> set ids. plain_id x" "ids \<noteq> []"
  shows "split_on (\<lambda>c. is_separator [c]) (joined ids) = ids"
proof -
  have plain: "\<forall>c \<in> set x. \<not> is_separator [c]" if "plain_id x" for x
    using that not_whitespace_ascii by (auto simp: plain_id_def is_separator_def)
  have comma: "is_separator '',''" by (simp add: is_separator_def)
  from assms show ?thesis
  proof (induction ids rule: joined.induct)
    case (2 x)
    then show ?case using split_on_separated(1) [OF plain] by simp
  next
    case (3 x y ys)
    then have "plain_id x" by simp
    from split_on_separated(2) [OF plain [OF this], of "CHR '',''"] comma 3 show ?case by simp
  qed simp
qed

lemma split_on_map: "split_on p (map f xs) = map (map f) (split_on (p \<circ> f) xs)"
  by (induction xs) (auto split: list.splits)

text \<open>
  The ids parsed from a pasted text are distinct, not empty and carry no
  surrounding whitespace, and a list of distinct printable ids without commas
  and semicolons is recovered from its comma-separated form.
\<close>

theorem parse_import_ids_roundtrip:
  "distinct (parse_import_ids value) \<and> [] \<notin> set (parse_import_ids value)
   \<and> (\<forall>x \<in> set (parse_import_ids value). trim x = x)
   \<and> (list_all plain_id ids \<and> distinct ids \<longrightarrow> parse_import_ids (joined ids) = ids)"
proof -
  have "parse_import_ids (joined ids) = ids" if ids: "\<forall>x \<in> set ids. plain_id x" "distinct ids"
  proof (cases "ids = []")
    case True
    then show ?thesis by (simp add: parse_import_ids_def)
  next
    case False
    have tr: "trim x = x" if "x \<in> set ids" for x
      using ids(1) that by (intro trim_id trimmed_ascii) (auto simp: plain_id_def)
    have "chars (joined ids) = map (\<lambda>c. [c]) (joined ids)"
      by (rule chars_ascii [OF joined_ascii [OF ids(1)]])
    then have "map concat (split_on is_separator (chars (joined ids)))
        = split_on (\<lambda>c. is_separator [c]) (joined ids)"
      by (simp add: split_on_map comp_def concat_map_singleton)
    also have "\<dots> = ids" by (rule split_joined [OF ids(1) False])
    finally have "map concat (split_on is_separator (chars (joined ids))) = ids" .
    moreover have "map trim ids = ids" using tr by (intro map_idI) simp
    moreover have "filter (\<lambda>x. x \<noteq> []) ids = ids" using ids(1) by (intro filter_True) (simp add: plain_id_def)
    ultimately show ?thesis using ids(2) by (simp add: parse_import_ids_def dedupe_from_id)
  qed
  then show ?thesis
    by (auto simp: parse_import_ids_def distinct_dedupe_from set_dedupe_from list_all_iff)
qed

theorem parse_import_ids_roundtrip_witness:
  "parse_import_ids ''PID1,PID2'' = [''PID1'', ''PID2'']"
proof -
  have "list_all plain_id [''PID1'', ''PID2''] \<and> distinct [''PID1'', ''PID2'']"
    by (simp add: plain_id_def)
  with parse_import_ids_roundtrip [of "[]" "[''PID1'', ''PID2'']"] show ?thesis by simp
qed

end
