(* ===== verification/ImportEngine.thy ===== *)
theory ImportEngine
  imports StoreProperties SheetProperties TrackingIds
begin

text \<open>
  The import engine (\<open>import_engine.rs\<close>): creating a job from a list of ids, and
  running it by claiming one item after the other, looking it up, and finishing
  the attempt with its outcome.  The lookup source and the raw-response blobs
  are parameters: the answer of the \<open>k\<close>-th lookup of a run is given by a function
  of \<open>k\<close>, \<open>None\<close> standing for an answer that does not arrive within the timeout.
\<close>

subsection \<open>Inputs, sources, events\<close>

record create_import_job_plan =
  cp_job_id :: string
  cp_sheet_id :: string
  cp_kind :: import_kind
  cp_ids :: "string list"
  cp_mode :: import_mode

text \<open>
  A response is the list of the fields the engine reads: \<open>no_resi\<close> of the bag
  items, \<open>nomor_kantung\<close> of the manifest items.
\<close>

type_synonym bag_response = "string option list"
type_synonym manifest_response = "string option list"

record lookup_source =
  fetch_bag :: "nat \<Rightarrow> string \<Rightarrow> (string + bag_response) option"
  fetch_manifest :: "nat \<Rightarrow> string \<Rightarrow> (string + manifest_response) option"
  store_raw_response_blob :: "nat \<Rightarrow> import_engine_error + string option"

record import_job_item_delta =
  id_item_id :: string
  id_source_item_id :: string
  id_source_item_kind :: import_source_item_kind
  id_status :: import_job_item_status
  id_tracking_ids :: "string list"
  id_sheet_row_ids :: "string list"
  id_error_message :: "string option"

record import_job_progress_event =
  pe_summary :: import_job_summary
  pe_item_deltas :: "import_job_item_delta list"

definition delta_of_item :: "import_job_item \<Rightarrow> import_job_item_delta" where
  "delta_of_item i =
     \<lparr>id_item_id = ji_item_id i, id_source_item_id = ji_source_item_id i,
      id_source_item_kind = ji_source_item_kind i, id_status = ji_status i,
      id_tracking_ids = ji_tracking_ids i, id_sheet_row_ids = ji_sheet_row_ids i,
      id_error_message = ji_error_message i\<rparr>"

definition event_from_job_detail ::
  "import_job_detail \<Rightarrow> import_job_item_delta list \<Rightarrow> import_job_progress_event" where
  "event_from_job_detail detail deltas =
     \<lparr>pe_summary = jd_summary detail, pe_item_deltas = deltas\<rparr>"

type_synonym 'a engine_op = "store \<Rightarrow> (import_engine_error + 'a) \<times> store"

text \<open>A store operation used with the question-mark operator.\<close>

definition store_call :: "(store_error + 'a) \<times> store \<Rightarrow> (import_engine_error + 'a) \<times> store" where
  "store_call rs = (case rs of (Inl e, t) \<Rightarrow> (Inl (Store_Error e), t) | (Inr v, t) \<Rightarrow> (Inr v, t))"

definition import_lookup_timeout_message :: string where
  "import_lookup_timeout_message = ''Timeout ambil data setelah 125 detik.''"

definition fetch_bag_with_timeout :: "lookup_source \<Rightarrow> nat \<Rightarrow> string \<Rightarrow> string + bag_response" where
  "fetch_bag_with_timeout src k bag_id =
     (case fetch_bag src k bag_id of None \<Rightarrow> Inl import_lookup_timeout_message | Some r \<Rightarrow> r)"

definition fetch_manifest_with_timeout :: "lookup_source \<Rightarrow> nat \<Rightarrow> string \<Rightarrow> string + manifest_response" where
  "fetch_manifest_with_timeout src k manifest_id =
     (case fetch_manifest src k manifest_id of None \<Rightarrow> Inl import_lookup_timeout_message | Some r \<Rightarrow> r)"

text \<open>\<open>filter_map\<close> over the optional fields, then \<open>dedupe_non_empty\<close>.\<close>

definition response_ids :: "string option list \<Rightarrow> string list" where
  "response_ids values = dedupe_non_empty (map the (filter (\<lambda>v. v \<noteq> None) values))"

subsection \<open>Creating a job\<close>

definition source_item_id_of :: "string \<Rightarrow> nat \<Rightarrow> string" where
  "source_item_id_of jid p = jid @ '':source:'' @ show_nat p"

definition create_job :: "env \<Rightarrow> create_import_job_plan \<Rightarrow> import_job_detail engine_op" where
  "create_job env plan s =
     (case validate_import_source_ids (cp_ids plan) of
        Inl e \<Rightarrow> (Inl e, s)
      | Inr source_ids \<Rightarrow>
          let job_input = \<lparr>cj_job_id = cp_job_id plan, cj_sheet_id = cp_sheet_id plan,
                cj_kind = cp_kind plan, cj_mode = cp_mode plan,
                cj_total_count = as_u32 (length source_ids)\<rparr>;
              new_items = map (\<lambda>(position, source_id).
                \<lparr>ci_item_id = source_item_id_of (cp_job_id plan) position, ci_job_id = cp_job_id plan,
                 ci_source_item_id = source_id,
                 ci_source_item_kind = (case cp_kind plan of Kind_Bag \<Rightarrow> Src_Bag | Kind_Manifest \<Rightarrow> Src_Manifest),
                 ci_position = as_u32 position\<rparr>) (enumerate 0 source_ids)
          in case store_call (create_import_job_with_items env job_input new_items s) of
               (Inl e, t) \<Rightarrow> (Inl e, t)
             | (Inr _, t) \<Rightarrow> (ok_or (Missing_Job (cp_job_id plan)) (get_import_job (cp_job_id plan) t), t))"

subsection \<open>Running an item\<close>

definition failed_attempt :: "string \<Rightarrow> string \<Rightarrow> finish_import_attempt_input" where
  "failed_attempt attempt_id message =
     \<lparr>fa_attempt_id = attempt_id, fa_status = Attempt_Failed, fa_tracking_ids = [],
      fa_error_message = Some message, fa_raw_blob_id = None\<rparr>"

definition succeeded_attempt :: "string \<Rightarrow> string list \<Rightarrow> string option \<Rightarrow> finish_import_attempt_input" where
  "succeeded_attempt attempt_id tracking_ids raw_blob_id =
     \<lparr>fa_attempt_id = attempt_id, fa_status = Attempt_Succeeded, fa_tracking_ids = tracking_ids,
      fa_error_message = None, fa_raw_blob_id = raw_blob_id\<rparr>"

definition manifest_bag_item_id :: "string \<Rightarrow> nat \<Rightarrow> string" where
  "manifest_bag_item_id jid p = jid @ '':manifest-bag:'' @ show_nat p"

definition manifest_bag_items :: "string \<Rightarrow> nat \<Rightarrow> string list \<Rightarrow> create_import_job_item_input list" where
  "manifest_bag_items jid first_position bag_ids =
     map (\<lambda>(offset, bag_id).
       let position = as_u32 (first_position + as_u32 offset)
       in \<lparr>ci_item_id = manifest_bag_item_id jid position, ci_job_id = jid,
           ci_source_item_id = bag_id, ci_source_item_kind = Src_ManifestBag,
           ci_position = position\<rparr>) (enumerate 0 bag_ids)"

definition run_manifest_item ::
  "env \<Rightarrow> lookup_source \<Rightarrow> nat \<Rightarrow> string \<Rightarrow> import_job_item \<Rightarrow> string \<Rightarrow> unit engine_op" where
  "run_manifest_item env src k jid item attempt_id s =
     (case fetch_manifest_with_timeout src k (ji_source_item_id item) of
        Inr response \<Rightarrow>
          let bag_ids = response_ids response
          in (case get_import_job jid s of
                None \<Rightarrow> (Inl (Missing_Job jid), s)
              | Some detail \<Rightarrow>
                  if max_import_job_items < saturating_add u64_max (length (jd_items detail)) (length bag_ids)
                  then store_call (finish_import_attempt env
                         (failed_attempt attempt_id ''Import job exceeds 100000 items.'') s)
                  else (case store_raw_response_blob src k of
                          Inl e \<Rightarrow> (Inl e, s)
                        | Inr raw_blob_id \<Rightarrow>
                            (case store_call (finish_manifest_import_attempt_with_items env
                               (succeeded_attempt attempt_id bag_ids raw_blob_id)
                               (manifest_bag_items jid (next_import_job_item_position jid s) bag_ids) s)
                             of (Inl e, t) \<Rightarrow> (Inl e, t) | (Inr _, t) \<Rightarrow> (Inr (), t))))
      | Inl message \<Rightarrow> store_call (finish_import_attempt env (failed_attempt attempt_id message) s))"

text \<open>
  The rows of a bag: an id already on the sheet keeps its row, every other id
  gets a generated row at the next position.  The id search always succeeds
  (\<open>generated_row_id_total\<close>); the model reports an exhausted search as an error.
\<close>

fun plan_rows ::
  "store \<Rightarrow> string \<Rightarrow> nat \<Rightarrow> string list
   \<Rightarrow> import_engine_error + (upsert_sheet_row_input list \<times> string list)" where
  "plan_rows s sheet_id position [] = Inr ([], [])"
| "plan_rows s sheet_id position (display # ids) =
     (case sheet_row_id_for_display_tracking_id sheet_id display s of
        Some existing_row_id \<Rightarrow>
          and_then (plan_rows s sheet_id position ids)
            (\<lambda>(new_rows, row_ids). Inr (new_rows, existing_row_id # row_ids))
      | None \<Rightarrow>
          let resolved = resolve_tracking_id display
          in case next_available_generated_sheet_row_id s sheet_id position of
               None \<Rightarrow> Inl (Store_Error (Invalid_Value ''sheet_row_id'' sheet_id))
             | Some row_id \<Rightarrow>
                 and_then (plan_rows s sheet_id (as_u32 (position + 1)) ids)
                   (\<lambda>(new_rows, row_ids). Inr
                     (\<lparr>ur_row_id = row_id, ur_sheet_id = sheet_id, ur_position = position,
                       ur_display_id = rti_display_id resolved, ur_lookup_id = rti_lookup_id resolved,
                       ur_status = Row_Loaded, ur_error_message = None\<rparr> # new_rows,
                      row_id # row_ids)))"

definition plan_unique_sheet_rows ::
  "store \<Rightarrow> string \<Rightarrow> string list \<Rightarrow> import_engine_error + (upsert_sheet_row_input list \<times> string list)" where
  "plan_unique_sheet_rows s sheet_id ids = plan_rows s sheet_id (next_sheet_row_position sheet_id s) ids"

definition run_bag_item ::
  "env \<Rightarrow> lookup_source \<Rightarrow> nat \<Rightarrow> string \<Rightarrow> import_job_item \<Rightarrow> string \<Rightarrow> unit engine_op" where
  "run_bag_item env src k sheet_id item attempt_id s =
     (case fetch_bag_with_timeout src k (ji_source_item_id item) of
        Inr response \<Rightarrow>
          let shipment_ids = response_ids response
          in (case store_raw_response_blob src k of
                Inl e \<Rightarrow> (Inl e, s)
              | Inr raw_blob_id \<Rightarrow>
                  (case plan_unique_sheet_rows s sheet_id shipment_ids of
                     Inl e \<Rightarrow> (Inl e, s)
                   | Inr (new_rows, sheet_row_ids) \<Rightarrow>
                       (case store_call (finish_bag_import_attempt_with_sheet_rows env
                          (succeeded_attempt attempt_id shipment_ids raw_blob_id)
                          (ji_item_id item) new_rows sheet_row_ids s)
                        of (Inl e, t) \<Rightarrow> (Inl e, t) | (Inr _, t) \<Rightarrow> (Inr (), t))))
      | Inl message \<Rightarrow> store_call (finish_import_attempt env (failed_attempt attempt_id message) s))"

definition attempt_id_of :: "import_job_item \<Rightarrow> string" where
  "attempt_id_of item = ji_item_id item @ '':attempt:'' @ show_nat (ji_attempt_count item + 1)"

definition run_job_item ::
  "env \<Rightarrow> lookup_source \<Rightarrow> nat \<Rightarrow> string \<Rightarrow> string \<Rightarrow> import_job_item \<Rightarrow> unit engine_op" where
  "run_job_item env src k jid sheet_id item s =
     (case store_call (start_import_attempt env
         \<lparr>sa_attempt_id = attempt_id_of item, sa_item_id = ji_item_id item, sa_raw_blob_id = None\<rparr> s)
      of (Inl e, t) \<Rightarrow> (Inl e, t)
       | (Inr _, t) \<Rightarrow>
           (case ji_source_item_kind item of
              Src_Manifest \<Rightarrow> run_manifest_item env src k jid item (attempt_id_of item) t
            | Src_Bag \<Rightarrow> run_bag_item env src k sheet_id item (attempt_id_of item) t
            | Src_ManifestBag \<Rightarrow> run_bag_item env src k sheet_id item (attempt_id_of item) t))"

subsection \<open>Running a job\<close>

text \<open>
  One turn of the loop: \<open>Inl\<close> ends the run with its result, \<open>Inr\<close> goes on.  The
  state is the number of lookups made, the events sent, and the store.
\<close>

type_synonym run_state = "nat \<times> import_job_progress_event list \<times> store"

definition run_turn ::
  "(nat \<Rightarrow> env) \<Rightarrow> lookup_source \<Rightarrow> string \<Rightarrow> string \<Rightarrow> run_state
   \<Rightarrow> (import_engine_error + unit) \<times> run_state + run_state" where
  "run_turn envs src jid sheet_id = (\<lambda>(k, events, s).
     case store_call (claim_next_pending_import_job_item (envs k) jid s) of
       (Inl e, t) \<Rightarrow> Inl (Inl e, k, events, t)
     | (Inr None, t) \<Rightarrow> Inl (Inr (), k, events, t)
     | (Inr (Some item), t) \<Rightarrow>
         (case run_job_item (envs k) src k jid sheet_id item t of
            (Inl e, u) \<Rightarrow> Inl (Inl e, k, events, u)
          | (Inr _, u) \<Rightarrow>
              (case get_import_job jid u of
                 None \<Rightarrow> Inl (Inl (Missing_Job jid), k, events, u)
               | Some detail \<Rightarrow>
                   let deltas = (case find (\<lambda>c. ji_item_id c = ji_item_id item) (jd_items detail) of
                                   None \<Rightarrow> [] | Some c \<Rightarrow> [delta_of_item c])
                   in Inr (Suc k, events @ [event_from_job_detail detail deltas], u))))"

text \<open>The loop may in principle run forever: \<open>None\<close> is a run that never returns.\<close>

partial_function (option) run_loop ::
  "(nat \<Rightarrow> env) \<Rightarrow> lookup_source \<Rightarrow> string \<Rightarrow> string \<Rightarrow> run_state
   \<Rightarrow> ((import_engine_error + unit) \<times> run_state) option" where
  "run_loop envs src jid sheet_id st =
     (case run_turn envs src jid sheet_id st of
        Inl result \<Rightarrow> Some result
      | Inr next_st \<Rightarrow> run_loop envs src jid sheet_id next_st)"

definition run_job_with_progress ::
  "(nat \<Rightarrow> env) \<Rightarrow> lookup_source \<Rightarrow> string \<Rightarrow> store
   \<Rightarrow> ((import_engine_error + import_job_detail) \<times> import_job_progress_event list \<times> store) option" where
  "run_job_with_progress envs src jid s =
     (case get_import_job jid s of
        None \<Rightarrow> Some (Inl (Missing_Job jid), [], s)
      | Some detail \<Rightarrow>
          (case run_loop envs src jid (js_sheet_id (jd_summary detail))
                  (0, [event_from_job_detail detail []], s)
           of None \<Rightarrow> None
            | Some (Inl e, _, events, t) \<Rightarrow> Some (Inl e, events, t)
            | Some (Inr _, _, events, t) \<Rightarrow>
                Some (ok_or (Missing_Job jid) (get_import_job jid t), events, t)))"

definition retry_failed_and_run_with_progress ::
  "env \<Rightarrow> (nat \<Rightarrow> env) \<Rightarrow> lookup_source \<Rightarrow> string \<Rightarrow> nat \<Rightarrow> store
   \<Rightarrow> ((import_engine_error + import_job_detail) \<times> import_job_progress_event list \<times> store) option" where
  "retry_failed_and_run_with_progress env envs src jid max_attempts s =
     (case store_call (retry_import_job_failed env jid max_attempts s) of
        (Inl e, t) \<Rightarrow> Some (Inl e, [], t)
      | (Inr _, t) \<Rightarrow> run_job_with_progress envs src jid t)"

subsection \<open>What a run does to the items\<close>

text \<open>The job, the kind and whether it is pending, of every item.\<close>

definition pend_frame :: "store \<Rightarrow> (string \<times> import_source_item_kind \<times> bool) list" where
  "pend_frame s = map (\<lambda>i. (i_job_id i, i_source_item_kind i, i_status i = Item_Pending)) (items s)"

lemma pend_frame_cong: "items t = items s \<Longrightarrow> pend_frame t = pend_frame s"
  by (simp add: pend_frame_def)

lemma pend_frame_update:
  assumes "\<And>i. p i \<Longrightarrow> i_status i \<noteq> Item_Pending" "\<And>i. i_status (f i) \<noteq> Item_Pending"
    and "\<And>i. i_job_id (f i) = i_job_id i" "\<And>i. i_source_item_kind (f i) = i_source_item_kind i"
  shows "map (\<lambda>i. (i_job_id i, i_source_item_kind i, i_status i = Item_Pending)) (update_where p f is)
       = map (\<lambda>i. (i_job_id i, i_source_item_kind i, i_status i = Item_Pending)) is"
  using assms by (induction "is") auto

lemma attempt_status_not_pending: "item_status_for_attempt_status st \<noteq> Item_Pending"
  by (cases st) simp_all

lemma pend_frame_start:
  assumes "start_import_attempt env input s = (r, t)"
  shows "pend_frame t = pend_frame s"
  using assms
proof (cases rule: start_cases)
  case (started i j)
  show ?thesis
    unfolding pend_frame_def recompute_frame(1) [OF started(6)]
    by (simp, rule pend_frame_update) (simp_all add: started_item_def)
qed simp

lemma pend_frame_finish_store:
  assumes "recompute_import_job_counts_on env jid (finish_store env input iid s) = Inr t"
  shows "pend_frame t = pend_frame s"
  unfolding pend_frame_def recompute_frame(1) [OF assms] finish_store_def
  by (simp, rule pend_frame_update) (simp_all add: finished_item_def attempt_status_not_pending)

lemma pend_frame_finish:
  assumes "finish_import_attempt env input s = (r, t)"
  shows "pend_frame t = pend_frame s"
proof -
  obtain r' where run: "finish_running_import_attempt_on env input s = r'" by blast
  then show ?thesis
  proof (cases rule: finish_running_cases)
    case (finished a i j u)
    with pend_frame_finish_store [OF finished(2)] run assms show ?thesis
      by (simp add: finish_import_attempt_def in_transaction_def)
  qed (use assms run in \<open>auto simp: finish_import_attempt_def in_transaction_def\<close>)
qed

lemma pend_frame_finish_bag:
  assumes "finish_bag_import_attempt_with_sheet_rows env input iid new_rows row_ids s = (r, t)"
  shows "pend_frame t = pend_frame s"
  using assms
proof (cases rule: finish_bag_cases)
  case (finished a i j s1)
  have "pend_frame t = pend_frame (bag_store env iid row_ids s1)" by (rule pend_frame_finish_store [OF finished(5)])
  also have "\<dots> = pend_frame s"
    using upsert_rows_and_invalidate_frame [OF finished(3)]
    by (simp add: pend_frame_def bag_store_def update_where_def with_sheet_row_ids_def comp_def if_distrib cong: if_cong)
  finally show ?thesis .
qed simp_all

lemma pend_frame_finish_manifest:
  assumes "finish_manifest_import_attempt_with_items env input cs s = (r, t)"
    and "\<forall>c \<in> set cs. ci_source_item_kind c = Src_ManifestBag"
  shows "\<exists>added. pend_frame t = pend_frame s @ added \<and> (\<forall>x \<in> set added. fst (snd x) = Src_ManifestBag)"
  using assms(1)
proof (cases rule: finish_manifest_cases)
  case (finished a i j s1)
  obtain added where "items s1 = items s @ added" "set added \<subseteq> new_item env ` set cs"
    using queue_items_frame(4) [OF finished(4)] by auto
  moreover have "pend_frame t = pend_frame s1" by (rule pend_frame_finish_store [OF finished(5)])
  ultimately show ?thesis
    using assms(2) by (intro exI [of _ "pend_frame (s\<lparr>items := added\<rparr>)"]) (auto simp: pend_frame_def)
qed auto

lemma manifest_bag_items_facts:
  "c \<in> set (manifest_bag_items jid p ids) \<Longrightarrow> ci_source_item_kind c = Src_ManifestBag \<and> ci_job_id c = jid"
  by (auto simp: manifest_bag_items_def Let_def)

lemma store_call_snd [simp]: "snd (store_call rs) = snd rs"
  by (simp add: store_call_def split: prod.split sum.split)

lemma store_call_Pair: "store_call rs = (r, t) \<Longrightarrow> \<exists>r'. rs = (r', t) \<and> ((\<exists>e. r' = Inl e) \<longleftrightarrow> (\<exists>e. r = Inl e))"
  by (auto simp: store_call_def split: prod.splits sum.splits)

text \<open>An item's run is a few steps of the store machine, and adds at most bags of a manifest.\<close>

lemma run_manifest_item_steps:
  assumes "reachable (s, held)" and run: "run_manifest_item env src k jid item aid s = (r, t)"
  shows "reachable (t, held) \<and> (\<exists>added. pend_frame t = pend_frame s @ added \<and> (\<forall>x \<in> set added. fst (snd x) = Src_ManifestBag))"
proof -
  have fin: "reachable (t', held) \<and> pend_frame t' = pend_frame s"
    if "store_call (finish_import_attempt env input s) = (r', t')" for input r' t'
    using store_call_Pair [OF that] Step [OF assms(1) Finish] pend_frame_finish by blast
  have man: "reachable (t', held) \<and> (\<exists>added. pend_frame t' = pend_frame s @ added \<and> (\<forall>x \<in> set added. fst (snd x) = Src_ManifestBag))"
    if "store_call (finish_manifest_import_attempt_with_items env input (manifest_bag_items jid p ids) s) = (r', t')"
    for input p ids r' t'
    using store_call_Pair [OF that] Step [OF assms(1) Finish_Manifest]
      pend_frame_finish_manifest [of env input "manifest_bag_items jid p ids" s] manifest_bag_items_facts
    by blast
  show ?thesis
    using run assms(1)
    by (auto simp: run_manifest_item_def Let_def split: sum.splits option.splits if_splits prod.splits dest!: fin man)
qed

lemma run_bag_item_steps:
  assumes "reachable (s, held)" and run: "run_bag_item env src k sid item aid s = (r, t)"
  shows "reachable (t, held) \<and> pend_frame t = pend_frame s"
proof -
  have fin: "reachable (t', held) \<and> pend_frame t' = pend_frame s"
    if "store_call (finish_import_attempt env input s) = (r', t')" for input r' t'
    using store_call_Pair [OF that] Step [OF assms(1) Finish] pend_frame_finish by blast
  have bag: "reachable (t', held) \<and> pend_frame t' = pend_frame s"
    if "store_call (finish_bag_import_attempt_with_sheet_rows env input iid new_rows row_ids s) = (r', t')"
    for input iid new_rows row_ids r' t'
    using store_call_Pair [OF that] Step [OF assms(1) Finish_Bag] pend_frame_finish_bag by blast
  show ?thesis
    using run assms(1)
    by (auto simp: run_bag_item_def Let_def split: sum.splits option.splits prod.splits dest!: fin bag)
qed

lemma run_job_item_steps:
  assumes "reachable (s, held)" and "ji_item_id item \<in> held"
    and run: "run_job_item env src k jid sid item s = (r, t)"
  shows "\<exists>held'. reachable (t, held')"
    and "\<exists>added. pend_frame t = pend_frame s @ added \<and> (\<forall>x \<in> set added. fst (snd x) = Src_ManifestBag)
      \<and> (ji_source_item_kind item \<noteq> Src_Manifest \<longrightarrow> added = [])"
proof -
  let ?input = "\<lparr>sa_attempt_id = attempt_id_of item, sa_item_id = ji_item_id item, sa_raw_blob_id = None\<rparr>"
  obtain r1 s1 where start: "start_import_attempt env ?input s = (r1, s1)" by fastforce
  have "\<exists>held1. reachable (s1, held1)" using Step [OF assms(1) Start [OF _ start]] assms(2) by auto
  then obtain held1 where h1: "reachable (s1, held1)" by blast
  have f1: "pend_frame s1 = pend_frame s" by (rule pend_frame_start [OF start])
  note m = run_manifest_item_steps [OF h1] and b = run_bag_item_steps [OF h1]
  have "(\<exists>held'. reachable (t, held')) \<and> (\<exists>added. pend_frame t = pend_frame s @ added
      \<and> (\<forall>x \<in> set added. fst (snd x) = Src_ManifestBag) \<and> (ji_source_item_kind item \<noteq> Src_Manifest \<longrightarrow> added = []))"
  proof (cases r1)
    case (Inl e)
    with run start h1 f1 show ?thesis by (auto simp: run_job_item_def store_call_def)
  next
    case (Inr v)
    with run start have "if ji_source_item_kind item = Src_Manifest
        then run_manifest_item env src k jid item (attempt_id_of item) s1 = (r, t)
        else run_bag_item env src k sid item (attempt_id_of item) s1 = (r, t)"
      by (auto simp: run_job_item_def store_call_def split: import_source_item_kind.splits)
    with f1 m [of env src k jid item "attempt_id_of item" r t] b [of env src k sid item "attempt_id_of item" r t]
    show ?thesis by (auto split: if_splits)
  qed
  then show "\<exists>held'. reachable (t, held')"
    and "\<exists>added. pend_frame t = pend_frame s @ added \<and> (\<forall>x \<in> set added. fst (snd x) = Src_ManifestBag)
      \<and> (ji_source_item_kind item \<noteq> Src_Manifest \<longrightarrow> added = [])"
    by blast+
qed

subsection \<open>The run ends\<close>

definition pending_kind :: "string \<Rightarrow> (import_source_item_kind \<Rightarrow> bool) \<Rightarrow> store \<Rightarrow> nat" where
  "pending_kind jid P s = count_where (\<lambda>i. i_job_id i = jid \<and> P (i_source_item_kind i) \<and> i_status i = Item_Pending) (items s)"

lemma pending_kind_frame:
  "pending_kind jid P s = count_where (\<lambda>(j, k, p). j = jid \<and> P k \<and> p) (pend_frame s)"
  unfolding pending_kind_def pend_frame_def by (induction "items s") (auto simp: count_where_def filter_map comp_def)

text \<open>Manifests first, then everything else: a manifest may queue bags, a bag queues nothing.\<close>

definition run_rank :: "string \<Rightarrow> run_state \<Rightarrow> nat \<times> nat" where
  "run_rank jid = (\<lambda>(k, events, s).
     (pending_kind jid (\<lambda>kind. kind = Src_Manifest) s, pending_kind jid (\<lambda>kind. kind \<noteq> Src_Manifest) s))"

definition run_good :: "run_state \<Rightarrow> bool" where
  "run_good = (\<lambda>(k, events, s). \<exists>held. reachable (s, held))"

lemma pending_kind_claim:
  assumes "jobs_ok s" "claim_next_pending_import_job_item env jid s = (Inr (Some item), t)"
  shows "pending_kind jid P t + (if P (ji_source_item_kind item) then 1 else 0) = pending_kind jid P s"
  using assms
proof (cases rule: claim_cases)
  case (claimed it)
  let ?q = "\<lambda>i. i_job_id i = jid \<and> P (i_source_item_kind i) \<and> i_status i = Item_Pending"
  have "distinct (map i_id (items s))" using assms(1) by (simp add: jobs_ok_def)
  from count_where_update_one [OF this claimed(1), of ?q "claimed_item env"]
  show ?thesis
    using claimed(2,3,6)
    by (simp add: pending_kind_def recompute_frame(1) [OF claimed(5)] map_import_job_item_def claimable_def)
qed simp

lemma run_turn_continue:
  assumes "run_turn envs src jid sid (k, events, s) = Inr st'"
  obtains item t u event where "claim_next_pending_import_job_item (envs k) jid s = (Inr (Some item), t)"
    "run_job_item (envs k) src k jid sid item t = (Inr (), u)" "st' = (Suc k, events @ [event], u)"
proof -
  obtain r t where c: "claim_next_pending_import_job_item (envs k) jid s = (r, t)" by fastforce
  obtain item where r: "r = Inr (Some item)"
    using assms c by (auto simp: run_turn_def store_call_def split: sum.splits option.splits)
  obtain r2 u where j: "run_job_item (envs k) src k jid sid item t = (r2, u)" by fastforce
  obtain x where r2: "r2 = Inr x"
    using assms c r j by (auto simp: run_turn_def store_call_def split: sum.splits option.splits)
  have "\<exists>event. st' = (Suc k, events @ [event], u)"
    using assms c r j r2 by (auto simp: run_turn_def store_call_def Let_def split: option.splits)
  then show ?thesis using that c r j r2 by (cases x) auto
qed

lemma run_turn_good:
  assumes "run_good st" "run_turn envs src jid sid st = Inr st'"
  shows "run_good st'"
proof -
  obtain k events s where st: "st = (k, events, s)" by (cases st)
  obtain held where held: "reachable (s, held)" using assms(1) by (auto simp: run_good_def st)
  from assms(2)[unfolded st] show ?thesis
  proof (cases rule: run_turn_continue)
    case (1 item t u event)
    have "reachable (t, insert (ji_item_id item) held)" using Step [OF held Claim [OF 1(1)]] by simp
    from run_job_item_steps(1) [OF this _ 1(2)] show ?thesis by (simp add: 1(3) run_good_def)
  qed
qed

lemma run_turn_rank:
  assumes "run_good st" "run_turn envs src jid sid st = Inr st'"
  shows "(run_rank jid st', run_rank jid st) \<in> less_than <*lex*> less_than"
proof -
  obtain k events s where st: "st = (k, events, s)" by (cases st)
  obtain held where held: "reachable (s, held)" using assms(1) by (auto simp: run_good_def st)
  have ok: "jobs_ok s" using store_inv_reachable [OF held] by (simp add: store_inv_def import_inv_def)
  from assms(2)[unfolded st] show ?thesis
  proof (cases rule: run_turn_continue)
    case (1 item t u event)
    have t: "reachable (t, insert (ji_item_id item) held)" using Step [OF held Claim [OF 1(1)]] by simp
    obtain added where added: "pend_frame u = pend_frame t @ added"
      "\<forall>x \<in> set added. fst (snd x) = Src_ManifestBag"
      "ji_source_item_kind item \<noteq> Src_Manifest \<longrightarrow> added = []"
      using run_job_item_steps(2) [OF t _ 1(2)] by auto
    have man: "pending_kind jid (\<lambda>kind. kind = Src_Manifest) u = pending_kind jid (\<lambda>kind. kind = Src_Manifest) t"
      using added(1,2) by (auto simp: pending_kind_frame)
    note claim = pending_kind_claim [OF ok 1(1)]
    show ?thesis
    proof (cases "ji_source_item_kind item = Src_Manifest")
      case True
      with man claim [of "\<lambda>kind. kind = Src_Manifest"] show ?thesis by (simp add: st 1(3) run_rank_def)
    next
      case False
      then have "pending_kind jid P u = pending_kind jid P t" for P
        using added(1,3) by (simp add: pending_kind_frame)
      with False claim [of "\<lambda>kind. kind = Src_Manifest"] claim [of "\<lambda>kind. kind \<noteq> Src_Manifest"]
      show ?thesis by (simp add: st 1(3) run_rank_def)
    qed
  qed
qed

interpretation import_run: draining_loop "run_turn envs src jid sid" "run_loop envs src jid sid" run_good "run_rank jid"
  for envs src jid sid
proof
  show "run_loop envs src jid sid st = (case run_turn envs src jid sid st of Inl r \<Rightarrow> Some r
      | Inr st' \<Rightarrow> run_loop envs src jid sid st')" for st
    by (subst run_loop.simps) rule
qed (fact run_turn_good run_turn_rank)+

text \<open>How a run may end.\<close>

lemma run_turn_end:
  assumes "run_good (k, events, s)" "run_turn envs src jid sid (k, events, s) = Inl (r, k', events', t)"
  shows "\<exists>held. reachable (t, held)"
    and "r = Inr () \<Longrightarrow> t = s \<and> (\<forall>i \<in> set (items s). i_job_id i = jid \<longrightarrow> \<not> claimable s i)"
proof -
  obtain held where held: "reachable (s, held)" using assms(1) by (auto simp: run_good_def)
  have ok: "jobs_ok s" using store_inv_reachable [OF held] by (simp add: store_inv_def import_inv_def)
  obtain rc tc where c: "claim_next_pending_import_job_item (envs k) jid s = (rc, tc)" by fastforce
  have tc: "\<exists>held'. reachable (tc, held')" using Step [OF held Claim [OF c]] by blast
  have run: "\<exists>held'. reachable (u, held')"
    if "rc = Inr (Some item)" "run_job_item (envs k) src k jid sid item tc = (r', u)" for item r' u
  proof -
    have "reachable (tc, insert (ji_item_id item) held)" using Step [OF held Claim [OF c]] that(1) by simp
    from run_job_item_steps(1) [OF this _ that(2)] show ?thesis by simp
  qed
  show "\<exists>held. reachable (t, held)"
    using assms(2) c tc run by (auto simp: run_turn_def store_call_def Let_def split: sum.splits option.splits prod.splits)
  show "t = s \<and> (\<forall>i \<in> set (items s). i_job_id i = jid \<longrightarrow> \<not> claimable s i)" if "r = Inr ()"
  proof -
    have "rc = Inr None \<and> t = tc"
      using assms(2) c that
      by (auto simp: run_turn_def store_call_def Let_def split: sum.splits option.splits prod.splits)
    with ok c show ?thesis by (cases rule: claim_cases) auto
  qed
qed

lemma get_import_job_items:
  "get_import_job jid s = Some detail \<Longrightarrow>
     set (jd_items detail) = map_import_job_item ` {i \<in> set (items s). i_job_id i = jid}
     \<and> (\<exists>j. job_of s jid = Some j \<and> jd_summary detail = map_import_job_summary j)"
  by (auto simp: get_import_job_def get_import_job_summary_def items_of_def split: option.splits)

lemma run_job_returns:
  assumes "reachable (s, held)"
  shows "\<exists>result events t held'. run_job_with_progress envs src jid s = Some (result, events, t)
    \<and> reachable (t, held')
    \<and> (case result of
         Inl _ \<Rightarrow> True
       | Inr detail \<Rightarrow> get_import_job jid t = Some detail
           \<and> (js_status (jd_summary detail) = Job_Cancelled
              \<or> (\<forall>i \<in> set (jd_items detail). ji_status i \<noteq> Item_Pending)))"
proof (cases "get_import_job jid s")
  case None
  with assms show ?thesis by (auto simp: run_job_with_progress_def)
next
  case (Some detail)
  let ?st = "(0, [event_from_job_detail detail []], s)"
  let ?sid = "js_sheet_id (jd_summary detail)"
  have "run_good ?st" using assms by (auto simp: run_good_def)
  from import_run.returns [OF this] obtain k events u r k' events' t where
    last: "run_good (k, events, u)" "run_turn envs src jid ?sid (k, events, u) = Inl (r, k', events', t)"
    and loop: "run_loop envs src jid ?sid ?st = Some (r, k', events', t)"
    by (metis prod.exhaust)
  note end_facts = run_turn_end [OF last]
  obtain held' where held': "reachable (t, held')" using end_facts(1) by blast
  show ?thesis
  proof (cases r)
    case (Inl e)
    with Some loop held' show ?thesis by (auto simp: run_job_with_progress_def)
  next
    case (Inr x)
    then have final: "\<forall>i \<in> set (items t). i_job_id i = jid \<longrightarrow> \<not> claimable t i"
      using end_facts(2) by simp
    have run: "run_job_with_progress envs src jid s
        = Some (ok_or (Missing_Job jid) (get_import_job jid t), events', t)"
      using Some loop Inr by (simp add: run_job_with_progress_def)
    show ?thesis
    proof (cases "get_import_job jid t")
      case None
      with run held' show ?thesis by auto
    next
      case (Some d)
      note facts = get_import_job_items [OF Some]
      obtain j where j: "job_of t jid = Some j" "jd_summary d = map_import_job_summary j" using facts by blast
      have "j_status j = Job_Cancelled \<or> i_status x \<noteq> Item_Pending"
        if x: "x \<in> set (items t)" "i_job_id x = jid" for x
        using final x job_of_SomeD [OF j(1)] by (auto simp: claimable_def)
      then have "j_status j = Job_Cancelled \<or> ji_status i \<noteq> Item_Pending" if "i \<in> set (jd_items d)" for i
        using that facts by (auto simp: map_import_job_item_def)
      with Some run held' j(2) show ?thesis by (auto simp: map_import_job_summary_def)
    qed
  qed
qed

text \<open>
  \<open>C9.\<close> Running a job always comes to an end, whatever the lookups answer, time
  out with, or queue: every turn uses up a pending manifest, or a pending bag
  while queueing nothing.  It ends in a reachable state, and when it ends without
  an error the returned detail is the job's and shows no pending item unless the
  job was cancelled.
\<close>

theorem run_job_terminates:
  assumes "reachable (s, held)"
  shows "\<exists>result events t held'. run_job_with_progress envs src jid s = Some (result, events, t)
    \<and> reachable (t, held')
    \<and> (case result of
         Inl _ \<Rightarrow> True
       | Inr detail \<Rightarrow> get_import_job jid t = Some detail
           \<and> (js_status (jd_summary detail) = Job_Cancelled
              \<or> (\<forall>i \<in> set (jd_items detail). ji_status i \<noteq> Item_Pending)))"
  by (rule run_job_returns [OF assms])

definition demo_source :: lookup_source where
  "demo_source = \<lparr>fetch_bag = (\<lambda>k iid. if k = 0 then Some (Inr [Some ''P1'', None]) else None),
     fetch_manifest = (\<lambda>k iid. None), store_raw_response_blob = (\<lambda>k. Inr None)\<rparr>"

theorem run_job_terminates_witness:
  "\<exists>result events t. run_job_with_progress (\<lambda>k. sample_env) demo_source ''j'' demo_store = Some (result, events, t)"
  using run_job_terminates [OF reachable_demo_store, of "\<lambda>k. sample_env" demo_source "''j''"] by blast

end
