(* ===== verification/ImportRun.thy ===== *)
theory ImportRun
  imports ImportEngine
begin

text \<open>
  What running one item achieves: the bag of an item ends up on the sheet, each
  shipment once, and a manifest's bags are queued behind the items of the job.
\<close>

subsection \<open>Planning the rows of a bag\<close>

definition on_sheet :: "string \<Rightarrow> store \<Rightarrow> string \<Rightarrow> bool" where
  "on_sheet sid s display \<longleftrightarrow> sheet_row_id_for_display_tracking_id sid display s \<noteq> None"

lemma on_sheet_iff: "on_sheet sid s display \<longleftrightarrow> (\<exists>r \<in> set (rows_of sid s). r_display_id r = display)"
  by (auto simp: on_sheet_def sheet_row_id_for_display_tracking_id_def rows_of_def filter_empty_conv)

lemma existing_row:
  assumes "sheet_row_id_for_display_tracking_id sid display s = Some x"
  shows "\<exists>r \<in> set (rows_of sid s). r_id r = x \<and> r_display_id r = display"
proof -
  obtain r where "first_by (\<lambda>r. (r_position r, r_id r))
      (filter (\<lambda>r. r_sheet_id r = sid \<and> r_display_id r = display) (rows s)) = Some r" "x = r_id r"
    using assms by (auto simp: sheet_row_id_for_display_tracking_id_def)
  with first_by_SomeD show ?thesis by (fastforce simp: rows_of_def)
qed

text \<open>A plan: fresh rows for the ids not yet on the sheet, and the row of every id.\<close>

definition is_plan ::
  "store \<Rightarrow> string \<Rightarrow> nat \<Rightarrow> string list \<Rightarrow> upsert_sheet_row_input list \<Rightarrow> string list \<Rightarrow> bool" where
  "is_plan s sid p ids new_rows row_ids \<longleftrightarrow>
     map ur_display_id new_rows = filter (\<lambda>d. \<not> on_sheet sid s d) ids
     \<and> map ur_position new_rows = [p..<p + length new_rows]
     \<and> (\<forall>r \<in> set new_rows. ur_sheet_id r = sid \<and> find_by r_id (ur_row_id r) (rows s) = None
          \<and> (\<exists>m. ur_row_id r = generated_row_id sid (ur_position r) m))
     \<and> list_all2 (\<lambda>d x. if on_sheet sid s d then sheet_row_id_for_display_tracking_id sid d s = Some x
          else \<exists>r \<in> set new_rows. ur_display_id r = d \<and> ur_row_id r = x) ids row_ids"

lemma is_plan_ConsI:
  assumes plan: "is_plan s sid (Suc p) ids new_rows row_ids" and new: "\<not> on_sheet sid s (ur_display_id r)"
    and r: "ur_position r = p" "ur_sheet_id r = sid" "find_by r_id (ur_row_id r) (rows s) = None"
      "\<exists>m. ur_row_id r = generated_row_id sid p m"
  shows "is_plan s sid p (ur_display_id r # ids) (r # new_rows) (ur_row_id r # row_ids)"
proof -
  have "[p..<p + length (r # new_rows)] = p # [Suc p..<Suc p + length new_rows]"
    by (subst upt_conv_Cons) simp_all
  moreover have "list_all2 (\<lambda>d x. if on_sheet sid s d then sheet_row_id_for_display_tracking_id sid d s = Some x
      else \<exists>q \<in> set (r # new_rows). ur_display_id q = d \<and> ur_row_id q = x) ids row_ids"
    by (rule list_all2_mono [where P = "\<lambda>d x. if on_sheet sid s d then sheet_row_id_for_display_tracking_id sid d s = Some x
      else \<exists>q \<in> set new_rows. ur_display_id q = d \<and> ur_row_id q = x"])
      (use plan in \<open>auto simp: is_plan_def split: if_splits\<close>)
  ultimately show ?thesis using plan new r by (auto simp: is_plan_def)
qed

lemma plan_rows_spec:
  assumes "length (rows s) < u32_max" "p + length ids \<le> u32_max" "\<forall>d \<in> set ids. trim d = d"
  shows "\<exists>new_rows row_ids. plan_rows s sid p ids = Inr (new_rows, row_ids)
    \<and> is_plan s sid p ids new_rows row_ids"
  using assms(2,3)
proof (induction ids arbitrary: p)
  case Nil
  then show ?case by (simp add: is_plan_def)
next
  case (Cons d ids)
  show ?case
  proof (cases "sheet_row_id_for_display_tracking_id sid d s")
    case (Some x)
    obtain new_rows row_ids where IH: "plan_rows s sid p ids = Inr (new_rows, row_ids)"
      "is_plan s sid p ids new_rows row_ids"
      using Cons.IH [of p] Cons.prems by auto
    have "is_plan s sid p (d # ids) new_rows (x # row_ids)"
      using IH(2) Some by (simp add: is_plan_def on_sheet_def)
    with IH Some show ?thesis by simp
  next
    case None
    obtain new_rows row_ids where IH: "plan_rows s sid (Suc p) ids = Inr (new_rows, row_ids)"
      "is_plan s sid (Suc p) ids new_rows row_ids"
      using Cons.IH [of "Suc p"] Cons.prems by auto
    obtain tid where tid: "next_available_generated_sheet_row_id s sid p = Some tid"
      using generated_row_id_total [OF assms(1)] by blast
    let ?r = "\<lparr>ur_row_id = tid, ur_sheet_id = sid, ur_position = p,
      ur_display_id = rti_display_id (resolve_tracking_id d), ur_lookup_id = rti_lookup_id (resolve_tracking_id d),
      ur_status = Row_Loaded, ur_error_message = None\<rparr>"
    have disp: "rti_display_id (resolve_tracking_id d) = d"
      using Cons.prems(2) by (simp add: resolve_tracking_id_def Let_def split: option.split)
    have "\<exists>m. tid = generated_row_id sid p m"
      using tid search_row_id_shape unfolding next_available_generated_sheet_row_id_def by blast
    with is_plan_ConsI [OF IH(2), of ?r] None disp generated_row_id_fresh [OF tid]
    have "is_plan s sid p (d # ids) (?r # new_rows) (tid # row_ids)"
      by (simp add: on_sheet_def)
    moreover have "as_u32 (p + 1) = Suc p" using Cons.prems(1) by (simp add: as_u32_id)
    ultimately show ?thesis using None tid IH(1) by (simp add: Let_def)
  qed
qed

lemma is_plan_distinct:
  assumes "is_plan s sid p ids new_rows row_ids"
  shows "distinct (map ur_row_id new_rows)"
proof -
  have pos: "distinct (map ur_position new_rows)" using assms by (simp add: is_plan_def)
  have gen: "\<exists>m. ur_row_id r = generated_row_id sid (ur_position r) m" if "r \<in> set new_rows" for r
    using assms that by (simp add: is_plan_def)
  have "inj_on ur_row_id (set new_rows)"
  proof (rule inj_onI)
    fix a b assume ab: "a \<in> set new_rows" "b \<in> set new_rows" "ur_row_id a = ur_row_id b"
    from gen [OF ab(1)] gen [OF ab(2)] ab(3) obtain m n where
      "generated_row_id sid (ur_position a) m = generated_row_id sid (ur_position b) n" by metis
    then have "ur_position a = ur_position b" by (rule generated_row_id_position)
    then show "a = b" by (rule distinct_key_unique [OF pos ab(1,2)])
  qed
  then show ?thesis using pos by (simp add: distinct_map)
qed

text \<open>Writing a plan: the new rows are appended as they are.\<close>

fun inserted_rows :: "env \<Rightarrow> nat \<Rightarrow> upsert_sheet_row_input list \<Rightarrow> sheet_row list" where
  "inserted_rows env k [] = []"
| "inserted_rows env k (r # rs) = inserted_row env k r # inserted_rows env (Suc k) rs"

lemma inserted_rows_facts:
  "map r_id (inserted_rows env k rs) = map ur_row_id rs"
  "map r_display_id (inserted_rows env k rs) = map ur_display_id rs"
  "map r_position (inserted_rows env k rs) = map ur_position rs"
  "map r_sheet_id (inserted_rows env k rs) = map ur_sheet_id rs"
  by (induction rs arbitrary: k) (simp_all add: inserted_row_def)

lemma upsert_plan:
  assumes "\<forall>r \<in> set new_rows. ur_sheet_id r = sid \<and> find_by r_id (ur_row_id r) (rows s) = None"
    and "distinct (map ur_row_id new_rows)" "map ur_position new_rows = [p..<p + length new_rows]"
    and "\<forall>r \<in> set (rows_of sid s). r_position r < p" "sheet_exists s sid"
  shows "\<exists>t. upsert_rows_and_invalidate env k new_rows s = Inr t \<and> rows t = rows s @ inserted_rows env k new_rows"
  using assms
proof (induction new_rows arbitrary: k s p)
  case (Cons r rs)
  have "[p..<p + length (r # rs)] = p # [Suc p..<Suc p + length rs]"
    by (subst upt_conv_Cons) simp_all
  with Cons.prems(3) have pos: "ur_position r = p" "map ur_position rs = [Suc p..<Suc p + length rs]" by auto
  have rp: "r\<lparr>ur_position := p\<rparr> = r" using pos(1) by simp
  let ?s1 = "s\<lparr>rows := rows s @ [inserted_row env k r]\<rparr>"
  let ?s2 = "invalidate_cache (ur_sheet_id r) ?s1"
  have one: "upsert_sheet_row_on env k r s = Inr ?s1"
    using append_one [of r s sid p env k False] Cons.prems(1,4,5) by (simp add: rp upsert_sheet_row_on_def)
  have fresh: "ur_row_id q \<noteq> ur_row_id r" if "q \<in> set rs" for q
    using Cons.prems(2) that by (auto simp: image_iff)
  have step: "\<exists>t. upsert_rows_and_invalidate env (Suc k) rs ?s2 = Inr t \<and> rows t = rows ?s2 @ inserted_rows env (Suc k) rs"
  proof (rule Cons.IH)
    show "\<forall>q \<in> set rs. ur_sheet_id q = sid \<and> find_by r_id (ur_row_id q) (rows ?s2) = None"
    proof
      fix q assume q: "q \<in> set rs"
      with Cons.prems(1) have "ur_sheet_id q = sid" "find_by r_id (ur_row_id q) (rows s) = None" by simp_all
      with not_sym [OF fresh [OF q]]
      show "ur_sheet_id q = sid \<and> find_by r_id (ur_row_id q) (rows ?s2) = None"
        by (simp add: find_by_append inserted_row_def)
    qed
    show "\<forall>q \<in> set (rows_of sid ?s2). r_position q < Suc p"
      using Cons.prems(4) pos(1) by (auto simp: rows_of_def less_Suc_eq inserted_row_def)
    show "sheet_exists ?s2 sid" using Cons.prems(5) by (simp add: sheet_exists_def invalidate_cache_def)
  qed (use Cons.prems(2) pos in simp_all)
  then show ?case using one by auto
qed simp

subsection \<open>Running a bag item\<close>

lemma response_ids_trimmed: "d \<in> set (response_ids response) \<Longrightarrow> trim d = d"
  by (auto simp: response_ids_def set_dedupe_non_empty)

lemma length_response_ids: "length (response_ids response) \<le> length response"
  unfolding response_ids_def
  by (rule order_trans [OF length_dedupe_non_empty]) (simp add: length_filter_le)

text \<open>
  \<open>C5.\<close> When the lookup of a bag succeeds, its item succeeds with the shipment ids
  of the response (trimmed, each once, blanks left out).  The sheet keeps all its
  rows; exactly the shipments that were not on it yet are added, in order, at
  consecutive positions behind them; and the row ids recorded for the item are,
  shipment by shipment, rows of the sheet that display that shipment.
\<close>

theorem bag_item_lands_on_sheet:
  assumes "reachable (s, held)" and ctx: "running_context s aid a i j" and item: "ji_item_id item = i_id i"
    and answer: "fetch_bag_with_timeout src k (ji_source_item_id item) = Inr response"
    and blob: "store_raw_response_blob src k = Inr b" and sheet: "sheet_exists s sid"
    and bounds: "next_row_position sid s + length response \<le> u32_max" "length (rows s) < u32_max"
  shows "\<exists>t new i'. run_bag_item env src k sid item aid s = (Inr (), t)
    \<and> rows t = rows s @ new
    \<and> map r_display_id new = filter (\<lambda>d. \<not> on_sheet sid s d) (response_ids response)
    \<and> map r_position new = [next_row_position sid s..<next_row_position sid s + length new]
    \<and> (\<forall>r \<in> set new. r_sheet_id r = sid)
    \<and> item_of t (i_id i) = Some i' \<and> i_status i' = Item_Succeeded
    \<and> i_tracking_ids i' = response_ids response \<and> i_error_message i' = None
    \<and> list_all2 (\<lambda>d x. \<exists>r \<in> set (rows_of sid t). r_id r = x \<and> r_display_id r = d)
        (response_ids response) (i_sheet_row_ids i')"
proof -
  let ?ids = "response_ids response"
  let ?p = "next_row_position sid s"
  have fits: "?p + length ?ids \<le> u32_max" using bounds(1) length_response_ids [of response] by linarith
  have pos: "next_sheet_row_position sid s = ?p"
    using bounds(1) by (simp add: next_sheet_row_position_def as_u32_id)
  obtain new_rows row_ids where plan: "plan_rows s sid ?p ?ids = Inr (new_rows, row_ids)"
    and is_plan: "is_plan s sid ?p ?ids new_rows row_ids"
    using plan_rows_spec [OF bounds(2) fits] response_ids_trimmed by blast
  have new: "\<forall>r \<in> set new_rows. ur_sheet_id r = sid \<and> find_by r_id (ur_row_id r) (rows s) = None"
    "map ur_position new_rows = [?p..<?p + length new_rows]"
    using is_plan by (simp_all add: is_plan_def)
  have behind: "\<forall>r \<in> set (rows_of sid s). r_position r < ?p" using next_row_position_gt by blast
  obtain s1 where s1: "upsert_rows_and_invalidate env 0 new_rows s = Inr s1"
    and rows1: "rows s1 = rows s @ inserted_rows env 0 new_rows"
    using upsert_plan [OF new(1) is_plan_distinct [OF is_plan] new(2) behind sheet] by blast
  let ?input = "succeeded_attempt aid ?ids b"
  have ctx': "running_context s (fa_attempt_id ?input) a i j" using ctx by (simp add: succeeded_attempt_def)
  obtain t where t: "recompute_import_job_counts_on env (i_job_id i)
         (finish_store env ?input (i_id i) (bag_store env (i_id i) row_ids s1)) = Inr t"
    and fin: "finish_bag_import_attempt_with_sheet_rows env ?input (i_id i) new_rows row_ids s = (Inr True, t)"
    by (rule finish_bag_run [OF ctx' refl s1])
  note fr = recompute_frame [OF t]
  have run: "run_bag_item env src k sid item aid s = (Inr (), t)"
    using answer blob plan fin item
    by (simp add: run_bag_item_def plan_unique_sheet_rows_def pos store_call_def)
  let ?new = "inserted_rows env 0 new_rows"
  have rows_t: "rows t = rows s @ ?new" by (simp add: fr finish_store_def bag_store_def rows1)
  let ?i' = "finished_item env ?input (with_sheet_row_ids env row_ids i)"
  have "item_of s (i_id i) = Some i" "i_status i = Item_Running"
    using ctx running_context_facts(5) [OF ctx] by (auto simp: running_context_def)
  then have item_t: "item_of t (i_id i) = Some ?i'"
    using upsert_rows_and_invalidate_frame [OF s1]
    by (simp add: item_of_def fr finish_store_def bag_store_def find_by_update_where)
  have own: "\<forall>r \<in> set ?new. r_sheet_id r = sid"
  proof
    fix r assume "r \<in> set ?new"
    then have "r_sheet_id r \<in> set (map r_sheet_id ?new)" by simp
    then show "r_sheet_id r = sid" unfolding inserted_rows_facts(4) using new(1) by auto
  qed
  have rows_of_t: "rows_of sid t = rows_of sid s @ ?new"
    using own by (simp add: rows_of_def rows_t)
  have found: "\<exists>r \<in> set (rows_of sid t). r_id r = x \<and> r_display_id r = d"
    if planned: "if on_sheet sid s d then sheet_row_id_for_display_tracking_id sid d s = Some x
      else \<exists>r \<in> set new_rows. ur_display_id r = d \<and> ur_row_id r = x" for d x
  proof (cases "on_sheet sid s d")
    case True
    with planned existing_row [of sid d s x] show ?thesis by (auto simp: rows_of_t)
  next
    case False
    then obtain r where r: "r \<in> set new_rows" "ur_display_id r = d" "ur_row_id r = x" using planned by auto
    have copied: "\<exists>q \<in> set (inserted_rows env n rs). r_id q = ur_row_id r \<and> r_display_id q = ur_display_id r"
      if "r \<in> set rs" for n rs
      using that by (induction rs arbitrary: n) (auto simp: inserted_row_def)
    from copied [OF r(1), of 0] r(2,3) show ?thesis by (auto simp: rows_of_t)
  qed
  have "list_all2 (\<lambda>d x. \<exists>r \<in> set (rows_of sid t). r_id r = x \<and> r_display_id r = d) ?ids row_ids"
    by (rule list_all2_mono [OF _ found]) (use is_plan [unfolded is_plan_def] in blast)
  moreover have "map r_display_id ?new = filter (\<lambda>d. \<not> on_sheet sid s d) ?ids"
    using is_plan by (simp add: inserted_rows_facts is_plan_def)
  moreover have "map r_position ?new = [?p..<?p + length ?new]"
    using new(2) inserted_rows_facts(3) [of env 0 new_rows] by (metis length_map)
  ultimately show ?thesis
    using run rows_t item_t own
    by (intro exI [of _ t] exI [of _ ?new] exI [of _ ?i'])
      (simp add: finished_item_def with_sheet_row_ids_def succeeded_attempt_def)
qed

theorem bag_item_lands_on_sheet_witness:
  "\<exists>t new. run_bag_item sample_env demo_source 0 ''s'' (map_import_job_item (hd (items demo_started))) ''b:1'' demo_started
       = (Inr (), t)
     \<and> map r_display_id new = [''P1''] \<and> rows t = new"
proof -
  have answer: "fetch_bag_with_timeout demo_source 0 (ji_source_item_id (map_import_job_item (hd (items demo_started))))
      = Inr [Some ''P1'', None]"
    by (simp add: fetch_bag_with_timeout_def demo_source_def)
  have item: "ji_item_id (map_import_job_item (hd (items demo_started)))
      = i_id (started_item sample_env (claimed_item sample_env (hd demo_items)))"
    by (simp add: map_import_job_item_def demo_started_eq)
  have blob: "store_raw_response_blob demo_source 0 = Inr None" by (simp add: demo_source_def)
  have sheet: "sheet_exists demo_started ''s''"
    by (simp add: sheet_exists_def demo_started_eq demo_store_eq sample_sheet_def)
  have rows: "rows demo_started = []" by (simp add: demo_started_eq demo_store_eq)
  then have bounds: "next_row_position ''s'' demo_started + length [Some ''P1'', None] \<le> u32_max"
    "length (rows demo_started) < u32_max"
    by (simp_all add: next_row_position_def next_after_max_def rows_of_def)
  have "trim ''P1'' = ''P1''" by code_simp
  then have ids: "response_ids [Some ''P1'', None] = [''P1'']"
    by (simp add: response_ids_def dedupe_non_empty_def)
  have fresh: "\<not> on_sheet ''s'' demo_started ''P1''" by (simp add: on_sheet_iff rows_of_def rows)
  show ?thesis
    using bag_item_lands_on_sheet [OF reachable_demo_started demo_running_context item answer blob sheet bounds,
        of sample_env]
    unfolding ids rows by (fastforce simp: fresh)
qed

end
