(* ===== verification/ImportPreview.thy ===== *)
theory ImportPreview
  imports ImportEngine
begin

text \<open>
  The preview of an import (\<open>preview_import_source\<close> of \<open>import_engine.rs\<close>): what the
  sources hold, without touching the database.  A response is opaque but for the ids
  the engine reads from it; serde's texts of the responses are parameters.  The default
  loops \<open>fetch_bags\<close> and \<open>fetch_manifests\<close> of the source ask for one id after the other.
\<close>

subsection \<open>Previews and sources\<close>

record import_source_preview_item =
  sp_source_item_id :: string
  sp_source_item_kind :: import_source_item_kind
  sp_status :: import_job_item_status
  sp_tracking_ids :: "string list"
  sp_error_message :: "string option"

record import_source_preview_result =
  ip_kind :: import_kind
  ip_source_items :: "import_source_preview_item list"
  ip_manifest_bags :: "import_source_preview_item list"
  ip_tracking_ids :: "string list"
  ip_raw_response :: string

text \<open>
  \<open>response_fields\<close> are \<open>no_resi\<close> of the items of a bag, \<open>nomor_kantung\<close> of those of a
  manifest; the last two are \<open>serde_json::to_string\<close> of a response and of a list.
\<close>

record 'r preview_source =
  fetch_bags :: "string list \<Rightarrow> (string \<times> (string + 'r)) list"
  fetch_manifests :: "string list \<Rightarrow> (string \<times> (string + 'r)) list"
  response_fields :: "'r \<Rightarrow> string option list"
  one_response_text :: "'r \<Rightarrow> string option"
  responses_text :: "'r list \<Rightarrow> string option"

text \<open>The default of the trait: in turn, each with the timeout.\<close>

definition fetch_bags_in_turn :: "lookup_source \<Rightarrow> string list \<Rightarrow> (string \<times> (string + bag_response)) list" where
  "fetch_bags_in_turn src ids = map (\<lambda>(k, bag_id). (bag_id, fetch_bag_with_timeout src k bag_id)) (enumerate 0 ids)"

definition fetch_manifests_in_turn ::
  "lookup_source \<Rightarrow> string list \<Rightarrow> (string \<times> (string + manifest_response)) list" where
  "fetch_manifests_in_turn src ids =
     map (\<lambda>(k, manifest_id). (manifest_id, fetch_manifest_with_timeout src k manifest_id)) (enumerate 0 ids)"

definition stringify_responses :: "'r preview_source \<Rightarrow> 'r list \<Rightarrow> string" where
  "stringify_responses src responses =
     (case responses of
        [response] \<Rightarrow> (case one_response_text src response of Some text \<Rightarrow> text | None \<Rightarrow> ''null'')
      | _ \<Rightarrow> (case responses_text src responses of Some text \<Rightarrow> text | None \<Rightarrow> ''[]''))"

subsection \<open>The loops\<close>

text \<open>
  One result: the items so far, the ids found so far and the responses so far.  The
  three loops of the source differ in the kind of their items.
\<close>

type_synonym 'r preview_state = "import_source_preview_item list \<times> string list \<times> 'r list"

definition preview_step ::
  "'r preview_source \<Rightarrow> import_source_item_kind \<Rightarrow> string \<times> (string + 'r) \<Rightarrow> 'r preview_state
   \<Rightarrow> import_engine_error + 'r preview_state" where
  "preview_step src kind = (\<lambda>(source_id, result) (found_items, found, responses).
     case result of
       Inr response \<Rightarrow>
         (let ids = response_ids (response_fields src response)
          in and_then (extend_unique_bounded found ids) (\<lambda>found'.
            Inr (found_items @ [\<lparr>sp_source_item_id = source_id, sp_source_item_kind = kind, sp_status = Item_Succeeded,
                           sp_tracking_ids = ids, sp_error_message = None\<rparr>], found', responses @ [response])))
     | Inl message \<Rightarrow>
         Inr (found_items @ [\<lparr>sp_source_item_id = source_id, sp_source_item_kind = kind, sp_status = Item_Failed,
                        sp_tracking_ids = [], sp_error_message = Some message\<rparr>], found, responses))"

definition preview_bag_sources ::
  "'r preview_source \<Rightarrow> string list \<Rightarrow> import_engine_error + import_source_preview_result" where
  "preview_bag_sources src bag_ids =
     and_then (try_fold (preview_step src Src_Bag) (fetch_bags src bag_ids) ([], [], []))
       (\<lambda>(found_items, tracking_ids, responses).
         Inr \<lparr>ip_kind = Kind_Bag, ip_source_items = found_items, ip_manifest_bags = [], ip_tracking_ids = tracking_ids,
              ip_raw_response = stringify_responses src responses\<rparr>)"

definition preview_manifest_sources ::
  "'r preview_source \<Rightarrow> string list \<Rightarrow> import_engine_error + import_source_preview_result" where
  "preview_manifest_sources src manifest_ids =
     and_then (try_fold (preview_step src Src_Manifest) (fetch_manifests src manifest_ids) ([], [], []))
       (\<lambda>(found_items, bag_ids, responses).
         and_then (try_fold (preview_step src Src_ManifestBag) (fetch_bags src bag_ids) ([], [], []))
           (\<lambda>(bags, tracking_ids, _).
             Inr \<lparr>ip_kind = Kind_Manifest, ip_source_items = found_items, ip_manifest_bags = bags, ip_tracking_ids = tracking_ids,
                  ip_raw_response = stringify_responses src responses\<rparr>))"

definition preview_import_source ::
  "'r preview_source \<Rightarrow> import_kind \<Rightarrow> string list \<Rightarrow> import_engine_error + import_source_preview_result" where
  "preview_import_source src kind ids =
     and_then (validate_import_source_ids ids) (\<lambda>source_ids.
       case kind of
         Kind_Bag \<Rightarrow> preview_bag_sources src source_ids
       | Kind_Manifest \<Rightarrow> preview_manifest_sources src source_ids)"

subsection \<open>What a preview holds\<close>

lemma extend_loop_Inr:
  "extend_loop seen target vs = Inr t \<Longrightarrow> seen = set target \<Longrightarrow> distinct target \<Longrightarrow>
     length target \<le> max_import_job_items \<Longrightarrow>
     distinct t \<and> set t = set target \<union> set vs \<and> length t \<le> max_import_job_items \<and> (\<exists>added. t = target @ added)"
proof (induction seen target vs rule: extend_loop.induct)
  case (2 seen target v vs)
  show ?case
  proof (cases "v \<in> seen")
    case True
    with 2 show ?thesis by auto
  next
    case False
    with "2.prems" have room: "\<not> max_import_job_items \<le> length target" by (auto split: if_splits)
    with False "2.prems" have "extend_loop (insert v seen) (target @ [v]) vs = Inr t" by simp
    with "2.IH"(2) [OF False room] "2.prems" False room show ?thesis by auto
  qed
qed auto

text \<open>The items of a preview are the results, one by one, and the ids are those of its items, once each.\<close>

definition preview_ok :: "(string \<times> (string + 'r)) list \<Rightarrow> 'r preview_state \<Rightarrow> bool" where
  "preview_ok results = (\<lambda>(found_items, found, responses).
     map sp_source_item_id found_items = map fst results
     \<and> map sp_status found_items = map (\<lambda>(_, r). case r of Inl _ \<Rightarrow> Item_Failed | Inr _ \<Rightarrow> Item_Succeeded) results
     \<and> responses = concat (map (\<lambda>(_, r). case r of Inl _ \<Rightarrow> [] | Inr x \<Rightarrow> [x]) results)
     \<and> distinct found \<and> set found = (\<Union>i \<in> set found_items. set (sp_tracking_ids i)) \<and> length found \<le> max_import_job_items)"

lemma preview_step_ok:
  assumes "preview_step src kind x st = Inr st'" and "preview_ok results st"
  shows "preview_ok (results @ [x]) st'"
proof -
  obtain source_id result found_items found responses where
    x: "x = (source_id, result)" and st: "st = (found_items, found, responses)" by (cases x, cases st) auto
  show ?thesis
  proof (cases result)
    case (Inl message)
    with assms show ?thesis by (auto simp: x st preview_step_def preview_ok_def)
  next
    case (Inr response)
    let ?ids = "response_ids (response_fields src response)"
    from assms(1) Inr obtain found' where extended: "extend_unique_bounded found ?ids = Inr found'"
      and st': "st' = (found_items @ [\<lparr>sp_source_item_id = source_id, sp_source_item_kind = kind,
        sp_status = Item_Succeeded, sp_tracking_ids = ?ids, sp_error_message = None\<rparr>], found', responses @ [response])"
      by (auto simp: x st preview_step_def Let_def and_then_Inr_iff)
    from assms(2) have ok: "distinct found" "length found \<le> max_import_job_items"
      "set found = (\<Union>i \<in> set found_items. set (sp_tracking_ids i))" by (simp_all add: st preview_ok_def)
    from extend_loop_Inr [OF extended [unfolded extend_unique_bounded_def] refl ok(1, 2)] ok(3) assms(2) Inr show ?thesis
      by (auto simp: x st st' preview_ok_def)
  qed
qed

lemma preview_fold_ok:
  "try_fold (preview_step src kind) results st = Inr st' \<Longrightarrow> preview_ok done st \<Longrightarrow> preview_ok (done @ results) st'"
proof (induction results arbitrary: st "done")
  case (Cons x results)
  then obtain st1 where st1: "preview_step src kind x st = Inr st1" "try_fold (preview_step src kind) results st1 = Inr st'"
    by (auto simp: and_then_Inr_iff)
  from Cons.IH [OF st1(2) preview_step_ok [OF st1(1) Cons.prems(2)]] show ?case by simp
qed simp

end
