(* ===== verification/CoreTypes.thy ===== *)
theory CoreTypes
  imports RustStrings
begin

text \<open>
  Types of \<open>shipflow-core/src/model.rs\<close> that several components share: the kinds
  of lookups, the errors of a lookup and the tracking-source configuration.
\<close>

datatype lookup_kind = Lookup_Track | Lookup_Bag | Lookup_Manifest

datatype tracking_error =
    Bad_Request string
  | Not_Found string
  | Rate_Limited string
  | Service_Unavailable string
  | Upstream_Failure string

datatype tracking_source = Source_Default | Source_External_Api

record tracking_source_config =
  ts_tracking_source :: tracking_source
  ts_external_api_base_url :: string
  ts_external_api_auth_token :: string
  ts_allow_insecure_external_api_http :: bool

fun error_text :: "tracking_error \<Rightarrow> string" where
  "error_text (Bad_Request m) = m"
| "error_text (Not_Found m) = m"
| "error_text (Rate_Limited m) = m"
| "error_text (Service_Unavailable m) = m"
| "error_text (Upstream_Failure m) = m"

text \<open>The text a failed lookup leaves on an import item or a row.\<close>

fun tracking_error_message :: "tracking_error \<Rightarrow> string" where
  "tracking_error_message (Bad_Request m) = ''bad request: '' @ m"
| "tracking_error_message (Not_Found m) = ''not found: '' @ m"
| "tracking_error_message (Rate_Limited m) = ''rate limited: '' @ m"
| "tracking_error_message (Service_Unavailable m) = ''service unavailable: '' @ m"
| "tracking_error_message (Upstream_Failure m) = ''upstream: '' @ m"

end
