(* ===== verification/LookupCache.thy ===== *)
theory LookupCache
  imports CoreTypes "HOL-Library.AList" "HOL-Library.Word"
begin

text \<open>
  The in-memory lookup cache of the service (\<open>lookup_cache.rs\<close>): the slots of the
  hash map, the decision for a lookup (\<open>next_action\<close>), the eviction
  (\<open>prune_lookup_cache\<close>), the ends of a fetch, the guard of a cancelled fetch, and
  the metrics.  Every operation here is one critical section under the cache's
  mutex; instants are parameters.  The hash map is an association list with
  distinct keys, whose order stands for the map's iteration order.
\<close>

subsection \<open>Slots and policy\<close>

datatype cached_lookup_error_kind =
  Err_Bad_Request | Err_Not_Found | Err_Rate_Limited | Err_Service_Unavailable | Err_Upstream

record cached_lookup_error =
  ce_kind :: cached_lookup_error_kind
  ce_message :: string

datatype cached_lookup_value = Cached_Success string | Cached_Error cached_lookup_error

record cached_lookup_entry =
  expires_at :: nat
  last_accessed_at :: nat
  entry_value :: cached_lookup_value

text \<open>A \<open>Notify\<close> is named by a number; \<open>Arc::ptr_eq\<close> is equality of the numbers.\<close>

datatype lookup_cache_slot = Ready cached_lookup_entry | Loading nat

record lookup_cache_policy =
  track_ttl :: nat
  bag_ttl :: nat
  manifest_ttl :: nat
  error_ttl :: nat

fun ttl_for :: "lookup_cache_policy \<Rightarrow> lookup_kind \<Rightarrow> nat" where
  "ttl_for policy Lookup_Track = track_ttl policy"
| "ttl_for policy Lookup_Bag = bag_ttl policy"
| "ttl_for policy Lookup_Manifest = manifest_ttl policy"

fun from_tracking_error :: "tracking_error \<Rightarrow> cached_lookup_error" where
  "from_tracking_error (Bad_Request m) = \<lparr>ce_kind = Err_Bad_Request, ce_message = m\<rparr>"
| "from_tracking_error (Not_Found m) = \<lparr>ce_kind = Err_Not_Found, ce_message = m\<rparr>"
| "from_tracking_error (Rate_Limited m) = \<lparr>ce_kind = Err_Rate_Limited, ce_message = m\<rparr>"
| "from_tracking_error (Service_Unavailable m) = \<lparr>ce_kind = Err_Service_Unavailable, ce_message = m\<rparr>"
| "from_tracking_error (Upstream_Failure m) = \<lparr>ce_kind = Err_Upstream, ce_message = m\<rparr>"

definition to_tracking_error :: "cached_lookup_error \<Rightarrow> tracking_error" where
  "to_tracking_error e =
     (case ce_kind e of
        Err_Bad_Request \<Rightarrow> Bad_Request (ce_message e)
      | Err_Not_Found \<Rightarrow> Not_Found (ce_message e)
      | Err_Rate_Limited \<Rightarrow> Rate_Limited (ce_message e)
      | Err_Service_Unavailable \<Rightarrow> Service_Unavailable (ce_message e)
      | Err_Upstream \<Rightarrow> Upstream_Failure (ce_message e))"

definition success_entry :: "nat \<Rightarrow> lookup_cache_policy \<Rightarrow> lookup_kind \<Rightarrow> string \<Rightarrow> cached_lookup_entry" where
  "success_entry now_at policy kind payload =
     \<lparr>expires_at = now_at + ttl_for policy kind, last_accessed_at = now_at,
      entry_value = Cached_Success payload\<rparr>"

definition error_entry :: "nat \<Rightarrow> lookup_cache_policy \<Rightarrow> tracking_error \<Rightarrow> cached_lookup_entry" where
  "error_entry now_at policy e =
     \<lparr>expires_at = now_at + error_ttl policy, last_accessed_at = now_at,
      entry_value = Cached_Error (from_tracking_error e)\<rparr>"

definition is_expired :: "nat \<Rightarrow> cached_lookup_entry \<Rightarrow> bool" where
  "is_expired now_at entry \<longleftrightarrow> expires_at entry \<le> now_at"

definition estimated_bytes :: "cached_lookup_entry \<Rightarrow> nat" where
  "estimated_bytes entry =
     (case entry_value entry of Cached_Success payload \<Rightarrow> length payload | Cached_Error e \<Rightarrow> length (ce_message e))"

subsection \<open>Metrics\<close>

datatype metric_event = Hit | Miss | Bypass | Stale | Coalesced | Store_Success | Store_Failure | Invalidation

record metric_bucket =
  hits :: nat
  misses :: nat
  bypasses :: nat
  stales :: nat
  coalesced :: nat
  store_successes :: nat
  store_errors :: nat
  invalidations :: nat

record lookup_cache_metrics =
  overall :: metric_bucket
  track_bucket :: metric_bucket
  bag_bucket :: metric_bucket
  manifest_bucket :: metric_bucket
  last_summary_total :: nat
  last_summary_at :: "nat option"

fun record_in :: "metric_event \<Rightarrow> metric_bucket \<Rightarrow> metric_bucket" where
  "record_in Hit b = b\<lparr>hits := hits b + 1\<rparr>"
| "record_in Miss b = b\<lparr>misses := misses b + 1\<rparr>"
| "record_in Bypass b = b\<lparr>bypasses := bypasses b + 1\<rparr>"
| "record_in Stale b = b\<lparr>stales := stales b + 1\<rparr>"
| "record_in Coalesced b = b\<lparr>coalesced := coalesced b + 1\<rparr>"
| "record_in Store_Success b = b\<lparr>store_successes := store_successes b + 1\<rparr>"
| "record_in Store_Failure b = b\<lparr>store_errors := store_errors b + 1\<rparr>"
| "record_in Invalidation b = b\<lparr>invalidations := invalidations b + 1\<rparr>"

definition total_events :: "metric_bucket \<Rightarrow> nat" where
  "total_events b = hits b + misses b + bypasses b + stales b + coalesced b
     + store_successes b + store_errors b + invalidations b"

definition needed_fetch :: "metric_bucket \<Rightarrow> nat" where
  "needed_fetch b = misses b + bypasses b + stales b"

abbreviation "cache_summary_min_events \<equiv> (20 :: nat)"
abbreviation "cache_summary_min_interval_secs \<equiv> (60 :: nat)"

datatype summary_reason = Threshold | Interval | Invalidated

text \<open>
  The reason and the total of a summary line, if one is due; \<open>now_at\<close> is in the
  unit \<open>second\<close> counts.
\<close>

definition maybe_build_summary ::
  "nat \<Rightarrow> nat \<Rightarrow> lookup_cache_metrics \<Rightarrow> (summary_reason \<times> nat) option \<times> lookup_cache_metrics" where
  "maybe_build_summary second now_at m =
     (let n = total_events (overall m);
          reason = (case last_summary_at m of
             None \<Rightarrow> if cache_summary_min_events \<le> n then Some Threshold else None
           | Some t \<Rightarrow>
               let since_last_count = n - last_summary_total m
               in if cache_summary_min_events \<le> since_last_count then Some Threshold
                  else if 0 < since_last_count \<and> cache_summary_min_interval_secs * second \<le> now_at - t
                  then Some Interval else None)
      in case reason of
           None \<Rightarrow> (None, m)
         | Some r \<Rightarrow> (Some (r, n), m\<lparr>last_summary_total := n, last_summary_at := Some now_at\<rparr>))"

definition bucket_update ::
  "lookup_kind \<Rightarrow> (metric_bucket \<Rightarrow> metric_bucket) \<Rightarrow> lookup_cache_metrics \<Rightarrow> lookup_cache_metrics" where
  "bucket_update kind f m =
     (case kind of
        Lookup_Track \<Rightarrow> m\<lparr>track_bucket := f (track_bucket m)\<rparr>
      | Lookup_Bag \<Rightarrow> m\<lparr>bag_bucket := f (bag_bucket m)\<rparr>
      | Lookup_Manifest \<Rightarrow> m\<lparr>manifest_bucket := f (manifest_bucket m)\<rparr>)"

definition record_event ::
  "nat \<Rightarrow> nat \<Rightarrow> lookup_kind \<Rightarrow> metric_event \<Rightarrow> lookup_cache_metrics
   \<Rightarrow> (summary_reason \<times> nat) option \<times> lookup_cache_metrics" where
  "record_event second now_at kind event m =
     maybe_build_summary second now_at
       (bucket_update kind (record_in event) (m\<lparr>overall := record_in event (overall m)\<rparr>))"

definition record_invalidation ::
  "nat \<Rightarrow> lookup_cache_metrics \<Rightarrow> (summary_reason \<times> nat) option \<times> lookup_cache_metrics" where
  "record_invalidation now_at m =
     (let m1 = m\<lparr>overall := record_in Invalidation (overall m)\<rparr>;
          n = total_events (overall m1)
      in (Some (Invalidated, n), m1\<lparr>last_summary_total := n, last_summary_at := Some now_at\<rparr>))"

subsection \<open>The map and its eviction\<close>

type_synonym slots = "(string \<times> lookup_cache_slot) list"

text \<open>\<open>next_notify\<close> is the name the next \<open>Notify\<close> gets.\<close>

record lookup_cache_inner =
  max_entries :: nat
  max_bytes :: nat
  entries :: slots
  generation :: "64 word"
  metrics :: lookup_cache_metrics
  next_notify :: nat

fun slot_bytes :: "lookup_cache_slot \<Rightarrow> nat" where
  "slot_bytes (Ready entry) = estimated_bytes entry"
| "slot_bytes (Loading _) = 0"

fun is_loading :: "lookup_cache_slot \<Rightarrow> bool" where
  "is_loading (Ready _) = False"
| "is_loading (Loading _) = True"

record lookup_cache_snapshot =
  cs_ready :: nat
  cs_loading :: nat
  cs_capacity :: nat
  cs_bytes :: nat
  cs_byte_capacity :: nat

definition snapshot_lookup_cache :: "lookup_cache_inner \<Rightarrow> lookup_cache_snapshot" where
  "snapshot_lookup_cache inner =
     \<lparr>cs_ready = count_where (\<lambda>(k, slot). \<not> is_loading slot) (entries inner),
      cs_loading = count_where (\<lambda>(k, slot). is_loading slot) (entries inner),
      cs_capacity = max_entries inner,
      cs_bytes = fold (\<lambda>(k, slot) total. saturating_add u64_max total (slot_bytes slot)) (entries inner) 0,
      cs_byte_capacity = max_bytes inner\<rparr>"

fun keep_unexpired :: "nat \<Rightarrow> lookup_cache_slot \<Rightarrow> bool" where
  "keep_unexpired now_at (Ready entry) \<longleftrightarrow> \<not> is_expired now_at entry"
| "keep_unexpired now_at (Loading _) \<longleftrightarrow> True"

fun ready_entries :: "slots \<Rightarrow> (string \<times> nat \<times> nat) list" where
  "ready_entries [] = []"
| "ready_entries ((k, Ready entry) # es) = (k, last_accessed_at entry, estimated_bytes entry) # ready_entries es"
| "ready_entries ((k, Loading _) # es) = ready_entries es"

text \<open>The eviction loop over the ready entries, oldest access first.\<close>

fun evict :: "nat \<Rightarrow> nat \<Rightarrow> (string \<times> nat \<times> nat) list \<Rightarrow> nat \<Rightarrow> nat \<Rightarrow> slots \<Rightarrow> slots" where
  "evict allowed_ready byte_limit [] ready_count ready_bytes es = es"
| "evict allowed_ready byte_limit ((k, _, bytes) # rest) ready_count ready_bytes es =
     (if ready_count \<le> allowed_ready \<and> ready_bytes \<le> byte_limit then es
      else if map_of es k \<noteq> None
      then evict allowed_ready byte_limit rest (ready_count - 1) (ready_bytes - bytes) (AList.delete k es)
      else evict allowed_ready byte_limit rest ready_count ready_bytes es)"

definition prune_lookup_cache_with_limits :: "nat \<Rightarrow> nat \<Rightarrow> nat \<Rightarrow> slots \<Rightarrow> slots" where
  "prune_lookup_cache_with_limits now_at entry_limit byte_limit es =
     (let live = filter (\<lambda>(k, slot). keep_unexpired now_at slot) es;
          loading = count_where (\<lambda>(k, slot). is_loading slot) live;
          allowed_ready = entry_limit - loading;
          ready = sort_key (\<lambda>(k, accessed, bytes). accessed) (ready_entries live)
      in evict allowed_ready byte_limit ready (length ready)
           (fold (\<lambda>(k, accessed, bytes) total. saturating_add u64_max total bytes) ready 0) live)"

definition prune_lookup_cache :: "nat \<Rightarrow> lookup_cache_inner \<Rightarrow> lookup_cache_inner" where
  "prune_lookup_cache now_at inner =
     inner\<lparr>entries := prune_lookup_cache_with_limits now_at (max_entries inner) (max_bytes inner) (entries inner)\<rparr>"

subsection \<open>Critical sections\<close>

datatype lookup_cache_action =
    Return_Entry cached_lookup_entry
  | Start_Fetch nat "64 word" bool
  | Wait_For nat
  | Reject tracking_error

definition put_slot :: "string \<Rightarrow> lookup_cache_slot \<Rightarrow> lookup_cache_inner \<Rightarrow> lookup_cache_inner" where
  "put_slot key slot inner = inner\<lparr>entries := AList.update key slot (entries inner)\<rparr>"

definition drop_slot :: "string \<Rightarrow> lookup_cache_inner \<Rightarrow> lookup_cache_inner" where
  "drop_slot key inner = inner\<lparr>entries := AList.delete key (entries inner)\<rparr>"

definition recorded :: "nat \<Rightarrow> nat \<Rightarrow> lookup_kind \<Rightarrow> metric_event \<Rightarrow> lookup_cache_inner \<Rightarrow> lookup_cache_inner" where
  "recorded second now_at kind event inner =
     inner\<lparr>metrics := snd (record_event second now_at kind event (metrics inner))\<rparr>"

text \<open>A new \<open>Notify\<close> and its loading slot.\<close>

definition start_loading :: "string \<Rightarrow> lookup_cache_inner \<Rightarrow> lookup_cache_inner" where
  "start_loading key inner =
     (put_slot key (Loading (next_notify inner)) inner)\<lparr>next_notify := next_notify inner + 1\<rparr>"

definition capacity_message :: string where
  "capacity_message = ''The in-memory lookup cache is at capacity. Please retry shortly.''"

definition next_action ::
  "nat \<Rightarrow> nat \<Rightarrow> string \<Rightarrow> lookup_kind \<Rightarrow> bool \<Rightarrow> lookup_cache_inner
   \<Rightarrow> lookup_cache_action \<times> lookup_cache_inner" where
  "next_action second now_at key kind force_refresh inner =
     (case map_of (entries inner) key of
        Some (Loading n) \<Rightarrow> (Wait_For n, recorded second now_at kind Coalesced inner)
      | Some (Ready entry) \<Rightarrow>
          if \<not> force_refresh \<and> \<not> is_expired now_at entry
          then let entry = entry\<lparr>last_accessed_at := now_at\<rparr>
               in (Return_Entry entry, recorded second now_at kind Hit (put_slot key (Ready entry) inner))
          else let event = (if force_refresh then Bypass else Stale);
                   inner = recorded second now_at kind event inner
               in (Start_Fetch (next_notify inner) (generation inner) False,
                   prune_lookup_cache now_at (start_loading key inner))
      | None \<Rightarrow>
          let inner = prune_lookup_cache now_at (recorded second now_at kind Miss inner)
          in if max_entries inner \<le> length (entries inner)
             then (Reject (Service_Unavailable capacity_message), inner)
             else (Start_Fetch (next_notify inner) (generation inner) True, start_loading key inner))"

abbreviation "max_in_memory_lookup_cache_entry_bytes \<equiv> (1048576 :: nat)"

text \<open>
  The slot is still the fetch's own: same generation, and loading with its
  \<open>Notify\<close>.
\<close>

definition owns_loading_slot :: "string \<Rightarrow> 64 word \<Rightarrow> nat \<Rightarrow> lookup_cache_inner \<Rightarrow> bool" where
  "owns_loading_slot key g n inner \<longleftrightarrow>
     generation inner = g \<and> map_of (entries inner) key = Some (Loading n)"

definition resolve_persistent_cache_slot ::
  "nat \<Rightarrow> nat \<Rightarrow> lookup_cache_policy \<Rightarrow> string \<Rightarrow> lookup_kind \<Rightarrow> string \<Rightarrow> 64 word \<Rightarrow> nat
   \<Rightarrow> lookup_cache_inner \<Rightarrow> bool \<times> lookup_cache_inner" where
  "resolve_persistent_cache_slot entry_now prune_now policy key kind payload g n inner =
     (if \<not> owns_loading_slot key g n inner then (False, inner)
      else if max_in_memory_lookup_cache_entry_bytes < length payload then (False, drop_slot key inner)
      else (True, prune_lookup_cache prune_now
                    (put_slot key (Ready (success_entry entry_now policy kind payload)) inner)))"

datatype lookup_loader_error = Cacheable tracking_error | Non_Cacheable tracking_error

fun into_tracking_error :: "lookup_loader_error \<Rightarrow> tracking_error" where
  "into_tracking_error (Cacheable e) = e"
| "into_tracking_error (Non_Cacheable e) = e"

text \<open>
  What a finished load leaves in the cache: \<open>payload\<close> is the serialized value
  (\<open>None\<close> when it does not serialize).
\<close>

fun cached_entry ::
  "nat \<Rightarrow> lookup_cache_policy \<Rightarrow> lookup_kind \<Rightarrow> lookup_loader_error + string option \<Rightarrow> cached_lookup_entry option" where
  "cached_entry now_at policy kind (Inr (Some payload)) =
     (if length payload \<le> max_in_memory_lookup_cache_entry_bytes
      then Some (success_entry now_at policy kind payload) else None)"
| "cached_entry now_at policy kind (Inr None) = None"
| "cached_entry now_at policy kind (Inl (Cacheable e)) = Some (error_entry now_at policy e)"
| "cached_entry now_at policy kind (Inl (Non_Cacheable e)) = None"

definition finish_fetch ::
  "nat \<Rightarrow> nat \<Rightarrow> nat \<Rightarrow> lookup_cache_policy \<Rightarrow> string \<Rightarrow> lookup_kind \<Rightarrow> 64 word
   \<Rightarrow> lookup_loader_error + string option \<Rightarrow> lookup_cache_inner \<Rightarrow> lookup_cache_inner" where
  "finish_fetch second entry_now prune_now policy key kind g result inner =
     recorded second prune_now kind (case result of Inl _ \<Rightarrow> Store_Failure | Inr _ \<Rightarrow> Store_Success)
       (if generation inner = g
        then (case cached_entry entry_now policy kind result of
                Some entry \<Rightarrow> prune_lookup_cache prune_now (put_slot key (Ready entry) inner)
              | None \<Rightarrow> drop_slot key inner)
        else inner)"

text \<open>The guard of a fetch that is dropped before it finished.\<close>

definition drop_fetch_guard :: "string \<Rightarrow> 64 word \<Rightarrow> nat \<Rightarrow> lookup_cache_inner \<Rightarrow> lookup_cache_inner" where
  "drop_fetch_guard key g n inner = (if owns_loading_slot key g n inner then drop_slot key inner else inner)"

definition invalidate_all :: "nat \<Rightarrow> lookup_cache_inner \<Rightarrow> lookup_cache_inner" where
  "invalidate_all now_at inner =
     inner\<lparr>generation := generation inner + 1, entries := [],
           metrics := snd (record_invalidation now_at (metrics inner))\<rparr>"

subsection \<open>Cache keys\<close>

definition build_cache_key :: "lookup_kind \<Rightarrow> string \<Rightarrow> string \<Rightarrow> string" where
  "build_cache_key kind source_fingerprint normalized_id =
     (case kind of Lookup_Track \<Rightarrow> ''track:v2'' | Lookup_Manifest \<Rightarrow> ''manifest:v2'' | Lookup_Bag \<Rightarrow> ''bag'')
     @ '':'' @ source_fingerprint @ '':'' @ normalized_id"

definition tracking_source_label :: "tracking_source \<Rightarrow> string" where
  "tracking_source_label source =
     (case source of Source_Default \<Rightarrow> ''default'' | Source_External_Api \<Rightarrow> ''external_api'')"

text \<open>\<open>hash_string\<close> is the standard library's \<open>DefaultHasher\<close>: a parameter.\<close>

definition source_fingerprint_for_lookup :: "(string \<Rightarrow> string) \<Rightarrow> tracking_source_config \<Rightarrow> string" where
  "source_fingerprint_for_lookup hash_string config =
     (let normalized_base_url = to_ascii_lowercase
            (rev (dropWhile (\<lambda>c. c = CHR ''/'') (rev (trim (ts_external_api_base_url config)))))
      in tracking_source_label (ts_tracking_source config) @ '':'' @ normalized_base_url @ '':''
         @ (if ts_allow_insecure_external_api_http config then ''true'' else ''false'') @ '':''
         @ hash_string (trim (ts_external_api_auth_token config)))"

subsection \<open>What eviction keeps\<close>

definition bytes_of :: "(string \<times> nat \<times> nat) list \<Rightarrow> nat" where
  "bytes_of rs = sum_list (map (\<lambda>(k, accessed, bytes). bytes) rs)"

definition ready_size :: "slots \<Rightarrow> nat" where
  "ready_size es = sum_list (map (slot_bytes \<circ> snd) es)"

lemma bytes_of_simps [simp]:
  "bytes_of [] = 0"
  "bytes_of ((k, a, b) # rs) = b + bytes_of rs"
  by (simp_all add: bytes_of_def)

lemma ready_size_simps [simp]:
  "ready_size [] = 0"
  "ready_size ((k, slot) # es) = slot_bytes slot + ready_size es"
  by (simp_all add: ready_size_def)

lemma bytes_of_mset: "mset rs = mset qs \<Longrightarrow> bytes_of rs = bytes_of qs"
  unfolding bytes_of_def by (metis mset_map sum_mset_sum_list)

lemma bytes_of_ready_entries: "bytes_of (ready_entries es) = ready_size es"
  by (induction es rule: ready_entries.induct) simp_all

lemma length_ready_entries: "length (ready_entries es) = count_where (\<lambda>(k, slot). \<not> is_loading slot) es"
  by (induction es rule: ready_entries.induct) simp_all

lemma in_ready_entries:
  "(k, a, b) \<in> set (ready_entries es) \<longleftrightarrow>
     (\<exists>entry. (k, Ready entry) \<in> set es \<and> a = last_accessed_at entry \<and> b = estimated_bytes entry)"
  by (induction es rule: ready_entries.induct) auto

lemma fold_saturating:
  "a \<le> lim \<Longrightarrow> fold (\<lambda>(k, x, bytes) n. saturating_add lim n bytes) rs a = min lim (a + bytes_of rs)"
  by (induction rs arbitrary: a) (auto simp: saturating_add_def)

lemma distinct_delete_keys: "distinct (map fst es) \<Longrightarrow> distinct (map fst (AList.delete k es))"
  by (rule AList.distinct_delete)

lemma delete_filter: "AList.delete k es = filter (\<lambda>(k', _). k' \<noteq> k) es"
  by (simp add: AList.delete_eq) (metis (mono_tags, lifting) case_prod_unfold)

lemma fst_ready_entries: "fst ` set (ready_entries es) \<subseteq> fst ` set es"
  by (induction es rule: ready_entries.induct) auto

lemma mset_ready_entries_delete:
  assumes "distinct (map fst es)" "mset (ready_entries es) = mset ((k, a, b) # rs)"
  shows "mset (ready_entries (AList.delete k es)) = mset rs"
  using assms
proof (induction es arbitrary: rs rule: ready_entries.induct)
  case (2 k' entry es)
  show ?case
  proof (cases "k' = k")
    case True
    then have "AList.delete k es = es" using 2(2) by (simp add: AList.delete_id)
    moreover have "(k, a, b) = (k', last_accessed_at entry, estimated_bytes entry)"
    proof -
      have "(k, a, b) \<in># mset (ready_entries ((k', Ready entry) # es))" using 2(3) by simp
      then consider "(k, a, b) = (k', last_accessed_at entry, estimated_bytes entry)" | "(k, a, b) \<in> set (ready_entries es)"
        by auto
      then show ?thesis
        using fst_ready_entries [of es] 2(2) True by cases force+
    qed
    ultimately show ?thesis using 2(3) True by simp
  next
    case False
    have "(k', last_accessed_at entry, estimated_bytes entry) \<in># mset ((k, a, b) # rs)"
      by (subst 2(3) [symmetric]) simp
    with False have "(k', last_accessed_at entry, estimated_bytes entry) \<in># mset rs" by auto
    then obtain rs' where rs: "mset rs = add_mset (k', last_accessed_at entry, estimated_bytes entry) (mset rs')"
      by (metis ex_mset multi_member_split)
    have "mset (ready_entries es) = mset ((k, a, b) # rs')"
      using 2(3) rs by (simp add: add_mset_commute)
    from 2(1) [OF _ this] 2(2) rs False show ?thesis by simp
  qed
qed (auto split: if_splits)

lemma in_ready_entries_map_of:
  "distinct (map fst es) \<Longrightarrow> (k, a, b) \<in> set (ready_entries es) \<Longrightarrow> map_of es k \<noteq> None"
  using fst_ready_entries [of es] by (force simp: map_of_eq_None_iff)

text \<open>The loop removes the shortest prefix of the access order that is enough.\<close>

lemma evict_spec:
  assumes "distinct (map fst es)" "mset (ready_entries es) = mset rest"
  shows "\<exists>n \<le> length rest.
    evict allowed lim rest (length rest) (bytes_of rest) es
      = filter (\<lambda>(k, _). k \<notin> fst ` set (take n rest)) es
    \<and> mset (ready_entries (filter (\<lambda>(k, _). k \<notin> fst ` set (take n rest)) es)) = mset (drop n rest)
    \<and> length (drop n rest) \<le> allowed \<and> bytes_of (drop n rest) \<le> lim
    \<and> (length rest \<le> allowed \<and> bytes_of rest \<le> lim \<longrightarrow> n = 0)"
  using assms
proof (induction rest arbitrary: es)
  case Nil
  then show ?case by (intro exI [of _ 0]) simp
next
  case (Cons r rest)
  obtain k a b where r: "r = (k, a, b)" by (cases r) auto
  show ?case
  proof (cases "length (r # rest) \<le> allowed \<and> bytes_of (r # rest) \<le> lim")
    case True
    with Cons.prems r show ?thesis by (intro exI [of _ 0]) simp
  next
    case False
    have present: "map_of es k \<noteq> None"
    proof (rule in_ready_entries_map_of [OF Cons.prems(1)])
      show "(k, a, b) \<in> set (ready_entries es)"
        using arg_cong [OF Cons.prems(2), of set_mset] r by auto
    qed
    have step: "evict allowed lim (r # rest) (length (r # rest)) (bytes_of (r # rest)) es
        = evict allowed lim rest (length rest) (bytes_of rest) (AList.delete k es)"
      using False present r by auto
    have "mset (ready_entries (AList.delete k es)) = mset rest"
      using mset_ready_entries_delete [OF Cons.prems(1)] Cons.prems(2) r by simp
    from Cons.IH [OF distinct_delete_keys [OF Cons.prems(1)] this]
    obtain n where n: "n \<le> length rest"
      "evict allowed lim rest (length rest) (bytes_of rest) (AList.delete k es)
        = filter (\<lambda>(k, _). k \<notin> fst ` set (take n rest)) (AList.delete k es)"
      "mset (ready_entries (filter (\<lambda>(k, _). k \<notin> fst ` set (take n rest)) (AList.delete k es))) = mset (drop n rest)"
      "length (drop n rest) \<le> allowed" "bytes_of (drop n rest) \<le> lim"
      by blast
    have same: "filter (\<lambda>(k', _). k' \<notin> fst ` set (take n rest)) (AList.delete k es)
      = filter (\<lambda>(k', _). k' \<notin> fst ` set (take (Suc n) (r # rest))) es"
      unfolding delete_filter filter_filter r by (rule filter_cong) auto
    show ?thesis
    proof (intro exI [of _ "Suc n"] conjI)
      show "evict allowed lim (r # rest) (length (r # rest)) (bytes_of (r # rest)) es
        = filter (\<lambda>(k, _). k \<notin> fst ` set (take (Suc n) (r # rest))) es"
        unfolding step n(2) same by (rule refl)
      show "mset (ready_entries (filter (\<lambda>(k, _). k \<notin> fst ` set (take (Suc n) (r # rest))) es))
        = mset (drop (Suc n) (r # rest))"
        using n(3) unfolding same by simp
    qed (use n False in simp_all)
  qed
qed

text \<open>The eviction as a whole.\<close>

definition fits :: "nat \<Rightarrow> nat \<Rightarrow> slots \<Rightarrow> bool" where
  "fits entry_limit byte_limit es \<longleftrightarrow>
     count_where (\<lambda>(k, slot). \<not> is_loading slot) es
       \<le> entry_limit - count_where (\<lambda>(k, slot). is_loading slot) es
     \<and> ready_size es \<le> byte_limit"

end
