(* ===== verification/LookupCacheFacts.thy ===== *)
theory LookupCacheFacts
  imports LookupCache
begin

text \<open>
  Facts on the critical sections of the lookup cache: what the eviction keeps and
  removes, how each section changes the slot of a key, and that the number of
  slots and the bytes of the ready entries stay within the configured limits.
\<close>

subsection \<open>The eviction\<close>

definition slots_ok :: "slots \<Rightarrow> bool" where
  "slots_ok es \<longleftrightarrow> distinct (map fst es)"

lemma evict_keeps:
  assumes "distinct (map fst es)"
  shows "set (evict allowed lim rest c b es) \<subseteq> set es
    \<and> distinct (map fst (evict allowed lim rest c b es))
    \<and> (\<forall>k slot. (k, slot) \<in> set es \<and> k \<notin> fst ` set rest \<longrightarrow> (k, slot) \<in> set (evict allowed lim rest c b es))"
  using assms
proof (induction allowed lim rest c b es rule: evict.induct)
  case (2 allowed lim k a bytes rest c b es)
  have *: "distinct (map fst (AList.delete k es))" "set (AList.delete k es) = {x \<in> set es. fst x \<noteq> k}"
    using distinct_delete_keys [OF 2(3)] by (auto simp: delete_filter)
  show ?case
  proof (cases "c \<le> allowed \<and> b \<le> lim")
    case True
    with 2(3) show ?thesis by simp
  next
    case False
    show ?thesis
    proof (cases "map_of es k = None")
      case True
      with False 2(2) [OF False _ 2(3)] show ?thesis by auto
    next
      case hit: False
      from 2(1) [OF False hit *(1)] False hit show ?thesis by (auto simp: *(2))
    qed
  qed
qed simp

abbreviation live_slots :: "nat \<Rightarrow> slots \<Rightarrow> slots" where
  "live_slots now_at es \<equiv> filter (\<lambda>(k, slot). keep_unexpired now_at slot) es"

lemma prune_keeps:
  assumes "slots_ok es" and out: "out = prune_lookup_cache_with_limits now_at e b es"
  shows "slots_ok out" "set out \<subseteq> set es"
    and "map_of out k = Some (Loading n) \<longleftrightarrow> map_of es k = Some (Loading n)"
    and "map_of out k = Some (Ready entry) \<Longrightarrow> map_of es k = Some (Ready entry) \<and> \<not> is_expired now_at entry"
    and "map_of es k = None \<Longrightarrow> map_of out k = None"
proof -
  define live where "live = live_slots now_at es"
  define rest where "rest = sort_key (\<lambda>(k, accessed, bytes). accessed) (ready_entries live)"
  have dl: "distinct (map fst live)"
    using assms(1) unfolding live_def slots_ok_def by (rule distinct_map_filter)
  obtain c d where o: "out = evict (e - count_where (\<lambda>(k, slot). is_loading slot) live) b rest c d live"
    unfolding out prune_lookup_cache_with_limits_def Let_def live_def rest_def by blast
  note kept = evict_keeps [OF dl, of "e - count_where (\<lambda>(k, slot). is_loading slot) live" b rest c d, folded o]
  then show ok: "slots_ok out" by (simp add: slots_ok_def)
  have sub: "set out \<subseteq> set live" using kept by blast
  then show sub': "set out \<subseteq> set es" by (auto simp: live_def)
  have des: "distinct (map fst es)" "distinct (map fst out)" using assms(1) ok by (simp_all add: slots_ok_def)
  have rest_keys: "k \<notin> fst ` set rest" if "(k, Loading n) \<in> set live" for k n
  proof
    assume "k \<in> fst ` set rest"
    then obtain a b where "(k, a, b) \<in> set (ready_entries live)" unfolding rest_def by auto
    then obtain entry where "(k, Ready entry) \<in> set live" by (auto simp: in_ready_entries)
    with that dl show False by (metis eq_key_imp_eq_value lookup_cache_slot.distinct(1))
  qed
  have "(k, Loading n) \<in> set out \<longleftrightarrow> (k, Loading n) \<in> set es"
    using sub' kept rest_keys [of k n] by (auto simp: live_def)
  then show "map_of out k = Some (Loading n) \<longleftrightarrow> map_of es k = Some (Loading n)"
    using des by simp
  show "map_of out k = Some (Ready entry) \<Longrightarrow> map_of es k = Some (Ready entry) \<and> \<not> is_expired now_at entry"
    using sub des by (auto simp: live_def dest!: map_of_SomeD)
  show "map_of es k = None \<Longrightarrow> map_of out k = None"
    using sub' by (force simp: map_of_eq_None_iff)
qed

lemma prune_fits:
  assumes "slots_ok es" "ready_size es \<le> u64_max"
  shows "\<exists>n. let live = live_slots now_at es;
             order = sort_key (\<lambda>(k, accessed, bytes). accessed) (ready_entries live);
             out = prune_lookup_cache_with_limits now_at e b es
         in n \<le> length order \<and> out = filter (\<lambda>(k, _). k \<notin> fst ` set (take n order)) live
          \<and> count_where (\<lambda>(k, slot). \<not> is_loading slot) out \<le> e - count_where (\<lambda>(k, slot). is_loading slot) live
          \<and> ready_size out \<le> b
          \<and> (count_where (\<lambda>(k, slot). \<not> is_loading slot) live \<le> e - count_where (\<lambda>(k, slot). is_loading slot) live
               \<and> ready_size live \<le> b \<longrightarrow> n = 0)"
proof -
  define live where "live = live_slots now_at es"
  define rest where "rest = sort_key (\<lambda>(k, accessed, bytes). accessed) (ready_entries live)"
  define lim where "lim = e - count_where (\<lambda>(k, slot). is_loading slot) live"
  have dl: "distinct (map fst live)"
    using assms(1) unfolding live_def slots_ok_def by (rule distinct_map_filter)
  have perm: "mset (ready_entries live) = mset rest" by (simp add: rest_def)
  have "ready_size live \<le> ready_size es" unfolding live_def by (induction es) auto
  then have "fold (\<lambda>(k, accessed, bytes) total. saturating_add u64_max total bytes) rest 0 = bytes_of rest"
    using assms(2) bytes_of_mset [OF perm] by (simp add: fold_saturating bytes_of_ready_entries)
  then have out: "prune_lookup_cache_with_limits now_at e b es = evict lim b rest (length rest) (bytes_of rest) live"
    unfolding prune_lookup_cache_with_limits_def Let_def live_def [symmetric] rest_def [symmetric] lim_def by simp
  obtain n where n: "n \<le> length rest"
    "evict lim b rest (length rest) (bytes_of rest) live = filter (\<lambda>(k, _). k \<notin> fst ` set (take n rest)) live"
    "mset (ready_entries (filter (\<lambda>(k, _). k \<notin> fst ` set (take n rest)) live)) = mset (drop n rest)"
    "length (drop n rest) \<le> lim" "bytes_of (drop n rest) \<le> b"
    "length rest \<le> lim \<and> bytes_of rest \<le> b \<longrightarrow> n = 0"
    using evict_spec [OF dl perm, of lim b] by blast
  define kept where "kept = filter (\<lambda>(k, _). k \<notin> fst ` set (take n rest)) live"
  have count: "count_where (\<lambda>(k, slot). \<not> is_loading slot) kept = length (drop n rest)"
    using mset_eq_length [OF n(3)] unfolding length_ready_entries kept_def .
  have size: "ready_size kept = bytes_of (drop n rest)"
    using bytes_of_mset [OF n(3)] unfolding bytes_of_ready_entries kept_def .
  have whole: "count_where (\<lambda>(k, slot). \<not> is_loading slot) live = length rest" "ready_size live = bytes_of rest"
    using mset_eq_length [OF perm] bytes_of_mset [OF perm] by (simp_all add: length_ready_entries bytes_of_ready_entries)
  show ?thesis
    unfolding Let_def live_def [symmetric] rest_def [symmetric] out n(2) kept_def [symmetric] lim_def [symmetric]
    using n(1,4-6) count size whole kept_def by (intro exI [of _ n]) simp
qed

subsection \<open>Limits\<close>

lemma length_slots:
  "length es = count_where (\<lambda>(k, slot). \<not> is_loading slot) es + count_where (\<lambda>(k, slot). is_loading slot) es"
  by (induction es) auto

lemma ready_size_filter: "ready_size (filter p es) \<le> ready_size es"
  by (induction es) auto

lemma loading_live:
  "count_where (\<lambda>(k, slot). is_loading slot) (live_slots now_at es) = count_where (\<lambda>(k, slot). is_loading slot) es"
proof (induction es)
  case (Cons x es)
  then show ?case by (cases "snd x") (auto split: prod.splits)
qed simp

lemma prune_limits:
  assumes "slots_ok es" "ready_size es \<le> u64_max" "count_where (\<lambda>(k, slot). is_loading slot) es \<le> e"
  shows "length (prune_lookup_cache_with_limits now_at e b es) \<le> e"
    and "ready_size (prune_lookup_cache_with_limits now_at e b es) \<le> b"
proof -
  define order where "order = sort_key (\<lambda>(k :: string, accessed :: nat, bytes :: nat). accessed) (ready_entries (live_slots now_at es))"
  obtain n where out: "prune_lookup_cache_with_limits now_at e b es
        = filter (\<lambda>(k, _). k \<notin> fst ` set (take n order)) (live_slots now_at es)"
    and lim: "count_where (\<lambda>(k, slot). \<not> is_loading slot) (prune_lookup_cache_with_limits now_at e b es)
      \<le> e - count_where (\<lambda>(k, slot). is_loading slot) es" "ready_size (prune_lookup_cache_with_limits now_at e b es) \<le> b"
    using prune_fits [OF assms(1,2), of now_at e b] unfolding Let_def loading_live order_def [symmetric]
    by (elim exE conjE) (rule that)
  have "count_where (\<lambda>(k, slot). is_loading slot) (prune_lookup_cache_with_limits now_at e b es)
    \<le> count_where (\<lambda>(k, slot). is_loading slot) (live_slots now_at es)"
    unfolding out by (rule count_where_filter_le)
  then show "length (prune_lookup_cache_with_limits now_at e b es) \<le> e"
    using lim(1) assms(3) unfolding length_slots [of "prune_lookup_cache_with_limits now_at e b es"]
    by (simp add: loading_live)
  show "ready_size (prune_lookup_cache_with_limits now_at e b es) \<le> b" by (fact lim(2))
qed

lemma update_limits:
  assumes "slots_ok es"
  shows "slots_ok (AList.update k slot es)"
    and "length (AList.update k slot es) = (if map_of es k = None then Suc (length es) else length es)"
    and "ready_size (AList.update k slot es) \<le> ready_size es + slot_bytes slot"
    and "count_where (\<lambda>(k, slot). is_loading slot) (AList.update k slot es)
      \<le> (if is_loading slot \<and> map_of es k = None then Suc (length es) else length es)"
proof -
  show "slots_ok (AList.update k slot es)"
    using assms unfolding slots_ok_def by (rule AList.distinct_update)
  show len: "length (AList.update k slot es) = (if map_of es k = None then Suc (length es) else length es)"
    by (induction es) auto
  show "ready_size (AList.update k slot es) \<le> ready_size es + slot_bytes slot"
    by (induction es) auto
  have "count_where (\<lambda>(k, slot). is_loading slot) (AList.update k slot es) \<le> length es" if "\<not> is_loading slot"
    using that by (induction es) (auto intro: le_SucI count_where_le_length)
  then show "count_where (\<lambda>(k, slot). is_loading slot) (AList.update k slot es)
      \<le> (if is_loading slot \<and> map_of es k = None then Suc (length es) else length es)"
    using count_where_le_length [of "\<lambda>(k, slot). is_loading slot" "AList.update k slot es"]
    by (auto simp: len)
qed

lemma delete_limits:
  assumes "slots_ok es"
  shows "slots_ok (AList.delete k es)" "length (AList.delete k es) \<le> length es"
    "ready_size (AList.delete k es) \<le> ready_size es"
  using assms by (simp_all add: slots_ok_def distinct_delete_keys AList.length_delete_le)
    (simp add: delete_filter ready_size_filter)

text \<open>
  The configured limits hold and every loading slot's \<open>Notify\<close> has been created.
  The byte limit is at most \<open>2 ^ 63\<close>, as \<open>RuntimeOptions::validate\<close> ensures.
\<close>

definition inner_ok :: "lookup_cache_inner \<Rightarrow> bool" where
  "inner_ok inner \<longleftrightarrow> slots_ok (entries inner) \<and> length (entries inner) \<le> max_entries inner
     \<and> ready_size (entries inner) \<le> max_bytes inner \<and> max_bytes inner \<le> 2 ^ 63
     \<and> (\<forall>k n. map_of (entries inner) k = Some (Loading n) \<longrightarrow> n < next_notify inner)"

lemma inner_okD:
  assumes "inner_ok inner"
  shows "slots_ok (entries inner)" "length (entries inner) \<le> max_entries inner"
    "ready_size (entries inner) \<le> max_bytes inner" "max_bytes inner \<le> 2 ^ 63"
    "map_of (entries inner) k = Some (Loading n) \<Longrightarrow> n < next_notify inner"
  using assms by (auto simp: inner_ok_def)

lemma recorded_sel [simp]:
  "entries (recorded sec t kind ev inner) = entries inner"
  "max_entries (recorded sec t kind ev inner) = max_entries inner"
  "max_bytes (recorded sec t kind ev inner) = max_bytes inner"
  "generation (recorded sec t kind ev inner) = generation inner"
  "next_notify (recorded sec t kind ev inner) = next_notify inner"
  by (simp_all add: recorded_def)

lemma prune_sel [simp]:
  "max_entries (prune_lookup_cache t inner) = max_entries inner"
  "max_bytes (prune_lookup_cache t inner) = max_bytes inner"
  "generation (prune_lookup_cache t inner) = generation inner"
  "next_notify (prune_lookup_cache t inner) = next_notify inner"
  "metrics (prune_lookup_cache t inner) = metrics inner"
  "entries (prune_lookup_cache t inner)
     = prune_lookup_cache_with_limits t (max_entries inner) (max_bytes inner) (entries inner)"
  by (simp_all add: prune_lookup_cache_def)

lemma slot_sel [simp]:
  "max_entries (put_slot k slot inner) = max_entries inner"
  "max_bytes (put_slot k slot inner) = max_bytes inner"
  "generation (put_slot k slot inner) = generation inner"
  "next_notify (put_slot k slot inner) = next_notify inner"
  "metrics (put_slot k slot inner) = metrics inner"
  "entries (put_slot k slot inner) = AList.update k slot (entries inner)"
  "max_entries (drop_slot k inner) = max_entries inner"
  "max_bytes (drop_slot k inner) = max_bytes inner"
  "generation (drop_slot k inner) = generation inner"
  "next_notify (drop_slot k inner) = next_notify inner"
  "metrics (drop_slot k inner) = metrics inner"
  "entries (drop_slot k inner) = AList.delete k (entries inner)"
  "max_entries (start_loading k inner) = max_entries inner"
  "max_bytes (start_loading k inner) = max_bytes inner"
  "generation (start_loading k inner) = generation inner"
  "next_notify (start_loading k inner) = Suc (next_notify inner)"
  "metrics (start_loading k inner) = metrics inner"
  "entries (start_loading k inner) = AList.update k (Loading (next_notify inner)) (entries inner)"
  by (simp_all add: put_slot_def drop_slot_def start_loading_def)

lemma inner_ok_cong:
  assumes "entries t = entries s" "max_entries t = max_entries s" "max_bytes t = max_bytes s"
    "next_notify t = next_notify s"
  shows "inner_ok t \<longleftrightarrow> inner_ok s"
  using assms by (simp add: inner_ok_def)

lemma inner_ok_recorded [simp]: "inner_ok (recorded sec t kind ev inner) \<longleftrightarrow> inner_ok inner"
  by (rule inner_ok_cong) simp_all

lemma map_of_slots [simp]:
  "map_of (AList.update k slot es) = (map_of es)(k \<mapsto> slot)"
  "map_of (AList.delete k es) = (map_of es)(k := None)"
  by (simp_all add: AList.update_conv' AList.delete_conv')

lemma inner_ok_drop: "inner_ok inner \<Longrightarrow> inner_ok (drop_slot k inner)"
  using delete_limits [of "entries inner" k] by (auto simp: inner_ok_def)

text \<open>An eviction restores the limits after a ready entry went in.\<close>

lemma inner_ok_prune_weak:
  assumes "slots_ok (entries inner)" "ready_size (entries inner) \<le> u64_max" "max_bytes inner \<le> 2 ^ 63"
    "count_where (\<lambda>(k, slot). is_loading slot) (entries inner) \<le> max_entries inner"
    "\<And>k n. map_of (entries inner) k = Some (Loading n) \<Longrightarrow> n < next_notify inner"
  shows "inner_ok (prune_lookup_cache t inner)"
  using prune_keeps(1,3) [OF assms(1) refl] prune_limits [OF assms(1,2,4)] assms(3,5)
  by (simp add: inner_ok_def)

lemma inner_ok_prune: "inner_ok inner \<Longrightarrow> inner_ok (prune_lookup_cache t inner)"
proof (rule inner_ok_prune_weak)
  assume ok: "inner_ok inner"
  show "ready_size (entries inner) \<le> u64_max" using inner_okD(3,4) [OF ok] by simp
  show "count_where (\<lambda>(k, slot). is_loading slot) (entries inner) \<le> max_entries inner"
    using inner_okD(2) [OF ok] count_where_le_length le_trans by blast
qed (auto simp: inner_ok_def)

lemma inner_ok_put_ready:
  assumes "inner_ok inner" "estimated_bytes entry \<le> 2 ^ 62"
  shows "inner_ok (prune_lookup_cache t (put_slot k (Ready entry) inner))"
proof (rule inner_ok_prune_weak)
  note ok = inner_okD [OF assms(1)] and upd = update_limits [OF inner_okD(1) [OF assms(1)], of k "Ready entry"]
  show "slots_ok (entries (put_slot k (Ready entry) inner))" using upd(1) by simp
  show "ready_size (entries (put_slot k (Ready entry) inner)) \<le> u64_max"
    using upd(3) ok(3,4) assms(2) by simp
  show "count_where (\<lambda>(k, slot). is_loading slot) (entries (put_slot k (Ready entry) inner))
    \<le> max_entries (put_slot k (Ready entry) inner)" using upd(4) ok(2) by simp
qed (use inner_okD(4,5) [OF assms(1)] in \<open>auto split: if_splits\<close>)

lemma inner_ok_start_loading:
  assumes "inner_ok inner" "map_of (entries inner) k \<noteq> None \<or> length (entries inner) < max_entries inner"
  shows "inner_ok (start_loading k inner)"
proof -
  note ok = inner_okD [OF assms(1)]
    and upd = update_limits [OF inner_okD(1) [OF assms(1)], of k "Loading (next_notify inner)"]
  show ?thesis
    using upd(1-3) ok assms(2) unfolding inner_ok_def by (auto simp: less_Suc_eq split: if_splits)
qed

lemma inner_ok_touch:
  assumes "inner_ok inner" "map_of (entries inner) k = Some (Ready entry)"
  shows "inner_ok (put_slot k (Ready (entry\<lparr>last_accessed_at := t\<rparr>)) inner)"
proof -
  have same: "ready_size (AList.update k (Ready (entry\<lparr>last_accessed_at := t\<rparr>)) es) = ready_size es"
    if "map_of es k = Some (Ready entry)" for es
    using that by (induction es) (auto simp: estimated_bytes_def split: if_splits)
  show ?thesis
    using assms update_limits(1,2) [OF inner_okD(1) [OF assms(1)], of k]
    by (auto simp: inner_ok_def same split: if_splits)
qed

lemma inner_ok_next_action:
  assumes "inner_ok inner" "next_action sec t k kind force inner = (act, inner')"
  shows "inner_ok inner'"
proof (cases "map_of (entries inner) k")
  case None
  have pruned: "inner_ok (prune_lookup_cache t (recorded sec t kind Miss inner))"
    using assms(1) by (intro inner_ok_prune) simp
  then show ?thesis
    using assms(2) None by (auto simp: next_action_def Let_def not_le split: if_splits intro!: inner_ok_start_loading)
next
  case (Some slot)
  show ?thesis
  proof (cases slot)
    case (Loading n)
    with Some assms show ?thesis by (auto simp: next_action_def)
  next
    case (Ready entry)
    show ?thesis
    proof (cases "\<not> force \<and> \<not> is_expired t entry")
      case True
      with Some Ready assms inner_ok_touch [OF assms(1), of k entry t] show ?thesis
        by (auto simp: next_action_def Let_def)
    next
      case False
      then have "inner' = prune_lookup_cache t (start_loading k (recorded sec t kind (if force then Bypass else Stale) inner))"
        using Some Ready assms(2) by (auto simp: next_action_def Let_def)
      moreover have "inner_ok (start_loading k (recorded sec t kind (if force then Bypass else Stale) inner))"
        using assms(1) Some by (intro inner_ok_start_loading) simp_all
      ultimately show ?thesis by (simp add: inner_ok_prune)
    qed
  qed
qed

lemma estimated_bytes_success [simp]: "estimated_bytes (success_entry t policy kind payload) = length payload"
  by (simp add: estimated_bytes_def success_entry_def)

lemma estimated_bytes_error [simp]: "estimated_bytes (error_entry t policy e) = length (error_text e)"
  by (cases e) (simp_all add: estimated_bytes_def error_entry_def)

lemma inner_ok_resolve:
  assumes "inner_ok inner" "resolve_persistent_cache_slot t1 t2 policy k kind payload g n inner = (b, inner')"
  shows "inner_ok inner'"
  using assms by (auto simp: resolve_persistent_cache_slot_def inner_ok_drop intro!: inner_ok_put_ready split: if_splits)

text \<open>The text of a loader's error is a Rust string, well below \<open>2 ^ 62\<close> bytes.\<close>

definition result_size_ok :: "lookup_loader_error + string option \<Rightarrow> bool" where
  "result_size_ok r \<longleftrightarrow> (\<forall>e. r = Inl (Cacheable e) \<longrightarrow> length (error_text e) \<le> 2 ^ 62)"

lemma cached_entry_size:
  "result_size_ok r \<Longrightarrow> cached_entry t policy kind r = Some entry \<Longrightarrow> estimated_bytes entry \<le> 2 ^ 62"
  by (induction t policy kind r rule: cached_entry.induct) (auto simp: result_size_ok_def split: if_splits)

lemma inner_ok_finish:
  assumes "inner_ok inner" "result_size_ok r"
  shows "inner_ok (finish_fetch sec t1 t2 policy k kind g r inner)"
  using assms by (auto simp: finish_fetch_def inner_ok_drop intro!: inner_ok_put_ready cached_entry_size split: option.splits)

lemma inner_ok_guard: "inner_ok inner \<Longrightarrow> inner_ok (drop_fetch_guard k g n inner)"
  by (simp add: drop_fetch_guard_def inner_ok_drop)

lemma inner_ok_invalidate: "inner_ok inner \<Longrightarrow> inner_ok (invalidate_all t inner)"
  by (simp add: inner_ok_def invalidate_all_def slots_ok_def)

lemmas inner_ok_sections = inner_ok_next_action inner_ok_resolve inner_ok_finish inner_ok_guard
  inner_ok_invalidate inner_ok_prune inner_ok_drop

subsection \<open>What the sections do to the slots\<close>

lemma prune_slot:
  assumes "slots_ok es"
  shows "map_of (prune_lookup_cache_with_limits t e b es) k = Some (Loading n) \<longleftrightarrow> map_of es k = Some (Loading n)"
    and "map_of (prune_lookup_cache_with_limits t e b es) k = Some (Ready entry) \<Longrightarrow> map_of es k = Some (Ready entry)"
  using prune_keeps(3,4) [OF assms refl] by blast+

lemma next_action_cases [consumes 1, case_names hit join refetch full fetch]:
  assumes "next_action sec t key kind force inner = (act, c)"
  obtains
    entry where "map_of (entries inner) key = Some (Ready entry)" "\<not> force" "\<not> is_expired t entry"
      "act = Return_Entry (entry\<lparr>last_accessed_at := t\<rparr>)"
      "c = recorded sec t kind Hit (put_slot key (Ready (entry\<lparr>last_accessed_at := t\<rparr>)) inner)"
  | n where "map_of (entries inner) key = Some (Loading n)" "act = Wait_For n" "c = recorded sec t kind Coalesced inner"
  | entry where "map_of (entries inner) key = Some (Ready entry)" "force \<or> is_expired t entry"
      "act = Start_Fetch (next_notify inner) (generation inner) False"
      "c = prune_lookup_cache t (start_loading key (recorded sec t kind (if force then Bypass else Stale) inner))"
  | c0 where "map_of (entries inner) key = None" "c0 = prune_lookup_cache t (recorded sec t kind Miss inner)"
      "max_entries inner \<le> length (entries c0)" "act = Reject (Service_Unavailable capacity_message)" "c = c0"
  | c0 where "map_of (entries inner) key = None" "c0 = prune_lookup_cache t (recorded sec t kind Miss inner)"
      "length (entries c0) < max_entries inner" "act = Start_Fetch (next_notify inner) (generation inner) True"
      "c = start_loading key c0"
proof (cases "map_of (entries inner) key")
  case None
  then show thesis using assms that(4,5) by (auto simp: next_action_def Let_def not_le split: if_splits)
next
  case (Some slot)
  then show thesis
  proof (cases slot)
    case (Ready entry)
    with Some show thesis
      using assms that(1) [of entry] that(3) [of entry]
      by (cases "\<not> force \<and> \<not> is_expired t entry") (auto simp: next_action_def Let_def)
  next
    case (Loading n)
    with Some show thesis using assms that(2) by (auto simp: next_action_def)
  qed
qed

text \<open>A look at the cache only ever adds the loading slot of its own new fetch.\<close>

lemma next_action_slots:
  assumes ok: "inner_ok inner" and act: "next_action sec t key kind force inner = (act, c)"
  shows "map_of (entries inner) k = Some (Loading n) \<Longrightarrow> map_of (entries c) k = Some (Loading n)"
    and "map_of (entries c) k = Some (Loading n) \<Longrightarrow>
      map_of (entries inner) k = Some (Loading n)
      \<or> (k = key \<and> n = next_notify inner \<and> (\<exists>allow. act = Start_Fetch n (generation inner) allow))"
    and "map_of (entries c) k = Some (Ready entry) \<Longrightarrow>
      \<exists>old. map_of (entries inner) k = Some (Ready old) \<and> entry_value entry = entry_value old"
    and "generation c = generation inner" "next_notify inner \<le> next_notify c"
    and "act = Start_Fetch n' g allow \<Longrightarrow> n' = next_notify inner \<and> g = generation inner
      \<and> next_notify c = Suc n' \<and> map_of (entries c) key = Some (Loading n')
      \<and> (\<forall>m. map_of (entries inner) key \<noteq> Some (Loading m))"
    and "act = Wait_For n' \<Longrightarrow> map_of (entries inner) key = Some (Loading n')"
    and "act = Return_Entry entry' \<Longrightarrow> \<exists>old. map_of (entries inner) key = Some (Ready old)
      \<and> entry_value entry' = entry_value old \<and> \<not> is_expired t old \<and> \<not> force"
proof -
  note sok = inner_okD(1) [OF ok]
  have sok': "slots_ok (AList.update key (Loading (next_notify inner)) (entries inner))"
    using sok by (rule update_limits(1))
  have dropped: "map_of (entries inner) k = None \<Longrightarrow>
      map_of (prune_lookup_cache_with_limits t (max_entries inner) (max_bytes inner) (entries inner)) k = None" for k
    using prune_keeps(5) [OF sok refl] by blast
  note facts = prune_slot [OF sok] prune_slot [OF sok'] dropped
  show "map_of (entries inner) k = Some (Loading n) \<Longrightarrow> map_of (entries c) k = Some (Loading n)"
    using act by (cases rule: next_action_cases) (auto simp: facts(1,3))
  show "map_of (entries c) k = Some (Loading n) \<Longrightarrow>
      map_of (entries inner) k = Some (Loading n)
      \<or> (k = key \<and> n = next_notify inner \<and> (\<exists>allow. act = Start_Fetch n (generation inner) allow))"
    using act by (cases rule: next_action_cases) (auto simp: facts(1,3) split: if_splits)
  show "map_of (entries c) k = Some (Ready entry) \<Longrightarrow>
      \<exists>old. map_of (entries inner) k = Some (Ready old) \<and> entry_value entry = entry_value old"
    using act by (cases rule: next_action_cases) (auto split: if_splits dest!: facts(2,4))
  show "generation c = generation inner" "next_notify inner \<le> next_notify c"
    using act by (cases rule: next_action_cases; simp)+
  show "act = Start_Fetch n' g allow \<Longrightarrow> n' = next_notify inner \<and> g = generation inner
      \<and> next_notify c = Suc n' \<and> map_of (entries c) key = Some (Loading n')
      \<and> (\<forall>m. map_of (entries inner) key \<noteq> Some (Loading m))"
    using act by (cases rule: next_action_cases) (auto simp: facts(1,3))
  show "act = Wait_For n' \<Longrightarrow> map_of (entries inner) key = Some (Loading n')"
    using act by (cases rule: next_action_cases) auto
  show "act = Return_Entry entry' \<Longrightarrow> \<exists>old. map_of (entries inner) key = Some (Ready old)
      \<and> entry_value entry' = entry_value old \<and> \<not> is_expired t old \<and> \<not> force"
    using act by (cases rule: next_action_cases) auto
qed

text \<open>
  The ends of a fetch: other keys keep their loading slots, and no loading slot
  appears; a ready entry that appears is the fetch's own.
\<close>

lemma resolve_slots:
  assumes ok: "inner_ok inner"
    and res: "c = snd (resolve_persistent_cache_slot t1 t2 policy key kind payload g n inner)"
  shows "map_of (entries c) k = Some (Loading m) \<longleftrightarrow>
      map_of (entries inner) k = Some (Loading m) \<and> \<not> (k = key \<and> owns_loading_slot key g n inner)"
    and "map_of (entries c) k = Some (Ready entry) \<Longrightarrow> map_of (entries inner) k = Some (Ready entry)
      \<or> (k = key \<and> entry = success_entry t1 policy kind payload)"
    and "generation c = generation inner" "next_notify c = next_notify inner"
proof -
  note prune = prune_slot [OF update_limits(1) [OF inner_okD(1) [OF ok]]]
  show "map_of (entries c) k = Some (Loading m) \<longleftrightarrow>
      map_of (entries inner) k = Some (Loading m) \<and> \<not> (k = key \<and> owns_loading_slot key g n inner)"
    by (auto simp: res resolve_persistent_cache_slot_def prune(1))
  show "map_of (entries c) k = Some (Ready entry) \<Longrightarrow> map_of (entries inner) k = Some (Ready entry)
      \<or> (k = key \<and> entry = success_entry t1 policy kind payload)"
    by (auto simp: res resolve_persistent_cache_slot_def split: if_splits dest!: prune(2))
qed (simp_all add: res resolve_persistent_cache_slot_def)

lemma finish_slots:
  assumes ok: "inner_ok inner" and c: "c = finish_fetch sec t1 t2 policy key kind g r inner"
  shows "map_of (entries c) k = Some (Loading m) \<longleftrightarrow>
      map_of (entries inner) k = Some (Loading m) \<and> \<not> (k = key \<and> generation inner = g)"
    and "map_of (entries c) k = Some (Ready entry) \<Longrightarrow> map_of (entries inner) k = Some (Ready entry)
      \<or> (k = key \<and> generation inner = g \<and> cached_entry t1 policy kind r = Some entry)"
    and "generation c = generation inner" "next_notify c = next_notify inner"
proof -
  note prune = prune_slot [OF update_limits(1) [OF inner_okD(1) [OF ok]]]
  show "map_of (entries c) k = Some (Loading m) \<longleftrightarrow>
      map_of (entries inner) k = Some (Loading m) \<and> \<not> (k = key \<and> generation inner = g)"
    by (auto simp: c finish_fetch_def prune(1) split: option.splits)
  show "map_of (entries c) k = Some (Ready entry) \<Longrightarrow> map_of (entries inner) k = Some (Ready entry)
      \<or> (k = key \<and> generation inner = g \<and> cached_entry t1 policy kind r = Some entry)"
    by (auto simp: c finish_fetch_def split: if_splits option.splits dest!: prune(2))
qed (simp_all add: c finish_fetch_def split: option.splits)

lemma guard_slots:
  assumes c: "c = drop_fetch_guard key g n inner"
  shows "map_of (entries c) k = (if k = key \<and> owns_loading_slot key g n inner then None else map_of (entries inner) k)"
    and "generation c = generation inner" "next_notify c = next_notify inner"
  by (auto simp: c drop_fetch_guard_def)

end
