(* ===== verification/LookupCacheMachine.thy ===== *)
theory LookupCacheMachine
  imports LookupCacheFacts
begin

text \<open>
  Lookups running concurrently on one cache: \<open>resolve_cached_lookup\<close> of
  \<open>lookup_cache.rs\<close> as a state machine per caller, whose steps are the critical
  sections of the cache and the points where the caller awaits something, and
  the interleavings of any number of callers with invalidation and maintenance.
\<close>

subsection \<open>A caller\<close>

text \<open>
  serde's \<open>to_string\<close> and \<open>from_str\<close> at the type of the looked-up value are
  parameters, as are the length of a second and the cache's policy.
\<close>

record 'v cache_config =
  cc_second :: nat
  cc_policy :: lookup_cache_policy
  to_json :: "'v \<Rightarrow> string option"
  from_json :: "string \<Rightarrow> 'v option"

text \<open>
  Where a caller stands: at the head of the loop (with \<open>bypass_ready\<close>), decoding
  a payload it got, waiting for a \<open>Notify\<close>, reading the persistent store, running
  the loader, between its last critical section and \<open>notify_waiters\<close> (with its
  result, or \<open>None\<close> when it was cancelled), or at its end.
\<close>

datatype 'v lookup_phase =
    Looking bool
  | Decoding string
  | Waiting nat
  | Reading nat "64 word"
  | Fetching nat "64 word"
  | Closing nat "(tracking_error + 'v) option"
  | Finished "tracking_error + 'v"
  | Cancelled_Lookup

record 'v lookup_task =
  lt_key :: string
  lt_kind :: lookup_kind
  lt_force :: bool
  lt_phase :: "'v lookup_phase"

datatype 'v task_input =
    Look nat
  | Decode
  | Wake
  | Persistent_Answer "string option" nat nat
  | Loader_Answer "lookup_loader_error + 'v" nat nat
  | Notify_Waiters
  | Cancel

definition phase_after_action :: "bool \<Rightarrow> lookup_cache_action \<Rightarrow> 'v lookup_phase" where
  "phase_after_action force_refresh act =
     (case act of
        Return_Entry entry \<Rightarrow>
          (case entry_value entry of
             Cached_Success payload \<Rightarrow> Decoding payload
           | Cached_Error e \<Rightarrow> Finished (Inl (to_tracking_error e)))
      | Wait_For n \<Rightarrow> Waiting n
      | Reject e \<Rightarrow> Finished (Inl e)
      | Start_Fetch n g allow_persistent \<Rightarrow>
          if allow_persistent \<and> \<not> force_refresh then Reading n g else Fetching n g)"

text \<open>The loader's result as the cache stores it and as the caller gets it.\<close>

definition serialized :: "'v cache_config \<Rightarrow> lookup_loader_error + 'v \<Rightarrow> lookup_loader_error + string option" where
  "serialized cfg r = (case r of Inl e \<Rightarrow> Inl e | Inr v \<Rightarrow> Inr (to_json cfg v))"

definition lookup_result :: "lookup_loader_error + 'v \<Rightarrow> tracking_error + 'v" where
  "lookup_result r = (case r of Inl e \<Rightarrow> Inl (into_tracking_error e) | Inr v \<Rightarrow> Inr v)"

definition task_step ::
  "'v cache_config \<Rightarrow> string \<Rightarrow> lookup_kind \<Rightarrow> bool \<Rightarrow> 'v lookup_phase \<Rightarrow> 'v task_input
   \<Rightarrow> nat set \<Rightarrow> lookup_cache_inner \<Rightarrow> ('v lookup_phase \<times> nat set \<times> lookup_cache_inner) option" where
  "task_step cfg key kind force phase input fired inner =
     (case phase of
        Looking bypass_ready \<Rightarrow>
          (case input of
             Look t \<Rightarrow>
               let (act, inner') = next_action (cc_second cfg) t key kind bypass_ready inner
               in Some (phase_after_action force act, fired, inner')
           | _ \<Rightarrow> None)
      | Decoding payload \<Rightarrow>
          (case input of
             Decode \<Rightarrow>
               (case from_json cfg payload of
                  Some v \<Rightarrow> Some (Finished (Inr v), fired, inner)
                | None \<Rightarrow> Some (Looking False, fired, drop_slot key inner))
           | _ \<Rightarrow> None)
      | Waiting n \<Rightarrow>
          (case input of
             Wake \<Rightarrow> if n \<in> fired then Some (Looking False, fired, inner) else None
           | Cancel \<Rightarrow> Some (Cancelled_Lookup, fired, inner)
           | _ \<Rightarrow> None)
      | Reading n g \<Rightarrow>
          (case input of
             Persistent_Answer answer t1 t2 \<Rightarrow>
               (case Option.bind answer (from_json cfg) of
                  None \<Rightarrow> Some (Fetching n g, fired, inner)
                | Some v \<Rightarrow> Some (Closing n (Some (Inr v)), fired,
                    snd (resolve_persistent_cache_slot t1 t2 (cc_policy cfg) key kind (the answer) g n inner)))
           | Cancel \<Rightarrow> Some (Closing n None, fired, drop_fetch_guard key g n inner)
           | _ \<Rightarrow> None)
      | Fetching n g \<Rightarrow>
          (case input of
             Loader_Answer r t1 t2 \<Rightarrow>
               Some (Closing n (Some (lookup_result r)), fired,
                 finish_fetch (cc_second cfg) t1 t2 (cc_policy cfg) key kind g (serialized cfg r) inner)
           | Cancel \<Rightarrow> Some (Closing n None, fired, drop_fetch_guard key g n inner)
           | _ \<Rightarrow> None)
      | Closing n r \<Rightarrow>
          (case input of
             Notify_Waiters \<Rightarrow>
               Some ((case r of Some res \<Rightarrow> Finished res | None \<Rightarrow> Cancelled_Lookup), insert n fired, inner)
           | _ \<Rightarrow> None)
      | Finished _ \<Rightarrow> None
      | Cancelled_Lookup \<Rightarrow> None)"

lemmas task_step_split = lookup_phase.split_asm task_input.split_asm option.split_asm if_split_asm prod.split_asm

subsection \<open>Interleavings\<close>

text \<open>
  \<open>fired\<close> is the set of the \<open>Notify\<close>s whose waiters were notified, \<open>epoch\<close> the
  number of invalidations so far (the generation is its value in 64 bits).
\<close>

record 'v cache_system =
  cache :: lookup_cache_inner
  fired :: "nat set"
  tasks :: "nat \<Rightarrow> 'v lookup_task option"
  epoch :: nat

text \<open>A loader's error text is a Rust string, of fewer than \<open>2 ^ 62\<close> bytes.\<close>

fun input_ok :: "'v task_input \<Rightarrow> bool" where
  "input_ok (Loader_Answer (Inl (Cacheable e)) t1 t2) \<longleftrightarrow> length (error_text e) \<le> 2 ^ 62"
| "input_ok _ \<longleftrightarrow> True"

definition advance :: "'v cache_config \<Rightarrow> nat \<Rightarrow> 'v task_input \<Rightarrow> 'v cache_system \<Rightarrow> 'v cache_system option" where
  "advance cfg i input s =
     (case tasks s i of
        None \<Rightarrow> None
      | Some t \<Rightarrow>
          (case task_step cfg (lt_key t) (lt_kind t) (lt_force t) (lt_phase t) input (fired s) (cache s) of
             None \<Rightarrow> None
           | Some (phase, fired', cache') \<Rightarrow>
               Some (s\<lparr>cache := cache', fired := fired', tasks := (tasks s)(i \<mapsto> t\<lparr>lt_phase := phase\<rparr>)\<rparr>)))"

definition begin_lookup :: "nat \<Rightarrow> string \<Rightarrow> lookup_kind \<Rightarrow> bool \<Rightarrow> 'v cache_system \<Rightarrow> 'v cache_system" where
  "begin_lookup i key kind force s =
     s\<lparr>tasks := (tasks s)(i \<mapsto> \<lparr>lt_key = key, lt_kind = kind, lt_force = force, lt_phase = Looking force\<rparr>)\<rparr>"

definition invalidate :: "nat \<Rightarrow> 'v cache_system \<Rightarrow> 'v cache_system" where
  "invalidate t s = s\<lparr>cache := invalidate_all t (cache s), epoch := Suc (epoch s)\<rparr>"

definition maintain :: "nat \<Rightarrow> 'v cache_system \<Rightarrow> 'v cache_system" where
  "maintain t s = s\<lparr>cache := prune_lookup_cache t (cache s)\<rparr>"

text \<open>
  \<open>world\<close> says which answers a lookup may get from the loader and the persistent
  store; a step that needs no answer is always allowed.
\<close>

inductive cache_step ::
  "'v cache_config \<Rightarrow> ('v lookup_task \<Rightarrow> 'v task_input \<Rightarrow> bool) \<Rightarrow> 'v cache_system \<Rightarrow> 'v cache_system \<Rightarrow> bool"
  for cfg world where
  Begin_Lookup: "tasks s i = None \<Longrightarrow> cache_step cfg world s (begin_lookup i key kind force s)"
| Advance: "tasks s i = Some t \<Longrightarrow> world t input \<Longrightarrow> input_ok input \<Longrightarrow> advance cfg i input s = Some s'
    \<Longrightarrow> cache_step cfg world s s'"
| Invalidate: "cache_step cfg world s (invalidate t s)"
| Maintain: "cache_step cfg world s (maintain t s)"

inductive_cases cache_stepE: "cache_step cfg world s s'"

definition empty_bucket :: metric_bucket where
  "empty_bucket = \<lparr>hits = 0, misses = 0, bypasses = 0, stales = 0, coalesced = 0,
     store_successes = 0, store_errors = 0, invalidations = 0\<rparr>"

definition initial_inner :: "nat \<Rightarrow> nat \<Rightarrow> lookup_cache_inner" where
  "initial_inner entry_limit byte_limit =
     \<lparr>max_entries = entry_limit, max_bytes = byte_limit, entries = [], generation = 0,
      metrics = \<lparr>overall = empty_bucket, track_bucket = empty_bucket, bag_bucket = empty_bucket,
        manifest_bucket = empty_bucket, last_summary_total = 0, last_summary_at = None\<rparr>,
      next_notify = 0\<rparr>"

definition initial_system :: "nat \<Rightarrow> nat \<Rightarrow> 'v cache_system" where
  "initial_system entry_limit byte_limit =
     \<lparr>cache = initial_inner entry_limit byte_limit, fired = {}, tasks = (\<lambda>_. None), epoch = 0\<rparr>"

inductive cache_reachable ::
  "'v cache_config \<Rightarrow> ('v lookup_task \<Rightarrow> 'v task_input \<Rightarrow> bool) \<Rightarrow> 'v cache_system \<Rightarrow> bool" for cfg world where
  Initial_System: "byte_limit \<le> 2 ^ 63 \<Longrightarrow> cache_reachable cfg world (initial_system entry_limit byte_limit)"
| Next_System: "cache_reachable cfg world s \<Longrightarrow> cache_step cfg world s s' \<Longrightarrow> cache_reachable cfg world s'"

subsection \<open>The invariant\<close>

text \<open>The \<open>Notify\<close> a caller will fire, and the generation of its running fetch.\<close>

fun notify_of :: "'v lookup_phase \<Rightarrow> nat option" where
  "notify_of (Reading n g) = Some n"
| "notify_of (Fetching n g) = Some n"
| "notify_of (Closing n r) = Some n"
| "notify_of _ = None"

fun fetch_of :: "'v lookup_phase \<Rightarrow> (nat \<times> 64 word) option" where
  "fetch_of (Reading n g) = Some (n, g)"
| "fetch_of (Fetching n g) = Some (n, g)"
| "fetch_of _ = None"

lemma fetch_notify: "fetch_of ph = Some (n, g) \<Longrightarrow> notify_of ph = Some n"
  by (cases ph) simp_all

definition slot_of :: "'v cache_system \<Rightarrow> string \<Rightarrow> lookup_cache_slot option" where
  "slot_of s k = map_of (entries (cache s)) k"

definition notifies :: "'v cache_system \<Rightarrow> nat \<Rightarrow> nat \<Rightarrow> bool" where
  "notifies s i n \<longleftrightarrow> (\<exists>t. tasks s i = Some t \<and> notify_of (lt_phase t) = Some n)"

text \<open>
  Every loading slot belongs to a running fetch of its key and of the current
  generation; a \<open>Notify\<close> has one owner, who has not fired it yet; and a waiting
  caller waits for a \<open>Notify\<close> that was fired or still has its owner.
\<close>

definition wakeups_ok :: "'v cache_system \<Rightarrow> bool" where
  "wakeups_ok s \<longleftrightarrow>
     (\<forall>k n. slot_of s k = Some (Loading n) \<longrightarrow>
        (\<exists>i t. tasks s i = Some t \<and> lt_key t = k \<and> fetch_of (lt_phase t) = Some (n, generation (cache s))))
     \<and> (\<forall>i n. notifies s i n \<longrightarrow> n < next_notify (cache s) \<and> n \<notin> fired s \<and> (\<forall>j. notifies s j n \<longrightarrow> j = i))
     \<and> (\<forall>i t n. tasks s i = Some t \<and> lt_phase t = Waiting n \<longrightarrow> n \<in> fired s \<or> (\<exists>j. notifies s j n))
     \<and> (\<forall>n \<in> fired s. n < next_notify (cache s))"

text \<open>The system after caller \<open>i\<close> moved.\<close>

definition moved ::
  "'v cache_system \<Rightarrow> nat \<Rightarrow> 'v lookup_task \<Rightarrow> 'v lookup_phase \<Rightarrow> nat set \<Rightarrow> lookup_cache_inner \<Rightarrow> 'v cache_system" where
  "moved s i t ph f c = s\<lparr>cache := c, fired := f, tasks := (tasks s)(i \<mapsto> t\<lparr>lt_phase := ph\<rparr>)\<rparr>"

lemma moved_sel [simp]:
  "cache (moved s i t ph f c) = c" "fired (moved s i t ph f c) = f" "epoch (moved s i t ph f c) = epoch s"
  "tasks (moved s i t ph f c) = (tasks s)(i \<mapsto> t\<lparr>lt_phase := ph\<rparr>)"
  by (simp_all add: moved_def)

lemma advance_cases [consumes 1, case_names looked decoded undecodable woken unread hydrated loaded notified waiter_dropped dropped]:
  assumes "advance cfg i input s = Some s'"
  obtains
    t b tm act c where "tasks s i = Some t" "lt_phase t = Looking b" "input = Look tm"
      "next_action (cc_second cfg) tm (lt_key t) (lt_kind t) b (cache s) = (act, c)"
      "s' = moved s i t (phase_after_action (lt_force t) act) (fired s) c"
  | t payload v where "tasks s i = Some t" "lt_phase t = Decoding payload" "input = Decode"
      "from_json cfg payload = Some v" "s' = moved s i t (Finished (Inr v)) (fired s) (cache s)"
  | t payload where "tasks s i = Some t" "lt_phase t = Decoding payload" "input = Decode"
      "from_json cfg payload = None" "s' = moved s i t (Looking False) (fired s) (drop_slot (lt_key t) (cache s))"
  | t n where "tasks s i = Some t" "lt_phase t = Waiting n" "input = Wake" "n \<in> fired s"
      "s' = moved s i t (Looking False) (fired s) (cache s)"
  | t n g answer t1 t2 where "tasks s i = Some t" "lt_phase t = Reading n g" "input = Persistent_Answer answer t1 t2"
      "s' = moved s i t (Fetching n g) (fired s) (cache s)"
  | t n g payload v t1 t2 where "tasks s i = Some t" "lt_phase t = Reading n g"
      "input = Persistent_Answer (Some payload) t1 t2" "from_json cfg payload = Some v"
      "s' = moved s i t (Closing n (Some (Inr v))) (fired s)
         (snd (resolve_persistent_cache_slot t1 t2 (cc_policy cfg) (lt_key t) (lt_kind t) payload g n (cache s)))"
  | t n g r t1 t2 where "tasks s i = Some t" "lt_phase t = Fetching n g" "input = Loader_Answer r t1 t2"
      "s' = moved s i t (Closing n (Some (lookup_result r))) (fired s)
         (finish_fetch (cc_second cfg) t1 t2 (cc_policy cfg) (lt_key t) (lt_kind t) g (serialized cfg r) (cache s))"
  | t n r where "tasks s i = Some t" "lt_phase t = Closing n r" "input = Notify_Waiters"
      "s' = moved s i t (case r of Some res \<Rightarrow> Finished res | None \<Rightarrow> Cancelled_Lookup) (insert n (fired s)) (cache s)"
  | t n where "tasks s i = Some t" "lt_phase t = Waiting n" "input = Cancel"
      "s' = moved s i t Cancelled_Lookup (fired s) (cache s)"
  | t n g where "tasks s i = Some t" "fetch_of (lt_phase t) = Some (n, g)" "input = Cancel"
      "s' = moved s i t (Closing n None) (fired s) (drop_fetch_guard (lt_key t) g n (cache s))"
proof -
  obtain t ph f c where t: "tasks s i = Some t" and s': "s' = moved s i t ph f c"
    and step: "task_step cfg (lt_key t) (lt_kind t) (lt_force t) (lt_phase t) input (fired s) (cache s) = Some (ph, f, c)"
    using assms by (auto simp: advance_def moved_def split: option.splits)
  show thesis
  proof (cases "lt_phase t")
    case (Looking b)
    then show ?thesis using step s' t that(1) by (auto simp: task_step_def Let_def split: task_input.splits prod.splits)
  next
    case (Decoding payload)
    then show ?thesis using step s' t that(2,3) by (auto simp: task_step_def split: task_input.splits option.splits)
  next
    case (Waiting n)
    then show ?thesis using step s' t that(4,9) by (auto simp: task_step_def split: task_input.splits if_splits)
  next
    case (Reading n g)
    then show ?thesis using step s' t that(5,6,10) by (auto simp: task_step_def split: task_input.splits option.splits bind_splits)
  next
    case (Fetching n g)
    then show ?thesis using step s' t that(7,10) by (auto simp: task_step_def split: task_input.splits)
  next
    case (Closing n r)
    then show ?thesis using step s' t that(8) by (auto simp: task_step_def split: task_input.splits)
  qed (use step in \<open>simp_all add: task_step_def\<close>)
qed

lemma wakeups_moved:
  assumes ok: "wakeups_ok s" and t: "tasks s i = Some t"
    and gen: "generation c = generation (cache s)" and nn: "next_notify (cache s) \<le> next_notify c"
    and slots: "\<And>k n. map_of (entries c) k = Some (Loading n) \<Longrightarrow>
        (slot_of s k = Some (Loading n) \<and> (notify_of (lt_phase t) = Some n \<longrightarrow> fetch_of ph = fetch_of (lt_phase t)))
        \<or> (k = lt_key t \<and> fetch_of ph = Some (n, generation (cache s)))"
    and owner: "\<And>n. notify_of ph = Some n \<Longrightarrow>
        notify_of (lt_phase t) = Some n \<and> n \<notin> f \<or> next_notify (cache s) \<le> n \<and> n < next_notify c \<and> n \<notin> f"
    and left: "\<And>n. notify_of (lt_phase t) = Some n \<Longrightarrow> notify_of ph = Some n \<or> n \<in> f"
    and fired: "fired s \<subseteq> f" "\<And>n. n \<in> f \<Longrightarrow> n \<in> fired s \<or> notify_of (lt_phase t) = Some n"
    and waiting: "\<And>n. ph = Waiting n \<Longrightarrow> slot_of s (lt_key t) = Some (Loading n)"
  shows "wakeups_ok (moved s i t ph f c)"
proof -
  have A: "\<And>k n. slot_of s k = Some (Loading n) \<Longrightarrow>
      \<exists>j u. tasks s j = Some u \<and> lt_key u = k \<and> fetch_of (lt_phase u) = Some (n, generation (cache s))"
    and B: "\<And>j n. notifies s j n \<Longrightarrow> n < next_notify (cache s) \<and> n \<notin> fired s \<and> (\<forall>k. notifies s k n \<longrightarrow> k = j)"
    and C: "\<And>j u n. tasks s j = Some u \<Longrightarrow> lt_phase u = Waiting n \<Longrightarrow> n \<in> fired s \<or> (\<exists>k. notifies s k n)"
    and D: "\<And>n. n \<in> fired s \<Longrightarrow> n < next_notify (cache s)"
    using ok unfolding wakeups_ok_def by blast+
  let ?s = "moved s i t ph f c"
  have mine: "notifies s i n \<longleftrightarrow> notify_of (lt_phase t) = Some n" for n using t by (simp add: notifies_def)
  have here: "notifies ?s i n \<longleftrightarrow> notify_of ph = Some n" for n by (simp add: notifies_def)
  have there: "notifies ?s j n \<longleftrightarrow> notifies s j n" if "j \<noteq> i" for j n using that by (simp add: notifies_def)
  show ?thesis
    unfolding wakeups_ok_def
  proof (intro conjI allI impI ballI)
    fix k n assume "slot_of ?s k = Some (Loading n)"
    then have "map_of (entries c) k = Some (Loading n)" by (simp add: slot_of_def)
    from slots [OF this]
    show "\<exists>j u. tasks ?s j = Some u \<and> lt_key u = k \<and> fetch_of (lt_phase u) = Some (n, generation (cache ?s))"
    proof (elim disjE conjE)
      assume kept: "slot_of s k = Some (Loading n)" "notify_of (lt_phase t) = Some n \<longrightarrow> fetch_of ph = fetch_of (lt_phase t)"
      from A [OF kept(1)] obtain j u where u: "tasks s j = Some u" "lt_key u = k"
        "fetch_of (lt_phase u) = Some (n, generation (cache s))" by blast
      show ?thesis
      proof (cases "j = i")
        case True
        with u t kept(2) fetch_notify [OF u(3)] gen show ?thesis by (intro exI [of _ i]) simp
      next
        case False
        with u gen show ?thesis by (intro exI [of _ j]) simp
      qed
    qed (use gen in \<open>intro exI [of _ i], simp\<close>)
  next
    fix j n assume own: "notifies ?s j n"
    have new: "n < next_notify c \<and> n \<notin> f \<and> (\<forall>k. notifies ?s k n \<longrightarrow> k = j)"
    proof (cases "j = i")
      case True
      then have ph: "notify_of ph = Some n" using own here by simp
      from owner [OF ph] show ?thesis
      proof (elim disjE conjE)
        assume "notify_of (lt_phase t) = Some n" "n \<notin> f"
        with B [of i n] mine nn there True show ?thesis by (metis order_less_le_trans)
      next
        assume fresh: "next_notify (cache s) \<le> n" "n < next_notify c" "n \<notin> f"
        have "\<not> notifies s k n" for k using B [of k n] fresh(1) by auto
        with fresh there True show ?thesis by metis
      qed
    next
      case False
      with own there have old: "notifies s j n" by simp
      note Bn = B [OF old]
      have "notify_of (lt_phase t) \<noteq> Some n" using Bn False mine by blast
      moreover have "notify_of ph \<noteq> Some n" using owner [of n] calculation Bn by auto
      ultimately have "n \<notin> f" using fired(2) [of n] Bn by blast
      with Bn nn there here \<open>notify_of ph \<noteq> Some n\<close> False show ?thesis by (metis order_less_le_trans)
    qed
    show "n < next_notify (cache ?s)" and "n \<notin> fired ?s" using new by simp_all
    fix k assume "notifies ?s k n" with new show "k = j" by blast
  next
    fix j u n assume "tasks ?s j = Some u \<and> lt_phase u = Waiting n"
    then have u: "tasks ?s j = Some u" "lt_phase u = Waiting n" by simp_all
    have still: "n \<in> f \<or> (\<exists>k. notifies ?s k n)" if "n \<in> fired s \<or> (\<exists>k. notifies s k n)"
      using that
    proof (elim disjE exE)
      fix k assume "notifies s k n"
      then show ?thesis using left [of n] mine here there by (cases "k = i") blast+
    qed (use fired(1) in blast)
    show "n \<in> fired ?s \<or> (\<exists>k. notifies ?s k n)"
    proof (cases "j = i")
      case True
      with u have "ph = Waiting n" by auto
      from A [OF waiting [OF this]] obtain k v where "tasks s k = Some v"
        "fetch_of (lt_phase v) = Some (n, generation (cache s))" by blast
      then have "notifies s k n" using fetch_notify by (auto simp: notifies_def)
      then show ?thesis using still by auto
    next
      case False
      with u C [of j u n] still show ?thesis by simp
    qed
  next
    fix n assume "n \<in> fired ?s"
    then show "n < next_notify (cache ?s)"
      using fired(2) [of n] D [of n] B [of i n] mine nn by fastforce
  qed
qed

lemma inner_ok_advance:
  assumes "advance cfg i input s = Some s'" "input_ok input" "inner_ok (cache s)"
  shows "inner_ok (cache s')"
  using assms(1)
proof (cases rule: advance_cases)
  case (looked t b tm act c)
  with assms(3) show ?thesis by (auto intro: inner_ok_next_action)
next
  case (hydrated t n g payload v t1 t2)
  then show ?thesis using inner_ok_resolve [OF assms(3) prod.collapse [symmetric]] by simp
next
  case (loaded t n g r t1 t2)
  have "result_size_ok (serialized cfg r)"
    using assms(2) loaded(3) by (auto simp: result_size_ok_def serialized_def split: sum.splits)
  with loaded assms(3) show ?thesis by (simp add: inner_ok_finish)
qed (use assms(3) in \<open>auto simp: inner_ok_drop inner_ok_guard\<close>)

lemma after_action [simp]:
  "fetch_of (phase_after_action f act) = (case act of Start_Fetch n g allow \<Rightarrow> Some (n, g) | _ \<Rightarrow> None)"
  "notify_of (phase_after_action f act) = (case act of Start_Fetch n g allow \<Rightarrow> Some n | _ \<Rightarrow> None)"
  "phase_after_action f act = Waiting n \<longleftrightarrow> act = Wait_For n"
  by (auto simp: phase_after_action_def split: lookup_cache_action.split cached_lookup_value.split)

lemma owner_facts:
  assumes "wakeups_ok s" "tasks s i = Some t" "notify_of (lt_phase t) = Some n"
  shows "n \<notin> fired s" "n < next_notify (cache s)"
    and "slot_of s k = Some (Loading n) \<Longrightarrow> lt_key t = k \<and> fetch_of (lt_phase t) = Some (n, generation (cache s))"
proof -
  have own: "notifies s i n" using assms(2,3) by (simp add: notifies_def)
  then have B: "n < next_notify (cache s)" "n \<notin> fired s" "\<And>j. notifies s j n \<Longrightarrow> j = i"
    using assms(1) unfolding wakeups_ok_def by blast+
  then show "n \<notin> fired s" "n < next_notify (cache s)" by simp_all
  assume "slot_of s k = Some (Loading n)"
  then obtain j u where u: "tasks s j = Some u" "lt_key u = k" "fetch_of (lt_phase u) = Some (n, generation (cache s))"
    using assms(1) unfolding wakeups_ok_def by blast
  then have "j = i" using B(3) [of j] fetch_notify [OF u(3)] by (auto simp: notifies_def)
  with u assms(2) show "lt_key t = k \<and> fetch_of (lt_phase t) = Some (n, generation (cache s))" by simp
qed

lemma wakeups_advance:
  assumes ok: "inner_ok (cache s)" "wakeups_ok s" and "advance cfg i input s = Some s'"
  shows "wakeups_ok s'"
  using assms(3)
proof (cases rule: advance_cases)
  case (looked t b tm act c)
  note slots = next_action_slots [OF ok(1) looked(4)]
  have F: "\<And>n. n \<in> fired s \<Longrightarrow> n < next_notify (cache s)" using ok(2) unfolding wakeups_ok_def by blast
  show ?thesis
    unfolding looked(5)
  proof (rule wakeups_moved [OF ok(2) looked(1)])
    show "generation c = generation (cache s)" "next_notify (cache s) \<le> next_notify c" by (fact slots)+
    show "\<And>k n. map_of (entries c) k = Some (Loading n) \<Longrightarrow>
      (slot_of s k = Some (Loading n) \<and> (notify_of (lt_phase t) = Some n \<longrightarrow>
         fetch_of (phase_after_action (lt_force t) act) = fetch_of (lt_phase t)))
      \<or> (k = lt_key t \<and> fetch_of (phase_after_action (lt_force t) act) = Some (n, generation (cache s)))"
      subgoal for k n using slots(2) [of k n] looked(2) by (auto simp: slot_of_def) done
    show "\<And>n. notify_of (phase_after_action (lt_force t) act) = Some n \<Longrightarrow>
        notify_of (lt_phase t) = Some n \<and> n \<notin> fired s
        \<or> next_notify (cache s) \<le> n \<and> n < next_notify c \<and> n \<notin> fired s"
      subgoal for n using slots(6) [of n] F [of n] by (auto split: lookup_cache_action.splits) done
    show "\<And>n. phase_after_action (lt_force t) act = Waiting n \<Longrightarrow> slot_of s (lt_key t) = Some (Loading n)"
      using slots(7) by (simp add: slot_of_def)
  qed (use looked(2) in simp_all)
next
  case (undecodable t payload)
  then show ?thesis
    by (auto intro!: wakeups_moved [OF ok(2)] simp: slot_of_def split: if_splits)
next
  case (hydrated t n g payload v t1 t2)
  note slots = resolve_slots [OF ok(1) refl]
  have own: "notify_of (lt_phase t) = Some n" using hydrated(2) by simp
  show ?thesis
    unfolding hydrated(5)
    by (rule wakeups_moved [OF ok(2) hydrated(1)])
      (use hydrated(2) owner_facts [OF ok(2) hydrated(1) own] in \<open>auto simp: slots(1,3,4) slot_of_def owns_loading_slot_def\<close>)
next
  case (loaded t n g r t1 t2)
  note slots = finish_slots [OF ok(1) refl]
  have own: "notify_of (lt_phase t) = Some n" using loaded(2) by simp
  show ?thesis
    unfolding loaded(4)
    by (rule wakeups_moved [OF ok(2) loaded(1)])
      (use loaded(2) owner_facts [OF ok(2) loaded(1) own] in \<open>auto simp: slots(1,3,4) slot_of_def\<close>)
next
  case (notified t n r)
  have own: "notify_of (lt_phase t) = Some n" using notified(2) by simp
  show ?thesis
    unfolding notified(4)
    by (rule wakeups_moved [OF ok(2) notified(1)])
      (use notified(2) owner_facts [OF ok(2) notified(1) own] in \<open>auto simp: slot_of_def split: option.splits\<close>)
next
  case (dropped t n g)
  note slots = guard_slots [OF refl]
  note own = fetch_notify [OF dropped(2)]
  note facts = owner_facts [OF ok(2) dropped(1) own]
  have mine: "lt_key t = k \<and> owns_loading_slot (lt_key t) g n (cache s)" if "slot_of s k = Some (Loading n)" for k
    using facts(3) [OF that] that dropped(2) by (auto simp: owns_loading_slot_def slot_of_def)
  show ?thesis
    unfolding dropped(4)
  proof (rule wakeups_moved [OF ok(2) dropped(1)])
    fix k m assume here: "map_of (entries (drop_fetch_guard (lt_key t) g n (cache s))) k = Some (Loading m)"
    then have old: "slot_of s k = Some (Loading m)" by (simp add: slots(1) slot_of_def split: if_split_asm)
    then have "notify_of (lt_phase t) \<noteq> Some m" using mine [of k] own here by (auto simp: slots(1))
    with old show "(slot_of s k = Some (Loading m) \<and> (notify_of (lt_phase t) = Some m \<longrightarrow>
        fetch_of (Closing n None) = fetch_of (lt_phase t)))
      \<or> (k = lt_key t \<and> fetch_of (Closing n None) = Some (m, generation (cache s)))" by simp
  qed (use own facts(1,2) in \<open>simp_all add: slots\<close>)
next
  case (unread t n g answer t1 t2)
  have own: "notify_of (lt_phase t) = Some n" using unread(2) by simp
  show ?thesis
    unfolding unread(4)
    by (rule wakeups_moved [OF ok(2) unread(1)])
      (use unread(2) owner_facts [OF ok(2) unread(1) own] in \<open>auto simp: slot_of_def\<close>)
qed (auto intro!: wakeups_moved [OF ok(2)] simp: slot_of_def)

lemma wakeups_begin: "wakeups_ok s \<Longrightarrow> tasks s i = None \<Longrightarrow> wakeups_ok (begin_lookup i key kind force s)"
  unfolding wakeups_ok_def notifies_def slot_of_def begin_lookup_def
  by (auto split: if_splits) (metis option.distinct(1))+

lemma wakeups_invalidate: "wakeups_ok s \<Longrightarrow> wakeups_ok (invalidate t s)"
  unfolding wakeups_ok_def notifies_def slot_of_def invalidate_def invalidate_all_def by simp

lemma wakeups_maintain: "inner_ok (cache s) \<Longrightarrow> wakeups_ok s \<Longrightarrow> wakeups_ok (maintain t s)"
  unfolding wakeups_ok_def notifies_def slot_of_def maintain_def
  by (simp add: prune_slot(1) [OF inner_okD(1)])

definition cache_inv :: "'v cache_system \<Rightarrow> bool" where
  "cache_inv s \<longleftrightarrow> inner_ok (cache s) \<and> wakeups_ok s"

lemma cache_inv_begin: "cache_inv s \<Longrightarrow> tasks s i = None \<Longrightarrow> cache_inv (begin_lookup i key kind force s)"
  by (simp add: cache_inv_def wakeups_begin) (simp add: begin_lookup_def)

lemma cache_inv_advance: "cache_inv s \<Longrightarrow> input_ok input \<Longrightarrow> advance cfg i input s = Some s' \<Longrightarrow> cache_inv s'"
  by (auto simp: cache_inv_def intro: inner_ok_advance wakeups_advance)

lemma cache_inv_invalidate: "cache_inv s \<Longrightarrow> cache_inv (invalidate t s)"
  by (simp add: cache_inv_def wakeups_invalidate) (simp add: invalidate_def inner_ok_invalidate)

lemma cache_inv_maintain: "cache_inv s \<Longrightarrow> cache_inv (maintain t s)"
  by (simp add: cache_inv_def wakeups_maintain) (simp add: maintain_def inner_ok_prune)

lemma cache_inv_step: "cache_step cfg world s s' \<Longrightarrow> cache_inv s \<Longrightarrow> cache_inv s'"
  by (induction rule: cache_step.induct)
    (simp_all add: cache_inv_begin cache_inv_advance cache_inv_invalidate cache_inv_maintain)

lemma cache_inv_initial: "byte_limit \<le> 2 ^ 63 \<Longrightarrow> cache_inv (initial_system entry_limit byte_limit)"
  by (simp add: cache_inv_def initial_system_def initial_inner_def inner_ok_def slots_ok_def
      wakeups_ok_def slot_of_def notifies_def)

lemma cache_inv_reachable: "cache_reachable cfg world s \<Longrightarrow> cache_inv s"
  by (induction rule: cache_reachable.induct) (auto intro: cache_inv_initial cache_inv_step)

end
