(* ===== verification/LookupCacheProperties.thy ===== *)
theory LookupCacheProperties
  imports LookupCacheMachine
begin

text \<open>
  What any interleaving of lookups, cancellations, invalidations and maintenance
  guarantees: limits, no lost wake-up, one running fetch per key, results that
  belong to their key, and no store by a fetch that an invalidation overtook.
\<close>

subsection \<open>Answers belong to their key\<close>

definition serde_roundtrip :: "'v cache_config \<Rightarrow> bool" where
  "serde_roundtrip cfg \<longleftrightarrow> (\<forall>v p. to_json cfg v = Some p \<longrightarrow> from_json cfg p = Some v)"

definition world_honest ::
  "'v cache_config \<Rightarrow> (string \<Rightarrow> 'v set) \<Rightarrow> ('v lookup_task \<Rightarrow> 'v task_input \<Rightarrow> bool) \<Rightarrow> bool" where
  "world_honest cfg answers world \<longleftrightarrow>
     (\<forall>t v t1 t2. world t (Loader_Answer (Inr v) t1 t2) \<longrightarrow> v \<in> answers (lt_key t))
     \<and> (\<forall>t p v t1 t2. world t (Persistent_Answer (Some p) t1 t2) \<and> from_json cfg p = Some v
          \<longrightarrow> v \<in> answers (lt_key t))"

definition payload_ok :: "'v cache_config \<Rightarrow> (string \<Rightarrow> 'v set) \<Rightarrow> string \<Rightarrow> string \<Rightarrow> bool" where
  "payload_ok cfg answers k p \<longleftrightarrow> (\<exists>v \<in> answers k. from_json cfg p = Some v)"

fun phase_values_ok :: "'v cache_config \<Rightarrow> (string \<Rightarrow> 'v set) \<Rightarrow> string \<Rightarrow> 'v lookup_phase \<Rightarrow> bool" where
  "phase_values_ok cfg answers k (Decoding p) \<longleftrightarrow> payload_ok cfg answers k p"
| "phase_values_ok cfg answers k (Closing n r) \<longleftrightarrow> (\<forall>v. r = Some (Inr v) \<longrightarrow> v \<in> answers k)"
| "phase_values_ok cfg answers k (Finished r) \<longleftrightarrow> (\<forall>v. r = Inr v \<longrightarrow> v \<in> answers k)"
| "phase_values_ok cfg answers k _ \<longleftrightarrow> True"

definition values_ok :: "'v cache_config \<Rightarrow> (string \<Rightarrow> 'v set) \<Rightarrow> 'v cache_system \<Rightarrow> bool" where
  "values_ok cfg answers s \<longleftrightarrow>
     (\<forall>k entry p. slot_of s k = Some (Ready entry) \<and> entry_value entry = Cached_Success p \<longrightarrow> payload_ok cfg answers k p)
     \<and> (\<forall>i t. tasks s i = Some t \<longrightarrow> phase_values_ok cfg answers (lt_key t) (lt_phase t))"

lemma values_moved:
  assumes "values_ok cfg answers s" "tasks s i = Some t"
    and "\<And>k entry p. map_of (entries c) k = Some (Ready entry) \<Longrightarrow> entry_value entry = Cached_Success p \<Longrightarrow>
      (\<exists>old. slot_of s k = Some (Ready old) \<and> entry_value old = Cached_Success p) \<or> payload_ok cfg answers k p"
    and "phase_values_ok cfg answers (lt_key t) ph"
  shows "values_ok cfg answers (moved s i t ph f c)"
  using assms unfolding values_ok_def slot_of_def by (auto split: if_splits) blast

lemma phase_values_action:
  assumes "\<And>entry p. act = Return_Entry entry \<Longrightarrow> entry_value entry = Cached_Success p \<Longrightarrow> payload_ok cfg answers k p"
  shows "phase_values_ok cfg answers k (phase_after_action f act)"
  using assms by (auto simp: phase_after_action_def split: lookup_cache_action.split cached_lookup_value.split)

lemma values_advance:
  assumes rt: "serde_roundtrip cfg" and honest: "world_honest cfg answers world"
    and ok: "inner_ok (cache s)" "values_ok cfg answers s"
    and "tasks s i = Some t0" "world t0 input" and "advance cfg i input s = Some s'"
  shows "values_ok cfg answers s'"
  using assms(7)
proof (cases rule: advance_cases)
  case (looked t b tm act c)
  note slots = next_action_slots [OF ok(1) looked(4)]
  show ?thesis
    unfolding looked(5)
  proof (rule values_moved [OF ok(2) looked(1)])
    show "phase_values_ok cfg answers (lt_key t) (phase_after_action (lt_force t) act)"
      using slots(8) ok(2) by (intro phase_values_action) (fastforce simp: values_ok_def slot_of_def)
  qed (use slots(3) in \<open>force simp: slot_of_def\<close>)
next
  case (hydrated t n g payload v t1 t2)
  note slots = resolve_slots [OF ok(1) refl]
  have v: "v \<in> answers (lt_key t)"
    using honest assms(5,6) hydrated(1,3,4) by (fastforce simp: world_honest_def)
  then have "payload_ok cfg answers (lt_key t) payload" using hydrated(4) by (auto simp: payload_ok_def)
  with v show ?thesis
    unfolding hydrated(5)
    by (intro values_moved [OF ok(2) hydrated(1)])
      (auto dest!: slots(2) simp: slot_of_def success_entry_def)
next
  case (loaded t n g r t1 t2)
  note slots = finish_slots [OF ok(1) refl]
  have v: "v \<in> answers (lt_key t)" if "r = Inr v" for v
    using honest assms(5,6) loaded(1,3) that by (auto simp: world_honest_def)
  have own: "payload_ok cfg answers (lt_key t) p"
    if "cached_entry t1 (cc_policy cfg) (lt_kind t) (serialized cfg r) = Some entry" "entry_value entry = Cached_Success p" for entry p
    using that v rt
    by (cases r; cases "serialized cfg r")
      (auto simp: serialized_def payload_ok_def serde_roundtrip_def success_entry_def error_entry_def
        split: lookup_loader_error.splits if_splits elim!: cached_entry.elims)
  show ?thesis
    unfolding loaded(4)
  proof (rule values_moved [OF ok(2) loaded(1)])
    show "phase_values_ok cfg answers (lt_key t) (Closing n (Some (lookup_result r)))"
      using v by (auto simp: lookup_result_def split: sum.splits)
  qed (auto dest!: slots(2) simp: slot_of_def own)
next
  case (decoded t payload v)
  have "phase_values_ok cfg answers (lt_key t) (lt_phase t)" using ok(2) decoded(1) by (simp add: values_ok_def)
  with decoded(2,4) have "v \<in> answers (lt_key t)" by (auto simp: payload_ok_def)
  then show ?thesis
    unfolding decoded(5) by (intro values_moved [OF ok(2) decoded(1)]) (auto simp: slot_of_def)
next
  case (notified t n r)
  have "phase_values_ok cfg answers (lt_key t) (lt_phase t)" using ok(2) notified(1) by (simp add: values_ok_def)
  with notified(2) show ?thesis
    unfolding notified(4)
    by (intro values_moved [OF ok(2) notified(1)]) (auto simp: slot_of_def split: option.splits)
qed (auto intro!: values_moved [OF ok(2)] simp: slot_of_def guard_slots(1) [OF refl] split: if_splits)

lemma values_step:
  assumes rt: "serde_roundtrip cfg" and honest: "world_honest cfg answers world"
    and step: "cache_step cfg world s s'" and inv: "cache_inv s" and ok: "values_ok cfg answers s"
  shows "values_ok cfg answers s'"
  using step inv ok
proof (induction rule: cache_step.induct)
  case (Advance s i t input s')
  then show ?case by (auto simp: cache_inv_def intro: values_advance [OF rt honest])
next
  case (Maintain s t)
  then have "slots_ok (entries (cache s))" by (simp add: cache_inv_def inner_okD(1))
  with Maintain show ?case by (auto simp: values_ok_def slot_of_def maintain_def dest!: prune_slot(2))
qed (auto simp: values_ok_def slot_of_def begin_lookup_def invalidate_def invalidate_all_def)

lemma values_reachable:
  assumes "cache_reachable cfg world s" "serde_roundtrip cfg" "world_honest cfg answers world"
  shows "values_ok cfg answers s"
  using assms(1)
proof (induction rule: cache_reachable.induct)
  case (Next_System s s')
  then show ?case using values_step [OF assms(2,3)] cache_inv_reachable by blast
qed (simp add: values_ok_def slot_of_def initial_system_def initial_inner_def)

subsection \<open>Generations\<close>

definition epoch_ok :: "'v cache_system \<Rightarrow> bool" where
  "epoch_ok s \<longleftrightarrow> generation (cache s) = of_nat (epoch s)
     \<and> (\<forall>i t n g. tasks s i = Some t \<and> fetch_of (lt_phase t) = Some (n, g) \<longrightarrow> (\<exists>e \<le> epoch s. g = of_nat e))"

lemma generation_sections [simp]:
  "generation (snd (resolve_persistent_cache_slot t1 t2 policy k kind p g n c)) = generation c"
  "generation (finish_fetch sec t1 t2 policy k kind g r c) = generation c"
  "generation (drop_fetch_guard k g n c) = generation c"
  by (auto simp: resolve_persistent_cache_slot_def finish_fetch_def drop_fetch_guard_def split: option.splits)

lemma next_action_generation:
  assumes "next_action sec t k kind f c = (act, c')"
  shows "generation c' = generation c" "act = Start_Fetch n g allow \<Longrightarrow> g = generation c"
  using assms by (cases rule: next_action_cases; simp)+

lemma epoch_advance:
  assumes ok: "epoch_ok s" and "advance cfg i input s = Some s'"
  shows "epoch_ok s' \<and> epoch s' = epoch s"
  using assms(2)
proof (cases rule: advance_cases)
  case (looked t b tm act c)
  with ok next_action_generation [OF looked(4)] show ?thesis
    by (auto simp: epoch_ok_def split: lookup_cache_action.splits)
next
  case (unread t n g answer t1 t2)
  then have fetch: "fetch_of (lt_phase t) = Some (n, g)" by simp
  have "\<exists>e \<le> epoch s. g = of_nat e" using ok unread(1) fetch unfolding epoch_ok_def by blast
  with unread ok show ?thesis by (auto simp: epoch_ok_def)
qed (use ok in \<open>auto simp: epoch_ok_def split: option.splits\<close>)

lemma epoch_step:
  assumes "cache_step cfg world s s'" "epoch_ok s"
  shows "epoch_ok s' \<and> epoch s \<le> epoch s'"
  using assms
proof (induction rule: cache_step.induct)
  case (Advance s i t input s')
  then show ?case using epoch_advance by fastforce
next
  case (Invalidate s t)
  then show ?case by (auto simp: epoch_ok_def invalidate_def invalidate_all_def le_Suc_eq) blast
qed (auto simp: epoch_ok_def begin_lookup_def maintain_def split: if_splits)

lemma epoch_reachable: "cache_reachable cfg world s \<Longrightarrow> epoch_ok s"
proof (induction rule: cache_reachable.induct)
  case (Next_System s s')
  then show ?case using epoch_step by blast
qed (simp add: epoch_ok_def initial_system_def initial_inner_def)

lemma same_generation:
  assumes "e < 2 ^ 64" "e' < 2 ^ 64" "(of_nat e :: 64 word) = of_nat e'"
  shows "e = e'"
proof -
  have "e mod 2 ^ 64 = e' mod 2 ^ 64"
    using arg_cong [OF assms(3), of unat] by (simp add: unat_of_nat)
  with assms(1,2) show ?thesis by simp
qed

lemma older_generation:
  assumes "epoch_ok s" "tasks s i = Some t" "fetch_of (lt_phase t) = Some (n, g)" "Suc (epoch s) < 2 ^ 64"
  shows "g \<noteq> of_nat (Suc (epoch s))"
proof
  assume g: "g = of_nat (Suc (epoch s))"
  obtain e where e: "e \<le> epoch s" "g = of_nat e" using assms(1-3) unfolding epoch_ok_def by blast
  then have "e = Suc (epoch s)" using g assms(4) by (intro same_generation) simp_all
  with e(1) show False by simp
qed

subsection \<open>One fetch per key\<close>

text \<open>A running fetch of the current generation holds the loading slot of its key.\<close>

definition flight_ok :: "'v cache_system \<Rightarrow> bool" where
  "flight_ok s \<longleftrightarrow> (\<forall>i t n. tasks s i = Some t \<and> fetch_of (lt_phase t) = Some (n, generation (cache s))
     \<longrightarrow> slot_of s (lt_key t) = Some (Loading n))"

lemma flight_okD:
  "flight_ok s \<Longrightarrow> tasks s i = Some t \<Longrightarrow> fetch_of (lt_phase t) = Some (n, generation (cache s))
   \<Longrightarrow> slot_of s (lt_key t) = Some (Loading n)"
  unfolding flight_ok_def by blast

lemma flight_moved:
  assumes "flight_ok s" "tasks s i = Some t" "generation c = generation (cache s)"
    and "\<And>k n. slot_of s k = Some (Loading n) \<Longrightarrow> map_of (entries c) k = Some (Loading n)
      \<or> (k = lt_key t \<and> fetch_of (lt_phase t) = Some (n, generation (cache s)) \<and> (\<forall>j. notifies s j n \<longrightarrow> j = i))"
    and "\<And>n. fetch_of ph = Some (n, generation (cache s)) \<Longrightarrow> map_of (entries c) (lt_key t) = Some (Loading n)"
  shows "flight_ok (moved s i t ph f c)"
  unfolding flight_ok_def
proof (intro allI impI, elim conjE)
  fix j u n
  assume u: "tasks (moved s i t ph f c) j = Some u"
    and fetch: "fetch_of (lt_phase u) = Some (n, generation (cache (moved s i t ph f c)))"
  show "slot_of (moved s i t ph f c) (lt_key u) = Some (Loading n)"
  proof (cases "j = i")
    case True
    with u fetch assms(3,5) show ?thesis by (auto simp: slot_of_def)
  next
    case False
    then have old: "tasks s j = Some u" using u by simp
    then have "slot_of s (lt_key u) = Some (Loading n)" using flight_okD [OF assms(1)] fetch assms(3) by simp
    moreover have "notifies s j n" using old fetch_notify [OF fetch] by (simp add: notifies_def)
    ultimately show ?thesis using assms(4) False by (fastforce simp: slot_of_def)
  qed
qed

lemma wakeups_unique: "wakeups_ok s \<Longrightarrow> notifies s i n \<Longrightarrow> notifies s j n \<Longrightarrow> j = i"
  unfolding wakeups_ok_def by blast

lemma flight_advance:
  assumes rt: "values_ok cfg answers s" and inv: "cache_inv s" and ok: "flight_ok s"
    and "advance cfg i input s = Some s'"
  shows "flight_ok s'"
  using assms(4)
proof (cases rule: advance_cases)
  case (looked t b tm act c)
  have iok: "inner_ok (cache s)" using inv by (simp add: cache_inv_def)
  note slots = next_action_slots [OF iok looked(4)]
  show ?thesis
    unfolding looked(5)
    by (rule flight_moved [OF ok looked(1) slots(4)])
      (use slots(1,6) in \<open>auto simp: slot_of_def split: lookup_cache_action.splits\<close>)
next
  case (undecodable t payload)
  have "phase_values_ok cfg answers (lt_key t) (lt_phase t)" using rt undecodable(1) by (simp add: values_ok_def)
  with undecodable(2,4) show ?thesis by (simp add: payload_ok_def)
next
  case (hydrated t n g payload v t1 t2)
  have iok: "inner_ok (cache s)" "wakeups_ok s" using inv by (simp_all add: cache_inv_def)
  note slots = resolve_slots [OF iok(1) refl]
  have "notifies s i n" using hydrated(1,2) by (simp add: notifies_def)
  note uniq = wakeups_unique [OF iok(2) this]
  show ?thesis
    unfolding hydrated(5)
    by (rule flight_moved [OF ok hydrated(1)])
      (use hydrated(2) uniq in \<open>auto simp: slots(1,3) slot_of_def owns_loading_slot_def\<close>)
next
  case (loaded t n g r t1 t2)
  have iok: "inner_ok (cache s)" "wakeups_ok s" using inv by (simp_all add: cache_inv_def)
  note slots = finish_slots [OF iok(1) refl]
  have "notifies s i n" using loaded(1,2) by (simp add: notifies_def)
  note uniq = wakeups_unique [OF iok(2) this]
  have own: "slot_of s (lt_key t) = Some (Loading n)" if "generation (cache s) = g"
    using flight_okD [OF ok loaded(1)] loaded(2) that by simp
  show ?thesis
    unfolding loaded(4)
    by (rule flight_moved [OF ok loaded(1)])
      (use loaded(2) uniq own in \<open>auto simp: slots(1,3) slot_of_def\<close>)
next
  case (dropped t n g)
  have iok: "inner_ok (cache s)" "wakeups_ok s" using inv by (simp_all add: cache_inv_def)
  note slots = guard_slots [OF refl]
  have "notifies s i n" using dropped(1) fetch_notify [OF dropped(2)] by (simp add: notifies_def)
  note uniq = wakeups_unique [OF iok(2) this]
  show ?thesis
    unfolding dropped(4)
    by (rule flight_moved [OF ok dropped(1)])
      (use dropped(2) uniq in \<open>auto simp: slots slot_of_def owns_loading_slot_def\<close>)
next
  case (unread t n g answer t1 t2)
  then have "fetch_of (lt_phase t) = Some (n, g)" by simp
  with flight_okD [OF ok unread(1)] show ?thesis
    unfolding unread(4) by (intro flight_moved [OF ok unread(1)]) (auto simp: slot_of_def)
qed (auto intro!: flight_moved [OF ok] simp: slot_of_def split: option.splits)

lemma flight_step:
  assumes "cache_step cfg world s s'" "values_ok cfg answers s" "cache_inv s" "epoch_ok s" "flight_ok s"
    "epoch s' < 2 ^ 64"
  shows "flight_ok s'"
  using assms
proof (induction rule: cache_step.induct)
  case (Advance s i t input s')
  then show ?case using flight_advance by blast
next
  case (Invalidate s t)
  from Invalidate(5) have "Suc (epoch s) < 2 ^ 64" by (simp add: invalidate_def)
  note old = older_generation [OF Invalidate(3) _ _ this]
  have gen: "generation (cache (invalidate t s)) = of_nat (Suc (epoch s))"
    using Invalidate(3) by (simp add: epoch_ok_def invalidate_def invalidate_all_def add.commute)
  have "tasks (invalidate t s) = tasks s" by (simp add: invalidate_def)
  with old show ?case unfolding flight_ok_def gen by metis
next
  case (Maintain s t)
  then have "slots_ok (entries (cache s))" by (simp add: cache_inv_def inner_okD(1))
  with Maintain(4) show ?case by (simp add: flight_ok_def maintain_def slot_of_def prune_slot(1))
qed (auto simp: flight_ok_def begin_lookup_def slot_of_def split: if_splits)

lemma flight_reachable:
  assumes "cache_reachable cfg world s" "serde_roundtrip cfg" "epoch s < 2 ^ 64"
  shows "flight_ok s"
  using assms(1,3)
proof (induction rule: cache_reachable.induct)
  case (Next_System s s')
  have honest: "world_honest cfg (\<lambda>_. UNIV) world" by (simp add: world_honest_def)
  have inv: "cache_inv s" "epoch_ok s" "values_ok cfg (\<lambda>_. UNIV) s"
    using Next_System(1) cache_inv_reachable epoch_reachable values_reachable [OF _ assms(2) honest] by blast+
  have "epoch s < 2 ^ 64" using epoch_step [OF Next_System(2) inv(2)] Next_System(4) by simp
  with Next_System inv show ?case by (blast intro: flight_step)
qed (simp add: flight_ok_def initial_system_def)

subsection \<open>Metrics\<close>

definition bucket_total :: "(metric_bucket \<Rightarrow> nat) \<Rightarrow> lookup_cache_metrics \<Rightarrow> nat" where
  "bucket_total f m = f (track_bucket m) + f (bag_bucket m) + f (manifest_bucket m)"

definition metrics_ok :: "lookup_cache_metrics \<Rightarrow> bool" where
  "metrics_ok m \<longleftrightarrow> hits (overall m) = bucket_total hits m \<and> misses (overall m) = bucket_total misses m
     \<and> bypasses (overall m) = bucket_total bypasses m \<and> stales (overall m) = bucket_total stales m
     \<and> coalesced (overall m) = bucket_total coalesced m
     \<and> store_successes (overall m) = bucket_total store_successes m
     \<and> store_errors (overall m) = bucket_total store_errors m
     \<and> bucket_total invalidations m = 0 \<and> last_summary_total m \<le> total_events (overall m)"

lemma maybe_build_summary_sel:
  "overall (snd (maybe_build_summary sec t m)) = overall m"
  "track_bucket (snd (maybe_build_summary sec t m)) = track_bucket m"
  "bag_bucket (snd (maybe_build_summary sec t m)) = bag_bucket m"
  "manifest_bucket (snd (maybe_build_summary sec t m)) = manifest_bucket m"
  "last_summary_total (snd (maybe_build_summary sec t m)) \<in> {last_summary_total m, total_events (overall m)}"
  by (auto simp: maybe_build_summary_def Let_def split: option.split)

lemma metrics_ok_event:
  assumes "metrics_ok m" "ev \<noteq> Invalidation"
  shows "metrics_ok (snd (record_event sec t kind ev m))
    \<and> invalidations (overall (snd (record_event sec t kind ev m))) = invalidations (overall m)"
proof -
  let ?m = "bucket_update kind (record_in ev) (m\<lparr>overall := record_in ev (overall m)\<rparr>)"
  have sel: "overall ?m = record_in ev (overall m)" "last_summary_total ?m = last_summary_total m"
    by (cases kind; simp add: bucket_update_def)+
  have total: "total_events (record_in ev (overall m)) = Suc (total_events (overall m))"
    by (cases ev) (simp_all add: total_events_def)
  have "last_summary_total (snd (maybe_build_summary sec t ?m)) \<le> total_events (overall ?m)"
    using maybe_build_summary_sel(5) [of sec t ?m] assms(1) by (auto simp: sel total metrics_ok_def)
  then show ?thesis
    using assms
    by (cases ev; cases kind)
      (auto simp: metrics_ok_def record_event_def maybe_build_summary_sel(1-4) bucket_total_def bucket_update_def)
qed

lemma metrics_ok_invalidation:
  "metrics_ok m \<Longrightarrow> metrics_ok (snd (record_invalidation t m))
    \<and> invalidations (overall (snd (record_invalidation t m))) = Suc (invalidations (overall m))"
  by (simp add: record_invalidation_def metrics_ok_def bucket_total_def Let_def)

definition counted :: "'v cache_system \<Rightarrow> bool" where
  "counted s \<longleftrightarrow> metrics_ok (metrics (cache s)) \<and> invalidations (overall (metrics (cache s))) = epoch s"

lemma counted_recorded:
  "counted s \<Longrightarrow> ev \<noteq> Invalidation \<Longrightarrow> metrics c = metrics (cache s) \<Longrightarrow> epoch s' = epoch s
   \<Longrightarrow> cache s' = recorded sec t kind ev c \<Longrightarrow> counted s'"
  using metrics_ok_event [of "metrics (cache s)" ev sec t kind] by (simp add: counted_def recorded_def)

lemma counted_same: "counted s \<Longrightarrow> metrics (cache s') = metrics (cache s) \<Longrightarrow> epoch s' = epoch s \<Longrightarrow> counted s'"
  by (simp add: counted_def)

lemma recorded_commute:
  "metrics (put_slot k slot (recorded sec t kind ev c)) = metrics (recorded sec t kind ev c)"
  by simp

lemma next_action_metrics:
  assumes "next_action sec t k kind f c = (act, c')"
  shows "\<exists>ev. ev \<noteq> Invalidation \<and> metrics c' = snd (record_event sec t kind ev (metrics c))"
  using assms
proof (cases rule: next_action_cases)
  case (refetch entry)
  then show ?thesis by (intro exI [of _ "if f then Bypass else Stale"]) (simp add: recorded_def)
qed (auto simp: recorded_def intro: exI [of _ Hit] exI [of _ Coalesced] exI [of _ Miss])

lemma finish_metrics:
  "\<exists>ev. ev \<noteq> Invalidation \<and> metrics (finish_fetch sec t1 t2 policy k kind g r c) = snd (record_event sec t2 kind ev (metrics c))"
  by (intro exI [of _ "case r of Inl _ \<Rightarrow> Store_Failure | Inr _ \<Rightarrow> Store_Success"])
    (auto simp: finish_fetch_def recorded_def split: sum.split option.split)

lemma counted_advance:
  assumes "counted s" "advance cfg i input s = Some s'"
  shows "counted s'"
  using assms(2)
proof (cases rule: advance_cases)
  case (looked t b tm act c)
  from next_action_metrics [OF looked(4)] obtain ev where
    "ev \<noteq> Invalidation" "metrics c = snd (record_event (cc_second cfg) tm (lt_kind t) ev (metrics (cache s)))" by blast
  with looked(5) assms(1) metrics_ok_event show ?thesis by (fastforce simp: counted_def)
next
  case (loaded t n g r t1 t2)
  from finish_metrics obtain ev where "ev \<noteq> Invalidation" "metrics (cache s') = snd (record_event (cc_second cfg) t2 (lt_kind t) ev (metrics (cache s)))"
    unfolding loaded(4) by (fastforce simp del: recorded_sel)
  with loaded(4) assms(1) metrics_ok_event show ?thesis by (fastforce simp: counted_def)
qed (use assms(1) in \<open>auto elim!: counted_same simp: resolve_persistent_cache_slot_def drop_fetch_guard_def\<close>)

lemma counted_reachable: "cache_reachable cfg world s \<Longrightarrow> counted s"
proof (induction rule: cache_reachable.induct)
  case (Initial_System byte_limit entry_limit)
  then show ?case
    by (simp add: counted_def metrics_ok_def initial_system_def initial_inner_def bucket_total_def empty_bucket_def total_events_def)
next
  case (Next_System s s')
  from Next_System(2,3) show ?case
  proof (induction rule: cache_step.induct)
    case (Advance s i t input s')
    then show ?case using counted_advance by blast
  next
    case (Invalidate s t)
    then show ?case using metrics_ok_invalidation by (simp add: counted_def invalidate_def invalidate_all_def)
  qed (auto elim!: counted_same simp: begin_lookup_def maintain_def)
qed

end
