(* ===== verification/LookupCacheClaims.thy ===== *)
theory LookupCacheClaims
  imports LookupCacheProperties
begin

text \<open>
  The properties of the lookup cache, each with a run of the cache on concrete
  inputs that shows its hypotheses hold.
\<close>

subsection \<open>Concrete runs\<close>

fun run_inputs :: "'v cache_config \<Rightarrow> (nat \<times> 'v task_input) list \<Rightarrow> 'v cache_system \<Rightarrow> 'v cache_system option" where
  "run_inputs cfg [] s = Some s"
| "run_inputs cfg ((i, input) # rest) s =
     (case advance cfg i input s of None \<Rightarrow> None | Some s' \<Rightarrow> run_inputs cfg rest s')"

lemma run_inputs_reachable:
  assumes "run_inputs cfg xs s = Some s'" "cache_reachable cfg world s"
    "\<forall>(i, input) \<in> set xs. input_ok input \<and> (\<forall>t. world t input)"
  shows "cache_reachable cfg world s'"
  using assms
proof (induction cfg xs s rule: run_inputs.induct)
  case (2 cfg i input rest s)
  then obtain u where u: "advance cfg i input s = Some u" "run_inputs cfg rest u = Some s'"
    by (auto split: option.splits)
  then obtain t where "tasks s i = Some t" by (auto simp: advance_def split: option.splits)
  then have "cache_reachable cfg world u"
    using u(1) 2(3,4) by (auto intro: cache_reachable.Next_System [OF _ cache_step.Advance])
  with 2(1) [OF u(1) u(2)] 2(4) show ?case by simp
qed simp

definition demo_policy :: lookup_cache_policy where
  "demo_policy = \<lparr>track_ttl = 30, bag_ttl = 60, manifest_ttl = 90, error_ttl = 8\<rparr>"

definition demo_config :: "string cache_config" where
  "demo_config = \<lparr>cc_second = 1, cc_policy = demo_policy, to_json = Some, from_json = Some\<rparr>"

definition two_lookups :: "bool \<Rightarrow> string cache_system" where
  "two_lookups force = begin_lookup 1 ''k'' Lookup_Track force
     (begin_lookup 0 ''k'' Lookup_Track False (initial_system 10 1000))"

lemma two_lookups_reachable: "cache_reachable demo_config world (two_lookups force)"
proof -
  have "cache_reachable demo_config world (initial_system 10 1000 :: string cache_system)"
    by (rule cache_reachable.Initial_System) simp
  then have "cache_reachable demo_config world
      (begin_lookup 0 ''k'' Lookup_Track False (initial_system 10 1000) :: string cache_system)"
    by (rule cache_reachable.Next_System, intro cache_step.Begin_Lookup) (simp add: initial_system_def)
  then show ?thesis
    unfolding two_lookups_def
    by (rule cache_reachable.Next_System, intro cache_step.Begin_Lookup) (simp add: initial_system_def begin_lookup_def)
qed

lemmas run_eval = two_lookups_def begin_lookup_def initial_system_def initial_inner_def advance_def task_step_def
  next_action_def phase_after_action_def recorded_def start_loading_def put_slot_def drop_slot_def
  prune_lookup_cache_def prune_lookup_cache_with_limits_def success_entry_def is_expired_def
  resolve_persistent_cache_slot_def owns_loading_slot_def finish_fetch_def serialized_def lookup_result_def
  demo_config_def demo_policy_def Let_def saturating_add_def estimated_bytes_def

definition one_waits :: "string cache_system" where
  "one_waits = the (run_inputs demo_config [(0, Look 0), (1, Look 0)] (two_lookups False))"

lemma one_waits_run: "run_inputs demo_config [(0, Look 0), (1, Look 0)] (two_lookups False) = Some one_waits"
  unfolding one_waits_def by (simp add: run_eval)

lemma one_waits_reachable: "cache_reachable demo_config (\<lambda>_ _. True) one_waits"
  by (rule run_inputs_reachable [OF one_waits_run two_lookups_reachable]) simp

lemma one_waits_tasks:
  "tasks one_waits 0 = Some \<lparr>lt_key = ''k'', lt_kind = Lookup_Track, lt_force = False, lt_phase = Reading 0 0\<rparr>"
  "tasks one_waits 1 = Some \<lparr>lt_key = ''k'', lt_kind = Lookup_Track, lt_force = False, lt_phase = Waiting 0\<rparr>"
  "epoch one_waits = 0" "fired one_waits = {}" "generation (cache one_waits) = 0"
  unfolding one_waits_def by (simp_all add: run_eval)

subsection \<open>Limits\<close>

lemma snapshot_bytes:
  "fold (\<lambda>(k :: string, slot) total. saturating_add u64_max total (slot_bytes slot)) es a = min u64_max (a + ready_size es)"
  if "a \<le> u64_max"
  using that by (induction es arbitrary: a) (auto simp: saturating_add_def)

text \<open>
  However lookups, refreshes, cancellations and invalidations interleave, the
  in-memory cache stays within its configuration: no more slots than its
  capacity and no more payload bytes than its byte limit, and a snapshot reports
  exactly the slots and the bytes there are.
\<close>

theorem lookup_cache_limits:
  assumes "cache_reachable cfg world s"
  shows "let snapshot = snapshot_lookup_cache (cache s)
    in cs_ready snapshot + cs_loading snapshot = card (dom (slot_of s))
     \<and> cs_ready snapshot + cs_loading snapshot \<le> cs_capacity snapshot
     \<and> cs_bytes snapshot = ready_size (entries (cache s)) \<and> cs_bytes snapshot \<le> cs_byte_capacity snapshot"
proof -
  have ok: "inner_ok (cache s)" using cache_inv_reachable [OF assms] by (simp add: cache_inv_def)
  note lim = inner_okD [OF ok]
  have "dom (slot_of s) = set (map fst (entries (cache s)))"
    by (simp add: slot_of_def [abs_def] dom_map_of_conv_image_fst)
  then have "card (dom (slot_of s)) = length (entries (cache s))"
    using lim(1) distinct_card by (fastforce simp: slots_ok_def)
  moreover have "ready_size (entries (cache s)) \<le> u64_max" using lim(3,4) by simp
  ultimately show ?thesis
    using lim(2,3) length_slots [of "entries (cache s)"]
    by (simp add: Let_def snapshot_lookup_cache_def snapshot_bytes)
qed

theorem lookup_cache_limits_witness:
  "cache_reachable demo_config (\<lambda>_ _. True) one_waits
   \<and> cs_ready (snapshot_lookup_cache (cache one_waits)) + cs_loading (snapshot_lookup_cache (cache one_waits))
       \<le> cs_capacity (snapshot_lookup_cache (cache one_waits))"
  using one_waits_reachable lookup_cache_limits [OF one_waits_reachable] by (simp add: Let_def)




lemma demo_roundtrip: "serde_roundtrip demo_config"
  by (simp add: serde_roundtrip_def demo_config_def)



definition answered :: "string cache_system" where
  "answered = the (run_inputs demo_config
     [(0, Look 0), (1, Look 0), (0, Persistent_Answer None 0 0), (0, Loader_Answer (Inr ''v'') 0 0), (0, Notify_Waiters)]
     (two_lookups True))"

lemma answered_run: "run_inputs demo_config
     [(0, Look 0), (1, Look 0), (0, Persistent_Answer None 0 0), (0, Loader_Answer (Inr ''v'') 0 0), (0, Notify_Waiters)]
     (two_lookups True) = Some answered"
  unfolding answered_def by (simp add: run_eval)

lemma answered_task: "tasks answered 0 =
    Some \<lparr>lt_key = ''k'', lt_kind = Lookup_Track, lt_force = False, lt_phase = Finished (Inr ''v'')\<rparr>"
  unfolding answered_def by (simp add: run_eval)

text \<open>A world in which every loader answers \<open>v\<close> and nothing is stored.\<close>

definition answers_v :: "string lookup_task \<Rightarrow> string task_input \<Rightarrow> bool" where
  "answers_v t input \<longleftrightarrow> (\<forall>v t1 t2. input = Loader_Answer (Inr v) t1 t2 \<longrightarrow> v = ''v'')
     \<and> (\<forall>p t1 t2. input \<noteq> Persistent_Answer (Some p) t1 t2)"

lemma answered_reachable: "cache_reachable demo_config answers_v answered"
  by (rule run_inputs_reachable [OF answered_run two_lookups_reachable]) (simp add: answers_v_def)




text \<open>
  The eviction removes no running fetch, removes every expired entry, and of
  the remaining ready entries as many as needed and no more, the least recently
  accessed first: what stays fits the limits, nothing that stays was accessed
  before something that went, and if everything fits nothing is evicted.
\<close>

theorem prune_evicts_oldest:
  assumes "slots_ok es" and "ready_size es \<le> u64_max"
  shows "let out = prune_lookup_cache_with_limits now_at entry_limit byte_limit es;
             live = filter (\<lambda>(k, slot). keep_unexpired now_at slot) es
    in (\<forall>k n. map_of out k = Some (Loading n) \<longleftrightarrow> map_of es k = Some (Loading n))
     \<and> (\<forall>k entry. map_of out k = Some (Ready entry) \<longrightarrow>
          map_of es k = Some (Ready entry) \<and> \<not> is_expired now_at entry)
     \<and> count_where (\<lambda>(k, slot). \<not> is_loading slot) out
          \<le> entry_limit - count_where (\<lambda>(k, slot). is_loading slot) es
     \<and> ready_size out \<le> byte_limit
     \<and> (\<forall>k entry k' entry'. (k, Ready entry) \<in> set live - set out \<longrightarrow> (k', Ready entry') \<in> set out
          \<longrightarrow> last_accessed_at entry \<le> last_accessed_at entry')
     \<and> (fits entry_limit byte_limit live \<longrightarrow> out = live)"
proof -
  define order where "order = sort_key (\<lambda>(k :: string, accessed :: nat, bytes :: nat). accessed) (ready_entries (live_slots now_at es))"
  define out where "out = prune_lookup_cache_with_limits now_at entry_limit byte_limit es"
  note kept = prune_keeps [OF assms(1) out_def]
  obtain n where eq: "out = filter (\<lambda>(k, _). k \<notin> fst ` set (take n order)) (live_slots now_at es)"
    and lim: "count_where (\<lambda>(k, slot). \<not> is_loading slot) out \<le> entry_limit - count_where (\<lambda>(k, slot). is_loading slot) es"
      "ready_size out \<le> byte_limit"
    and raw: "count_where (\<lambda>(k, slot). \<not> is_loading slot) (live_slots now_at es)
        \<le> entry_limit - count_where (\<lambda>(k, slot). is_loading slot) es
      \<and> ready_size (live_slots now_at es) \<le> byte_limit \<longrightarrow> n = 0"
    using prune_fits [OF assms, of now_at entry_limit byte_limit]
    unfolding Let_def loading_live order_def [symmetric] out_def [symmetric]
    by (elim exE conjE) (rule that)
  have all: "n = 0" if "fits entry_limit byte_limit (live_slots now_at es)"
    using raw that unfolding fits_def loading_live by blast
  have oldest: "last_accessed_at entry \<le> last_accessed_at entry'"
    if gone: "(k, Ready entry) \<in> set (live_slots now_at es) - set out" and stays: "(k', Ready entry') \<in> set out"
    for k entry k' entry'
  proof -
    have dl: "distinct (map fst (live_slots now_at es))"
      using assms(1) unfolding slots_ok_def by (rule distinct_map_filter)
    have mem: "(k, last_accessed_at entry, estimated_bytes entry) \<in> set order"
      "(k', last_accessed_at entry', estimated_bytes entry') \<in> set order"
      using gone stays unfolding order_def eq by (auto simp: in_ready_entries)
    have "k \<in> fst ` set (take n order)" using gone unfolding eq by auto
    then obtain a b where ab: "(k, a, b) \<in> set (take n order)" by force
    then have "(k, a, b) \<in> set order" by (rule in_set_takeD)
    then obtain e2 where "(k, Ready e2) \<in> set (live_slots now_at es)" "a = last_accessed_at e2"
      unfolding order_def set_sort in_ready_entries by blast
    then have a: "a = last_accessed_at entry" using gone dl eq_key_imp_eq_value by fastforce
    have "(k', last_accessed_at entry', estimated_bytes entry') \<in> set (drop n order)"
    proof -
      have "k' \<notin> fst ` set (take n order)" using stays unfolding eq by auto
      then have "(k', last_accessed_at entry', estimated_bytes entry') \<notin> set (take n order)" by force
      with mem(2) show ?thesis using append_take_drop_id [of n order] by (metis Un_iff set_append)
    qed
    then have later: "last_accessed_at entry' \<in> set (map (\<lambda>(k, accessed, bytes). accessed) (drop n order))"
      by force
    have earlier: "last_accessed_at entry \<in> set (map (\<lambda>(k, accessed, bytes). accessed) (take n order))"
      using ab unfolding a by force
    have "sorted (map (\<lambda>(k, accessed, bytes). accessed) order)" unfolding order_def by (rule sorted_sort_key)
    then have "sorted (map (\<lambda>(k, accessed, bytes). accessed) (take n order) @ map (\<lambda>(k, accessed, bytes). accessed) (drop n order))"
      by (simp flip: map_append)
    then show ?thesis using earlier later unfolding sorted_append by blast
  qed
  show ?thesis
    unfolding Let_def out_def [symmetric]
  proof (intro conjI allI impI)
    show "out = live_slots now_at es" if "fits entry_limit byte_limit (live_slots now_at es)"
      unfolding eq all [OF that] by (simp add: filter_id_conv)
  qed (use kept lim oldest in blast)+
qed

definition demo_slots :: slots where
  "demo_slots = [(''a'', Ready (success_entry 3 demo_policy Lookup_Track ''x'')), (''b'', Loading 7),
     (''c'', Ready (success_entry 1 demo_policy Lookup_Track ''y''))]"

theorem prune_evicts_oldest_witness:
  "map_of (prune_lookup_cache_with_limits 5 2 100 demo_slots) ''b'' = Some (Loading 7)
   \<and> ready_size (prune_lookup_cache_with_limits 5 2 100 demo_slots) \<le> 100"
proof -
  have "slots_ok demo_slots" "ready_size demo_slots \<le> u64_max" "map_of demo_slots ''b'' = Some (Loading 7)"
    by (simp_all add: slots_ok_def demo_slots_def)
  with prune_evicts_oldest [of demo_slots 5 2 100] show ?thesis by (simp add: Let_def)
qed

text \<open>
  A forced refresh can be answered from the persistent store: when it joins a
  plain lookup of the same key that is being hydrated from disk, the value it
  returns was never fetched, although a joined lookup is meant to be fresh.
\<close>

theorem forced_refresh_joins_hydration:
  assumes "from_json cfg payload = Some v" and "length payload \<le> 1048576"
    and "0 < entry_limit" and "length payload \<le> byte_limit" and "0 < ttl_for (cc_policy cfg) kind"
  shows "\<exists>s t. run_inputs cfg
      [(0, Look 0), (1, Look 0), (0, Persistent_Answer (Some payload) 0 0), (0, Notify_Waiters),
       (1, Wake), (1, Look 0), (1, Decode)]
      (begin_lookup 1 key kind True (begin_lookup 0 key kind False (initial_system entry_limit byte_limit))) = Some s
    \<and> tasks s 1 = Some t \<and> lt_force t \<and> lt_phase t = Finished (Inr v)"
proof -
  have lim: "saturating_add u64_max 0 (length payload) \<le> byte_limit" using assms(4) by (simp add: saturating_add_def)
  show ?thesis
    using assms lim
    by (simp add: begin_lookup_def initial_system_def initial_inner_def advance_def task_step_def next_action_def
        phase_after_action_def recorded_def start_loading_def put_slot_def prune_lookup_cache_def
        prune_lookup_cache_with_limits_def success_entry_def is_expired_def estimated_bytes_def
        resolve_persistent_cache_slot_def owns_loading_slot_def Let_def)
qed

theorem forced_refresh_joins_hydration_witness:
  "\<exists>s t. run_inputs demo_config
      [(0, Look 0), (1, Look 0), (0, Persistent_Answer (Some ''old'') 0 0), (0, Notify_Waiters),
       (1, Wake), (1, Look 0), (1, Decode)]
      (begin_lookup 1 ''k'' Lookup_Track True (begin_lookup 0 ''k'' Lookup_Track False (initial_system 10 1000))) = Some s
    \<and> tasks s 1 = Some t \<and> lt_force t \<and> lt_phase t = Finished (Inr ''old'')"
  by (rule forced_refresh_joins_hydration) (simp_all add: demo_config_def demo_policy_def)

text \<open>
  The metrics add up in every reachable state: each overall counter is the
  sum of the counters of the three kinds of lookups, the invalidations are exactly
  those that happened, and the total a summary line reported is never ahead of
  the events counted.
\<close>

theorem lookup_metrics_add_up:
  assumes "cache_reachable cfg world s"
  shows "let m = metrics (cache s)
    in total_events (overall m)
         = total_events (track_bucket m) + total_events (bag_bucket m) + total_events (manifest_bucket m) + epoch s
     \<and> needed_fetch (overall m) = needed_fetch (track_bucket m) + needed_fetch (bag_bucket m) + needed_fetch (manifest_bucket m)
     \<and> invalidations (overall m) = epoch s \<and> last_summary_total m \<le> total_events (overall m)"
  using counted_reachable [OF assms]
  by (simp add: counted_def metrics_ok_def bucket_total_def total_events_def needed_fetch_def Let_def)

theorem lookup_metrics_add_up_witness: "invalidations (overall (metrics (cache one_waits))) = 0"
  using lookup_metrics_add_up [OF one_waits_reachable] one_waits_tasks(3) by (simp add: Let_def)

end
