(* ===== verification/ParserText.thy ===== *)
theory ParserText
  imports RustStrings
begin

text \<open>
  Text helpers of \<open>parser.rs\<close> that other components use: whitespace normalisation
  and the check of a phone number.
\<close>

text \<open>The loop over the characters, with \<open>prev_is_space\<close>.\<close>

fun collapse_spaces :: "bool \<Rightarrow> string list \<Rightarrow> string list" where
  "collapse_spaces prev_is_space [] = []"
| "collapse_spaces prev_is_space (ch # cs) =
     (if is_whitespace ch
      then (if prev_is_space then [] else ['' '']) @ collapse_spaces True cs
      else ch # collapse_spaces False cs)"

definition normalize_text :: "string \<Rightarrow> string" where
  "normalize_text input = trim (concat (collapse_spaces False (chars input)))"

definition phone_char :: "char \<Rightarrow> bool" where
  "phone_char c \<longleftrightarrow> is_ascii_digit c \<or> c = CHR ''+'' \<or> c = CHR '' '' \<or> c = CHR ''('' \<or> c = CHR '')'' \<or> c = CHR ''-''"

text \<open>
  The characters of the value are tested as bytes: a byte of a longer character
  is neither a digit nor one of the five signs.
\<close>

definition normalize_contact_phone :: "string \<Rightarrow> string option" where
  "normalize_contact_phone raw =
     (let v = normalize_text raw;
          digits = count_where is_ascii_digit v
      in if 7 \<le> length v \<and> length v \<le> 30 \<and> 7 \<le> digits \<and> digits \<le> 16
            \<and> list_all phone_char v \<and> list_ex (\<lambda>c. 49 \<le> byte c \<and> byte c \<le> 57) v
         then Some v else None)"

subsection \<open>Normalising again changes nothing\<close>

fun no_double_space :: "string list \<Rightarrow> bool" where
  "no_double_space [] \<longleftrightarrow> True"
| "no_double_space [ch] \<longleftrightarrow> (is_whitespace ch \<longrightarrow> ch = '' '')"
| "no_double_space (ch # d # ds) \<longleftrightarrow>
     (is_whitespace ch \<longrightarrow> ch = '' '' \<and> \<not> is_whitespace d) \<and> no_double_space (d # ds)"

lemma space_is_whitespace [simp]: "is_whitespace '' ''"
  by (simp add: is_whitespace_def)

lemma no_double_space_Cons:
  "no_double_space (ch # cs) \<longleftrightarrow> no_double_space cs \<and>
     (is_whitespace ch \<longrightarrow> ch = '' '' \<and> (cs \<noteq> [] \<longrightarrow> \<not> is_whitespace (hd cs)))"
  by (cases cs) auto

lemma collapse_spaces_normal:
  "no_double_space (collapse_spaces prev cs)
   \<and> (prev \<longrightarrow> collapse_spaces prev cs \<noteq> [] \<longrightarrow> \<not> is_whitespace (hd (collapse_spaces prev cs)))"
  by (induction prev cs rule: collapse_spaces.induct) (auto simp: no_double_space_Cons)

lemma collapse_spaces_id:
  "no_double_space cs \<Longrightarrow> (prev \<longrightarrow> cs = [] \<or> \<not> is_whitespace (hd cs)) \<Longrightarrow> collapse_spaces prev cs = cs"
  by (induction prev cs rule: collapse_spaces.induct) (auto simp: no_double_space_Cons)

lemma no_double_space_append: "no_double_space (xs @ ys) \<Longrightarrow> no_double_space xs \<and> no_double_space ys"
  by (induction xs) (auto simp: no_double_space_Cons)

lemma no_double_space_strip: "no_double_space cs \<Longrightarrow> no_double_space (strip_chunks cs)"
proof -
  assume "no_double_space cs"
  moreover have "cs = takeWhile is_whitespace cs @ dropWhile is_whitespace cs" by simp
  ultimately have *: "no_double_space (dropWhile is_whitespace cs)" by (metis no_double_space_append)
  have "dropWhile is_whitespace cs = strip_chunks cs @ rev (takeWhile is_whitespace (rev (dropWhile is_whitespace cs)))"
    unfolding strip_chunks_def by (metis rev_append rev_rev_ident takeWhile_dropWhile_id)
  with * show "no_double_space (strip_chunks cs)" by (metis no_double_space_append)
qed

lemma chunked_Cons_iff:
  "chunked (ch # cs) \<longleftrightarrow> ch \<noteq> [] \<and> chunked cs
     \<and> (if cs = [] then length ch \<le> utf8_len (hd ch) else length ch = utf8_len (hd ch))"
  by (cases cs) auto

lemma chunked_collapse: "chunked cs \<Longrightarrow> chunked (collapse_spaces prev cs)"
proof (induction cs arbitrary: prev)
  case (Cons ch cs)
  have "chunked (collapse_spaces p cs)" for p using Cons by (auto dest: chunked_Cons)
  with Cons.prems show ?case
    by (auto simp: chunked_Cons_iff utf8_len_def split: if_splits)
qed simp

lemma chars_normalize_text:
  "chars (normalize_text s) = strip_chunks (collapse_spaces False (chars s))"
  by (simp add: normalize_text_def chars_trim chars_concat chunked_collapse chunked_chars)

lemma normalize_text_idem [simp]: "normalize_text (normalize_text s) = normalize_text s"
proof -
  have "no_double_space (strip_chunks (collapse_spaces False (chars s)))"
    using collapse_spaces_normal no_double_space_strip by blast
  then have "collapse_spaces False (chars (normalize_text s)) = chars (normalize_text s)"
    unfolding chars_normalize_text by (rule collapse_spaces_id) simp
  then have "normalize_text (normalize_text s) = trim (normalize_text s)"
    by (simp add: normalize_text_def [of "normalize_text s"])
  then show ?thesis by (simp add: normalize_text_def)
qed

lemma normalize_text_trimmed: "trim (normalize_text s) = normalize_text s"
  by (simp add: normalize_text_def)

lemma normalize_contact_phone_idem:
  "normalize_contact_phone raw = Some v \<Longrightarrow> normalize_contact_phone v = Some v"
  by (auto simp: normalize_contact_phone_def Let_def split: if_splits)

end
