(* ===== verification/Leases.thy ===== *)
theory Leases
  imports Prelude "HOL-Library.AList"
begin

text \<open>
  The leases on running fetches that the contact cache and the bag-route cache
  hand out: who asks first for an id starts the fetch and owns a \<open>Notify\<close>, who asks
  while it runs waits for that \<open>Notify\<close>, and dropping the lease clears the id and
  wakes the waiters.  The two caches provide the table, this theory states what
  they promise and proves once what any traffic on such a table guarantees.
\<close>

datatype fetch_action = Start_Lease nat | Wait_Lease nat

text \<open>
  A table in use: the leases handed out and not dropped yet, the callers waiting
  (with the id they asked for), the \<open>Notify\<close>s fired, and the next fresh one.
\<close>

record 't lease_state =
  lease_table :: 't
  lease_holders :: "(string \<times> nat) set"
  lease_waiters :: "(string \<times> nat) set"
  lease_fired :: "nat set"
  lease_next :: nat

definition request_lease ::
  "(string \<Rightarrow> nat \<Rightarrow> 't \<Rightarrow> fetch_action \<times> 't) \<Rightarrow> string \<Rightarrow> 't lease_state \<Rightarrow> 't lease_state" where
  "request_lease begin_fetch k s =
     (case begin_fetch k (lease_next s) (lease_table s) of
        (Start_Lease n, t) \<Rightarrow> s\<lparr>lease_table := t, lease_holders := insert (k, n) (lease_holders s),
                               lease_next := Suc (lease_next s)\<rparr>
      | (Wait_Lease n, t) \<Rightarrow> s\<lparr>lease_table := t, lease_waiters := insert (k, n) (lease_waiters s)\<rparr>)"

definition release_lease ::
  "(string \<Rightarrow> nat \<Rightarrow> 't \<Rightarrow> 't) \<Rightarrow> string \<Rightarrow> nat \<Rightarrow> 't lease_state \<Rightarrow> 't lease_state" where
  "release_lease drop_lease k n s =
     s\<lparr>lease_table := drop_lease k n (lease_table s), lease_holders := lease_holders s - {(k, n)},
       lease_fired := insert n (lease_fired s)\<rparr>"

inductive lease_reachable ::
  "(string \<Rightarrow> nat \<Rightarrow> 't \<Rightarrow> fetch_action \<times> 't) \<Rightarrow> (string \<Rightarrow> nat \<Rightarrow> 't \<Rightarrow> 't) \<Rightarrow> 't \<Rightarrow> 't lease_state \<Rightarrow> bool"
  for begin_fetch drop_lease empty_table where
  No_Leases: "lease_reachable begin_fetch drop_lease empty_table
    \<lparr>lease_table = empty_table, lease_holders = {}, lease_waiters = {}, lease_fired = {}, lease_next = 0\<rparr>"
| Request: "lease_reachable begin_fetch drop_lease empty_table s
    \<Longrightarrow> lease_reachable begin_fetch drop_lease empty_table (request_lease begin_fetch k s)"
| Release: "lease_reachable begin_fetch drop_lease empty_table s \<Longrightarrow> (k, n) \<in> lease_holders s
    \<Longrightarrow> lease_reachable begin_fetch drop_lease empty_table (release_lease drop_lease k n s)"
| Give_Up: "lease_reachable begin_fetch drop_lease empty_table s
    \<Longrightarrow> lease_reachable begin_fetch drop_lease empty_table (s\<lparr>lease_waiters := lease_waiters s - {w}\<rparr>)"

locale lease_registry =
  fixes begin_fetch :: "string \<Rightarrow> nat \<Rightarrow> 't \<Rightarrow> fetch_action \<times> 't"
    and drop_lease :: "string \<Rightarrow> nat \<Rightarrow> 't \<Rightarrow> 't"
    and empty_table :: 't
    and owner :: "'t \<Rightarrow> string \<Rightarrow> nat option"
  assumes owner_empty: "owner empty_table = (\<lambda>_. None)"
    and begin_held: "owner t k = Some n \<Longrightarrow> begin_fetch k fresh t = (Wait_Lease n, t)"
    and begin_free: "owner t k = None \<Longrightarrow>
      \<exists>t'. begin_fetch k fresh t = (Start_Lease fresh, t') \<and> owner t' = (owner t)(k \<mapsto> fresh)"
    and dropped: "owner (drop_lease k n t) = (if owner t k = Some n then (owner t)(k := None) else owner t)"
begin

text \<open>The holders are the owners the table names, and no \<open>Notify\<close> serves twice.\<close>

lemma leases_inv:
  assumes "lease_reachable begin_fetch drop_lease empty_table s"
  shows "(\<forall>k n. (k, n) \<in> lease_holders s \<longleftrightarrow> owner (lease_table s) k = Some n)
    \<and> (\<forall>k n. (k, n) \<in> lease_holders s \<longrightarrow> n < lease_next s \<and> n \<notin> lease_fired s)
    \<and> (\<forall>k k' n. (k, n) \<in> lease_holders s \<and> (k', n) \<in> lease_holders s \<longrightarrow> k = k')
    \<and> (\<forall>k n. (k, n) \<in> lease_waiters s \<longrightarrow> n \<in> lease_fired s \<or> (k, n) \<in> lease_holders s)
    \<and> (\<forall>n \<in> lease_fired s. n < lease_next s)"
  using assms
proof (induction rule: lease_reachable.induct)
  case No_Leases
  then show ?case by (simp add: owner_empty)
next
  case (Request s k)
  show ?case
  proof (cases "owner (lease_table s) k")
    case None
    from begin_free [OF this, of "lease_next s"] obtain t' where
      "begin_fetch k (lease_next s) (lease_table s) = (Start_Lease (lease_next s), t')"
      "owner t' = (owner (lease_table s))(k \<mapsto> lease_next s)" by blast
    with Request.IH None show ?thesis
      by (auto simp: request_lease_def less_Suc_eq) blast+
  next
    case (Some n)
    with Request.IH begin_held [OF Some] show ?thesis by (auto simp: request_lease_def) blast
  qed
next
  case (Release s k n)
  then have own: "owner (lease_table s) k = Some n" by blast
  with Release show ?case by (auto simp: release_lease_def dropped) blast+
next
  case (Give_Up s w)
  then show ?case by auto blast
qed

lemma exclusive:
  assumes "lease_reachable begin_fetch drop_lease empty_table s" "(k, n) \<in> lease_holders s" "(k, m) \<in> lease_holders s"
  shows "n = m"
  using leases_inv [OF assms(1)] assms(2,3) by (metis option.inject)

lemma waiter_wakes:
  assumes "lease_reachable begin_fetch drop_lease empty_table s" "(k, n) \<in> lease_waiters s"
  shows "n \<in> lease_fired s \<or> (k, n) \<in> lease_holders s"
  using leases_inv [OF assms(1)] assms(2) by blast

lemma released_is_free:
  assumes "lease_reachable begin_fetch drop_lease empty_table s" "(k, n) \<in> lease_holders s"
  shows "owner (lease_table (release_lease drop_lease k n s)) k = None"
  using leases_inv [OF assms(1)] assms(2) by (simp add: release_lease_def dropped)

end

end
