(* ===== verification/ContactCache.thy ===== *)
theory ContactCache
  imports ParserText CoreTypes Leases
begin

text \<open>
  The contact cache (\<open>contact_cache.rs\<close>) and the enrichment of a tracking response
  with it (\<open>enrich_tracking_contacts\<close> of \<open>lookup_cache.rs\<close>).  The SQLite table is a
  list of rows; times are milliseconds since the epoch, of 64 bits and signed in
  the table (\<open>int\<close>).  serde's JSON of a contact is a parameter.
\<close>

subsection \<open>Contacts\<close>

record contact_detail =
  nama :: "string option"
  telepon :: "string option"
  alamat :: "string option"
  kode_pos :: "string option"

record contact_enrichment =
  pengirim :: contact_detail
  penerima :: contact_detail

datatype contact_status_kind = Contact_Ok | Contact_Partial | Contact_Missing | Contact_Failed

fun contact_status_as_str :: "contact_status_kind \<Rightarrow> string" where
  "contact_status_as_str Contact_Ok = ''ok''"
| "contact_status_as_str Contact_Partial = ''partial''"
| "contact_status_as_str Contact_Missing = ''missing''"
| "contact_status_as_str Contact_Failed = ''failed''"

definition contact_status_from_str :: "string \<Rightarrow> contact_status_kind option" where
  "contact_status_from_str v =
     (if v = ''ok'' then Some Contact_Ok else if v = ''partial'' then Some Contact_Partial
      else if v = ''missing'' then Some Contact_Missing else if v = ''failed'' then Some Contact_Failed
      else None)"

record contact_cache_entry =
  ce_shipment_id :: string
  ce_contact :: contact_enrichment
  ce_status :: contact_status_kind
  ce_source :: string
  ce_fetched_at :: nat
  ce_last_used_at :: nat

text \<open>A row of the table \<open>contact_cache\<close>.\<close>

record contact_row =
  cr_shipment_id :: string
  cr_contact_json :: string
  cr_status :: string
  cr_source :: string
  cr_fetched_at :: int
  cr_last_used_at :: int

record contact_serde =
  contact_to_json :: "contact_enrichment \<Rightarrow> string option"
  contact_from_json :: "string \<Rightarrow> contact_enrichment option"

abbreviation "contact_cache_ttl_ms \<equiv> (7776000000 :: nat)"
abbreviation "contact_failure_cache_ttl_ms \<equiv> (300000 :: nat)"
abbreviation "contact_last_used_write_interval_ms \<equiv> (3600000 :: nat)"
abbreviation "max_contact_cache_entries \<equiv> (20000 :: nat)"

definition to_sql_millis :: "nat \<Rightarrow> int" where
  "to_sql_millis v = int (min v 9223372036854775807)"

definition from_sql_millis :: "int \<Rightarrow> nat" where
  "from_sql_millis v = nat (max v 0)"

definition normalize_phone_of :: "contact_detail \<Rightarrow> contact_detail" where
  "normalize_phone_of d = d\<lparr>telepon := Option.bind (telepon d) normalize_contact_phone\<rparr>"

definition normalize_phones :: "contact_enrichment \<Rightarrow> contact_enrichment" where
  "normalize_phones c = c\<lparr>pengirim := normalize_phone_of (pengirim c), penerima := normalize_phone_of (penerima c)\<rparr>"

definition contact_status :: "contact_enrichment \<Rightarrow> contact_status_kind" where
  "contact_status c =
     (if telepon (pengirim c) \<noteq> None \<and> telepon (penerima c) \<noteq> None then Contact_Ok
      else if telepon (pengirim c) = None \<and> telepon (penerima c) = None then Contact_Missing
      else Contact_Partial)"

text \<open>\<open>checked_add\<close> on \<open>u128\<close>.\<close>

definition contact_is_expired :: "contact_status_kind \<Rightarrow> nat \<Rightarrow> nat \<Rightarrow> bool" where
  "contact_is_expired status fetched_at now_ms =
     (let ttl = (if status = Contact_Failed \<or> status = Contact_Missing
                 then contact_failure_cache_ttl_ms else contact_cache_ttl_ms)
      in 2 ^ 128 \<le> fetched_at + ttl \<or> fetched_at + ttl \<le> now_ms)"

definition contact_retry_due :: "nat \<Rightarrow> contact_cache_entry \<Rightarrow> bool" where
  "contact_retry_due now_ms e \<longleftrightarrow>
     ce_status e \<noteq> Contact_Ok \<and> contact_failure_cache_ttl_ms \<le> now_ms - ce_fetched_at e"

subsection \<open>Reading\<close>

definition delete_contact :: "string \<Rightarrow> contact_row list \<Rightarrow> contact_row list" where
  "delete_contact sid table = filter (\<lambda>r. cr_shipment_id r \<noteq> sid) table"

definition contact_get ::
  "contact_serde \<Rightarrow> nat \<Rightarrow> string \<Rightarrow> contact_row list \<Rightarrow> contact_cache_entry option \<times> contact_row list" where
  "contact_get sd now_ms sid table =
     (case find_by cr_shipment_id sid table of
        None \<Rightarrow> (None, table)
      | Some row \<Rightarrow>
          (case contact_status_from_str (cr_status row) of
             None \<Rightarrow> (None, delete_contact sid table)
           | Some status \<Rightarrow>
               let fetched_at = from_sql_millis (cr_fetched_at row)
               in if contact_is_expired status fetched_at now_ms then (None, delete_contact sid table)
                  else (case contact_from_json sd (cr_contact_json row) of
                    None \<Rightarrow> (None, delete_contact sid table)
                  | Some decoded \<Rightarrow>
                      let contact = normalize_phones decoded;
                          status = (if status = Contact_Ok then contact_status contact else status);
                          table' = (if contact_last_used_write_interval_ms
                                       \<le> now_ms - from_sql_millis (cr_last_used_at row)
                                    then update_where (\<lambda>r. cr_shipment_id r = sid)
                                           (\<lambda>r. r\<lparr>cr_last_used_at := to_sql_millis now_ms\<rparr>) table
                                    else table)
                      in (Some \<lparr>ce_shipment_id = sid, ce_contact = contact, ce_status = status,
                                ce_source = cr_source row, ce_fetched_at = fetched_at,
                                ce_last_used_at = now_ms\<rparr>, table'))))"

subsection \<open>Storing\<close>

text \<open>Expired rows go, then the least recently used ones beyond the capacity.\<close>

definition contact_prune_connection :: "nat \<Rightarrow> contact_row list \<Rightarrow> contact_row list" where
  "contact_prune_connection now_ms table =
     (let normal_cutoff = to_sql_millis (now_ms - contact_cache_ttl_ms);
          failure_cutoff = to_sql_millis (now_ms - contact_failure_cache_ttl_ms);
          kept = filter (\<lambda>r.
            \<not> (if cr_status r \<in> {''failed'', ''missing''} then cr_fetched_at r \<le> failure_cutoff
               else cr_fetched_at r \<le> normal_cutoff)) table;
          remove_count = length kept - max_contact_cache_entries;
          oldest = take remove_count (sort_key cr_last_used_at kept)
      in filter (\<lambda>r. cr_shipment_id r \<notin> set (map cr_shipment_id oldest)) kept)"

definition fallback_entry :: "nat \<Rightarrow> string \<Rightarrow> contact_enrichment \<Rightarrow> contact_status_kind \<Rightarrow> contact_cache_entry" where
  "fallback_entry now_ms sid contact status =
     \<lparr>ce_shipment_id = sid, ce_contact = contact, ce_status = status, ce_source = ''lacak_mitra'',
      ce_fetched_at = now_ms, ce_last_used_at = now_ms\<rparr>"

definition keep_phone :: "contact_detail \<Rightarrow> contact_detail \<Rightarrow> contact_detail" where
  "keep_phone fresh previous = (if telepon fresh = None then fresh\<lparr>telepon := telepon previous\<rparr> else fresh)"

text \<open>The contact with the phones of the previous row, and the source to record.\<close>

definition merge_previous ::
  "contact_serde \<Rightarrow> (string \<times> string) option \<Rightarrow> contact_enrichment \<Rightarrow> string \<Rightarrow> contact_enrichment \<times> string" where
  "merge_previous sd previous contact source =
     (case previous of
        None \<Rightarrow> (contact, source)
      | Some (json, previous_source) \<Rightarrow>
          (case contact_from_json sd json of
             None \<Rightarrow> (contact, source)
           | Some decoded \<Rightarrow>
               let old = normalize_phones decoded;
                   has_fresh = telepon (pengirim contact) \<noteq> None \<or> telepon (penerima contact) \<noteq> None;
                   retained = telepon (pengirim contact) = None \<and> telepon (pengirim old) \<noteq> None
                     \<or> telepon (penerima contact) = None \<and> telepon (penerima old) \<noteq> None;
                   merged = \<lparr>pengirim = keep_phone (pengirim contact) (pengirim old),
                             penerima = keep_phone (penerima contact) (penerima old)\<rparr>
               in (merged, if retained then (if has_fresh \<and> previous_source \<noteq> source then ''mixed'' else previous_source)
                           else source)))"

definition status_to_store :: "contact_status_kind option \<Rightarrow> contact_enrichment \<Rightarrow> contact_status_kind" where
  "status_to_store requested contact =
     (if requested = Some Contact_Failed
      then (if telepon (pengirim contact) \<noteq> None \<or> telepon (penerima contact) \<noteq> None
            then Contact_Partial else Contact_Failed)
      else contact_status contact)"

definition row_of_entry :: "string \<Rightarrow> contact_cache_entry \<Rightarrow> contact_row" where
  "row_of_entry json e =
     \<lparr>cr_shipment_id = ce_shipment_id e, cr_contact_json = json,
      cr_status = contact_status_as_str (ce_status e), cr_source = ce_source e,
      cr_fetched_at = to_sql_millis (ce_fetched_at e), cr_last_used_at = to_sql_millis (ce_last_used_at e)\<rparr>"

text \<open>\<open>INSERT ... ON CONFLICT(shipment_id) DO UPDATE\<close> of every column.\<close>

definition upsert_contact :: "contact_row \<Rightarrow> contact_row list \<Rightarrow> contact_row list" where
  "upsert_contact row table =
     (if find_by cr_shipment_id (cr_shipment_id row) table = None then table @ [row]
      else update_where (\<lambda>r. cr_shipment_id r = cr_shipment_id row) (\<lambda>_. row) table)"

definition store_with_source ::
  "contact_serde \<Rightarrow> nat \<Rightarrow> string \<Rightarrow> contact_enrichment \<Rightarrow> contact_status_kind option \<Rightarrow> string
   \<Rightarrow> contact_row list \<Rightarrow> contact_cache_entry \<times> contact_row list" where
  "store_with_source sd now_ms sid raw requested source table =
     (let fresh = normalize_phones raw;
          previous = (case find (\<lambda>r. cr_shipment_id r = sid
                           \<and> to_sql_millis (now_ms - contact_cache_ttl_ms) < cr_fetched_at r) table of
                        None \<Rightarrow> None | Some r \<Rightarrow> Some (cr_contact_json r, cr_source r));
          (contact, actual_source) = merge_previous sd previous fresh source;
          entry = (fallback_entry now_ms sid contact (status_to_store requested contact))\<lparr>ce_source := actual_source\<rparr>
      in case contact_to_json sd contact of
           None \<Rightarrow> (entry, table)
         | Some json \<Rightarrow> (entry, contact_prune_connection now_ms (upsert_contact (row_of_entry json entry) table)))"

definition empty_contact :: contact_enrichment where
  "empty_contact =
     \<lparr>pengirim = \<lparr>nama = None, telepon = None, alamat = None, kode_pos = None\<rparr>,
      penerima = \<lparr>nama = None, telepon = None, alamat = None, kode_pos = None\<rparr>\<rparr>"

definition store_from_source ::
  "contact_serde \<Rightarrow> nat \<Rightarrow> string \<Rightarrow> contact_enrichment \<Rightarrow> string \<Rightarrow> contact_row list
   \<Rightarrow> contact_cache_entry \<times> contact_row list" where
  "store_from_source sd now_ms sid contact source table = store_with_source sd now_ms sid contact None source table"

definition store_failure ::
  "contact_serde \<Rightarrow> nat \<Rightarrow> string \<Rightarrow> contact_row list \<Rightarrow> contact_cache_entry \<times> contact_row list" where
  "store_failure sd now_ms sid table =
     store_with_source sd now_ms sid empty_contact (Some Contact_Failed) ''lacak_mitra'' table"

text \<open>Opening a database also imports the entries of the former JSON store.\<close>

definition migrate_legacy_store ::
  "contact_serde \<Rightarrow> nat \<Rightarrow> contact_cache_entry list \<Rightarrow> contact_row list \<Rightarrow> contact_row list" where
  "migrate_legacy_store sd now_ms legacy table =
     fold (\<lambda>e t.
       if contact_is_expired (ce_status e) (ce_fetched_at e) now_ms then t
       else case contact_to_json sd (ce_contact e) of
              None \<Rightarrow> t
            | Some json \<Rightarrow>
                if find_by cr_shipment_id (ce_shipment_id e) t = None then t @ [row_of_entry json e] else t)
       legacy table"

subsection \<open>Leases\<close>

type_synonym in_flight = "(string \<times> nat) list"

definition contact_begin_fetch :: "string \<Rightarrow> nat \<Rightarrow> in_flight \<Rightarrow> fetch_action \<times> in_flight" where
  "contact_begin_fetch shipment_id fresh t =
     (case map_of t shipment_id of
        Some n \<Rightarrow> (Wait_Lease n, t)
      | None \<Rightarrow> (Start_Lease fresh, AList.update shipment_id fresh t))"

definition contact_drop_lease :: "string \<Rightarrow> nat \<Rightarrow> in_flight \<Rightarrow> in_flight" where
  "contact_drop_lease shipment_id n t =
     (if map_of t shipment_id = Some n then AList.delete shipment_id t else t)"

interpretation contact_leases: lease_registry contact_begin_fetch contact_drop_lease "[]" map_of
  by unfold_locales
    (auto simp: contact_begin_fetch_def contact_drop_lease_def AList.update_conv' AList.delete_conv')

subsection \<open>Enriching a response\<close>

datatype enrichment_status = Enriched_From_Cache | Enrichment_Fetched | Enrichment_Missing | Enrichment_Failed | Enrichment_Skipped

record enrichment_metadata =
  em_source :: string
  em_status :: enrichment_status
  em_sender_phone_present :: bool
  em_recipient_phone_present :: bool

text \<open>The fields of a tracking response the enrichment reads and writes.\<close>

record enriched_response =
  sender_phone :: "string option"
  recipient_phone :: "string option"
  enrichment :: "enrichment_metadata option"

definition contact_phone_present :: "string option \<Rightarrow> bool" where
  "contact_phone_present v \<longleftrightarrow> Option.bind v normalize_contact_phone \<noteq> None"

definition contact_enrichment_metadata :: "enrichment_status \<Rightarrow> enriched_response \<Rightarrow> enrichment_metadata" where
  "contact_enrichment_metadata status r =
     \<lparr>em_source = ''lacak_mitra'', em_status = status,
      em_sender_phone_present = contact_phone_present (sender_phone r),
      em_recipient_phone_present = contact_phone_present (recipient_phone r)\<rparr>"

definition with_metadata :: "enrichment_status \<Rightarrow> string option \<Rightarrow> enriched_response \<Rightarrow> enriched_response" where
  "with_metadata status source r =
     (let m = contact_enrichment_metadata status r
      in r\<lparr>enrichment := Some (case source of None \<Rightarrow> m | Some src \<Rightarrow> m\<lparr>em_source := src\<rparr>)\<rparr>)"

definition merge_contact_enrichment :: "contact_enrichment \<Rightarrow> enriched_response \<Rightarrow> enriched_response" where
  "merge_contact_enrichment c r =
     r\<lparr>sender_phone := (if contact_phone_present (sender_phone r) then sender_phone r
                        else Option.bind (telepon (pengirim c)) normalize_contact_phone),
       recipient_phone := (if contact_phone_present (recipient_phone r) then recipient_phone r
                        else Option.bind (telepon (penerima c)) normalize_contact_phone)\<rparr>"

definition apply_cached_contact :: "contact_cache_entry \<Rightarrow> enriched_response \<Rightarrow> enriched_response" where
  "apply_cached_contact e r =
     with_metadata
       (case ce_status e of Contact_Ok \<Rightarrow> Enriched_From_Cache | Contact_Partial \<Rightarrow> Enriched_From_Cache
        | Contact_Missing \<Rightarrow> Enrichment_Missing | Contact_Failed \<Rightarrow> Enrichment_Failed)
       (Some (ce_source e)) (merge_contact_enrichment (ce_contact e) r)"

definition both_phones_present :: "enriched_response \<Rightarrow> bool" where
  "both_phones_present r \<longleftrightarrow> contact_phone_present (sender_phone r) \<and> contact_phone_present (recipient_phone r)"

text \<open>The head of the loop: the response with the cached contact, and whether it is final.\<close>

definition enrich_read ::
  "nat \<Rightarrow> contact_cache_entry option \<Rightarrow> bool \<Rightarrow> enriched_response \<Rightarrow> enriched_response \<times> bool" where
  "enrich_read now_ms cached force_refresh r =
     (case cached of
        None \<Rightarrow> (r, False)
      | Some e \<Rightarrow>
          let r' = apply_cached_contact e r
          in (r', \<not> force_refresh \<and> (\<not> contact_retry_due now_ms e \<or> both_phones_present r')))"

definition enrich_fetched ::
  "bool \<Rightarrow> bool \<Rightarrow> contact_cache_entry \<Rightarrow> enriched_response \<Rightarrow> enriched_response" where
  "enrich_fetched sender_missing recipient_missing e r =
     with_metadata
       (case ce_status e of Contact_Ok \<Rightarrow> Enrichment_Fetched | Contact_Partial \<Rightarrow> Enrichment_Fetched
        | Contact_Missing \<Rightarrow> Enrichment_Missing | Contact_Failed \<Rightarrow> Enrichment_Failed)
       (Some (ce_source e))
       (r\<lparr>sender_phone := (if sender_missing then telepon (pengirim (ce_contact e)) else sender_phone r),
          recipient_phone := (if recipient_missing then telepon (penerima (ce_contact e)) else recipient_phone r)\<rparr>)"

definition enrich_failed :: "contact_cache_entry \<Rightarrow> enriched_response \<Rightarrow> enriched_response" where
  "enrich_failed e r = with_metadata Enrichment_Failed (Some (ce_source e)) (merge_contact_enrichment (ce_contact e) r)"

text \<open>
  What a round meets after the cache did not settle it: another caller's fetch to
  wait for, no permit, a fetched contact, or a failed fetch; with the time and the
  table at that moment.
\<close>

datatype enrich_event =
    Waited
  | Permit_Denied
  | Contact_Fetched nat "contact_row list" contact_enrichment string
  | Contact_Unavailable nat "contact_row list"

record enrich_round =
  er_now :: nat
  er_table :: "contact_row list"
  er_event :: enrich_event

text \<open>The loop over the rounds; \<open>None\<close> when the given rounds do not end it.\<close>

fun enrich_rounds ::
  "contact_serde \<Rightarrow> string \<Rightarrow> bool \<Rightarrow> bool \<Rightarrow> bool \<Rightarrow> enriched_response \<Rightarrow> enrich_round list \<Rightarrow> enriched_response option" where
  "enrich_rounds sd sid sender_missing recipient_missing force_refresh r [] = None"
| "enrich_rounds sd sid sender_missing recipient_missing force_refresh r (round # rounds) =
     (let (r', final) = enrich_read (er_now round) (fst (contact_get sd (er_now round) sid (er_table round))) force_refresh r
      in if final then Some r'
         else case er_event round of
           Waited \<Rightarrow> enrich_rounds sd sid sender_missing recipient_missing False r' rounds
         | Permit_Denied \<Rightarrow> Some (with_metadata Enrichment_Failed None r')
         | Contact_Fetched t table c source \<Rightarrow>
             Some (enrich_fetched sender_missing recipient_missing (fst (store_from_source sd t sid c source table)) r')
         | Contact_Unavailable t table \<Rightarrow> Some (enrich_failed (fst (store_failure sd t sid table)) r'))"

definition enrich_tracking_contacts ::
  "contact_serde \<Rightarrow> tracking_source_config \<Rightarrow> string \<Rightarrow> bool \<Rightarrow> enriched_response \<Rightarrow> enrich_round list
   \<Rightarrow> enriched_response option" where
  "enrich_tracking_contacts sd config sid force_refresh r rounds =
     (if ts_tracking_source config \<noteq> Source_Default \<or> both_phones_present r
      then Some (with_metadata Enrichment_Skipped None r)
      else enrich_rounds sd sid (\<not> contact_phone_present (sender_phone r))
             (\<not> contact_phone_present (recipient_phone r)) force_refresh r rounds)"

text \<open>The two contact sources, tried in turn; each either answers or fails.\<close>

definition fetch_contact_from_sources ::
  "(tracking_error + contact_enrichment) \<Rightarrow> (tracking_error + contact_enrichment)
   \<Rightarrow> tracking_error + (contact_enrichment \<times> string)" where
  "fetch_contact_from_sources primary fallback =
     (case primary of
        Inr c \<Rightarrow> Inr (c, ''lacak_mitra'')
      | Inl _ \<Rightarrow> (case fallback of Inr c \<Rightarrow> Inr (c, ''pid_detail'') | Inl e \<Rightarrow> Inl e))"

end
