(* ===== verification/ContactClaims.thy ===== *)
theory ContactClaims
  imports ContactCache
begin

text \<open>
  Properties of the contact cache: what a store leaves behind and the next read
  returns, what the enrichment of a response may change, and the leases.
\<close>

subsection \<open>Phones stay normalised\<close>

definition phone_ok :: "string option \<Rightarrow> bool" where
  "phone_ok p \<longleftrightarrow> Option.bind p normalize_contact_phone = p"

abbreviation phones_ok :: "contact_enrichment \<Rightarrow> bool" where
  "phones_ok c \<equiv> phone_ok (telepon (pengirim c)) \<and> phone_ok (telepon (penerima c))"

lemma phone_ok_simps [simp]: "phone_ok None" "phone_ok (Some v) \<longleftrightarrow> normalize_contact_phone v = Some v"
  by (simp_all add: phone_ok_def)

lemma phone_ok_bind [simp]: "phone_ok (Option.bind p normalize_contact_phone)"
  by (cases p) (auto simp: phone_ok_def bind_eq_Some_conv normalize_contact_phone_idem
      split: Option.bind_splits)

lemma phones_ok_normalize_phones: "phones_ok (normalize_phones c)"
  by (simp add: normalize_phones_def normalize_phone_of_def)

lemma normalize_phones_ok: "phones_ok c \<Longrightarrow> normalize_phones c = c"
  by (simp add: normalize_phones_def normalize_phone_of_def phone_ok_def)

definition or_else :: "'a option \<Rightarrow> 'a option \<Rightarrow> 'a option" where
  "or_else a b = (case a of None \<Rightarrow> b | Some _ \<Rightarrow> a)"

lemma or_else_simps [simp]: "or_else None b = b" "or_else (Some v) b = Some v" "or_else a None = a"
  by (simp_all add: or_else_def split: option.split)

lemma phone_ok_or_else: "phone_ok a \<Longrightarrow> phone_ok b \<Longrightarrow> phone_ok (or_else a b)"
  by (cases a) auto

text \<open>The phones a store keeps: those of the previous row fill in for missing ones.\<close>

definition previous_contact :: "contact_serde \<Rightarrow> (string \<times> string) option \<Rightarrow> contact_enrichment" where
  "previous_contact sd previous =
     (case previous of None \<Rightarrow> empty_contact
      | Some (json, _) \<Rightarrow> (case contact_from_json sd json of None \<Rightarrow> empty_contact | Some c \<Rightarrow> normalize_phones c))"

lemma keep_phone_telepon: "telepon (keep_phone a b) = or_else (telepon a) (telepon b)"
  by (simp add: keep_phone_def or_else_def split: option.split)

lemma phones_ok_previous: "phones_ok (previous_contact sd previous)"
  by (auto simp: previous_contact_def empty_contact_def phones_ok_normalize_phones [simplified]
      split: option.splits)

lemma merge_previous_phones:
  "telepon (pengirim (fst (merge_previous sd previous c src)))
     = or_else (telepon (pengirim c)) (telepon (pengirim (previous_contact sd previous)))"
  "telepon (penerima (fst (merge_previous sd previous c src)))
     = or_else (telepon (penerima c)) (telepon (penerima (previous_contact sd previous)))"
  by (simp_all add: merge_previous_def previous_contact_def empty_contact_def Let_def keep_phone_telepon
      split: option.split)

lemma merge_previous_ok: "phones_ok c \<Longrightarrow> phones_ok (fst (merge_previous sd previous c src))"
  using phones_ok_previous [of sd previous] by (simp add: merge_previous_phones phone_ok_or_else)

lemma contact_status_read: "contact_status_from_str (contact_status_as_str st) = Some st"
  by (cases st) (simp_all add: contact_status_from_str_def)

lemma status_to_store_Ok: "status_to_store req c = Contact_Ok \<Longrightarrow> contact_status c = Contact_Ok"
  by (auto simp: status_to_store_def split: if_splits)

subsection \<open>The table\<close>

abbreviation contact_ids :: "contact_row list \<Rightarrow> string list" where
  "contact_ids table \<equiv> map cr_shipment_id table"

lemma find_upsert_contact: "find_by cr_shipment_id (cr_shipment_id row) (upsert_contact row table) = Some row"
proof (cases "find_by cr_shipment_id (cr_shipment_id row) table")
  case None
  then show ?thesis by (simp add: upsert_contact_def find_by_append)
next
  case (Some r)
  then have "find_by cr_shipment_id (cr_shipment_id row)
      (update_where (\<lambda>r. cr_shipment_id r = cr_shipment_id row) (\<lambda>_. row) table) = Some row"
    by (induction table) (auto split: if_splits)
  with Some show ?thesis by (simp add: upsert_contact_def)
qed

lemma map_update_where_to:
  "map key (update_where (\<lambda>r. key r = key row) (\<lambda>_. row) table) = map key table"
  by (induction table) auto

lemma distinct_upsert_contact: "distinct (contact_ids table) \<Longrightarrow> distinct (contact_ids (upsert_contact row table))"
  by (auto simp: upsert_contact_def map_update_where_to find_by_None_iff image_iff)

lemma length_upsert_contact: "length (upsert_contact row table) \<le> Suc (length table)"
  by (simp add: upsert_contact_def)

lemma distinct_contact_prune: "distinct (contact_ids table) \<Longrightarrow> distinct (contact_ids (contact_prune_connection now table))"
  unfolding contact_prune_connection_def Let_def by (intro distinct_map_filter_key)

text \<open>Removing the rows named by a selection of \<open>n\<close> of them leaves all but \<open>n\<close>.\<close>

lemma length_filter_not_in_keys:
  assumes "distinct (map key rs)" and "mset (sort_key f rs) = mset rs"
  shows "length (filter (\<lambda>r. key r \<notin> set (map key (take n (sort_key f rs)))) rs) = length rs - min n (length rs)"
proof -
  let ?s = "sort_key f rs"
  have ds: "distinct (map key ?s)"
    using assms by (metis distinct_map distinct_sort set_sort)
  have "length (filter (\<lambda>r. key r \<notin> set (map key (take n ?s))) rs)
      = size (filter_mset (\<lambda>r. key r \<notin> set (map key (take n ?s))) (mset rs))"
    by (metis mset_filter size_mset)
  also have "\<dots> = length (filter (\<lambda>r. key r \<notin> set (map key (take n ?s))) ?s)"
    using assms(2) by (metis mset_filter size_mset)
  also have "filter (\<lambda>r. key r \<notin> set (map key (take n ?s))) ?s = drop n ?s"
  proof -
    have "distinct (map key (take n ?s) @ map key (drop n ?s))"
      using ds by (metis append_take_drop_id map_append)
    then have disj: "\<forall>r \<in> set (drop n ?s). key r \<notin> set (map key (take n ?s))"
      unfolding distinct_append set_map by (metis disjoint_iff imageI)
    define P where "P = (\<lambda>r. key r \<notin> set (map key (take n ?s)))"
    have "filter P (take n ?s) = []" by (simp add: P_def filter_empty_conv)
    moreover have "filter P (drop n ?s) = drop n ?s" using disj by (simp add: P_def filter_id_conv)
    ultimately have "filter P (take n ?s @ drop n ?s) = drop n ?s" by (simp only: filter_append append_Nil)
    then show ?thesis by (simp only: append_take_drop_id P_def)
  qed
  finally show ?thesis by simp
qed

lemma length_contact_prune:
  assumes "distinct (contact_ids table)"
  shows "length (contact_prune_connection now table) \<le> max_contact_cache_entries"
proof -
  define kept where "kept = filter (\<lambda>r.
            \<not> (if cr_status r \<in> {''failed'', ''missing''} then cr_fetched_at r \<le> to_sql_millis (now - contact_failure_cache_ttl_ms)
               else cr_fetched_at r \<le> to_sql_millis (now - contact_cache_ttl_ms))) table"
  have "distinct (map cr_shipment_id kept)" using assms by (simp add: kept_def distinct_map_filter_key)
  from length_filter_not_in_keys [OF this mset_sort, of "length kept - max_contact_cache_entries" cr_last_used_at]
  have "length (contact_prune_connection now table)
      = length kept - min (length kept - max_contact_cache_entries) (length kept)"
    by (simp only: contact_prune_connection_def Let_def kept_def)
  then show ?thesis by linarith
qed

lemma find_contact_prune:
  assumes "find_by cr_shipment_id sid table = Some r" "length table \<le> max_contact_cache_entries"
    and "to_sql_millis (now - contact_failure_cache_ttl_ms) < cr_fetched_at r"
  shows "find_by cr_shipment_id sid (contact_prune_connection now table) = Some r"
proof -
  have cut: "to_sql_millis (now - contact_cache_ttl_ms) \<le> to_sql_millis (now - contact_failure_cache_ttl_ms)"
    by (simp add: to_sql_millis_def)
  have "length (filter P table) - max_contact_cache_entries = 0" for P
    by (rule diff_is_0_eq [THEN iffD2, OF order_trans [OF length_filter_le assms(2)]])
  moreover have "find_by cr_shipment_id sid (filter P table) = Some r" if "P r" for P
    using assms(1) that by (induction table) (auto split: if_splits)
  ultimately show ?thesis
    using assms(3) cut by (simp add: contact_prune_connection_def Let_def)
qed

subsection \<open>Store, then read\<close>

lemma sql_millis_id: "v < 9223372036854775808 \<Longrightarrow> to_sql_millis v = int v"
  by (simp add: to_sql_millis_def)

lemma from_to_sql_millis: "v < 9223372036854775808 \<Longrightarrow> from_sql_millis (to_sql_millis v) = v"
  by (simp add: from_sql_millis_def sql_millis_id)

definition previous_row :: "nat \<Rightarrow> string \<Rightarrow> contact_row list \<Rightarrow> (string \<times> string) option" where
  "previous_row now_ms sid table =
     (case find (\<lambda>r. cr_shipment_id r = sid \<and> to_sql_millis (now_ms - contact_cache_ttl_ms) < cr_fetched_at r) table of
        None \<Rightarrow> None | Some r \<Rightarrow> Some (cr_contact_json r, cr_source r))"

definition stored_entry ::
  "contact_serde \<Rightarrow> nat \<Rightarrow> string \<Rightarrow> contact_enrichment \<Rightarrow> contact_status_kind option \<Rightarrow> string
   \<Rightarrow> contact_row list \<Rightarrow> contact_cache_entry" where
  "stored_entry sd now_ms sid raw requested source table =
     (let m = merge_previous sd (previous_row now_ms sid table) (normalize_phones raw) source
      in (fallback_entry now_ms sid (fst m) (status_to_store requested (fst m)))\<lparr>ce_source := snd m\<rparr>)"

lemma store_with_source_eq:
  "store_with_source sd now_ms sid raw requested source table =
     (let e = stored_entry sd now_ms sid raw requested source table
      in (e, case contact_to_json sd (ce_contact e) of
           None \<Rightarrow> table
         | Some json \<Rightarrow> contact_prune_connection now_ms (upsert_contact (row_of_entry json e) table)))"
  unfolding store_with_source_def stored_entry_def previous_row_def Let_def
  by (simp add: fallback_entry_def split: prod.split option.split)

lemma stored_entry_simps [simp]:
  "ce_shipment_id (stored_entry sd now sid raw req src table) = sid"
  "ce_fetched_at (stored_entry sd now sid raw req src table) = now"
  "ce_last_used_at (stored_entry sd now sid raw req src table) = now"
  "ce_status (stored_entry sd now sid raw req src table)
     = status_to_store req (ce_contact (stored_entry sd now sid raw req src table))"
  by (simp_all add: stored_entry_def Let_def fallback_entry_def)

lemma stored_entry_phones:
  "telepon (pengirim (ce_contact (stored_entry sd now sid raw req src table)))
     = or_else (telepon (pengirim (normalize_phones raw))) (telepon (pengirim (previous_contact sd (previous_row now sid table))))"
  "telepon (penerima (ce_contact (stored_entry sd now sid raw req src table)))
     = or_else (telepon (penerima (normalize_phones raw))) (telepon (penerima (previous_contact sd (previous_row now sid table))))"
  by (simp_all add: stored_entry_def Let_def fallback_entry_def merge_previous_phones)

lemma stored_entry_ok: "phones_ok (ce_contact (stored_entry sd now sid raw req src table))"
  using phones_ok_previous [of sd "previous_row now sid table"] phones_ok_normalize_phones [of raw]
  by (simp add: stored_entry_phones phone_ok_or_else)

text \<open>A read of a row that is current and can be decoded.\<close>

lemma contact_get_current:
  assumes "find_by cr_shipment_id sid table = Some (row_of_entry json e)" "ce_shipment_id e = sid"
    "contact_from_json sd json = Some (ce_contact e)" "phones_ok (ce_contact e)"
    "ce_status e = Contact_Ok \<longrightarrow> contact_status (ce_contact e) = Contact_Ok"
    "ce_fetched_at e < 9223372036854775808" "\<not> contact_is_expired (ce_status e) (ce_fetched_at e) later"
  shows "fst (contact_get sd later sid table) = Some (e\<lparr>ce_last_used_at := later\<rparr>)"
proof -
  have "normalize_phones (ce_contact e) = ce_contact e" using assms(4) by (rule normalize_phones_ok)
  with assms show ?thesis
    by (simp add: contact_get_def row_of_entry_def contact_status_read from_to_sql_millis Let_def)
qed

lemma store_then_get:
  assumes "contact_to_json sd (ce_contact e) = Some json" "contact_from_json sd json = Some (ce_contact e)"
    and "length table < max_contact_cache_entries" "0 < now" "now < 9223372036854775808" "later < now + contact_failure_cache_ttl_ms"
    and "store_with_source sd now sid raw requested source table = (e, table')"
  shows "fst (contact_get sd later sid table') = Some (e\<lparr>ce_last_used_at := later\<rparr>)
    \<and> e = stored_entry sd now sid raw requested source table"
proof -
  define e0 where "e0 = stored_entry sd now sid raw requested source table"
  have facts: "ce_shipment_id e0 = sid" "ce_fetched_at e0 = now" "ce_last_used_at e0 = now"
    "ce_status e0 = status_to_store requested (ce_contact e0)" "phones_ok (ce_contact e0)"
    by (simp_all add: e0_def stored_entry_ok)
  have e: "e = e0" and t': "table' = contact_prune_connection now (upsert_contact (row_of_entry json e0) table)"
    using assms(1,7) by (auto simp: store_with_source_eq Let_def e0_def [symmetric])
  have json: "contact_from_json sd json = Some (ce_contact e0)" using assms(2) e by simp
  have row: "cr_shipment_id (row_of_entry json e0) = sid" "cr_fetched_at (row_of_entry json e0) = to_sql_millis now"
    by (simp_all add: row_of_entry_def facts)
  have "find_by cr_shipment_id sid table' = Some (row_of_entry json e0)"
    unfolding t'
  proof (rule find_contact_prune)
    show "find_by cr_shipment_id sid (upsert_contact (row_of_entry json e0) table) = Some (row_of_entry json e0)"
      using find_upsert_contact [of "row_of_entry json e0" table] by (simp only: row)
    show "length (upsert_contact (row_of_entry json e0) table) \<le> max_contact_cache_entries"
      using length_upsert_contact [of "row_of_entry json e0" table] assms(3) by linarith
    show "to_sql_millis (now - contact_failure_cache_ttl_ms) < cr_fetched_at (row_of_entry json e0)"
      unfolding row using assms(4,5) by (simp add: sql_millis_id)
  qed
  moreover have "\<not> contact_is_expired (ce_status e0) (ce_fetched_at e0) later"
    unfolding facts contact_is_expired_def Let_def using assms(5,6) by simp
  moreover have "ce_status e0 = Contact_Ok \<longrightarrow> contact_status (ce_contact e0) = Contact_Ok"
    using status_to_store_Ok facts(4) by auto
  ultimately have "fst (contact_get sd later sid table') = Some (e0\<lparr>ce_last_used_at := later\<rparr>)"
    using facts json assms(5) by (intro contact_get_current) simp_all
  with e e0_def show ?thesis by simp
qed

text \<open>What a read answers is what the next store finds as the previous row.\<close>

lemma contact_get_previous:
  assumes "fst (contact_get sd now sid table) = Some e" "contact_cache_ttl_ms \<le> now" "now < 9223372036854775808"
  shows "previous_contact sd (previous_row now sid table) = ce_contact e"
proof -
  obtain row st c where row: "find_by cr_shipment_id sid table = Some row"
    and st: "\<not> contact_is_expired st (from_sql_millis (cr_fetched_at row)) now"
    and c: "contact_from_json sd (cr_contact_json row) = Some c" and e: "ce_contact e = normalize_phones c"
    using assms(1) by (auto simp: contact_get_def Let_def split: option.splits if_splits)
  have "to_sql_millis (now - contact_cache_ttl_ms) < cr_fetched_at row"
    using st assms(2,3) by (auto simp: contact_is_expired_def Let_def sql_millis_id from_sql_millis_def split: if_splits)
  with row have "find (\<lambda>r. cr_shipment_id r = sid \<and> to_sql_millis (now - contact_cache_ttl_ms) < cr_fetched_at r) table = Some row"
    by (induction table) (auto split: if_splits)
  then show ?thesis using c e by (simp add: previous_row_def previous_contact_def)
qed

subsection \<open>Any use of the table\<close>

datatype contact_op =
    Op_Get nat string
  | Op_Store nat string contact_enrichment "contact_status_kind option" string
  | Op_Open nat "contact_cache_entry list"

fun contact_op_table :: "contact_serde \<Rightarrow> contact_op \<Rightarrow> contact_row list \<Rightarrow> contact_row list" where
  "contact_op_table sd (Op_Get now sid) table = snd (contact_get sd now sid table)"
| "contact_op_table sd (Op_Store now sid raw requested source) table = snd (store_with_source sd now sid raw requested source table)"
| "contact_op_table sd (Op_Open now legacy) table = contact_prune_connection now (migrate_legacy_store sd now legacy table)"

lemma contact_get_table:
  "snd (contact_get sd now sid table) = table \<or> snd (contact_get sd now sid table) = delete_contact sid table
   \<or> snd (contact_get sd now sid table)
       = update_where (\<lambda>r. cr_shipment_id r = sid) (\<lambda>r. r\<lparr>cr_last_used_at := to_sql_millis now\<rparr>) table"
  by (simp add: contact_get_def Let_def split: option.split)

lemma distinct_migrate: "distinct (contact_ids table) \<Longrightarrow> distinct (contact_ids (migrate_legacy_store sd now legacy table))"
  unfolding migrate_legacy_store_def
proof (induction legacy arbitrary: table)
  case (Cons e legacy)
  have "distinct (contact_ids (if contact_is_expired (ce_status e) (ce_fetched_at e) now then table
       else case contact_to_json sd (ce_contact e) of None \<Rightarrow> table
            | Some json \<Rightarrow> if find_by cr_shipment_id (ce_shipment_id e) table = None then table @ [row_of_entry json e] else table))"
    using Cons.prems by (auto simp: row_of_entry_def find_by_None_iff split: option.split)
  from Cons.IH [OF this] show ?case by simp
qed simp

lemma contact_op_keeps:
  assumes "distinct (contact_ids table) \<and> length table \<le> max_contact_cache_entries"
  shows "distinct (contact_ids (contact_op_table sd op table)) \<and> length (contact_op_table sd op table) \<le> max_contact_cache_entries"
proof (cases op)
  case (Op_Get now sid)
  have "length (delete_contact sid table) \<le> max_contact_cache_entries"
    using assms unfolding delete_contact_def by (blast intro: order_trans [OF length_filter_le])
  moreover have "distinct (contact_ids (delete_contact sid table))"
    using assms unfolding delete_contact_def by (blast intro: distinct_map_filter_key)
  ultimately show ?thesis
    using assms contact_get_table [of sd now sid table] Op_Get by (elim disjE) simp_all
next
  case (Op_Store now sid raw requested source)
  then have "contact_op_table sd op table = table
    \<or> (\<exists>row. contact_op_table sd op table = contact_prune_connection now (upsert_contact row table))"
    by (auto simp: store_with_source_eq Let_def split: option.split)
  then show ?thesis
    using assms distinct_upsert_contact length_contact_prune distinct_contact_prune by metis
next
  case (Op_Open now legacy)
  then show ?thesis using assms distinct_migrate length_contact_prune distinct_contact_prune
    by (metis contact_op_table.simps(3))
qed

subsection \<open>The rounds of an enrichment\<close>

definition fills_only_missing :: "bool \<Rightarrow> bool \<Rightarrow> enriched_response \<Rightarrow> enriched_response \<Rightarrow> bool" where
  "fills_only_missing sender_missing recipient_missing r r' \<longleftrightarrow>
     (\<not> sender_missing \<longrightarrow> sender_phone r' = sender_phone r)
   \<and> (\<not> recipient_missing \<longrightarrow> recipient_phone r' = recipient_phone r)
   \<and> (sender_missing \<longrightarrow> sender_phone r' = sender_phone r \<or> phone_ok (sender_phone r'))
   \<and> (recipient_missing \<longrightarrow> recipient_phone r' = recipient_phone r \<or> phone_ok (recipient_phone r'))"

definition metadata_true :: "enriched_response \<Rightarrow> bool" where
  "metadata_true r \<longleftrightarrow> (\<exists>m. enrichment r = Some m
     \<and> em_sender_phone_present m = contact_phone_present (sender_phone r)
     \<and> em_recipient_phone_present m = contact_phone_present (recipient_phone r))"

lemma with_metadata_simps [simp]:
  "sender_phone (with_metadata st src r) = sender_phone r"
  "recipient_phone (with_metadata st src r) = recipient_phone r"
  "metadata_true (with_metadata st src r)"
  by (auto simp: with_metadata_def Let_def metadata_true_def contact_enrichment_metadata_def split: option.split)

lemma merge_contact_fills:
  "fills_only_missing (\<not> contact_phone_present (sender_phone r)) (\<not> contact_phone_present (recipient_phone r))
     r (merge_contact_enrichment c r)"
  by (auto simp: fills_only_missing_def merge_contact_enrichment_def)

lemma fills_refl: "fills_only_missing s t r r"
  by (simp add: fills_only_missing_def)

lemma fills_trans:
  "fills_only_missing s t a b \<Longrightarrow> fills_only_missing s t b c \<Longrightarrow> fills_only_missing s t a c"
  by (auto simp: fills_only_missing_def)

lemma fills_mono:
  "fills_only_missing s t a b \<Longrightarrow> (s \<Longrightarrow> s') \<Longrightarrow> (t \<Longrightarrow> t') \<Longrightarrow> fills_only_missing s' t' a b"
  by (auto simp: fills_only_missing_def)

abbreviation known_phones :: "bool \<Rightarrow> bool \<Rightarrow> enriched_response \<Rightarrow> bool" where
  "known_phones s t r \<equiv> (\<not> s \<longrightarrow> contact_phone_present (sender_phone r)) \<and> (\<not> t \<longrightarrow> contact_phone_present (recipient_phone r))"

lemma fills_known: "known_phones s t r \<Longrightarrow> fills_only_missing s t r r' \<Longrightarrow> known_phones s t r'"
  by (simp add: fills_only_missing_def)

lemma with_metadata_fills [simp]:
  "fills_only_missing s t r (with_metadata st src r') = fills_only_missing s t r r'"
  by (simp add: fills_only_missing_def)

lemma merge_fills: "known_phones s t r \<Longrightarrow> fills_only_missing s t r (merge_contact_enrichment c r)"
  using merge_contact_fills by (rule fills_mono) auto

lemma apply_cached_fills: "known_phones s t r \<Longrightarrow> fills_only_missing s t r (apply_cached_contact e r)"
  by (simp add: apply_cached_contact_def merge_fills)

lemma apply_cached_metadata: "metadata_true (apply_cached_contact e r)"
  by (simp add: apply_cached_contact_def)

lemma enrich_read_fills:
  assumes "enrich_read now cached force r = (r', final)" "known_phones s t r"
  shows "fills_only_missing s t r r'" and "final \<Longrightarrow> metadata_true r'"
  using assms(1) apply_cached_fills [OF assms(2)] by (auto simp: enrich_read_def Let_def fills_refl apply_cached_metadata
      split: option.splits)

lemma enrich_fetched_fills:
  "phones_ok (ce_contact e) \<Longrightarrow> fills_only_missing s t r (enrich_fetched s t e r) \<and> metadata_true (enrich_fetched s t e r)"
  by (simp add: enrich_fetched_def) (simp add: fills_only_missing_def)

lemma store_from_source_ok: "phones_ok (ce_contact (fst (store_from_source sd t sid c src table)))"
  unfolding store_from_source_def store_with_source_eq Let_def fst_conv by (rule stored_entry_ok)

lemma enrich_rounds_fills:
  assumes "enrich_rounds sd sid s t force r rounds = Some r'" "known_phones s t r"
  shows "fills_only_missing s t r r' \<and> metadata_true r'"
  using assms
proof (induction rounds arbitrary: r force)
  case (Cons round rounds)
  obtain r1 final where r1: "enrich_read (er_now round) (fst (contact_get sd (er_now round) sid (er_table round))) force r = (r1, final)"
    by fastforce
  note read = enrich_read_fills [OF r1 Cons.prems(2)]
  have known: "known_phones s t r1" using fills_known [OF Cons.prems(2) read(1)] .
  show ?case
  proof (cases final)
    case True
    with Cons.prems(1) r1 read show ?thesis by simp
  next
    case False
    show ?thesis
    proof (cases "er_event round")
      case Waited
      with Cons.prems(1) r1 False have "enrich_rounds sd sid s t False r1 rounds = Some r'" by simp
      from Cons.IH [OF this known] show ?thesis using fills_trans [OF read(1)] by blast
    next
      case Permit_Denied
      with Cons.prems(1) r1 False have "r' = with_metadata Enrichment_Failed None r1" by simp
      with read(1) show ?thesis by simp
    next
      case (Contact_Fetched now table c src)
      with Cons.prems(1) r1 False have "r' = enrich_fetched s t (fst (store_from_source sd now sid c src table)) r1" by simp
      with enrich_fetched_fills [OF store_from_source_ok] fills_trans [OF read(1)] show ?thesis by metis
    next
      case (Contact_Unavailable now table)
      with Cons.prems(1) r1 False have "r' = enrich_failed (fst (store_failure sd now sid table)) r1" by simp
      with merge_fills [OF known] fills_trans [OF read(1)] show ?thesis by (auto simp: enrich_failed_def)
    qed
  qed
qed simp

lemma enrich_rounds_return:
  "round \<in> set rounds \<Longrightarrow> er_event round \<noteq> Waited \<Longrightarrow> enrich_rounds sd sid s t force r rounds \<noteq> None"
  by (induction rounds arbitrary: r force) (auto split: enrich_event.split prod.split)

subsection \<open>Properties\<close>

text \<open>A codec for contacts that hold phones only, and a table, for the witnesses.\<close>

definition phone_json :: "contact_enrichment \<Rightarrow> string" where
  "phone_json c = (case telepon (pengirim c) of None \<Rightarrow> '''' | Some v \<Rightarrow> v) @ ''|''
     @ (case telepon (penerima c) of None \<Rightarrow> '''' | Some v \<Rightarrow> v)"

definition phone_contact :: "string option \<Rightarrow> string option \<Rightarrow> contact_enrichment" where
  "phone_contact a b = empty_contact\<lparr>pengirim := (pengirim empty_contact)\<lparr>telepon := a\<rparr>,
                                      penerima := (penerima empty_contact)\<lparr>telepon := b\<rparr>\<rparr>"

definition phone_serde :: contact_serde where
  "phone_serde =
     (let field = (\<lambda>v. if v = '''' then None else Some v)
      in \<lparr>contact_to_json = (\<lambda>c. Some (phone_json c)),
          contact_from_json = (\<lambda>j. Some (phone_contact (field (takeWhile (\<lambda>c. c \<noteq> CHR ''|'') j))
             (field (drop 1 (dropWhile (\<lambda>c. c \<noteq> CHR ''|'') j)))))\<rparr>)"

definition sample_contact_row :: contact_row where
  "sample_contact_row = \<lparr>cr_shipment_id = ''P1'', cr_contact_json = ''08123456789|'', cr_status = ''partial'',
     cr_source = ''lacak_mitra'', cr_fetched_at = 7776000005, cr_last_used_at = 7776000005\<rparr>"

lemma phone_serde_simps [simp]:
  "contact_to_json phone_serde c = Some (phone_json c)"
  "contact_from_json phone_serde ''08123456789|'' = Some (phone_contact (Some ''08123456789'') None)"
  "contact_from_json phone_serde ''08123456789|0987654321''
     = Some (phone_contact (Some ''08123456789'') (Some ''0987654321''))"
  by (simp_all add: phone_serde_def)

lemma phone_contact_simps [simp]:
  "telepon (pengirim (phone_contact a b)) = a" "telepon (penerima (phone_contact a b)) = b"
  by (simp_all add: phone_contact_def)

lemma sample_phones [simp]:
  "normalize_contact_phone ''08123456789'' = Some ''08123456789''"
  "normalize_contact_phone '' 0987654321 '' = Some ''0987654321''"
  "normalize_contact_phone ''0987654321'' = Some ''0987654321''"
  "normalize_contact_phone ''-'' = None"
  by code_simp+

lemma normalize_phone_contact [simp]:
  "normalize_phones (phone_contact a b)
     = phone_contact (Option.bind a normalize_contact_phone) (Option.bind b normalize_contact_phone)"
  by (simp add: normalize_phones_def normalize_phone_of_def phone_contact_def empty_contact_def)

lemma get_sample [simp]:
  "fst (contact_get phone_serde 7776000100 ''P1'' [sample_contact_row]) =
    Some \<lparr>ce_shipment_id = ''P1'', ce_contact = phone_contact (Some ''08123456789'') None, ce_status = Contact_Partial,
      ce_source = ''lacak_mitra'', ce_fetched_at = 7776000005, ce_last_used_at = 7776000100\<rparr>"
  by (simp add: contact_get_def sample_contact_row_def contact_status_from_str_def from_sql_millis_def
      contact_is_expired_def Let_def)



text \<open>
  Whatever reads, stores and openings the contact table goes through, starting
  from an empty one, it never holds more than 20000 rows nor two rows of a shipment.
\<close>

theorem contact_table_bounded:
  "length (fold (contact_op_table sd) ops []) \<le> max_contact_cache_entries
   \<and> distinct (map cr_shipment_id (fold (contact_op_table sd) ops []))"
proof -
  have "distinct (contact_ids table) \<and> length table \<le> max_contact_cache_entries
    \<Longrightarrow> distinct (contact_ids (fold (contact_op_table sd) ops table))
      \<and> length (fold (contact_op_table sd) ops table) \<le> max_contact_cache_entries" for table
    by (induction ops arbitrary: table) (simp_all only: fold_simps contact_op_keeps)
  from this [of "[]"] show ?thesis by simp
qed


text \<open>
  Under any traffic of requests, drops and cancelled waits, at most one caller
  holds the lease of a shipment's contact fetch, the id is free again once it drops
  it, and a caller that waits is either woken already or waits for the lease held now.
\<close>

theorem contact_lease_single_flight:
  assumes "lease_reachable contact_begin_fetch contact_drop_lease [] s"
  shows "((sid, n) \<in> lease_holders s \<longrightarrow> (sid, m) \<in> lease_holders s \<longrightarrow> n = m)
    \<and> ((sid, n) \<in> lease_holders s
        \<longrightarrow> map_of (lease_table (release_lease contact_drop_lease sid n s)) sid = None)
    \<and> ((sid, n) \<in> lease_waiters s \<longrightarrow> n \<in> lease_fired s \<or> (sid, n) \<in> lease_holders s)"
  using contact_leases.exclusive [OF assms] contact_leases.released_is_free [OF assms]
    contact_leases.waiter_wakes [OF assms] by blast

theorem contact_lease_single_flight_witness:
  "\<exists>s. lease_reachable contact_begin_fetch contact_drop_lease [] s \<and> (''P1'', 0) \<in> lease_holders s \<and> (''P1'', 0) \<in> lease_waiters s
     \<and> map_of (lease_table (release_lease contact_drop_lease ''P1'' 0 s)) ''P1'' = None
     \<and> (\<forall>m. (''P1'', m) \<in> lease_holders s \<longrightarrow> 0 = m)"
proof -
  define s where "s = request_lease contact_begin_fetch ''P1'' (request_lease contact_begin_fetch ''P1''
    \<lparr>lease_table = [], lease_holders = {}, lease_waiters = {}, lease_fired = {}, lease_next = 0\<rparr>)"
  have r: "lease_reachable contact_begin_fetch contact_drop_lease [] s"
    unfolding s_def by (intro lease_reachable.intros)
  have h: "(''P1'', 0) \<in> lease_holders s" and w: "(''P1'', 0) \<in> lease_waiters s"
    by (simp_all add: s_def request_lease_def contact_begin_fetch_def)
  from r h w contact_lease_single_flight [OF r, of "''P1''" 0] show ?thesis by blast
qed


end
