(* ===== verification/BagRouteCache.thy ===== *)
theory BagRouteCache
  imports ContactClaims
begin

text \<open>
  The cache of bag labels (\<open>bag_route_cache.rs\<close>): the table of routes with their
  origin and destination offices, and the leases on running fetches, which provide
  the same contract as those of the contact cache.  The milliseconds are converted
  as in \<open>ContactCache\<close>; serde's JSON of a route is a parameter.
\<close>

record bag_route =
  br_nomor_kantung :: string
  br_lokasi_asal :: "string option"
  br_tujuan :: "string option"
  br_url :: string

datatype bag_route_status = Route_Ok | Route_Partial | Route_Missing | Route_Failed

fun route_status_as_str :: "bag_route_status \<Rightarrow> string" where
  "route_status_as_str Route_Ok = ''ok''"
| "route_status_as_str Route_Partial = ''partial''"
| "route_status_as_str Route_Missing = ''missing''"
| "route_status_as_str Route_Failed = ''failed''"

definition route_status_from_str :: "string \<Rightarrow> bag_route_status option" where
  "route_status_from_str v =
     (if v = ''ok'' then Some Route_Ok else if v = ''partial'' then Some Route_Partial
      else if v = ''missing'' then Some Route_Missing else if v = ''failed'' then Some Route_Failed
      else None)"

record bag_route_entry =
  be_bag_id :: string
  be_route :: "bag_route option"
  be_status :: bag_route_status
  be_fetched_at :: nat

record bag_route_row =
  rr_bag_id :: string
  rr_route_json :: "string option"
  rr_status :: string
  rr_fetched_at :: int
  rr_last_used_at :: int

record route_serde =
  route_to_json :: "bag_route \<Rightarrow> string option"
  route_from_json :: "string \<Rightarrow> bag_route option"

abbreviation "bag_route_retry_cache_ttl_ms \<equiv> (300000 :: nat)"
abbreviation "bag_route_last_used_write_interval_ms \<equiv> (3600000 :: nat)"
abbreviation "max_bag_route_cache_entries \<equiv> (20000 :: nat)"

definition route_retry_due :: "nat \<Rightarrow> bag_route_entry \<Rightarrow> bool" where
  "route_retry_due now_ms e \<longleftrightarrow>
     be_status e \<noteq> Route_Ok \<and> bag_route_retry_cache_ttl_ms \<le> now_ms - be_fetched_at e"

definition route_status :: "bag_route option \<Rightarrow> bag_route_status" where
  "route_status r =
     (case r of
        None \<Rightarrow> Route_Missing
      | Some r \<Rightarrow>
          if br_lokasi_asal r \<noteq> None \<and> br_tujuan r \<noteq> None then Route_Ok
          else if br_lokasi_asal r \<noteq> None \<or> br_tujuan r \<noteq> None then Route_Partial
          else Route_Missing)"

definition route_office :: "string option \<Rightarrow> string option" where
  "route_office v = (case v of None \<Rightarrow> None
     | Some x \<Rightarrow> if to_ascii_lowercase (trim x) \<in> {'''', ''-'', ''null'', ''undefined''} then None else Some x)"

definition normalize_route :: "bag_route \<Rightarrow> bag_route" where
  "normalize_route r = r\<lparr>br_lokasi_asal := route_office (br_lokasi_asal r), br_tujuan := route_office (br_tujuan r)\<rparr>"

subsection \<open>Reading\<close>

definition delete_route :: "string \<Rightarrow> bag_route_row list \<Rightarrow> bag_route_row list" where
  "delete_route bag_id table = filter (\<lambda>r. rr_bag_id r \<noteq> bag_id) table"

definition touch_route :: "nat \<Rightarrow> bag_route_row \<Rightarrow> bag_route_row list \<Rightarrow> bag_route_row list" where
  "touch_route now_ms row table =
     (if bag_route_last_used_write_interval_ms \<le> now_ms - from_sql_millis (rr_last_used_at row)
      then update_where (\<lambda>r. rr_bag_id r = rr_bag_id row) (\<lambda>r. r\<lparr>rr_last_used_at := to_sql_millis now_ms\<rparr>) table
      else table)"

definition bag_route_get ::
  "route_serde \<Rightarrow> nat \<Rightarrow> string \<Rightarrow> bag_route_row list \<Rightarrow> bag_route_entry option \<times> bag_route_row list" where
  "bag_route_get sd now_ms bag_id table =
     (case find_by rr_bag_id bag_id table of
        None \<Rightarrow> (None, table)
      | Some row \<Rightarrow>
          (case route_status_from_str (rr_status row) of
             None \<Rightarrow> (None, delete_route bag_id table)
           | Some status \<Rightarrow>
               let fetched_at = from_sql_millis (rr_fetched_at row);
                   answer = (\<lambda>route. (Some \<lparr>be_bag_id = bag_id, be_route = route,
                       be_status = (if status = Route_Ok then route_status route else status),
                       be_fetched_at = fetched_at\<rparr>, touch_route now_ms row table))
               in if status \<in> {Route_Missing, Route_Failed} \<and> bag_route_retry_cache_ttl_ms \<le> now_ms - fetched_at
                  then (None, delete_route bag_id table)
                  else case rr_route_json row of
                    None \<Rightarrow> answer None
                  | Some json \<Rightarrow>
                      (case route_from_json sd json of
                         None \<Rightarrow> (None, delete_route bag_id table)
                       | Some route \<Rightarrow> answer (Some (normalize_route route)))))"

subsection \<open>Storing\<close>

definition route_prune_connection :: "nat \<Rightarrow> bag_route_row list \<Rightarrow> bag_route_row list" where
  "route_prune_connection now_ms table =
     (let cutoff = to_sql_millis (now_ms - bag_route_retry_cache_ttl_ms);
          kept = filter (\<lambda>r. \<not> (rr_status r \<in> {''missing'', ''failed''} \<and> rr_fetched_at r \<le> cutoff)) table;
          remove_count = length kept - max_bag_route_cache_entries;
          oldest = take remove_count (sort_key rr_last_used_at kept)
      in filter (\<lambda>r. rr_bag_id r \<notin> set (map rr_bag_id oldest)) kept)"

definition upsert_route :: "bag_route_row \<Rightarrow> bag_route_row list \<Rightarrow> bag_route_row list" where
  "upsert_route row table =
     (if find_by rr_bag_id (rr_bag_id row) table = None then table @ [row]
      else update_where (\<lambda>r. rr_bag_id r = rr_bag_id row) (\<lambda>_. row) table)"

text \<open>The route of the row that is replaced, if it can be read.\<close>

definition previous_route :: "route_serde \<Rightarrow> string \<Rightarrow> bag_route_row list \<Rightarrow> bag_route option" where
  "previous_route sd bag_id table =
     map_option normalize_route
       (Option.bind (find_by rr_bag_id bag_id table) (\<lambda>r. Option.bind (rr_route_json r) (route_from_json sd)))"

definition merge_route ::
  "bag_route option \<Rightarrow> bag_route option \<Rightarrow> bag_route_status \<Rightarrow> bag_route option \<times> bag_route_status" where
  "merge_route previous route status =
     (case previous of
        None \<Rightarrow> (route, status)
      | Some old \<Rightarrow>
          (case route of
             None \<Rightarrow> (Some old, Route_Partial)
           | Some new \<Rightarrow>
               let merged = new\<lparr>br_lokasi_asal := (if br_lokasi_asal new = None then br_lokasi_asal old else br_lokasi_asal new),
                                br_tujuan := (if br_tujuan new = None then br_tujuan old else br_tujuan new)\<rparr>
               in (Some merged, route_status (Some merged))))"

definition bag_route_store ::
  "route_serde \<Rightarrow> nat \<Rightarrow> string \<Rightarrow> bag_route option \<Rightarrow> bag_route_status \<Rightarrow> bag_route_row list
   \<Rightarrow> bag_route_entry \<times> bag_route_row list" where
  "bag_route_store sd now_ms bag_id new requested table =
     (let (route, status) = merge_route (previous_route sd bag_id table) new requested;
          row = \<lparr>rr_bag_id = bag_id, rr_route_json = Option.bind route (route_to_json sd),
                 rr_status = route_status_as_str status,
                 rr_fetched_at = to_sql_millis now_ms, rr_last_used_at = to_sql_millis now_ms\<rparr>
      in (\<lparr>be_bag_id = bag_id, be_route = route, be_status = status, be_fetched_at = now_ms\<rparr>,
          route_prune_connection now_ms (upsert_route row table)))"

definition bag_route_store_async ::
  "route_serde \<Rightarrow> nat \<Rightarrow> string \<Rightarrow> bag_route \<Rightarrow> bag_route_row list \<Rightarrow> bag_route_entry \<times> bag_route_row list" where
  "bag_route_store_async sd now_ms bag_id route table =
     (let route = normalize_route route
      in bag_route_store sd now_ms bag_id (Some route) (route_status (Some route)) table)"

definition bag_route_store_failure ::
  "route_serde \<Rightarrow> nat \<Rightarrow> string \<Rightarrow> bag_route_row list \<Rightarrow> bag_route_entry \<times> bag_route_row list" where
  "bag_route_store_failure sd now_ms bag_id table = bag_route_store sd now_ms bag_id None Route_Failed table"

subsection \<open>Leases\<close>

definition route_begin_fetch :: "string \<Rightarrow> nat \<Rightarrow> in_flight \<Rightarrow> fetch_action \<times> in_flight" where
  "route_begin_fetch bag_id fresh t =
     (case map_of t bag_id of
        Some n \<Rightarrow> (Wait_Lease n, t)
      | None \<Rightarrow> (Start_Lease fresh, AList.update bag_id fresh t))"

definition route_drop_lease :: "string \<Rightarrow> nat \<Rightarrow> in_flight \<Rightarrow> in_flight" where
  "route_drop_lease bag_id n t = (if map_of t bag_id = Some n then AList.delete bag_id t else t)"

interpretation route_leases: lease_registry route_begin_fetch route_drop_lease "[]" map_of
  by unfold_locales
    (auto simp: route_begin_fetch_def route_drop_lease_def AList.update_conv' AList.delete_conv')

subsection \<open>Offices\<close>

lemma route_office_idem [simp]: "route_office (route_office v) = route_office v"
  by (simp add: route_office_def split: option.split)

lemma normalize_route_idem [simp]: "normalize_route (normalize_route r) = normalize_route r"
  by (simp add: normalize_route_def)

definition route_ok :: "bag_route \<Rightarrow> bool" where
  "route_ok r \<longleftrightarrow> normalize_route r = r"

lemma route_ok_iff: "route_ok r \<longleftrightarrow> route_office (br_lokasi_asal r) = br_lokasi_asal r \<and> route_office (br_tujuan r) = br_tujuan r"
  by (cases r) (auto simp: route_ok_def normalize_route_def)

lemma route_ok_normalize [simp]: "route_ok (normalize_route r)"
  by (simp add: route_ok_def)

lemma route_status_read: "route_status_from_str (route_status_as_str st) = Some st"
  by (cases st) (simp_all add: route_status_from_str_def)

lemma previous_route_ok: "previous_route sd bag_id table = Some old \<Longrightarrow> route_ok old"
  by (auto simp: previous_route_def)

lemma merge_route_ok:
  assumes "\<And>old. previous = Some old \<Longrightarrow> route_ok old" "\<And>new. route = Some new \<Longrightarrow> route_ok new"
    and "merge_route previous route status = (Some merged, st)"
  shows "route_ok merged"
  using assms by (cases previous; cases route) (auto simp: merge_route_def Let_def route_ok_iff)

text \<open>A merged status \<open>Ok\<close> means both offices.\<close>

lemma merge_route_status:
  assumes "merge_route previous route status = (r, st)" "status = Route_Ok \<Longrightarrow> route_status route = Route_Ok"
    and "st = Route_Ok"
  shows "route_status r = Route_Ok"
  using assms by (cases previous; cases route) (auto simp: merge_route_def Let_def split: if_splits)

subsection \<open>Store, then read\<close>

lemma find_upsert_route: "find_by rr_bag_id (rr_bag_id row) (upsert_route row table) = Some row"
proof (cases "find_by rr_bag_id (rr_bag_id row) table")
  case None
  then show ?thesis by (simp add: upsert_route_def find_by_append)
next
  case (Some r)
  then have "find_by rr_bag_id (rr_bag_id row)
      (update_where (\<lambda>r. rr_bag_id r = rr_bag_id row) (\<lambda>_. row) table) = Some row"
    by (induction table) (auto split: if_splits)
  with Some show ?thesis by (simp add: upsert_route_def)
qed

lemma find_route_prune:
  assumes "find_by rr_bag_id bag_id table = Some r" "length table \<le> max_bag_route_cache_entries"
    and "to_sql_millis (now - bag_route_retry_cache_ttl_ms) < rr_fetched_at r"
  shows "find_by rr_bag_id bag_id (route_prune_connection now table) = Some r"
proof -
  have "length (filter P table) - max_bag_route_cache_entries = 0" for P
    by (rule diff_is_0_eq [THEN iffD2, OF order_trans [OF length_filter_le assms(2)]])
  moreover have "find_by rr_bag_id bag_id (filter P table) = Some r" if "P r" for P
    using assms(1) that by (induction table) (auto split: if_splits)
  ultimately show ?thesis using assms(3) by (simp add: route_prune_connection_def Let_def)
qed

lemma bag_route_get_current:
  assumes "find_by rr_bag_id bag_id table = Some row" "rr_bag_id row = bag_id"
    and "rr_status row = route_status_as_str st" "rr_route_json row = Some json" "route_from_json sd json = Some r"
    and "route_ok r" "st = Route_Ok \<Longrightarrow> route_status (Some r) = Route_Ok"
    and "st \<in> {Route_Missing, Route_Failed} \<Longrightarrow> later - from_sql_millis (rr_fetched_at row) < bag_route_retry_cache_ttl_ms"
  shows "fst (bag_route_get sd later bag_id table)
    = Some \<lparr>be_bag_id = bag_id, be_route = Some r, be_status = st, be_fetched_at = from_sql_millis (rr_fetched_at row)\<rparr>"
  using assms by (auto simp: bag_route_get_def route_status_read route_ok_def Let_def)

text \<open>A full route just stored is answered by every later read.\<close>

lemma read_stored_route:
  assumes "length table < max_bag_route_cache_entries" "0 < now" "now < 9223372036854775808"
    and "merge_route (previous_route sd bag_id table) given requested = (Some r, st)"
    and "route_to_json sd r = Some json" "route_from_json sd json = Some r" "route_ok r"
    and "st = Route_Ok \<or> st = Route_Partial" "st = Route_Ok \<Longrightarrow> route_status (Some r) = Route_Ok"
  shows "fst (bag_route_get sd later bag_id (snd (bag_route_store sd now bag_id given requested table)))
    = Some \<lparr>be_bag_id = bag_id, be_route = Some r, be_status = st, be_fetched_at = now\<rparr>"
proof -
  define row where "row = \<lparr>rr_bag_id = bag_id, rr_route_json = Some json, rr_status = route_status_as_str st,
    rr_fetched_at = to_sql_millis now, rr_last_used_at = to_sql_millis now\<rparr>"
  have t: "snd (bag_route_store sd now bag_id given requested table) = route_prune_connection now (upsert_route row table)"
    using assms(4,5) by (simp add: bag_route_store_def row_def Let_def)
  have "find_by rr_bag_id bag_id (route_prune_connection now (upsert_route row table)) = Some row"
  proof (rule find_route_prune)
    show "find_by rr_bag_id bag_id (upsert_route row table) = Some row"
      using find_upsert_route [of row table] by (simp add: row_def)
    show "length (upsert_route row table) \<le> max_bag_route_cache_entries"
      using assms(1) by (simp add: upsert_route_def)
    show "to_sql_millis (now - bag_route_retry_cache_ttl_ms) < rr_fetched_at row"
      using assms(2,3) by (simp add: row_def sql_millis_id)
  qed
  then show ?thesis
    using bag_route_get_current [of bag_id "snd (bag_route_store sd now bag_id given requested table)" row st json sd r later] assms(3,6,7,8,9)
    by (auto simp: t row_def from_to_sql_millis split: if_splits)
qed


text \<open>A codec for routes without a link, for the witness.\<close>

definition sample_route_serde :: route_serde where
  "sample_route_serde = \<lparr>route_to_json = (\<lambda>r. Some ((case br_lokasi_asal r of None \<Rightarrow> '''' | Some v \<Rightarrow> v) @ ''|''
       @ (case br_tujuan r of None \<Rightarrow> '''' | Some v \<Rightarrow> v))),
     route_from_json = (\<lambda>j. Some \<lparr>br_nomor_kantung = ''PID1'',
       br_lokasi_asal = Some (takeWhile (\<lambda>c. c \<noteq> CHR ''|'') j), br_tujuan = Some (drop 1 (dropWhile (\<lambda>c. c \<noteq> CHR ''|'') j)), br_url = ''''\<rparr>)\<rparr>"

lemma sample_offices [simp]:
  "route_office (Some ''DC1'') = Some ''DC1''" "route_office (Some ''DC2'') = Some ''DC2''"
  "route_office (Some []) = None" "route_office (Some ''-'') = None" "route_office None = None"
  by code_simp+


end
