(* ===== verification/ManifestCache.thy ===== *)
theory ManifestCache
  imports BagRouteCache
begin

text \<open>
  The store of manifest print snapshots (\<open>manifest_cache.rs\<close>), which shares the
  database of the bag routes, and the answer built from a snapshot and the live
  status (\<open>resolve_manifest_snapshot\<close> and \<open>merge_manifest_sources\<close> of
  \<open>lookup_cache.rs\<close>).  Floating-point weights are a type parameter; serde is a
  parameter.  One clock reading stands for those of one call.
\<close>

record manifest_item =
  mi_no :: "string option"
  mi_nomor_kantung :: "string option"
  mi_nomor_kantung_url :: "string option"
  mi_jenis_layanan :: "string option"
  mi_berat :: "string option"
  mi_status :: "string option"
  mi_lokasi_akhir :: "string option"
  mi_tanggal :: "string option"
  mi_lokasi_asal :: "string option"
  mi_tujuan :: "string option"

record 'f manifest_product_summary =
  mp_jenis_layanan :: "string option"
  mp_jumlah_kantung :: nat
  mp_berat_kg :: 'f

record 'f manifest_detail =
  md_nomor_manifest :: string
  md_task_id :: string
  md_lokasi_asal :: "string option"
  md_tujuan :: "string option"
  md_nomor_smu :: "string option"
  md_angkutan :: "string option"
  md_mode :: "string option"
  md_tanggal :: "string option"
  md_jumlah_kantung :: nat
  md_total_berat_kg :: 'f
  md_rekap_layanan :: "'f manifest_product_summary list"
  md_source_url :: string
  md_fetched_at :: string
  md_cache_status :: string
  md_status_source :: string

record 'f manifest_response =
  mr_url :: string
  mr_total_berat :: "string option"
  mr_manifest_detail :: "'f manifest_detail option"
  mr_items :: "manifest_item list"

subsection \<open>The tables\<close>

record manifest_row =
  ms_manifest_id :: string
  ms_response_json :: string
  ms_fetched_at :: int
  ms_manifest_date :: string

record manifest_bag_row =
  mb_manifest_id :: string
  mb_bag_id :: string
  mb_route_json :: string

record manifest_db =
  snapshots :: "manifest_row list"
  snapshot_bags :: "manifest_bag_row list"

record 'f manifest_serde =
  manifest_to_json :: "'f manifest_response \<Rightarrow> string option"
  manifest_from_json :: "string \<Rightarrow> 'f manifest_response option"

abbreviation "retention_ms \<equiv> (7776000000 :: int)"
abbreviation "refresh_ms \<equiv> (86400000 :: int)"
abbreviation "max_snapshots \<equiv> (1000 :: nat)"
abbreviation "max_snapshot_bytes \<equiv> (8388608 :: nat)"
abbreviation "max_store_bytes \<equiv> (67108864 :: nat)"

definition snapshot_bytes :: "manifest_db \<Rightarrow> nat" where
  "snapshot_bytes db = sum_list (map (\<lambda>r. length (ms_response_json r)) (snapshots db))"

text \<open>\<open>DELETE FROM manifest_print_cache WHERE p\<close>, cascading to the bags.\<close>

definition delete_snapshots :: "(manifest_row \<Rightarrow> bool) \<Rightarrow> manifest_db \<Rightarrow> manifest_db" where
  "delete_snapshots p db =
     (let kept = filter (\<lambda>r. \<not> p r) (snapshots db)
      in db\<lparr>snapshots := kept,
            snapshot_bags := filter (\<lambda>b. list_ex (\<lambda>r. ms_manifest_id r = mb_manifest_id b) kept) (snapshot_bags db)\<rparr>)"

definition upsert_snapshot :: "manifest_row \<Rightarrow> manifest_row list \<Rightarrow> manifest_row list" where
  "upsert_snapshot row table =
     (if find_by ms_manifest_id (ms_manifest_id row) table = None then table @ [row]
      else update_where (\<lambda>r. ms_manifest_id r = ms_manifest_id row) (\<lambda>_. row) table)"

subsection \<open>Storing\<close>

text \<open>The bag rows of a snapshot; the primary key is (manifest, bag).\<close>

fun insert_bags ::
  "route_serde \<Rightarrow> string \<Rightarrow> 'f manifest_detail \<Rightarrow> manifest_item list \<Rightarrow> manifest_bag_row list
   \<Rightarrow> string + manifest_bag_row list" where
  "insert_bags sd mid detail [] bags = Inr bags"
| "insert_bags sd mid detail (item # items) bags =
     and_then (ok_or ''Missing snapshot bag identifier'' (mi_nomor_kantung item)) (\<lambda>bag_id.
     and_then (ok_or ''serialize'' (route_to_json sd \<lparr>br_nomor_kantung = bag_id, br_lokasi_asal = mi_lokasi_asal item,
         br_tujuan = mi_tujuan item, br_url = md_source_url detail\<rparr>)) (\<lambda>json.
       if list_ex (\<lambda>b. mb_manifest_id b = mid \<and> mb_bag_id b = bag_id) bags then Inl ''UNIQUE constraint failed''
       else insert_bags sd mid detail items
              (bags @ [\<lparr>mb_manifest_id = mid, mb_bag_id = bag_id, mb_route_json = json\<rparr>])))"

lemma sort_key_hd: "sort_key f xs = x # ys \<Longrightarrow> x \<in> set xs"
  by (metis list.set_intros(1) set_sort)

text \<open>The loop that evicts the oldest snapshot until both limits hold.\<close>

function evict_snapshots :: "manifest_db \<Rightarrow> manifest_db" where
  "evict_snapshots db =
     (if length (snapshots db) \<le> max_snapshots \<and> snapshot_bytes db \<le> max_store_bytes then db
      else case sort_key ms_fetched_at (snapshots db) of
             [] \<Rightarrow> db
           | oldest # _ \<Rightarrow> evict_snapshots (delete_snapshots (\<lambda>r. ms_manifest_id r = ms_manifest_id oldest) db))"
  by auto

termination
proof (relation "measure (\<lambda>db. length (snapshots db))")
  fix db :: manifest_db and x ys
  assume "sort_key ms_fetched_at (snapshots db) = x # ys"
  then have "x \<in> set (snapshots db)" by (rule sort_key_hd)
  then have "length (filter (\<lambda>r. ms_manifest_id r \<noteq> ms_manifest_id x) (snapshots db)) < length (snapshots db)"
    by (simp add: length_filter_less)
  then show "(delete_snapshots (\<lambda>r. ms_manifest_id r = ms_manifest_id x) db, db) \<in> measure (\<lambda>db. length (snapshots db))"
    by (simp add: delete_snapshots_def Let_def)
qed simp

declare evict_snapshots.simps [simp del]

definition store_manifest ::
  "'f manifest_serde \<Rightarrow> route_serde \<Rightarrow> int \<Rightarrow> string \<Rightarrow> 'f manifest_response \<Rightarrow> manifest_db \<Rightarrow> string + manifest_db" where
  "store_manifest ms sd now mid snapshot db =
     and_then (ok_or ''Missing Print metadata'' (mr_manifest_detail snapshot)) (\<lambda>detail.
     if \<not> eq_ignore_ascii_case (md_nomor_manifest detail) mid \<or> md_jumlah_kantung detail \<noteq> length (mr_items snapshot)
     then Inl ''Invalid manifest snapshot identity or count''
     else and_then (ok_or ''serialize'' (manifest_to_json ms snapshot)) (\<lambda>json.
       if max_snapshot_bytes < length json then Inl ''Manifest snapshot exceeds the size limit''
       else
         let row = \<lparr>ms_manifest_id = mid, ms_response_json = json, ms_fetched_at = now,
                    ms_manifest_date = (case md_tanggal detail of None \<Rightarrow> '''' | Some d \<Rightarrow> d)\<rparr>
         in and_then (insert_bags sd mid detail (mr_items snapshot)
                        (filter (\<lambda>b. mb_manifest_id b \<noteq> mid) (snapshot_bags db))) (\<lambda>bags.
            Inr (evict_snapshots (delete_snapshots (\<lambda>r. ms_fetched_at r \<le> now - retention_ms)
                   \<lparr>snapshots = upsert_snapshot row (snapshots db), snapshot_bags = bags\<rparr>)))))"

subsection \<open>Reading\<close>

definition get_manifest ::
  "'f manifest_serde \<Rightarrow> int \<Rightarrow> string \<Rightarrow> manifest_db \<Rightarrow> 'f manifest_response option" where
  "get_manifest ms now mid db =
     (case find (\<lambda>r. ms_manifest_id r = mid \<and> now - retention_ms < ms_fetched_at r) (snapshots db) of
        None \<Rightarrow> None
      | Some row \<Rightarrow>
          (case manifest_from_json ms (ms_response_json row) of
             None \<Rightarrow> None
           | Some snapshot \<Rightarrow>
               (case mr_manifest_detail snapshot of
                  None \<Rightarrow> None
                | Some detail \<Rightarrow>
                    if \<not> eq_ignore_ascii_case (md_nomor_manifest detail) mid then None
                    else Some (snapshot\<lparr>mr_manifest_detail := Some (detail\<lparr>md_cache_status :=
                           (if refresh_ms \<le> now - ms_fetched_at row then ''stale'' else ''cache_hit'')\<rparr>)\<rparr>))))"

definition get_manifest_bag_route ::
  "route_serde \<Rightarrow> int \<Rightarrow> string \<Rightarrow> manifest_db \<Rightarrow> bag_route option" where
  "get_manifest_bag_route sd now bag_id db =
     (let found = concat (map (\<lambda>b.
            map (\<lambda>r. ((ms_manifest_date r, ms_fetched_at r), mb_route_json b))
              (filter (\<lambda>r. ms_manifest_id r = mb_manifest_id b \<and> now - retention_ms < ms_fetched_at r) (snapshots db)))
            (filter (\<lambda>b. mb_bag_id b = bag_id) (snapshot_bags db)))
      in case rev (sort_key fst found) of [] \<Rightarrow> None | (_, json) # _ \<Rightarrow> route_from_json sd json)"

subsection \<open>Resolving\<close>

text \<open>
  The answer and the database after it; \<open>None\<close> is the panic of an \<open>unwrap\<close> on a
  snapshot without its detail.  The fetch is a parameter.
\<close>

definition resolve_manifest_snapshot ::
  "'f manifest_serde \<Rightarrow> route_serde \<Rightarrow> int \<Rightarrow> string \<Rightarrow> string \<Rightarrow> bool
   \<Rightarrow> (tracking_error + 'f manifest_response) \<Rightarrow> manifest_db
   \<Rightarrow> ((tracking_error + 'f manifest_response) \<times> manifest_db) option" where
  "resolve_manifest_snapshot ms sd now generated_at mid force_refresh fetched db =
     (let cached = get_manifest ms now mid db;
          hit = (case Option.bind cached mr_manifest_detail of None \<Rightarrow> False
                 | Some detail \<Rightarrow> md_cache_status detail = ''cache_hit'')
      in case cached of
           Some snapshot \<Rightarrow>
             if \<not> force_refresh \<and> hit then Some (Inr snapshot, db)
             else (case fetched of
               Inr print \<Rightarrow> map_option (\<lambda>detail.
                  let print' = print\<lparr>mr_manifest_detail := Some (detail\<lparr>md_fetched_at := generated_at\<rparr>)\<rparr>
                  in (Inr print', case store_manifest ms sd now mid print' db of Inl _ \<Rightarrow> db | Inr db' \<Rightarrow> db'))
                  (mr_manifest_detail print)
             | Inl e \<Rightarrow> map_option (\<lambda>detail.
                  (Inr (snapshot\<lparr>mr_manifest_detail := Some (detail\<lparr>md_cache_status := ''stale''\<rparr>)\<rparr>), db))
                  (mr_manifest_detail snapshot))
         | None \<Rightarrow>
             (case fetched of
               Inr print \<Rightarrow> map_option (\<lambda>detail.
                  let print' = print\<lparr>mr_manifest_detail := Some (detail\<lparr>md_fetched_at := generated_at\<rparr>)\<rparr>
                  in (Inr print', case store_manifest ms sd now mid print' db of Inl _ \<Rightarrow> db | Inr db' \<Rightarrow> db'))
                  (mr_manifest_detail print)
             | Inl e \<Rightarrow> Some (Inl e, db)))"

text \<open>The status of the items by upper-case bag id; a later item replaces an earlier one.\<close>

definition item_statuses :: "manifest_item list \<Rightarrow> string \<Rightarrow> manifest_item option" where
  "item_statuses items =
     map_of (rev (List.map_filter (\<lambda>i. map_option (\<lambda>id. (to_ascii_uppercase id, i)) (mi_nomor_kantung i)) items))"

definition with_status_of :: "(string \<Rightarrow> manifest_item option) \<Rightarrow> manifest_item \<Rightarrow> manifest_item" where
  "with_status_of statuses item =
     (case Option.bind (mi_nomor_kantung item) (\<lambda>id. statuses (to_ascii_uppercase id)) of
        None \<Rightarrow> item
      | Some s \<Rightarrow> item\<lparr>mi_nomor_kantung_url := mi_nomor_kantung_url s, mi_status := mi_status s,
                      mi_lokasi_akhir := mi_lokasi_akhir s, mi_tanggal := mi_tanggal s\<rparr>)"

definition merge_manifest_sources ::
  "(tracking_error + 'f manifest_response) \<Rightarrow> (tracking_error + 'f manifest_response)
   \<Rightarrow> (tracking_error + 'f manifest_response) option" where
  "merge_manifest_sources operational print =
     (case (operational, print) of
        (Inr live, Inr snapshot) \<Rightarrow>
          map_option (\<lambda>detail. Inr (snapshot\<lparr>mr_items := map (with_status_of (item_statuses (mr_items live))) (mr_items snapshot),
              mr_manifest_detail := Some (detail\<lparr>md_status_source := ''pid''\<rparr>)\<rparr>)) (mr_manifest_detail snapshot)
      | (Inr live, Inl _) \<Rightarrow> Some (Inr live)
      | (Inl _, Inr snapshot) \<Rightarrow> Some (Inr snapshot)
      | (Inl e, Inl _) \<Rightarrow> Some (Inl e))"

subsection \<open>The store keeps its limits and the newest snapshot\<close>

definition manifest_db_ok :: "manifest_db \<Rightarrow> bool" where
  "manifest_db_ok db \<longleftrightarrow> distinct (map ms_manifest_id (snapshots db))
     \<and> distinct (map (\<lambda>b. (mb_manifest_id b, mb_bag_id b)) (snapshot_bags db))
     \<and> (\<forall>b \<in> set (snapshot_bags db). find_by ms_manifest_id (mb_manifest_id b) (snapshots db) \<noteq> None)"

abbreviation newest :: "manifest_row \<Rightarrow> manifest_db \<Rightarrow> bool" where
  "newest row db \<equiv> row \<in> set (snapshots db) \<and> (\<forall>r \<in> set (snapshots db). r \<noteq> row \<longrightarrow> ms_fetched_at r < ms_fetched_at row)"

lemma delete_snapshots_ok: "manifest_db_ok db \<Longrightarrow> manifest_db_ok (delete_snapshots p db)"
  by (auto simp: manifest_db_ok_def delete_snapshots_def Let_def distinct_map_filter_key find_by_None_iff list_ex_iff)

lemma delete_snapshots_bags:
  assumes "row \<in> set (snapshots db)" "\<not> p row"
  shows "filter (\<lambda>b. mb_manifest_id b = ms_manifest_id row) (snapshot_bags (delete_snapshots p db))
       = filter (\<lambda>b. mb_manifest_id b = ms_manifest_id row) (snapshot_bags db)"
  using assms by (auto simp: delete_snapshots_def Let_def list_ex_iff intro!: filter_cong)

lemma evict_snapshots_spec:
  assumes "manifest_db_ok db" "newest row db" "length (ms_response_json row) \<le> max_store_bytes"
  shows "manifest_db_ok (evict_snapshots db) \<and> newest row (evict_snapshots db)
    \<and> length (snapshots (evict_snapshots db)) \<le> max_snapshots \<and> snapshot_bytes (evict_snapshots db) \<le> max_store_bytes
    \<and> filter (\<lambda>b. mb_manifest_id b = ms_manifest_id row) (snapshot_bags (evict_snapshots db))
      = filter (\<lambda>b. mb_manifest_id b = ms_manifest_id row) (snapshot_bags db)
    \<and> set (snapshots (evict_snapshots db)) \<subseteq> set (snapshots db)"
  using assms
proof (induction db rule: evict_snapshots.induct)
  case (1 db)
  show ?case
  proof (cases "length (snapshots db) \<le> max_snapshots \<and> snapshot_bytes db \<le> max_store_bytes")
    case True
    with "1.prems" show ?thesis by (simp add: evict_snapshots.simps [of db])
  next
    case False
    obtain x ys where s: "sort_key ms_fetched_at (snapshots db) = x # ys"
      using "1.prems"(2) by (cases "sort_key ms_fetched_at (snapshots db)") (auto dest: arg_cong [where f = set])
    have x: "x \<in> set (snapshots db)" using s by (rule sort_key_hd)
    have "x \<noteq> row"
    proof
      assume "x = row"
      have "\<forall>r \<in> set (snapshots db). ms_fetched_at x \<le> ms_fetched_at r"
        using s sorted_sort_key [of ms_fetched_at "snapshots db"] set_sort [of ms_fetched_at "snapshots db"] by auto
      with \<open>x = row\<close> "1.prems"(2) have "\<forall>r \<in> set (snapshots db). r = row" by force
      moreover have "distinct (snapshots db)" using "1.prems"(1) by (simp add: manifest_db_ok_def distinct_map)
      ultimately have "snapshots db = [row]"
        using "1.prems"(2) by (cases "snapshots db"; cases "tl (snapshots db)") auto
      with "1.prems"(3) False show False by (simp add: snapshot_bytes_def)
    qed
    let ?db = "delete_snapshots (\<lambda>r. ms_manifest_id r = ms_manifest_id x) db"
    have ids: "ms_manifest_id row \<noteq> ms_manifest_id x"
      using "1.prems"(1,2) x \<open>x \<noteq> row\<close> distinct_key_unique by (fastforce simp: manifest_db_ok_def)
    have nw: "newest row ?db" using "1.prems"(2) ids by (auto simp: delete_snapshots_def Let_def)
    have sub: "set (snapshots ?db) \<subseteq> set (snapshots db)" by (auto simp: delete_snapshots_def Let_def)
    have e: "evict_snapshots db = evict_snapshots ?db"
      by (subst evict_snapshots.simps) (use False s in auto)
    have bags: "filter (\<lambda>b. mb_manifest_id b = ms_manifest_id row) (snapshot_bags ?db)
       = filter (\<lambda>b. mb_manifest_id b = ms_manifest_id row) (snapshot_bags db)"
      using "1.prems"(2) ids by (intro delete_snapshots_bags) auto
    from "1.IH" [OF False s delete_snapshots_ok [OF "1.prems"(1)] nw "1.prems"(3)] show ?thesis
      unfolding e bags using sub by blast
  qed
qed

lemma insert_bags_ok:
  assumes "insert_bags sd mid detail items bags = Inr bags'" "distinct (map (\<lambda>b. (mb_manifest_id b, mb_bag_id b)) bags)"
  shows "distinct (map (\<lambda>b. (mb_manifest_id b, mb_bag_id b)) bags')
    \<and> (\<exists>new. bags' = bags @ new \<and> map (\<lambda>b. (mb_manifest_id b, Some (mb_bag_id b))) new
          = map (\<lambda>i. (mid, mi_nomor_kantung i)) items)"
  using assms
proof (induction sd mid detail items bags rule: insert_bags.induct)
  case (2 sd mid detail item items bags)
  from "2.prems"(1) obtain bag_id json where ex: "mi_nomor_kantung item = Some bag_id"
    "route_to_json sd \<lparr>br_nomor_kantung = bag_id, br_lokasi_asal = mi_lokasi_asal item,
         br_tujuan = mi_tujuan item, br_url = md_source_url detail\<rparr> = Some json"
    "\<not> list_ex (\<lambda>b. mb_manifest_id b = mid \<and> mb_bag_id b = bag_id) bags"
    "insert_bags sd mid detail items (bags @ [\<lparr>mb_manifest_id = mid, mb_bag_id = bag_id, mb_route_json = json\<rparr>]) = Inr bags'"
    by (auto simp: and_then_Inr_iff split: if_splits)
  have d: "distinct (map (\<lambda>b. (mb_manifest_id b, mb_bag_id b)) (bags @ [\<lparr>mb_manifest_id = mid, mb_bag_id = bag_id, mb_route_json = json\<rparr>]))"
    using "2.prems"(2) ex(3) by (auto simp: list_ex_iff)
  from "2.IH" [OF ex(3,4) d] ex(1) show ?case by auto
qed simp

lemma find_by_in_keys: "find_by key k rs \<noteq> None \<longleftrightarrow> k \<in> set (map key rs)"
  by (auto simp: find_by_None_iff)

lemma store_manifest_result:
  assumes "store_manifest ms sd now mid snapshot db = Inr db'"
    and "manifest_db_ok db" "\<forall>r \<in> set (snapshots db). ms_fetched_at r < now"
  shows "\<exists>row json detail. newest row db' \<and> ms_manifest_id row = mid \<and> ms_fetched_at row = now \<and> ms_response_json row = json
    \<and> manifest_to_json ms snapshot = Some json \<and> mr_manifest_detail snapshot = Some detail
    \<and> eq_ignore_ascii_case (md_nomor_manifest detail) mid
    \<and> manifest_db_ok db' \<and> length (snapshots db') \<le> max_snapshots \<and> snapshot_bytes db' \<le> max_store_bytes
    \<and> map (\<lambda>b. Some (mb_bag_id b)) (filter (\<lambda>b. mb_manifest_id b = mid) (snapshot_bags db')) = map mi_nomor_kantung (mr_items snapshot)
    \<and> (\<forall>r \<in> set (snapshots db'). now - retention_ms < ms_fetched_at r)"
proof -
  obtain detail json bags where detail: "mr_manifest_detail snapshot = Some detail"
    and eq: "eq_ignore_ascii_case (md_nomor_manifest detail) mid"
    and json: "manifest_to_json ms snapshot = Some json" and small: "length json \<le> max_snapshot_bytes"
    and bags: "insert_bags sd mid detail (mr_items snapshot) (filter (\<lambda>b. mb_manifest_id b \<noteq> mid) (snapshot_bags db)) = Inr bags"
    and db': "db' = evict_snapshots (delete_snapshots (\<lambda>r. ms_fetched_at r \<le> now - retention_ms)
        \<lparr>snapshots = upsert_snapshot \<lparr>ms_manifest_id = mid, ms_response_json = json, ms_fetched_at = now,
                    ms_manifest_date = (case md_tanggal detail of None \<Rightarrow> '''' | Some d \<Rightarrow> d)\<rparr> (snapshots db),
          snapshot_bags = bags\<rparr>)"
    using assms(1) by (auto simp: store_manifest_def and_then_Inr_iff Let_def split: if_splits)
  define row where "row = \<lparr>ms_manifest_id = mid, ms_response_json = json, ms_fetched_at = now,
                    ms_manifest_date = (case md_tanggal detail of None \<Rightarrow> '''' | Some d \<Rightarrow> d)\<rparr>"
  define db1 where "db1 = \<lparr>snapshots = upsert_snapshot row (snapshots db), snapshot_bags = bags\<rparr>"
  define db2 where "db2 = delete_snapshots (\<lambda>r. ms_fetched_at r \<le> now - retention_ms) db1"
  have row: "ms_manifest_id row = mid" "ms_fetched_at row = now" "ms_response_json row = json" by (simp_all add: row_def)
  have d': "db' = evict_snapshots db2" by (simp add: db' db2_def db1_def row_def)
  from insert_bags_ok [OF bags distinct_map_filter_key] obtain new where
    new: "distinct (map (\<lambda>b. (mb_manifest_id b, mb_bag_id b)) bags)"
      "bags = filter (\<lambda>b. mb_manifest_id b \<noteq> mid) (snapshot_bags db) @ new"
      "map (\<lambda>b. (mb_manifest_id b, Some (mb_bag_id b))) new = map (\<lambda>i. (mid, mi_nomor_kantung i)) (mr_items snapshot)"
    using assms(2) by (auto simp: manifest_db_ok_def)
  have new_mid: "\<forall>b \<in> set new. mb_manifest_id b = mid"
    using arg_cong [OF new(3), of set] by auto
  have new_ids: "map (\<lambda>b. Some (mb_bag_id b)) new = map mi_nomor_kantung (mr_items snapshot)"
    using arg_cong [OF new(3), of "map snd"] by (simp add: comp_def)
  have keys: "map ms_manifest_id (upsert_snapshot row (snapshots db))
      = (if mid \<in> set (map ms_manifest_id (snapshots db)) then map ms_manifest_id (snapshots db)
         else map ms_manifest_id (snapshots db) @ [mid])"
    using find_by_in_keys [of ms_manifest_id mid "snapshots db"] map_update_where_to [of ms_manifest_id row "snapshots db"]
    by (auto simp: upsert_snapshot_def row)
  then have ids: "find_by ms_manifest_id k (upsert_snapshot row (snapshots db)) \<noteq> None
      \<longleftrightarrow> k = mid \<or> find_by ms_manifest_id k (snapshots db) \<noteq> None" for k
    unfolding find_by_in_keys by auto
  have dist: "distinct (map ms_manifest_id (upsert_snapshot row (snapshots db)))"
    using assms(2) unfolding keys by (simp add: manifest_db_ok_def)
  have ok1: "manifest_db_ok db1"
    using assms(2) new(1) dist ids new_mid by (auto simp: manifest_db_ok_def db1_def new(2))
  have nw1: "newest row db1"
    using assms(3) row by (auto simp: db1_def upsert_snapshot_def find_by_None_iff in_update_where)
  have nw2: "newest row db2" using nw1 row by (auto simp: db2_def delete_snapshots_def Let_def)
  have fresh: "\<forall>r \<in> set (snapshots db2). now - retention_ms < ms_fetched_at r"
    by (auto simp: db2_def delete_snapshots_def Let_def)
  have "filter (\<lambda>b. mb_manifest_id b = mid) bags = new" using new_mid by (simp add: new(2) filter_empty_conv filter_id_conv)
  moreover have "filter (\<lambda>b. mb_manifest_id b = mid) (snapshot_bags db2) = filter (\<lambda>b. mb_manifest_id b = mid) bags"
    using delete_snapshots_bags [of row db1 "\<lambda>r. ms_fetched_at r \<le> now - retention_ms"] nw1 row
    by (simp add: db2_def) (simp add: db1_def)
  ultimately have bags2: "filter (\<lambda>b. mb_manifest_id b = mid) (snapshot_bags db2) = new" by simp
  have small': "length (ms_response_json row) \<le> max_store_bytes" using small row by simp
  have ok2: "manifest_db_ok db2" unfolding db2_def by (rule delete_snapshots_ok [OF ok1])
  note evicted = evict_snapshots_spec [OF ok2 nw2 small']
  have "filter (\<lambda>b. mb_manifest_id b = mid) (snapshot_bags db') = new"
    using evicted bags2 row(1) unfolding d' by metis
  moreover have "\<forall>r \<in> set (snapshots db'). now - retention_ms < ms_fetched_at r"
    using evicted fresh unfolding d' by blast
  ultimately show ?thesis
    using evicted new_ids row detail json eq unfolding d' [symmetric] by (intro exI [of _ row] exI [of _ json] exI [of _ detail]) auto
qed

lemma find_newest:
  assumes "distinct (map ms_manifest_id rows)" "row \<in> set rows" "P row"
  shows "find (\<lambda>r. ms_manifest_id r = ms_manifest_id row \<and> P r) rows = Some row"
  using assms by (induction rows) auto

text \<open>
  A snapshot that is stored leaves a database within its limits, at most 1000
  snapshots of at most 64 MiB together, none older than 90 days, every bag row
  belonging to a stored snapshot, and it is never itself the victim of the eviction:
  the bag rows of the manifest are exactly its items in order, and until it expires
  every read answers it, marked stale once it is a day old.
\<close>

theorem store_manifest_limits:
  assumes "manifest_db_ok db" "\<forall>r \<in> set (snapshots db). ms_fetched_at r < now"
    and "store_manifest ms sd now mid snapshot db = Inr db'"
    and "manifest_to_json ms snapshot = Some json" "manifest_from_json ms json = Some snapshot"
    and "later < now + retention_ms"
  shows "manifest_db_ok db' \<and> length (snapshots db') \<le> max_snapshots \<and> snapshot_bytes db' \<le> max_store_bytes
    \<and> (\<forall>r \<in> set (snapshots db'). now - retention_ms < ms_fetched_at r)
    \<and> map (\<lambda>b. Some (mb_bag_id b)) (filter (\<lambda>b. mb_manifest_id b = mid) (snapshot_bags db')) = map mi_nomor_kantung (mr_items snapshot)
    \<and> get_manifest ms later mid db' = Some (snapshot\<lparr>mr_manifest_detail := map_option (md_cache_status_update
          (\<lambda>_. if refresh_ms \<le> later - now then ''stale'' else ''cache_hit'')) (mr_manifest_detail snapshot)\<rparr>)"
proof -
  from store_manifest_result [OF assms(3,1,2)] assms(4) obtain row detail where
    row: "newest row db'" "ms_manifest_id row = mid" "ms_fetched_at row = now" "ms_response_json row = json"
    and detail: "mr_manifest_detail snapshot = Some detail" "eq_ignore_ascii_case (md_nomor_manifest detail) mid"
    and rest: "manifest_db_ok db'" "length (snapshots db') \<le> max_snapshots" "snapshot_bytes db' \<le> max_store_bytes"
      "map (\<lambda>b. Some (mb_bag_id b)) (filter (\<lambda>b. mb_manifest_id b = mid) (snapshot_bags db')) = map mi_nomor_kantung (mr_items snapshot)"
      "\<forall>r \<in> set (snapshots db'). now - retention_ms < ms_fetched_at r"
    by auto
  have "find (\<lambda>r. ms_manifest_id r = mid \<and> later - retention_ms < ms_fetched_at r) (snapshots db') = Some row"
    using find_newest [of "snapshots db'" row "\<lambda>r. later - retention_ms < ms_fetched_at r"] row rest(1) assms(6)
    by (simp add: manifest_db_ok_def)
  then have "get_manifest ms later mid db' = Some (snapshot\<lparr>mr_manifest_detail := map_option (md_cache_status_update
          (\<lambda>_. if refresh_ms \<le> later - now then ''stale'' else ''cache_hit'')) (mr_manifest_detail snapshot)\<rparr>)"
    using row detail assms(5) by (simp add: get_manifest_def)
  with rest show ?thesis by blast
qed

text \<open>A snapshot of one bag, for the witness.\<close>

definition sample_item :: manifest_item where
  "sample_item = \<lparr>mi_no = None, mi_nomor_kantung = Some ''PID1'', mi_nomor_kantung_url = None, mi_jenis_layanan = None,
     mi_berat = None, mi_status = None, mi_lokasi_akhir = None, mi_tanggal = None, mi_lokasi_asal = Some ''DC1'', mi_tujuan = Some ''DC2''\<rparr>"

definition sample_snapshot :: "nat manifest_response" where
  "sample_snapshot = \<lparr>mr_url = ''u'', mr_total_berat = None, mr_manifest_detail = Some
     \<lparr>md_nomor_manifest = ''p1'', md_task_id = '''', md_lokasi_asal = None, md_tujuan = None, md_nomor_smu = None, md_angkutan = None,
      md_mode = None, md_tanggal = Some ''2026-09-29'', md_jumlah_kantung = 1, md_total_berat_kg = 0, md_rekap_layanan = [],
      md_source_url = '''', md_fetched_at = '''', md_cache_status = '''', md_status_source = ''''\<rparr>, mr_items = [sample_item]\<rparr>"

definition sample_manifest_serde :: "nat manifest_serde" where
  "sample_manifest_serde = \<lparr>manifest_to_json = (\<lambda>r. Some (mr_url r)), manifest_from_json = (\<lambda>j. Some (sample_snapshot\<lparr>mr_url := j\<rparr>))\<rparr>"

theorem store_manifest_limits_witness:
  "\<exists>db'. store_manifest sample_manifest_serde sample_route_serde 7776000001 ''P1'' sample_snapshot
       \<lparr>snapshots = [\<lparr>ms_manifest_id = ''P0'', ms_response_json = ''v'', ms_fetched_at = 1, ms_manifest_date = ''''\<rparr>], snapshot_bags = []\<rparr> = Inr db'
     \<and> length (snapshots db') \<le> max_snapshots
     \<and> map (\<lambda>b. Some (mb_bag_id b)) (filter (\<lambda>b. mb_manifest_id b = ''P1'') (snapshot_bags db')) = [Some ''PID1'']
     \<and> map_option mr_url (get_manifest sample_manifest_serde 7776000009 ''P1'' db') = Some ''u''"
proof -
  let ?db = "\<lparr>snapshots = [\<lparr>ms_manifest_id = ''P0'', ms_response_json = ''v'', ms_fetched_at = 1, ms_manifest_date = ''''\<rparr>], snapshot_bags = []\<rparr>"
  have "eq_ignore_ascii_case ''p1'' ''P1''" by code_simp
  then obtain db' where run: "store_manifest sample_manifest_serde sample_route_serde 7776000001 ''P1'' sample_snapshot ?db = Inr db'"
    by (simp add: store_manifest_def sample_snapshot_def sample_item_def sample_manifest_serde_def sample_route_serde_def)
  have "manifest_db_ok ?db" by (simp add: manifest_db_ok_def)
  from store_manifest_limits [OF this _ run, of "''u''" 7776000009] run show ?thesis
    by (simp add: sample_manifest_serde_def) (simp add: sample_snapshot_def sample_item_def)
qed

end
