(* ===== verification/Backpressure.thy ===== *)
theory Backpressure
  imports CoreTypes
begin

text \<open>
  The queue in front of the upstream (\<open>upstream_backpressure.rs\<close>): a semaphore of
  \<open>max_concurrent\<close> permits and an atomic counter of the callers that wait for one,
  which two compare-and-swap loops move up and down.  Callers run concurrently; a
  step is one atomic operation of one caller.  What tokio's semaphore answers, and
  whether a caller is cancelled while it waits, is the environment's choice.
\<close>

datatype backpressure_error = Queue_Full nat | Limiter_Unavailable | Acquire_Timeout

datatype try_acquire = Try_Permit | Try_Closed | Try_No_Permits

datatype wait_outcome = Wait_Permit | Wait_Closed | Wait_Timeout

text \<open>
  Where a caller of \<open>acquire\<close> stands: before it, about to load the counter, with a
  loaded value before the compare-and-swap of \<open>increment_waiter\<close>, waiting with a
  queue depth, in \<open>decrement_waiter\<close> with the outcome of the wait (none when the
  call was dropped), and returned.
\<close>

datatype acquire_phase =
    Not_Called
  | Incrementing_Load
  | Incrementing nat
  | Queued nat
  | Decrementing_Load "wait_outcome option"
  | Decrementing nat "wait_outcome option"
  | Returned "(backpressure_error + unit) option"

text \<open>\<open>try_acquire_owned\<close>.\<close>

fun after_try :: "try_acquire \<Rightarrow> acquire_phase" where
  "after_try Try_Permit = Returned (Some (Inr ()))"
| "after_try Try_Closed = Returned (Some (Inl Limiter_Unavailable))"
| "after_try Try_No_Permits = Incrementing_Load"

text \<open>One turn of the loop in \<open>increment_waiter\<close>: the counter and the phase after it.\<close>

definition increment_turn :: "nat \<Rightarrow> nat \<Rightarrow> nat \<Rightarrow> nat \<times> acquire_phase" where
  "increment_turn max_queued waiters current =
     (if max_queued \<le> current then (waiters, Returned (Some (Inl (Queue_Full current))))
      else if waiters = current then (Suc current, Queued (Suc current))
      else (waiters, Incrementing waiters))"

text \<open>What \<open>acquire\<close> returns after the wait, once the guard has left the queue.\<close>

fun after_wait :: "wait_outcome \<Rightarrow> backpressure_error + unit" where
  "after_wait Wait_Permit = Inr ()"
| "after_wait Wait_Closed = Inl Limiter_Unavailable"
| "after_wait Wait_Timeout = Inl Acquire_Timeout"

text \<open>One turn of the loop in \<open>decrement_waiter\<close>, with \<open>checked_sub\<close>.\<close>

definition decrement_turn ::
  "nat \<Rightarrow> nat \<Rightarrow> wait_outcome option \<Rightarrow> nat \<times> acquire_phase" where
  "decrement_turn waiters current result =
     (if current = 0 then (waiters, Returned (map_option after_wait result))
      else if waiters = current then (current - 1, Returned (map_option after_wait result))
      else (waiters, Decrementing waiters result))"

record backpressure =
  bp_waiters :: nat
  bp_max_concurrent :: nat
  bp_max_queued :: nat
  bp_callers :: "nat \<Rightarrow> acquire_phase"

definition with_limits :: "nat \<Rightarrow> nat \<Rightarrow> backpressure" where
  "with_limits max_concurrent max_queued =
     \<lparr>bp_waiters = 0, bp_max_concurrent = max_concurrent, bp_max_queued = max_queued, bp_callers = (\<lambda>_. Not_Called)\<rparr>"

text \<open>\<open>default\<close>, \<open>http_ingress_default\<close>, \<open>public_default\<close> and \<open>contact_default\<close>.\<close>

definition upstream_default :: backpressure where "upstream_default = with_limits 30 300"
definition http_ingress_default :: backpressure where "http_ingress_default = with_limits 128 512"
definition public_default :: backpressure where "public_default = with_limits 24 240"
definition contact_default :: backpressure where "contact_default = with_limits 15 150"

record backpressure_snapshot =
  bs_active :: nat
  bs_available :: nat
  bs_queued :: nat
  bs_max_concurrent :: nat
  bs_max_queued :: nat

definition bp_snapshot :: "nat \<Rightarrow> backpressure \<Rightarrow> backpressure_snapshot" where
  "bp_snapshot available s =
     \<lparr>bs_active = bp_max_concurrent s - available, bs_available = available, bs_queued = bp_waiters s,
      bs_max_concurrent = bp_max_concurrent s, bs_max_queued = bp_max_queued s\<rparr>"

definition set_caller :: "nat \<Rightarrow> nat \<times> acquire_phase \<Rightarrow> backpressure \<Rightarrow> backpressure" where
  "set_caller c u s = s\<lparr>bp_waiters := fst u, bp_callers := (bp_callers s)(c := snd u)\<rparr>"

inductive acquire_step :: "nat \<Rightarrow> backpressure \<Rightarrow> backpressure \<Rightarrow> bool" where
  Try: "bp_callers s c = Not_Called \<Longrightarrow> acquire_step c s (set_caller c (bp_waiters s, after_try outcome) s)"
| Load_Up: "bp_callers s c = Incrementing_Load
    \<Longrightarrow> acquire_step c s (set_caller c (bp_waiters s, Incrementing (bp_waiters s)) s)"
| Up: "bp_callers s c = Incrementing current
    \<Longrightarrow> acquire_step c s (set_caller c (increment_turn (bp_max_queued s) (bp_waiters s) current) s)"
| Wait_Ends: "bp_callers s c = Queued depth
    \<Longrightarrow> acquire_step c s (set_caller c (bp_waiters s, Decrementing_Load (Some outcome)) s)"
| Dropped: "bp_callers s c = Queued depth
    \<Longrightarrow> acquire_step c s (set_caller c (bp_waiters s, Decrementing_Load None) s)"
| Load_Down: "bp_callers s c = Decrementing_Load result
    \<Longrightarrow> acquire_step c s (set_caller c (bp_waiters s, Decrementing (bp_waiters s) result) s)"
| Down: "bp_callers s c = Decrementing current result
    \<Longrightarrow> acquire_step c s (set_caller c (decrement_turn (bp_waiters s) current result) s)"

inductive acquire_reachable :: "backpressure \<Rightarrow> backpressure \<Rightarrow> bool" for s0 where
  Start: "acquire_reachable s0 s0"
| Step: "acquire_reachable s0 s \<Longrightarrow> acquire_step c s s' \<Longrightarrow> acquire_reachable s0 s'"

subsection \<open>The abstract queue\<close>

text \<open>The contract: a set of queued callers, entered while there is room, left at any time.\<close>

inductive queue_step :: "nat \<Rightarrow> nat set \<Rightarrow> nat set \<Rightarrow> bool" where
  Stutter: "queue_step limit q q"
| Enter: "c \<notin> q \<Longrightarrow> card q < limit \<Longrightarrow> queue_step limit q (insert c q)"
| Leave: "c \<in> q \<Longrightarrow> queue_step limit q (q - {c})"

fun in_queue :: "acquire_phase \<Rightarrow> bool" where
  "in_queue (Queued _) \<longleftrightarrow> True"
| "in_queue (Decrementing_Load _) \<longleftrightarrow> True"
| "in_queue (Decrementing _ _) \<longleftrightarrow> True"
| "in_queue _ \<longleftrightarrow> False"

definition abs_queue :: "backpressure \<Rightarrow> nat set" where
  "abs_queue s = {c. in_queue (bp_callers s c)}"

text \<open>
  The invariant: the counter is the size of the abstract queue, which fits the limit,
  and values loaded and not used yet are no larger than the limit, positive for a
  caller that leaves.
\<close>

definition backpressure_inv :: "backpressure \<Rightarrow> bool" where
  "backpressure_inv s \<longleftrightarrow>
     finite (abs_queue s) \<and> bp_waiters s = card (abs_queue s) \<and> bp_waiters s \<le> bp_max_queued s
   \<and> (\<forall>c current. bp_callers s c = Incrementing current \<longrightarrow> current \<le> bp_max_queued s)
   \<and> (\<forall>c current result. bp_callers s c = Decrementing current result \<longrightarrow> 0 < current)
   \<and> (\<forall>c depth. bp_callers s c = Queued depth \<longrightarrow> 0 < depth \<and> depth \<le> bp_max_queued s)
   \<and> (\<forall>c depth. bp_callers s c = Returned (Some (Inl (Queue_Full depth))) \<longrightarrow> depth = bp_max_queued s)"

lemma abs_queue_set_caller:
  "abs_queue (set_caller c u s) = (if in_queue (snd u) then insert c (abs_queue s) else abs_queue s - {c})"
  by (auto simp: abs_queue_def set_caller_def)

lemma set_caller_simps [simp]:
  "bp_waiters (set_caller c u s) = fst u" "bp_max_queued (set_caller c u s) = bp_max_queued s"
  "bp_max_concurrent (set_caller c u s) = bp_max_concurrent s"
  "bp_callers (set_caller c u s) = (bp_callers s)(c := snd u)"
  by (simp_all add: set_caller_def)

lemma in_abs_queue [simp]: "c \<in> abs_queue s \<longleftrightarrow> in_queue (bp_callers s c)"
  by (simp add: abs_queue_def)

lemma after_wait_not_full [simp]: "after_wait w \<noteq> Inl (Queue_Full d)"
  by (cases w) simp_all

text \<open>A queued caller makes the counter positive.\<close>

lemma queued_waiters: "backpressure_inv s \<Longrightarrow> in_queue (bp_callers s c) \<Longrightarrow> 0 < bp_waiters s"
  by (metis backpressure_inv_def card_gt_0_iff empty_iff in_abs_queue)

lemma acquire_step_inv:
  assumes "acquire_step c s s'" "backpressure_inv s"
  shows "backpressure_inv s' \<and> queue_step (bp_max_queued s) (abs_queue s) (abs_queue s') \<and> bp_max_queued s' = bp_max_queued s"
  using assms
proof (induction rule: acquire_step.induct)
  case (Try s c outcome)
  then have "abs_queue s - {c} = abs_queue s" by auto
  with Try show ?case
    by (cases outcome) (auto simp: backpressure_inv_def abs_queue_set_caller intro: queue_step.intros)
next
  case (Load_Up s c)
  then have "abs_queue s - {c} = abs_queue s" by auto
  with Load_Up show ?case by (auto simp: backpressure_inv_def abs_queue_set_caller intro: queue_step.intros)
next
  case (Up s c current)
  then have out: "abs_queue s - {c} = abs_queue s" "c \<notin> abs_queue s" by auto
  show ?case
  proof (cases "bp_max_queued s \<le> current")
    case True
    moreover have "current \<le> bp_max_queued s" using Up unfolding backpressure_inv_def by blast
    ultimately have "current = bp_max_queued s" by (rule le_antisym [rotated])
    with Up out show ?thesis
      by (auto simp: backpressure_inv_def abs_queue_set_caller increment_turn_def intro: queue_step.intros)
  next
    case False
    with Up out show ?thesis
      by (auto simp: backpressure_inv_def abs_queue_set_caller increment_turn_def intro: queue_step.intros)
  qed
next
  case (Wait_Ends s c depth outcome)
  then have "insert c (abs_queue s) = abs_queue s" by auto
  with Wait_Ends show ?case by (auto simp: backpressure_inv_def abs_queue_set_caller intro: queue_step.intros)
next
  case (Dropped s c depth)
  then have "insert c (abs_queue s) = abs_queue s" by auto
  with Dropped show ?case by (auto simp: backpressure_inv_def abs_queue_set_caller intro: queue_step.intros)
next
  case (Load_Down s c result)
  then have "insert c (abs_queue s) = abs_queue s" "0 < bp_waiters s" using queued_waiters [of s c] by auto
  with Load_Down show ?case by (auto simp: backpressure_inv_def abs_queue_set_caller intro: queue_step.intros)
next
  case (Down s c current result)
  then have pos: "insert c (abs_queue s) = abs_queue s" "0 < bp_waiters s" "c \<in> abs_queue s"
    using queued_waiters [of s c] by auto
  have "0 < current" using Down unfolding backpressure_inv_def by blast
  note pos = pos this
  show ?case
  proof (cases "bp_waiters s = current")
    case True
    then have "decrement_turn (bp_waiters s) current result = (current - 1, Returned (map_option after_wait result))"
      using pos by (simp add: decrement_turn_def)
    then show ?thesis using Down pos True by (auto simp: backpressure_inv_def abs_queue_set_caller intro: queue_step.intros)
  next
    case False
    then have "decrement_turn (bp_waiters s) current result = (bp_waiters s, Decrementing (bp_waiters s) result)"
      using pos by (simp add: decrement_turn_def)
    then show ?thesis using Down pos by (auto simp: backpressure_inv_def abs_queue_set_caller intro: queue_step.intros)
  qed
qed

lemma with_limits_inv: "backpressure_inv (with_limits n m)"
  by (simp add: backpressure_inv_def with_limits_def abs_queue_def)

lemma acquire_reachable_inv:
  assumes "acquire_reachable (with_limits n m) s"
  shows "backpressure_inv s \<and> bp_max_queued s = m \<and> (queue_step m)\<^sup>*\<^sup>* {} (abs_queue s)"
  using assms
proof (induction rule: acquire_reachable.induct)
  case Start
  then show ?case using with_limits_inv by (simp add: with_limits_def abs_queue_def)
next
  case (Step s c s')
  then show ?case using acquire_step_inv [of c s s'] by (auto intro: rtranclp.rtrancl_into_rtrancl)
qed

text \<open>
  \<open>C15.\<close> The two compare-and-swap loops implement an atomic bounded queue: under any
  interleaving of callers, including those whose wait ends by a permit, a closed
  limiter, a timeout or by being dropped, each atomic step leaves the set of queued
  callers alone, adds one while there is room, or removes one; the counter is always
  the size of that set and never exceeds the limit; and a caller turned away with
  \<open>QueueFull\<close> is told a depth that is exactly the limit.
\<close>

theorem backpressure_refines_queue:
  assumes "acquire_reachable (with_limits max_concurrent max_queued) s"
  shows "bp_waiters s = card (abs_queue s) \<and> bp_waiters s \<le> max_queued
    \<and> (queue_step max_queued)\<^sup>*\<^sup>* {} (abs_queue s)
    \<and> (\<forall>c s'. acquire_step c s s' \<longrightarrow> queue_step max_queued (abs_queue s) (abs_queue s'))
    \<and> (\<forall>c depth. bp_callers s c = Returned (Some (Inl (Queue_Full depth))) \<longrightarrow> depth = max_queued)"
  using acquire_reachable_inv [OF assms] acquire_step_inv [of _ s] by (auto simp: backpressure_inv_def)

text \<open>Two callers on a queue of one place.\<close>

lemma one_place_run:
  "\<exists>s. acquire_reachable (with_limits 1 1) s \<and> bp_callers s 0 = Queued 1
     \<and> bp_callers s 1 = Returned (Some (Inl (Queue_Full 1)))"
proof -
  let ?s1 = "set_caller 0 (0, Incrementing_Load) (with_limits 1 1)"
  let ?s2 = "set_caller 0 (0, Incrementing 0) ?s1"
  let ?s3 = "set_caller 0 (1, Queued 1) ?s2"
  let ?s4 = "set_caller 1 (1, Incrementing_Load) ?s3"
  let ?s5 = "set_caller 1 (1, Incrementing 1) ?s4"
  let ?s6 = "set_caller 1 (1, Returned (Some (Inl (Queue_Full 1)))) ?s5"
  have "acquire_step 0 (with_limits 1 1) ?s1"
    using Try [of "with_limits 1 1" 0 Try_No_Permits] by (simp add: with_limits_def)
  note r = Step [OF Start this]
  have "acquire_step 0 ?s1 ?s2" using Load_Up [of ?s1 0] by (simp add: with_limits_def)
  note r = Step [OF r this]
  have "acquire_step 0 ?s2 ?s3" using Up [of ?s2 0 0] by (simp add: with_limits_def increment_turn_def)
  note r = Step [OF r this]
  have "acquire_step 1 ?s3 ?s4" using Try [of ?s3 1 Try_No_Permits] by (simp add: with_limits_def)
  note r = Step [OF r this]
  have "acquire_step 1 ?s4 ?s5" using Load_Up [of ?s4 1] by (simp add: with_limits_def)
  note r = Step [OF r this]
  have "acquire_step 1 ?s5 ?s6" using Up [of ?s5 1 1] by (simp add: with_limits_def increment_turn_def)
  note r = Step [OF r this]
  from r show ?thesis by (intro exI [of _ ?s6]) simp
qed

theorem backpressure_refines_queue_witness:
  "\<exists>s. acquire_reachable (with_limits 1 1) s \<and> 0 \<in> abs_queue s \<and> bp_waiters s = card (abs_queue s) \<and> bp_waiters s = 1
     \<and> bp_callers s 1 = Returned (Some (Inl (Queue_Full 1)))"
proof -
  obtain s where s: "acquire_reachable (with_limits 1 1) s" "bp_callers s 0 = Queued 1"
    "bp_callers s 1 = Returned (Some (Inl (Queue_Full 1)))" using one_place_run by blast
  note refined = backpressure_refines_queue [OF s(1)]
  have "0 \<in> abs_queue s" using s(2) by simp
  moreover have "0 < bp_waiters s"
    using queued_waiters [of s 0] acquire_reachable_inv [OF s(1)] s(2) by simp
  moreover have "bp_waiters s \<le> 1" "bp_waiters s = card (abs_queue s)" using refined by blast+
  ultimately have "bp_waiters s = 1" by linarith
  with s \<open>0 \<in> abs_queue s\<close> \<open>bp_waiters s = card (abs_queue s)\<close> show ?thesis by blast
qed

end
