(* ===== verification/Upstream.thy ===== *)
theory Upstream
  imports RustStrings CoreTypes
begin

text \<open>
  The upstream client (\<open>upstream.rs\<close>): lookup ids, the attempts of a request, how a
  response is read and which error it becomes, the addresses of the PID pages and of
  an external API, and the fallback to its older routes.  Parameters of the model:
  what a sent request answers (reqwest), the \<open>url\<close> and \<open>base64\<close> crates, serde, the
  page parsers, and the hash behind the jitter.
\<close>

abbreviation "max_lookup_id_length \<equiv> (64 :: nat)"
abbreviation "tracking_max_attempts \<equiv> (3 :: nat)"
abbreviation "tracking_retry_base_delay_ms \<equiv> (250 :: nat)"
abbreviation "tracking_retry_max_delay_ms \<equiv> (10000 :: nat)"
abbreviation "tracking_retry_after_max_secs \<equiv> (30 :: nat)"
abbreviation "max_upstream_response_bytes \<equiv> (8388608 :: nat)"
abbreviation "max_error_response_bytes \<equiv> (65536 :: nat)"
abbreviation "max_parsed_lookup_items \<equiv> (10000 :: nat)"

subsection \<open>Lookup ids\<close>

fun id_label :: "lookup_kind \<Rightarrow> string" where
  "id_label Lookup_Track = ''Shipment ID''"
| "id_label Lookup_Bag = ''Bag ID''"
| "id_label Lookup_Manifest = ''Manifest ID''"

text \<open>A byte of a longer character is not alphanumeric, so the bytes are tested.\<close>

definition lookup_id_char :: "char \<Rightarrow> bool" where
  "lookup_id_char c \<longleftrightarrow> is_ascii_alphanumeric c \<or> c = CHR ''-'' \<or> c = CHR ''.''"

definition normalize_lookup_id :: "string \<Rightarrow> lookup_kind \<Rightarrow> tracking_error + string" where
  "normalize_lookup_id input kind =
     (let trimmed = trim input; label = id_label kind
      in if trimmed = '''' then Inl (Bad_Request (label @ '' is required.''))
         else if max_lookup_id_length < length trimmed
         then Inl (Bad_Request (label @ '' exceeds '' @ show_nat max_lookup_id_length @ '' characters.''))
         else if list_ex (\<lambda>c. \<not> lookup_id_char c) trimmed
         then Inl (Bad_Request (label @ '' may only contain letters, numbers, hyphens, and periods.''))
         else Inr (to_ascii_uppercase trimmed))"

definition normalize_and_validate_shipment_id :: "string \<Rightarrow> tracking_error + string" where
  "normalize_and_validate_shipment_id input = normalize_lookup_id input Lookup_Track"

definition normalize_and_validate_bag_id :: "string \<Rightarrow> tracking_error + string" where
  "normalize_and_validate_bag_id input = normalize_lookup_id input Lookup_Bag"

definition normalize_and_validate_manifest_id :: "string \<Rightarrow> tracking_error + string" where
  "normalize_and_validate_manifest_id input = normalize_lookup_id input Lookup_Manifest"

subsection \<open>Responses\<close>

text \<open>
  A response: its status, the text of its \<open>Retry-After\<close> header, the announced length,
  and the chunks of its body as they arrive, or the error that ends them.
\<close>

record http_response =
  hr_status :: nat
  hr_retry_after :: "string option"
  hr_content_length :: "nat option"
  hr_chunks :: "(string + string) list"

datatype send_error_kind = Connect_Error | Timeout_Error | Other_Error

text \<open>An error of reqwest: its kind, its text, and the texts of its chain of causes.\<close>

record send_error =
  se_kind :: send_error_kind
  se_message :: string
  se_causes :: "string list"

type_synonym send_result = "send_error + http_response"

definition format_request_error_details :: "send_error \<Rightarrow> string" where
  "format_request_error_details e =
     fold (\<lambda>cause message. if trim cause \<noteq> [] then message @ '': '' @ cause else message)
       (se_causes e) (se_message e)"

definition is_success :: "nat \<Rightarrow> bool" where
  "is_success status \<longleftrightarrow> 200 \<le> status \<and> status < 300"

definition is_retryable_status :: "nat \<Rightarrow> bool" where
  "is_retryable_status status \<longleftrightarrow> status = 429 \<or> 500 \<le> status \<and> status < 600"

definition limit_error :: "string \<Rightarrow> nat \<Rightarrow> tracking_error" where
  "limit_error label max_bytes = Upstream_Failure (label @ '' exceeds the '' @ show_nat max_bytes @ ''-byte response limit.'')"

fun read_chunks :: "nat \<Rightarrow> string \<Rightarrow> string \<Rightarrow> (string + string) list \<Rightarrow> tracking_error + string" where
  "read_chunks max_bytes label body [] = Inr body"
| "read_chunks max_bytes label body (Inl e # chunks) = Inl (Upstream_Failure (label @ '' could not be read: '' @ e))"
| "read_chunks max_bytes label body (Inr chunk # chunks) =
     (if max_bytes < saturating_add u64_max (length body) (length chunk) then Inl (limit_error label max_bytes)
      else read_chunks max_bytes label (body @ chunk) chunks)"

text \<open>The parameter \<open>utf8\<close> is the error of decoding, if there is one.\<close>

definition read_response_text_limited ::
  "(string \<Rightarrow> string option) \<Rightarrow> http_response \<Rightarrow> nat \<Rightarrow> string \<Rightarrow> tracking_error + string" where
  "read_response_text_limited utf8 response max_bytes label =
     (if (case hr_content_length response of None \<Rightarrow> False | Some n \<Rightarrow> max_bytes < n)
      then Inl (limit_error label max_bytes)
      else and_then (read_chunks max_bytes label '''' (hr_chunks response)) (\<lambda>body.
        case utf8 body of
          None \<Rightarrow> Inr body
        | Some e \<Rightarrow> Inl (Upstream_Failure (label @ '' is not valid UTF-8: '' @ e))))"

definition ensure_lookup_item_limit :: "string \<Rightarrow> nat \<Rightarrow> tracking_error + unit" where
  "ensure_lookup_item_limit label item_count =
     (if max_parsed_lookup_items < item_count
      then Inl (Upstream_Failure (label @ '' exceeds '' @ show_nat max_parsed_lookup_items @ '' parsed items.''))
      else Inr ())"

text \<open>\<open>status_text\<close> is how the \<open>http\<close> crate prints a status code.\<close>

definition tracking_error_from_http_status :: "(nat \<Rightarrow> string) \<Rightarrow> nat \<Rightarrow> string \<Rightarrow> tracking_error" where
  "tracking_error_from_http_status status_text status label =
     (let message = label @ '' returned HTTP '' @ status_text status @ ''.''
      in if status = 429 then Rate_Limited message
         else if status = 404 then Not_Found message
         else if status = 503 \<or> status = 504 then Service_Unavailable message
         else Upstream_Failure message)"

subsection \<open>Attempts\<close>

definition retry_after_delay :: "http_response \<Rightarrow> nat option" where
  "retry_after_delay response =
     map_option (\<lambda>seconds. 1000 * min seconds tracking_retry_after_max_secs)
       (Option.bind (hr_retry_after response) (\<lambda>v. parse_uint u64_max (trim v)))"

definition retry_backoff_delay :: "(string \<Rightarrow> nat \<Rightarrow> nat) \<Rightarrow> string \<Rightarrow> nat \<Rightarrow> nat" where
  "retry_backoff_delay hash request_url attempt =
     (let exponent = min (attempt - 1) 10;
          base_delay = min (saturating_mul u64_max tracking_retry_base_delay_ms (2 ^ exponent)) tracking_retry_max_delay_ms;
          jitter_ceiling = max (base_delay div 2) 1;
          jitter = hash request_url attempt mod jitter_ceiling
      in min (saturating_add u64_max base_delay jitter) tracking_retry_max_delay_ms)"

fun pos_send_error :: "send_error_kind \<Rightarrow> string \<Rightarrow> string" where
  "pos_send_error Connect_Error details =
     ''POS tracking upstream connection failed. Check DNS or internet access from ShipFlow Service. Details: '' @ details"
| "pos_send_error Timeout_Error details =
     ''POS tracking upstream timed out while waiting for a response. Details: '' @ details"
| "pos_send_error Other_Error details = ''POS tracking upstream request failed. Details: '' @ details"

text \<open>
  The loop over the attempts, given what each attempt's request answers: the result
  and the delays slept.  An attempt list that runs out is the code behind the loop.
\<close>

fun lookup_attempts ::
  "(string \<Rightarrow> nat \<Rightarrow> nat) \<Rightarrow> (nat \<Rightarrow> send_result) \<Rightarrow> string \<Rightarrow> nat list
   \<Rightarrow> (tracking_error + http_response) \<times> nat list" where
  "lookup_attempts hash send request_url [] = (Inl (Upstream_Failure ''Lookup request exhausted retries.''), [])"
| "lookup_attempts hash send request_url (attempt # attempts) =
     (let again = (\<lambda>retry_after.
            let delay = (case retry_after of None \<Rightarrow> retry_backoff_delay hash request_url attempt | Some d \<Rightarrow> d);
                (result, delays) = lookup_attempts hash send request_url attempts
            in (result, delay # delays))
      in case send attempt of
           Inr response \<Rightarrow>
             if is_success (hr_status response) then (Inr response, [])
             else if attempt = tracking_max_attempts \<or> \<not> is_retryable_status (hr_status response)
             then (Inr response, [])
             else again (retry_after_delay response)
         | Inl error \<Rightarrow>
             if attempt = tracking_max_attempts
             then (Inl (Upstream_Failure (pos_send_error (se_kind error) (format_request_error_details error))), [])
             else again None)"

definition fetch_lookup_response ::
  "(string \<Rightarrow> nat \<Rightarrow> nat) \<Rightarrow> (nat \<Rightarrow> send_result) \<Rightarrow> string \<Rightarrow> (tracking_error + http_response) \<times> nat list" where
  "fetch_lookup_response hash send request_url =
     lookup_attempts hash send request_url [1..<Suc tracking_max_attempts]"

fun external_send_error :: "send_error_kind \<Rightarrow> string \<Rightarrow> string" where
  "external_send_error Connect_Error details = ''External API connection failed. Details: '' @ details"
| "external_send_error Timeout_Error details = ''External API request timed out. Details: '' @ details"
| "external_send_error Other_Error details = ''External API request failed. Details: '' @ details"

text \<open>The loop for an external API; \<open>send\<close> is the hedged pair of requests of an attempt.\<close>

fun external_attempts ::
  "(nat \<Rightarrow> send_result) \<Rightarrow> nat list \<Rightarrow> (tracking_error + http_response) \<times> nat list" where
  "external_attempts send [] = (Inl (Upstream_Failure ''External API request exhausted retries.''), [])"
| "external_attempts send (attempt # attempts) =
     (let again = (let (result, delays) = external_attempts send attempts
                   in (result, tracking_retry_base_delay_ms * attempt # delays))
      in case send attempt of
           Inr response \<Rightarrow>
             if is_success (hr_status response) \<or> attempt = tracking_max_attempts
                \<or> \<not> is_retryable_status (hr_status response)
             then (Inr response, []) else again
         | Inl error \<Rightarrow>
             if attempt = tracking_max_attempts
             then (Inl (Upstream_Failure (external_send_error (se_kind error) (format_request_error_details error))), [])
             else again)"

definition fetch_external_api_response :: "(nat \<Rightarrow> send_result) \<Rightarrow> (tracking_error + http_response) \<times> nat list" where
  "fetch_external_api_response send = external_attempts send [1..<Suc tracking_max_attempts]"

subsection \<open>The PID pages\<close>

text \<open>\<open>str::replace\<close> of one character.\<close>

definition replace_char :: "char \<Rightarrow> string \<Rightarrow> string \<Rightarrow> string" where
  "replace_char c by s = concat (map (\<lambda>d. if d = c then by else [d]) s)"

definition build_encoded_pos_lookup_url :: "(string \<Rightarrow> string) \<Rightarrow> string \<Rightarrow> string \<Rightarrow> string" where
  "build_encoded_pos_lookup_url b64 base_url lookup_id =
     base_url @ ''?id='' @
       replace_char CHR ''='' ''%3D'' (replace_char CHR ''/'' ''%2F'' (replace_char CHR ''+'' ''%2B'' (b64 lookup_id)))"

definition build_tracking_url :: "(string \<Rightarrow> string) \<Rightarrow> string \<Rightarrow> string \<Rightarrow> string" where
  "build_tracking_url b64 base_url shipment_id = build_encoded_pos_lookup_url b64 base_url shipment_id"

definition build_lacak_mitra_tracking_url :: "string \<Rightarrow> string" where
  "build_lacak_mitra_tracking_url shipment_id =
     ''https://lacak-mitra.posindonesia.co.id/lacak_barcode.php?id='' @ shipment_id"

definition build_pos_bag_label_url :: "(string \<Rightarrow> string) \<Rightarrow> string \<Rightarrow> string" where
  "build_pos_bag_label_url b64 bag_id =
     ''https://apiexpos.mile.app/api/v1/print-bag?bag_id='' @ bag_id @ ''_5f9fae9b5fbe9d6e401ad0c5&oid=''
       @ b64 ''5f9fae9b5fbe9d6e401ad0c5''"

definition resolve_pos_href :: "string \<Rightarrow> string" where
  "resolve_pos_href raw =
     (let href = trim raw
      in if starts_with ''https://'' href \<or> starts_with ''http://'' href then href
         else if starts_with ''/'' href then ''https://pid.posindonesia.co.id'' @ href
         else ''https://pid.posindonesia.co.id/lacak/admin/'' @ href)"

text \<open>The environment of a scrape: the network per address and attempt, and the crates.\<close>

record upstream_env =
  ue_send :: "string \<Rightarrow> nat \<Rightarrow> send_result"
  ue_hash :: "string \<Rightarrow> nat \<Rightarrow> nat"
  ue_utf8 :: "string \<Rightarrow> string option"
  ue_b64 :: "string \<Rightarrow> string"
  ue_status_text :: "nat \<Rightarrow> string"

text \<open>The part the three scrapes share, up to the text of the page.\<close>

definition scrape_page :: "upstream_env \<Rightarrow> string \<Rightarrow> string \<Rightarrow> string \<Rightarrow> tracking_error + string" where
  "scrape_page ue request_url endpoint_label response_label =
     and_then (fst (fetch_lookup_response (ue_hash ue) (ue_send ue request_url) request_url)) (\<lambda>response.
       if \<not> is_success (hr_status response)
       then Inl (tracking_error_from_http_status (ue_status_text ue) (hr_status response) endpoint_label)
       else read_response_text_limited (ue_utf8 ue) response max_upstream_response_bytes response_label)"

definition scrape_pos_tracking ::
  "upstream_env \<Rightarrow> (string \<Rightarrow> string \<Rightarrow> tracking_error + 'r) \<Rightarrow> ('r \<Rightarrow> nat) \<Rightarrow> string \<Rightarrow> tracking_error + 'r" where
  "scrape_pos_tracking ue parse_tracking_html history_length shipment_id =
     and_then (normalize_and_validate_shipment_id shipment_id) (\<lambda>id.
     let request_url = build_tracking_url (ue_b64 ue) ''https://pid.posindonesia.co.id/lacak/admin/detail_lacak_banyak.php'' id
     in and_then (scrape_page ue request_url ''Tracking endpoint'' ''Tracking response'') (\<lambda>html.
        and_then (parse_tracking_html request_url html) (\<lambda>parsed.
        and_then (ensure_lookup_item_limit ''Tracking history'' (history_length parsed)) (\<lambda>_. Inr parsed))))"

definition scrape_pos_tracking_html :: "upstream_env \<Rightarrow> string \<Rightarrow> tracking_error + (string \<times> string)" where
  "scrape_pos_tracking_html ue shipment_id =
     and_then (normalize_and_validate_shipment_id shipment_id) (\<lambda>id.
     let request_url = build_tracking_url (ue_b64 ue) ''https://pid.posindonesia.co.id/lacak/admin/detail_lacak_banyak.php'' id
     in and_then (scrape_page ue request_url ''Tracking HTML endpoint'' ''Tracking HTML response'') (\<lambda>html.
        Inr (request_url, html)))"

definition upstream_result :: "string + 'r \<Rightarrow> tracking_error + 'r" where
  "upstream_result r = (case r of Inl e \<Rightarrow> Inl (Upstream_Failure e) | Inr v \<Rightarrow> Inr v)"

definition scrape_pos_bag ::
  "upstream_env \<Rightarrow> (string \<Rightarrow> string \<Rightarrow> string + 'r) \<Rightarrow> ('r \<Rightarrow> nat) \<Rightarrow> string \<Rightarrow> tracking_error + 'r" where
  "scrape_pos_bag ue parse_bag_html items_length bag_id =
     and_then (normalize_and_validate_bag_id bag_id) (\<lambda>id.
     let request_url = build_encoded_pos_lookup_url (ue_b64 ue) ''https://pid.posindonesia.co.id/lacak/admin/detail_lacak_banyak_bag.php'' id
     in and_then (scrape_page ue request_url ''Bag endpoint'' ''Bag response'') (\<lambda>html.
        and_then (upstream_result (parse_bag_html html request_url)) (\<lambda>parsed.
        and_then (ensure_lookup_item_limit ''Bag response'' (items_length parsed)) (\<lambda>_. Inr parsed))))"

definition scrape_pos_manifest ::
  "upstream_env \<Rightarrow> (string \<Rightarrow> string \<Rightarrow> string + 'r) \<Rightarrow> ('r \<Rightarrow> nat) \<Rightarrow> string \<Rightarrow> tracking_error + 'r" where
  "scrape_pos_manifest ue parse_manifest_html items_length manifest_id =
     and_then (normalize_and_validate_manifest_id manifest_id) (\<lambda>id.
     let request_url = build_encoded_pos_lookup_url (ue_b64 ue) ''https://pid.posindonesia.co.id/lacak/admin/GetManifestR7_detil.php'' id
     in and_then (scrape_page ue request_url ''Manifest endpoint'' ''Manifest response'') (\<lambda>html.
        and_then (upstream_result (parse_manifest_html html request_url)) (\<lambda>parsed.
        and_then (ensure_lookup_item_limit ''Manifest response'' (items_length parsed)) (\<lambda>_. Inr parsed))))"

text \<open>The label page is requested once, without retries, and read up to 512 KiB.\<close>

definition scrape_pos_bag_route ::
  "upstream_env \<Rightarrow> (string \<Rightarrow> string \<Rightarrow> string \<Rightarrow> string + 'r) \<Rightarrow> string \<Rightarrow> tracking_error + 'r" where
  "scrape_pos_bag_route ue parse_bag_route_html bag_id =
     and_then (normalize_and_validate_bag_id bag_id) (\<lambda>id.
     let request_url = build_pos_bag_label_url (ue_b64 ue) id
     in case ue_send ue request_url 1 of
          Inl error \<Rightarrow> Inl (Upstream_Failure (''Bag label request failed: '' @ se_message error))
        | Inr response \<Rightarrow>
            if \<not> is_success (hr_status response)
            then Inl (tracking_error_from_http_status (ue_status_text ue) (hr_status response) ''Bag label endpoint'')
            else and_then (read_response_text_limited (ue_utf8 ue) response 524288 ''Bag label response'') (\<lambda>html.
              upstream_result (parse_bag_route_html html id request_url)))"

subsection \<open>External API\<close>

text \<open>What the client uses of the \<open>url\<close> crate, and of serde for the API's bodies.\<close>

record 'u url_ops =
  url_parse :: "string \<Rightarrow> string + 'u"
  url_scheme :: "'u \<Rightarrow> string"
  url_username :: "'u \<Rightarrow> string"
  url_password :: "'u \<Rightarrow> string option"
  url_fragment :: "'u \<Rightarrow> string option"
  url_host :: "'u \<Rightarrow> string option"
  url_set_host :: "string \<Rightarrow> 'u \<Rightarrow> 'u option"
  url_path_segments :: "'u \<Rightarrow> string list option"
  url_set_path :: "string \<Rightarrow> 'u \<Rightarrow> 'u"
  url_clear_query :: "'u \<Rightarrow> 'u"
  url_clear_fragment :: "'u \<Rightarrow> 'u"
  url_join :: "'u \<Rightarrow> string \<Rightarrow> string + 'u"

definition trim_end_dots :: "string \<Rightarrow> string" where
  "trim_end_dots s = rev (dropWhile (\<lambda>c. c = CHR ''.'') (rev s))"

text \<open>The path segments to keep: a trailing \<open>v1\<close> or \<open>v1/openapi.json\<close> goes.\<close>

definition base_path_segments :: "string list \<Rightarrow> string list" where
  "base_path_segments raw =
     (let segments = filter (\<lambda>p. p \<noteq> '''') raw;
          final = (case rev segments of [] \<Rightarrow> None | p # _ \<Rightarrow> Some (to_ascii_lowercase p));
          previous = (case rev segments of _ # p # _ \<Rightarrow> Some (to_ascii_lowercase p) | _ \<Rightarrow> None)
      in if previous = Some ''v1'' \<and> final = Some ''openapi.json'' then take (length segments - 2) segments
         else if final = Some ''v1'' then take (length segments - 1) segments
         else segments)"

definition base_path :: "string list \<Rightarrow> string" where
  "base_path segments = (if segments = [] then ''/'' else ''/'' @ concat (map (\<lambda>p. p @ ''/'') segments))"

definition parse_external_api_base_url :: "'u url_ops \<Rightarrow> string \<Rightarrow> bool \<Rightarrow> tracking_error + 'u" where
  "parse_external_api_base_url u base_url allow_insecure_http =
     (let trimmed = trim base_url
      in if trimmed = '''' then Inl (Bad_Request ''External API base URL is required.'')
         else case url_parse u (if ends_with ''/'' trimmed then trimmed else trimmed @ ''/'') of
           Inl e \<Rightarrow> Inl (Bad_Request (''External API base URL is invalid: '' @ e))
         | Inr parsed \<Rightarrow>
           if url_scheme u parsed \<noteq> ''http'' \<and> url_scheme u parsed \<noteq> ''https''
           then Inl (Bad_Request ''External API base URL must use HTTP or HTTPS.'')
           else if url_username u parsed \<noteq> '''' \<or> url_password u parsed \<noteq> None \<or> url_fragment u parsed \<noteq> None
           then Inl (Bad_Request ''External API base URL cannot contain credentials or a fragment.'')
           else and_then
             (case url_host u parsed of
                None \<Rightarrow> Inr parsed
              | Some hostname \<Rightarrow>
                  let canonical = trim_end_dots hostname
                  in if canonical = '''' then Inl (Bad_Request ''External API base URL must include a hostname.'')
                     else if canonical \<noteq> hostname
                     then ok_or (Bad_Request ''External API base URL hostname could not be normalized.'')
                            (url_set_host u canonical parsed)
                     else Inr parsed)
             (\<lambda>parsed.
               if url_scheme u parsed = ''http'' \<and> \<not> allow_insecure_http
               then Inl (Bad_Request ''External API base URL must use HTTPS unless insecure HTTP is explicitly allowed.'')
               else
                 let segments = base_path_segments (case url_path_segments u parsed of None \<Rightarrow> [] | Some ps \<Rightarrow> ps)
                 in Inr (url_clear_fragment u (url_clear_query u (url_set_path u (base_path segments) parsed)))))"

definition external_api_base_url_prefers_v1_contract :: "'u url_ops \<Rightarrow> string \<Rightarrow> bool" where
  "external_api_base_url_prefers_v1_contract u base_url =
     (case url_parse u (trim base_url) of
        Inl _ \<Rightarrow> False
      | Inr url \<Rightarrow>
          (case url_path_segments u url of
             None \<Rightarrow> False
           | Some segments \<Rightarrow>
               list_ex (\<lambda>p. to_ascii_lowercase (trim p) = ''v1'' \<or> to_ascii_lowercase (trim p) = ''openapi.json'')
                 (filter (\<lambda>p. trim p \<noteq> '''') segments)))"

definition validate_tracking_source_config :: "'u url_ops \<Rightarrow> tracking_source_config \<Rightarrow> tracking_error + unit" where
  "validate_tracking_source_config u config =
     (if ts_tracking_source config \<noteq> Source_External_Api then Inr ()
      else and_then (parse_external_api_base_url u (ts_external_api_base_url config)
                       (ts_allow_insecure_external_api_http config)) (\<lambda>_.
        if trim (ts_external_api_auth_token config) = ''''
        then Inl (Bad_Request ''External API token is required.'') else Inr ()))"

fun external_api_lookup_route :: "lookup_kind \<Rightarrow> string" where
  "external_api_lookup_route Lookup_Track = ''track''"
| "external_api_lookup_route Lookup_Bag = ''bag''"
| "external_api_lookup_route Lookup_Manifest = ''manifest''"

definition build_external_api_lookup_url :: "'u url_ops \<Rightarrow> 'u \<Rightarrow> lookup_kind \<Rightarrow> string \<Rightarrow> bool \<Rightarrow> tracking_error + 'u" where
  "build_external_api_lookup_url u base_url kind lookup_id use_v1_contract =
     (let route_name = external_api_lookup_route kind;
          route = (if use_v1_contract then ''v1/'' else '''') @ route_name @ ''/'' @ lookup_id
      in case url_join u base_url route of
           Inr url \<Rightarrow> Inr url
         | Inl e \<Rightarrow> Inl (Bad_Request (''External API '' @ route_name @ '' URL is invalid: '' @ e)))"

text \<open>
  The message of an error response.  The parameter \<open>error_field\<close> is serde's reading
  of the body: the \<open>error\<close> member as a string, and its \<open>message\<close> member as a string.
\<close>

definition read_external_api_error_message ::
  "(nat \<Rightarrow> string) \<Rightarrow> (string \<Rightarrow> string option) \<Rightarrow> (string \<Rightarrow> string option \<times> string option) \<Rightarrow> http_response \<Rightarrow> string" where
  "read_external_api_error_message status_text utf8 error_field response =
     (let fallback = ''External API returned HTTP '' @ status_text (hr_status response) @ ''.'';
          non_blank = (\<lambda>m. case m of None \<Rightarrow> None | Some v \<Rightarrow> if trim v = '''' then None else Some (trim v))
      in case read_response_text_limited utf8 response max_error_response_bytes ''External API error response'' of
           Inl _ \<Rightarrow> fallback
         | Inr body \<Rightarrow>
             (case non_blank (fst (error_field body)) of
                Some m \<Rightarrow> m
              | None \<Rightarrow> (case non_blank (snd (error_field body)) of
                  Some m \<Rightarrow> m
                | None \<Rightarrow> if trim body = '''' then fallback else trim body)))"

definition external_status_error :: "(nat \<Rightarrow> string) \<Rightarrow> nat \<Rightarrow> string \<Rightarrow> tracking_error" where
  "external_status_error status_text status message =
     (if status = 400 then Bad_Request message
      else if status = 404 then Not_Found message
      else if status = 429 then Rate_Limited message
      else if status = 503 then Service_Unavailable message
      else Upstream_Failure (''External API returned HTTP '' @ status_text status @ '': '' @ message))"

record 'r external_env =
  xe_status_text :: "nat \<Rightarrow> string"
  xe_utf8 :: "string \<Rightarrow> string option"
  xe_error_field :: "string \<Rightarrow> string option \<times> string option"
  xe_parser :: "string \<Rightarrow> tracking_error + 'r"

definition read_external_api_json_response :: "'r external_env \<Rightarrow> http_response \<Rightarrow> tracking_error + 'r" where
  "read_external_api_json_response xe response =
     (if \<not> is_success (hr_status response)
      then Inl (external_status_error (xe_status_text xe) (hr_status response)
                  (read_external_api_error_message (xe_status_text xe) (xe_utf8 xe) (xe_error_field xe) response))
      else and_then (read_response_text_limited (xe_utf8 xe) response max_upstream_response_bytes ''External API response'')
             (xe_parser xe))"

text \<open>\<open>send url attempt\<close> is the hedged request of an attempt with the caller's token.\<close>

definition fetch_external_api_lookup ::
  "'u url_ops \<Rightarrow> 'r external_env \<Rightarrow> ('u \<Rightarrow> nat \<Rightarrow> send_result) \<Rightarrow> string \<Rightarrow> string \<Rightarrow> bool \<Rightarrow> lookup_kind \<Rightarrow> string
   \<Rightarrow> tracking_error + 'r" where
  "fetch_external_api_lookup u xe send base_url auth_token allow_insecure_http kind lookup_id =
     and_then (parse_external_api_base_url u base_url allow_insecure_http) (\<lambda>parsed.
     if trim auth_token = '''' then Inl (Bad_Request ''External API token is required.'')
     else and_then (build_external_api_lookup_url u parsed kind lookup_id True) (\<lambda>request_url.
       and_then (fst (fetch_external_api_response (send request_url))) (\<lambda>response.
         if hr_status response = 404 \<and> \<not> external_api_base_url_prefers_v1_contract u base_url
         then and_then (build_external_api_lookup_url u parsed kind lookup_id False) (\<lambda>legacy_url.
                and_then (fst (fetch_external_api_response (send legacy_url))) (read_external_api_json_response xe))
         else read_external_api_json_response xe response)))"

definition fetch_external_api_bag ::
  "'u url_ops \<Rightarrow> 'r external_env \<Rightarrow> ('u \<Rightarrow> nat \<Rightarrow> send_result) \<Rightarrow> string \<Rightarrow> string \<Rightarrow> bool \<Rightarrow> string \<Rightarrow> tracking_error + 'r" where
  "fetch_external_api_bag u xe send base_url auth_token allow_insecure_http bag_id =
     and_then (normalize_and_validate_bag_id bag_id)
       (fetch_external_api_lookup u xe send base_url auth_token allow_insecure_http Lookup_Bag)"

definition fetch_external_api_manifest ::
  "'u url_ops \<Rightarrow> 'r external_env \<Rightarrow> ('u \<Rightarrow> nat \<Rightarrow> send_result) \<Rightarrow> string \<Rightarrow> string \<Rightarrow> bool \<Rightarrow> string \<Rightarrow> tracking_error + 'r" where
  "fetch_external_api_manifest u xe send base_url auth_token allow_insecure_http manifest_id =
     and_then (normalize_and_validate_manifest_id manifest_id)
       (fetch_external_api_lookup u xe send base_url auth_token allow_insecure_http Lookup_Manifest)"

text \<open>The tracking request joins its addresses itself, with its own error text.\<close>

definition join_tracking_url :: "'u url_ops \<Rightarrow> 'u \<Rightarrow> string \<Rightarrow> tracking_error + 'u" where
  "join_tracking_url u base_url route =
     (case url_join u base_url route of
        Inr url \<Rightarrow> Inr url
      | Inl e \<Rightarrow> Inl (Bad_Request (''External API tracking URL is invalid: '' @ e)))"

definition fetch_external_api_tracking ::
  "'u url_ops \<Rightarrow> 'r external_env \<Rightarrow> ('u \<Rightarrow> nat \<Rightarrow> send_result) \<Rightarrow> string \<Rightarrow> string \<Rightarrow> bool \<Rightarrow> string \<Rightarrow> tracking_error + 'r" where
  "fetch_external_api_tracking u xe send base_url auth_token allow_insecure_http shipment_id =
     and_then (normalize_and_validate_shipment_id shipment_id) (\<lambda>id.
     and_then (parse_external_api_base_url u base_url allow_insecure_http) (\<lambda>parsed.
     if trim auth_token = '''' then Inl (Bad_Request ''External API token is required.'')
     else and_then (join_tracking_url u parsed (''v1/track/'' @ id)) (\<lambda>request_url.
       and_then (fst (fetch_external_api_response (send request_url))) (\<lambda>response.
         if hr_status response = 404 \<and> \<not> external_api_base_url_prefers_v1_contract u base_url
         then and_then (join_tracking_url u parsed (''track/'' @ id)) (\<lambda>legacy_url.
                and_then (fst (fetch_external_api_response (send legacy_url))) (read_external_api_json_response xe))
         else read_external_api_json_response xe response))))"

definition resolve_tracking_request ::
  "upstream_env \<Rightarrow> (string \<Rightarrow> string \<Rightarrow> tracking_error + 'r) \<Rightarrow> ('r \<Rightarrow> nat)
   \<Rightarrow> 'u url_ops \<Rightarrow> 'r external_env \<Rightarrow> ('u \<Rightarrow> nat \<Rightarrow> send_result) \<Rightarrow> tracking_source_config \<Rightarrow> string \<Rightarrow> tracking_error + 'r" where
  "resolve_tracking_request ue parse_html history_length u xe send config shipment_id =
     (case ts_tracking_source config of
        Source_Default \<Rightarrow> scrape_pos_tracking ue parse_html history_length shipment_id
      | Source_External_Api \<Rightarrow> fetch_external_api_tracking u xe send (ts_external_api_base_url config)
          (ts_external_api_auth_token config) (ts_allow_insecure_external_api_http config) shipment_id)"

definition resolve_tracking_html_request ::
  "upstream_env \<Rightarrow> tracking_source_config \<Rightarrow> string \<Rightarrow> tracking_error + (string \<times> string)" where
  "resolve_tracking_html_request ue config shipment_id =
     (case ts_tracking_source config of
        Source_Default \<Rightarrow> scrape_pos_tracking_html ue shipment_id
      | Source_External_Api \<Rightarrow>
          Inl (Bad_Request ''Raw tracking HTML is only available for the default POS scraper source.''))"

definition resolve_bag_request ::
  "upstream_env \<Rightarrow> (string \<Rightarrow> string \<Rightarrow> string + 'r) \<Rightarrow> ('r \<Rightarrow> nat)
   \<Rightarrow> 'u url_ops \<Rightarrow> 'r external_env \<Rightarrow> ('u \<Rightarrow> nat \<Rightarrow> send_result) \<Rightarrow> tracking_source_config \<Rightarrow> string \<Rightarrow> tracking_error + 'r" where
  "resolve_bag_request ue parse_html items_length u xe send config bag_id =
     (case ts_tracking_source config of
        Source_Default \<Rightarrow> scrape_pos_bag ue parse_html items_length bag_id
      | Source_External_Api \<Rightarrow>
          and_then (fetch_external_api_bag u xe send (ts_external_api_base_url config)
            (ts_external_api_auth_token config) (ts_allow_insecure_external_api_http config) bag_id) (\<lambda>response.
          and_then (ensure_lookup_item_limit ''External API bag response'' (items_length response)) (\<lambda>_. Inr response)))"

definition resolve_manifest_request ::
  "upstream_env \<Rightarrow> (string \<Rightarrow> string \<Rightarrow> string + 'r) \<Rightarrow> ('r \<Rightarrow> nat)
   \<Rightarrow> 'u url_ops \<Rightarrow> 'r external_env \<Rightarrow> ('u \<Rightarrow> nat \<Rightarrow> send_result) \<Rightarrow> tracking_source_config \<Rightarrow> string \<Rightarrow> tracking_error + 'r" where
  "resolve_manifest_request ue parse_html items_length u xe send config manifest_id =
     (case ts_tracking_source config of
        Source_Default \<Rightarrow> scrape_pos_manifest ue parse_html items_length manifest_id
      | Source_External_Api \<Rightarrow>
          and_then (fetch_external_api_manifest u xe send (ts_external_api_base_url config)
            (ts_external_api_auth_token config) (ts_allow_insecure_external_api_http config) manifest_id) (\<lambda>response.
          and_then (ensure_lookup_item_limit ''External API manifest response'' (items_length response)) (\<lambda>_. Inr response)))"

end
