(* ===== verification/UpstreamClaims.thy ===== *)
theory UpstreamClaims
  imports Upstream
begin

text \<open>
  Properties of the upstream client: the normal form of lookup ids, the attempts of a
  request and what they answer, and the size of what is read.
\<close>

subsection \<open>Lookup ids\<close>

definition lookup_id_ok :: "string \<Rightarrow> bool" where
  "lookup_id_ok lid \<longleftrightarrow> 1 \<le> length lid \<and> length lid \<le> max_lookup_id_length
     \<and> list_all (\<lambda>c. is_ascii_digit c \<or> is_ascii_uppercase c \<or> c = CHR ''-'' \<or> c = CHR ''.'') lid"

lemma lookup_id_char_upper [simp]: "lookup_id_char (ascii_upper c) \<longleftrightarrow> lookup_id_char c"
  by (auto simp: lookup_id_char_def ascii_upper_def char_eq_byte is_ascii_alphanumeric_def is_ascii_digit_def
      is_ascii_uppercase_def is_ascii_lowercase_def)

lemma upper_lookup_id_char:
  "lookup_id_char c \<Longrightarrow> is_ascii_digit (ascii_upper c) \<or> is_ascii_uppercase (ascii_upper c) \<or> ascii_upper c = CHR ''-'' \<or> ascii_upper c = CHR ''.''"
  by (auto simp: lookup_id_char_def ascii_upper_def is_ascii_alphanumeric_def is_ascii_digit_def
      is_ascii_uppercase_def is_ascii_lowercase_def)

lemma lookup_id_ascii: "lookup_id_char c \<Longrightarrow> byte c < 128 \<and> 32 < byte c"
  by (auto simp: lookup_id_char_def is_ascii_alphanumeric_def is_ascii_digit_def
      is_ascii_uppercase_def is_ascii_lowercase_def)

lemma lookup_id_ok_fixed:
  assumes "lookup_id_ok lid"
  shows "normalize_lookup_id lid kind = Inr lid"
proof -
  have all: "list_all lookup_id_char lid"
    using assms by (auto simp: lookup_id_ok_def list_all_iff lookup_id_char_def is_ascii_alphanumeric_def)
  then have "trim lid = lid"
    using assms by (intro trim_id trimmed_ascii) (auto simp: list_all_iff lookup_id_ascii lookup_id_ok_def)
  moreover have "to_ascii_uppercase lid = lid"
    using assms unfolding to_ascii_uppercase_def
    by (intro map_idI) (auto simp: lookup_id_ok_def list_all_iff ascii_upper_def is_ascii_digit_def
        is_ascii_uppercase_def is_ascii_lowercase_def)
  ultimately show ?thesis
    using assms all by (auto simp: normalize_lookup_id_def Let_def lookup_id_ok_def list_all_iff list_ex_iff)
qed

lemma normalize_lookup_id_ok: "normalize_lookup_id input kind = Inr lid \<Longrightarrow> lookup_id_ok lid \<and> lid = to_ascii_uppercase (trim input)"
  by (auto simp: normalize_lookup_id_def Let_def lookup_id_ok_def to_ascii_uppercase_def list_all_iff list_ex_iff
      Suc_le_eq split: if_splits) (metis upper_lookup_id_char)

text \<open>
  \<open>C32.\<close> An accepted lookup id has one of 1 to 64 characters, digits, upper-case ASCII
  letters, hyphens and periods only; exactly the ids of that form are accepted and
  left as they are, whatever the kind of the lookup, so normalising an accepted id
  again, for instance by a later layer, changes nothing.
\<close>

theorem lookup_ids_normal_form:
  "(lookup_id_ok lid \<longleftrightarrow> (\<exists>input kind. normalize_lookup_id input kind = Inr lid))
   \<and> (normalize_lookup_id lid kind = Inr lid \<longleftrightarrow> lookup_id_ok lid)"
  using lookup_id_ok_fixed normalize_lookup_id_ok by blast

subsection \<open>Attempts\<close>

definition worth_retrying :: "send_result \<Rightarrow> bool" where
  "worth_retrying r = (case r of Inl _ \<Rightarrow> True
     | Inr response \<Rightarrow> \<not> is_success (hr_status response) \<and> is_retryable_status (hr_status response))"

lemma retry_after_delay_le: "retry_after_delay response = Some d \<Longrightarrow> d \<le> 30000"
  by (auto simp: retry_after_delay_def)

lemma retry_backoff_delay_le: "retry_backoff_delay hash request_url attempt \<le> tracking_retry_max_delay_ms"
  by (simp add: retry_backoff_delay_def Let_def)

lemma lookup_attempts_spec:
  assumes "lookup_attempts hash send url [k..<4] = (result, delays)" "1 \<le> k" "k \<le> 3"
  shows "k + length delays \<le> 3 \<and> (\<forall>d \<in> set delays. d \<le> 30000)
    \<and> (\<forall>i < length delays. worth_retrying (send (k + i)))
    \<and> (case send (k + length delays) of
         Inr response \<Rightarrow> result = Inr response \<and> (k + length delays = 3 \<or> \<not> worth_retrying (Inr response))
       | Inl e \<Rightarrow> k + length delays = 3
           \<and> result = Inl (Upstream_Failure (pos_send_error (se_kind e) (format_request_error_details e))))"
  using assms
proof (induction "4 - k" arbitrary: k result delays)
  case (Suc n)
  then have upt: "[k..<4] = k # [Suc k..<4]" by (simp add: upt_conv_Cons)
  show ?case
  proof (cases "delays")
    case Nil
    with Suc.prems show ?thesis
      by (auto simp: upt worth_retrying_def Let_def split: sum.splits if_splits prod.splits)
  next
    case (Cons d ds)
    with Suc.prems have again: "worth_retrying (send k)" "k \<noteq> 3" "lookup_attempts hash send url [Suc k..<4] = (result, ds)"
      and d: "d = retry_backoff_delay hash url k \<or> (\<exists>response. retry_after_delay response = Some d)"
      by (auto simp: upt worth_retrying_def Let_def split: sum.splits if_splits prod.splits option.splits)
    have "d \<le> 30000"
      using d retry_after_delay_le retry_backoff_delay_le [of hash url k] by auto
    have "n = 4 - Suc k" "1 \<le> Suc k" "Suc k \<le> 3" using Suc.hyps(2) Suc.prems(2,3) again(2) by linarith+
    note IH = Suc.hyps(1) [OF this(1) again(3) this(2,3)]
    have len: "k + length (d # ds) = Suc k + length ds" by simp
    have "worth_retrying (send (k + i))" if "i < length (d # ds)" for i
      using IH again(1) that by (cases i) auto
    with IH \<open>d \<le> 30000\<close> show ?thesis unfolding Cons len by simp
  qed
qed simp

lemma fetch_lookup_response_spec:
  assumes "fetch_lookup_response hash send url = (result, delays)"
  shows "length delays \<le> 2 \<and> (\<forall>d \<in> set delays. d \<le> 30000)
    \<and> (\<forall>i < length delays. worth_retrying (send (Suc i)))
    \<and> (case send (Suc (length delays)) of
         Inr response \<Rightarrow> result = Inr response \<and> (length delays = 2 \<or> \<not> worth_retrying (Inr response))
       | Inl e \<Rightarrow> length delays = 2
           \<and> result = Inl (Upstream_Failure (pos_send_error (se_kind e) (format_request_error_details e))))"
proof -
  have "lookup_attempts hash send url [1..<4] = (result, delays)"
    using assms by (simp add: fetch_lookup_response_def)
  from lookup_attempts_spec [OF this] show ?thesis by (auto split: sum.splits)
qed


text \<open>A busy server that asks to wait two minutes, then answers.\<close>

definition busy_then_ok :: "nat \<Rightarrow> send_result" where
  "busy_then_ok attempt = Inr (if attempt = 1
     then \<lparr>hr_status = 503, hr_retry_after = Some '' 120 '', hr_content_length = None, hr_chunks = []\<rparr>
     else \<lparr>hr_status = 200, hr_retry_after = None, hr_content_length = None, hr_chunks = [Inr ''ok'']\<rparr>)"

lemma busy_delay: "retry_after_delay \<lparr>hr_status = 503, hr_retry_after = Some '' 120 '', hr_content_length = None, hr_chunks = []\<rparr> = Some 30000"
proof -
  have "trim '' 120 '' = ''120''" by code_simp
  then show ?thesis
    by (simp add: retry_after_delay_def parse_uint_def is_ascii_digit_def digits_val_def)
qed


text \<open>
  The loop for an external API is the same policy with other waits: whatever the
  requests answer, it sends as many of them as the loop for the PID pages and returns
  the same response, or an error exactly when that one does.
\<close>

theorem external_attempts_equivalent:
  "length (snd (fetch_external_api_response send)) = length (snd (fetch_lookup_response hash send url))
   \<and> (\<forall>response. fst (fetch_external_api_response send) = Inr response
        \<longleftrightarrow> fst (fetch_lookup_response hash send url) = Inr response)"
proof -
  have "length (snd (external_attempts send attempts)) = length (snd (lookup_attempts hash send url attempts))
   \<and> (\<forall>response. fst (external_attempts send attempts) = Inr response
        \<longleftrightarrow> fst (lookup_attempts hash send url attempts) = Inr response)" for attempts
    by (induction attempts) (auto simp: Let_def split: sum.split prod.split)
  then show ?thesis by (simp add: fetch_external_api_response_def fetch_lookup_response_def)
qed

end
