(* ===== verification/ServiceConfig.thy ===== *)
theory ServiceConfig
  imports Upstream
begin

text \<open>
  The configuration of the service: its limits (\<open>runtime_options.rs\<close>) and the
  addresses and tokens it starts with (\<open>model.rs\<close>).  Whether a path is absolute is
  asked of the standard library's parameter \<open>is_absolute\<close>.
\<close>

record runtime_options =
  require_persistence :: bool
  data_directory :: "string option"
  config_id :: string
  http_concurrency :: nat
  http_queue :: nat
  lookup_concurrency :: nat
  public_concurrency :: nat
  lookup_queue :: nat
  contact_concurrency :: nat
  track_ttl_seconds :: nat
  bag_ttl_seconds :: nat
  manifest_ttl_seconds :: nat
  cache_entries :: nat
  cache_mib :: nat
  persistent_entries :: nat

definition default_runtime_options :: runtime_options where
  "default_runtime_options =
     \<lparr>require_persistence = False, data_directory = None, config_id = '''', http_concurrency = 128, http_queue = 512,
      lookup_concurrency = 30, public_concurrency = 24, lookup_queue = 240, contact_concurrency = 15,
      track_ttl_seconds = 30, bag_ttl_seconds = 60, manifest_ttl_seconds = 90, cache_entries = 10000,
      cache_mib = 128, persistent_entries = 2000\<rparr>"

definition option_limits :: "runtime_options \<Rightarrow> (string \<times> nat \<times> nat) list" where
  "option_limits opts =
     [(''httpConcurrency'', http_concurrency opts, 512), (''httpQueue'', http_queue opts, 4096),
      (''lookupConcurrency'', lookup_concurrency opts, 100), (''publicConcurrency'', public_concurrency opts, 100),
      (''lookupQueue'', lookup_queue opts, 2000), (''contactConcurrency'', contact_concurrency opts, 50),
      (''cacheEntries'', cache_entries opts, 100000), (''cacheMiB'', cache_mib opts, 1024),
      (''persistentEntries'', persistent_entries opts, 100000)]"

fun check_limits :: "(string \<times> nat \<times> nat) list \<Rightarrow> string + unit" where
  "check_limits [] = Inr ()"
| "check_limits ((name, v, limit) # rest) =
     (if v = 0 \<or> limit < v then Inl (name @ '' must be between 1 and '' @ show_nat limit @ ''.'') else check_limits rest)"

fun check_ttls :: "nat list \<Rightarrow> string + unit" where
  "check_ttls [] = Inr ()"
| "check_ttls (ttl # rest) =
     (if \<not> (1 \<le> ttl \<and> ttl \<le> 86400) then Inl ''Cache TTL must be between 1 and 86400 seconds.'' else check_ttls rest)"

definition validate_runtime_options :: "(string \<Rightarrow> bool) \<Rightarrow> runtime_options \<Rightarrow> string + unit" where
  "validate_runtime_options is_absolute opts =
     and_then (check_limits (option_limits opts)) (\<lambda>_.
     if lookup_concurrency opts < public_concurrency opts \<or> http_concurrency opts < public_concurrency opts
     then Inl ''Public concurrency must fit both HTTP and upstream concurrency.''
     else and_then (check_ttls [track_ttl_seconds opts, bag_ttl_seconds opts, manifest_ttl_seconds opts]) (\<lambda>_.
     if require_persistence opts \<and> (case data_directory opts of None \<Rightarrow> True | Some p \<Rightarrow> \<not> is_absolute p)
     then Inl ''An absolute dataDirectory is required for persistent service mode.''
     else if 128 < length (config_id opts) then Inl ''Invalid configuration identity.''
     else Inr ()))"

datatype service_runtime_mode = Mode_Local | Mode_Lan

fun bind_address_label :: "service_runtime_mode \<Rightarrow> string" where
  "bind_address_label Mode_Local = ''127.0.0.1''"
| "bind_address_label Mode_Lan = ''0.0.0.0''"

record service_runtime_config =
  sr_mode :: service_runtime_mode
  sr_port :: nat
  sr_auth_token :: string
  sr_internal_auth_token :: string
  sr_internal_ipc_endpoint :: "string option"
  sr_tracking_source :: tracking_source_config

definition validate_service_runtime_config :: "'u url_ops \<Rightarrow> service_runtime_config \<Rightarrow> string + unit" where
  "validate_service_runtime_config u config =
     (if trim (sr_auth_token config) = '''' then Inl ''Auth token is required before enabling API service.''
      else if sr_internal_ipc_endpoint config \<noteq> None \<and> trim (sr_internal_auth_token config) = ''''
      then Inl ''Internal IPC token is required when the IPC endpoint is enabled.''
      else case validate_tracking_source_config u (sr_tracking_source config) of
        Inl e \<Rightarrow> Inl (error_text e)
      | Inr _ \<Rightarrow>
          if sr_port config = 0
          then Inl (''Unable to start API service on '' @ bind_address_label (sr_mode config) @ '':'' @ show_nat (sr_port config)
                    @ '': invalid port.'')
          else Inr ())"

subsection \<open>What a valid configuration is\<close>

lemma check_limits_Inr: "check_limits ls = Inr () \<longleftrightarrow> (\<forall>(name, v, limit) \<in> set ls. 1 \<le> v \<and> v \<le> limit)"
  by (induction ls rule: check_limits.induct) auto

lemma check_ttls_Inr: "check_ttls ttls = Inr () \<longleftrightarrow> (\<forall>ttl \<in> set ttls. 1 \<le> ttl \<and> ttl \<le> 86400)"
  by (induction ttls) auto

definition valid_runtime_options :: "(string \<Rightarrow> bool) \<Rightarrow> runtime_options \<Rightarrow> bool" where
  "valid_runtime_options is_absolute opts \<longleftrightarrow>
     {http_concurrency opts, http_queue opts, lookup_concurrency opts, public_concurrency opts, lookup_queue opts,
      contact_concurrency opts, cache_entries opts, cache_mib opts, persistent_entries opts} \<subseteq> {1..}
   \<and> http_concurrency opts \<le> 512 \<and> http_queue opts \<le> 4096 \<and> lookup_concurrency opts \<le> 100
   \<and> public_concurrency opts \<le> min (lookup_concurrency opts) (http_concurrency opts)
   \<and> lookup_queue opts \<le> 2000 \<and> contact_concurrency opts \<le> 50
   \<and> cache_entries opts \<le> 100000 \<and> cache_mib opts \<le> 1024 \<and> persistent_entries opts \<le> 100000
   \<and> {track_ttl_seconds opts, bag_ttl_seconds opts, manifest_ttl_seconds opts} \<subseteq> {1..86400}
   \<and> (if require_persistence opts then \<exists>p. data_directory opts = Some p \<and> is_absolute p else True)
   \<and> length (config_id opts) \<le> 128"

text \<open>
  The sequence of early returns in \<open>validate\<close> accepts exactly the options of the
  declarative specification: every limit is positive and below its maximum, the
  public pool fits in both the HTTP and the lookup pool, the TTLs are between a second
  and a day, required persistence names an absolute directory and the identity fits;
  the defaults are valid.
\<close>

theorem validate_runtime_options_equiv:
  "(validate_runtime_options is_absolute opts = Inr () \<longleftrightarrow> valid_runtime_options is_absolute opts)
   \<and> valid_runtime_options is_absolute default_runtime_options"
proof -
  have "and_then r f = Inr () \<longleftrightarrow> r = Inr () \<and> f () = Inr ()" for r :: "string + unit" and f
    by (cases r) auto
  then have "validate_runtime_options is_absolute opts = Inr () \<longleftrightarrow> valid_runtime_options is_absolute opts"
    unfolding validate_runtime_options_def valid_runtime_options_def
    by (auto simp: check_limits_Inr check_ttls_Inr option_limits_def Suc_le_eq split: option.splits)
  moreover have "valid_runtime_options is_absolute default_runtime_options"
    by (simp add: valid_runtime_options_def default_runtime_options_def)
  ultimately show ?thesis by blast
qed

end
