(* ===== verification/JsonValues.thy ===== *)
theory JsonValues
  imports RustStrings
begin

text \<open>
  The values of \<open>serde_json::Value\<close> and the accessors the engine calls on them.
  An object is the list of its members; \<open>get\<close> and \<open>remove\<close> act on the first
  member of a name, and the parser never produces two.  Numbers are integers or
  the texts of other numbers.
\<close>

datatype json =
    JNull
  | JBool bool
  | JInt int
  | JFloat string
  | JStr string
  | JArr "json list"
  | JObj "(string \<times> json) list"

type_synonym json_object = "(string \<times> json) list"

fun as_object :: "json \<Rightarrow> json_object option" where
  "as_object (JObj ms) = Some ms"
| "as_object _ = None"

fun as_str :: "json \<Rightarrow> string option" where
  "as_str (JStr s) = Some s"
| "as_str _ = None"

definition is_object :: "json \<Rightarrow> bool" where
  "is_object v \<longleftrightarrow> as_object v \<noteq> None"

fun json_get :: "string \<Rightarrow> json \<Rightarrow> json option" where
  "json_get k (JObj ms) = map_of ms k"
| "json_get k _ = None"

text \<open>\<open>Map::remove\<close>: the member and the object without it.\<close>

definition json_remove :: "string \<Rightarrow> json_object \<Rightarrow> json option \<times> json_object" where
  "json_remove k ms = (map_of ms k, filter (\<lambda>(n, v). n \<noteq> k) ms)"

lemma is_object_iff: "is_object v \<longleftrightarrow> (\<exists>ms. v = JObj ms)"
  by (cases v) (simp_all add: is_object_def)

lemma as_object_Some [simp]: "as_object v = Some ms \<longleftrightarrow> v = JObj ms"
  by (cases v) auto

lemma map_of_filter_other: "map_of (filter (\<lambda>(n, v). n \<noteq> k) ms) j = (if j = k then None else map_of ms j)"
  by (induction ms) auto

lemma json_remove_get: "fst (json_remove k ms) = json_get k (JObj ms)"
  by (simp add: json_remove_def)

lemma json_remove_rest: "json_get j (JObj (snd (json_remove k ms))) = (if j = k then None else json_get j (JObj ms))"
  by (simp add: json_remove_def map_of_filter_other)

end
