(* ===== verification/TrackingRecords.thy ===== *)
theory TrackingRecords
  imports StoreMachine TrackingIds JsonValues
begin

text \<open>
  The other tables of the workspace store (\<open>storage.rs\<close>): tracking records, raw
  blobs, workspaces and the document generation, around the tables of
  \<open>StoreTypes\<close>.  Here are their statements with the constraints of \<open>schema.rs\<close>,
  the guarded updates of a sheet row that the tracking refresh uses (lookup id and
  row generation must still match), the projection of a row with its record, and
  the start-up recovery of interrupted rows.  A JSON column holds the value.
\<close>

subsection \<open>Tables\<close>

record tracking_record =
  t_id :: string
  t_display_id :: string
  t_lookup_id :: string
  t_normalized_status :: "string option"
  t_status_json :: json
  t_detail_json :: json
  t_history_json :: json
  t_raw_blob_id :: "string option"
  t_fetched_at :: string
  t_source_url :: string

record raw_blob =
  b_id :: string
  b_sha256 :: string
  b_media_type :: string
  b_byte_len :: int
  b_storage_path :: string
  b_created_at :: string

record workspace =
  w_id :: string
  w_name :: string
  w_created_at :: string
  w_updated_at :: string
  w_schema_version :: nat

text \<open>The whole database; the document generation is the single row of its table.\<close>

record workspace_db =
  base :: store
  records :: "tracking_record list"
  blobs :: "raw_blob list"
  workspaces :: "workspace list"
  generation :: int

abbreviation "schema_version \<equiv> (2 :: nat)"

abbreviation db_rows :: "workspace_db \<Rightarrow> sheet_row list" where
  "db_rows db \<equiv> rows (base db)"

subsection \<open>Inputs and projections\<close>

record sheet_record =
  sr_sheet_id :: string
  sr_workspace_id :: string
  sr_name :: string
  sr_position :: nat

record workspace_record =
  wr_workspace_id :: string
  wr_name :: string
  wr_schema_version :: nat

record upsert_tracking_record_input =
  ut_record_id :: string
  ut_display_tracking_id :: string
  ut_lookup_tracking_id :: string
  ut_normalized_status :: "string option"
  ut_status_json :: json
  ut_detail_json :: json
  ut_history_json :: json
  ut_raw_blob_id :: "string option"
  ut_source_url :: string

record attach_input =
  at_row_id :: string
  at_tracking_record_id :: string
  at_row_status :: sheet_row_status
  at_error_message :: "string option"

record update_sheet_row_status_input =
  us_row_id :: string
  us_row_status :: sheet_row_status
  us_error_message :: "string option"

record upsert_raw_blob_input =
  ub_blob_id :: string
  ub_sha256 :: string
  ub_media_type :: string
  ub_byte_len :: nat
  ub_storage_path :: string

record raw_blob_record =
  rb_blob_id :: string
  rb_sha256 :: string
  rb_media_type :: string
  rb_byte_len :: nat
  rb_storage_path :: string

record sheet_row_projection =
  p_row_id :: string
  p_row_generation :: string
  p_position :: nat
  p_display_tracking_id :: string
  p_lookup_tracking_id :: string
  p_row_status :: sheet_row_status
  p_error_message :: "string option"
  p_status_json :: "json option"
  p_detail_json :: "json option"
  p_history_json :: "json option"

subsection \<open>Atomic writes\<close>

type_synonym ('e, 'a) db_body = "workspace_db \<Rightarrow> 'e + ('a \<times> workspace_db)"
type_synonym ('e, 'a) db_operation = "workspace_db \<Rightarrow> ('e + 'a) \<times> workspace_db"

text \<open>A savepoint, rolled back when the body fails.\<close>

definition atomic_write :: "('e, 'a) db_body \<Rightarrow> ('e, 'a) db_operation" where
  "atomic_write body db = (case body db of Inl e \<Rightarrow> (Inl e, db) | Inr (v, db') \<Rightarrow> (Inr v, db'))"

text \<open>An operation on the tables of \<open>StoreTypes\<close>, run on the whole database.\<close>

definition on_base :: "'a operation \<Rightarrow> (store_error, 'a) db_operation" where
  "on_base f db = (let (r, s) = f (base db) in (r, db\<lparr>base := s\<rparr>))"

subsection \<open>The document generation\<close>

text \<open>\<open>expected\<close> is the binding of the connection handle.\<close>

definition check_document_generation :: "int option \<Rightarrow> workspace_db \<Rightarrow> store_error + unit" where
  "check_document_generation expected db =
     (case expected of
        None \<Rightarrow> Inr ()
      | Some g \<Rightarrow> if generation db \<noteq> g
          then Inl (Invalid_Value ''document_generation'' ''Document changed; retry in the current document.'')
          else Inr ())"

definition bind_document_generation :: "int \<Rightarrow> workspace_db \<Rightarrow> int option \<times> (store_error + unit)" where
  "bind_document_generation g db = (Some g, check_document_generation (Some g) db)"

subsection \<open>Workspaces and sheets\<close>

definition create_workspace ::
  "env \<Rightarrow> string \<Rightarrow> string \<Rightarrow> workspace_db \<Rightarrow> workspace_record \<times> workspace_db" where
  "create_workspace env wid name db =
     (\<lparr>wr_workspace_id = wid, wr_name = name, wr_schema_version = schema_version\<rparr>,
      db\<lparr>workspaces :=
        (if find_by w_id wid (workspaces db) = None
         then workspaces db @ [\<lparr>w_id = wid, w_name = name, w_created_at = now env, w_updated_at = now env,
                                w_schema_version = schema_version\<rparr>]
         else update_where (\<lambda>w. w_id w = wid)
                (\<lambda>w. w\<lparr>w_name := name, w_updated_at := now env, w_schema_version := schema_version\<rparr>) (workspaces db))\<rparr>)"

definition sheet_record_of :: "sheet \<Rightarrow> sheet_record" where
  "sheet_record_of x = \<lparr>sr_sheet_id = s_id x, sr_workspace_id = s_workspace_id x, sr_name = s_name x,
     sr_position = as_u32 (s_position x)\<rparr>"

definition get_sheet :: "string \<Rightarrow> workspace_db \<Rightarrow> sheet_record option" where
  "get_sheet sid db = map_option sheet_record_of (find_by s_id sid (sheets (base db)))"

definition list_sheets :: "workspace_db \<Rightarrow> sheet_record list" where
  "list_sheets db = map sheet_record_of (sort_key (\<lambda>x. (s_position x, s_id x)) (sheets (base db)))"

text \<open>\<open>INSERT ... ON CONFLICT(id) DO NOTHING\<close>, then the sheet is read back.\<close>

definition create_sheet ::
  "env \<Rightarrow> string \<Rightarrow> string \<Rightarrow> string \<Rightarrow> nat \<Rightarrow> (store_error, sheet_record) db_operation" where
  "create_sheet env sid wid name position db =
     (let inserted =
        (if find_by s_id sid (sheets (base db)) \<noteq> None then Inr db
         else if find_by w_id wid (workspaces db) = None then Inl (Sqlite Foreign_Key_Constraint)
         else Inr (db\<lparr>base := (base db)\<lparr>sheets := sheets (base db) @
                [\<lparr>s_id = sid, s_workspace_id = wid, s_name = name, s_position = position,
                  s_created_at = now env, s_updated_at = now env\<rparr>]\<rparr>\<rparr>))
      in case inserted of
           Inl e \<Rightarrow> (Inl e, db)
         | Inr db' \<Rightarrow> (ok_or (Invalid_Value ''sheet'' sid) (get_sheet sid db'), db'))"

definition rename_sheet :: "env \<Rightarrow> string \<Rightarrow> string \<Rightarrow> (store_error, sheet_record) db_operation" where
  "rename_sheet env sid name db =
     (if find_by s_id sid (sheets (base db)) = None then (Inl (Invalid_Value ''sheet'' sid), db)
      else let db' = db\<lparr>base := (base db)\<lparr>sheets := update_where (\<lambda>x. s_id x = sid)
                 (\<lambda>x. x\<lparr>s_name := name, s_updated_at := now env\<rparr>) (sheets (base db))\<rparr>\<rparr>
           in (ok_or (Invalid_Value ''sheet'' sid) (get_sheet sid db'), db'))"

definition primary_workspace_id :: "workspace_db \<Rightarrow> string option" where
  "primary_workspace_id db = map_option w_id (first_by (\<lambda>w. (w_created_at w, w_id w)) (workspaces db))"

subsection \<open>Rows and their records\<close>

text \<open>The \<open>LEFT JOIN\<close> of a row with its record.\<close>

definition project_row :: "workspace_db \<Rightarrow> sheet_row \<Rightarrow> sheet_row_projection" where
  "project_row db r =
     (let tr = Option.bind (r_tracking_record_id r) (\<lambda>t. find_by t_id t (records db))
      in \<lparr>p_row_id = r_id r, p_row_generation = r_generation r, p_position = as_u32 (r_position r),
          p_display_tracking_id = r_display_id r, p_lookup_tracking_id = r_lookup_id r,
          p_row_status = r_status r, p_error_message = r_error_message r,
          p_status_json = map_option t_status_json tr, p_detail_json = map_option t_detail_json tr,
          p_history_json = map_option t_history_json tr\<rparr>)"

definition get_sheet_row :: "string \<Rightarrow> workspace_db \<Rightarrow> sheet_row_projection option" where
  "get_sheet_row rid db = map_option (project_row db) (find_by r_id rid (db_rows db))"

definition sheet_row_belongs_to_sheet :: "string \<Rightarrow> string \<Rightarrow> workspace_db \<Rightarrow> bool" where
  "sheet_row_belongs_to_sheet rid sid db \<longleftrightarrow>
     0 < count_where (\<lambda>r. r_id r = rid \<and> r_sheet_id r = sid) (db_rows db)"

definition map_rows :: "(sheet_row list \<Rightarrow> sheet_row list) \<Rightarrow> workspace_db \<Rightarrow> workspace_db" where
  "map_rows f db = db\<lparr>base := (base db)\<lparr>rows := f (db_rows db)\<rparr>\<rparr>"

definition drop_cache_of :: "string set \<Rightarrow> workspace_db \<Rightarrow> workspace_db" where
  "drop_cache_of sids db = db\<lparr>base := (base db)\<lparr>cache := filter (\<lambda>c. c_sheet_id c \<notin> sids) (cache (base db))\<rparr>\<rparr>"

definition invalidate_analytics_cache_for_row :: "string \<Rightarrow> workspace_db \<Rightarrow> workspace_db" where
  "invalidate_analytics_cache_for_row rid db =
     drop_cache_of (set_option (map_option r_sheet_id (find_by r_id rid (db_rows db)))) db"

definition invalidate_analytics_cache_for_tracking_record :: "string \<Rightarrow> workspace_db \<Rightarrow> workspace_db" where
  "invalidate_analytics_cache_for_tracking_record tid db =
     drop_cache_of (set (map r_sheet_id (filter (\<lambda>r. r_tracking_record_id r = Some tid) (db_rows db)))) db"

subsection \<open>Tracking records\<close>

definition inserted_record :: "env \<Rightarrow> upsert_tracking_record_input \<Rightarrow> tracking_record" where
  "inserted_record env input =
     \<lparr>t_id = ut_record_id input, t_display_id = ut_display_tracking_id input,
      t_lookup_id = ut_lookup_tracking_id input, t_normalized_status = ut_normalized_status input,
      t_status_json = ut_status_json input, t_detail_json = ut_detail_json input,
      t_history_json = ut_history_json input, t_raw_blob_id = ut_raw_blob_id input,
      t_fetched_at = now env, t_source_url = ut_source_url input\<rparr>"

text \<open>
  \<open>INSERT ... ON CONFLICT(id) DO UPDATE SET\<close> of every other column: the row of
  that id becomes the new one.
\<close>

definition upsert_record_on ::
  "env \<Rightarrow> upsert_tracking_record_input \<Rightarrow> workspace_db \<Rightarrow> store_error + workspace_db" where
  "upsert_record_on env input db =
     (let dangling = (case ut_raw_blob_id input of None \<Rightarrow> False | Some b \<Rightarrow> find_by b_id b (blobs db) = None);
          new = inserted_record env input
      in if dangling then Inl (Sqlite Foreign_Key_Constraint)
         else Inr (db\<lparr>records :=
                (if find_by t_id (ut_record_id input) (records db) = None then records db @ [new]
                 else update_where (\<lambda>t. t_id t = ut_record_id input) (\<lambda>_. new) (records db))\<rparr>))"

definition upsert_tracking_record ::
  "env \<Rightarrow> upsert_tracking_record_input \<Rightarrow> (store_error, unit) db_operation" where
  "upsert_tracking_record env input db =
     (case upsert_record_on env input db of
        Inl e \<Rightarrow> (Inl e, db)
      | Inr db' \<Rightarrow> (Inr (), invalidate_analytics_cache_for_tracking_record (ut_record_id input) db'))"

text \<open>
  \<open>UPDATE sheet_rows SET tracking_record_id, row_status, error_message\<close> on the
  rows that satisfy \<open>hit\<close>, with the number of rows changed.
\<close>

definition attach_where ::
  "env \<Rightarrow> (sheet_row \<Rightarrow> bool) \<Rightarrow> attach_input \<Rightarrow> workspace_db \<Rightarrow> store_error + (nat \<times> workspace_db)" where
  "attach_where env hit input db =
     (let changed = count_where hit (db_rows db)
      in if 0 < changed \<and> find_by t_id (at_tracking_record_id input) (records db) = None
         then Inl (Sqlite Foreign_Key_Constraint)
         else Inr (changed, map_rows (update_where hit
                (\<lambda>r. r\<lparr>r_tracking_record_id := Some (at_tracking_record_id input), r_status := at_row_status input,
                        r_error_message := at_error_message input, r_updated_at := now env\<rparr>)) db))"

definition row_matches :: "string \<Rightarrow> string \<Rightarrow> string \<Rightarrow> sheet_row \<Rightarrow> bool" where
  "row_matches rid lookup g r \<longleftrightarrow> r_id r = rid \<and> r_lookup_id r = lookup \<and> r_generation r = g"

definition upsert_tracking_record_and_attach_if_row_matches ::
  "env \<Rightarrow> upsert_tracking_record_input \<Rightarrow> attach_input \<Rightarrow> string \<Rightarrow> string \<Rightarrow> (store_error, bool) db_operation" where
  "upsert_tracking_record_and_attach_if_row_matches env record attachment lookup g db =
     (let hit = row_matches (at_row_id attachment) lookup g
      in if \<not> list_ex hit (db_rows db) then (Inr False, db)
         else case upsert_record_on env record db of
           Inl e \<Rightarrow> (Inl e, db)
         | Inr db1 \<Rightarrow>
             (case attach_where env hit attachment db1 of
                Inl e \<Rightarrow> (Inl e, db)
              | Inr (changed, db2) \<Rightarrow>
                  if changed = 0 then (Inr False, db)
                  else (Inr True, drop_cache_of
                         (set (map r_sheet_id (filter (\<lambda>r. r_tracking_record_id r = Some (ut_record_id record)
                                                          \<or> r_id r = at_row_id attachment) (db_rows db2)))) db2)))"

definition attach_tracking_record_to_sheet_row :: "env \<Rightarrow> attach_input \<Rightarrow> (store_error, unit) db_operation" where
  "attach_tracking_record_to_sheet_row env input db =
     (case attach_where env (\<lambda>r. r_id r = at_row_id input) input db of
        Inl e \<Rightarrow> (Inl e, db)
      | Inr (changed, db1) \<Rightarrow> (Inr (), invalidate_analytics_cache_for_row (at_row_id input) db1))"

definition attach_tracking_record_to_sheet_row_if_lookup_matches ::
  "env \<Rightarrow> attach_input \<Rightarrow> string \<Rightarrow> string \<Rightarrow> (store_error, bool) db_operation" where
  "attach_tracking_record_to_sheet_row_if_lookup_matches env input lookup g db =
     (case attach_where env (row_matches (at_row_id input) lookup g) input db of
        Inl e \<Rightarrow> (Inl e, db)
      | Inr (changed, db1) \<Rightarrow>
          (Inr (0 < changed), if 0 < changed then invalidate_analytics_cache_for_row (at_row_id input) db1 else db1))"

subsection \<open>Row status\<close>

definition set_status :: "env \<Rightarrow> update_sheet_row_status_input \<Rightarrow> sheet_row \<Rightarrow> sheet_row" where
  "set_status env input r =
     r\<lparr>r_status := us_row_status input, r_error_message := us_error_message input, r_updated_at := now env\<rparr>"

definition update_sheet_row_status :: "env \<Rightarrow> update_sheet_row_status_input \<Rightarrow> workspace_db \<Rightarrow> workspace_db" where
  "update_sheet_row_status env input db =
     invalidate_analytics_cache_for_row (us_row_id input)
       (map_rows (update_where (\<lambda>r. r_id r = us_row_id input) (set_status env input)) db)"

definition update_sheet_row_status_if_lookup_matches ::
  "env \<Rightarrow> update_sheet_row_status_input \<Rightarrow> string \<Rightarrow> string \<Rightarrow> workspace_db \<Rightarrow> bool \<times> workspace_db" where
  "update_sheet_row_status_if_lookup_matches env input lookup g db =
     (let hit = row_matches (us_row_id input) lookup g;
          changed = count_where hit (db_rows db);
          db1 = map_rows (update_where hit (set_status env input)) db
      in (0 < changed, if 0 < changed then invalidate_analytics_cache_for_row (us_row_id input) db1 else db1))"

text \<open>The rows an earlier process left pending or loading.\<close>

definition recover_interrupted_tracking_rows :: "env \<Rightarrow> workspace_db \<Rightarrow> nat \<times> workspace_db" where
  "recover_interrupted_tracking_rows env db =
     (let hit = (\<lambda>r. r_status r \<in> {Row_Pending, Row_Loading})
      in (as_u32 (count_where hit (db_rows db)),
          map_rows (update_where hit
            (\<lambda>r. r\<lparr>r_status := Row_Failed, r_error_message := Some ''Tracking was interrupted before completion.'',
                    r_updated_at := now env\<rparr>)) db))"

subsection \<open>Raw blobs\<close>

text \<open>\<open>byte_len as i64\<close> and \<open>max(0) as u64\<close>\<close>

definition as_i64 :: "nat \<Rightarrow> int" where
  "as_i64 n = (if n < 9223372036854775808 then int n else int n - 18446744073709551616)"

definition upsert_raw_blob :: "env \<Rightarrow> upsert_raw_blob_input \<Rightarrow> (store_error, unit) db_operation" where
  "upsert_raw_blob env input db =
     (if \<exists>b \<in> set (blobs db). b_id b \<noteq> ub_blob_id input \<and> b_sha256 b = ub_sha256 input
      then (Inl (Sqlite (Unique_Constraint ''raw_blobs.sha256'')), db)
      else (Inr (), db\<lparr>blobs :=
        (if find_by b_id (ub_blob_id input) (blobs db) = None
         then blobs db @ [\<lparr>b_id = ub_blob_id input, b_sha256 = ub_sha256 input, b_media_type = ub_media_type input,
                b_byte_len = as_i64 (ub_byte_len input), b_storage_path = ub_storage_path input, b_created_at = now env\<rparr>]
         else update_where (\<lambda>b. b_id b = ub_blob_id input)
                (\<lambda>b. b\<lparr>b_sha256 := ub_sha256 input, b_media_type := ub_media_type input,
                        b_byte_len := as_i64 (ub_byte_len input), b_storage_path := ub_storage_path input\<rparr>)
                (blobs db))\<rparr>))"

definition get_raw_blob :: "string \<Rightarrow> workspace_db \<Rightarrow> raw_blob_record option" where
  "get_raw_blob bid db =
     map_option (\<lambda>b. \<lparr>rb_blob_id = b_id b, rb_sha256 = b_sha256 b, rb_media_type = b_media_type b,
                      rb_byte_len = nat (max (b_byte_len b) 0), rb_storage_path = b_storage_path b\<rparr>)
       (find_by b_id bid (blobs db))"

definition get_tracking_record_raw_blob_id :: "string \<Rightarrow> workspace_db \<Rightarrow> string option" where
  "get_tracking_record_raw_blob_id tid db = Option.bind (find_by t_id tid (records db)) t_raw_blob_id"

end
