(* ===== verification/BlobStore.thy ===== *)
theory BlobStore
  imports RustStrings
begin

text \<open>
  The content-addressed blob store (\<open>blob_store.rs\<close>): the address of a blob, and
  the writing of a blob by any number of concurrent writers as atomic steps on the
  file system, each of which may fail, or a writer may die between them.  The
  digest (the \<open>sha2\<close> and \<open>hex\<close> crates) is a parameter; the file system is the map
  from paths to contents, with \<open>/\<close> between the parts of a path.
\<close>

subsection \<open>Addresses\<close>

record blob_address =
  ba_id :: string
  ba_sha256 :: string
  ba_media_type :: string
  ba_byte_len :: nat
  ba_relative_path :: string

datatype blob_store_error = Blob_Io string

definition extension_for_media_type :: "string \<Rightarrow> string" where
  "extension_for_media_type media_type =
     (if media_type = ''text/html'' then ''html''
      else if media_type = ''application/json'' then ''json'' else ''bin'')"

definition address_blob :: "(string \<Rightarrow> string) \<Rightarrow> string \<Rightarrow> string \<Rightarrow> blob_address" where
  "address_blob sha256_hex bytes media_type =
     (let sha256 = sha256_hex (media_type @ [CHR 0x00] @ bytes);
          extension = extension_for_media_type media_type;
          prefix = take 2 sha256
      in \<lparr>ba_id = sha256, ba_sha256 = sha256, ba_media_type = media_type, ba_byte_len = length bytes,
          ba_relative_path = ''blobs/'' @ prefix @ ''/'' @ sha256 @ ''.'' @ extension\<rparr>)"

definition path_join :: "string \<Rightarrow> string \<Rightarrow> string" where
  "path_join p s = (if p = [] \<or> last p = CHR ''/'' then p @ s else p @ ''/'' @ s)"

definition absolute_blob_path :: "string \<Rightarrow> blob_address \<Rightarrow> string" where
  "absolute_blob_path root a = foldl path_join root (split_on (\<lambda>c. c = CHR ''/'') (ba_relative_path a))"

end
