(* ===== verification/TrackingRefresh.thy ===== *)
theory TrackingRefresh
  imports TrackingRecords BlobStore CoreTypes
begin

text \<open>
  The tracking engine (\<open>tracking.rs\<close>): the refresh of one row and of a batch of
  rows grouped by lookup id.  The lookup source is a list of deliveries, the calls
  of the result callback in the order the source makes them: any lookup ids, any
  results, repeated or missing.  Other connections write to the same database
  while the source is waited for, so a delivery carries the change they made since
  the last one.  The events published are collected in a list; input/output
  failures of SQLite are outside the model, as in \<open>StoreTypes\<close>.
\<close>

subsection \<open>Errors and responses\<close>

datatype tracking_engine_error =
    TE_Store store_error
  | TE_Lookup string
  | TE_Missing_Sheet_Row string
  | TE_Blob blob_store_error

text \<open>\<open>Display\<close> of the errors; the text of an SQLite error is rusqlite's.\<close>

fun store_error_text :: "(sqlite_error \<Rightarrow> string) \<Rightarrow> store_error \<Rightarrow> string" where
  "store_error_text sq (Sqlite e) = ''sqlite error: '' @ sq e"
| "store_error_text sq (Missing_Import_Job j) = ''missing import job: '' @ j"
| "store_error_text sq (Row_Ownership_Conflict r e q) = ''row '' @ r @ '' belongs to sheet '' @ e @ '', not '' @ q"
| "store_error_text sq (Invalid_Value f v) = ''invalid '' @ f @ '' value: '' @ v"

fun tracking_error_text :: "(sqlite_error \<Rightarrow> string) \<Rightarrow> tracking_engine_error \<Rightarrow> string" where
  "tracking_error_text sq (TE_Store e) = store_error_text sq e"
| "tracking_error_text sq (TE_Lookup m) = m"
| "tracking_error_text sq (TE_Missing_Sheet_Row r) = ''missing sheet row: '' @ r"
| "tracking_error_text sq (TE_Blob (Blob_Io m)) = ''blob store io error: '' @ m"

text \<open>
  A response with its parts as the JSON they serialise to; \<open>tp_nomor_kiriman\<close> and
  \<open>tp_status\<close> are the fields of the header and of the final status.
\<close>

record track_response =
  tp_url :: string
  tp_nomor_kiriman :: "string option"
  tp_status :: "string option"
  tp_detail :: json
  tp_status_akhir :: json
  tp_pod :: json
  tp_history :: json
  tp_history_summary :: json
  tp_shipment_identity :: json
  tp_multi_koli :: json
  tp_contact_enrichment :: json

text \<open>
  What the engine is given: the blob writer, absent without a blob root, and the
  text of SQLite errors.
\<close>

record tracking_host =
  write_response :: "(track_response \<Rightarrow> blob_store_error + blob_address) option"
  sqlite_text :: "sqlite_error \<Rightarrow> string"

subsection \<open>Storing the result of a lookup\<close>

definition tracking_record_id :: "string \<Rightarrow> string" where
  "tracking_record_id lookup = ''tracking:'' @ lookup"

definition store_raw_response_blob ::
  "tracking_host \<Rightarrow> env \<Rightarrow> track_response \<Rightarrow> (tracking_engine_error, string option) db_operation" where
  "store_raw_response_blob host env response db =
     (case write_response host of
        None \<Rightarrow> (Inr None, db)
      | Some write_blob \<Rightarrow>
          (case write_blob response of
             Inl e \<Rightarrow> (Inl (TE_Blob e), db)
           | Inr a \<Rightarrow>
               (case upsert_raw_blob env \<lparr>ub_blob_id = ba_id a, ub_sha256 = ba_sha256 a,
                        ub_media_type = ba_media_type a, ub_byte_len = ba_byte_len a,
                        ub_storage_path = ba_relative_path a\<rparr> db of
                  (Inl e, db1) \<Rightarrow> (Inl (TE_Store e), db1)
                | (Inr _, db1) \<Rightarrow> (Inr (Some (ba_id a)), db1))))"

definition record_of_response ::
  "string \<Rightarrow> string option \<Rightarrow> track_response \<Rightarrow> upsert_tracking_record_input" where
  "record_of_response lookup raw_blob_id response =
     \<lparr>ut_record_id = tracking_record_id lookup,
      ut_display_tracking_id = (case tp_nomor_kiriman response of None \<Rightarrow> lookup | Some n \<Rightarrow> n),
      ut_lookup_tracking_id = lookup, ut_normalized_status = tp_status response,
      ut_status_json = tp_status_akhir response, ut_detail_json = tp_detail response,
      ut_history_json = JObj [(''url'', JStr (tp_url response)),
        (''contact_enrichment'', tp_contact_enrichment response), (''pod'', tp_pod response),
        (''history'', tp_history response), (''history_summary'', tp_history_summary response),
        (''shipment_identity'', tp_shipment_identity response), (''multi_koli'', tp_multi_koli response)],
      ut_raw_blob_id = raw_blob_id, ut_source_url = tp_url response\<rparr>"

text \<open>The row read back, if it is still the one the lookup was for.\<close>

definition current_row :: "sheet_row_projection \<Rightarrow> workspace_db \<Rightarrow> sheet_row_projection option" where
  "current_row row db = Option.bind (get_sheet_row (p_row_id row) db) (\<lambda>c.
     if p_lookup_tracking_id c = p_lookup_tracking_id row \<and> p_row_generation c = p_row_generation row
     then Some c else None)"

definition store_successful_tracking_response ::
  "tracking_host \<Rightarrow> env \<Rightarrow> sheet_row_projection \<Rightarrow> track_response
   \<Rightarrow> (tracking_engine_error, sheet_row_projection option) db_operation" where
  "store_successful_tracking_response host env row response db =
     (case store_raw_response_blob host env response db of
        (Inl e, db1) \<Rightarrow> (Inl e, db1)
      | (Inr raw_blob_id, db1) \<Rightarrow>
          (case upsert_tracking_record_and_attach_if_row_matches env
                  (record_of_response (p_lookup_tracking_id row) raw_blob_id response)
                  \<lparr>at_row_id = p_row_id row, at_tracking_record_id = tracking_record_id (p_lookup_tracking_id row),
                   at_row_status = Row_Loaded, at_error_message = None\<rparr>
                  (p_lookup_tracking_id row) (p_row_generation row) db1 of
             (Inl e, db2) \<Rightarrow> (Inl (TE_Store e), db2)
           | (Inr attached, db2) \<Rightarrow> (Inr (if attached then current_row row db2 else None), db2)))"

definition update_row ::
  "env \<Rightarrow> sheet_row_status \<Rightarrow> string option \<Rightarrow> sheet_row_projection \<Rightarrow> workspace_db \<Rightarrow> bool \<times> workspace_db" where
  "update_row env st message row db =
     update_sheet_row_status_if_lookup_matches env
       \<lparr>us_row_id = p_row_id row, us_row_status = st, us_error_message = message\<rparr>
       (p_lookup_tracking_id row) (p_row_generation row) db"

definition store_failed_tracking_lookup ::
  "env \<Rightarrow> sheet_row_projection \<Rightarrow> string \<Rightarrow> workspace_db \<Rightarrow> sheet_row_projection option \<times> workspace_db" where
  "store_failed_tracking_lookup env row message db =
     (let (updated, db1) = update_row env Row_Failed (Some message) row db
      in (if updated then current_row row db1 else None, db1))"

subsection \<open>One row\<close>

text \<open>
  \<open>others\<close> is what other connections do while the lookup runs; \<open>fetch\<close> is the
  source.
\<close>

definition refresh_sheet_row ::
  "tracking_host \<Rightarrow> env \<Rightarrow> env \<Rightarrow> int option \<Rightarrow> (workspace_db \<Rightarrow> workspace_db) \<Rightarrow> (string \<Rightarrow> string + track_response)
   \<Rightarrow> string \<Rightarrow> (tracking_engine_error, sheet_row_projection) db_operation" where
  "refresh_sheet_row host env env' expected others fetch row_id db =
     (case atomic_write (\<lambda>db.
        case check_document_generation expected db of
          Inl e \<Rightarrow> Inl (TE_Store e)
        | Inr _ \<Rightarrow>
            (case get_sheet_row row_id db of
               None \<Rightarrow> Inl (TE_Missing_Sheet_Row row_id)
             | Some row \<Rightarrow>
                 let (updated, db1) = update_row env Row_Loading None row db
                 in if updated then Inr (row, db1) else Inl (TE_Missing_Sheet_Row (p_row_id row)))) db of
        (Inl e, db1) \<Rightarrow> (Inl e, db1)
      | (Inr row, db1) \<Rightarrow>
          let db2 = others db1
          in case fetch (p_lookup_tracking_id row) of
               Inr response \<Rightarrow>
                 (case store_successful_tracking_response host env' row response db2 of
                    (Inl e, db3) \<Rightarrow> (Inl e, db3)
                  | (Inr stored, db3) \<Rightarrow> (ok_or (TE_Missing_Sheet_Row (p_row_id row)) stored, db3))
             | Inl message \<Rightarrow>
                 let (updated, db3) = update_row env' Row_Failed (Some message) row db2
                 in (Inl (if updated then TE_Lookup message else TE_Missing_Sheet_Row (p_row_id row)), db3))"

subsection \<open>A batch: set-up\<close>

abbreviation "max_concurrent_tracking_refresh_lookups \<equiv> (5 :: nat)"

record refresh_event =
  ev_run_id :: "string option"
  ev_sheet_id :: string
  ev_row :: sheet_row_projection
  ev_total_count :: nat
  ev_success_count :: nat
  ev_failed_count :: nat
  ev_pending_count :: nat

record sheet_rows_refresh_result =
  rr_run_id :: "string option"
  rr_sheet_id :: string
  rr_success_count :: nat
  rr_failed_count :: nat
  rr_rows :: "sheet_row_projection list"

type_synonym row_groups = "(string \<times> sheet_row_projection list) list"

text \<open>The state of the set-up loop; the targets are (row id, lookup id, generation).\<close>

record refresh_setup =
  g_seen :: "string list"
  g_groups :: row_groups
  g_targets :: "(string \<times> string \<times> string) list"
  g_db :: workspace_db

fun push_group :: "sheet_row_projection \<Rightarrow> row_groups \<Rightarrow> row_groups" where
  "push_group row [] = [(p_lookup_tracking_id row, [row])]"
| "push_group row ((l, rs) # gs) =
     (if l = p_lookup_tracking_id row then (l, rs @ [row]) # gs else (l, rs) # push_group row gs)"

definition target_of :: "sheet_row_projection \<Rightarrow> string \<times> string \<times> string" where
  "target_of row = (p_row_id row, p_lookup_tracking_id row, p_row_generation row)"

definition setup_row :: "env \<Rightarrow> string \<Rightarrow> string \<Rightarrow> refresh_setup \<Rightarrow> refresh_setup" where
  "setup_row env sheet_id raw_id g =
     (let row_id = trim raw_id
      in if row_id = [] \<or> row_id \<in> set (g_seen g) then g
         else
           let g1 = g\<lparr>g_seen := row_id # g_seen g\<rparr>
           in if \<not> sheet_row_belongs_to_sheet row_id sheet_id (g_db g1) then g1
              else case get_sheet_row row_id (g_db g1) of
                None \<Rightarrow> g1
              | Some row \<Rightarrow>
                  let (updated, db1) = update_row env Row_Pending None row (g_db g1);
                      row' = row\<lparr>p_row_status := Row_Pending, p_error_message := None\<rparr>
                  in if \<not> updated then g1\<lparr>g_db := db1\<rparr>
                     else g1\<lparr>g_db := db1, g_targets := g_targets g1 @ [target_of row'],
                             g_groups := push_group row' (g_groups g1)\<rparr>)"

text \<open>
  \<open>activate_tracking_lookup_group\<close>: the rows of a group become \<open>Loading\<close>; the rows
  that could be are the events.
\<close>

fun activate_rows ::
  "env \<Rightarrow> sheet_row_projection list \<Rightarrow> workspace_db
   \<Rightarrow> sheet_row_projection list \<times> sheet_row_projection list \<times> workspace_db" where
  "activate_rows env [] db = ([], [], db)"
| "activate_rows env (row # rs) db =
     (let (updated, db1) = update_row env Row_Loading None row db;
          row' = (if updated then row\<lparr>p_row_status := Row_Loading, p_error_message := None\<rparr> else row);
          (rs', activated, db2) = activate_rows env rs db1
      in (row' # rs', if updated then row' # activated else activated, db2))"

fun activate_groups ::
  "env \<Rightarrow> row_groups \<Rightarrow> workspace_db \<Rightarrow> row_groups \<times> sheet_row_projection list \<times> workspace_db" where
  "activate_groups env [] db = ([], [], db)"
| "activate_groups env ((l, rs) # gs) db =
     (let (rs', a1, db1) = activate_rows env rs db;
          (gs', a2, db2) = activate_groups env gs db1
      in ((l, rs') # gs', a1 @ a2, db2))"

definition group_rows :: "row_groups \<Rightarrow> sheet_row_projection list" where
  "group_rows gs = concat (map snd gs)"

text \<open>The set-up transaction: the groups, the targets and the rows it activated.\<close>

definition refresh_setup_body ::
  "env \<Rightarrow> int option \<Rightarrow> string \<Rightarrow> string list
   \<Rightarrow> (tracking_engine_error, refresh_setup \<times> sheet_row_projection list) db_body" where
  "refresh_setup_body env expected sheet_id row_ids db =
     (case check_document_generation expected db of
        Inl e \<Rightarrow> Inl (TE_Store e)
      | Inr _ \<Rightarrow>
          let g = fold (setup_row env sheet_id) row_ids
                    \<lparr>g_seen = [], g_groups = [], g_targets = [], g_db = db\<rparr>;
              n = min (length (g_groups g)) max_concurrent_tracking_refresh_lookups;
              (active, activated, db1) = activate_groups env (take n (g_groups g)) (g_db g)
          in Inr ((g\<lparr>g_groups := active @ drop n (g_groups g), g_db := db1\<rparr>, activated), db1))"

subsection \<open>A batch: deliveries\<close>

text \<open>
  One call of the result callback: what other connections did since the last one,
  the clock, the lookup id and the result.
\<close>

record delivery =
  dl_world :: "workspace_db \<Rightarrow> workspace_db"
  dl_env :: env
  dl_lookup_id :: string
  dl_result :: "string + track_response"

record refresh_run =
  f_db :: workspace_db
  f_groups :: row_groups
  f_rows :: "sheet_row_projection list"
  f_terminal :: "string list"
  f_success :: nat
  f_failed :: nat
  f_next :: nat
  f_events :: "refresh_event list"
  f_error :: "tracking_engine_error option"

record refresh_scope =
  sc_run_id :: "string option"
  sc_sheet_id :: string
  sc_total :: nat

definition pending_count_of :: "refresh_scope \<Rightarrow> refresh_run \<Rightarrow> nat" where
  "pending_count_of sc f = sc_total sc - f_success f - f_failed f"

definition event_for :: "refresh_scope \<Rightarrow> refresh_run \<Rightarrow> sheet_row_projection \<Rightarrow> refresh_event" where
  "event_for sc f row =
     \<lparr>ev_run_id = sc_run_id sc, ev_sheet_id = sc_sheet_id sc, ev_row = row, ev_total_count = sc_total sc,
      ev_success_count = f_success f, ev_failed_count = f_failed f, ev_pending_count = pending_count_of sc f\<rparr>"

text \<open>A row that reached its end: counted, published, returned.\<close>

definition finish_row :: "refresh_scope \<Rightarrow> bool \<Rightarrow> sheet_row_projection \<Rightarrow> refresh_run \<Rightarrow> refresh_run" where
  "finish_row sc success row f =
     (let f1 = (if success then f\<lparr>f_success := f_success f + 1\<rparr> else f\<lparr>f_failed := f_failed f + 1\<rparr>)
      in f1\<lparr>f_events := f_events f1 @ [event_for sc f1 row],
            f_terminal := f_terminal f1 @ [p_row_id row], f_rows := f_rows f1 @ [row]\<rparr>)"

fun store_successes ::
  "tracking_host \<Rightarrow> env \<Rightarrow> refresh_scope \<Rightarrow> track_response \<Rightarrow> sheet_row_projection list \<Rightarrow> refresh_run \<Rightarrow> refresh_run" where
  "store_successes host env sc response [] f = f"
| "store_successes host env sc response (row # rs) f =
     (case store_successful_tracking_response host env row response (f_db f) of
        (Inr (Some stored), db1) \<Rightarrow> store_successes host env sc response rs (finish_row sc True stored (f\<lparr>f_db := db1\<rparr>))
      | (Inr None, db1) \<Rightarrow> store_successes host env sc response rs (f\<lparr>f_db := db1\<rparr>)
      | (Inl e, db1) \<Rightarrow> f\<lparr>f_db := db1, f_error := Some e\<rparr>)"

fun store_failures ::
  "env \<Rightarrow> refresh_scope \<Rightarrow> string \<Rightarrow> sheet_row_projection list \<Rightarrow> refresh_run \<Rightarrow> refresh_run" where
  "store_failures env sc message [] f = f"
| "store_failures env sc message (row # rs) f =
     (case store_failed_tracking_lookup env row message (f_db f) of
        (Some stored, db1) \<Rightarrow> store_failures env sc message rs (finish_row sc False stored (f\<lparr>f_db := db1\<rparr>))
      | (None, db1) \<Rightarrow> store_failures env sc message rs (f\<lparr>f_db := db1\<rparr>))"

definition activate_next :: "env \<Rightarrow> refresh_scope \<Rightarrow> refresh_run \<Rightarrow> refresh_run" where
  "activate_next env sc f =
     (if f_next f < length (f_groups f)
      then let (l, rs) = f_groups f ! f_next f;
               (rs', activated, db1) = activate_rows env rs (f_db f)
           in f\<lparr>f_db := db1, f_groups := (f_groups f)[f_next f := (l, rs')],
                f_events := f_events f @ map (event_for sc f) activated, f_next := f_next f + 1\<rparr>
      else f)"

text \<open>
  The callback.  The events of a group are published only when the whole group has
  been stored; an error stops every later call.
\<close>

definition deliver :: "tracking_host \<Rightarrow> refresh_scope \<Rightarrow> delivery \<Rightarrow> refresh_run \<Rightarrow> refresh_run" where
  "deliver host sc d f0 =
     (let f = f0\<lparr>f_db := dl_world d (f_db f0)\<rparr>
      in if f_error f \<noteq> None then f
         else case map_of (f_groups f) (dl_lookup_id d) of
           None \<Rightarrow> f
         | Some grouped \<Rightarrow>
             let f1 = f\<lparr>f_groups := update_where (\<lambda>g. fst g = dl_lookup_id d) (\<lambda>g. (fst g, [])) (f_groups f)\<rparr>;
                 f2 = (case dl_result d of
                         Inr response \<Rightarrow> store_successes host (dl_env d) sc response grouped f1
                       | Inl message \<Rightarrow> store_failures (dl_env d) sc message grouped f1)
             in if f_error f2 \<noteq> None then f2\<lparr>f_events := f_events f\<rparr>
                else activate_next (dl_env d) sc f2)"

subsection \<open>A batch: the end\<close>

text \<open>Rows of groups without a result, then targets that are still waiting.\<close>

fun finish_groups :: "env \<Rightarrow> refresh_scope \<Rightarrow> string \<Rightarrow> sheet_row_projection list \<Rightarrow> refresh_run \<Rightarrow> refresh_run" where
  "finish_groups env sc message [] f = f"
| "finish_groups env sc message (row # rs) f =
     (if p_row_id row \<in> set (f_terminal f) then finish_groups env sc message rs f
      else case store_failed_tracking_lookup env row message (f_db f) of
        (Some stored, db1) \<Rightarrow> finish_groups env sc message rs (finish_row sc False stored (f\<lparr>f_db := db1\<rparr>))
      | (None, db1) \<Rightarrow> finish_groups env sc message rs (f\<lparr>f_db := db1\<rparr>))"

definition finish_target :: "env \<Rightarrow> refresh_scope \<Rightarrow> string \<Rightarrow> string \<times> string \<times> string \<Rightarrow> refresh_run \<Rightarrow> refresh_run" where
  "finish_target env sc message = (\<lambda>(row_id, lookup, g) f.
     if row_id \<in> set (f_terminal f) then f
     else case get_sheet_row row_id (f_db f) of
       None \<Rightarrow> f
     | Some current \<Rightarrow>
         if p_lookup_tracking_id current \<noteq> lookup \<or> p_row_generation current \<noteq> g
            \<or> p_row_status current \<notin> {Row_Pending, Row_Loading} then f
         else case store_failed_tracking_lookup env current message (f_db f) of
           (Some stored, db1) \<Rightarrow> finish_row sc False stored (f\<lparr>f_db := db1\<rparr>)
         | (None, db1) \<Rightarrow> f\<lparr>f_db := db1\<rparr>)"

definition missing_result_error :: "tracking_host \<Rightarrow> string option \<Rightarrow> refresh_run \<Rightarrow> string" where
  "missing_result_error host batch_error f =
     (case f_error f of
        Some e \<Rightarrow> tracking_error_text (sqlite_text host) e
      | None \<Rightarrow> (case batch_error of Some m \<Rightarrow> m | None \<Rightarrow> ''tracking batch did not return a result''))"

text \<open>
  The state after the set-up: the activations are published first, then the rows
  that wait, with every target pending.
\<close>

definition started_run ::
  "string option \<Rightarrow> string \<Rightarrow> refresh_setup \<times> sheet_row_projection list \<Rightarrow> refresh_scope \<times> refresh_run" where
  "started_run run_id sheet_id = (\<lambda>(g, activated).
     let sc = \<lparr>sc_run_id = run_id, sc_sheet_id = sheet_id, sc_total = length (group_rows (g_groups g))\<rparr>;
         f = \<lparr>f_db = g_db g, f_groups = g_groups g, f_rows = [], f_terminal = [], f_success = 0, f_failed = 0,
              f_next = min (length (g_groups g)) max_concurrent_tracking_refresh_lookups,
              f_events = [], f_error = None\<rparr>;
         waiting = filter (\<lambda>r. p_row_status r = Row_Pending) (group_rows (g_groups g))
     in (sc, f\<lparr>f_events := map (event_for sc f) (activated @ waiting)\<rparr>))"

definition finish_run ::
  "tracking_host \<Rightarrow> env \<Rightarrow> refresh_scope \<Rightarrow> string option \<Rightarrow> (string \<times> string \<times> string) list \<Rightarrow> refresh_run \<Rightarrow> refresh_run" where
  "finish_run host env sc batch_error targets f =
     (let message = missing_result_error host batch_error f
      in fold (finish_target env sc message) targets (finish_groups env sc message (group_rows (f_groups f)) f))"

text \<open>
  The whole refresh.  \<open>others\<close> is what other connections do between the last
  delivery and the end of the batch, \<open>batch_error\<close> the error of the batch itself.
\<close>

record refresh_request =
  rq_sheet_id :: string
  rq_row_ids :: "string list"
  rq_run_id :: "string option"
  rq_expected :: "int option"

record batch_outcome =
  bo_deliveries :: "delivery list"
  bo_others :: "workspace_db \<Rightarrow> workspace_db"
  bo_error :: "string option"
  bo_env :: env

definition requested_row_ids :: "refresh_request \<Rightarrow> workspace_db \<Rightarrow> string list" where
  "requested_row_ids rq db =
     (if rq_row_ids rq = [] then list_sheet_row_ids (rq_sheet_id rq) (base db) else rq_row_ids rq)"

definition refresh_sheet_rows_with_progress ::
  "tracking_host \<Rightarrow> env \<Rightarrow> refresh_request \<Rightarrow> batch_outcome \<Rightarrow> workspace_db
   \<Rightarrow> (tracking_engine_error + sheet_rows_refresh_result) \<times> refresh_event list \<times> workspace_db" where
  "refresh_sheet_rows_with_progress host env rq batch db =
     (case atomic_write (refresh_setup_body env (rq_expected rq) (rq_sheet_id rq) (requested_row_ids rq db)) db of
        (Inl e, db1) \<Rightarrow> (Inl e, [], db1)
      | (Inr setup, db1) \<Rightarrow>
          let (sc, f0) = started_run (rq_run_id rq) (rq_sheet_id rq) setup;
              f1 = fold (deliver host sc) (bo_deliveries batch) f0;
              f2 = f1\<lparr>f_db := bo_others batch (f_db f1)\<rparr>;
              f = finish_run host (bo_env batch) sc (bo_error batch) (g_targets (fst setup)) f2
          in (case f_error f of
                Some e \<Rightarrow> Inl e
              | None \<Rightarrow> Inr \<lparr>rr_run_id = rq_run_id rq, rr_sheet_id = rq_sheet_id rq, rr_success_count = f_success f,
                             rr_failed_count = f_failed f, rr_rows = f_rows f\<rparr>,
              f_events f, f_db f))"

end
