(* ===== verification/DocumentRestore.thy ===== *)
theory DocumentRestore
  imports TrackingRecords
begin

text \<open>
  \<open>restore_workspace\<close> of \<open>storage.rs\<close>: one transaction that replaces (or, for a
  seed, completes) the sheets of the primary workspace by those of a document,
  with the shipments the document carries, and moves the document generation on,
  so that a tracking refresh bound to the former document is refused.
\<close>

record restore_row_input =
  re_row_id :: string
  re_position :: nat
  re_display_tracking_id :: string
  re_shipment :: "json option"
  re_row_status :: "sheet_row_status option"
  re_error_message :: "string option"

record restore_sheet_input =
  rs_sheet_id :: string
  rs_name :: string
  rs_position :: nat
  rs_rows :: "restore_row_input list"

record restore_workspace_input =
  rw_sheets :: "restore_sheet_input list"
  rw_seed_only :: bool

subsection \<open>Rows\<close>

definition restored_status :: "restore_row_input \<Rightarrow> sheet_row_status" where
  "restored_status row =
     (case re_row_status row of
        Some st \<Rightarrow> if st = Row_Loading \<or> st = Row_Pending then Row_Failed else st
      | None \<Rightarrow> if re_shipment row \<noteq> None then Row_Loaded else Row_Empty)"

text \<open>
  The record of a shipment: the object without its \<open>detail\<close> and \<open>status_akhir\<close>
  is the history.
\<close>

definition shipment_parts :: "string \<Rightarrow> json \<Rightarrow> store_error + (json \<times> json \<times> json_object)" where
  "shipment_parts rid shipment =
     and_then (ok_or (Invalid_Value ''shipment'' rid) (as_object shipment)) (\<lambda>history.
       let (detail, h1) = json_remove ''detail'' history
       in and_then (ok_or (Invalid_Value ''shipment_detail'' rid) (Option.bind detail (\<lambda>v. if is_object v then Some v else None)))
            (\<lambda>d. let (status, h2) = json_remove ''status_akhir'' h1
                 in and_then (ok_or (Invalid_Value ''shipment_status'' rid)
                       (Option.bind status (\<lambda>v. if is_object v then Some v else None)))
                      (\<lambda>st. Inr (d, st, h2))))"

definition attach_shipment ::
  "env \<Rightarrow> nat \<Rightarrow> restore_row_input \<Rightarrow> resolved_tracking_id \<Rightarrow> json \<Rightarrow> workspace_db \<Rightarrow> store_error + workspace_db" where
  "attach_shipment env k row resolved shipment db =
     and_then (shipment_parts (re_row_id row) shipment) (\<lambda>(d, st, h).
       let record_id = ''document:'' @ gen env k
       in if find_by t_id record_id (records db) \<noteq> None
          then Inl (Sqlite (Unique_Constraint ''tracking_records.id''))
          else Inr (map_rows (update_where (\<lambda>r. r_id r = re_row_id row)
                      (\<lambda>r. r\<lparr>r_tracking_record_id := Some record_id\<rparr>))
                 (db\<lparr>records := records db @
                    [\<lparr>t_id = record_id, t_display_id = rti_display_id resolved, t_lookup_id = rti_lookup_id resolved,
                      t_normalized_status = Option.bind (json_get ''status'' st) as_str,
                      t_status_json = st, t_detail_json = d, t_history_json = JObj h, t_raw_blob_id = None,
                      t_fetched_at = now env,
                      t_source_url = (case Option.bind (json_get ''url'' shipment) as_str of None \<Rightarrow> '''' | Some u \<Rightarrow> u)\<rparr>]\<rparr>)))"

text \<open>
  The loop over the rows of a sheet.  \<open>k\<close> counts the generation tokens drawn, the
  sets are the row ids seen in the document and the positions seen in the sheet.
\<close>

fun restore_rows ::
  "env \<Rightarrow> string \<Rightarrow> nat \<Rightarrow> string set \<Rightarrow> nat set \<Rightarrow> restore_row_input list \<Rightarrow> workspace_db
   \<Rightarrow> store_error + (nat \<times> string set \<times> workspace_db)" where
  "restore_rows env sid k ids ps [] db = Inr (k, ids, db)"
| "restore_rows env sid k ids ps (row # rs) db =
     (if trim (re_row_id row) = [] \<or> trim (re_display_tracking_id row) = []
         \<or> re_row_id row \<in> ids \<or> re_position row \<in> ps
      then Inl (Invalid_Value ''document_row'' (re_row_id row))
      else
        let resolved = resolve_tracking_id (re_display_tracking_id row);
            input = \<lparr>ur_row_id = re_row_id row, ur_sheet_id = sid, ur_position = re_position row,
                     ur_display_id = rti_display_id resolved, ur_lookup_id = rti_lookup_id resolved,
                     ur_status = restored_status row, ur_error_message = re_error_message row\<rparr>
        in and_then (upsert_sheet_row_on env k input (base db)) (\<lambda>s.
             let db1 = db\<lparr>base := s\<rparr>
             in case re_shipment row of
                  None \<Rightarrow> restore_rows env sid (Suc k) (insert (re_row_id row) ids) (insert (re_position row) ps) rs db1
                | Some shipment \<Rightarrow>
                    and_then (attach_shipment env (Suc k) row resolved shipment db1)
                      (restore_rows env sid (Suc (Suc k)) (insert (re_row_id row) ids) (insert (re_position row) ps) rs)))"

subsection \<open>Sheets\<close>

text \<open>
  \<open>INSERT ... ON CONFLICT(id) DO UPDATE ... WHERE sheets.workspace_id = excluded.workspace_id\<close>,
  then the check of the owner.
\<close>

definition upsert_document_sheet ::
  "env \<Rightarrow> string \<Rightarrow> restore_sheet_input \<Rightarrow> workspace_db \<Rightarrow> store_error + workspace_db" where
  "upsert_document_sheet env wid sheet db =
     (case find_by s_id (rs_sheet_id sheet) (sheets (base db)) of
        None \<Rightarrow>
          if find_by w_id wid (workspaces db) = None then Inl (Sqlite Foreign_Key_Constraint)
          else Inr (db\<lparr>base := (base db)\<lparr>sheets := sheets (base db) @
                 [\<lparr>s_id = rs_sheet_id sheet, s_workspace_id = wid, s_name = trim (rs_name sheet),
                   s_position = rs_position sheet, s_created_at = now env, s_updated_at = now env\<rparr>]\<rparr>\<rparr>)
      | Some old \<Rightarrow>
          if s_workspace_id old \<noteq> wid then Inl (Invalid_Value ''document_sheet_owner'' (rs_sheet_id sheet))
          else Inr (db\<lparr>base := (base db)\<lparr>sheets := update_where (\<lambda>x. s_id x = rs_sheet_id sheet)
                 (\<lambda>x. x\<lparr>s_name := trim (rs_name sheet), s_position := rs_position sheet, s_updated_at := now env\<rparr>)
                 (sheets (base db))\<rparr>\<rparr>))"

fun restore_sheets ::
  "env \<Rightarrow> string \<Rightarrow> bool \<Rightarrow> nat \<Rightarrow> string set \<Rightarrow> nat set \<Rightarrow> string set \<Rightarrow> restore_sheet_input list
   \<Rightarrow> workspace_db \<Rightarrow> store_error + workspace_db" where
  "restore_sheets env wid seed_only k sids sps ids [] db = Inr db"
| "restore_sheets env wid seed_only k sids sps ids (sheet # rest) db =
     (let sid = rs_sheet_id sheet
      in if trim sid = [] \<or> trim (rs_name sheet) = [] \<or> sid \<in> sids \<or> rs_position sheet \<in> sps
         then Inl (Invalid_Value ''document_sheet'' sid)
         else and_then (upsert_document_sheet env wid sheet db) (\<lambda>db1.
           let existing = count_where (\<lambda>r. r_sheet_id r = sid) (db_rows db1)
           in if u32_max < existing then Inl (Sqlite (Integral_Value_Out_Of_Range existing))
              else if seed_only \<and> 0 < existing
              then restore_sheets env wid seed_only k (insert sid sids) (insert (rs_position sheet) sps) ids rest db1
              else and_then (restore_rows env sid k ids {} (rs_rows sheet) db1) (\<lambda>(k', ids', db2).
                restore_sheets env wid seed_only k' (insert sid sids) (insert (rs_position sheet) sps) ids' rest
                  (drop_cache_of {sid} db2))))"

subsection \<open>The transaction\<close>

text \<open>\<open>DELETE FROM sheets WHERE workspace_id\<close>, with the cascades.\<close>

definition delete_sheets_of_workspace :: "string \<Rightarrow> workspace_db \<Rightarrow> workspace_db" where
  "delete_sheets_of_workspace wid db =
     db\<lparr>base := fold delete_sheet (map s_id (filter (\<lambda>x. s_workspace_id x = wid) (sheets (base db)))) (base db)\<rparr>"

text \<open>\<open>LIKE\<close> ignores the case of ASCII letters.\<close>

definition delete_orphan_documents :: "workspace_db \<Rightarrow> workspace_db" where
  "delete_orphan_documents db =
     db\<lparr>records := filter (\<lambda>t. \<not> (starts_with ''document:'' (to_ascii_lowercase (t_id t))
          \<and> (\<forall>r \<in> set (db_rows db). r_tracking_record_id r \<noteq> Some (t_id t)))) (records db)\<rparr>"

definition restore_workspace :: "env \<Rightarrow> restore_workspace_input \<Rightarrow> (store_error, unit) db_operation" where
  "restore_workspace env input db =
     (case primary_workspace_id db of
        None \<Rightarrow> (Inl (Invalid_Value ''workspace'' ''primary''), db)
      | Some wid \<Rightarrow>
          if rw_sheets input = [] then (Inl (Invalid_Value ''sheets'' ''empty''), db)
          else atomic_write (\<lambda>db.
            let db1 = (if rw_seed_only input then db
                       else delete_sheets_of_workspace wid (db\<lparr>generation := generation db + 1\<rparr>))
            in and_then (restore_sheets env wid (rw_seed_only input) 0 {} {} {} (rw_sheets input) db1)
                 (\<lambda>db2. Inr ((), delete_orphan_documents db2))) db)"

subsection \<open>The steps of the loops\<close>

definition document_row :: "string \<Rightarrow> restore_row_input \<Rightarrow> upsert_sheet_row_input" where
  "document_row sid row =
     (let resolved = resolve_tracking_id (re_display_tracking_id row)
      in \<lparr>ur_row_id = re_row_id row, ur_sheet_id = sid, ur_position = re_position row,
          ur_display_id = rti_display_id resolved, ur_lookup_id = rti_lookup_id resolved,
          ur_status = restored_status row, ur_error_message = re_error_message row\<rparr>)"

definition place_shipment :: "env \<Rightarrow> nat \<Rightarrow> restore_row_input \<Rightarrow> workspace_db \<Rightarrow> store_error + workspace_db" where
  "place_shipment env k row db =
     (case re_shipment row of
        None \<Rightarrow> Inr db
      | Some shipment \<Rightarrow> attach_shipment env k row (resolve_tracking_id (re_display_tracking_id row)) shipment db)"

lemma restore_rows_cons:
  assumes "restore_rows env sid k ids ps (row # rs) db = Inr (k', ids', db')"
  obtains s db2 k2 where "re_row_id row \<notin> ids" "re_position row \<notin> ps"
    "upsert_sheet_row_on env k (document_row sid row) (base db) = Inr s"
    "place_shipment env (Suc k) row (db\<lparr>base := s\<rparr>) = Inr db2"
    "restore_rows env sid k2 (insert (re_row_id row) ids) (insert (re_position row) ps) rs db2 = Inr (k', ids', db')"
proof -
  from assms have fresh: "re_row_id row \<notin> ids" "re_position row \<notin> ps" by (auto split: if_splits)
  from assms obtain s where s: "upsert_sheet_row_on env k (document_row sid row) (base db) = Inr s"
    by (auto simp: Let_def document_row_def and_then_Inr_iff split: if_splits)
  show thesis
  proof (cases "re_shipment row")
    case None
    with assms s fresh show ?thesis
      by (intro that [OF fresh s, of "db\<lparr>base := s\<rparr>" "Suc k"])
        (auto simp: Let_def document_row_def place_shipment_def split: if_splits)
  next
    case (Some v)
    with assms s obtain db2 where
      "attach_shipment env (Suc k) row (resolve_tracking_id (re_display_tracking_id row)) v (db\<lparr>base := s\<rparr>) = Inr db2"
      "restore_rows env sid (Suc (Suc k)) (insert (re_row_id row) ids) (insert (re_position row) ps) rs db2 = Inr (k', ids', db')"
      by (auto simp: Let_def document_row_def and_then_Inr_iff split: if_splits)
    with Some show ?thesis by (intro that [OF fresh s, of db2 "Suc (Suc k)"]) (simp_all add: place_shipment_def)
  qed
qed

lemma restore_sheets_cons:
  assumes "restore_sheets env wid seed k sids sps ids (sheet # ss) db = Inr db'"
  obtains (skipped) db1 where "rs_sheet_id sheet \<notin> sids" "upsert_document_sheet env wid sheet db = Inr db1"
      "seed" "0 < count_where (\<lambda>r. r_sheet_id r = rs_sheet_id sheet) (db_rows db1)"
      "restore_sheets env wid seed k (insert (rs_sheet_id sheet) sids) (insert (rs_position sheet) sps) ids ss db1 = Inr db'"
  | (restored) db1 k2 ids2 db2 where "rs_sheet_id sheet \<notin> sids" "upsert_document_sheet env wid sheet db = Inr db1"
      "restore_rows env (rs_sheet_id sheet) k ids {} (rs_rows sheet) db1 = Inr (k2, ids2, db2)"
      "restore_sheets env wid seed k2 (insert (rs_sheet_id sheet) sids) (insert (rs_position sheet) sps) ids2 ss
         (drop_cache_of {rs_sheet_id sheet} db2) = Inr db'"
proof -
  let ?sid = "rs_sheet_id sheet"
  from assms have fresh: "?sid \<notin> sids" by (auto simp: Let_def split: if_splits)
  from assms obtain db1 where db1: "upsert_document_sheet env wid sheet db = Inr db1"
    by (auto simp: Let_def and_then_Inr_iff split: if_splits)
  let ?n = "count_where (\<lambda>r. r_sheet_id r = ?sid) (db_rows db1)"
  show thesis
  proof (cases "seed \<and> 0 < ?n")
    case True
    then have "restore_sheets env wid seed k (insert ?sid sids) (insert (rs_position sheet) sps) ids ss db1 = Inr db'"
      using assms db1 by (auto simp: Let_def split: if_splits)
    with True skipped [OF fresh db1] show ?thesis by blast
  next
    case False
    then have "and_then (restore_rows env ?sid k ids {} (rs_rows sheet) db1) (\<lambda>(k', ids', db2).
        restore_sheets env wid seed k' (insert ?sid sids) (insert (rs_position sheet) sps) ids' ss
          (drop_cache_of {?sid} db2)) = Inr db'"
      using assms unfolding restore_sheets.simps Let_def db1 and_then_simps if_not_P [OF False]
      by (auto simp only: sum.distinct split: if_splits)
    then show ?thesis using restored [OF fresh db1] by (auto simp: and_then_Inr_iff)
  qed
qed

lemma attach_shipment_Inr:
  assumes "attach_shipment env k row resolved v db = Inr db2"
  obtains d st h t where "shipment_parts (re_row_id row) v = Inr (d, st, h)"
    "find_by t_id (''document:'' @ gen env k) (records db) = None"
    "t_id t = ''document:'' @ gen env k" "t_status_json t = st" "t_detail_json t = d" "t_history_json t = JObj h"
    "t_raw_blob_id t = None"
    "db2 = map_rows (update_where (\<lambda>r. r_id r = re_row_id row)
        (\<lambda>r. r\<lparr>r_tracking_record_id := Some (''document:'' @ gen env k)\<rparr>)) (db\<lparr>records := records db @ [t]\<rparr>)"
proof -
  from assms obtain d st h where parts: "shipment_parts (re_row_id row) v = Inr (d, st, h)"
    by (auto simp: attach_shipment_def and_then_Inr_iff)
  with assms have free: "find_by t_id (''document:'' @ gen env k) (records db) = None"
    unfolding attach_shipment_def by (simp only: and_then_simps prod.case Let_def split: if_splits) auto
  show thesis
    by (rule that [OF parts free, of
          "\<lparr>t_id = ''document:'' @ gen env k, t_display_id = rti_display_id resolved, t_lookup_id = rti_lookup_id resolved,
            t_normalized_status = Option.bind (json_get ''status'' st) as_str, t_status_json = st, t_detail_json = d,
            t_history_json = JObj h, t_raw_blob_id = None, t_fetched_at = now env,
            t_source_url = (case Option.bind (json_get ''url'' v) as_str of None \<Rightarrow> '''' | Some u \<Rightarrow> u)\<rparr>"])
      (use assms free in \<open>simp_all add: attach_shipment_def parts Let_def\<close>)
qed

end
