(* ===== verification/TrackingFacts.thy ===== *)
theory TrackingFacts
  imports TrackingRefresh
begin

text \<open>
  Facts about the tracking refresh, in the style of rely and guarantee: what the
  guarded updates do to the rows (\<open>touches\<close>), which rows wait for a result
  (\<open>waiting_keys\<close>), the invariant of a run (\<open>run_ok\<close>: counters, terminal rows,
  groups) and its preservation by the set-up, a delivery, other connections
  (\<open>rely\<close>) and the end of the run.
\<close>

subsection \<open>The effect of the guarded updates on the rows\<close>

definition row_key :: "sheet_row \<Rightarrow> string \<times> string \<times> string" where
  "row_key r = (r_id r, r_lookup_id r, r_generation r)"

lemma row_matches_key: "row_matches rid l g = (\<lambda>r. row_key r = (rid, l, g))"
  by (auto simp: fun_eq_iff row_matches_def row_key_def)

lemma db_rows_drop_cache [simp]: "db_rows (drop_cache_of sids db) = db_rows db"
  by (simp add: drop_cache_of_def)

lemma db_rows_map_rows [simp]: "db_rows (map_rows f db) = f (db_rows db)"
  by (simp add: map_rows_def)

lemma db_rows_invalidate [simp]:
  "db_rows (invalidate_analytics_cache_for_row rid db) = db_rows db"
  "db_rows (invalidate_analytics_cache_for_tracking_record tid db) = db_rows db"
  by (simp_all add: invalidate_analytics_cache_for_row_def invalidate_analytics_cache_for_tracking_record_def)

lemma row_key_set_status [simp]: "row_key (set_status env input r) = row_key r"
  by (simp add: row_key_def set_status_def)

definition with_key :: "string \<times> string \<times> string \<Rightarrow> (sheet_row \<Rightarrow> sheet_row) \<Rightarrow> sheet_row list \<Rightarrow> sheet_row list" where
  "with_key k f = update_where (\<lambda>r. row_key r = k) f"

lemma update_row_rows:
  assumes "update_row env st message row db = (updated, db1)"
  shows "db_rows db1 = with_key (target_of row)
      (set_status env \<lparr>us_row_id = p_row_id row, us_row_status = st, us_error_message = message\<rparr>) (db_rows db)"
    and "updated \<longleftrightarrow> (\<exists>r \<in> set (db_rows db). row_key r = target_of row)"
  using assms
  by (auto simp: update_row_def update_sheet_row_status_if_lookup_matches_def Let_def row_matches_key
      with_key_def target_of_def count_where_def filter_empty_conv split: if_splits)

text \<open>A row that is written keeps everything but its record, status, message and time.\<close>

definition same_row :: "sheet_row \<Rightarrow> sheet_row \<Rightarrow> bool" where
  "same_row r r' \<longleftrightarrow> r' = r\<lparr>r_tracking_record_id := r_tracking_record_id r', r_status := r_status r',
                            r_error_message := r_error_message r', r_updated_at := r_updated_at r'\<rparr>"

definition touches :: "(string \<times> string \<times> string) set \<Rightarrow> sheet_row list \<Rightarrow> sheet_row list \<Rightarrow> bool" where
  "touches T rs rs' \<longleftrightarrow> list_all2 (\<lambda>r r'. r' = r \<or> row_key r \<in> T \<and> same_row r r') rs rs'"

lemma same_row_refl [simp]: "same_row r r"
  by (simp add: same_row_def)

lemma same_row_key: "same_row r r' \<Longrightarrow> row_key r' = row_key r"
  unfolding same_row_def by (cases r, cases r') (simp add: row_key_def)

lemma same_row_trans: "same_row a b \<Longrightarrow> same_row b c \<Longrightarrow> same_row a c"
  unfolding same_row_def by (cases a, cases b, cases c) simp

lemma touches_refl [simp]: "touches T rs rs"
  by (simp add: touches_def list_all2_refl)

lemma touches_trans: "touches T a b \<Longrightarrow> touches T b c \<Longrightarrow> touches T a c"
  unfolding touches_def
  by (erule list_all2_trans [rotated], assumption) (auto dest: same_row_key intro: same_row_trans)

lemma touches_with_key:
  assumes "k \<in> T" "\<And>r. same_row r (f r)"
  shows "touches T rs (with_key k f rs)"
  using assms by (induction rs) (auto simp: touches_def with_key_def)

lemma same_row_set_status [simp]: "same_row r (set_status env input r)"
  by (cases r) (simp add: same_row_def set_status_def)

lemma touches_update_row:
  "update_row env st message row db = (updated, db1) \<Longrightarrow> target_of row \<in> T \<Longrightarrow> touches T (db_rows db) (db_rows db1)"
  by (simp add: update_row_rows touches_with_key)

text \<open>Rows no target matches are left as they are.\<close>

lemma touches_keeps: "touches T rs rs' \<Longrightarrow> r \<in> set rs \<Longrightarrow> row_key r \<notin> T \<Longrightarrow> r \<in> set rs'"
  unfolding touches_def by (induction rs rs' rule: list_all2_induct) auto

subsection \<open>Waiting rows\<close>

definition waiting_keys :: "sheet_row list \<Rightarrow> (string \<times> string \<times> string) set" where
  "waiting_keys rs = row_key ` {r \<in> set rs. r_status r \<in> {Row_Pending, Row_Loading}}"

lemma waiting_with_key:
  assumes "\<And>r. row_key (f r) = row_key r" "\<And>r. r_status (f r) = st" "st \<notin> {Row_Pending, Row_Loading}"
  shows "waiting_keys (with_key k f rs) = waiting_keys rs - {k}"
  using assms by (auto simp: waiting_keys_def with_key_def in_update_where image_iff)

lemma waiting_with_key_le:
  assumes "\<And>r. row_key (f r) = row_key r"
  shows "waiting_keys (with_key k f rs) \<subseteq> insert k (waiting_keys rs)"
  using assms by (auto simp: waiting_keys_def with_key_def in_update_where image_iff)

lemma update_row_waiting:
  assumes "update_row env st message row db = (updated, db1)"
  shows "waiting_keys (db_rows db1) \<subseteq> insert (target_of row) (waiting_keys (db_rows db))"
  by (simp add: update_row_rows [OF assms] waiting_with_key_le)

subsection \<open>Storing a failure\<close>

lemma find_by_with_key:
  assumes "\<And>r. row_key (f r) = row_key r"
  shows "find_by r_id rid (with_key k f rs) = map_option (\<lambda>r. if row_key r = k then f r else r) (find_by r_id rid rs)"
proof -
  have "r_id (f r) = r_id r" for r using assms [of r] by (simp add: row_key_def)
  then show ?thesis by (induction rs) (auto simp: with_key_def)
qed

lemma current_rowD:
  assumes "current_row row db = Some stored"
  obtains r where "r \<in> set (db_rows db)" "row_key r = target_of row" "stored = project_row db r"
    "target_of stored = target_of row" "p_row_status stored = r_status r" "p_row_id stored = p_row_id row"
proof -
  from assms obtain r where "find_by r_id (p_row_id row) (db_rows db) = Some r" "stored = project_row db r"
    "r_lookup_id r = p_lookup_tracking_id row" "r_generation r = p_row_generation row"
    by (auto simp: current_row_def get_sheet_row_def project_row_def Let_def bind_eq_Some_conv split: if_splits)
  then show thesis
    using that [of r] find_by_SomeD [of r_id "p_row_id row" "db_rows db" r]
    by (auto simp: row_key_def target_of_def project_row_def Let_def)
qed

lemma store_failed_spec:
  assumes "store_failed_tracking_lookup env row message db = (stored, db1)"
  shows "target_of row \<in> T \<Longrightarrow> touches T (db_rows db) (db_rows db1)"
    and "waiting_keys (db_rows db1) = waiting_keys (db_rows db) - {target_of row}"
    and "stored = Some s \<Longrightarrow> target_of s = target_of row \<and> p_row_status s = Row_Failed"
proof -
  obtain updated where up: "update_row env Row_Failed (Some message) row db = (updated, db1)"
    and stored: "stored = (if updated then current_row row db1 else None)"
    using assms by (auto simp: store_failed_tracking_lookup_def Let_def split: prod.splits)
  let ?f = "set_status env \<lparr>us_row_id = p_row_id row, us_row_status = Row_Failed, us_error_message = Some message\<rparr>"
  have rows: "db_rows db1 = with_key (target_of row) ?f (db_rows db)"
    by (rule update_row_rows(1) [OF up])
  show "target_of row \<in> T \<Longrightarrow> touches T (db_rows db) (db_rows db1)"
    by (rule touches_update_row [OF up])
  show "waiting_keys (db_rows db1) = waiting_keys (db_rows db) - {target_of row}"
    unfolding rows by (rule waiting_with_key [where st = Row_Failed]) (simp_all add: set_status_def row_key_def)
  show "target_of s = target_of row \<and> p_row_status s = Row_Failed" if "stored = Some s"
  proof -
    from that stored have "current_row row db1 = Some s" by (simp split: if_splits)
    then obtain r where "r \<in> set (db_rows db1)" "row_key r = target_of row" "target_of s = target_of row"
      "p_row_status s = r_status r" by (rule current_rowD)
    then show ?thesis by (auto simp: rows with_key_def in_update_where set_status_def)
  qed
qed

subsection \<open>Storing a response\<close>

lemma upsert_raw_blob_base: "base (snd (upsert_raw_blob env input db)) = base db"
  by (simp add: upsert_raw_blob_def)

lemma store_raw_response_blob_rows:
  "store_raw_response_blob host env response db = (r, db1) \<Longrightarrow> base db1 = base db"
  using upsert_raw_blob_base [of env _ db]
  by (auto simp: store_raw_response_blob_def split: option.splits sum.splits prod.splits) (metis snd_conv)+

lemma upsert_record_on_base: "upsert_record_on env input db = Inr db1 \<Longrightarrow> base db1 = base db"
  by (auto simp: upsert_record_on_def Let_def split: if_splits)

lemma attach_rows:
  assumes "upsert_tracking_record_and_attach_if_row_matches env record a l g db = (r, db1)"
  shows "db_rows db1 = db_rows db \<and> r \<noteq> Inr True
    \<or> r = Inr True \<and> db_rows db1 = with_key (at_row_id a, l, g)
        (\<lambda>r. r\<lparr>r_tracking_record_id := Some (at_tracking_record_id a), r_status := at_row_status a,
               r_error_message := at_error_message a, r_updated_at := now env\<rparr>) (db_rows db)"
proof -
  have "db_rows db2 = db_rows db" if "upsert_record_on env record db = Inr db2" for db2
    by (simp add: upsert_record_on_base [OF that])
  then show ?thesis
    using assms
    by (auto simp: upsert_tracking_record_and_attach_if_row_matches_def Let_def attach_where_def row_matches_key
        with_key_def split: if_splits sum.splits)
qed

lemma store_successful_cases:
  assumes "store_successful_tracking_response host env row response db = (r, db1)"
  obtains (kept) "db_rows db1 = db_rows db" "\<And>s. r \<noteq> Inr (Some s)"
  | (attached) "r = Inr (current_row row db1)" "db_rows db1 = with_key (target_of row)
      (\<lambda>r. r\<lparr>r_tracking_record_id := Some (tracking_record_id (p_lookup_tracking_id row)), r_status := Row_Loaded,
             r_error_message := None, r_updated_at := now env\<rparr>) (db_rows db)"
proof (cases "store_raw_response_blob host env response db")
  case (Pair b db2)
  note base2 = store_raw_response_blob_rows [OF Pair]
  show thesis
  proof (cases b)
    case (Inl e)
    with Pair assms base2 show ?thesis by (auto simp: store_successful_tracking_response_def intro: kept)
  next
    case (Inr blob)
    let ?a = "\<lparr>at_row_id = p_row_id row, at_tracking_record_id = tracking_record_id (p_lookup_tracking_id row),
               at_row_status = Row_Loaded, at_error_message = None\<rparr>"
    obtain r3 db3 where up: "upsert_tracking_record_and_attach_if_row_matches env
        (record_of_response (p_lookup_tracking_id row) blob response) ?a
        (p_lookup_tracking_id row) (p_row_generation row) db2 = (r3, db3)" by fastforce
    have "db1 = db3" and r: "r = (case r3 of Inl e \<Rightarrow> Inl (TE_Store e)
        | Inr attached \<Rightarrow> Inr (if attached then current_row row db3 else None))"
      using assms Pair Inr up by (auto simp: store_successful_tracking_response_def split: sum.splits)
    from attach_rows [OF up] show ?thesis
    proof
      assume "db_rows db3 = db_rows db2 \<and> r3 \<noteq> Inr True"
      with r \<open>db1 = db3\<close> base2 show ?thesis by (intro kept) (auto split: sum.splits)
    next
      assume "r3 = Inr True \<and> db_rows db3 = with_key (at_row_id ?a, p_lookup_tracking_id row, p_row_generation row)
        (\<lambda>r. r\<lparr>r_tracking_record_id := Some (at_tracking_record_id ?a), r_status := at_row_status ?a,
               r_error_message := at_error_message ?a, r_updated_at := now env\<rparr>) (db_rows db2)"
      with r \<open>db1 = db3\<close> base2 show ?thesis by (intro attached) (auto simp: target_of_def)
    qed
  qed
qed

lemma store_successful_spec:
  assumes "store_successful_tracking_response host env row response db = (r, db1)"
  shows "target_of row \<in> T \<Longrightarrow> touches T (db_rows db) (db_rows db1)"
    and "waiting_keys (db_rows db1) \<subseteq> waiting_keys (db_rows db)"
    and "r = Inr (Some s) \<Longrightarrow> target_of s = target_of row \<and> p_row_status s = Row_Loaded
           \<and> target_of row \<notin> waiting_keys (db_rows db1)"
proof -
  let ?f = "\<lambda>r. r\<lparr>r_tracking_record_id := Some (tracking_record_id (p_lookup_tracking_id row)), r_status := Row_Loaded,
             r_error_message := None, r_updated_at := now env\<rparr>"
  have key: "row_key (?f q) = row_key q" for q by (simp add: row_key_def)
  have same: "same_row q (?f q)" for q by (cases q) (simp add: same_row_def)
  from assms show "target_of row \<in> T \<Longrightarrow> touches T (db_rows db) (db_rows db1)"
    by (cases rule: store_successful_cases) (simp_all add: touches_with_key same)
  have wait: "waiting_keys (with_key (target_of row) ?f (db_rows db)) = waiting_keys (db_rows db) - {target_of row}"
    by (rule waiting_with_key [where st = Row_Loaded]) (simp_all add: key)
  from assms show "waiting_keys (db_rows db1) \<subseteq> waiting_keys (db_rows db)"
    by (cases rule: store_successful_cases) (auto simp: wait)
  assume "r = Inr (Some s)"
  from assms show "target_of s = target_of row \<and> p_row_status s = Row_Loaded
      \<and> target_of row \<notin> waiting_keys (db_rows db1)"
  proof (cases rule: store_successful_cases)
    case attached
    with \<open>r = Inr (Some s)\<close> have "current_row row db1 = Some s" by simp
    then obtain q where "q \<in> set (db_rows db1)" "row_key q = target_of row" "target_of s = target_of row"
      "p_row_status s = r_status q" by (rule current_rowD)
    moreover from calculation have "r_status q = Row_Loaded"
      unfolding attached(2) with_key_def in_update_where by (auto simp: key)
    ultimately show ?thesis by (simp add: attached(2) wait)
  qed (use \<open>r = Inr (Some s)\<close> in blast)
qed

subsection \<open>The invariant of a run\<close>

text \<open>
  Of a run for the targets \<open>T\<close>, one per row id: the terminal rows are those
  returned, each is a target and counted by its status, and the counters of every
  event add up to the total.
\<close>

definition run_counts :: "(string \<times> string \<times> string) set \<Rightarrow> refresh_scope \<Rightarrow> refresh_run \<Rightarrow> bool" where
  "run_counts T sc f \<longleftrightarrow>
     finite T \<and> card T = sc_total sc \<and> inj_on fst T
     \<and> f_terminal f = map p_row_id (f_rows f) \<and> distinct (f_terminal f)
     \<and> target_of ` set (f_rows f) \<subseteq> T
     \<and> f_success f = count_where (\<lambda>r. p_row_status r = Row_Loaded) (f_rows f)
     \<and> f_failed f = count_where (\<lambda>r. p_row_status r = Row_Failed) (f_rows f)
     \<and> f_success f + f_failed f = length (f_rows f)
     \<and> (\<forall>e \<in> set (f_events f). ev_success_count e + ev_failed_count e + ev_pending_count e = ev_total_count e
          \<and> ev_total_count e = sc_total sc)"

text \<open>A terminal row no longer waits.\<close>

definition run_quiet :: "(string \<times> string \<times> string) set \<Rightarrow> refresh_run \<Rightarrow> bool" where
  "run_quiet T f \<longleftrightarrow> (\<forall>k \<in> T. fst k \<in> set (f_terminal f) \<longrightarrow> k \<notin> waiting_keys (db_rows (f_db f)))"

text \<open>The guarantee of the stores of a group: what they may change, for rows with the ids.\<close>

definition advances ::
  "(string \<times> string \<times> string) set \<Rightarrow> refresh_scope \<Rightarrow> string set \<Rightarrow> refresh_run \<Rightarrow> refresh_run \<Rightarrow> bool" where
  "advances T sc ids f f' \<longleftrightarrow> run_counts T sc f' \<and> run_quiet T f'
     \<and> touches T (db_rows (f_db f)) (db_rows (f_db f'))
     \<and> waiting_keys (db_rows (f_db f')) \<subseteq> waiting_keys (db_rows (f_db f))
     \<and> f_groups f' = f_groups f \<and> f_next f' = f_next f
     \<and> set (f_terminal f) \<subseteq> set (f_terminal f') \<and> set (f_terminal f') \<subseteq> set (f_terminal f) \<union> ids"

lemma advances_trans: "advances T sc is f g \<Longrightarrow> advances T sc js g h \<Longrightarrow> advances T sc (is \<union> js) f h"
  unfolding advances_def by (auto intro: touches_trans)

lemma advances_refl: "run_counts T sc f \<Longrightarrow> run_quiet T f \<Longrightarrow> advances T sc {} f f"
  by (simp add: advances_def)

lemma advances_mono: "advances T sc is f g \<Longrightarrow> is \<subseteq> js \<Longrightarrow> advances T sc js f g"
  unfolding advances_def by blast

lemma run_counts_fields:
  "run_counts T sc (f\<lparr>f_db := db, f_error := e\<rparr>) = run_counts T sc f"
  "run_counts T sc (f\<lparr>f_db := db\<rparr>) = run_counts T sc f"
  "run_counts T sc (f\<lparr>f_groups := gs\<rparr>) = run_counts T sc f"
  "run_counts T sc (f\<lparr>f_next := n\<rparr>) = run_counts T sc f"
  by (simp_all add: run_counts_def)

lemma run_counts_terminal:
  assumes "run_counts T sc f"
  shows "set (f_terminal f) \<subseteq> fst ` T" "card (set (f_terminal f)) = length (f_rows f)" "card (fst ` T) = sc_total sc"
    "finite (fst ` T)"
proof -
  show "set (f_terminal f) \<subseteq> fst ` T"
    using assms by (auto simp: run_counts_def target_of_def image_iff) force
  have "card (set (f_terminal f)) = length (f_terminal f)"
    using assms unfolding run_counts_def by (metis distinct_card)
  also have "\<dots> = length (f_rows f)" using assms by (simp add: run_counts_def)
  finally show "card (set (f_terminal f)) = length (f_rows f)" .
  show "card (fst ` T) = sc_total sc" "finite (fst ` T)" using assms by (simp_all add: run_counts_def card_image)
qed

text \<open>Fewer rows have ended than there are targets.\<close>

lemma run_counts_room:
  assumes "run_counts T sc f" "k \<in> T" "fst k \<notin> set (f_terminal f)"
  shows "length (f_rows f) < sc_total sc"
proof -
  note counted = run_counts_terminal [OF assms(1)]
  have "set (f_terminal f) \<subset> fst ` T" using counted(1) assms(2,3) by blast
  from psubset_card_mono [OF counted(4) this] show ?thesis by (simp add: counted)
qed

lemma run_counts_bound: "run_counts T sc f \<Longrightarrow> length (f_rows f) \<le> sc_total sc"
  using card_mono [OF run_counts_terminal(4) run_counts_terminal(1)] by (simp add: run_counts_terminal)

lemma run_counts_finish_row:
  assumes "run_counts T sc f" "target_of row \<in> T" "p_row_id row \<notin> set (f_terminal f)"
    and "p_row_status row = (if success then Row_Loaded else Row_Failed)"
  shows "run_counts T sc (finish_row sc success row f)"
proof -
  have room: "length (f_rows f) < sc_total sc"
    using run_counts_room [OF assms(1,2)] assms(3) by (simp add: target_of_def)
  have len: "f_success f + f_failed f = length (f_rows f)" using assms(1) by (simp add: run_counts_def)
  show ?thesis
    using assms room len
    by (cases success) (auto simp: run_counts_def finish_row_def Let_def event_for_def pending_count_of_def count_where_def)
qed

lemma advances_skip:
  assumes "run_counts T sc f" "run_quiet T f" "touches T (db_rows (f_db f)) (db_rows db1)"
    and "waiting_keys (db_rows db1) \<subseteq> waiting_keys (db_rows (f_db f))"
  shows "advances T sc {} f (f\<lparr>f_db := db1\<rparr>)" "advances T sc {} f (f\<lparr>f_db := db1, f_error := e\<rparr>)"
  using assms by (auto simp: advances_def run_counts_fields run_quiet_def)

lemma advances_finish:
  assumes "run_counts T sc f" "run_quiet T f" "touches T (db_rows (f_db f)) (db_rows db1)"
    and "waiting_keys (db_rows db1) \<subseteq> waiting_keys (db_rows (f_db f))"
    and "target_of stored \<in> T" "p_row_id stored \<notin> set (f_terminal f)"
    and "p_row_status stored = (if success then Row_Loaded else Row_Failed)"
    and "target_of stored \<notin> waiting_keys (db_rows db1)"
  shows "advances T sc {p_row_id stored} f (finish_row sc success stored (f\<lparr>f_db := db1\<rparr>))"
proof -
  let ?f = "finish_row sc success stored (f\<lparr>f_db := db1\<rparr>)"
  have counts: "run_counts T sc ?f"
    using assms by (intro run_counts_finish_row) (simp_all add: run_counts_fields)
  have fields: "f_db ?f = db1" "f_groups ?f = f_groups f" "f_next ?f = f_next f"
    "f_terminal ?f = f_terminal f @ [p_row_id stored]"
    by (simp_all add: finish_row_def Let_def)
  have "run_quiet T ?f"
    unfolding run_quiet_def fields
  proof (intro ballI impI)
    fix k assume k: "k \<in> T" "fst k \<in> set (f_terminal f @ [p_row_id stored])"
    show "k \<notin> waiting_keys (db_rows db1)"
    proof (cases "fst k = p_row_id stored")
      case True
      then have "fst k = fst (target_of stored)" by (simp add: target_of_def)
      moreover have "inj_on fst T" using assms(1) by (simp add: run_counts_def)
      ultimately have "k = target_of stored" using k(1) assms(5) by (auto dest: inj_onD)
      with assms(8) show ?thesis by simp
    next
      case False
      with k assms(2,4) show ?thesis by (auto simp: run_quiet_def)
    qed
  qed
  with counts assms(3,4) show ?thesis by (auto simp: advances_def fields)
qed

subsection \<open>The loops\<close>

lemma advances_parts:
  assumes "advances T sc ids f g"
  shows "run_counts T sc g" "run_quiet T g" "set (f_terminal g) \<subseteq> set (f_terminal f) \<union> ids"
  using assms by (simp_all add: advances_def)

lemma target_of_fst [simp]: "fst (target_of row) = p_row_id row"
  by (simp add: target_of_def)

lemma target_of_eq_id: "target_of a = target_of b \<Longrightarrow> p_row_id a = p_row_id b"
  by (simp add: target_of_def)

lemma disjoint_extend: "A \<subseteq> B \<union> {x} \<Longrightarrow> x \<notin> S \<Longrightarrow> S \<inter> B = {} \<Longrightarrow> S \<inter> A = {}"
  by blast

lemma store_failed_step:
  assumes "run_counts T sc f" "run_quiet T f" "target_of row \<in> T" "p_row_id row \<notin> set (f_terminal f)"
    and run: "store_failed_tracking_lookup env row message (f_db f) = (stored, db1)"
    and f1: "f1 = (case stored of Some s \<Rightarrow> finish_row sc False s (f\<lparr>f_db := db1\<rparr>) | None \<Rightarrow> f\<lparr>f_db := db1\<rparr>)"
  shows "advances T sc {p_row_id row} f f1 \<and> target_of row \<notin> waiting_keys (db_rows (f_db f1))"
proof -
  note spec = store_failed_spec [OF run]
  have db: "f_db f1 = db1" by (auto simp: f1 finish_row_def Let_def split: option.split)
  have fewer: "waiting_keys (db_rows db1) \<subseteq> waiting_keys (db_rows (f_db f))"
    and gone: "target_of row \<notin> waiting_keys (db_rows db1)"
    by (auto simp: spec(2))
  have "advances T sc {p_row_id row} f f1"
  proof (cases stored)
    case None
    then have "f1 = f\<lparr>f_db := db1\<rparr>" by (simp add: f1)
    with advances_skip(1) [OF assms(1,2) spec(1) [OF assms(3)] fewer] show ?thesis
      by (auto intro: advances_mono)
  next
    case (Some s)
    then have f1: "f1 = finish_row sc False s (f\<lparr>f_db := db1\<rparr>)" by (simp add: f1)
    from spec(3) [OF Some] have s: "target_of s = target_of row" "p_row_status s = Row_Failed" by simp_all
    note pid = target_of_eq_id [OF s(1)]
    show ?thesis
      unfolding f1 pid [symmetric]
      by (rule advances_finish [OF assms(1,2) spec(1) [OF assms(3)] fewer])
        (simp_all add: s pid assms(3,4) gone)
  qed
  then show ?thesis by (simp add: db gone)
qed

lemma store_failures_advance:
  assumes "run_counts T sc f" "run_quiet T f" "target_of ` set rs \<subseteq> T" "distinct (map p_row_id rs)"
    and "p_row_id ` set rs \<inter> set (f_terminal f) = {}"
  shows "advances T sc (p_row_id ` set rs) f (store_failures env sc message rs f)
    \<and> f_error (store_failures env sc message rs f) = f_error f"
  using assms
proof (induction rs arbitrary: f)
  case Nil
  then show ?case by (simp add: advances_refl)
next
  case (Cons row rs)
  obtain stored db1 where run: "store_failed_tracking_lookup env row message (f_db f) = (stored, db1)" by fastforce
  define f1 where "f1 = (case stored of Some s \<Rightarrow> finish_row sc False s (f\<lparr>f_db := db1\<rparr>) | None \<Rightarrow> f\<lparr>f_db := db1\<rparr>)"
  have step: "advances T sc {p_row_id row} f f1"
    using store_failed_step [OF Cons.prems(1,2) _ _ run f1_def] Cons.prems(3,5) by auto
  have err: "f_error f1 = f_error f" by (auto simp: f1_def finish_row_def Let_def split: option.split)
  have "advances T sc (p_row_id ` set rs) f1 (store_failures env sc message rs f1)
      \<and> f_error (store_failures env sc message rs f1) = f_error f1"
  proof (rule Cons.IH)
    show "p_row_id ` set rs \<inter> set (f_terminal f1) = {}"
      by (rule disjoint_extend [OF advances_parts(3) [OF step]]) (use Cons.prems(4,5) in auto)
  qed (use advances_parts [OF step] Cons.prems in auto)
  moreover have "store_failures env sc message (row # rs) f = store_failures env sc message rs f1"
    by (simp add: run f1_def split: option.split)
  ultimately show ?case using advances_trans [OF step] err by fastforce
qed

lemma store_successful_step:
  assumes "run_counts T sc f" "run_quiet T f" "target_of row \<in> T" "p_row_id row \<notin> set (f_terminal f)"
    and run: "store_successful_tracking_response host env row response (f_db f) = (r, db1)"
    and f1: "f1 = (case r of Inl e \<Rightarrow> f\<lparr>f_db := db1, f_error := Some e\<rparr>
       | Inr (Some s) \<Rightarrow> finish_row sc True s (f\<lparr>f_db := db1\<rparr>) | Inr None \<Rightarrow> f\<lparr>f_db := db1\<rparr>)"
  shows "advances T sc {p_row_id row} f f1"
proof -
  note spec = store_successful_spec [OF run]
  note skip = advances_skip [OF assms(1,2) spec(1) [OF assms(3)] spec(2)]
  show ?thesis
  proof (cases "\<exists>s. r = Inr (Some s)")
    case True
    then obtain s where s: "r = Inr (Some s)" ..
    with spec(3) [OF s] show ?thesis
      using advances_finish [OF assms(1,2) spec(1) [OF assms(3)] spec(2), of s True] assms(3,4)
      by (auto simp: f1 dest: target_of_eq_id)
  next
    case False
    then show ?thesis
      using skip by (auto simp: f1 intro: advances_mono split: sum.split option.split)
  qed
qed

lemma store_successes_advance:
  assumes "run_counts T sc f" "run_quiet T f" "target_of ` set rs \<subseteq> T" "distinct (map p_row_id rs)"
    and "p_row_id ` set rs \<inter> set (f_terminal f) = {}"
  shows "advances T sc (p_row_id ` set rs) f (store_successes host env sc response rs f)"
  using assms
proof (induction rs arbitrary: f)
  case Nil
  then show ?case by (simp add: advances_refl)
next
  case (Cons row rs)
  obtain r db1 where run: "store_successful_tracking_response host env row response (f_db f) = (r, db1)" by fastforce
  define f1 where "f1 = (case r of Inl e \<Rightarrow> f\<lparr>f_db := db1, f_error := Some e\<rparr>
       | Inr (Some s) \<Rightarrow> finish_row sc True s (f\<lparr>f_db := db1\<rparr>) | Inr None \<Rightarrow> f\<lparr>f_db := db1\<rparr>)"
  have step: "advances T sc {p_row_id row} f f1"
    using store_successful_step [OF Cons.prems(1,2) _ _ run f1_def] Cons.prems(3,5) by auto
  have rest: "advances T sc (p_row_id ` set rs) f1 (store_successes host env sc response rs f1)"
  proof (rule Cons.IH)
    show "p_row_id ` set rs \<inter> set (f_terminal f1) = {}"
      by (rule disjoint_extend [OF advances_parts(3) [OF step]]) (use Cons.prems(4,5) in auto)
  qed (use advances_parts [OF step] Cons.prems in auto)
  show ?case
  proof (cases r)
    case (Inl e)
    then show ?thesis using step by (auto simp: run f1_def intro: advances_mono)
  next
    case (Inr stored)
    then have "store_successes host env sc response (row # rs) f = store_successes host env sc response rs f1"
      by (simp add: run f1_def split: option.split)
    with advances_trans [OF step rest] show ?thesis by simp
  qed
qed

lemma finish_groups_advance:
  assumes "run_counts T sc f" "run_quiet T f" "target_of ` set rs \<subseteq> T"
  shows "advances T sc (p_row_id ` set rs) f (finish_groups env sc message rs f)
    \<and> f_error (finish_groups env sc message rs f) = f_error f"
  using assms
proof (induction rs arbitrary: f)
  case Nil
  then show ?case by (simp add: advances_refl)
next
  case (Cons row rs)
  show ?case
  proof (cases "p_row_id row \<in> set (f_terminal f)")
    case True
    with Cons show ?thesis by (auto intro: advances_mono)
  next
    case False
    obtain stored db1 where run: "store_failed_tracking_lookup env row message (f_db f) = (stored, db1)" by fastforce
    define f1 where "f1 = (case stored of Some s \<Rightarrow> finish_row sc False s (f\<lparr>f_db := db1\<rparr>) | None \<Rightarrow> f\<lparr>f_db := db1\<rparr>)"
    have step: "advances T sc {p_row_id row} f f1"
      using store_failed_step [OF Cons.prems(1,2) _ False run f1_def] Cons.prems(3) by simp
    have err: "f_error f1 = f_error f" by (auto simp: f1_def finish_row_def Let_def split: option.split)
    have "finish_groups env sc message (row # rs) f = finish_groups env sc message rs f1"
      using False by (simp add: run f1_def split: option.split)
    with Cons.IH [of f1] Cons.prems(3) advances_parts [OF step] advances_trans [OF step] err
    show ?thesis by fastforce
  qed
qed

subsection \<open>Activation\<close>

lemma target_of_status [simp]:
  "target_of (row\<lparr>p_row_status := st, p_error_message := m\<rparr>) = target_of row"
  by (simp add: target_of_def)

lemma activate_rows_spec:
  assumes "activate_rows env rs db = (rs', activated, db1)"
  shows "map target_of rs' = map target_of rs \<and> set activated \<subseteq> set rs'
    \<and> (target_of ` set rs \<subseteq> T \<longrightarrow> touches T (db_rows db) (db_rows db1))
    \<and> waiting_keys (db_rows db1) \<subseteq> waiting_keys (db_rows db) \<union> target_of ` set rs"
  using assms
proof (induction rs arbitrary: db rs' activated)
  case (Cons row rs)
  obtain updated db2 where up: "update_row env Row_Loading None row db = (updated, db2)" by fastforce
  obtain rs2 act2 db3 where rest: "activate_rows env rs db2 = (rs2, act2, db3)" by (metis prod_cases3)
  from Cons.prems have eq: "rs' = (if updated then row\<lparr>p_row_status := Row_Loading, p_error_message := None\<rparr> else row) # rs2"
    "activated = (if updated then row\<lparr>p_row_status := Row_Loading, p_error_message := None\<rparr> # act2 else act2)" "db1 = db3"
    by (simp_all add: up rest Let_def split: if_splits)
  have ih: "map target_of rs2 = map target_of rs \<and> set act2 \<subseteq> set rs2
      \<and> (target_of ` set rs \<subseteq> T \<longrightarrow> touches T (db_rows db2) (db_rows db1))
      \<and> waiting_keys (db_rows db1) \<subseteq> waiting_keys (db_rows db2) \<union> target_of ` set rs"
    by (rule Cons.IH) (simp add: rest eq(3))
  show ?case
    using ih update_row_waiting [OF up] touches_update_row [OF up, of T]
    by (auto simp: eq intro: touches_trans)
qed simp

lemma map_target_ids: "map target_of rs = map target_of rs' \<Longrightarrow> map p_row_id rs = map p_row_id rs'"
proof -
  have "map p_row_id rs = map fst (map target_of rs)" for rs :: "sheet_row_projection list" by simp
  then show "map target_of rs = map target_of rs' \<Longrightarrow> map p_row_id rs = map p_row_id rs'" by metis
qed

lemma group_rows_simps [simp]:
  "group_rows [] = []"
  "group_rows ((l, rs) # gs) = rs @ group_rows gs"
  "group_rows (gs @ hs) = group_rows gs @ group_rows hs"
  by (simp_all add: group_rows_def)

lemma map_group_rows_update:
  assumes "n < length gs" "gs ! n = (l, rs)" "map h rs' = map h rs"
  shows "map h (group_rows (gs[n := (l, rs')])) = map h (group_rows gs)"
  using assms
proof (induction gs arbitrary: n)
  case (Cons g gs)
  then show ?case by (cases n; cases g) auto
qed simp

lemma map_fst_update: "n < length gs \<Longrightarrow> fst (gs ! n) = fst g \<Longrightarrow> map fst (gs[n := g]) = map fst gs"
  by (metis list_update_id map_update)

subsection \<open>Groups\<close>

definition run_groups :: "(string \<times> string \<times> string) set \<Rightarrow> refresh_run \<Rightarrow> bool" where
  "run_groups T f \<longleftrightarrow> distinct (map fst (f_groups f)) \<and> distinct (map p_row_id (group_rows (f_groups f)))
     \<and> target_of ` set (group_rows (f_groups f)) \<subseteq> T
     \<and> p_row_id ` set (group_rows (f_groups f)) \<inter> set (f_terminal f) = {}"

definition without_group :: "string \<Rightarrow> row_groups \<Rightarrow> row_groups" where
  "without_group l gs = update_where (\<lambda>g. fst g = l) (\<lambda>g. (fst g, [])) gs"

lemma without_group_absent: "l \<notin> fst ` set gs \<Longrightarrow> without_group l gs = gs"
  unfolding without_group_def by (intro update_where_id) auto

lemma without_group_simps [simp]:
  "without_group l [] = []"
  "without_group l ((k, rs) # gs) = (if k = l then (k, []) else (k, rs)) # without_group l gs"
  "map fst (without_group l gs) = map fst gs"
  "length (without_group l gs) = length gs"
  by (simp_all add: without_group_def)

lemma take_group_rows:
  assumes "map_of gs l = Some grouped" "distinct (map fst gs)"
  shows "set (group_rows gs) = set grouped \<union> set (group_rows (without_group l gs))"
  using assms
proof (induction gs)
  case (Cons g gs)
  then show ?case using without_group_absent [of l gs] by (cases g) auto
qed simp

lemma take_group_distinct:
  assumes "map_of gs l = Some grouped" "distinct (map fst gs)" "distinct (map p_row_id (group_rows gs))"
  shows "distinct (map p_row_id grouped)" "distinct (map p_row_id (group_rows (without_group l gs)))"
    "p_row_id ` set grouped \<inter> p_row_id ` set (group_rows (without_group l gs)) = {}"
proof -
  have "distinct (map p_row_id grouped) \<and> distinct (map p_row_id (group_rows (without_group l gs)))
      \<and> p_row_id ` set grouped \<inter> p_row_id ` set (group_rows (without_group l gs)) = {}"
    using assms
  proof (induction gs)
    case (Cons g gs)
    obtain k rs where g: "g = (k, rs)" by (cases g)
    show ?case
    proof (cases "k = l")
      case True
      with Cons.prems without_group_absent [of l gs] show ?thesis by (auto simp: g)
    next
      case False
      with Cons.prems have "set (group_rows gs) = set grouped \<union> set (group_rows (without_group l gs))"
        by (intro take_group_rows) (simp_all add: g)
      with Cons False show ?thesis by (auto simp: g)
    qed
  qed simp
  then show "distinct (map p_row_id grouped)" "distinct (map p_row_id (group_rows (without_group l gs)))"
    "p_row_id ` set grouped \<inter> p_row_id ` set (group_rows (without_group l gs)) = {}" by simp_all
qed

subsection \<open>Set-up\<close>

lemma push_group_rows: "mset (group_rows (push_group row gs)) = add_mset row (mset (group_rows gs))"
  by (induction row gs rule: push_group.induct) auto

lemma push_group_set: "set (group_rows (push_group row gs)) = insert row (set (group_rows gs))"
  using arg_cong [OF push_group_rows [of row gs], of set_mset] by simp

lemma push_group_fst: "set (map fst (push_group row gs)) = insert (p_lookup_tracking_id row) (set (map fst gs))"
  by (induction row gs rule: push_group.induct) auto

lemma push_group_distinct: "distinct (map fst gs) \<Longrightarrow> distinct (map fst (push_group row gs))"
  using push_group_fst by (induction row gs rule: push_group.induct) auto

lemma touches_mono: "touches T rs rs' \<Longrightarrow> T \<subseteq> U \<Longrightarrow> touches U rs rs'"
  unfolding touches_def by (erule list_all2_mono) auto

definition setup_ok :: "workspace_db \<Rightarrow> refresh_setup \<Rightarrow> bool" where
  "setup_ok db0 g \<longleftrightarrow> distinct (map fst (g_groups g)) \<and> distinct (map p_row_id (group_rows (g_groups g)))
     \<and> p_row_id ` set (group_rows (g_groups g)) \<subseteq> set (g_seen g)
     \<and> target_of ` set (group_rows (g_groups g)) = set (g_targets g)
     \<and> length (g_targets g) = length (group_rows (g_groups g))
     \<and> touches (set (g_targets g)) (db_rows db0) (db_rows (g_db g))"

lemma setup_row_ok:
  assumes ok: "setup_ok db0 g"
  shows "setup_ok db0 (setup_row env sid raw g)"
proof (cases "trim raw = [] \<or> trim raw \<in> set (g_seen g) \<or> \<not> sheet_row_belongs_to_sheet (trim raw) sid (g_db g)
    \<or> get_sheet_row (trim raw) (g_db g) = None")
  case True
  then have "setup_row env sid raw g = g \<or> setup_row env sid raw g = g\<lparr>g_seen := trim raw # g_seen g\<rparr>"
    by (auto simp: setup_row_def Let_def)
  with ok show ?thesis by (elim disjE) (simp_all add: setup_ok_def subset_insertI2)
next
  case False
  then obtain row where row: "get_sheet_row (trim raw) (g_db g) = Some row" by auto
  then have pid: "p_row_id row = trim raw"
    by (auto simp: get_sheet_row_def project_row_def Let_def dest: find_by_SomeD)
  obtain updated db1 where up: "update_row env Row_Pending None row (g_db g) = (updated, db1)" by fastforce
  define row' where "row' = row\<lparr>p_row_status := Row_Pending, p_error_message := None\<rparr>"
  have keys: "target_of row' = target_of row" "p_row_id row' = trim raw" by (simp_all add: row'_def pid)
  show ?thesis
  proof (cases updated)
    case True
    have eq: "setup_row env sid raw g = g\<lparr>g_seen := trim raw # g_seen g, g_db := db1,
        g_targets := g_targets g @ [target_of row'], g_groups := push_group row' (g_groups g)\<rparr>"
      using False row up True by (simp add: setup_row_def Let_def row'_def)
    have ids: "distinct (map p_row_id (group_rows (push_group row' (g_groups g))))"
    proof -
      have "mset (map p_row_id (group_rows (push_group row' (g_groups g)))) = mset (trim raw # map p_row_id (group_rows (g_groups g)))"
        by (simp add: push_group_rows keys)
      moreover have "distinct (trim raw # map p_row_id (group_rows (g_groups g)))"
        using ok False by (auto simp: setup_ok_def)
      ultimately show ?thesis by (metis mset_eq_imp_distinct_iff)
    qed
    have len: "length (group_rows (push_group row' (g_groups g))) = Suc (length (group_rows (g_groups g)))"
      using arg_cong [OF push_group_rows [of row' "g_groups g"], of size] by simp
    have "touches (insert (target_of row) (set (g_targets g))) (db_rows db0) (db_rows (g_db g))"
      using ok by (auto simp: setup_ok_def intro: touches_mono)
    from touches_trans [OF this touches_update_row [OF up]]
    have "touches (insert (target_of row) (set (g_targets g))) (db_rows db0) (db_rows db1)" by simp
    with ok ids len show ?thesis
      by (auto simp: setup_ok_def eq keys push_group_set push_group_distinct)
  next
    case False
    then have "db_rows db1 = db_rows (g_db g)"
      using update_row_rows [OF up] by (auto simp: with_key_def intro: update_where_id)
    moreover have "setup_row env sid raw g = g\<lparr>g_seen := trim raw # g_seen g, g_db := db1\<rparr>"
      using \<open>\<not> (trim raw = [] \<or> _)\<close> row up False by (simp add: setup_row_def Let_def)
    ultimately show ?thesis using ok by (auto simp: setup_ok_def)
  qed
qed

lemma fold_invariant: "P s \<Longrightarrow> (\<And>x s. x \<in> set xs \<Longrightarrow> P s \<Longrightarrow> P (f x s)) \<Longrightarrow> P (fold f xs s)"
  by (induction xs arbitrary: s) auto

lemma setup_rows_ok:
  "setup_ok db (fold (setup_row env sid) row_ids \<lparr>g_seen = [], g_groups = [], g_targets = [], g_db = db\<rparr>)"
  by (rule fold_invariant) (simp_all add: setup_row_ok, simp add: setup_ok_def)

lemma activate_groups_spec:
  assumes "activate_groups env gs db = (gs', activated, db1)"
  shows "map fst gs' = map fst gs \<and> map target_of (group_rows gs') = map target_of (group_rows gs)
    \<and> (target_of ` set (group_rows gs) \<subseteq> T \<longrightarrow> touches T (db_rows db) (db_rows db1))"
  using assms
proof (induction env gs db arbitrary: gs' activated db1 rule: activate_groups.induct)
  case (2 env l rs gs db)
  obtain rs2 a2 db2 where rows: "activate_rows env rs db = (rs2, a2, db2)" by (metis prod_cases3)
  obtain gs3 a3 db3 where rest: "activate_groups env gs db2 = (gs3, a3, db3)" by (metis prod_cases3)
  from "2.prems" have eq: "gs' = (l, rs2) # gs3" "db1 = db3" by (simp_all add: rows rest)
  from "2.IH" [OF rows [symmetric] refl refl rest] activate_rows_spec [OF rows, of T]
  show ?case by (auto simp: eq intro: touches_trans)
qed simp

subsection \<open>A started run, and a delivery\<close>

definition run_ok :: "(string \<times> string \<times> string) set \<Rightarrow> refresh_scope \<Rightarrow> refresh_run \<Rightarrow> bool" where
  "run_ok T sc f \<longleftrightarrow> run_counts T sc f \<and> run_quiet T f \<and> run_groups T f"

lemma refresh_setup_ok:
  assumes "refresh_setup_body env expected sid row_ids db = Inr ((g, activated), db1)"
  shows "setup_ok db g" "g_db g = db1"
proof -
  define g0 where "g0 = fold (setup_row env sid) row_ids \<lparr>g_seen = [], g_groups = [], g_targets = [], g_db = db\<rparr>"
  let ?n = "min (length (g_groups g0)) max_concurrent_tracking_refresh_lookups"
  obtain active act db2 where run: "activate_groups env (take ?n (g_groups g0)) (g_db g0) = (active, act, db2)"
    by (metis prod_cases3)
  from assms have g: "g = g0\<lparr>g_groups := active @ drop ?n (g_groups g0), g_db := db2\<rparr>" "db1 = db2"
    by (auto simp: refresh_setup_body_def Let_def run g0_def [symmetric] split: sum.splits)
  have ok0: "setup_ok db g0" unfolding g0_def by (rule setup_rows_ok)
  have split: "g_groups g0 = take ?n (g_groups g0) @ drop ?n (g_groups g0)" by simp
  have rows0: "group_rows (g_groups g0) = group_rows (take ?n (g_groups g0)) @ group_rows (drop ?n (g_groups g0))"
    by (subst split) (simp only: group_rows_simps)
  have sub: "target_of ` set (group_rows (take ?n (g_groups g0))) \<subseteq> set (g_targets g0)"
    using ok0 by (auto simp: setup_ok_def rows0)
  note spec = activate_groups_spec [OF run, of "set (g_targets g0)"]
  have keys: "map target_of (group_rows (g_groups g)) = map target_of (group_rows (g_groups g0))"
    using spec by (simp add: g rows0)
  have firsts: "map fst (g_groups g) = map fst (g_groups g0)"
    using spec by (simp add: g flip: take_map drop_map)
  have "touches (set (g_targets g0)) (db_rows db) (db_rows db2)"
    using ok0 spec sub by (auto simp: setup_ok_def intro: touches_trans)
  moreover have "p_row_id ` set (group_rows (g_groups g)) = p_row_id ` set (group_rows (g_groups g0))"
    "target_of ` set (group_rows (g_groups g)) = target_of ` set (group_rows (g_groups g0))"
    "length (group_rows (g_groups g)) = length (group_rows (g_groups g0))"
    using arg_cong [OF map_target_ids [OF keys], of set] arg_cong [OF keys, of set] arg_cong [OF keys, of length] by simp_all
  ultimately show "setup_ok db g"
    using ok0 map_target_ids [OF keys] firsts by (simp add: setup_ok_def g)
  show "g_db g = db1" by (simp add: g)
qed

lemma started_run_ok:
  assumes "refresh_setup_body env expected sid row_ids db = Inr ((g, activated), db1)"
    and "started_run run_id sid (g, activated) = (sc, f)"
  shows "run_ok (set (g_targets g)) sc f" "touches (set (g_targets g)) (db_rows db) (db_rows (f_db f))"
    "f_error f = None" "f_db f = db1"
proof -
  note ok = refresh_setup_ok [OF assms(1)]
  have f: "f_db f = g_db g" "f_groups f = g_groups g" "f_rows f = []" "f_terminal f = []" "f_success f = 0"
    "f_failed f = 0" "f_error f = None" "sc_total sc = length (group_rows (g_groups g))"
    and events: "\<forall>e \<in> set (f_events f). ev_success_count e = 0 \<and> ev_failed_count e = 0
      \<and> ev_pending_count e = sc_total sc \<and> ev_total_count e = sc_total sc"
    using assms(2) by (auto simp: started_run_def Let_def event_for_def pending_count_of_def)
  have ids: "map fst (map target_of (group_rows (g_groups g))) = map p_row_id (group_rows (g_groups g))" by simp
  have dist: "distinct (map target_of (group_rows (g_groups g)))"
    using ok(1) ids unfolding setup_ok_def by (metis distinct_map)
  have inj: "inj_on fst (set (g_targets g))"
  proof -
    have "inj_on p_row_id (set (group_rows (g_groups g)))" using ok(1) by (simp add: setup_ok_def distinct_map)
    then have "inj_on fst (target_of ` set (group_rows (g_groups g)))" by (auto simp: inj_on_def)
    with ok(1) show ?thesis by (simp add: setup_ok_def)
  qed
  have card: "card (set (g_targets g)) = length (group_rows (g_groups g))"
    using distinct_card [OF dist] ok(1) by (simp add: setup_ok_def)
  have "run_counts (set (g_targets g)) sc f"
    using events by (simp add: run_counts_def f card inj count_where_def)
  moreover have "run_groups (set (g_targets g)) f" using ok(1) by (simp add: run_groups_def f setup_ok_def)
  ultimately show "run_ok (set (g_targets g)) sc f" by (simp add: run_ok_def run_quiet_def f)
  show "touches (set (g_targets g)) (db_rows db) (db_rows (f_db f))" "f_error f = None" "f_db f = db1"
    using ok by (simp_all add: f setup_ok_def)
qed

text \<open>What the run relies on: other connections leave no row of a target waiting anew.\<close>

definition rely :: "(workspace_db \<Rightarrow> workspace_db) \<Rightarrow> bool" where
  "rely w \<longleftrightarrow> (\<forall>db. waiting_keys (db_rows (w db)) \<subseteq> waiting_keys (db_rows db)
     \<and> (distinct (map r_id (db_rows db)) \<longrightarrow> distinct (map r_id (db_rows (w db)))))"

lemma run_ok_world:
  assumes "run_ok T sc f" "rely w"
  shows "run_ok T sc (f\<lparr>f_db := w (f_db f)\<rparr>)"
proof -
  have "waiting_keys (db_rows (w (f_db f))) \<subseteq> waiting_keys (db_rows (f_db f))" using assms(2) by (simp add: rely_def)
  then have "run_quiet T (f\<lparr>f_db := w (f_db f)\<rparr>)" using assms(1) unfolding run_ok_def run_quiet_def by auto
  with assms(1) show ?thesis by (simp add: run_ok_def run_counts_fields run_groups_def)
qed

lemma activate_next_ok:
  assumes ok: "run_ok T sc f"
  shows "run_ok T sc (activate_next env sc f)
    \<and> touches T (db_rows (f_db f)) (db_rows (f_db (activate_next env sc f)))
    \<and> f_error (activate_next env sc f) = f_error f"
proof (cases "f_next f < length (f_groups f)")
  case True
  obtain l rs where g: "f_groups f ! f_next f = (l, rs)" by (cases "f_groups f ! f_next f")
  obtain rs2 act db1 where run: "activate_rows env rs (f_db f) = (rs2, act, db1)" by (metis prod_cases3)
  let ?gs = "(f_groups f)[f_next f := (l, rs2)]"
  have eq: "activate_next env sc f = f\<lparr>f_db := db1, f_groups := ?gs,
      f_events := f_events f @ map (event_for sc f) act, f_next := f_next f + 1\<rparr>"
    using True by (simp add: activate_next_def g run)
  have "set rs \<subseteq> set (group_rows (f_groups f))"
    using nth_mem [OF True] by (auto simp: g group_rows_def)
  then have rs: "target_of ` set rs \<subseteq> T" "p_row_id ` set rs \<inter> set (f_terminal f) = {}"
    using ok by (auto simp: run_ok_def run_groups_def)
  note spec = activate_rows_spec [OF run, of T]
  have keys: "map target_of (group_rows ?gs) = map target_of (group_rows (f_groups f))"
    using map_group_rows_update [OF True g] spec by blast
  note ids = map_target_ids [OF keys]
  have "p_row_id ` set (group_rows ?gs) = p_row_id ` set (group_rows (f_groups f))"
    "target_of ` set (group_rows ?gs) = target_of ` set (group_rows (f_groups f))"
    using arg_cong [OF ids, of set] arg_cong [OF keys, of set] by simp_all
  then have "run_groups T (activate_next env sc f)"
    using ok ids map_fst_update [OF True, of "(l, rs2)"]
    by (simp add: run_ok_def run_groups_def eq g)
  moreover have "run_quiet T (activate_next env sc f)"
    unfolding run_quiet_def
  proof (intro ballI impI)
    fix k assume k: "k \<in> T" "fst k \<in> set (f_terminal (activate_next env sc f))"
    then have "k \<notin> waiting_keys (db_rows (f_db f))" using ok by (auto simp: run_ok_def run_quiet_def eq)
    moreover have "k \<notin> target_of ` set rs" using k(2) rs(2) by (auto simp: eq)
    ultimately show "k \<notin> waiting_keys (db_rows (f_db (activate_next env sc f)))" using spec by (auto simp: eq)
  qed
  moreover have "run_counts T sc (activate_next env sc f)"
    using ok run_counts_bound [of T sc f]
    by (auto simp: run_ok_def run_counts_def eq event_for_def pending_count_of_def)
  ultimately show ?thesis using spec rs(1) by (simp add: run_ok_def eq)
qed (simp add: activate_next_def ok)

lemma run_counts_events: "run_counts T sc g \<Longrightarrow> run_counts T sc f \<Longrightarrow> run_counts T sc (g\<lparr>f_events := f_events f\<rparr>)"
  by (auto simp: run_counts_def)

lemma run_ok_advance:
  assumes "advances T sc ids f g" "f_groups f = without_group l gs" "map_of gs l = Some grouped"
    and "ids = p_row_id ` set grouped" "distinct (map fst gs)" "distinct (map p_row_id (group_rows gs))"
    and "target_of ` set (group_rows gs) \<subseteq> T" "p_row_id ` set (group_rows gs) \<inter> set (f_terminal f) = {}"
  shows "run_ok T sc g"
proof -
  note rows = take_group_rows [OF assms(3,5)] and dist = take_group_distinct [OF assms(3,5,6)]
  have groups: "f_groups g = without_group l gs" and less: "set (f_terminal g) \<subseteq> set (f_terminal f) \<union> ids"
    using assms(1,2) by (simp_all add: advances_def)
  have "p_row_id ` set (group_rows (without_group l gs)) \<inter> set (f_terminal g) = {}"
    using less dist(3) assms(4,8) unfolding rows by blast
  moreover have "run_counts T sc g" "run_quiet T g" using assms(1) by (simp_all add: advances_def)
  ultimately show ?thesis
    using assms(5,7) dist(2) unfolding run_ok_def run_groups_def groups without_group_simps rows by blast
qed

lemma deliver_ok:
  assumes ok: "run_ok T sc f0" and rely: "rely (dl_world d)"
  shows "run_ok T sc (deliver host sc d f0)
    \<and> touches T (db_rows (dl_world d (f_db f0))) (db_rows (f_db (deliver host sc d f0)))"
proof -
  define f where "f = f0\<lparr>f_db := dl_world d (f_db f0)\<rparr>"
  have okf: "run_ok T sc f" unfolding f_def by (rule run_ok_world [OF ok rely])
  have db: "dl_world d (f_db f0) = f_db f" by (simp add: f_def)
  show ?thesis
  proof (cases "f_error f = None \<and> map_of (f_groups f) (dl_lookup_id d) \<noteq> None")
    case False
    then have "deliver host sc d f0 = f" by (auto simp: deliver_def Let_def simp flip: f_def)
    with okf show ?thesis by (simp add: db)
  next
    case True
    then obtain grouped where grouped: "map_of (f_groups f) (dl_lookup_id d) = Some grouped" by auto
    define f1 where "f1 = f\<lparr>f_groups := without_group (dl_lookup_id d) (f_groups f)\<rparr>"
    define f2 where "f2 = (case dl_result d of
        Inr response \<Rightarrow> store_successes host (dl_env d) sc response grouped f1
      | Inl message \<Rightarrow> store_failures (dl_env d) sc message grouped f1)"
    have eq: "deliver host sc d f0 = (if f_error f2 \<noteq> None then f2\<lparr>f_events := f_events f\<rparr>
        else activate_next (dl_env d) sc f2)"
      using True grouped
      by (simp add: deliver_def Let_def flip: f_def without_group_def f1_def f2_def)
    have g: "distinct (map fst (f_groups f))" "distinct (map p_row_id (group_rows (f_groups f)))"
      "target_of ` set (group_rows (f_groups f)) \<subseteq> T" "p_row_id ` set (group_rows (f_groups f)) \<inter> set (f_terminal f) = {}"
      using okf by (simp_all add: run_ok_def run_groups_def)
    note rows = take_group_rows [OF grouped g(1)]
    have pre: "run_counts T sc f1" "run_quiet T f1" "target_of ` set grouped \<subseteq> T" "distinct (map p_row_id grouped)"
      "p_row_id ` set grouped \<inter> set (f_terminal f1) = {}"
      using okf g(3,4) take_group_distinct(1) [OF grouped g(1,2)]
      by (auto simp: f1_def run_ok_def run_counts_fields run_quiet_def rows)
    have adv: "advances T sc (p_row_id ` set grouped) f1 f2"
      unfolding f2_def
      using store_failures_advance [OF pre] store_successes_advance [OF pre] by (simp split: sum.split)
    have ok2: "run_ok T sc f2"
      by (rule run_ok_advance [OF adv _ grouped refl g(1,2,3)]) (simp_all add: f1_def g(4))
    have t: "touches T (db_rows (f_db f)) (db_rows (f_db f2))" using adv by (simp add: advances_def f1_def)
    have "run_ok T sc (f2\<lparr>f_events := f_events f\<rparr>)"
      using ok2 okf run_counts_events [of T sc f2 f] by (simp add: run_ok_def run_quiet_def run_groups_def)
    with activate_next_ok [OF ok2, of "dl_env d"] t show ?thesis
      by (auto simp: eq db intro: touches_trans)
  qed
qed

lemma run_ok_deliveries:
  assumes "run_ok T sc f" "\<forall>d \<in> set ds. rely (dl_world d)"
  shows "run_ok T sc (fold (deliver host sc) ds f)"
  by (rule fold_invariant) (use assms deliver_ok in blast)+

subsection \<open>The end of a run\<close>

lemma touches_ids:
  assumes "touches T rs rs'"
  shows "map r_id rs' = map r_id rs"
proof -
  have same: "r_id r' = r_id r" if "same_row r r'" for r r' using same_row_key [OF that] by (simp add: row_key_def)
  from assms show ?thesis
    unfolding touches_def by (induction rs rs' rule: list_all2_induct) (use same in auto)
qed

lemma not_waiting_other:
  assumes "distinct (map r_id rs)" "find_by r_id rid rs = r"
    and "r = None \<or> row_key (the r) \<noteq> k \<or> r_status (the r) \<notin> {Row_Pending, Row_Loading}" "fst k = rid"
  shows "k \<notin> waiting_keys rs"
proof
  assume "k \<in> waiting_keys rs"
  then obtain q where q: "q \<in> set rs" "row_key q = k" "r_status q \<in> {Row_Pending, Row_Loading}"
    by (auto simp: waiting_keys_def)
  then have "find_by r_id rid rs = Some q"
    using assms(1,4) by (auto simp: find_by_Some_iff row_key_def)
  with assms(2,3) q show False by auto
qed

lemma finish_target_advance:
  assumes "run_counts T sc f" "run_quiet T f" "k \<in> T" "distinct (map r_id (db_rows (f_db f)))"
  shows "advances T sc {fst k} f (finish_target env sc message k f)
    \<and> k \<notin> waiting_keys (db_rows (f_db (finish_target env sc message k f)))
    \<and> f_error (finish_target env sc message k f) = f_error f"
proof -
  obtain rid l g where k: "k = (rid, l, g)" by (metis prod_cases3)
  note refl = advances_mono [OF advances_refl [OF assms(1,2)] empty_subsetI]
  show ?thesis
  proof (cases "rid \<in> set (f_terminal f)")
    case True
    with assms(2,3) refl show ?thesis by (auto simp: finish_target_def k run_quiet_def)
  next
    case False
    let ?r = "find_by r_id rid (db_rows (f_db f))"
    show ?thesis
    proof (cases "?r \<noteq> None \<and> row_key (the ?r) = k \<and> r_status (the ?r) \<in> {Row_Pending, Row_Loading}")
      case False
      then have "finish_target env sc message k f = f"
        using \<open>rid \<notin> _\<close>
        by (auto simp: finish_target_def k get_sheet_row_def project_row_def Let_def row_key_def split: option.split
            dest: find_by_SomeD)
      moreover have "k \<notin> waiting_keys (db_rows (f_db f))"
        by (rule not_waiting_other [OF assms(4) HOL.refl]) (use False in \<open>auto simp: k\<close>)
      ultimately show ?thesis using refl by simp
    next
      case True
      then obtain r where r: "?r = Some r" "row_key r = k" "r_status r \<in> {Row_Pending, Row_Loading}" by auto
      let ?c = "project_row (f_db f) r"
      have c: "target_of ?c = k" "p_row_status ?c = r_status r"
        using r(2) by (simp_all add: project_row_def Let_def target_of_def row_key_def)
      obtain stored db1 where run: "store_failed_tracking_lookup env ?c message (f_db f) = (stored, db1)" by fastforce
      define f1 where "f1 = (case stored of Some s \<Rightarrow> finish_row sc False s (f\<lparr>f_db := db1\<rparr>) | None \<Rightarrow> f\<lparr>f_db := db1\<rparr>)"
      have "finish_target env sc message k f = f1"
        using \<open>rid \<notin> _\<close> r c by (auto simp: finish_target_def k get_sheet_row_def run f1_def target_of_def split: option.split)
      moreover have "f_error f1 = f_error f" by (auto simp: f1_def finish_row_def Let_def split: option.split)
      moreover have "advances T sc {p_row_id ?c} f f1 \<and> target_of ?c \<notin> waiting_keys (db_rows (f_db f1))"
        by (rule store_failed_step [OF assms(1,2) _ _ run f1_def])
          (use assms(3) c(1) \<open>rid \<notin> _\<close> k in \<open>auto simp: target_of_def\<close>)
      moreover have "p_row_id ?c = fst k" using c(1) by (auto simp: target_of_def)
      ultimately show ?thesis using c(1) by simp
    qed
  qed
qed

lemma distinct_ids_advance:
  "advances T sc ids f g \<Longrightarrow> distinct (map r_id (db_rows (f_db f))) \<Longrightarrow> distinct (map r_id (db_rows (f_db g)))"
  unfolding advances_def by (metis touches_ids)

lemma finish_targets_advance:
  assumes "run_counts T sc f" "run_quiet T f" "set targets \<subseteq> T" "distinct (map r_id (db_rows (f_db f)))"
  shows "advances T sc (fst ` set targets) f (fold (finish_target env sc message) targets f)
    \<and> (\<forall>k \<in> set targets. k \<notin> waiting_keys (db_rows (f_db (fold (finish_target env sc message) targets f))))
    \<and> f_error (fold (finish_target env sc message) targets f) = f_error f"
  using assms
proof (induction targets arbitrary: f)
  case Nil
  then show ?case by (simp add: advances_refl)
next
  case (Cons k ks)
  let ?g = "finish_target env sc message k f"
  have step: "advances T sc {fst k} f ?g \<and> k \<notin> waiting_keys (db_rows (f_db ?g)) \<and> f_error ?g = f_error f"
    using finish_target_advance [of T sc f k env message] Cons.prems by simp
  then have ih: "advances T sc (fst ` set ks) ?g (fold (finish_target env sc message) ks ?g)
      \<and> (\<forall>k \<in> set ks. k \<notin> waiting_keys (db_rows (f_db (fold (finish_target env sc message) ks ?g))))
      \<and> f_error (fold (finish_target env sc message) ks ?g) = f_error ?g"
    using Cons.prems distinct_ids_advance [of T sc "{fst k}" f ?g] by (intro Cons.IH) (auto dest: advances_parts)
  then have "k \<notin> waiting_keys (db_rows (f_db (fold (finish_target env sc message) ks ?g)))"
    using step by (auto simp: advances_def)
  moreover have "advances T sc ({fst k} \<union> fst ` set ks) f (fold (finish_target env sc message) ks ?g)"
    using step ih by (blast intro: advances_trans)
  ultimately show ?case using step ih by simp
qed

lemma finish_run_advance:
  assumes "run_ok T sc f" "set targets \<subseteq> T" "distinct (map r_id (db_rows (f_db f)))"
  shows "\<exists>ids. advances T sc ids f (finish_run host env sc batch_error targets f)
    \<and> (\<forall>k \<in> set targets. k \<notin> waiting_keys (db_rows (f_db (finish_run host env sc batch_error targets f))))"
proof -
  let ?m = "missing_result_error host batch_error f"
  let ?g = "finish_groups env sc ?m (group_rows (f_groups f)) f"
  have g: "advances T sc (p_row_id ` set (group_rows (f_groups f))) f ?g"
    using finish_groups_advance [of T sc f "group_rows (f_groups f)" env ?m] assms(1)
    by (simp add: run_ok_def run_groups_def)
  have "advances T sc (fst ` set targets) ?g (finish_run host env sc batch_error targets f)
    \<and> (\<forall>k \<in> set targets. k \<notin> waiting_keys (db_rows (f_db (finish_run host env sc batch_error targets f))))"
    using finish_targets_advance [of T sc ?g targets env ?m] advances_parts [OF g] assms(2)
      distinct_ids_advance [OF g assms(3)]
    by (simp add: finish_run_def Let_def)
  with advances_trans [OF g] show ?thesis by blast
qed

lemma deliver_distinct:
  assumes "run_ok T sc f" "rely (dl_world d)" "distinct (map r_id (db_rows (f_db f)))"
  shows "distinct (map r_id (db_rows (f_db (deliver host sc d f))))"
  using touches_ids deliver_ok [OF assms(1,2), of host] assms(2,3) unfolding rely_def by metis

lemma deliveries_distinct:
  assumes "run_ok T sc f" "\<forall>d \<in> set ds. rely (dl_world d)" "distinct (map r_id (db_rows (f_db f)))"
  shows "distinct (map r_id (db_rows (f_db (fold (deliver host sc) ds f))))"
proof -
  have "run_ok T sc (fold (deliver host sc) ds f) \<and> distinct (map r_id (db_rows (f_db (fold (deliver host sc) ds f))))"
    by (rule fold_invariant) (use assms deliver_ok deliver_distinct in blast)+
  then show ?thesis ..
qed

text \<open>The end of a run adds no error.\<close>

lemma finish_row_error [simp]: "f_error (finish_row sc success row f) = f_error f"
  by (simp add: finish_row_def Let_def)

lemma finish_groups_error: "f_error (finish_groups env sc message rs f) = f_error f"
  by (induction rs arbitrary: f) (simp_all split: prod.split option.split)

lemma finish_target_error: "f_error (finish_target env sc message k f) = f_error f"
  by (auto simp: finish_target_def split: prod.split option.split)

lemma finish_run_error: "f_error (finish_run host env sc batch_error targets f) = f_error f"
proof -
  have "f_error (fold (finish_target env sc m) ks g) = f_error g" for m ks g
    by (induction ks arbitrary: g) (simp_all add: finish_target_error)
  then show ?thesis by (simp add: finish_run_def Let_def finish_groups_error)
qed

lemma refresh_setup_total:
  assumes "check_document_generation expected db = Inr ()"
  obtains g activated db1 where "refresh_setup_body env expected sid row_ids db = Inr ((g, activated), db1)"
proof -
  define g0 where "g0 = fold (setup_row env sid) row_ids \<lparr>g_seen = [], g_groups = [], g_targets = [], g_db = db\<rparr>"
  obtain active act db2 where "activate_groups env
      (take (min (length (g_groups g0)) max_concurrent_tracking_refresh_lookups) (g_groups g0)) (g_db g0) = (active, act, db2)"
    by (metis prod_cases3)
  with that show thesis by (simp add: refresh_setup_body_def assms Let_def flip: g0_def)
qed

text \<open>The run as a whole, from the set-up to the end.\<close>

lemma refresh_run_cases:
  assumes "refresh_sheet_rows_with_progress host env rq batch db = (result, events, db')"
    and "check_document_generation (rq_expected rq) db = Inr ()"
    and "\<forall>d \<in> set (bo_deliveries batch). rely (dl_world d)" "rely (bo_others batch)"
    and "distinct (map r_id (db_rows db))"
  obtains (run) g activated db1 sc f0 f where
    "refresh_setup_body env (rq_expected rq) (rq_sheet_id rq) (requested_row_ids rq db) db = Inr ((g, activated), db1)"
    "started_run (rq_run_id rq) (rq_sheet_id rq) (g, activated) = (sc, f0)"
    "run_counts (set (g_targets g)) sc f" "db' = f_db f" "events = f_events f"
    "\<forall>k \<in> set (g_targets g). k \<notin> waiting_keys (db_rows (f_db f))"
    "result = (case f_error f of Some e \<Rightarrow> Inl e
       | None \<Rightarrow> Inr \<lparr>rr_run_id = rq_run_id rq, rr_sheet_id = rq_sheet_id rq, rr_success_count = f_success f,
                      rr_failed_count = f_failed f, rr_rows = f_rows f\<rparr>)"
proof -
  obtain g activated db1 where prep: "refresh_setup_body env (rq_expected rq) (rq_sheet_id rq) (requested_row_ids rq db) db
      = Inr ((g, activated), db1)"
    by (rule refresh_setup_total [OF assms(2)])
  obtain sc f0 where start: "started_run (rq_run_id rq) (rq_sheet_id rq) (g, activated) = (sc, f0)" by fastforce
  note ok0 = started_run_ok [OF prep start]
  let ?T = "set (g_targets g)"
  define f1 where "f1 = fold (deliver host sc) (bo_deliveries batch) f0"
  define f2 where "f2 = f1\<lparr>f_db := bo_others batch (f_db f1)\<rparr>"
  define f where "f = finish_run host (bo_env batch) sc (bo_error batch) (g_targets g) f2"
  have eq: "db' = f_db f" "events = f_events f" "result = (case f_error f of Some e \<Rightarrow> Inl e
       | None \<Rightarrow> Inr \<lparr>rr_run_id = rq_run_id rq, rr_sheet_id = rq_sheet_id rq, rr_success_count = f_success f,
                      rr_failed_count = f_failed f, rr_rows = f_rows f\<rparr>)"
    using assms(1) by (simp_all add: refresh_sheet_rows_with_progress_def atomic_write_def prep start Let_def
        flip: f1_def f2_def f_def cong: option.case_cong)
  have dist0: "distinct (map r_id (db_rows (f_db f0)))" using touches_ids [OF ok0(2)] assms(5) by simp
  have ok1: "run_ok ?T sc f1" unfolding f1_def by (rule run_ok_deliveries [OF ok0(1) assms(3)])
  have ok2: "run_ok ?T sc f2" unfolding f2_def by (rule run_ok_world [OF ok1 assms(4)])
  have "distinct (map r_id (db_rows (f_db f1)))"
    unfolding f1_def by (rule deliveries_distinct [OF ok0(1) assms(3) dist0])
  then have "distinct (map r_id (db_rows (f_db f2)))" using assms(4) by (simp add: f2_def rely_def)
  from finish_run_advance [OF ok2 order_refl this] obtain ids where "advances ?T sc ids f2 f"
    "\<forall>k \<in> ?T. k \<notin> waiting_keys (db_rows (f_db f))" unfolding f_def by blast
  with that [OF prep start, of f] eq show thesis by (simp add: advances_def)
qed

subsection \<open>The targets are the requested rows\<close>

lemma touches_find:
  assumes "touches T rs rs'" "find_by r_id rid rs = Some r"
  shows "\<exists>r'. find_by r_id rid rs' = Some r' \<and> same_row r r'"
proof -
  have same: "r_id r' = r_id r" if "same_row r r'" for r r' using same_row_key [OF that] by (simp add: row_key_def)
  from assms show ?thesis
    unfolding touches_def by (induction rs rs' rule: list_all2_induct) (auto simp: same split: if_splits)
qed

lemma same_row_sheet: "same_row r r' \<Longrightarrow> r_sheet_id r' = r_sheet_id r"
  unfolding same_row_def by (cases r; cases r') simp

text \<open>The requested rows of the sheet seen so far are the targets.\<close>

definition covers :: "string \<Rightarrow> workspace_db \<Rightarrow> refresh_setup \<Rightarrow> bool" where
  "covers sid db0 g \<longleftrightarrow> set (g_targets g)
     = row_key ` {r \<in> set (db_rows db0). r_sheet_id r = sid \<and> r_id r \<in> set (g_seen g) \<and> r_id r \<noteq> []}"

lemma setup_row_covers:
  assumes dist: "distinct (map r_id (db_rows db0))" and ok: "setup_ok db0 g" and cov: "covers sid db0 g"
  shows "covers sid db0 (setup_row env sid raw g)"
proof (cases "trim raw = [] \<or> trim raw \<in> set (g_seen g)")
  case True
  with cov show ?thesis by (auto simp: setup_row_def Let_def)
next
  case False
  let ?id = "trim raw"
  have t: "touches (set (g_targets g)) (db_rows db0) (db_rows (g_db g))" using ok by (simp add: setup_ok_def)
  show ?thesis
  proof (cases "\<exists>r. find_by r_id ?id (db_rows db0) = Some r \<and> r_sheet_id r = sid")
    case True
    then obtain r where r: "find_by r_id ?id (db_rows db0) = Some r" "r_sheet_id r = sid" by blast
    from touches_find [OF t r(1)] obtain r' where r': "find_by r_id ?id (db_rows (g_db g)) = Some r'" "same_row r r'" by blast
    note in_r = find_by_SomeD [OF r(1)] and in_r' = find_by_SomeD [OF r'(1)]
    have key: "row_key r' = row_key r" "r_sheet_id r' = sid" using same_row_key same_row_sheet r'(2) r(2) by auto
    have belongs: "sheet_row_belongs_to_sheet ?id sid (g_db g)"
      using in_r' key(2) by (auto simp: sheet_row_belongs_to_sheet_def count_where_def filter_empty_conv)
    let ?p = "project_row (g_db g) r'"
    have p: "target_of ?p = row_key r" using key by (simp add: target_of_def project_row_def Let_def row_key_def)
    obtain updated db1 where up: "update_row env Row_Pending None ?p (g_db g) = (updated, db1)" by fastforce
    then have "updated" using update_row_rows(2) [OF up] in_r' p key(1) by auto
    then have "g_targets (setup_row env sid raw g) = g_targets g @ [row_key r]" "g_seen (setup_row env sid raw g) = ?id # g_seen g"
      using False belongs r'(1) up p by (auto simp: setup_row_def Let_def get_sheet_row_def)
    moreover have "{q \<in> set (db_rows db0). r_sheet_id q = sid \<and> r_id q \<in> insert ?id (set (g_seen g)) \<and> r_id q \<noteq> []}
        = insert r {q \<in> set (db_rows db0). r_sheet_id q = sid \<and> r_id q \<in> set (g_seen g) \<and> r_id q \<noteq> []}"
      using in_r r(2) False distinct_key_unique [OF dist] by auto
    ultimately show ?thesis using cov by (simp add: covers_def)
  next
    case False
    have none: "r_id q \<noteq> ?id" if "q \<in> set (db_rows db0)" "r_sheet_id q = sid" for q
      using False that find_by_eq [OF dist that(1)] by auto
    have "\<not> sheet_row_belongs_to_sheet ?id sid (g_db g)"
    proof
      assume "sheet_row_belongs_to_sheet ?id sid (g_db g)"
      then obtain q where q: "q \<in> set (db_rows (g_db g))" "r_id q = ?id" "r_sheet_id q = sid"
        by (auto simp: sheet_row_belongs_to_sheet_def count_where_def filter_empty_conv)
      have "?id \<in> r_id ` set (db_rows db0)" using q arg_cong [OF touches_ids [OF t], of set] by (metis image_eqI set_map)
      then obtain r where r: "r \<in> set (db_rows db0)" "r_id r = ?id" by (metis imageE)
      then have "find_by r_id ?id (db_rows db0) = Some r" using dist by (auto simp: find_by_Some_iff)
      from touches_find [OF t this] obtain r' where r': "find_by r_id ?id (db_rows (g_db g)) = Some r'" "same_row r r'" by blast
      have "r' = q"
        using find_by_eq [of r_id "db_rows (g_db g)" q ?id] touches_ids [OF t] dist q r'(1) by simp
      with same_row_sheet [OF r'(2)] q(3) none [OF r(1)] r(2) show False by simp
    qed
    then have "g_targets (setup_row env sid raw g) = g_targets g" "set (g_seen (setup_row env sid raw g)) \<subseteq> insert ?id (set (g_seen g))"
      "set (g_seen g) \<subseteq> set (g_seen (setup_row env sid raw g))"
      by (auto simp: setup_row_def Let_def)
    moreover from this none have "{q \<in> set (db_rows db0). r_sheet_id q = sid \<and> r_id q \<in> set (g_seen (setup_row env sid raw g)) \<and> r_id q \<noteq> []}
        = {q \<in> set (db_rows db0). r_sheet_id q = sid \<and> r_id q \<in> set (g_seen g) \<and> r_id q \<noteq> []}"
      by auto
    ultimately show ?thesis using cov by (simp add: covers_def)
  qed
qed

lemma setup_seen:
  "set (g_seen (fold (setup_row env sid) ids g)) - {[]} = (trim ` set ids \<union> set (g_seen g)) - {[]}"
proof (induction ids arbitrary: g)
  case (Cons raw ids)
  have "set (g_seen (setup_row env sid raw g)) - {[]} = insert (trim raw) (set (g_seen g)) - {[]}"
    by (auto simp: setup_row_def Let_def split: option.split prod.split)
  with Cons show ?case by auto
qed simp

text \<open>The targets of a set-up: the keys of the requested rows that are on the sheet.\<close>

definition requested_keys :: "refresh_request \<Rightarrow> workspace_db \<Rightarrow> (string \<times> string \<times> string) set" where
  "requested_keys rq db = row_key ` {r \<in> set (db_rows db). r_sheet_id r = rq_sheet_id rq
     \<and> r_id r \<in> trim ` set (requested_row_ids rq db) \<and> r_id r \<noteq> []}"

lemma refresh_targets:
  assumes "refresh_setup_body env (rq_expected rq) (rq_sheet_id rq) (requested_row_ids rq db) db = Inr ((g, activated), db1)"
    and "distinct (map r_id (db_rows db))"
  shows "set (g_targets g) = requested_keys rq db"
proof -
  let ?g0 = "fold (setup_row env (rq_sheet_id rq)) (requested_row_ids rq db)
    \<lparr>g_seen = [], g_groups = [], g_targets = [], g_db = db\<rparr>"
  have "setup_ok db ?g0 \<and> covers (rq_sheet_id rq) db ?g0"
    by (rule fold_invariant)
      (use assms(2) in \<open>auto simp: setup_row_ok setup_row_covers\<close>, auto simp: setup_ok_def covers_def)
  then have "covers (rq_sheet_id rq) db ?g0" ..
  moreover have "g_targets g = g_targets ?g0"
    using assms(1) by (auto simp: refresh_setup_body_def Let_def split: sum.splits prod.splits)
  moreover have "r_id r \<in> set (g_seen ?g0) \<and> r_id r \<noteq> [] \<longleftrightarrow> r_id r \<in> trim ` set (requested_row_ids rq db) \<and> r_id r \<noteq> []" for r
    using setup_seen [of env "rq_sheet_id rq" "requested_row_ids rq db" "\<lparr>g_seen = [], g_groups = [], g_targets = [], g_db = db\<rparr>"]
    by auto
  then have "{r \<in> set (db_rows db). r_sheet_id r = rq_sheet_id rq \<and> r_id r \<in> set (g_seen ?g0) \<and> r_id r \<noteq> []}
    = {r \<in> set (db_rows db). r_sheet_id r = rq_sheet_id rq \<and> r_id r \<in> trim ` set (requested_row_ids rq db) \<and> r_id r \<noteq> []}"
    by blast
  ultimately show ?thesis unfolding covers_def requested_keys_def by simp
qed

end
