(* ===== verification/DocumentProperties.thy ===== *)
theory DocumentProperties
  imports TrackingProperties
begin

text \<open>
  Restoring a document makes the workspace that document: its sheets are those of
  the document, in order, and the rows of each sheet are those of the document with
  the shipments they carry.
\<close>

subsection \<open>Rows of a restored sheet\<close>

text \<open>A row of the table as the document has it, its shipment among the records.\<close>

definition placed_row :: "string \<Rightarrow> restore_row_input \<Rightarrow> sheet_row \<Rightarrow> bool" where
  "placed_row sid row r \<longleftrightarrow>
     r_id r = re_row_id row \<and> r_sheet_id r = sid \<and> r_position r = re_position row
     \<and> r_display_id r = rti_display_id (resolve_tracking_id (re_display_tracking_id row))
     \<and> r_lookup_id r = rti_lookup_id (resolve_tracking_id (re_display_tracking_id row))
     \<and> r_status r = restored_status row \<and> r_error_message r = re_error_message row"

definition restored_row :: "string \<Rightarrow> tracking_record list \<Rightarrow> restore_row_input \<Rightarrow> sheet_row \<Rightarrow> bool" where
  "restored_row sid recs row r \<longleftrightarrow> placed_row sid row r
     \<and> (case re_shipment row of
          None \<Rightarrow> r_tracking_record_id r = None
        | Some v \<Rightarrow> \<exists>t \<in> set recs. r_tracking_record_id r = Some (t_id t)
            \<and> (\<exists>h. shipment_parts (re_row_id row) v = Inr (t_detail_json t, t_status_json t, h) \<and> t_history_json t = JObj h))"

lemma restored_row_mono: "restored_row sid recs row r \<Longrightarrow> set recs \<subseteq> set recs' \<Longrightarrow> restored_row sid recs' row r"
  by (auto simp: restored_row_def split: option.splits)

lemma restored_rows_mono:
  "list_all2 (restored_row sid recs) rs new \<Longrightarrow> set recs \<subseteq> set recs' \<Longrightarrow> list_all2 (restored_row sid recs') rs new"
  by (erule list_all2_mono) (rule restored_row_mono)

lemma upsert_fresh_position:
  assumes "\<forall>r \<in> set (rows s). r_sheet_id r = ur_sheet_id input \<longrightarrow> r_id r \<noteq> ur_row_id input \<and> r_position r \<noteq> ur_position input"
    and "upsert_sheet_row_on env k input s = Inr t"
  shows "find_by r_id (ur_row_id input) (rows s) = None" "t = s\<lparr>rows := rows s @ [inserted_row env k input]\<rparr>"
proof -
  show none: "find_by r_id (ur_row_id input) (rows s) = None"
  proof (cases "find_by r_id (ur_row_id input) (rows s)")
    case (Some r)
    with assms find_by_SomeD [OF Some] show ?thesis
      by (auto simp: upsert_sheet_row_on_def upsert_existing [OF Some] split: if_splits)
  qed
  have "filter (\<lambda>r. \<not> (r_sheet_id r = ur_sheet_id input \<and> r_position r = ur_position input \<and> r_id r \<noteq> ur_row_id input)) (rows s) = rows s"
    by (rule filter_True) (use assms(1) in auto)
  then have "free_position input s = s" by (simp add: free_position_def)
  with assms(2) show "t = s\<lparr>rows := rows s @ [inserted_row env k input]\<rparr>"
    by (simp add: upsert_sheet_row_on_def upsert_new [OF none] split: if_splits)
qed

lemma place_shipment_new:
  assumes "place_shipment env k row (db\<lparr>base := s\<rparr>) = Inr db2" "rows s = rs @ [r]" "r_id r = re_row_id row"
    and "\<forall>q \<in> set rs. r_id q \<noteq> re_row_id row" "placed_row sid row r" "r_tracking_record_id r = None"
  obtains r' recs where "db_rows db2 = rs @ [r']" "records db2 = records db @ recs" "restored_row sid recs row r'"
    "sheets (base db2) = sheets s" "workspaces db2 = workspaces db"
    "distinct (map t_id (records db)) \<Longrightarrow> distinct (map t_id (records db2))"
proof (cases "re_shipment row")
  case None
  with assms that [of r "[]"] show thesis by (auto simp: place_shipment_def restored_row_def)
next
  case (Some v)
  with assms(1) have "attach_shipment env k row (resolve_tracking_id (re_display_tracking_id row)) v (db\<lparr>base := s\<rparr>) = Inr db2"
    by (simp add: place_shipment_def)
  then show thesis
  proof (rule attach_shipment_Inr)
    fix d st h t
    assume parts: "shipment_parts (re_row_id row) v = Inr (d, st, h)" and t: "t_status_json t = st" "t_detail_json t = d"
      "t_history_json t = JObj h" "t_id t = ''document:'' @ gen env k"
      and free: "find_by t_id (''document:'' @ gen env k) (records (db\<lparr>base := s\<rparr>)) = None"
      and db2: "db2 = map_rows (update_where (\<lambda>r. r_id r = re_row_id row)
        (\<lambda>r. r\<lparr>r_tracking_record_id := Some (''document:'' @ gen env k)\<rparr>))
          ((db\<lparr>base := s\<rparr>)\<lparr>records := records (db\<lparr>base := s\<rparr>) @ [t]\<rparr>)"
    let ?r = "r\<lparr>r_tracking_record_id := Some (t_id t)\<rparr>"
    have rows: "db_rows db2 = rs @ [?r]"
      using assms(2,3,4) update_where_id [of rs "\<lambda>r. r_id r = re_row_id row"] by (simp add: db2 t map_rows_def update_where_def)
    have row: "restored_row sid [t] row ?r"
      using assms(5) Some parts t by (auto simp: restored_row_def placed_row_def)
    show thesis
      by (rule that [OF rows _ row]) (use free in \<open>auto simp: db2 map_rows_def t find_by_None_iff\<close>)
  qed
qed

lemma placed_document_row: "placed_row sid row (inserted_row env k (document_row sid row))"
  "r_tracking_record_id (inserted_row env k (document_row sid row)) = None"
  by (simp_all add: placed_row_def inserted_row_def document_row_def Let_def)

text \<open>What the loop over the rows of a sheet adds, when the sheet holds only rows of the loop.\<close>

lemma restore_rows_adds:
  assumes "restore_rows env sid k ids ps rs db = Inr (k', ids', db')"
    and "\<forall>r \<in> set (db_rows db). r_sheet_id r = sid \<longrightarrow> r_id r \<in> ids \<and> r_position r \<in> ps"
  obtains new recs where "db_rows db' = db_rows db @ new" "records db' = records db @ recs"
    "list_all2 (restored_row sid recs) rs new" "sheets (base db') = sheets (base db)" "workspaces db' = workspaces db"
    "distinct (map t_id (records db)) \<Longrightarrow> distinct (map t_id (records db'))"
  using assms
proof (induction rs arbitrary: k ids ps db thesis)
  case Nil
  then show ?case by (intro Nil.prems(1) [of "[]" "[]"]) auto
next
  case (Cons row rs)
  from Cons.prems(2) show ?case
  proof (rule restore_rows_cons)
    fix s db2 k2
    assume fresh: "re_row_id row \<notin> ids" "re_position row \<notin> ps"
      and up: "upsert_sheet_row_on env k (document_row sid row) (base db) = Inr s"
      and ship: "place_shipment env (Suc k) row (db\<lparr>base := s\<rparr>) = Inr db2"
      and rest: "restore_rows env sid k2 (insert (re_row_id row) ids) (insert (re_position row) ps) rs db2 = Inr (k', ids', db')"
    let ?new = "inserted_row env k (document_row sid row)"
    have "\<forall>r \<in> set (db_rows db). r_sheet_id r = ur_sheet_id (document_row sid row)
        \<longrightarrow> r_id r \<noteq> ur_row_id (document_row sid row) \<and> r_position r \<noteq> ur_position (document_row sid row)"
      using Cons.prems(3) fresh by (auto simp: document_row_def Let_def)
    note s = upsert_fresh_position [OF this up]
    have other: "\<forall>q \<in> set (db_rows db). r_id q \<noteq> re_row_id row"
      using s(1) by (simp add: find_by_None_iff document_row_def Let_def)
    have rows_s: "rows s = db_rows db @ [?new]" "sheets s = sheets (base db)" by (simp_all add: s(2))
    have id: "r_id ?new = re_row_id row" using placed_document_row(1) by (simp add: placed_row_def)
    from place_shipment_new [OF ship rows_s(1) id other placed_document_row]
    obtain r' recs where r': "db_rows db2 = db_rows db @ [r']" "records db2 = records db @ recs" "restored_row sid recs row r'"
      "sheets (base db2) = sheets (base db)" "workspaces db2 = workspaces db"
      and dist: "distinct (map t_id (records db)) \<Longrightarrow> distinct (map t_id (records db2))"
      by (auto simp: rows_s(2))
    have "\<forall>r \<in> set (db_rows db2). r_sheet_id r = sid
        \<longrightarrow> r_id r \<in> insert (re_row_id row) ids \<and> r_position r \<in> insert (re_position row) ps"
      using Cons.prems(3) r'(1,3) by (auto simp: restored_row_def placed_row_def)
    from Cons.IH [OF _ rest this] obtain new recs2 where new: "db_rows db' = db_rows db2 @ new" "records db' = records db2 @ recs2"
      "list_all2 (restored_row sid recs2) rs new" "sheets (base db') = sheets (base db2)" "workspaces db' = workspaces db2"
      and dist2: "distinct (map t_id (records db2)) \<Longrightarrow> distinct (map t_id (records db'))"
      by blast
    show ?thesis
    proof (rule Cons.prems(1) [of "r' # new" "recs @ recs2"])
      show "list_all2 (restored_row sid (recs @ recs2)) (row # rs) (r' # new)"
        using restored_row_mono [OF r'(3), of "recs @ recs2"] restored_rows_mono [OF new(3), of "recs @ recs2"] by simp
      show "distinct (map t_id (records db'))" if "distinct (map t_id (records db))"
        by (rule dist2 [OF dist [OF that]])
    qed (simp_all add: new r')
  qed
qed

subsection \<open>Sheets of a restored document\<close>

definition document_sheet :: "env \<Rightarrow> string \<Rightarrow> restore_sheet_input \<Rightarrow> sheet" where
  "document_sheet env wid sheet =
     \<lparr>s_id = rs_sheet_id sheet, s_workspace_id = wid, s_name = trim (rs_name sheet),
      s_position = rs_position sheet, s_created_at = now env, s_updated_at = now env\<rparr>"

text \<open>Before a sheet of the document is written, no row claims it.\<close>

definition vacant :: "string \<Rightarrow> string set \<Rightarrow> workspace_db \<Rightarrow> bool" where
  "vacant wid sids db \<longleftrightarrow> (\<forall>r \<in> set (db_rows db). r_sheet_id r \<in> s_id ` set (sheets (base db)))
     \<and> (\<forall>x \<in> set (sheets (base db)). s_workspace_id x = wid \<longrightarrow> s_id x \<in> sids)"

lemma upsert_document_sheet_new:
  assumes "upsert_document_sheet env wid sheet db = Inr db1" "vacant wid sids db" "rs_sheet_id sheet \<notin> sids"
  shows "db1 = db\<lparr>base := (base db)\<lparr>sheets := sheets (base db) @ [document_sheet env wid sheet]\<rparr>\<rparr>"
    and "rs_sheet_id sheet \<notin> s_id ` set (sheets (base db))"
proof -
  have none: "find_by s_id (rs_sheet_id sheet) (sheets (base db)) = None"
  proof (cases "find_by s_id (rs_sheet_id sheet) (sheets (base db))")
    case (Some x)
    with assms find_by_SomeD [OF Some] show ?thesis by (auto simp: upsert_document_sheet_def vacant_def split: if_splits)
  qed
  with assms(1) show "db1 = db\<lparr>base := (base db)\<lparr>sheets := sheets (base db) @ [document_sheet env wid sheet]\<rparr>\<rparr>"
    by (auto simp: upsert_document_sheet_def document_sheet_def split: if_splits)
  from none show "rs_sheet_id sheet \<notin> s_id ` set (sheets (base db))" by (auto simp: find_by_None_iff)
qed

lemma restore_sheets_adds:
  assumes "restore_sheets env wid False k sids sps ids ss db = Inr db'" "vacant wid sids db"
    and "distinct (map t_id (records db))"
  obtains news recs where "db_rows db' = db_rows db @ concat news" "records db' = records db @ recs"
    "list_all2 (\<lambda>sheet new. list_all2 (restored_row (rs_sheet_id sheet) recs) (rs_rows sheet) new) ss news"
    "sheets (base db') = sheets (base db) @ map (document_sheet env wid) ss"
    "distinct (map t_id (records db'))" "distinct (map rs_sheet_id ss)" "set (map rs_sheet_id ss) \<inter> s_id ` set (sheets (base db)) = {}"
  using assms
proof (induction ss arbitrary: k sids sps ids db thesis)
  case Nil
  then show ?case by (intro Nil.prems(1) [of "[]" "[]"]) auto
next
  case (Cons sheet ss)
  let ?sid = "rs_sheet_id sheet"
  from Cons.prems(2) show ?case
  proof (cases rule: restore_sheets_cons)
    case (restored db1 k2 ids2 db2)
    note db1 = upsert_document_sheet_new [OF restored(2) Cons.prems(3) restored(1)]
    have "\<forall>r \<in> set (db_rows db1). r_sheet_id r = ?sid \<longrightarrow> r_id r \<in> ids \<and> r_position r \<in> {}"
      using db1(2) Cons.prems(3) by (simp add: db1(1) vacant_def) metis
    from restore_rows_adds [OF restored(3) this] obtain new recs where
      new: "db_rows db2 = db_rows db1 @ new" "records db2 = records db1 @ recs" "list_all2 (restored_row ?sid recs) (rs_rows sheet) new"
      "sheets (base db2) = sheets (base db1)"
      and dist1: "distinct (map t_id (records db1)) \<Longrightarrow> distinct (map t_id (records db2))" by blast
    have dist: "distinct (map t_id (records db2))" by (rule dist1) (simp add: Cons.prems(4) db1(1))
    have in_sheet: "r_sheet_id r = ?sid" if "r \<in> set new" for r
      using new(3) that by (auto simp: list_all2_conv_all_nth in_set_conv_nth restored_row_def placed_row_def)
    have "vacant wid (insert ?sid sids) (drop_cache_of {?sid} db2)"
      using Cons.prems(3) in_sheet new(1,4) db1(1) by (auto simp: vacant_def drop_cache_of_def document_sheet_def)
    from Cons.IH [OF _ restored(4) this] obtain news recs2 where
      rest: "db_rows db' = db_rows db2 @ concat news" "records db' = records db2 @ recs2"
      "list_all2 (\<lambda>sheet new. list_all2 (restored_row (rs_sheet_id sheet) recs2) (rs_rows sheet) new) ss news"
      "sheets (base db') = sheets (base db2) @ map (document_sheet env wid) ss" "distinct (map t_id (records db'))"
      "distinct (map rs_sheet_id ss)" "set (map rs_sheet_id ss) \<inter> s_id ` set (sheets (base db2)) = {}"
      using dist by (auto simp: drop_cache_of_def)
    show ?thesis
    proof (rule Cons.prems(1) [of "new # news" "recs @ recs2"])
      have "list_all2 (\<lambda>sheet new. list_all2 (restored_row (rs_sheet_id sheet) (recs @ recs2)) (rs_rows sheet) new) ss news"
        by (rule list_all2_mono [OF rest(3)]) (rule restored_rows_mono, auto)
      then show "list_all2 (\<lambda>sheet new. list_all2 (restored_row (rs_sheet_id sheet) (recs @ recs2)) (rs_rows sheet) new) (sheet # ss) (new # news)"
        using restored_rows_mono [OF new(3), of "recs @ recs2"] by simp
      show "distinct (map rs_sheet_id (sheet # ss))" using rest(6,7) new(4) db1(1) by (auto simp: document_sheet_def)
      show "set (map rs_sheet_id (sheet # ss)) \<inter> s_id ` set (sheets (base db)) = {}"
        using rest(7) new(4) db1 by (auto simp: document_sheet_def)
    qed (use rest new db1(1) in simp_all)
  qed simp
qed

subsection \<open>The document\<close>

lemma delete_sheets_of_workspace_spec:
  "sheets (base (delete_sheets_of_workspace wid db))
     = filter (\<lambda>x. s_id x \<notin> s_id ` {x \<in> set (sheets (base db)). s_workspace_id x = wid}) (sheets (base db))"
  "db_rows (delete_sheets_of_workspace wid db)
     = filter (\<lambda>r. r_sheet_id r \<notin> s_id ` {x \<in> set (sheets (base db)). s_workspace_id x = wid}) (db_rows db)"
  "records (delete_sheets_of_workspace wid db) = records db"
proof -
  have fold: "sheets (fold delete_sheet ids s) = filter (\<lambda>x. s_id x \<notin> set ids) (sheets s)
      \<and> rows (fold delete_sheet ids s) = filter (\<lambda>r. r_sheet_id r \<notin> set ids) (rows s)" for ids s
    by (induction ids arbitrary: s) (simp_all add: delete_sheet_def Let_def conj_commute)
  have ids: "set (map s_id (filter (\<lambda>x. s_workspace_id x = wid) (sheets (base db))))
      = s_id ` {x \<in> set (sheets (base db)). s_workspace_id x = wid}" by auto
  show "sheets (base (delete_sheets_of_workspace wid db))
     = filter (\<lambda>x. s_id x \<notin> s_id ` {x \<in> set (sheets (base db)). s_workspace_id x = wid}) (sheets (base db))"
    "db_rows (delete_sheets_of_workspace wid db)
     = filter (\<lambda>r. r_sheet_id r \<notin> s_id ` {x \<in> set (sheets (base db)). s_workspace_id x = wid}) (db_rows db)"
    "records (delete_sheets_of_workspace wid db) = records db"
    using fold [of "map s_id (filter (\<lambda>x. s_workspace_id x = wid) (sheets (base db)))" "base db"] unfolding ids
    by (simp_all add: delete_sheets_of_workspace_def)
qed

lemma vacant_after_delete:
  assumes "rows_ok (base db)" "generation db' = g" "db' = db\<lparr>generation := g\<rparr>"
  shows "vacant wid {} (delete_sheets_of_workspace wid db')"
  using assms
  by (auto simp: vacant_def delete_sheets_of_workspace_spec rows_ok_def sheet_exists_def find_by_None_iff image_iff) metis

text \<open>A row read back, with the shipment of the document.\<close>

definition restored_as :: "restore_row_input \<Rightarrow> sheet_row_projection \<Rightarrow> bool" where
  "restored_as row p \<longleftrightarrow>
     p_row_id p = re_row_id row \<and> p_position p = as_u32 (re_position row)
     \<and> p_display_tracking_id p = rti_display_id (resolve_tracking_id (re_display_tracking_id row))
     \<and> p_lookup_tracking_id p = rti_lookup_id (resolve_tracking_id (re_display_tracking_id row))
     \<and> p_row_status p =
         (case re_row_status row of
            None \<Rightarrow> if re_shipment row = None then Row_Empty else Row_Loaded
          | Some Row_Pending \<Rightarrow> Row_Failed
          | Some Row_Loading \<Rightarrow> Row_Failed
          | Some st \<Rightarrow> st)
     \<and> p_error_message p = re_error_message row
     \<and> (case re_shipment row of
          None \<Rightarrow> p_detail_json p = None \<and> p_status_json p = None \<and> p_history_json p = None
        | Some v \<Rightarrow> \<exists>ms d st. v = JObj ms \<and> is_object d \<and> is_object st
            \<and> json_get ''detail'' v = Some d \<and> json_get ''status_akhir'' v = Some st
            \<and> p_detail_json p = Some d \<and> p_status_json p = Some st
            \<and> p_history_json p = Some (JObj (filter (\<lambda>(k, _). k \<noteq> ''detail'' \<and> k \<noteq> ''status_akhir'') ms)))"

lemma restored_status_cases:
  "restored_status row =
     (case re_row_status row of
        None \<Rightarrow> if re_shipment row = None then Row_Empty else Row_Loaded
      | Some Row_Pending \<Rightarrow> Row_Failed
      | Some Row_Loading \<Rightarrow> Row_Failed
      | Some st \<Rightarrow> st)"
  by (simp add: restored_status_def split: option.split sheet_row_status.split)

lemma shipment_parts_Inr:
  assumes "shipment_parts rid v = Inr (d, st, h)"
  shows "\<exists>ms. v = JObj ms \<and> is_object d \<and> is_object st
     \<and> json_get ''detail'' v = Some d \<and> json_get ''status_akhir'' v = Some st
     \<and> h = filter (\<lambda>(k, _). k \<noteq> ''detail'' \<and> k \<noteq> ''status_akhir'') ms"
proof -
  from assms obtain ms where ms: "v = JObj ms"
    by (cases v) (auto simp: shipment_parts_def and_then_Inr_iff ok_or_def)
  with assms have "is_object d" "is_object st" "map_of ms ''detail'' = Some d"
    "map_of (filter (\<lambda>(n, v). n \<noteq> ''detail'') ms) ''status_akhir'' = Some st"
    "h = filter (\<lambda>(n, v). n \<noteq> ''status_akhir'') (filter (\<lambda>(n, v). n \<noteq> ''detail'') ms)"
    by (auto simp: shipment_parts_def and_then_Inr_iff ok_or_def json_remove_def bind_eq_Some_conv
        split: option.splits if_splits)
  with ms show ?thesis
    unfolding map_of_filter_other filter_filter by (simp add: case_prod_unfold)
qed

lemma restored_row_project:
  assumes "restored_row sid recs row r" "set recs \<subseteq> set (records db)" "distinct (map t_id (records db))"
    and "records db' = filter keep (records db)" "\<And>t. r_tracking_record_id r = Some (t_id t) \<Longrightarrow> keep t"
  shows "restored_as row (project_row db' r)"
proof (cases "re_shipment row")
  case None
  with assms(1) show ?thesis
    by (simp add: restored_row_def placed_row_def restored_as_def restored_status_cases project_row_def Let_def)
next
  case (Some v)
  with assms(1) obtain t h where t: "t \<in> set recs" "r_tracking_record_id r = Some (t_id t)"
    "shipment_parts (re_row_id row) v = Inr (t_detail_json t, t_status_json t, h)" "t_history_json t = JObj h"
    by (auto simp: restored_row_def)
  have "find_by t_id (t_id t) (records db') = Some t"
    using t(1,2) assms(2-5) by (intro find_by_eq) (auto simp: distinct_map_filter)
  with assms(1) t(2,4) Some shipment_parts_Inr [OF t(3)] show ?thesis
    by (auto simp: restored_row_def placed_row_def restored_as_def restored_status_cases project_row_def Let_def)
qed

lemma list_all2_in_sheet: "list_all2 (restored_row sid recs) rs new \<Longrightarrow> r \<in> set new \<Longrightarrow> r_sheet_id r = sid"
  by (induction rs new rule: list_all2_induct) (auto simp: restored_row_def placed_row_def)

lemma rows_of_concat:
  assumes "list_all2 (\<lambda>sheet new. list_all2 (restored_row (rs_sheet_id sheet) recs) (rs_rows sheet) new) ss news"
    and "distinct (map rs_sheet_id ss)" "sheet \<in> set ss"
  shows "list_all2 (restored_row (rs_sheet_id sheet) recs) (rs_rows sheet)
    (filter (\<lambda>r. r_sheet_id r = rs_sheet_id sheet) (concat news))"
  using assms
proof (induction ss news rule: list_all2_induct)
  case (Cons s ss new news)
  have others: "filter (\<lambda>r. r_sheet_id r = rs_sheet_id s) (concat news) = []" if "rs_sheet_id s \<notin> rs_sheet_id ` set ss"
    using Cons.hyps(2) that by (induction ss news rule: list_all2_induct) (auto simp: filter_empty_conv dest: list_all2_in_sheet)
  show ?case
  proof (cases "sheet = s")
    case True
    have "filter (\<lambda>r. r_sheet_id r = rs_sheet_id s) new = new"
      using list_all2_in_sheet [OF Cons.hyps(1)] by (intro filter_True) simp
    with True Cons others show ?thesis by simp
  next
    case False
    with Cons.prems have "rs_sheet_id sheet \<in> rs_sheet_id ` set ss" "rs_sheet_id s \<notin> rs_sheet_id ` set ss" by auto
    then have "rs_sheet_id sheet \<noteq> rs_sheet_id s" by metis
    then have "filter (\<lambda>r. r_sheet_id r = rs_sheet_id sheet) new = []"
      using list_all2_in_sheet [OF Cons.hyps(1)] by (auto simp: filter_empty_conv)
    with False Cons show ?thesis by simp
  qed
qed simp

text \<open>
  \<open>C3.\<close> After a document has been restored over a workspace, the sheets of the workspace
  are those of the document, in its order, with its names trimmed and its positions, and
  the rows of every sheet read back as those of the document: ids, positions, tracking
  numbers, statuses (an interrupted one as failed), messages, and the parts of the
  shipment each row carries, whatever was in the database before.
\<close>

theorem restored_workspace_is_the_document:
  assumes "restore_workspace env input db = (Inr (), db')" "\<not> rw_seed_only input"
    and "rows_ok (base db)" "distinct (map t_id (records db))"
  shows "\<exists>wid. primary_workspace_id db = Some wid
    \<and> map (\<lambda>x. (s_id x, s_name x, s_position x)) (filter (\<lambda>x. s_workspace_id x = wid) (sheets (base db')))
        = map (\<lambda>s. (rs_sheet_id s, trim (rs_name s), rs_position s)) (rw_sheets input)
    \<and> (\<forall>sheet \<in> set (rw_sheets input).
         list_all2 restored_as (rs_rows sheet) (map (project_row db') (rows_of (rs_sheet_id sheet) (base db'))))"
proof -
  define db0 where "db0 = db\<lparr>generation := generation db + 1\<rparr>"
  obtain wid db2 where wid: "primary_workspace_id db = Some wid" and run: "restore_sheets env wid False 0 {} {} {} (rw_sheets input)
      (delete_sheets_of_workspace wid db0) = Inr db2" and db': "db' = delete_orphan_documents db2"
    using assms(1,2) by (auto simp: restore_workspace_def atomic_write_def and_then_Inr_iff and_then_def db0_def
        split: option.splits if_splits sum.splits prod.splits)
  let ?db1 = "delete_sheets_of_workspace wid db0"
  have vac: "vacant wid {} ?db1" by (rule vacant_after_delete [OF assms(3)]) (simp_all add: db0_def)
  from restore_sheets_adds [OF run vac] obtain news recs where
    new: "db_rows db2 = db_rows ?db1 @ concat news" "records db2 = records ?db1 @ recs"
    "list_all2 (\<lambda>sheet new. list_all2 (restored_row (rs_sheet_id sheet) recs) (rs_rows sheet) new) (rw_sheets input) news"
    "sheets (base db2) = sheets (base ?db1) @ map (document_sheet env wid) (rw_sheets input)"
    "distinct (map t_id (records db2))" "distinct (map rs_sheet_id (rw_sheets input))"
    "set (map rs_sheet_id (rw_sheets input)) \<inter> s_id ` set (sheets (base ?db1)) = {}"
    using assms(4) by (auto simp: delete_sheets_of_workspace_spec db0_def)
  have base': "base db' = base db2" by (simp add: db' delete_orphan_documents_def)
  have "filter (\<lambda>x. s_workspace_id x = wid) (sheets (base ?db1)) = []"
    using vac by (auto simp: vacant_def filter_empty_conv)
  moreover have "filter (\<lambda>x. s_workspace_id x = wid) (map (document_sheet env wid) ss) = map (document_sheet env wid) ss" for ss
    by (rule filter_True) (auto simp: document_sheet_def)
  ultimately have sheets: "map (\<lambda>x. (s_id x, s_name x, s_position x)) (filter (\<lambda>x. s_workspace_id x = wid) (sheets (base db')))
      = map (\<lambda>s. (rs_sheet_id s, trim (rs_name s), rs_position s)) (rw_sheets input)"
    by (simp add: base' new(4) document_sheet_def)
  have "list_all2 restored_as (rs_rows sheet) (map (project_row db') (rows_of (rs_sheet_id sheet) (base db')))"
    if sheet: "sheet \<in> set (rw_sheets input)" for sheet
  proof -
    let ?sid = "rs_sheet_id sheet"
    have "filter (\<lambda>r. r_sheet_id r = ?sid) (db_rows ?db1) = []"
      using vac new(7) sheet by (auto simp: vacant_def filter_empty_conv)
    then have rows: "rows_of ?sid (base db') = filter (\<lambda>r. r_sheet_id r = ?sid) (concat news)"
      by (simp add: rows_of_def base' new(1))
    have "restored_as row (project_row db' r)" if "restored_row ?sid recs row r" "r \<in> set (rows_of ?sid (base db'))" for row r
    proof (rule restored_row_project [OF that(1) _ new(5)])
      show "records db' = filter (\<lambda>t. \<not> (starts_with ''document:'' (to_ascii_lowercase (t_id t))
          \<and> (\<forall>r \<in> set (db_rows db2). r_tracking_record_id r \<noteq> Some (t_id t)))) (records db2)"
        by (simp add: db' delete_orphan_documents_def)
      show "\<not> (starts_with ''document:'' (to_ascii_lowercase (t_id t))
          \<and> (\<forall>r \<in> set (db_rows db2). r_tracking_record_id r \<noteq> Some (t_id t)))" if "r_tracking_record_id r = Some (t_id t)" for t
        using that \<open>r \<in> set (rows_of ?sid (base db'))\<close> by (auto simp: rows_of_def base')
    qed (simp add: new(2))
    then show ?thesis
      using rows_of_concat [OF new(3,6) sheet] unfolding rows [symmetric]
      by (auto simp: list_all2_conv_all_nth)
  qed
  with wid sheets show ?thesis by blast
qed

text \<open>A document with a shipment, restored over the sheets of another workspace.\<close>

definition shipment_document :: restore_workspace_input where
  "shipment_document = \<lparr>rw_sheets = [\<lparr>rs_sheet_id = ''d1'', rs_name = '' Doc'', rs_position = 3,
     rs_rows = [\<lparr>re_row_id = ''x'', re_position = 0, re_display_tracking_id = ''P1'',
       re_shipment = Some (JObj [(''detail'', JObj []), (''status_akhir'', JObj []), (''url'', JStr ''u'')]),
       re_row_status = Some Row_Loading, re_error_message = None\<rparr>]\<rparr>], rw_seed_only = False\<rparr>"

theorem restored_workspace_is_the_document_witness:
  "\<exists>db' p. restore_workspace sample_env shipment_document document_db = (Inr (), db')
     \<and> map (project_row db') (rows_of ''d1'' (base db')) = [p] \<and> p_row_status p = Row_Failed
     \<and> p_history_json p = Some (JObj [(''url'', JStr ''u'')])"
proof -
  let ?run = "restore_workspace sample_env shipment_document document_db"
  have trims: "trim ''d1'' = ''d1''" "trim '' Doc'' = ''Doc''" "trim ''x'' = ''x''" "trim ''P1'' = ''P1''"
    "stripped_lookup_id ''P1'' = None" "starts_with ''document:'' (to_ascii_lowercase ''document:g1'')" by code_simp+
  have "fst ?run = Inr ()"
    by (simp add: restore_workspace_def shipment_document_def primary_workspace_id_def first_by_def document_db_def
        atomic_write_def upsert_document_sheet_def delete_sheets_of_workspace_def count_where_def tracking_db_def
        sample_store_def sample_sheet_def delete_sheet_def Let_def waiting_row_def trims resolve_tracking_id_def
        upsert_sheet_row_on_def upsert_sheet_row_with_mode_def insert_sheet_row_def free_position_def position_taken_def
        inserted_row_def sheet_exists_def attach_shipment_def shipment_parts_def json_remove_def is_object_def map_rows_def)
  then have run: "?run = (Inr (), snd ?run)" by (metis prod.collapse)
  have "\<not> rw_seed_only shipment_document" by (simp add: shipment_document_def)
  moreover have "rows_ok (base document_db)" "distinct (map t_id (records document_db))"
    by (simp_all add: document_db_def tracking_db_def rows_ok_def positions_unique_def waiting_row_def
        sheet_exists_def sample_store_def sample_sheet_def)
  ultimately have "\<forall>sheet \<in> set (rw_sheets shipment_document).
      list_all2 restored_as (rs_rows sheet) (map (project_row (snd ?run)) (rows_of (rs_sheet_id sheet) (base (snd ?run))))"
    using restored_workspace_is_the_document [OF run] by blast
  then obtain p where "map (project_row (snd ?run)) (rows_of ''d1'' (base (snd ?run))) = [p]"
    "restored_as (hd (rs_rows (hd (rw_sheets shipment_document)))) p"
    by (auto simp: shipment_document_def list_all2_Cons1)
  with run show ?thesis
    by (intro exI [of _ "snd ?run"] exI [of _ p])
      (auto simp: restored_as_def shipment_document_def)
qed

end
