(* ===== verification/SheetQuery.thy ===== *)
theory SheetQuery
  imports DocumentProperties "HOL-Library.Sorting_Algorithms"
begin

text \<open>
  The queries on the rows of a sheet (\<open>storage.rs\<close>): the tables of fields with
  their SQL expressions, the construction of the \<open>WHERE\<close> and \<open>ORDER BY\<close> texts with
  their bindings, and the windows \<open>query_sheet_rows\<close> and the value lists
  \<open>query_sheet_field_values\<close> answer.  What SQLite computes for the expression of a
  column in a row, and how it compares two cells, are parameters; the meaning of
  \<open>LIKE\<close>, \<open>IN\<close>, the joins, the order, the limits and the groups is written out.
\<close>

subsection \<open>Queries\<close>

record sheet_filter =
  sf_field :: string
  sf_value :: string

record sheet_value_filter =
  vf_field :: string
  vf_values :: "string list"

datatype sort_direction = Asc | Desc

record sheet_sort =
  so_field :: string
  so_direction :: sort_direction

record sheet_rows_query =
  sq_sheet_id :: string
  sq_offset :: nat
  sq_limit :: nat
  sq_filters :: "sheet_filter list"
  sq_value_filters :: "sheet_value_filter list"
  sq_sort :: "sheet_sort list"

record sheet_row_window =
  sw_sheet_id :: string
  sw_offset :: nat
  sw_limit :: nat
  sw_total_count :: nat
  sw_has_more :: bool
  sw_next_offset :: "nat option"
  sw_rows :: "sheet_row_projection list"

record sheet_field_values_query =
  fv_sheet_id :: string
  fv_field :: string
  fv_filters :: "sheet_filter list"
  fv_value_filters :: "sheet_value_filter list"
  fv_limit :: nat

record sheet_field_value_option =
  fo_value :: string
  fo_count :: nat

record sheet_field_values_result =
  fr_sheet_id :: string
  fr_field :: string
  fr_total_count :: nat
  fr_values :: "sheet_field_value_option list"

definition clamp_query_window :: "nat \<Rightarrow> nat \<Rightarrow> nat \<Rightarrow> nat \<times> nat" where
  "clamp_query_window offset limit max_limit = (offset, min limit max_limit)"

subsection \<open>Columns\<close>

text \<open>\<open>sq\<close> is the quote of SQL; \<open>json_extract_call\<close> is the call of \<open>json_extract\<close> on a column.\<close>

definition sq :: string where
  "sq = [CHR 0x27]"

definition json_extract_call :: "string \<Rightarrow> string \<Rightarrow> string" where
  "json_extract_call source path = ''json_extract(tr.'' @ source @ ''_json, '' @ sq @ path @ sq @ '')''"

definition text_column :: "string \<Rightarrow> string \<Rightarrow> string" where
  "text_column source path = ''COALESCE('' @ json_extract_call source path @ '', '' @ sq @ sq @ '')''"

definition nocase_column :: "string \<Rightarrow> string \<Rightarrow> string" where
  "nocase_column source path = text_column source path @ '' COLLATE NOCASE''"

definition number_column :: "string \<Rightarrow> string \<Rightarrow> string \<Rightarrow> string" where
  "number_column kind source path = ''CAST(COALESCE('' @ json_extract_call source path @ '', 0) AS '' @ kind @ '')''"

definition days_since_transaction_filter_sql :: string where
  "days_since_transaction_filter_sql =
     ''COALESCE(CAST(julianday(date('' @ sq @ ''now'' @ sq @ '', '' @ sq @ ''localtime'' @ sq @ '')) - julianday(substr(json_extract(tr.detail_json, '' @ sq @
     ''$.origin_detail.tanggal_input'' @ sq @ ''), 1, 10)) AS INTEGER), '' @ sq @ sq @ '')''"

definition days_since_transaction_sort_sql :: string where
  "days_since_transaction_sort_sql =
     ''CAST(COALESCE(julianday(date('' @ sq @ ''now'' @ sq @ '', '' @ sq @ ''localtime'' @ sq @ '')) - julianday(substr(json_extract(tr.detail_json, '' @ sq @
     ''$.origin_detail.tanggal_input'' @ sq @ ''), 1, 10)), 0) AS REAL)''"

definition days_since_last_unbagging_filter_sql :: string where
  "days_since_last_unbagging_filter_sql =
     ''COALESCE((SELECT CAST(julianday(date('' @ sq @ ''now'' @ sq @ '', '' @ sq @ ''localtime'' @ sq @ '')) - julianday(substr(json_extract(entry.value, '' @
     sq @ ''$.unbagging.tanggal'' @ sq @ ''), 1, 10)) AS INTEGER) FROM json_each(json_extract(tr.history_json, '' @ sq @
     ''$.history_summary.bagging_unbagging'' @ sq @ '')) AS entry WHERE json_type(entry.value, '' @ sq @ ''$.unbagging'' @ sq @ '') = '' @ sq @ ''object'' @
     sq @ '' AND json_extract(entry.value, '' @ sq @ ''$.unbagging.tanggal'' @ sq @ '') IS NOT NULL ORDER BY COALESCE(julianday(json_extract(entry.value, '' @
     sq @ ''$.unbagging.tanggal'' @ sq @ '') || '' @ sq @ '' '' @ sq @ '' || COALESCE(json_extract(entry.value, '' @ sq @ ''$.unbagging.waktu'' @ sq @ ''), '' @
     sq @ ''00:00:00'' @ sq @ '')), 0) DESC, CAST(entry.key AS INTEGER) DESC LIMIT 1), '' @ sq @ sq @ '')''"

definition days_since_last_unbagging_sort_sql :: string where
  "days_since_last_unbagging_sort_sql =
     ''CAST(COALESCE((SELECT julianday(date('' @ sq @ ''now'' @ sq @ '', '' @ sq @ ''localtime'' @ sq @ '')) - julianday(substr(json_extract(entry.value, '' @
     sq @ ''$.unbagging.tanggal'' @ sq @ ''), 1, 10)) FROM json_each(json_extract(tr.history_json, '' @ sq @ ''$.history_summary.bagging_unbagging'' @ sq @
     '')) AS entry WHERE json_type(entry.value, '' @ sq @ ''$.unbagging'' @ sq @ '') = '' @ sq @ ''object'' @ sq @ '' AND json_extract(entry.value, '' @ sq @
     ''$.unbagging.tanggal'' @ sq @ '') IS NOT NULL ORDER BY COALESCE(julianday(json_extract(entry.value, '' @ sq @ ''$.unbagging.tanggal'' @ sq @ '') || '' @
     sq @ '' '' @ sq @ '' || COALESCE(json_extract(entry.value, '' @ sq @ ''$.unbagging.waktu'' @ sq @ ''), '' @ sq @ ''00:00:00'' @ sq @
     '')), 0) DESC, CAST(entry.key AS INTEGER) DESC LIMIT 1), 0) AS REAL)''"

definition latest_bagging_status_filter_sql :: string where
  "latest_bagging_status_filter_sql =
     ''COALESCE((SELECT json_extract(entry.value, '' @ sq @ ''$.nomor_kantung'' @ sq @ '') || '' @ sq @ '' - '' @ sq @
     '' || CASE WHEN json_type(entry.value, '' @ sq @ ''$.unbagging'' @ sq @ '') = '' @ sq @ ''object'' @ sq @ '' THEN '' @ sq @ ''Unbagging'' @ sq @
     '' ELSE '' @ sq @ ''Bagging'' @ sq @ '' END FROM json_each(json_extract(tr.history_json, '' @ sq @ ''$.history_summary.bagging_unbagging'' @ sq @
     '')) AS entry WHERE json_extract(entry.value, '' @ sq @ ''$.nomor_kantung'' @ sq @ '') IS NOT NULL AND (json_type(entry.value, '' @ sq @ ''$.bagging'' @
     sq @ '') = '' @ sq @ ''object'' @ sq @ '' OR json_type(entry.value, '' @ sq @ ''$.unbagging'' @ sq @ '') = '' @ sq @ ''object'' @ sq @
     '') ORDER BY CAST(entry.key AS INTEGER) DESC LIMIT 1), '' @ sq @ sq @ '')''"

definition latest_bagging_status_sort_sql :: string where
  "latest_bagging_status_sort_sql =
     ''COALESCE((SELECT json_extract(entry.value, '' @ sq @ ''$.nomor_kantung'' @ sq @ '') || '' @ sq @ '' - '' @ sq @
     '' || CASE WHEN json_type(entry.value, '' @ sq @ ''$.unbagging'' @ sq @ '') = '' @ sq @ ''object'' @ sq @ '' THEN '' @ sq @ ''Unbagging'' @ sq @
     '' ELSE '' @ sq @ ''Bagging'' @ sq @ '' END FROM json_each(json_extract(tr.history_json, '' @ sq @ ''$.history_summary.bagging_unbagging'' @ sq @
     '')) AS entry WHERE json_extract(entry.value, '' @ sq @ ''$.nomor_kantung'' @ sq @ '') IS NOT NULL AND (json_type(entry.value, '' @ sq @ ''$.bagging'' @
     sq @ '') = '' @ sq @ ''object'' @ sq @ '' OR json_type(entry.value, '' @ sq @ ''$.unbagging'' @ sq @ '') = '' @ sq @ ''object'' @ sq @
     '') ORDER BY CAST(entry.key AS INTEGER) DESC LIMIT 1), '' @ sq @ sq @ '') COLLATE NOCASE''"

definition latest_manifest_r7_filter_sql :: string where
  "latest_manifest_r7_filter_sql =
     ''COALESCE((SELECT json_extract(entry.value, '' @ sq @ ''$.nomor_r7'' @ sq @ '') FROM json_each(json_extract(tr.history_json, '' @ sq @
     ''$.history_summary.manifest_r7'' @ sq @ '')) AS entry WHERE json_extract(entry.value, '' @ sq @ ''$.nomor_r7'' @ sq @
     '') IS NOT NULL ORDER BY CAST(entry.key AS INTEGER) DESC LIMIT 1), '' @ sq @ sq @ '')''"

definition latest_manifest_r7_sort_sql :: string where
  "latest_manifest_r7_sort_sql =
     ''COALESCE((SELECT json_extract(entry.value, '' @ sq @ ''$.nomor_r7'' @ sq @ '') FROM json_each(json_extract(tr.history_json, '' @ sq @
     ''$.history_summary.manifest_r7'' @ sq @ '')) AS entry WHERE json_extract(entry.value, '' @ sq @ ''$.nomor_r7'' @ sq @
     '') IS NOT NULL ORDER BY CAST(entry.key AS INTEGER) DESC LIMIT 1), '' @ sq @ sq @ '') COLLATE NOCASE''"

definition latest_delivery_runsheet_filter_sql :: string where
  "latest_delivery_runsheet_filter_sql =
     ''COALESCE((SELECT COALESCE((SELECT json_extract(update_entry.value, '' @ sq @ ''$.status'' @ sq @ '') FROM json_each(json_extract(entry.value, '' @ sq @
     ''$.updates'' @ sq @ '')) AS update_entry ORDER BY CAST(update_entry.key AS INTEGER) DESC LIMIT 1), json_extract(entry.value, '' @ sq @ ''$.status'' @ sq @
     ''), '' @ sq @ ''Delivery Runsheet'' @ sq @ '') || '' @ sq @ '' | '' @ sq @ '' || COALESCE(substr(COALESCE((SELECT json_extract(update_entry.value, '' @
     sq @ ''$.tanggal'' @ sq @ '') FROM json_each(json_extract(entry.value, '' @ sq @ ''$.updates'' @ sq @
     '')) AS update_entry ORDER BY CAST(update_entry.key AS INTEGER) DESC LIMIT 1), json_extract(entry.value, '' @ sq @ ''$.tanggal'' @ sq @ '')), 1, 10), '' @
     sq @ ''-'' @ sq @ '') || '' @ sq @ '' | '' @ sq @ '' || COALESCE((SELECT json_extract(update_entry.value, '' @ sq @ ''$.petugas'' @ sq @
     '') FROM json_each(json_extract(entry.value, '' @ sq @ ''$.updates'' @ sq @
     '')) AS update_entry ORDER BY CAST(update_entry.key AS INTEGER) DESC LIMIT 1), json_extract(entry.value, '' @ sq @ ''$.petugas_kurir'' @ sq @
     ''), json_extract(entry.value, '' @ sq @ ''$.petugas_mandor'' @ sq @ ''), json_extract(entry.value, '' @ sq @ ''$.lokasi'' @ sq @ ''), '' @ sq @ ''-'' @
     sq @ '') FROM json_each(json_extract(tr.history_json, '' @ sq @ ''$.history_summary.delivery_runsheet'' @ sq @
     '')) AS entry ORDER BY CAST(entry.key AS INTEGER) DESC LIMIT 1), '' @ sq @ sq @ '')''"

definition latest_delivery_runsheet_sort_sql :: string where
  "latest_delivery_runsheet_sort_sql =
     ''COALESCE((SELECT COALESCE((SELECT json_extract(update_entry.value, '' @ sq @ ''$.status'' @ sq @ '') FROM json_each(json_extract(entry.value, '' @ sq @
     ''$.updates'' @ sq @ '')) AS update_entry ORDER BY CAST(update_entry.key AS INTEGER) DESC LIMIT 1), json_extract(entry.value, '' @ sq @ ''$.status'' @ sq @
     ''), '' @ sq @ ''Delivery Runsheet'' @ sq @ '') || '' @ sq @ '' | '' @ sq @ '' || COALESCE(substr(COALESCE((SELECT json_extract(update_entry.value, '' @
     sq @ ''$.tanggal'' @ sq @ '') FROM json_each(json_extract(entry.value, '' @ sq @ ''$.updates'' @ sq @
     '')) AS update_entry ORDER BY CAST(update_entry.key AS INTEGER) DESC LIMIT 1), json_extract(entry.value, '' @ sq @ ''$.tanggal'' @ sq @ '')), 1, 10), '' @
     sq @ ''-'' @ sq @ '') || '' @ sq @ '' | '' @ sq @ '' || COALESCE((SELECT json_extract(update_entry.value, '' @ sq @ ''$.petugas'' @ sq @
     '') FROM json_each(json_extract(entry.value, '' @ sq @ ''$.updates'' @ sq @
     '')) AS update_entry ORDER BY CAST(update_entry.key AS INTEGER) DESC LIMIT 1), json_extract(entry.value, '' @ sq @ ''$.petugas_kurir'' @ sq @
     ''), json_extract(entry.value, '' @ sq @ ''$.petugas_mandor'' @ sq @ ''), json_extract(entry.value, '' @ sq @ ''$.lokasi'' @ sq @ ''), '' @ sq @ ''-'' @
     sq @ '') FROM json_each(json_extract(tr.history_json, '' @ sq @ ''$.history_summary.delivery_runsheet'' @ sq @
     '')) AS entry ORDER BY CAST(entry.key AS INTEGER) DESC LIMIT 1), '' @ sq @ sq @ '') COLLATE NOCASE''"

definition filter_columns :: "(string \<times> string) list" where
  "filter_columns =
    [(''position'', ''r.position''),
     (''displayTrackingId'', ''r.display_tracking_id''),
     (''display_tracking_id'', ''r.display_tracking_id''),
     (''lookupTrackingId'', ''r.lookup_tracking_id''),
     (''lookup_tracking_id'', ''r.lookup_tracking_id''),
     (''rowStatus'', ''r.row_status''),
     (''row_status'', ''r.row_status''),
     (''detail.shipment_header.nomor_kiriman'', ''COALESCE(json_extract(tr.detail_json, '' @ sq @ ''$.shipment_header.nomor_kiriman'' @ sq @ ''), r.display_tracking_id)''),
     (''computed.days_since_transaction'', days_since_transaction_filter_sql),
     (''computed.days_since_last_unbagging'', days_since_last_unbagging_filter_sql),
     (''history_summary.latest_bagging_status'', latest_bagging_status_filter_sql),
     (''history_summary.latest_manifest_r7'', latest_manifest_r7_filter_sql),
     (''history_summary.latest_delivery_runsheet'', latest_delivery_runsheet_filter_sql),
     (''status_akhir.status'', text_column ''status'' ''$.status''),
     (''status_akhir.location'', text_column ''status'' ''$.location''),
     (''status_akhir.officer_name'', text_column ''status'' ''$.officer_name''),
     (''status_akhir.officer_id'', text_column ''status'' ''$.officer_id''),
     (''status_akhir.datetime'', text_column ''status'' ''$.datetime''),
     (''status_akhir.date'', text_column ''status'' ''$.date''),
     (''status_akhir.time'', text_column ''status'' ''$.time''),
     (''detail.actors.pengirim.nama'', text_column ''detail'' ''$.actors.pengirim.nama''),
     (''detail.actors.pengirim.telepon'', text_column ''detail'' ''$.actors.pengirim.telepon''),
     (''detail.actors.pengirim.alamat'', text_column ''detail'' ''$.actors.pengirim.alamat''),
     (''detail.actors.penerima.nama'', text_column ''detail'' ''$.actors.penerima.nama''),
     (''detail.actors.penerima.telepon'', text_column ''detail'' ''$.actors.penerima.telepon''),
     (''detail.actors.penerima.alamat'', text_column ''detail'' ''$.actors.penerima.alamat''),
     (''detail.actors.penerima.kode_pos'', text_column ''detail'' ''$.actors.penerima.kode_pos''),
     (''detail.shipment_header.booking_code'', text_column ''detail'' ''$.shipment_header.booking_code''),
     (''detail.shipment_header.id_pelanggan_korporat'', text_column ''detail'' ''$.shipment_header.id_pelanggan_korporat''),
     (''detail.origin_detail.nama_kantor'', text_column ''detail'' ''$.origin_detail.nama_kantor''),
     (''detail.origin_detail.id_kantor'', text_column ''detail'' ''$.origin_detail.id_kantor''),
     (''detail.origin_detail.nama_petugas'', text_column ''detail'' ''$.origin_detail.nama_petugas''),
     (''detail.origin_detail.id_petugas'', text_column ''detail'' ''$.origin_detail.id_petugas''),
     (''detail.origin_detail.tanggal_input'', text_column ''detail'' ''$.origin_detail.tanggal_input''),
     (''detail.origin_detail.waktu_input'', text_column ''detail'' ''$.origin_detail.waktu_input''),
     (''detail.package_detail.jenis_layanan'', text_column ''detail'' ''$.package_detail.jenis_layanan''),
     (''detail.package_detail.kriteria_kiriman'', text_column ''detail'' ''$.package_detail.kriteria_kiriman''),
     (''detail.package_detail.isi_kiriman'', text_column ''detail'' ''$.package_detail.isi_kiriman''),
     (''detail.package_detail.berat_actual'', text_column ''detail'' ''$.package_detail.berat_actual''),
     (''detail.package_detail.berat_volumetric'', text_column ''detail'' ''$.package_detail.berat_volumetric''),
     (''detail.billing_detail.type_pembayaran'', text_column ''detail'' ''$.billing_detail.type_pembayaran''),
     (''detail.billing_detail.bea_dasar'', text_column ''detail'' ''$.billing_detail.bea_dasar''),
     (''detail.billing_detail.nilai_barang'', text_column ''detail'' ''$.billing_detail.nilai_barang''),
     (''detail.billing_detail.htnb'', text_column ''detail'' ''$.billing_detail.htnb''),
     (''detail.billing_detail.cod_info.is_cod'', text_column ''detail'' ''$.billing_detail.cod_info.is_cod''),
     (''detail.billing_detail.cod_info.virtual_account'', text_column ''detail'' ''$.billing_detail.cod_info.virtual_account''),
     (''detail.billing_detail.cod_info.total_cod'', text_column ''detail'' ''$.billing_detail.cod_info.total_cod''),
     (''detail.billing_detail.cod_info.status'', text_column ''detail'' ''$.billing_detail.cod_info.status''),
     (''detail.billing_detail.cod_info.tanggal'', text_column ''detail'' ''$.billing_detail.cod_info.tanggal''),
     (''detail.performance_detail.sla_target'', text_column ''detail'' ''$.performance_detail.sla_target''),
     (''detail.performance_detail.sla_category'', text_column ''detail'' ''$.performance_detail.sla_category''),
     (''detail.performance_detail.sla_days_diff'', text_column ''detail'' ''$.performance_detail.sla_days_diff''),
     (''computed.delivery_runsheet_count'', ''COALESCE(json_array_length(json_extract(tr.history_json, '' @ sq @ ''$.history_summary.delivery_runsheet'' @ sq @ '')), 0)''),
     (''pod.photo1_url'', text_column ''history'' ''$.pod.photo1_url''),
     (''pod.photo2_url'', text_column ''history'' ''$.pod.photo2_url''),
     (''history_summary.irregularity'', text_column ''history'' ''$.history_summary.irregularity''),
     (''history_summary.bagging_unbagging'', text_column ''history'' ''$.history_summary.bagging_unbagging''),
     (''history_summary.manifest_r7'', text_column ''history'' ''$.history_summary.manifest_r7''),
     (''history_summary.delivery_runsheet'', text_column ''history'' ''$.history_summary.delivery_runsheet'')]"

definition sort_columns :: "(string \<times> string) list" where
  "sort_columns =
    [(''position'', ''r.position''),
     (''displayTrackingId'', ''r.display_tracking_id''),
     (''display_tracking_id'', ''r.display_tracking_id''),
     (''lookupTrackingId'', ''r.lookup_tracking_id''),
     (''lookup_tracking_id'', ''r.lookup_tracking_id''),
     (''rowStatus'', ''r.row_status''),
     (''row_status'', ''r.row_status''),
     (''detail.shipment_header.nomor_kiriman'', ''COALESCE(json_extract(tr.detail_json, '' @ sq @ ''$.shipment_header.nomor_kiriman'' @ sq @ ''), r.display_tracking_id) COLLATE NOCASE''),
     (''computed.days_since_transaction'', days_since_transaction_sort_sql),
     (''computed.days_since_last_unbagging'', days_since_last_unbagging_sort_sql),
     (''history_summary.latest_bagging_status'', latest_bagging_status_sort_sql),
     (''history_summary.latest_manifest_r7'', latest_manifest_r7_sort_sql),
     (''history_summary.latest_delivery_runsheet'', latest_delivery_runsheet_sort_sql),
     (''status_akhir.status'', nocase_column ''status'' ''$.status''),
     (''status_akhir.location'', nocase_column ''status'' ''$.location''),
     (''status_akhir.officer_name'', nocase_column ''status'' ''$.officer_name''),
     (''status_akhir.officer_id'', nocase_column ''status'' ''$.officer_id''),
     (''status_akhir.datetime'', nocase_column ''status'' ''$.datetime''),
     (''status_akhir.date'', nocase_column ''status'' ''$.date''),
     (''status_akhir.time'', nocase_column ''status'' ''$.time''),
     (''detail.actors.pengirim.nama'', nocase_column ''detail'' ''$.actors.pengirim.nama''),
     (''detail.actors.pengirim.telepon'', nocase_column ''detail'' ''$.actors.pengirim.telepon''),
     (''detail.actors.pengirim.alamat'', nocase_column ''detail'' ''$.actors.pengirim.alamat''),
     (''detail.actors.penerima.nama'', nocase_column ''detail'' ''$.actors.penerima.nama''),
     (''detail.actors.penerima.telepon'', nocase_column ''detail'' ''$.actors.penerima.telepon''),
     (''detail.actors.penerima.alamat'', nocase_column ''detail'' ''$.actors.penerima.alamat''),
     (''detail.actors.penerima.kode_pos'', nocase_column ''detail'' ''$.actors.penerima.kode_pos''),
     (''detail.shipment_header.booking_code'', nocase_column ''detail'' ''$.shipment_header.booking_code''),
     (''detail.shipment_header.id_pelanggan_korporat'', nocase_column ''detail'' ''$.shipment_header.id_pelanggan_korporat''),
     (''detail.origin_detail.nama_kantor'', nocase_column ''detail'' ''$.origin_detail.nama_kantor''),
     (''detail.origin_detail.id_kantor'', nocase_column ''detail'' ''$.origin_detail.id_kantor''),
     (''detail.origin_detail.nama_petugas'', nocase_column ''detail'' ''$.origin_detail.nama_petugas''),
     (''detail.origin_detail.id_petugas'', nocase_column ''detail'' ''$.origin_detail.id_petugas''),
     (''detail.origin_detail.tanggal_input'', nocase_column ''detail'' ''$.origin_detail.tanggal_input''),
     (''detail.origin_detail.waktu_input'', nocase_column ''detail'' ''$.origin_detail.waktu_input''),
     (''detail.package_detail.jenis_layanan'', nocase_column ''detail'' ''$.package_detail.jenis_layanan''),
     (''detail.package_detail.kriteria_kiriman'', nocase_column ''detail'' ''$.package_detail.kriteria_kiriman''),
     (''detail.package_detail.isi_kiriman'', nocase_column ''detail'' ''$.package_detail.isi_kiriman''),
     (''detail.package_detail.berat_actual'', number_column ''REAL'' ''detail'' ''$.package_detail.berat_actual''),
     (''detail.package_detail.berat_volumetric'', number_column ''REAL'' ''detail'' ''$.package_detail.berat_volumetric''),
     (''detail.billing_detail.type_pembayaran'', nocase_column ''detail'' ''$.billing_detail.type_pembayaran''),
     (''detail.billing_detail.bea_dasar'', number_column ''REAL'' ''detail'' ''$.billing_detail.bea_dasar''),
     (''detail.billing_detail.nilai_barang'', number_column ''REAL'' ''detail'' ''$.billing_detail.nilai_barang''),
     (''detail.billing_detail.htnb'', number_column ''REAL'' ''detail'' ''$.billing_detail.htnb''),
     (''detail.billing_detail.cod_info.is_cod'', number_column ''INTEGER'' ''detail'' ''$.billing_detail.cod_info.is_cod''),
     (''detail.billing_detail.cod_info.virtual_account'', nocase_column ''detail'' ''$.billing_detail.cod_info.virtual_account''),
     (''detail.billing_detail.cod_info.total_cod'', number_column ''REAL'' ''detail'' ''$.billing_detail.cod_info.total_cod''),
     (''detail.billing_detail.cod_info.status'', nocase_column ''detail'' ''$.billing_detail.cod_info.status''),
     (''detail.billing_detail.cod_info.tanggal'', nocase_column ''detail'' ''$.billing_detail.cod_info.tanggal''),
     (''detail.performance_detail.sla_target'', nocase_column ''detail'' ''$.performance_detail.sla_target''),
     (''detail.performance_detail.sla_category'', nocase_column ''detail'' ''$.performance_detail.sla_category''),
     (''detail.performance_detail.sla_days_diff'', number_column ''REAL'' ''detail'' ''$.performance_detail.sla_days_diff''),
     (''computed.delivery_runsheet_count'', ''COALESCE(json_array_length(json_extract(tr.history_json, '' @ sq @ ''$.history_summary.delivery_runsheet'' @ sq @ '')), 0)''),
     (''pod.photo1_url'', nocase_column ''history'' ''$.pod.photo1_url''),
     (''pod.photo2_url'', nocase_column ''history'' ''$.pod.photo2_url''),
     (''history_summary.irregularity'', nocase_column ''history'' ''$.history_summary.irregularity''),
     (''history_summary.bagging_unbagging'', nocase_column ''history'' ''$.history_summary.bagging_unbagging''),
     (''history_summary.manifest_r7'', nocase_column ''history'' ''$.history_summary.manifest_r7''),
     (''history_summary.delivery_runsheet'', nocase_column ''history'' ''$.history_summary.delivery_runsheet'')]"

definition sheet_filter_column :: "string \<Rightarrow> string option" where
  "sheet_filter_column field = map_of filter_columns field"

definition sheet_sort_column :: "string \<Rightarrow> string option" where
  "sheet_sort_column field = map_of sort_columns field"

definition nomor_kiriman_field :: string where
  "nomor_kiriman_field = ''detail.shipment_header.nomor_kiriman''"

definition sheet_value_option_column :: "string \<Rightarrow> string option" where
  "sheet_value_option_column field =
     (if field = nomor_kiriman_field then Some ''substr(r.display_tracking_id, 1, 5)''
      else sheet_filter_column field)"

subsection \<open>The WHERE and ORDER BY texts\<close>

text \<open>
  A condition of the \<open>WHERE\<close> text refers to the bindings by their number, from 1.
\<close>

datatype condition =
    Sheet_Is nat
  | Cell_Like string nat
  | Cell_Like_Any "(string \<times> nat) list"
  | Cell_In string "nat list"

fun join_with :: "string \<Rightarrow> string list \<Rightarrow> string" where
  "join_with sep [] = ''''"
| "join_with sep [x] = x"
| "join_with sep (x # y # zs) = x @ sep @ join_with sep (y # zs)"

definition placeholder :: "nat \<Rightarrow> string" where
  "placeholder n = ''?'' @ show_nat n"

definition like_text :: "string \<Rightarrow> nat \<Rightarrow> string" where
  "like_text column n = ''CAST('' @ column @ '' AS TEXT) LIKE '' @ placeholder n"

fun condition_text :: "condition \<Rightarrow> string" where
  "condition_text (Sheet_Is n) = ''r.sheet_id = '' @ placeholder n"
| "condition_text (Cell_Like column n) = like_text column n"
| "condition_text (Cell_Like_Any cs) = ''('' @ join_with '' OR '' (map (\<lambda>(c, n). like_text c n) cs) @ '')''"
| "condition_text (Cell_In column ns) =
     ''CAST('' @ column @ '' AS TEXT) IN ('' @ join_with '', '' (map placeholder ns) @ '')''"

definition where_text :: "condition list \<Rightarrow> string" where
  "where_text cs = ''WHERE '' @ join_with '' AND '' (map condition_text cs)"

text \<open>The loops over the filters, on the conditions and bindings so far.\<close>

definition add_filter ::
  "sheet_filter \<Rightarrow> condition list \<times> string list \<Rightarrow> store_error + (condition list \<times> string list)" where
  "add_filter f = (\<lambda>(cs, bs).
     case sheet_filter_column (sf_field f) of
       None \<Rightarrow> Inl (Invalid_Value ''sheet_filter'' (sf_field f))
     | Some column \<Rightarrow>
         let bs' = bs @ [''%'' @ sf_value f @ ''%'']
         in Inr (cs @ [Cell_Like column (length bs')], bs'))"

definition add_value_filter ::
  "sheet_value_filter \<Rightarrow> condition list \<times> string list \<Rightarrow> store_error + (condition list \<times> string list)" where
  "add_value_filter f = (\<lambda>(cs, bs).
     if vf_values f = [] then Inr (cs, bs)
     else case sheet_filter_column (vf_field f) of
       None \<Rightarrow> Inl (Invalid_Value ''sheet_value_filter'' (vf_field f))
     | Some column \<Rightarrow>
         let numbers = [length bs + 1 ..< length bs + 1 + length (vf_values f)]
         in if vf_field f = nomor_kiriman_field
            then Inr (cs @ [Cell_Like_Any (map (\<lambda>n. (column, n)) numbers)], bs @ map (\<lambda>v. v @ ''%'') (vf_values f))
            else Inr (cs @ [Cell_In column numbers], bs @ vf_values f))"

definition build_sheet_filter ::
  "string \<Rightarrow> sheet_filter list \<Rightarrow> sheet_value_filter list \<Rightarrow> store_error + (condition list \<times> string list)" where
  "build_sheet_filter sheet_id fs vfs =
     and_then (try_fold add_filter fs ([Sheet_Is 1], [sheet_id])) (try_fold add_value_filter vfs)"

definition build_sheet_filter_sql :: "sheet_rows_query \<Rightarrow> store_error + (string \<times> string list)" where
  "build_sheet_filter_sql q =
     and_then (build_sheet_filter (sq_sheet_id q) (sq_filters q) (sq_value_filters q))
       (\<lambda>(cs, bs). Inr (where_text cs, bs))"

definition sort_terms :: "sheet_sort list \<Rightarrow> (string \<times> sort_direction) list" where
  "sort_terms sorts =
     List.map_filter (\<lambda>item. map_option (\<lambda>column. (column, so_direction item)) (sheet_sort_column (so_field item))) sorts"

fun direction_text :: "sort_direction \<Rightarrow> string" where
  "direction_text Asc = ''ASC''"
| "direction_text Desc = ''DESC''"

definition build_sheet_sort_sql :: "sheet_sort list \<Rightarrow> string" where
  "build_sheet_sort_sql sorts =
     (let clauses = map (\<lambda>(column, d). column @ '' '' @ direction_text d) (sort_terms sorts)
      in if clauses = [] then ''r.position ASC, r.id ASC''
         else join_with '', '' clauses @ '', r.position ASC, r.id ASC'')"

subsection \<open>The meaning of the texts\<close>

text \<open>
  \<open>LIKE\<close> of SQLite on UTF-8: \<open>%\<close> stands for any run of characters, \<open>_\<close> for one, and
  the letters of ASCII match in either case.
\<close>

definition continuation_byte :: "char \<Rightarrow> bool" where
  "continuation_byte ch \<longleftrightarrow> 128 \<le> byte ch \<and> byte ch < 192"

definition next_character :: "string \<Rightarrow> string" where
  "next_character s =
     (if s = [] then []
      else if byte (hd s) < 192 then tl s else dropWhile continuation_byte (tl s))"

lemma next_character_length: "length (next_character (ch # s)) \<le> length s"
  using length_dropWhile_le [of continuation_byte s] by (simp add: next_character_def)

function like :: "string \<Rightarrow> string \<Rightarrow> bool" where
  "like [] s = (s = [])"
| "like (p # ps) [] = (p = CHR 0x25 \<and> like ps [])"
| "like (p # ps) (ch # s) =
     (if p = CHR 0x25 then like ps (ch # s) \<or> like (p # ps) (next_character (ch # s))
      else if p = CHR 0x5F then like ps (next_character (ch # s))
      else ascii_lower p = ascii_lower ch \<and> like ps s)"
  by pat_completeness auto
termination
  by (relation "measure (\<lambda>(p, s). length p + length s)")
     (auto simp: le_imp_less_Suc next_character_length le_SucI)

text \<open>
  A row of the query is the row of the sheet with the record the \<open>LEFT JOIN\<close> finds.
  \<open>sqlite_cells\<close> is what SQLite computes: the text of \<open>CAST(column AS TEXT)\<close> (\<open>None\<close> is
  \<open>NULL\<close>), the order of the values of a column, its collation included, and the order
  in which \<open>GROUP BY\<close> goes through the distinct values of a list.
\<close>

type_synonym joined_row = "sheet_row \<times> tracking_record option"

record sqlite_cells =
  cell_text :: "string \<Rightarrow> joined_row \<Rightarrow> string option"
  cell_order :: "string \<Rightarrow> joined_row comparator"
  group_scan :: "string list \<Rightarrow> string list"

definition join_row :: "workspace_db \<Rightarrow> sheet_row \<Rightarrow> joined_row" where
  "join_row db r = (r, Option.bind (r_tracking_record_id r) (\<lambda>t. find_by t_id t (records db)))"

definition binding :: "string list \<Rightarrow> nat \<Rightarrow> string" where
  "binding bs n = bs ! (n - 1)"

definition text_holds :: "(string \<Rightarrow> bool) \<Rightarrow> string option \<Rightarrow> bool" where
  "text_holds p cell = (case cell of None \<Rightarrow> False | Some t \<Rightarrow> p t)"

fun holds :: "sqlite_cells \<Rightarrow> string list \<Rightarrow> joined_row \<Rightarrow> condition \<Rightarrow> bool" where
  "holds c bs jr (Sheet_Is n) = (r_sheet_id (fst jr) = binding bs n)"
| "holds c bs jr (Cell_Like column n) = text_holds (like (binding bs n)) (cell_text c column jr)"
| "holds c bs jr (Cell_Like_Any cs) =
     list_ex (\<lambda>(column, n). text_holds (like (binding bs n)) (cell_text c column jr)) cs"
| "holds c bs jr (Cell_In column ns) =
     text_holds (\<lambda>t. list_ex (\<lambda>n. t = binding bs n) ns) (cell_text c column jr)"

definition selected_rows :: "sqlite_cells \<Rightarrow> condition list \<Rightarrow> string list \<Rightarrow> workspace_db \<Rightarrow> joined_row list" where
  "selected_rows c cs bs db = filter (\<lambda>jr. list_all (holds c bs jr) cs) (map (join_row db) (db_rows db))"

text \<open>The order of \<open>ORDER BY\<close>: the terms first, then \<open>r.position ASC, r.id ASC\<close>.\<close>

definition then_by :: "'a comparator \<Rightarrow> 'a comparator \<Rightarrow> 'a comparator" where
  "then_by c d = key (\<lambda>x. (x, x)) (prod_lex c d)"

definition tie_order :: "joined_row comparator" where
  "tie_order = key (\<lambda>jr. (r_position (fst jr), r_id (fst jr))) default"

definition term_order :: "sqlite_cells \<Rightarrow> string \<times> sort_direction \<Rightarrow> joined_row comparator" where
  "term_order c = (\<lambda>(column, d). case d of
      Asc \<Rightarrow> cell_order c column | Desc \<Rightarrow> reversed (cell_order c column))"

definition row_order :: "sqlite_cells \<Rightarrow> sheet_sort list \<Rightarrow> joined_row comparator" where
  "row_order c sorts = foldr (\<lambda>t. then_by (term_order c t)) (sort_terms sorts) tie_order"

subsection \<open>The queries\<close>

definition query_sheet_rows ::
  "sqlite_cells \<Rightarrow> sheet_rows_query \<Rightarrow> nat \<Rightarrow> workspace_db \<Rightarrow> store_error + sheet_row_window" where
  "query_sheet_rows c q max_limit db =
     (let (offset, limit) = clamp_query_window (sq_offset q) (sq_limit q) max_limit
      in and_then (build_sheet_filter (sq_sheet_id q) (sq_filters q) (sq_value_filters q)) (\<lambda>(cs, bs).
        let found = selected_rows c cs bs db;
            total_count = as_u32 (length found);
            rows = map (project_row db \<circ> fst)
                     (take limit (drop offset (Sorting_Algorithms.sort (row_order c (sq_sort q)) found)));
            next_offset = min (offset + as_u32 (length rows)) u32_max;
            has_more = next_offset < total_count
        in Inr \<lparr>sw_sheet_id = sq_sheet_id q, sw_offset = offset, sw_limit = limit, sw_total_count = total_count,
                sw_has_more = has_more, sw_next_offset = (if has_more then Some next_offset else None),
                sw_rows = rows\<rparr>))"

text \<open>The order of the groups: \<open>count DESC, value COLLATE NOCASE ASC\<close>.\<close>

definition group_order :: "(string \<times> nat) comparator" where
  "group_order = then_by (key snd (reversed default)) (key (to_ascii_lowercase \<circ> fst) default)"

definition listed_value :: "string option \<Rightarrow> bool" where
  "listed_value cell \<longleftrightarrow> text_holds (\<lambda>t. t \<noteq> '''' \<and> t \<noteq> ''-'') cell"

definition query_sheet_field_values ::
  "sqlite_cells \<Rightarrow> sheet_field_values_query \<Rightarrow> nat \<Rightarrow> workspace_db \<Rightarrow> store_error + sheet_field_values_result" where
  "query_sheet_field_values c q max_limit db =
     (let limit = min (fv_limit q) max_limit
      in case sheet_value_option_column (fv_field q) of
           None \<Rightarrow> Inl (Invalid_Value ''sheet_field_value'' (fv_field q))
         | Some column \<Rightarrow>
             and_then (build_sheet_filter (fv_sheet_id q) (fv_filters q) (fv_value_filters q)) (\<lambda>(cs, bs).
               let values = map the (filter listed_value (map (cell_text c column) (selected_rows c cs bs db)));
                   groups = map (\<lambda>v. (v, count_list values v)) (group_scan c values)
               in Inr \<lparr>fr_sheet_id = fv_sheet_id q, fr_field = fv_field q,
                       fr_total_count = as_u32 (length values),
                       fr_values = map (\<lambda>(v, n). \<lparr>fo_value = v, fo_count = as_u32 n\<rparr>)
                         (take limit (Sorting_Algorithms.sort group_order groups))\<rparr>))"

end
