(* ===== verification/QueryFacts.thy ===== *)
theory QueryFacts
  imports SheetQuery
begin

text \<open>
  Facts about the queries on sheet rows: what \<open>LIKE\<close> means for a pattern without
  wildcards, how the conditions and the bindings of the \<open>WHERE\<close> text fit together,
  the total order of \<open>ORDER BY\<close>, and the windows a client follows by \<open>next_offset\<close>.
\<close>

subsection \<open>LIKE\<close>

definition plain_text :: "string \<Rightarrow> bool" where
  "plain_text v \<longleftrightarrow> CHR 0x25 \<notin> set v \<and> CHR 0x5F \<notin> set v \<and> (v = [] \<or> \<not> continuation_byte (hd v))"

definition starts_with_text :: "string \<Rightarrow> string \<Rightarrow> bool" where
  "starts_with_text v t \<longleftrightarrow> to_ascii_lowercase (take (length v) t) = to_ascii_lowercase v"

definition contains_text :: "string \<Rightarrow> string \<Rightarrow> bool" where
  "contains_text v t \<longleftrightarrow> (\<exists>a w b. t = a @ w @ b \<and> to_ascii_lowercase w = to_ascii_lowercase v)"

lemma like_percent_end [simp]: "like [CHR 0x25] s"
proof (induction "length s" arbitrary: s rule: less_induct)
  case less
  then show ?case
    by (cases s) (auto simp: le_imp_less_Suc next_character_length)
qed

lemma starts_with_text_simps [simp]:
  "starts_with_text [] t"
  "\<not> starts_with_text (ch # v) []"
  "starts_with_text (ch # v) (d # t) \<longleftrightarrow> ascii_lower ch = ascii_lower d \<and> starts_with_text v t"
  by (auto simp: starts_with_text_def to_ascii_lowercase_def)

lemma like_prefix:
  "CHR 0x25 \<notin> set v \<Longrightarrow> CHR 0x5F \<notin> set v \<Longrightarrow> like (v @ ''%'') t \<longleftrightarrow> starts_with_text v t"
proof (induction v arbitrary: t)
  case (Cons ch v)
  then show ?case by (cases t) auto
qed simp

lemma contains_text_iff: "contains_text v t \<longleftrightarrow> (\<exists>k \<le> length t. starts_with_text v (drop k t))"
proof
  assume "contains_text v t"
  then obtain a w b where t: "t = a @ w @ b" and w: "to_ascii_lowercase w = to_ascii_lowercase v"
    by (auto simp: contains_text_def)
  then have "length w = length v"
    by (metis length_map to_ascii_lowercase_def)
  with t w have "starts_with_text v (drop (length a) t)"
    by (simp add: starts_with_text_def)
  with t show "\<exists>k \<le> length t. starts_with_text v (drop k t)" by (intro exI [of _ "length a"]) simp
next
  assume "\<exists>k \<le> length t. starts_with_text v (drop k t)"
  then obtain k where "starts_with_text v (drop k t)" by blast
  moreover have "t = take k t @ take (length v) (drop k t) @ drop (length v) (drop k t)"
    by (metis append_take_drop_id)
  ultimately show "contains_text v t"
    unfolding contains_text_def starts_with_text_def by blast
qed

lemma contains_text_Nil: "contains_text v [] \<longleftrightarrow> v = []"
  by (cases v) (auto simp: contains_text_iff)

lemma contains_text_Cons: "contains_text v (d # t) \<longleftrightarrow> starts_with_text v (d # t) \<or> contains_text v t"
proof
  assume "contains_text v (d # t)"
  then obtain k where "k \<le> Suc (length t)" "starts_with_text v (drop k (d # t))"
    by (auto simp: contains_text_iff)
  then show "starts_with_text v (d # t) \<or> contains_text v t"
    by (cases k) (auto simp: contains_text_iff)
next
  assume "starts_with_text v (d # t) \<or> contains_text v t"
  then show "contains_text v (d # t)"
  proof
    assume "contains_text v t"
    then obtain k where "k \<le> length t" "starts_with_text v (drop k t)" by (auto simp: contains_text_iff)
    then show ?thesis unfolding contains_text_iff by (intro exI [of _ "Suc k"]) simp
  qed (auto simp: contains_text_iff intro: exI [of _ 0])
qed

text \<open>A plain text starts no match inside a character.\<close>

lemma contains_text_skip:
  assumes "plain_text v" and "v \<noteq> []"
  shows "contains_text v (dropWhile continuation_byte t) \<longleftrightarrow> contains_text v t"
proof (induction t)
  case (Cons d t)
  have "\<not> starts_with_text v (d # t)" if "continuation_byte d"
  proof
    assume starts: "starts_with_text v (d # t)"
    obtain ch v' where v: "v = ch # v'" using assms(2) by (cases v) auto
    with starts have same: "ascii_lower ch = ascii_lower d" by simp
    have "ascii_lower d = d" using that
      by (simp add: ascii_lower_def is_ascii_uppercase_def continuation_byte_def)
    with same have "ascii_lower ch = d" by simp
    with that have "continuation_byte ch"
      by (auto simp: ascii_lower_def is_ascii_uppercase_def continuation_byte_def split: if_splits)
    with assms(1) v show False by (simp add: plain_text_def)
  qed
  with Cons show ?case by (auto simp: contains_text_Cons)
qed simp

lemma contains_text_next_character:
  assumes "plain_text v" and "v \<noteq> []"
  shows "contains_text v (next_character (d # t)) \<longleftrightarrow> contains_text v t"
  using contains_text_skip [OF assms, of t] by (simp add: next_character_def)

lemma like_contains:
  assumes "plain_text v"
  shows "like (''%'' @ v @ ''%'') t \<longleftrightarrow> contains_text v t"
proof (cases "v = []")
  case True
  have "like (''%'' @ ''%'') t"
    by (cases t) simp_all
  moreover have "contains_text [] t" by (auto simp: contains_text_iff)
  ultimately show ?thesis using True by simp
next
  case False
  from assms have wild: "CHR 0x25 \<notin> set v" "CHR 0x5F \<notin> set v" by (auto simp: plain_text_def)
  show ?thesis
  proof (induction "length t" arbitrary: t rule: less_induct)
    case less
    show ?case
    proof (cases t)
      case Nil
      with False wild like_prefix [OF wild, of "[]"] show ?thesis
        by (simp add: contains_text_Nil) (cases v; simp)
    next
      case (Cons d t')
      have "length (next_character (d # t')) < length t"
        using Cons next_character_length [of d t'] by simp
      from less [OF this] contains_text_next_character [OF assms False]
      have "like (CHR 0x25 # v @ ''%'') (next_character (d # t')) \<longleftrightarrow> contains_text v t'" by simp
      then show ?thesis
        using Cons like_prefix [OF wild, of "d # t'"] by (auto simp: contains_text_Cons)
    qed
  qed
qed

subsection \<open>Conditions and bindings\<close>

fun condition_numbers :: "condition \<Rightarrow> nat list" where
  "condition_numbers (Sheet_Is n) = [n]"
| "condition_numbers (Cell_Like column n) = [n]"
| "condition_numbers (Cell_Like_Any cs) = map snd cs"
| "condition_numbers (Cell_In column ns) = ns"

text \<open>The conditions use the bindings one by one, in their order.\<close>

definition numbered :: "condition list \<Rightarrow> string list \<Rightarrow> bool" where
  "numbered cs bs \<longleftrightarrow> concat (map condition_numbers cs) = [1..<Suc (length bs)]"

lemma numbered_append:
  assumes "numbered cs bs"
    and "concat (map condition_numbers cs') = [Suc (length bs)..<Suc (length bs) + length bs']"
  shows "numbered (cs @ cs') (bs @ bs')"
proof -
  have "[1..<Suc (length bs) + length bs'] = [1..<Suc (length bs)] @ [Suc (length bs)..<Suc (length bs) + length bs']"
    by (rule upt_add_eq_append) simp
  with assms show ?thesis by (simp only: numbered_def map_append concat_append length_append add_Suc)
qed

lemma numbered_range:
  assumes "numbered cs bs" and "cond \<in> set cs" and "n \<in> set (condition_numbers cond)"
  shows "0 < n" and "n \<le> length bs"
proof -
  have "n \<in> set (concat (map condition_numbers cs))" using assms(2, 3) by auto
  then have "n \<in> set [1..<Suc (length bs)]" using assms(1) by (simp only: numbered_def)
  then show "0 < n" and "n \<le> length bs" by auto
qed

lemma binding_append: "n \<le> length bs \<Longrightarrow> 0 < n \<Longrightarrow> binding (bs @ bs') n = binding bs n"
  by (auto simp: binding_def nth_append)

lemma binding_new: "binding (bs @ bs') (Suc (length bs + i)) = bs' ! i"
  by (simp add: binding_def nth_append)

lemma holds_cong:
  assumes "\<And>n. n \<in> set (condition_numbers cond) \<Longrightarrow> binding bs n = binding bs' n"
  shows "holds c bs jr cond = holds c bs' jr cond"
proof (cases cond)
  case (Cell_Like_Any cs)
  have "list_ex (\<lambda>(column, n). text_holds (like (binding bs n)) (cell_text c column jr)) cs
      = list_ex (\<lambda>(column, n). text_holds (like (binding bs' n)) (cell_text c column jr)) cs"
    by (rule list_ex_cong) (use assms Cell_Like_Any in fastforce)+
  then show ?thesis using Cell_Like_Any by simp
next
  case (Cell_In column ns)
  have "list_ex (\<lambda>n. t = binding bs n) ns = list_ex (\<lambda>n. t = binding bs' n) ns" for t
    by (rule list_ex_cong) (use assms Cell_In in auto)
  then show ?thesis using Cell_In by simp
qed (use assms in auto)

lemma binding_first [simp]: "binding (x # bs) (Suc 0) = x"
  by (simp add: binding_def)

lemma numbered_holds_append:
  "numbered cs bs \<Longrightarrow> cond \<in> set cs \<Longrightarrow> holds c (bs @ bs') jr cond = holds c bs jr cond"
  by (rule holds_cong) (use numbered_range binding_append in blast)

lemma numbered_all_holds_append:
  "numbered cs bs \<Longrightarrow> list_all (holds c (bs @ bs') jr) cs = list_all (holds c bs jr) cs"
  by (rule list.pred_cong [OF refl]) (rule numbered_holds_append)

subsection \<open>The reference predicate of a filter\<close>

definition filter_meets :: "sqlite_cells \<Rightarrow> joined_row \<Rightarrow> sheet_filter \<Rightarrow> bool" where
  "filter_meets c jr f = text_holds (contains_text (sf_value f)) (cell_text c (the (sheet_filter_column (sf_field f))) jr)"

definition value_filter_meets :: "sqlite_cells \<Rightarrow> joined_row \<Rightarrow> sheet_value_filter \<Rightarrow> bool" where
  "value_filter_meets c jr f \<longleftrightarrow> vf_values f = [] \<or>
     text_holds
       (\<lambda>t. if vf_field f = nomor_kiriman_field then \<exists>v \<in> set (vf_values f). starts_with_text v t
            else t \<in> set (vf_values f))
       (cell_text c (the (sheet_filter_column (vf_field f))) jr)"

definition filters_known :: "sheet_filter list \<Rightarrow> sheet_value_filter list \<Rightarrow> bool" where
  "filters_known fs vfs \<longleftrightarrow>
     (\<forall>f \<in> set fs. sheet_filter_column (sf_field f) \<noteq> None) \<and>
     (\<forall>f \<in> set vfs. vf_values f \<noteq> [] \<longrightarrow> sheet_filter_column (vf_field f) \<noteq> None)"

definition filters_plain :: "sheet_filter list \<Rightarrow> sheet_value_filter list \<Rightarrow> bool" where
  "filters_plain fs vfs \<longleftrightarrow>
     (\<forall>f \<in> set fs. plain_text (sf_value f)) \<and>
     (\<forall>f \<in> set vfs. vf_field f = nomor_kiriman_field \<longrightarrow> (\<forall>v \<in> set (vf_values f). plain_text v))"

text \<open>What one step of the loops adds: \<open>filter_step\<close> is shared by both.\<close>

definition adds_condition ::
  "(condition list \<times> string list \<Rightarrow> store_error + (condition list \<times> string list)) \<Rightarrow> (sqlite_cells \<Rightarrow> joined_row \<Rightarrow> bool) \<Rightarrow> bool"
where
  "adds_condition step meets \<longleftrightarrow> (\<forall>cs bs. numbered cs bs \<longrightarrow>
     (\<exists>cs' bs'. step (cs, bs) = Inr (cs @ cs', bs @ bs') \<and> numbered (cs @ cs') (bs @ bs') \<and>
        (\<forall>c jr. list_all (holds c (bs @ bs') jr) cs' = meets c jr)))"

lemma adds_filter:
  assumes "sheet_filter_column (sf_field f) \<noteq> None" and "plain_text (sf_value f)"
  shows "adds_condition (add_filter f) (\<lambda>c jr. filter_meets c jr f)"
proof -
  obtain column where column: "sheet_filter_column (sf_field f) = Some column" using assms(1) by auto
  have like: "like (''%'' @ sf_value f @ ''%'') = contains_text (sf_value f)"
    using like_contains [OF assms(2)] by blast
  show ?thesis
    unfolding adds_condition_def
  proof (intro allI impI)
    fix cs :: "condition list" and bs
    assume "numbered cs bs"
    moreover have "list_all (holds c (bs @ [''%'' @ sf_value f @ ''%'']) jr) [Cell_Like column (Suc (length bs))]
        = filter_meets c jr f" for c jr
      using binding_new [of bs "[''%'' @ sf_value f @ ''%'']" 0] like column by (simp add: filter_meets_def)
    ultimately show "\<exists>cs' bs'. add_filter f (cs, bs) = Inr (cs @ cs', bs @ bs') \<and> numbered (cs @ cs') (bs @ bs') \<and>
        (\<forall>c jr. list_all (holds c (bs @ bs') jr) cs' = filter_meets c jr f)"
      using column
      by (intro exI [of _ "[Cell_Like column (Suc (length bs))]"] exI [of _ "[''%'' @ sf_value f @ ''%'']"] conjI)
         (auto simp: add_filter_def intro!: numbered_append)
  qed
qed

lemma list_ex_new_bindings:
  "list_ex (\<lambda>n. P (binding (bs @ new) n)) [length bs + 1 ..< length bs + 1 + length new] = list_ex P new"
proof -
  have "map (binding (bs @ new)) [length bs + 1 ..< length bs + 1 + length new] = new"
    by (rule nth_equalityI) (use binding_new [of bs new] in \<open>auto simp del: upt_Suc\<close>)
  then have "list_ex P new = list_ex P (map (binding (bs @ new)) [length bs + 1 ..< length bs + 1 + length new])"
    by simp
  then show ?thesis by (simp only: list_ex_iff set_map) blast
qed

lemma adds_value_filter:
  assumes known: "vf_values f \<noteq> [] \<Longrightarrow> sheet_filter_column (vf_field f) \<noteq> None"
    and plain: "\<And>v. vf_field f = nomor_kiriman_field \<Longrightarrow> v \<in> set (vf_values f) \<Longrightarrow> plain_text v"
  shows "adds_condition (add_value_filter f) (\<lambda>c jr. value_filter_meets c jr f)"
proof (cases "vf_values f = []")
  case True
  then show ?thesis by (simp add: adds_condition_def add_value_filter_def value_filter_meets_def)
next
  case False
  with known obtain column where column: "sheet_filter_column (vf_field f) = Some column" by auto
  let ?vs = "vf_values f"
  show ?thesis
    unfolding adds_condition_def
  proof (intro allI impI)
    fix cs bs
    assume numbered: "numbered cs bs"
    let ?ns = "[length bs + 1 ..< length bs + 1 + length ?vs]"
    show "\<exists>cs' bs'. add_value_filter f (cs, bs) = Inr (cs @ cs', bs @ bs') \<and> numbered (cs @ cs') (bs @ bs') \<and>
        (\<forall>c jr. list_all (holds c (bs @ bs') jr) cs' = value_filter_meets c jr f)"
    proof (cases "vf_field f = nomor_kiriman_field")
      case True
      let ?new = "map (\<lambda>v. v @ ''%'') ?vs" and ?cond = "Cell_Like_Any (map (\<lambda>n. (column, n)) ?ns)"
      have "holds c (bs @ ?new) jr ?cond = value_filter_meets c jr f" for c jr
      proof -
        have "holds c (bs @ ?new) jr ?cond
            = list_ex (\<lambda>n. text_holds (like (binding (bs @ ?new) n)) (cell_text c column jr)) ?ns"
          by (simp add: list_ex_iff image_iff del: set_upt upt_Suc)
        also have "\<dots> = list_ex (\<lambda>p. text_holds (like p) (cell_text c column jr)) ?new"
          using list_ex_new_bindings [of "\<lambda>p. text_holds (like p) (cell_text c column jr)" bs ?new] by simp
        also have "\<dots> \<longleftrightarrow> text_holds (\<lambda>t. \<exists>v \<in> set ?vs. starts_with_text v t) (cell_text c column jr)"
          using plain [OF True] like_prefix
          by (auto simp: list_ex_iff text_holds_def plain_text_def split: option.splits)
        finally show ?thesis using False True column by (simp add: value_filter_meets_def)
      qed
      moreover have "numbered (cs @ [?cond]) (bs @ ?new)"
        by (rule numbered_append [OF numbered]) (simp add: comp_def)
      ultimately show ?thesis
        using False True column
        by (intro exI [of _ "[?cond]"] exI [of _ ?new]) (simp add: add_value_filter_def del: upt_Suc)
    next
      case other: False
      let ?cond = "Cell_In column ?ns"
      have "holds c (bs @ ?vs) jr ?cond = value_filter_meets c jr f" for c jr
      proof -
        have "holds c (bs @ ?vs) jr ?cond = text_holds (\<lambda>t. list_ex (\<lambda>v. t = v) ?vs) (cell_text c column jr)"
          using list_ex_new_bindings [of "(=) t" bs ?vs for t] by (simp del: upt_Suc)
        then show ?thesis using False other column
          by (simp add: value_filter_meets_def list_ex_iff text_holds_def split: option.splits)
      qed
      moreover have "numbered (cs @ [?cond]) (bs @ ?vs)"
        by (rule numbered_append [OF numbered]) simp
      ultimately show ?thesis
        using False other column
        by (intro exI [of _ "[?cond]"] exI [of _ ?vs]) (simp add: add_value_filter_def del: upt_Suc)
    qed
  qed
qed

lemma adds_conditions_fold:
  assumes "\<And>f. f \<in> set fs \<Longrightarrow> adds_condition (step f) (\<lambda>c jr. meets c jr f)" and "numbered cs bs"
  shows "\<exists>cs' bs'. try_fold step fs (cs, bs) = Inr (cs @ cs', bs @ bs') \<and> numbered (cs @ cs') (bs @ bs') \<and>
     (\<forall>c jr. list_all (holds c (bs @ bs') jr) cs' = list_all (meets c jr) fs)"
  using assms
proof (induction fs arbitrary: cs bs)
  case Nil
  then show ?case by (intro exI [of _ "[]"]) simp
next
  case (Cons f fs)
  then have "adds_condition (step f) (\<lambda>c jr. meets c jr f)" by simp
  with Cons.prems(2) obtain cs1 bs1 where one: "step f (cs, bs) = Inr (cs @ cs1, bs @ bs1)"
      "numbered (cs @ cs1) (bs @ bs1)" "\<And>c jr. list_all (holds c (bs @ bs1) jr) cs1 = meets c jr f"
    unfolding adds_condition_def by blast
  have "\<exists>cs' bs'. try_fold step fs (cs @ cs1, bs @ bs1) = Inr ((cs @ cs1) @ cs', (bs @ bs1) @ bs')
      \<and> numbered ((cs @ cs1) @ cs') ((bs @ bs1) @ bs') \<and>
      (\<forall>c jr. list_all (holds c ((bs @ bs1) @ bs') jr) cs' = list_all (meets c jr) fs)"
    by (rule Cons.IH [OF _ one(2)]) (use Cons.prems(1) in auto)
  then obtain cs2 bs2 where rest: "try_fold step fs (cs @ cs1, bs @ bs1) = Inr ((cs @ cs1) @ cs2, (bs @ bs1) @ bs2)"
      "numbered ((cs @ cs1) @ cs2) ((bs @ bs1) @ bs2)"
      "\<And>c jr. list_all (holds c ((bs @ bs1) @ bs2) jr) cs2 = list_all (meets c jr) fs"
    by blast
  have "list_all (holds c ((bs @ bs1) @ bs2) jr) cs1 = meets c jr f" for c jr
  proof -
    have "list_all (holds c ((bs @ bs1) @ bs2) jr) cs1 = list_all (holds c (bs @ bs1) jr) cs1"
      by (rule list.pred_cong [OF refl], rule numbered_holds_append [OF one(2)]) simp
    then show ?thesis using one(3) by simp
  qed
  with one rest show ?case
    by (intro exI [of _ "cs1 @ cs2"] exI [of _ "bs1 @ bs2"]) (simp add: list_all_append)
qed

lemma build_sheet_filter_meets:
  assumes "filters_known fs vfs" and "filters_plain fs vfs"
  obtains cs bs where "build_sheet_filter sid fs vfs = Inr (cs, bs)" and "numbered cs bs"
    and "\<And>c jr. list_all (holds c bs jr) cs \<longleftrightarrow> r_sheet_id (fst jr) = sid
           \<and> list_all (filter_meets c jr) fs \<and> list_all (value_filter_meets c jr) vfs"
proof -
  have start: "numbered [Sheet_Is 1] [sid]" by (simp add: numbered_def)
  have "\<exists>cs' bs'. try_fold add_filter fs ([Sheet_Is 1], [sid]) = Inr ([Sheet_Is 1] @ cs', [sid] @ bs')
      \<and> numbered ([Sheet_Is 1] @ cs') ([sid] @ bs') \<and>
      (\<forall>c jr. list_all (holds c ([sid] @ bs') jr) cs' = list_all (filter_meets c jr) fs)"
    by (rule adds_conditions_fold [OF _ start], rule adds_filter)
       (use assms in \<open>auto simp: filters_known_def filters_plain_def\<close>)
  then obtain cs1 bs1 where one: "try_fold add_filter fs ([Sheet_Is 1], [sid]) = Inr ([Sheet_Is 1] @ cs1, [sid] @ bs1)"
      "numbered ([Sheet_Is 1] @ cs1) ([sid] @ bs1)"
      "\<And>c jr. list_all (holds c ([sid] @ bs1) jr) cs1 = list_all (filter_meets c jr) fs"
    by blast
  have "\<exists>cs' bs'. try_fold add_value_filter vfs ([Sheet_Is 1] @ cs1, [sid] @ bs1)
        = Inr (([Sheet_Is 1] @ cs1) @ cs', ([sid] @ bs1) @ bs')
      \<and> numbered (([Sheet_Is 1] @ cs1) @ cs') (([sid] @ bs1) @ bs') \<and>
      (\<forall>c jr. list_all (holds c (([sid] @ bs1) @ bs') jr) cs' = list_all (value_filter_meets c jr) vfs)"
    by (rule adds_conditions_fold [OF _ one(2)], rule adds_value_filter)
       (use assms in \<open>auto simp: filters_known_def filters_plain_def\<close>)
  then obtain cs2 bs2 where two: "try_fold add_value_filter vfs ([Sheet_Is 1] @ cs1, [sid] @ bs1)
        = Inr (([Sheet_Is 1] @ cs1) @ cs2, ([sid] @ bs1) @ bs2)"
      "numbered (([Sheet_Is 1] @ cs1) @ cs2) (([sid] @ bs1) @ bs2)"
      "\<And>c jr. list_all (holds c (([sid] @ bs1) @ bs2) jr) cs2 = list_all (value_filter_meets c jr) vfs"
    by blast
  have "list_all (holds c (([sid] @ bs1) @ bs2) jr) ([Sheet_Is 1] @ cs1)
      \<longleftrightarrow> r_sheet_id (fst jr) = sid \<and> list_all (filter_meets c jr) fs" for c jr
    using numbered_all_holds_append [OF one(2), of c bs2 jr] one(3) by simp
  then have "list_all (holds c (([sid] @ bs1) @ bs2) jr) (([Sheet_Is 1] @ cs1) @ cs2)
      \<longleftrightarrow> r_sheet_id (fst jr) = sid \<and> list_all (filter_meets c jr) fs \<and> list_all (value_filter_meets c jr) vfs" for c jr
    using two(3) by (subst list_all_append) blast
  with one(1) two(1, 2) show thesis
    by (intro that [of "([Sheet_Is 1] @ cs1) @ cs2" "([sid] @ bs1) @ bs2"])
       (simp_all add: build_sheet_filter_def del: append_assoc)
qed

lemma build_sheet_filter_known:
  "build_sheet_filter sid fs vfs = Inr x \<Longrightarrow> filters_known fs vfs"
proof -
  have by_text: "try_fold add_filter fs s = Inr t \<Longrightarrow> \<forall>f \<in> set fs. sheet_filter_column (sf_field f) \<noteq> None" for s t
    by (induction fs arbitrary: s) (auto simp: add_filter_def and_then_Inr_iff split: option.splits prod.splits)
  have by_value: "try_fold add_value_filter vfs s = Inr t \<Longrightarrow>
      \<forall>f \<in> set vfs. vf_values f \<noteq> [] \<longrightarrow> sheet_filter_column (vf_field f) \<noteq> None" for s t
    by (induction vfs arbitrary: s)
       (auto simp: add_value_filter_def and_then_Inr_iff split: option.splits prod.splits if_splits)
  show "build_sheet_filter sid fs vfs = Inr x \<Longrightarrow> filters_known fs vfs"
    using by_text by_value unfolding build_sheet_filter_def filters_known_def and_then_Inr_iff by blast
qed

lemma selected_rows_meet:
  assumes "build_sheet_filter sid fs vfs = Inr (cs, bs)" and "filters_plain fs vfs"
  shows "selected_rows c cs bs db = filter (\<lambda>jr. r_sheet_id (fst jr) = sid
      \<and> list_all (filter_meets c jr) fs \<and> list_all (value_filter_meets c jr) vfs) (map (join_row db) (db_rows db))"
proof -
  obtain cs' bs' where "build_sheet_filter sid fs vfs = Inr (cs', bs')"
    "\<And>c jr. list_all (holds c bs' jr) cs' \<longleftrightarrow> r_sheet_id (fst jr) = sid
           \<and> list_all (filter_meets c jr) fs \<and> list_all (value_filter_meets c jr) vfs"
    using build_sheet_filter_meets [OF build_sheet_filter_known [OF assms(1)] assms(2)] by metis
  with assms(1) show ?thesis by (simp add: selected_rows_def)
qed

subsection \<open>The order of the rows\<close>

lemma compare_then_by:
  "compare (then_by c d) x y = (case compare c x y of Equiv \<Rightarrow> compare d x y | r \<Rightarrow> r)"
  by (simp add: then_by_def compare_prod_lex_apply split: comp.split)

lemma row_order_Equiv:
  assumes "compare (row_order c sorts) x y = Equiv"
  shows "r_id (fst x) = r_id (fst y)"
proof -
  have "compare (foldr (\<lambda>t. then_by (term_order c t)) ts tie_order) x y = Equiv \<Longrightarrow> compare tie_order x y = Equiv" for ts
    by (induction ts) (auto simp: compare_then_by split: comp.splits)
  with assms have "compare tie_order x y = Equiv" by (auto simp: row_order_def)
  then show ?thesis by (simp add: tie_order_def)
qed

lemma selected_rows_ids:
  "set (selected_rows c cs bs db) \<subseteq> join_row db ` set (db_rows db)"
  by (auto simp: selected_rows_def)

lemma filter_eq_single: "distinct xs \<Longrightarrow> y \<in> set xs \<Longrightarrow> filter (\<lambda>z. z = y) xs = [y]"
  by (induction xs) (auto simp: filter_empty_conv)

text \<open>With unique row identifiers, one list alone is sorted as the query asks.\<close>

lemma sorted_rows_unique:
  assumes unique: "distinct (map r_id (db_rows db))"
    and "mset ys = mset (selected_rows c cs bs db)" and "Sorting_Algorithms.sorted (row_order c sorts) ys"
  shows "ys = Sorting_Algorithms.sort (row_order c sorts) (selected_rows c cs bs db)"
proof (rule sym, rule sort_eqI)
  let ?found = "selected_rows c cs bs db"
  fix y assume y: "y \<in> set ?found"
  have distinct: "distinct ?found"
  proof -
    have "inj_on (join_row db) (set (db_rows db))"
      by (rule inj_onI) (simp add: join_row_def)
    then have "distinct (map (join_row db) (db_rows db))"
      using unique by (simp add: distinct_map)
    then show ?thesis by (simp add: selected_rows_def)
  qed
  have same: "z = y" if "z \<in> set ?found" "compare (row_order c sorts) y z = Equiv" for z
  proof -
    from row_order_Equiv [OF that(2)] have ids: "r_id (fst y) = r_id (fst z)" .
    from y that(1) selected_rows_ids obtain r r' where "r \<in> set (db_rows db)" "y = join_row db r"
      "r' \<in> set (db_rows db)" "z = join_row db r'" by blast
    with ids unique show ?thesis by (auto simp: join_row_def distinct_map inj_on_def)
  qed
  have segment: "stable_segment (row_order c sorts) y xs = [y]"
    if "distinct xs" "set xs = set ?found" for xs
  proof -
    have "filter (\<lambda>z. compare (row_order c sorts) y z = Equiv) xs = filter (\<lambda>z. z = y) xs"
      by (rule filter_cong) (use same that in auto)
    also have "\<dots> = [y]" by (rule filter_eq_single) (use that y in auto)
    finally show ?thesis .
  qed
  from assms(2) have "set ys = set ?found" by (rule mset_eq_setD)
  moreover from distinct assms(2) have "distinct ys" by (metis mset_eq_imp_distinct_iff)
  ultimately show "stable_segment (row_order c sorts) y ?found = stable_segment (row_order c sorts) y ys"
    using segment distinct by simp
qed (use assms in simp_all)

end
