(* ===== verification/QueryProperties.thy ===== *)
theory QueryProperties
  imports QueryFacts
begin

text \<open>
  The properties of the queries on sheet rows: the rows a filter selects, the text
  handed to SQLite, and the windows a client follows with \<open>next_offset\<close>.
\<close>

subsection \<open>The text and its bindings\<close>

definition shape_of :: "store_error + (condition list \<times> string list) \<Rightarrow> store_error + (condition list \<times> nat)" where
  "shape_of = map_sum (\<lambda>e. e) (\<lambda>(cs, bs). (cs, length bs))"

lemma shape_of_Inl [simp]: "shape_of r = Inl e \<longleftrightarrow> r = Inl e"
  by (cases r) (auto simp: shape_of_def)

lemma shape_of_try_fold:
  assumes "\<And>f s s'. shape_of (Inr s) = shape_of (Inr s') \<Longrightarrow> shape_of (step f s) = shape_of (step (g f) s')"
    and "shape_of (Inr s) = shape_of (Inr s')"
  shows "shape_of (try_fold step fs s) = shape_of (try_fold step (map g fs) s')"
  using assms(2)
proof (induction fs arbitrary: s s')
  case (Cons f fs)
  from assms(1) [OF Cons.prems] have step: "shape_of (step f s) = shape_of (step (g f) s')" .
  then show ?case
    by (cases "step f s"; cases "step (g f) s'") (use Cons.IH in \<open>auto simp: shape_of_def\<close>)
qed simp

text \<open>A filter without its values: the field, and how many values it lists.\<close>

definition blank_filter :: "sheet_filter \<Rightarrow> sheet_filter" where
  "blank_filter f = f\<lparr>sf_value := ''''\<rparr>"

definition blank_value_filter :: "sheet_value_filter \<Rightarrow> sheet_value_filter" where
  "blank_value_filter f = f\<lparr>vf_values := map (\<lambda>_. '''') (vf_values f)\<rparr>"

lemma shape_of_add_filter:
  "shape_of (Inr s) = shape_of (Inr s') \<Longrightarrow> shape_of (add_filter f s) = shape_of (add_filter (blank_filter f) s')"
  by (cases s; cases s') (simp add: shape_of_def add_filter_def blank_filter_def Let_def split: option.split)

lemma shape_of_add_value_filter:
  "shape_of (Inr s) = shape_of (Inr s') \<Longrightarrow>
   shape_of (add_value_filter f s) = shape_of (add_value_filter (blank_value_filter f) s')"
  by (cases s; cases s')
     (simp add: shape_of_def add_value_filter_def blank_value_filter_def Let_def split: option.split)

lemma shape_of_build:
  "shape_of (build_sheet_filter sid fs vfs)
   = shape_of (build_sheet_filter '''' (map blank_filter fs) (map blank_value_filter vfs))"
proof -
  have first: "shape_of (try_fold add_filter fs ([Sheet_Is 1], [sid]))
      = shape_of (try_fold add_filter (map blank_filter fs) ([Sheet_Is 1], ['''']))"
    by (rule shape_of_try_fold [where g = blank_filter], rule shape_of_add_filter) (simp_all add: shape_of_def)
  show ?thesis
  proof (cases "try_fold add_filter fs ([Sheet_Is 1], [sid])")
    case (Inl e)
    with first have "try_fold add_filter (map blank_filter fs) ([Sheet_Is 1], ['''']) = Inl e"
      by (metis shape_of_Inl)
    with Inl show ?thesis by (simp add: build_sheet_filter_def)
  next
    case (Inr s)
    with first obtain s' where s': "try_fold add_filter (map blank_filter fs) ([Sheet_Is 1], ['''']) = Inr s'"
      by (metis Inl_Inr_False shape_of_Inl sumE)
    have "shape_of (try_fold add_value_filter vfs s) = shape_of (try_fold add_value_filter (map blank_value_filter vfs) s')"
      by (rule shape_of_try_fold [where g = blank_value_filter], rule shape_of_add_value_filter) (use first Inr s' in simp_all)
    with Inr s' show ?thesis by (simp add: build_sheet_filter_def)
  qed
qed

lemma build_sheet_filter_numbered:
  assumes "build_sheet_filter sid fs vfs = Inr (cs, bs)"
  shows "numbered cs bs"
proof -
  have step1: "case_prod numbered t" if "add_filter f s = Inr t" "case_prod numbered s" for f s t
    using that
    by (cases s) (auto simp: add_filter_def split: option.splits intro!: numbered_append)
  have step2: "case_prod numbered t" if "add_value_filter f s = Inr t" "case_prod numbered s" for f s t
    using that
    by (cases s)
       (auto simp: add_value_filter_def Let_def comp_def simp del: upt_Suc split: option.splits if_splits intro!: numbered_append)
  from assms obtain s where s: "try_fold add_filter fs ([Sheet_Is 1], [sid]) = Inr s"
    "try_fold add_value_filter vfs s = Inr (cs, bs)"
    by (auto simp: build_sheet_filter_def and_then_Inr_iff)
  have "case_prod numbered s"
    by (rule try_fold_invariant [OF s(1)]) (simp_all add: numbered_def [of "[_]"] step1)
  then have "case_prod numbered (cs, bs)"
    by (rule try_fold_invariant [OF s(2)]) (simp_all add: step2)
  then show ?thesis by simp
qed


subsection \<open>Windows\<close>

text \<open>What a client does to see all rows: it asks again at \<open>next_offset\<close> while there is one.\<close>

fun follow_pages :: "(nat \<Rightarrow> 'a list \<times> nat option) \<Rightarrow> nat \<Rightarrow> nat \<Rightarrow> 'a list list" where
  "follow_pages page 0 offset = []"
| "follow_pages page (Suc fuel) offset =
     (case page offset of
        (xs, None) \<Rightarrow> [xs]
      | (xs, Some next_one) \<Rightarrow> xs # follow_pages page fuel next_one)"

locale paged_result =
  fixes page :: "nat \<Rightarrow> 'a list \<times> nat option" and result :: "'a list" and limit :: nat and capacity :: nat
  assumes page_at: "0 < limit \<Longrightarrow> length result < capacity \<Longrightarrow>
    page offset = (take limit (drop offset result),
      if offset + limit < length result then Some (offset + limit) else None)"
begin

lemma pages_from:
  assumes "0 < limit" and "length result < capacity" and "length result < offset + fuel"
  shows "concat (follow_pages page fuel offset) = drop offset result"
  using assms(3)
proof (induction fuel arbitrary: offset)
  case (Suc fuel)
  have split: "drop offset result = take limit (drop offset result) @ drop (offset + limit) result"
    by (metis append_take_drop_id drop_drop add.commute)
  show ?case
  proof (cases "offset + limit < length result")
    case True
    have "concat (follow_pages page fuel (offset + limit)) = drop (offset + limit) result"
      by (rule Suc.IH) (use Suc.prems assms(1) in simp)
    moreover have "page offset = (take limit (drop offset result), Some (offset + limit))"
      using page_at [OF assms(1, 2)] True by simp
    ultimately show ?thesis using split by simp
  next
    case False
    with split show ?thesis by (simp add: page_at assms)
  qed
qed simp

lemma page_sizes:
  assumes "0 < limit" and "length result < capacity"
  shows "list_all (\<lambda>xs. length xs \<le> limit) (follow_pages page fuel offset)"
  by (induction fuel arbitrary: offset) (auto simp: page_at assms)

end

text \<open>The windows of \<open>query_sheet_rows\<close> at every offset, and the list they are windows of.\<close>

definition window_at :: "sqlite_cells \<Rightarrow> sheet_rows_query \<Rightarrow> nat \<Rightarrow> workspace_db \<Rightarrow> nat \<Rightarrow> sheet_row_projection list \<times> nat option" where
  "window_at c q max_limit db offset =
     (case query_sheet_rows c (q\<lparr>sq_offset := offset\<rparr>) max_limit db of
        Inl _ \<Rightarrow> ([], None)
      | Inr w \<Rightarrow> (sw_rows w, sw_next_offset w))"

definition query_result :: "sqlite_cells \<Rightarrow> sheet_rows_query \<Rightarrow> workspace_db \<Rightarrow> sheet_row_projection list" where
  "query_result c q db =
     (case build_sheet_filter (sq_sheet_id q) (sq_filters q) (sq_value_filters q) of
        Inl _ \<Rightarrow> []
      | Inr (cs, bs) \<Rightarrow> map (project_row db \<circ> fst)
          (Sorting_Algorithms.sort (row_order c (sq_sort q)) (selected_rows c cs bs db)))"

interpretation sheet_windows:
  paged_result "window_at c q max_limit db" "query_result c q db" "min (sq_limit q) max_limit" "2 ^ 32"
  for c q max_limit db
proof
  fix offset
  assume limit: "0 < min (sq_limit q) max_limit" and small: "length (query_result c q db) < 2 ^ 32"
  show "window_at c q max_limit db offset =
     (take (min (sq_limit q) max_limit) (drop offset (query_result c q db)),
      if offset + min (sq_limit q) max_limit < length (query_result c q db)
      then Some (offset + min (sq_limit q) max_limit) else None)"
  proof (cases "build_sheet_filter (sq_sheet_id q) (sq_filters q) (sq_value_filters q)")
    case (Inl e)
    then show ?thesis by (simp add: window_at_def query_result_def query_sheet_rows_def clamp_query_window_def)
  next
    case (Inr s)
    obtain cs bs where s: "s = (cs, bs)" by (cases s)
    with Inr small have "length (selected_rows c cs bs db) < 2 ^ 32" by (simp add: query_result_def)
    with Inr s limit show ?thesis
      by (auto simp: window_at_def query_result_def query_sheet_rows_def clamp_query_window_def
            as_u32_def Let_def take_map drop_map min_def)
  qed
qed

subsection \<open>Sample data\<close>

text \<open>A column engine that knows the identifier a row shows, and a query on it.\<close>

definition sample_cells :: sqlite_cells where
  "sample_cells = \<lparr>cell_text = (\<lambda>column jr. if column = ''r.display_tracking_id'' then Some (r_display_id (fst jr)) else None),
     cell_order = (\<lambda>_. flat), group_scan = remdups\<rparr>"

definition id_query :: "string \<Rightarrow> sheet_rows_query" where
  "id_query v = \<lparr>sq_sheet_id = ''A'', sq_offset = 0, sq_limit = 2, sq_filters = [\<lparr>sf_field = ''displayTrackingId'', sf_value = v\<rparr>],
     sq_value_filters = [], sq_sort = []\<rparr>"

lemma id_query_simps [simp]:
  "sq_sheet_id (id_query v) = ''A''" "sq_offset (id_query v) = 0" "sq_limit (id_query v) = 2"
  "sq_filters (id_query v) = [\<lparr>sf_field = ''displayTrackingId'', sf_value = v\<rparr>]"
  "sq_value_filters (id_query v) = []" "sq_sort (id_query v) = []"
  by (simp_all add: id_query_def)

lemma display_id_column: "sheet_filter_column ''displayTrackingId'' = Some ''r.display_tracking_id''"
  by (simp add: sheet_filter_column_def filter_columns_def)

lemma build_id_query:
  "build_sheet_filter ''A'' [\<lparr>sf_field = ''displayTrackingId'', sf_value = v\<rparr>] [] =
     Inr ([Sheet_Is (Suc 0), Cell_Like ''r.display_tracking_id'' 2], [''A'', ''%'' @ v @ ''%''])"
  by (simp add: build_sheet_filter_def add_filter_def display_id_column)


subsection \<open>What the queries return\<close>

text \<open>
  \<open>C35.\<close> The windows of a query partition its result: a client that starts at offset 0
  and follows \<open>next_offset\<close> gets, page by page, every matching row exactly once and in
  the order of the query, in pages of at most the limit; and since \<open>position\<close> and \<open>id\<close>
  break every tie, that order is the only one SQLite can return, so pages read one
  after the other never overlap or leave a row out.
\<close>

theorem pages_deliver_the_result:
  assumes "distinct (map r_id (db_rows db))"
    and "0 < min (sq_limit q) max_limit"
    and "build_sheet_filter (sq_sheet_id q) (sq_filters q) (sq_value_filters q) = Inr (cs, bs)"
    and "length (selected_rows c cs bs db) < 2 ^ 32"
  shows "(let pages = follow_pages (window_at c q max_limit db) (Suc (length (selected_rows c cs bs db))) 0
          in concat pages = query_result c q db \<and> list_all (\<lambda>page. length page \<le> min (sq_limit q) max_limit) pages)
     \<and> (\<forall>ys. mset ys = mset (selected_rows c cs bs db) \<and> Sorting_Algorithms.sorted (row_order c (sq_sort q)) ys \<longrightarrow>
          query_result c q db = map (project_row db \<circ> fst) ys)"
proof -
  have size: "length (query_result c q db) = length (selected_rows c cs bs db)"
    by (simp add: query_result_def assms(3))
  have "query_result c q db = map (project_row db \<circ> fst) ys"
    if "mset ys = mset (selected_rows c cs bs db)" "Sorting_Algorithms.sorted (row_order c (sq_sort q)) ys" for ys
    using sorted_rows_unique [OF assms(1) that] by (simp add: query_result_def assms(3))
  then show ?thesis
    using sheet_windows.pages_from [OF assms(2), of c db 0 "Suc (length (selected_rows c cs bs db))"]
      sheet_windows.page_sizes [OF assms(2), of c db] size assms(4)
    by (simp add: Let_def del: follow_pages.simps)
qed

lemma tracking_db_rows: "db_rows tracking_db = [waiting_row ''a'' ''P1'' 0, waiting_row ''b'' ''P2'' 2]"
  by (simp add: tracking_db_def)

lemma pages_deliver_the_result_witness:
  "\<exists>cs bs. build_sheet_filter ''A'' (sq_filters (id_query ''P'')) [] = Inr (cs, bs)
     \<and> concat (follow_pages (window_at sample_cells (id_query ''P'') 500 tracking_db)
          (Suc (length (selected_rows sample_cells cs bs tracking_db))) 0) = query_result sample_cells (id_query ''P'') tracking_db"
proof -
  obtain cs bs where built: "build_sheet_filter ''A'' (sq_filters (id_query ''P'')) [] = Inr (cs, bs)"
    by (simp add: build_id_query)
  have "length (selected_rows sample_cells cs bs tracking_db) \<le> 2"
    using length_filter_le [of _ "map (join_row tracking_db) (db_rows tracking_db)"]
    by (simp add: selected_rows_def tracking_db_rows)
  then show ?thesis
    using pages_deliver_the_result [of tracking_db "id_query ''P''" 500 cs bs sample_cells] built
    by (auto simp: tracking_db_rows waiting_row_def Let_def)
qed

lemma query_result_meets:
  assumes "build_sheet_filter (sq_sheet_id q) (sq_filters q) (sq_value_filters q) = Inr (cs, bs)"
    and "filters_plain (sq_filters q) (sq_value_filters q)"
  shows "mset (query_result c q db) = image_mset (project_row db)
     (mset (filter (\<lambda>r. r_sheet_id r = sq_sheet_id q
        \<and> list_all (filter_meets c (join_row db r)) (sq_filters q)
        \<and> list_all (value_filter_meets c (join_row db r)) (sq_value_filters q)) (db_rows db)))"
proof -
  have "mset (query_result c q db) = image_mset (project_row db \<circ> fst) (mset (selected_rows c cs bs db))"
    by (simp add: query_result_def assms(1))
  also have "\<dots> = image_mset (project_row db) (mset (map fst (selected_rows c cs bs db)))"
    by (simp add: multiset.map_comp)
  also have "map fst (selected_rows c cs bs db) = filter (\<lambda>r. r_sheet_id r = sq_sheet_id q
        \<and> list_all (filter_meets c (join_row db r)) (sq_filters q)
        \<and> list_all (value_filter_meets c (join_row db r)) (sq_value_filters q)) (db_rows db)"
    unfolding selected_rows_meet [OF assms] filter_map by (simp add: comp_def join_row_def)
  finally show ?thesis .
qed

text \<open>
  \<open>C14.\<close> The rows of a query are the rows of the sheet that the filters describe: for
  texts without the wildcards of \<open>LIKE\<close>, the bindings and conditions the two loops
  build select, out of all rows and each exactly once, those of the sheet whose cell
  contains the searched text in every filter, in either case of the letters, and whose
  cell is one of the listed values in every value filter (or begins with one, for the
  shipment number).
\<close>

theorem query_rows_meet_the_filters:
  assumes "build_sheet_filter (sq_sheet_id q) (sq_filters q) (sq_value_filters q) = Inr (cs, bs)"
    and "filters_plain (sq_filters q) (sq_value_filters q)"
  shows "mset (query_result c q db) = image_mset (project_row db)
     (mset (filter (\<lambda>r. r_sheet_id r = sq_sheet_id q
        \<and> list_all (filter_meets c (join_row db r)) (sq_filters q)
        \<and> list_all (value_filter_meets c (join_row db r)) (sq_value_filters q)) (db_rows db)))"
  by (rule query_result_meets [OF assms])

lemma query_rows_meet_the_filters_witness:
  "mset (query_result sample_cells (id_query ''p2'') tracking_db) = {#project_row tracking_db (waiting_row ''b'' ''P2'' 2)#}"
proof -
  have "ascii_lower CHR ''P'' = ascii_lower CHR ''p''" by code_simp
  moreover have "ascii_lower CHR ''2'' \<noteq> ascii_lower CHR ''1''" by code_simp
  moreover have "ascii_lower CHR ''p'' \<noteq> ascii_lower CHR ''1''" "ascii_lower CHR ''p'' \<noteq> ascii_lower CHR ''2''" by code_simp+
  ultimately have hit: "contains_text ''p2'' ''P2''" and miss: "\<not> contains_text ''p2'' ''P1''"
    by (simp_all add: contains_text_Cons contains_text_Nil)
  have "filters_plain (sq_filters (id_query ''p2'')) []"
    by (simp add: filters_plain_def plain_text_def continuation_byte_def)
  then show ?thesis
    using query_rows_meet_the_filters [of "id_query ''p2''" _ _ sample_cells tracking_db] hit miss
    by (simp add: build_id_query tracking_db_rows waiting_row_def filter_meets_def display_id_column
          sample_cells_def join_row_def text_holds_def)
qed

end
