(* ===== verification/Analytics.thy ===== *)
theory Analytics
  imports QueryProperties
begin

text \<open>
  The pivots over the rows of a sheet (\<open>analytics.rs\<close>): the rows a pivot is computed
  from, the columns and the text of its SQL, the value a row has in a field, what is
  read back from DuckDB, the shares, the order and the limits of the result.  Parameters:
  the arithmetic and texts of \<open>f64\<close>, the calendar of the \<open>time\<close> crate, serde's text of a
  value, and DuckDB, which is given the statements and the rows and answers with cells.
\<close>

subsection \<open>Queries and results\<close>

datatype analytics_source_scope = All_Rows | Filtered_Rows | Selected_Rows

datatype analytics_aggregation =
  Agg_Sum | Agg_Average | Agg_Min | Agg_Max | Agg_Count | Agg_Count_Unique | Agg_Unique_List
  | Agg_Most_Frequent | Agg_First | Agg_Last

record analytics_value =
  av_field :: string
  av_aggregation :: analytics_aggregation

record analytics_sort =
  as_field :: string
  as_direction :: sort_direction

record pivot_query =
  pq_sheet_id :: string
  pq_source_scope :: analytics_source_scope
  pq_filters :: "sheet_filter list"
  pq_value_filters :: "sheet_value_filter list"
  pq_selected_row_ids :: "string list"
  pq_row_fields :: "string list"
  pq_column_fields :: "string list"
  pq_values :: "analytics_value list"
  pq_sort :: "analytics_sort list"
  pq_limit :: nat

record 'f pivot_row =
  pr_row_values :: "string list"
  pr_column_values :: "string list"
  pr_count :: nat
  pr_metrics :: "(string \<times> json) list"
  pr_share :: 'f

record 'f pivot_result =
  pv_sheet_id :: string
  pv_source_row_count :: nat
  pv_rows :: "'f pivot_row list"

datatype chart_type = Bar | Donut

record chart_query =
  cq_pivot_query :: pivot_query
  cq_chart_type :: chart_type

record 'f chart_result =
  ch_sheet_id :: string
  ch_chart_type :: chart_type
  ch_source_row_count :: nat
  ch_series :: "'f pivot_row list"

datatype duck_error = Invalid_Column_Index nat | Invalid_Column_Type nat | Engine_Failure string

datatype analytics_error =
    Duck_Db duck_error
  | Analytics_Store store_error
  | Output_Group_Limit_Exceeded nat nat
  | Source_Row_Limit_Exceeded string nat nat

subsection \<open>The source rows\<close>

definition query_source_rows ::
  "sqlite_cells \<Rightarrow> nat \<Rightarrow> pivot_query \<Rightarrow> workspace_db \<Rightarrow> analytics_error + sheet_row_window" where
  "query_source_rows c max_source_rows q db =
     (let fs = (case pq_source_scope q of Filtered_Rows \<Rightarrow> pq_filters q | _ \<Rightarrow> []);
          vfs = (case pq_source_scope q of Filtered_Rows \<Rightarrow> pq_value_filters q | _ \<Rightarrow> [])
      in case query_sheet_rows c
           \<lparr>sq_sheet_id = pq_sheet_id q, sq_offset = 0, sq_limit = max_source_rows, sq_filters = fs,
            sq_value_filters = vfs, sq_sort = []\<rparr> max_source_rows db of
           Inl e \<Rightarrow> Inl (Analytics_Store e)
         | Inr window \<Rightarrow>
             if sw_has_more window \<or> max_source_rows < sw_total_count window
             then Inl (Source_Row_Limit_Exceeded (pq_sheet_id q) (sw_total_count window) max_source_rows)
             else if pq_source_scope q = Selected_Rows
             then let selected = filter (\<lambda>x. x \<noteq> []) (map trim (pq_selected_row_ids q));
                      kept = filter (\<lambda>row. p_row_id row \<in> set selected) (sw_rows window)
                  in Inr (window\<lparr>sw_rows := kept, sw_total_count := as_u32 (length kept)\<rparr>)
             else Inr window)"

subsection \<open>Numbers, dates and values\<close>

text \<open>
  \<open>f64\<close>: the conversion of an integer, \<open>str::parse\<close>, division and product,
  \<open>partial_cmp\<close> (\<open>None\<close> with a NaN), \<open>fract() == 0.0\<close>, \<open>as i64\<close>, \<open>to_string\<close> and the JSON of a number.
\<close>

record 'f floats =
  fl_of_int :: "int \<Rightarrow> 'f"
  fl_parse :: "string \<Rightarrow> 'f option"
  fl_div :: "'f \<Rightarrow> 'f \<Rightarrow> 'f"
  fl_mul :: "'f \<Rightarrow> 'f \<Rightarrow> 'f"
  fl_partial_cmp :: "'f \<Rightarrow> 'f \<Rightarrow> comp option"
  fl_whole :: "'f \<Rightarrow> bool"
  fl_to_int :: "'f \<Rightarrow> int"
  fl_text :: "'f \<Rightarrow> string"
  fl_json :: "'f \<Rightarrow> json"

text \<open>What the model knows of the libraries: the Julian day of a calendar date, the text of a value.\<close>

record analytics_libraries =
  julian_day :: "int \<Rightarrow> nat \<Rightarrow> nat \<Rightarrow> int option"
  json_text :: "json \<Rightarrow> string"

definition show_int :: "int \<Rightarrow> string" where
  "show_int i = (if i < 0 then ''-'' @ show_nat (nat (- i)) else show_nat (nat i))"

fun as_f64 :: "'f floats \<Rightarrow> json \<Rightarrow> 'f option" where
  "as_f64 fl (JInt i) = Some (fl_of_int fl i)"
| "as_f64 fl (JFloat s) = fl_parse fl s"
| "as_f64 fl _ = None"

fun as_array :: "json \<Rightarrow> json list option" where
  "as_array (JArr vs) = Some vs"
| "as_array _ = None"

text \<open>\<open>str::get(a..b)\<close>: the bytes between two character boundaries.\<close>

definition is_char_boundary :: "string \<Rightarrow> nat \<Rightarrow> bool" where
  "is_char_boundary s i \<longleftrightarrow> i = length s \<or> (i < length s \<and> \<not> continuation_byte (s ! i))"

definition str_get :: "nat \<Rightarrow> nat \<Rightarrow> string \<Rightarrow> string option" where
  "str_get a b s =
     (if a \<le> b \<and> is_char_boundary s a \<and> is_char_boundary s b then Some (take (b - a) (drop a s)) else None)"

text \<open>\<open>str::parse::<i32>\<close> on at most four bytes, so without overflow.\<close>

definition parse_int :: "string \<Rightarrow> int option" where
  "parse_int s =
     (case s of
        [] \<Rightarrow> None
      | ch # ds \<Rightarrow>
          if ch = CHR ''-'' then (if ds = [] \<or> \<not> list_all is_ascii_digit ds then None else Some (- int (digits_val ds)))
          else map_option int (parse_uint 2147483647 s))"

definition parse_year_month_day :: "analytics_libraries \<Rightarrow> string \<Rightarrow> int option" where
  "parse_year_month_day libs value =
     Option.bind (str_get 0 10 (trim value)) (\<lambda>slice.
       if slice ! 4 = CHR ''-'' \<or> slice ! 4 = CHR ''/'' then
         Option.bind (Option.bind (str_get 0 4 slice) parse_int) (\<lambda>year.
         Option.bind (Option.bind (str_get 5 7 slice) (parse_uint 255)) (\<lambda>month.
         Option.bind (Option.bind (str_get 8 10 slice) (parse_uint 255)) (\<lambda>day.
           julian_day libs year month day)))
       else None)"

text \<open>\<open>today\<close> is a Julian day.\<close>

definition elapsed_calendar_days :: "analytics_libraries \<Rightarrow> int \<Rightarrow> string \<Rightarrow> int option" where
  "elapsed_calendar_days libs today text =
     map_option (\<lambda>day. max (today - day) 0) (parse_year_month_day libs text)"

definition elapsed_days_value :: "analytics_libraries \<Rightarrow> int \<Rightarrow> string option \<Rightarrow> json option" where
  "elapsed_days_value libs today date = map_option JInt (Option.bind date (elapsed_calendar_days libs today))"

text \<open>\<open>pointer(\<open>/history_summary/...\<close>)\<close> followed by \<open>as_array\<close>.\<close>

definition summary_entries :: "string \<Rightarrow> json \<Rightarrow> json list option" where
  "summary_entries name history =
     Option.bind (Option.bind (json_get ''history_summary'' history) (json_get name)) as_array"

definition present_member :: "string \<Rightarrow> json \<Rightarrow> json option" where
  "present_member name entry =
     (case json_get name entry of Some v \<Rightarrow> if v = JNull then None else Some v | None \<Rightarrow> None)"

fun pick_unbagging :: "analytics_libraries \<Rightarrow> int \<Rightarrow> nat \<times> json \<Rightarrow> (int \<times> int) option \<Rightarrow> (int \<times> int) option" where
  "pick_unbagging libs today (index, entry) latest =
     (case present_member ''unbagging'' entry of
        None \<Rightarrow> latest
      | Some unbagging \<Rightarrow>
          (case Option.bind (Option.bind (json_get ''tanggal'' unbagging) as_str) (elapsed_calendar_days libs today) of
             None \<Rightarrow> latest
           | Some days \<Rightarrow>
               let sort_key = (days, - int index)
               in case latest of
                    None \<Rightarrow> Some sort_key
                  | Some current \<Rightarrow>
                      if days < fst current \<or> days = fst current \<and> - int index < snd current
                      then Some sort_key else latest))"

definition latest_unbagging_days :: "analytics_libraries \<Rightarrow> int \<Rightarrow> json \<Rightarrow> json option" where
  "latest_unbagging_days libs today history =
     Option.bind (summary_entries ''bagging_unbagging'' history) (\<lambda>entries.
       map_option (\<lambda>(days, _). JInt days) (fold (pick_unbagging libs today) (enumerate 0 entries) None))"

text \<open>The loops run over the entries from the last one; a bag without an id ends the search.\<close>

fun bag_status_from :: "json list \<Rightarrow> json option" where
  "bag_status_from [] = None"
| "bag_status_from (entry # entries) =
     (case Option.bind (json_get ''nomor_kantung'' entry) as_str of
        None \<Rightarrow> None
      | Some bag_id \<Rightarrow>
          if bag_id = [] then bag_status_from entries
          else if present_member ''unbagging'' entry \<noteq> None then Some (JStr (bag_id @ '' - Unbagging''))
          else if present_member ''bagging'' entry \<noteq> None then Some (JStr (bag_id @ '' - Bagging''))
          else bag_status_from entries)"

definition latest_bag_status_text :: "json \<Rightarrow> json option" where
  "latest_bag_status_text history =
     Option.bind (summary_entries ''bagging_unbagging'' history) (\<lambda>entries. bag_status_from (rev entries))"

fun manifest_id_from :: "json list \<Rightarrow> json option" where
  "manifest_id_from [] = None"
| "manifest_id_from (entry # entries) =
     (case Option.bind (json_get ''nomor_r7'' entry) as_str of
        Some r7 \<Rightarrow> if r7 = [] then manifest_id_from entries else Some (JStr r7)
      | None \<Rightarrow> manifest_id_from entries)"

definition latest_manifest_id :: "json \<Rightarrow> json option" where
  "latest_manifest_id history =
     Option.bind (summary_entries ''manifest_r7'' history) (\<lambda>entries. manifest_id_from (rev entries))"

definition delivery_runsheet_count :: "json \<Rightarrow> json option" where
  "delivery_runsheet_count history =
     map_option (\<lambda>entries. JInt (int (length entries))) (summary_entries ''delivery_runsheet'' history)"

definition extract_json_path :: "string \<Rightarrow> json \<Rightarrow> json option" where
  "extract_json_path path value =
     fold (\<lambda>segment current. Option.bind current (json_get segment))
       (filter (\<lambda>w. w \<noteq> []) (split_on (\<lambda>ch. ch = CHR ''.'') path)) (Some value)"

text \<open>\<open>trim_start_matches\<close> takes the prefix off as often as it is there.\<close>

function trim_start_matches :: "string \<Rightarrow> string \<Rightarrow> string" where
  "trim_start_matches p s =
     (if p \<noteq> [] \<and> starts_with p s then trim_start_matches p (drop (length p) s) else s)"
  by pat_completeness auto
termination
  by (relation "measure (\<lambda>(p, s). length s)") (auto simp: starts_with_iff)

declare trim_start_matches.simps [simp del]

definition extract_field_value :: "analytics_libraries \<Rightarrow> sheet_row_projection \<Rightarrow> string \<Rightarrow> int \<Rightarrow> json option" where
  "extract_field_value libs row path today =
     (if path = ''displayTrackingId'' then Some (JStr (p_display_tracking_id row))
      else if path = ''detail.shipment_header.nomor_kiriman'' then
        (case Option.bind (p_detail_json row) (extract_json_path ''shipment_header.nomor_kiriman'') of
           Some v \<Rightarrow> Some v
         | None \<Rightarrow> Some (JStr (p_display_tracking_id row)))
      else if path = ''lookupTrackingId'' then Some (JStr (p_lookup_tracking_id row))
      else if path = ''computed.days_since_transaction'' then
        Option.bind (p_detail_json row) (\<lambda>detail.
          elapsed_days_value libs today (Option.bind (extract_json_path ''origin_detail.tanggal_input'' detail) as_str))
      else if path = ''computed.days_since_last_unbagging'' then
        Option.bind (p_history_json row) (latest_unbagging_days libs today)
      else if path = ''history_summary.latest_bagging_status'' then Option.bind (p_history_json row) latest_bag_status_text
      else if path = ''history_summary.latest_manifest_r7'' then Option.bind (p_history_json row) latest_manifest_id
      else if path = ''computed.delivery_runsheet_count'' then Option.bind (p_history_json row) delivery_runsheet_count
      else if starts_with ''status_akhir.'' path then
        Option.bind (p_status_json row) (extract_json_path (trim_start_matches ''status_akhir.'' path))
      else if starts_with ''detail.'' path then
        Option.bind (p_detail_json row) (extract_json_path (trim_start_matches ''detail.'' path))
      else None)"

record 'f field_cell =
  fc_text :: string
  fc_numeric :: 'f
  fc_has_value :: bool

definition missing_field_cell :: "'f floats \<Rightarrow> 'f field_cell" where
  "missing_field_cell fl = \<lparr>fc_text = ''-'', fc_numeric = fl_of_int fl 0, fc_has_value = False\<rparr>"

definition trim_number_text :: "'f floats \<Rightarrow> 'f \<Rightarrow> string" where
  "trim_number_text fl x = (if fl_whole fl x then show_int (fl_to_int fl x) else fl_text fl x)"

definition number_or_zero :: "'f floats \<Rightarrow> 'f option \<Rightarrow> 'f" where
  "number_or_zero fl x = (case x of Some y \<Rightarrow> y | None \<Rightarrow> fl_of_int fl 0)"

fun value_cell :: "'f floats \<Rightarrow> analytics_libraries \<Rightarrow> json \<Rightarrow> 'f field_cell" where
  "value_cell fl libs JNull = missing_field_cell fl"
| "value_cell fl libs (JBool b) =
     \<lparr>fc_text = (if b then ''true'' else ''false''), fc_numeric = fl_of_int fl (if b then 1 else 0), fc_has_value = True\<rparr>"
| "value_cell fl libs (JInt i) =
     \<lparr>fc_text = trim_number_text fl (fl_of_int fl i), fc_numeric = fl_of_int fl i, fc_has_value = True\<rparr>"
| "value_cell fl libs (JFloat s) =
     (let numeric = number_or_zero fl (fl_parse fl s)
      in \<lparr>fc_text = trim_number_text fl numeric, fc_numeric = numeric, fc_has_value = True\<rparr>)"
| "value_cell fl libs (JStr s) =
     (let text = trim s
      in if text = [] \<or> text = ''-'' then missing_field_cell fl
         else \<lparr>fc_text = text, fc_numeric = number_or_zero fl (fl_parse fl text), fc_has_value = True\<rparr>)"
| "value_cell fl libs v = \<lparr>fc_text = json_text libs v, fc_numeric = fl_of_int fl 0, fc_has_value = True\<rparr>"

definition extract_field_cell ::
  "'f floats \<Rightarrow> analytics_libraries \<Rightarrow> sheet_row_projection \<Rightarrow> string \<Rightarrow> int \<Rightarrow> 'f field_cell" where
  "extract_field_cell fl libs row path today =
     (case extract_field_value libs row path today of
        None \<Rightarrow> missing_field_cell fl
      | Some v \<Rightarrow> value_cell fl libs v)"

subsection \<open>The SQL\<close>

record field_binding =
  fb_path :: string
  fb_text_column :: string
  fb_numeric_column :: string
  fb_presence_column :: string

definition field_binding_of :: "nat \<Rightarrow> string \<Rightarrow> field_binding" where
  "field_binding_of index path =
     \<lparr>fb_path = path, fb_text_column = ''field_'' @ show_nat index @ ''_text'',
      fb_numeric_column = ''field_'' @ show_nat index @ ''_number'',
      fb_presence_column = ''field_'' @ show_nat index @ ''_has_value''\<rparr>"

definition bind_field :: "string \<Rightarrow> field_binding list \<Rightarrow> field_binding list" where
  "bind_field path bindings =
     (let normalized = trim path
      in if normalized = [] \<or> normalized \<in> set (map fb_path bindings) then bindings
         else bindings @ [field_binding_of (length bindings) normalized])"

definition create_field_bindings :: "pivot_query \<Rightarrow> field_binding list" where
  "create_field_bindings q =
     fold bind_field (pq_row_fields q @ pq_column_fields q @ map av_field (pq_values q)) []"

definition dq :: char where
  "dq = CHR 0x22"

definition quote_identifier :: "string \<Rightarrow> string" where
  "quote_identifier value = dq # concat (map (\<lambda>ch. if ch = dq then [dq, dq] else [ch]) value) @ [dq]"

fun aggregation_key :: "analytics_aggregation \<Rightarrow> string" where
  "aggregation_key Agg_Sum = ''sum''"
| "aggregation_key Agg_Average = ''average''"
| "aggregation_key Agg_Min = ''min''"
| "aggregation_key Agg_Max = ''max''"
| "aggregation_key Agg_Count = ''count''"
| "aggregation_key Agg_Count_Unique = ''count_unique''"
| "aggregation_key Agg_Unique_List = ''unique_list''"
| "aggregation_key Agg_Most_Frequent = ''most_frequent''"
| "aggregation_key Agg_First = ''first''"
| "aggregation_key Agg_Last = ''last''"

definition metric_key :: "analytics_value \<Rightarrow> string" where
  "metric_key value = av_field value @ ''__'' @ aggregation_key (av_aggregation value)"

definition filtered_aggregate :: "string \<Rightarrow> string \<Rightarrow> string \<Rightarrow> string \<Rightarrow> string" where
  "filtered_aggregate name column presence missing =
     ''coalesce('' @ name @ ''('' @ column @ '') FILTER (WHERE '' @ presence @ ''), '' @ missing @ '')''"

definition metric_expression :: "analytics_value \<Rightarrow> field_binding \<Rightarrow> string" where
  "metric_expression value b =
     (let text = quote_identifier (fb_text_column b);
          numeric = quote_identifier (fb_numeric_column b);
          presence = quote_identifier (fb_presence_column b);
          dash = sq @ ''-'' @ sq;
          present_text = ''DISTINCT CASE WHEN '' @ presence @ '' THEN '' @ text @ '' ELSE NULL END''
      in (case av_aggregation value of
            Agg_Sum \<Rightarrow> filtered_aggregate ''sum'' numeric presence ''0''
          | Agg_Average \<Rightarrow> filtered_aggregate ''avg'' numeric presence ''0''
          | Agg_Min \<Rightarrow> filtered_aggregate ''min'' numeric presence ''0''
          | Agg_Max \<Rightarrow> filtered_aggregate ''max'' numeric presence ''0''
          | Agg_Count \<Rightarrow> ''sum(CASE WHEN '' @ presence @ '' THEN 1 ELSE 0 END)''
          | Agg_Count_Unique \<Rightarrow> ''count('' @ present_text @ '')''
          | Agg_Unique_List \<Rightarrow>
              ''coalesce(string_agg('' @ present_text @ '', '' @ sq @ '', '' @ sq @ ''), '' @ dash @ '')''
          | Agg_Most_Frequent \<Rightarrow> filtered_aggregate ''mode'' text presence dash
          | Agg_First \<Rightarrow> filtered_aggregate ''first'' text presence dash
          | Agg_Last \<Rightarrow> filtered_aggregate ''last'' text presence dash)
         @ '' AS '' @ quote_identifier (metric_key value))"

definition create_table_sql :: "field_binding list \<Rightarrow> string" where
  "create_table_sql bindings =
     (let columns = concat (map (\<lambda>b.
            [quote_identifier (fb_text_column b) @ '' TEXT NOT NULL'',
             quote_identifier (fb_numeric_column b) @ '' DOUBLE NOT NULL'',
             quote_identifier (fb_presence_column b) @ '' BOOLEAN NOT NULL'']) bindings)
      in if columns = [] then ''CREATE TABLE shipflow_rows (__row_index INTEGER NOT NULL)''
         else ''CREATE TABLE shipflow_rows (__row_index INTEGER NOT NULL, '' @ join_with '', '' columns @ '')'')"

definition insert_sql :: "field_binding list \<Rightarrow> string" where
  "insert_sql bindings =
     (let placeholders = join_with '', '' (replicate (1 + length bindings * 3) ''?'');
          columns = join_with '', '' (''__row_index'' # concat (map (\<lambda>b.
            [quote_identifier (fb_text_column b), quote_identifier (fb_numeric_column b),
             quote_identifier (fb_presence_column b)]) bindings))
      in ''INSERT INTO shipflow_rows ('' @ columns @ '') VALUES ('' @ placeholders @ '')'')"

definition binding_for :: "field_binding list \<Rightarrow> string \<Rightarrow> field_binding option" where
  "binding_for bindings path = find_by fb_path path bindings"

definition select_sql :: "field_binding list \<Rightarrow> pivot_query \<Rightarrow> string" where
  "select_sql bindings q =
     (let dimensions = map (quote_identifier \<circ> fb_text_column)
            (List.map_filter (binding_for bindings) (pq_row_fields q @ pq_column_fields q));
          metrics = List.map_filter (\<lambda>value. map_option (metric_expression value) (binding_for bindings (av_field value)))
            (pq_values q);
          listed = join_with '', '' dimensions
      in ''SELECT '' @ join_with '', '' (dimensions @ [''count(*) AS __row_count''] @ metrics)
         @ '' FROM shipflow_rows'' @ (if dimensions = [] then [] else '' GROUP BY '' @ listed)
         @ (if dimensions = [] then [] else '' ORDER BY '' @ listed))"

subsection \<open>Running a pivot\<close>

datatype 'f duck_value = Duck_Null | Duck_Int int | Duck_Text string | Duck_Double 'f | Duck_Bool bool

record 'f duck_script =
  ds_create :: string
  ds_insert :: string
  ds_rows :: "'f duck_value list list"
  ds_select :: string

type_synonym 'f duck_engine = "'f duck_script \<Rightarrow> duck_error + 'f duck_value list list"

definition inserted_values ::
  "'f floats \<Rightarrow> analytics_libraries \<Rightarrow> field_binding list \<Rightarrow> int \<Rightarrow> nat \<times> sheet_row_projection \<Rightarrow> 'f duck_value list" where
  "inserted_values fl libs bindings today = (\<lambda>(row_index, row).
     Duck_Int (int row_index) # concat (map (\<lambda>b.
       let cell = extract_field_cell fl libs row (fb_path b) today
       in [Duck_Text (fc_text cell), Duck_Double (fc_numeric cell), Duck_Bool (fc_has_value cell)]) bindings))"

definition pivot_script ::
  "'f floats \<Rightarrow> analytics_libraries \<Rightarrow> sheet_row_projection list \<Rightarrow> pivot_query \<Rightarrow> int \<Rightarrow> 'f duck_script" where
  "pivot_script fl libs source q today =
     (let bindings = create_field_bindings q
      in \<lparr>ds_create = create_table_sql bindings, ds_insert = insert_sql bindings,
          ds_rows = map (inserted_values fl libs bindings today) (enumerate 0 source),
          ds_select = select_sql bindings q\<rparr>)"

text \<open>\<open>row.get\<close> of a column as a \<open>String\<close>, an \<open>i64\<close> or an \<open>f64\<close>.\<close>

definition get_cell :: "('f duck_value \<Rightarrow> 'a option) \<Rightarrow> 'f duck_value list \<Rightarrow> nat \<Rightarrow> duck_error + 'a" where
  "get_cell read cells i =
     (if length cells \<le> i then Inl (Invalid_Column_Index i)
      else case read (cells ! i) of None \<Rightarrow> Inl (Invalid_Column_Type i) | Some v \<Rightarrow> Inr v)"

fun text_value :: "'f duck_value \<Rightarrow> string option" where
  "text_value (Duck_Text s) = Some s"
| "text_value _ = None"

fun int_value :: "'f duck_value \<Rightarrow> int option" where
  "int_value (Duck_Int i) = Some i"
| "int_value _ = None"

fun double_value :: "'f floats \<Rightarrow> 'f duck_value \<Rightarrow> 'f option" where
  "double_value fl (Duck_Double x) = Some x"
| "double_value fl (Duck_Int i) = Some (fl_of_int fl i)"
| "double_value fl _ = None"

definition read_texts :: "'f duck_value list \<Rightarrow> nat \<Rightarrow> nat \<Rightarrow> duck_error + string list" where
  "read_texts cells first n =
     try_fold (\<lambda>i texts. and_then (get_cell text_value cells i) (\<lambda>t. Inr (texts @ [t]))) [first ..< first + n] []"

definition metric_value :: "'f floats \<Rightarrow> 'f duck_value list \<Rightarrow> nat \<Rightarrow> analytics_aggregation \<Rightarrow> duck_error + json" where
  "metric_value fl cells i aggregation =
     (if aggregation \<in> {Agg_Unique_List, Agg_Most_Frequent, Agg_First, Agg_Last}
      then and_then (get_cell text_value cells i) (\<lambda>t. Inr (JStr t))
      else if aggregation \<in> {Agg_Count, Agg_Count_Unique}
      then and_then (get_cell int_value cells i) (\<lambda>n. Inr (JInt n))
      else and_then (get_cell (double_value fl) cells i) (\<lambda>x. Inr (fl_json fl x)))"

text \<open>\<open>BTreeMap::insert\<close>: the entries stay in the order of their keys.\<close>

fun btree_insert :: "string \<Rightarrow> 'v \<Rightarrow> (string \<times> 'v) list \<Rightarrow> (string \<times> 'v) list" where
  "btree_insert k v [] = [(k, v)]"
| "btree_insert k v ((j, w) # ms) =
     (if k = j then (k, v) # ms else if k < j then (k, v) # (j, w) # ms else (j, w) # btree_insert k v ms)"

definition read_metrics ::
  "'f floats \<Rightarrow> 'f duck_value list \<Rightarrow> nat \<Rightarrow> analytics_value list \<Rightarrow> duck_error + (string \<times> json) list" where
  "read_metrics fl cells first values =
     try_fold (\<lambda>(i, value) ms.
         and_then (metric_value fl cells i (av_aggregation value)) (\<lambda>v. Inr (btree_insert (metric_key value) v ms)))
       (enumerate first values) []"

definition read_pivot_row :: "'f floats \<Rightarrow> pivot_query \<Rightarrow> 'f duck_value list \<Rightarrow> duck_error + 'f pivot_row" where
  "read_pivot_row fl q cells =
     (let rs = length (pq_row_fields q); cs = length (pq_column_fields q)
      in and_then (read_texts cells 0 rs) (\<lambda>row_values.
         and_then (read_texts cells rs cs) (\<lambda>column_values.
         and_then (get_cell int_value cells (rs + cs)) (\<lambda>count.
         and_then (read_metrics fl cells (rs + cs + 1) (pq_values q)) (\<lambda>metrics.
           Inr \<lparr>pr_row_values = row_values, pr_column_values = column_values, pr_count = nat (count mod 4294967296),
                pr_metrics = metrics, pr_share = fl_of_int fl 0\<rparr>)))))"

fun collect_results :: "('e + 'a) list \<Rightarrow> 'e + 'a list" where
  "collect_results [] = Inr []"
| "collect_results (r # rs) = and_then r (\<lambda>x. and_then (collect_results rs) (\<lambda>xs. Inr (x # xs)))"

definition share_of :: "'f floats \<Rightarrow> nat \<Rightarrow> 'f pivot_row \<Rightarrow> 'f pivot_row" where
  "share_of fl counted row =
     row\<lparr>pr_share := (if 0 < counted
       then fl_mul fl (fl_div fl (fl_of_int fl (int (pr_count row))) (fl_of_int fl (int counted))) (fl_of_int fl 100)
       else fl_of_int fl 0)\<rparr>"

definition query_duckdb_pivot_rows ::
  "'f floats \<Rightarrow> 'f duck_engine \<Rightarrow> 'f duck_script \<Rightarrow> pivot_query \<Rightarrow> duck_error + 'f pivot_row list" where
  "query_duckdb_pivot_rows fl duck script q =
     and_then (duck script) (\<lambda>cells.
     and_then (collect_results (map (read_pivot_row fl q) cells)) (\<lambda>rows.
       Inr (map (share_of fl (as_u32 (sum_list (map pr_count rows)))) rows)))"

subsection \<open>Order and limit\<close>

definition compare_f64 :: "'f floats \<Rightarrow> 'f \<Rightarrow> 'f \<Rightarrow> comp" where
  "compare_f64 fl x y = (case fl_partial_cmp fl x y of Some r \<Rightarrow> r | None \<Rightarrow> Equiv)"

definition compare_json_values :: "'f floats \<Rightarrow> analytics_libraries \<Rightarrow> json \<Rightarrow> json \<Rightarrow> comp" where
  "compare_json_values fl libs v w =
     (case (as_f64 fl v, as_f64 fl w) of
        (Some x, Some y) \<Rightarrow> compare_f64 fl x y
      | _ \<Rightarrow> compare default (json_text libs v) (json_text libs w))"

definition compare_pivot_rows ::
  "'f floats \<Rightarrow> analytics_libraries \<Rightarrow> analytics_sort \<Rightarrow> 'f pivot_row \<Rightarrow> 'f pivot_row \<Rightarrow> comp" where
  "compare_pivot_rows fl libs sort_item x y =
     (if as_field sort_item = ''count'' then compare default (pr_count x) (pr_count y)
      else if as_field sort_item = ''share'' then compare_f64 fl (pr_share x) (pr_share y)
      else case (map_of (pr_metrics x) (as_field sort_item), map_of (pr_metrics y) (as_field sort_item)) of
             (Some v, Some w) \<Rightarrow> compare_json_values fl libs v w
           | _ \<Rightarrow> Equiv)"

fun reverse_order :: "comp \<Rightarrow> comp" where
  "reverse_order Less = Greater"
| "reverse_order Greater = Less"
| "reverse_order Equiv = Equiv"

definition unit_separator :: string where
  "unit_separator = [CHR 0x1F]"

fun compare_by :: "'f floats \<Rightarrow> analytics_libraries \<Rightarrow> analytics_sort list \<Rightarrow> 'f pivot_row \<Rightarrow> 'f pivot_row \<Rightarrow> comp" where
  "compare_by fl libs [] x y =
     (case compare default (pr_count y) (pr_count x) of
        Equiv \<Rightarrow>
          (case compare default (join_with unit_separator (pr_row_values x)) (join_with unit_separator (pr_row_values y)) of
             Equiv \<Rightarrow> compare default (join_with unit_separator (pr_column_values x)) (join_with unit_separator (pr_column_values y))
           | r \<Rightarrow> r)
      | r \<Rightarrow> r)"
| "compare_by fl libs (s # ss) x y =
     (case compare_pivot_rows fl libs s x y of
        Equiv \<Rightarrow> compare_by fl libs ss x y
      | r \<Rightarrow> (case as_direction s of Asc \<Rightarrow> r | Desc \<Rightarrow> reverse_order r))"

text \<open>A stable sort by a comparison: a row goes behind those that are not greater.\<close>

fun insert_by :: "('a \<Rightarrow> 'a \<Rightarrow> comp) \<Rightarrow> 'a \<Rightarrow> 'a list \<Rightarrow> 'a list" where
  "insert_by cmp x [] = [x]"
| "insert_by cmp x (y # ys) = (if cmp x y = Greater then y # insert_by cmp x ys else x # y # ys)"

definition apply_pivot_sort ::
  "'f floats \<Rightarrow> analytics_libraries \<Rightarrow> analytics_sort list \<Rightarrow> 'f pivot_row list \<Rightarrow> 'f pivot_row list" where
  "apply_pivot_sort fl libs sorts groups = foldr (insert_by (compare_by fl libs sorts)) groups []"

definition query_pivot_from_rows_on_date ::
  "'f floats \<Rightarrow> analytics_libraries \<Rightarrow> 'f duck_engine \<Rightarrow> sheet_row_projection list \<Rightarrow> pivot_query \<Rightarrow> int
   \<Rightarrow> analytics_error + 'f pivot_result" where
  "query_pivot_from_rows_on_date fl libs duck source q today =
     (case query_duckdb_pivot_rows fl duck (pivot_script fl libs source q today) q of
        Inl e \<Rightarrow> Inl (Duck_Db e)
      | Inr groups \<Rightarrow>
          let output = apply_pivot_sort fl libs (pq_sort q) groups
          in if pq_limit q < length output then Inl (Output_Group_Limit_Exceeded (length output) (pq_limit q))
             else Inr \<lparr>pv_sheet_id = pq_sheet_id q, pv_source_row_count = as_u32 (length source), pv_rows = output\<rparr>)"

text \<open>\<open>local_date\<close> is SQLite's answer to \<open>SELECT date('now', 'localtime')\<close>.\<close>

definition query_pivot ::
  "'f floats \<Rightarrow> analytics_libraries \<Rightarrow> 'f duck_engine \<Rightarrow> sqlite_cells \<Rightarrow> string \<Rightarrow> nat \<Rightarrow> pivot_query \<Rightarrow> workspace_db
   \<Rightarrow> analytics_error + 'f pivot_result" where
  "query_pivot fl libs duck c local_date max_source_rows q db =
     and_then (query_source_rows c max_source_rows q db) (\<lambda>window.
       case parse_year_month_day libs local_date of
         None \<Rightarrow> Inl (Analytics_Store (Invalid_Value ''current_local_date'' local_date))
       | Some today \<Rightarrow> query_pivot_from_rows_on_date fl libs duck (sw_rows window) q today)"

definition query_chart ::
  "'f floats \<Rightarrow> analytics_libraries \<Rightarrow> 'f duck_engine \<Rightarrow> sqlite_cells \<Rightarrow> string \<Rightarrow> nat \<Rightarrow> chart_query \<Rightarrow> workspace_db
   \<Rightarrow> analytics_error + 'f chart_result" where
  "query_chart fl libs duck c local_date max_source_rows q db =
     and_then (query_pivot fl libs duck c local_date max_source_rows (cq_pivot_query q) db) (\<lambda>pivot.
       Inr \<lparr>ch_sheet_id = pv_sheet_id pivot, ch_chart_type = cq_chart_type q,
            ch_source_row_count = pv_source_row_count pivot, ch_series = pv_rows pivot\<rparr>)"

end
