(* ===== verification/WorkspaceEngine.thy ===== *)
theory WorkspaceEngine
  imports ImportRun ImportPreview TrackingRefresh DocumentRestore Analytics
begin

text \<open>
  The workspace engine (\<open>engine.rs\<close>, \<open>commands.rs\<close>, the retry policy of \<open>jobs.rs\<close>): the
  commands of the workspace host, dispatched to the store, the import engine, the
  tracking engine and the analytics.  The runtime is the database with the state of its
  connection; what a command needs from outside (clocks, lookups, other connections,
  SQLite and DuckDB, staged files) is one record, drawn anew for every command.  A run
  of an import job may not return as far as its definition goes, so a command is an
  option; that it returns is a theorem.
\<close>

subsection \<open>Configuration\<close>

record retry_policy =
  rp_max_attempts :: nat
  rp_initial_backoff_ms :: nat
  rp_max_backoff_ms :: nat

definition default_retry_policy :: retry_policy where
  "default_retry_policy = \<lparr>rp_max_attempts = 3, rp_initial_backoff_ms = 1000, rp_max_backoff_ms = 30000\<rparr>"

text \<open>\<open>saturating_pow\<close> and \<open>saturating_mul\<close> of u64\<close>

definition next_backoff_ms :: "retry_policy \<Rightarrow> nat \<Rightarrow> nat" where
  "next_backoff_ms policy attempt_number =
     (if attempt_number \<le> 1 then rp_initial_backoff_ms policy
      else let multiplier = min u64_max (2 ^ (attempt_number - 1))
           in min (min u64_max (rp_initial_backoff_ms policy * multiplier)) (rp_max_backoff_ms policy))"

record workspace_engine_config =
  wc_schema_version :: nat
  wc_max_concurrent_import_lookups :: nat
  wc_max_concurrent_manifest_bag_lookups :: nat
  wc_retry_policy :: retry_policy

definition default_engine_config :: workspace_engine_config where
  "default_engine_config =
     \<lparr>wc_schema_version = schema_version, wc_max_concurrent_import_lookups = 4,
      wc_max_concurrent_manifest_bag_lookups = 4, wc_retry_policy = default_retry_policy\<rparr>"

abbreviation "max_sheet_row_window \<equiv> (1000 :: nat)"
abbreviation "max_analytics_source_rows \<equiv> (100000 :: nat)"

subsection \<open>Commands and responses\<close>

record create_import_job_request =
  cr_sheet_id :: string
  cr_kind :: import_kind
  cr_ids :: "string list"
  cr_mode :: import_mode

record create_sheet_request =
  cs_sheet_id :: string
  cs_name :: string
  cs_position :: nat

datatype transfer_sheet_rows_mode = Transfer_Copy | Transfer_Move

record transfer_sheet_rows_request =
  tq_source_sheet_id :: string
  tq_target_sheet_id :: string
  tq_row_ids :: "string list"
  tq_mode :: transfer_sheet_rows_mode

record upsert_sheet_row_request =
  uq_row_id :: string
  uq_position :: nat
  uq_display_tracking_id :: string

record upsert_sheet_rows_request =
  us_sheet_id :: string
  us_rows :: "upsert_sheet_row_request list"
  us_replace_existing :: bool
  us_append_at_end :: bool

record refresh_rows_request =
  fq_sheet_id :: string
  fq_row_ids :: "string list"
  fq_force_refresh :: bool
  fq_run_id :: "string option"

datatype workspace_command =
    Cmd_Restore_Workspace restore_workspace_input
  | Cmd_Create_Import_Job create_import_job_request
  | Cmd_Run_Import_Job string
  | Cmd_Retry_Import_Job_Failed string
  | Cmd_Cancel_Import_Job string
  | Cmd_Get_Import_Job string
  | Cmd_List_Sheets
  | Cmd_Create_Sheet create_sheet_request
  | Cmd_Rename_Sheet string string
  | Cmd_Query_Sheet_Rows sheet_rows_query
  | Cmd_Query_Sheet_Field_Values sheet_field_values_query
  | Cmd_Clear_Sheet_Rows string
  | Cmd_Delete_Sheet string
  | Cmd_Delete_Sheet_Rows string "string list"
  | Cmd_Transfer_Sheet_Rows transfer_sheet_rows_request
  | Cmd_Copy_Sheet_Rows string string
  | Cmd_Query_Pivot pivot_query
  | Cmd_Query_Chart chart_query
  | Cmd_Upsert_Sheet_Rows upsert_sheet_rows_request
  | Cmd_Refresh_Sheet_Row_Tracking string bool
  | Cmd_Refresh_Sheet_Rows_Tracking refresh_rows_request
  | Cmd_Preview_Import_Source import_kind "string list"
  | Cmd_Resolve_Tracking_Id string

datatype 'f workspace_response =
    Resp_Import_Job_Detail import_job_detail
  | Resp_Sheets "sheet_record list"
  | Resp_Sheet sheet_record
  | Resp_Sheet_Row sheet_row_projection
  | Resp_Sheet_Rows sheet_row_window
  | Resp_Sheet_Field_Values sheet_field_values_result
  | Resp_Sheet_Deleted string
  | Resp_Sheet_Rows_Tracking_Refresh sheet_rows_refresh_result
  | Resp_Pivot "'f pivot_result"
  | Resp_Chart "'f chart_result"
  | Resp_Import_Source_Preview import_source_preview_result
  | Resp_Resolved_Tracking_Id resolved_tracking_id

text \<open>\<open>Engine_Store_Json\<close> is \<open>Store(Json(e))\<close>, which only a staged file can cause.\<close>

datatype engine_error =
    Engine_Io string
  | Engine_Store store_error
  | Engine_Store_Json string
  | Engine_Import import_engine_error
  | Engine_Tracking tracking_engine_error
  | Engine_Missing_Import_Job string
  | Engine_Analytics analytics_error

subsection \<open>The runtime and its surroundings\<close>

record runtime =
  rt_config :: workspace_engine_config
  rt_db :: workspace_db
  rt_expected :: "int option"
  rt_has_blob_root :: bool
  rt_import_job_sequence :: nat

text \<open>A file of the staging directory, as far as it can be read.\<close>

datatype staged_file =
    No_Metadata string
  | Not_A_Regular_File
  | Cannot_Open string
  | Malformed_Document string
  | Staged_Document restore_workspace_input

text \<open>
  \<open>ew_clock k\<close> is the clock and the tokens of the k-th operation of the command,
  \<open>ew_others\<close> what other connections write while one row is looked up,
  \<open>ew_batch\<close> the deliveries of a batch, \<open>ew_nanos\<close> the clock in nanoseconds as text.
\<close>

record ('r, 'f) engine_world =
  ew_clock :: "nat \<Rightarrow> env"
  ew_nanos :: string
  ew_source :: lookup_source
  ew_preview :: "'r preview_source"
  ew_host :: tracking_host
  ew_others :: "workspace_db \<Rightarrow> workspace_db"
  ew_fetch :: "bool \<Rightarrow> string \<Rightarrow> string + track_response"
  ew_batch :: "bool \<Rightarrow> batch_outcome"
  ew_staged :: "string \<Rightarrow> staged_file"
  ew_cells :: sqlite_cells
  ew_floats :: "'f floats"
  ew_libraries :: analytics_libraries
  ew_duck :: "'f duck_engine"
  ew_local_date :: string

text \<open>Without a blob root no response is written.\<close>

definition import_source_of :: "('r, 'f) engine_world \<Rightarrow> runtime \<Rightarrow> lookup_source" where
  "import_source_of w rt =
     (if rt_has_blob_root rt then ew_source w else (ew_source w)\<lparr>store_raw_response_blob := \<lambda>_. Inr None\<rparr>)"

definition tracking_host_of :: "('r, 'f) engine_world \<Rightarrow> runtime \<Rightarrow> tracking_host" where
  "tracking_host_of w rt =
     (if rt_has_blob_root rt then ew_host w else (ew_host w)\<lparr>write_response := None\<rparr>)"

type_synonym 'a db_action = "workspace_db \<Rightarrow> (engine_error + 'a) \<times> workspace_db"

text \<open>The question mark after an operation, with the conversion of its error.\<close>

definition engine_call :: "('e \<Rightarrow> engine_error) \<Rightarrow> ('e + 'a) \<times> 'd \<Rightarrow> (engine_error + 'a) \<times> 'd" where
  "engine_call f = (\<lambda>(r, db). (case r of Inl e \<Rightarrow> Inl (f e) | Inr v \<Rightarrow> Inr v, db))"

definition and_then_db :: "(engine_error + 'a) \<times> workspace_db \<Rightarrow> ('a \<Rightarrow> 'b db_action) \<Rightarrow> (engine_error + 'b) \<times> workspace_db" where
  "and_then_db r f = (case r of (Inl e, db) \<Rightarrow> (Inl e, db) | (Inr v, db) \<Rightarrow> f v db)"

definition store_query :: "(workspace_db \<Rightarrow> store_error + 'a) \<Rightarrow> 'a db_action" where
  "store_query f db = (case f db of Inl e \<Rightarrow> Inl (Engine_Store e) | Inr v \<Rightarrow> Inr v, db)"

subsection \<open>Sheets and rows\<close>

definition primary_workspace :: "workspace_db \<Rightarrow> engine_error + string" where
  "primary_workspace db = ok_or (Engine_Store (Invalid_Value ''workspace'' ''primary'')) (primary_workspace_id db)"

definition ensure_sheet_exists :: "env \<Rightarrow> string \<Rightarrow> unit db_action" where
  "ensure_sheet_exists env sheet_id db =
     (if sheet_exists (base db) sheet_id then (Inr (), db)
      else case primary_workspace db of
        Inl e \<Rightarrow> (Inl e, db)
      | Inr workspace_id \<Rightarrow>
          and_then_db (engine_call Engine_Store (create_sheet env sheet_id workspace_id sheet_id 0 db))
            (\<lambda>_ db. (Inr (), db)))"

definition query_first_sheet_row_window :: "sqlite_cells \<Rightarrow> string \<Rightarrow> sheet_row_window db_action" where
  "query_first_sheet_row_window c sheet_id =
     store_query (query_sheet_rows c \<lparr>sq_sheet_id = sheet_id, sq_offset = 0, sq_limit = max_sheet_row_window,
       sq_filters = [], sq_value_filters = [], sq_sort = []\<rparr> max_sheet_row_window)"

definition create_sheet_command :: "env \<Rightarrow> create_sheet_request \<Rightarrow> sheet_record db_action" where
  "create_sheet_command env request db =
     (let name = trim (cs_name request)
      in if name = [] then (Inl (Engine_Store (Invalid_Value ''sheet_name'' (cs_name request))), db)
         else case primary_workspace db of
           Inl e \<Rightarrow> (Inl e, db)
         | Inr workspace_id \<Rightarrow>
             engine_call Engine_Store (create_sheet env (cs_sheet_id request) workspace_id name (cs_position request) db))"

definition rename_sheet_command :: "env \<Rightarrow> string \<Rightarrow> string \<Rightarrow> sheet_record db_action" where
  "rename_sheet_command env sheet_id raw_name db =
     (let name = trim raw_name
      in if name = [] then (Inl (Engine_Store (Invalid_Value ''sheet_name'' raw_name)), db)
         else engine_call Engine_Store (rename_sheet env sheet_id name db))"

text \<open>An operation on the tables of \<open>StoreTypes\<close>.\<close>

definition base_call :: "'a operation \<Rightarrow> 'a db_action" where
  "base_call f db = engine_call Engine_Store (on_base f db)"

definition clear_sheet_rows_command :: "('r, 'f) engine_world \<Rightarrow> string \<Rightarrow> sheet_row_window db_action" where
  "clear_sheet_rows_command w sheet_id db =
     and_then_db (ensure_sheet_exists (ew_clock w 0) sheet_id db) (\<lambda>_ db.
     and_then_db (base_call (clear_sheet_rows sheet_id) db) (\<lambda>_ db.
       query_first_sheet_row_window (ew_cells w) sheet_id db))"

definition delete_sheet_rows_command ::
  "('r, 'f) engine_world \<Rightarrow> string \<Rightarrow> string list \<Rightarrow> sheet_row_window db_action" where
  "delete_sheet_rows_command w sheet_id row_ids db =
     and_then_db (ensure_sheet_exists (ew_clock w 0) sheet_id db) (\<lambda>_ db.
     and_then_db (base_call (delete_sheet_rows (ew_clock w 1) sheet_id row_ids) db) (\<lambda>_ db.
       query_first_sheet_row_window (ew_cells w) sheet_id db))"

definition delete_sheet_command :: "string \<Rightarrow> string db_action" where
  "delete_sheet_command sheet_id db =
     and_then_db (base_call (\<lambda>s. (Inr (), delete_sheet sheet_id s)) db) (\<lambda>_ db. (Inr sheet_id, db))"

definition transfer_sheet_rows_command ::
  "('r, 'f) engine_world \<Rightarrow> transfer_sheet_rows_request \<Rightarrow> sheet_row_window db_action" where
  "transfer_sheet_rows_command w request db =
     and_then_db (ensure_sheet_exists (ew_clock w 0) (tq_source_sheet_id request) db) (\<lambda>_ db.
     and_then_db (ensure_sheet_exists (ew_clock w 1) (tq_target_sheet_id request) db) (\<lambda>_ db.
     and_then_db (base_call (transfer_sheet_rows (ew_clock w 2)
         \<lparr>tr_source_sheet_id = tq_source_sheet_id request, tr_target_sheet_id = tq_target_sheet_id request,
          tr_row_ids = tq_row_ids request, tr_delete_source_rows = (tq_mode request = Transfer_Move)\<rparr>) db) (\<lambda>_ db.
       query_first_sheet_row_window (ew_cells w) (tq_target_sheet_id request) db)))"

definition copy_sheet_rows_command ::
  "('r, 'f) engine_world \<Rightarrow> string \<Rightarrow> string \<Rightarrow> sheet_row_window db_action" where
  "copy_sheet_rows_command w source_id target_id db =
     and_then_db (ensure_sheet_exists (ew_clock w 0) source_id db) (\<lambda>_ db.
     and_then_db (ensure_sheet_exists (ew_clock w 1) target_id db) (\<lambda>_ db.
     and_then_db (base_call (copy_sheet_rows (ew_clock w 2) source_id target_id) db) (\<lambda>_ db.
       query_first_sheet_row_window (ew_cells w) target_id db)))"

text \<open>The rows of a request; a row without a tracking id is left out.\<close>

definition requested_row :: "string \<Rightarrow> upsert_sheet_row_request \<Rightarrow> upsert_sheet_row_input" where
  "requested_row sheet_id row =
     (let resolved = resolve_tracking_id (trim (uq_display_tracking_id row))
      in \<lparr>ur_row_id = uq_row_id row, ur_sheet_id = sheet_id, ur_position = uq_position row,
          ur_display_id = rti_display_id resolved, ur_lookup_id = rti_lookup_id resolved,
          ur_status = Row_Empty, ur_error_message = None\<rparr>)"

definition requested_rows :: "upsert_sheet_rows_request \<Rightarrow> upsert_sheet_row_input list" where
  "requested_rows request =
     map (requested_row (us_sheet_id request)) (filter (\<lambda>row. trim (uq_display_tracking_id row) \<noteq> []) (us_rows request))"

definition upsert_sheet_rows_command ::
  "('r, 'f) engine_world \<Rightarrow> upsert_sheet_rows_request \<Rightarrow> sheet_row_window db_action" where
  "upsert_sheet_rows_command w request db =
     and_then_db (ensure_sheet_exists (ew_clock w 0) (us_sheet_id request) db) (\<lambda>_ db.
     and_then_db
       (if us_append_at_end request
        then if us_replace_existing request
             then (Inl (Engine_Store (Invalid_Value ''append_at_end'' ''cannot replace existing rows'')), db)
             else base_call (append_sheet_rows_atomic (ew_clock w 1) (us_sheet_id request) (requested_rows request)) db
        else base_call (edit_sheet_rows_atomic (ew_clock w 1) (us_sheet_id request) (requested_rows request)
               (us_replace_existing request)) db)
       (\<lambda>_ db. query_first_sheet_row_window (ew_cells w) (us_sheet_id request) db))"

definition restore_workspace_command :: "env \<Rightarrow> restore_workspace_input \<Rightarrow> sheet_record list db_action" where
  "restore_workspace_command env request db =
     and_then_db (engine_call Engine_Store (restore_workspace env request db)) (\<lambda>_ db. (Inr (list_sheets db), db))"

subsection \<open>Import jobs\<close>

text \<open>\<open>saturating_add\<close>, then \<open>import-job-{nanos}-{sequence}\<close>\<close>

definition next_import_job_id :: "string \<Rightarrow> runtime \<Rightarrow> string \<times> runtime" where
  "next_import_job_id nanos rt =
     (let n = min (rt_import_job_sequence rt + 1) u64_max
      in (''import-job-'' @ nanos @ ''-'' @ show_nat n, rt\<lparr>rt_import_job_sequence := n\<rparr>))"

definition on_db :: "'a db_action \<Rightarrow> runtime \<Rightarrow> (engine_error + 'a) \<times> runtime" where
  "on_db f rt = (let (r, db) = f (rt_db rt) in (r, rt\<lparr>rt_db := db\<rparr>))"

definition create_import_job_command ::
  "('r, 'f) engine_world \<Rightarrow> create_import_job_request \<Rightarrow> runtime \<Rightarrow> (engine_error + import_job_detail) \<times> runtime" where
  "create_import_job_command w request rt =
     (case on_db (ensure_sheet_exists (ew_clock w 0) (cr_sheet_id request)) rt of
        (Inl e, rt1) \<Rightarrow> (Inl e, rt1)
      | (Inr _, rt1) \<Rightarrow>
          let (job_id, rt2) = next_import_job_id (ew_nanos w) rt1;
              (r, s) = create_job (ew_clock w 1) \<lparr>cp_job_id = job_id, cp_sheet_id = cr_sheet_id request,
                 cp_kind = cr_kind request, cp_ids = cr_ids request, cp_mode = cr_mode request\<rparr> (base (rt_db rt2))
          in engine_call Engine_Import (r, rt2\<lparr>rt_db := (rt_db rt2)\<lparr>base := s\<rparr>\<rparr>))"

text \<open>A run with its events; the answer is absent when the run does not return.\<close>

type_synonym import_run = "(engine_error + import_job_detail) \<times> import_job_progress_event list \<times> runtime"

definition finished_import ::
  "runtime \<Rightarrow> (import_engine_error + import_job_detail) \<times> import_job_progress_event list \<times> store \<Rightarrow> import_run" where
  "finished_import rt = (\<lambda>(r, events, s).
     (case r of Inl e \<Rightarrow> Inl (Engine_Import e) | Inr d \<Rightarrow> Inr d, events, rt\<lparr>rt_db := (rt_db rt)\<lparr>base := s\<rparr>\<rparr>))"

definition run_import_job_with_progress ::
  "('r, 'f) engine_world \<Rightarrow> string \<Rightarrow> runtime \<Rightarrow> import_run option" where
  "run_import_job_with_progress w job_id rt =
     map_option (finished_import rt) (run_job_with_progress (ew_clock w) (import_source_of w rt) job_id (base (rt_db rt)))"

definition retry_import_job_failed_with_progress ::
  "('r, 'f) engine_world \<Rightarrow> string \<Rightarrow> runtime \<Rightarrow> import_run option" where
  "retry_import_job_failed_with_progress w job_id rt =
     map_option (finished_import rt)
       (retry_failed_and_run_with_progress (ew_clock w 0) (\<lambda>k. ew_clock w (Suc k)) (import_source_of w rt) job_id
         (rp_max_attempts (wc_retry_policy (rt_config rt))) (base (rt_db rt)))"

definition get_import_job_command :: "string \<Rightarrow> import_job_detail db_action" where
  "get_import_job_command job_id db =
     (ok_or (Engine_Missing_Import_Job job_id) (get_import_job job_id (base db)), db)"

definition cancel_import_job_command :: "env \<Rightarrow> string \<Rightarrow> import_job_detail db_action" where
  "cancel_import_job_command env job_id db =
     and_then_db (base_call (cancel_import_job env job_id) db) (\<lambda>_. get_import_job_command job_id)"

definition preview_import_source_command ::
  "('r, 'f) engine_world \<Rightarrow> import_kind \<Rightarrow> string list \<Rightarrow> import_source_preview_result db_action" where
  "preview_import_source_command w kind ids db =
     engine_call Engine_Import (preview_import_source (ew_preview w) kind ids, db)"

subsection \<open>Tracking\<close>

text \<open>A failed lookup is not an error of the command: the row carries it.\<close>

definition refresh_sheet_row_tracking ::
  "('r, 'f) engine_world \<Rightarrow> string \<Rightarrow> bool \<Rightarrow> runtime \<Rightarrow> (engine_error + sheet_row_projection) \<times> runtime" where
  "refresh_sheet_row_tracking w row_id force_refresh rt =
     (let (r, db) = refresh_sheet_row (tracking_host_of w rt) (ew_clock w 0) (ew_clock w 1) (rt_expected rt)
                      (ew_others w) (ew_fetch w force_refresh) row_id (rt_db rt)
      in (case r of
            Inr row \<Rightarrow> Inr row
          | Inl (TE_Lookup message) \<Rightarrow>
              ok_or (Engine_Tracking (TE_Missing_Sheet_Row row_id)) (get_sheet_row row_id db)
          | Inl e \<Rightarrow> Inl (Engine_Tracking e),
          rt\<lparr>rt_db := db\<rparr>))"

definition refresh_sheet_rows_tracking_with_progress ::
  "('r, 'f) engine_world \<Rightarrow> refresh_rows_request \<Rightarrow> runtime
   \<Rightarrow> (engine_error + sheet_rows_refresh_result) \<times> refresh_event list \<times> runtime" where
  "refresh_sheet_rows_tracking_with_progress w request rt =
     (let (r, events, db) = refresh_sheet_rows_with_progress (tracking_host_of w rt) (ew_clock w 0)
                \<lparr>rq_sheet_id = fq_sheet_id request, rq_row_ids = fq_row_ids request, rq_run_id = fq_run_id request,
                 rq_expected = rt_expected rt\<rparr> (ew_batch w (fq_force_refresh request)) (rt_db rt)
      in (case r of Inl e \<Rightarrow> Inl (Engine_Tracking e) | Inr v \<Rightarrow> Inr v, events, rt\<lparr>rt_db := db\<rparr>))"

subsection \<open>The dispatch\<close>

definition responded :: "('a \<Rightarrow> 'f workspace_response) \<Rightarrow> (engine_error + 'a) \<times> runtime
   \<Rightarrow> (engine_error + 'f workspace_response) \<times> runtime" where
  "responded f = (\<lambda>(r, rt). (case r of Inl e \<Rightarrow> Inl e | Inr v \<Rightarrow> Inr (f v), rt))"

definition without_events :: "'a \<times> 'e \<times> runtime \<Rightarrow> 'a \<times> runtime" where
  "without_events = (\<lambda>(r, events, rt). (r, rt))"

fun handle_command ::
  "('r, 'f) engine_world \<Rightarrow> workspace_command \<Rightarrow> runtime \<Rightarrow> ((engine_error + 'f workspace_response) \<times> runtime) option" where
  "handle_command w (Cmd_Create_Import_Job request) rt =
     Some (responded Resp_Import_Job_Detail (create_import_job_command w request rt))"
| "handle_command w (Cmd_Run_Import_Job job_id) rt =
     map_option (responded Resp_Import_Job_Detail \<circ> without_events) (run_import_job_with_progress w job_id rt)"
| "handle_command w (Cmd_Retry_Import_Job_Failed job_id) rt =
     map_option (responded Resp_Import_Job_Detail \<circ> without_events) (retry_import_job_failed_with_progress w job_id rt)"
| "handle_command w (Cmd_Cancel_Import_Job job_id) rt =
     Some (responded Resp_Import_Job_Detail (on_db (cancel_import_job_command (ew_clock w 0) job_id) rt))"
| "handle_command w (Cmd_Get_Import_Job job_id) rt =
     Some (responded Resp_Import_Job_Detail (on_db (get_import_job_command job_id) rt))"
| "handle_command w Cmd_List_Sheets rt = Some (Inr (Resp_Sheets (list_sheets (rt_db rt))), rt)"
| "handle_command w (Cmd_Restore_Workspace request) rt =
     Some (responded Resp_Sheets (on_db (restore_workspace_command (ew_clock w 0) request) rt))"
| "handle_command w (Cmd_Create_Sheet request) rt =
     Some (responded Resp_Sheet (on_db (create_sheet_command (ew_clock w 0) request) rt))"
| "handle_command w (Cmd_Rename_Sheet sheet_id name) rt =
     Some (responded Resp_Sheet (on_db (rename_sheet_command (ew_clock w 0) sheet_id name) rt))"
| "handle_command w (Cmd_Query_Sheet_Rows q) rt =
     Some (responded Resp_Sheet_Rows (on_db (store_query (query_sheet_rows (ew_cells w) q max_sheet_row_window)) rt))"
| "handle_command w (Cmd_Query_Sheet_Field_Values q) rt =
     Some (responded Resp_Sheet_Field_Values
       (on_db (store_query (query_sheet_field_values (ew_cells w) q max_sheet_row_window)) rt))"
| "handle_command w (Cmd_Clear_Sheet_Rows sheet_id) rt =
     Some (responded Resp_Sheet_Rows (on_db (clear_sheet_rows_command w sheet_id) rt))"
| "handle_command w (Cmd_Delete_Sheet sheet_id) rt =
     Some (responded Resp_Sheet_Deleted (on_db (delete_sheet_command sheet_id) rt))"
| "handle_command w (Cmd_Delete_Sheet_Rows sheet_id row_ids) rt =
     Some (responded Resp_Sheet_Rows (on_db (delete_sheet_rows_command w sheet_id row_ids) rt))"
| "handle_command w (Cmd_Transfer_Sheet_Rows request) rt =
     Some (responded Resp_Sheet_Rows (on_db (transfer_sheet_rows_command w request) rt))"
| "handle_command w (Cmd_Copy_Sheet_Rows source_id target_id) rt =
     Some (responded Resp_Sheet_Rows (on_db (copy_sheet_rows_command w source_id target_id) rt))"
| "handle_command w (Cmd_Upsert_Sheet_Rows request) rt =
     Some (responded Resp_Sheet_Rows (on_db (upsert_sheet_rows_command w request) rt))"
| "handle_command w (Cmd_Refresh_Sheet_Row_Tracking row_id force_refresh) rt =
     Some (responded Resp_Sheet_Row (refresh_sheet_row_tracking w row_id force_refresh rt))"
| "handle_command w (Cmd_Refresh_Sheet_Rows_Tracking request) rt =
     Some (responded Resp_Sheet_Rows_Tracking_Refresh
       (without_events (refresh_sheet_rows_tracking_with_progress w request rt)))"
| "handle_command w (Cmd_Preview_Import_Source kind ids) rt =
     Some (responded Resp_Import_Source_Preview (on_db (preview_import_source_command w kind ids) rt))"
| "handle_command w (Cmd_Resolve_Tracking_Id display_id) rt =
     Some (Inr (Resp_Resolved_Tracking_Id (resolve_tracking_id display_id)), rt)"
| "handle_command w (Cmd_Query_Pivot q) rt =
     Some (responded Resp_Pivot (engine_call Engine_Analytics
       (query_pivot (ew_floats w) (ew_libraries w) (ew_duck w) (ew_cells w) (ew_local_date w) max_analytics_source_rows q
         (rt_db rt), rt)))"
| "handle_command w (Cmd_Query_Chart q) rt =
     Some (responded Resp_Chart (engine_call Engine_Analytics
       (query_chart (ew_floats w) (ew_libraries w) (ew_duck w) (ew_cells w) (ew_local_date w) max_analytics_source_rows q
         (rt_db rt), rt)))"

subsection \<open>Start and restore from a file\<close>

record bootstrap_config =
  bc_workspace_id :: string
  bc_workspace_name :: string
  bc_initial_sheet_id :: string
  bc_initial_sheet_name :: string

record bootstrap_state =
  bs_workspace :: workspace_record
  bs_initial_sheet :: sheet_record
  bs_recovery :: job_recovery_summary

text \<open>
  \<open>open_persistent\<close> on the database as it was opened.  The file has a parent directory,
  which is the blob root.
\<close>

definition open_persistent ::
  "(nat \<Rightarrow> env) \<Rightarrow> workspace_engine_config \<Rightarrow> bootstrap_config \<Rightarrow> workspace_db
   \<Rightarrow> (engine_error + runtime \<times> bootstrap_state) \<times> workspace_db" where
  "open_persistent clock config bc db =
     (let (workspace, db1) = create_workspace (clock 0) (bc_workspace_id bc) (bc_workspace_name bc) db
      in and_then_db
           (case list_sheets db1 of
              sheet # _ \<Rightarrow> (Inr sheet, db1)
            | [] \<Rightarrow> engine_call Engine_Store (create_sheet (clock 1) (bc_initial_sheet_id bc)
                      (wr_workspace_id workspace) (bc_initial_sheet_name bc) 0 db1))
           (\<lambda>initial_sheet db2. and_then_db (base_call (recover_interrupted_import_jobs (clock 2)) db2)
             (\<lambda>recovery db3.
               let (_, db4) = recover_interrupted_tracking_rows (clock 3) db3
               in (Inr (\<lparr>rt_config = config, rt_db = db4, rt_expected = None, rt_has_blob_root = True,
                         rt_import_job_sequence = 0\<rparr>,
                        \<lparr>bs_workspace = workspace, bs_initial_sheet = initial_sheet, bs_recovery = recovery\<rparr>), db4))))"

text \<open>The name of a staged document: a nonce of 36 hexadecimal digits and hyphens.\<close>

definition is_ascii_hexdigit :: "char \<Rightarrow> bool" where
  "is_ascii_hexdigit c \<longleftrightarrow> is_ascii_digit c \<or> c \<in> set ''abcdefABCDEF''"

definition staged_nonce :: "string \<Rightarrow> string option" where
  "staged_nonce file_name =
     (if starts_with ''workspace-restore-'' file_name
      then let name = drop (length ''workspace-restore-'') file_name
           in if ends_with ''.json'' name then Some (take (length name - length ''.json'') name) else None
      else None)"

definition valid_staging_name :: "string \<Rightarrow> bool" where
  "valid_staging_name file_name =
     (case staged_nonce file_name of
        None \<Rightarrow> False
      | Some nonce \<Rightarrow> length nonce = 36 \<and> list_all (\<lambda>c. is_ascii_hexdigit c \<or> c = CHR ''-'') nonce)"

definition restore_workspace_file ::
  "('r, 'f) engine_world \<Rightarrow> string \<Rightarrow> runtime \<Rightarrow> (engine_error + sheet_record list) \<times> runtime" where
  "restore_workspace_file w file_name rt =
     (if \<not> (rt_has_blob_root rt \<and> valid_staging_name file_name)
      then (Inl (Engine_Store (Invalid_Value ''restore_file'' ''invalid staging filename'')), rt)
      else case ew_staged w file_name of
        No_Metadata e \<Rightarrow> (Inl (Engine_Io e), rt)
      | Not_A_Regular_File \<Rightarrow> (Inl (Engine_Store (Invalid_Value ''restore_file'' ''not a regular staging file'')), rt)
      | Cannot_Open e \<Rightarrow> (Inl (Engine_Io e), rt)
      | Malformed_Document e \<Rightarrow> (Inl (Engine_Store_Json e), rt)
      | Staged_Document input \<Rightarrow> on_db (restore_workspace_command (ew_clock w 0) input) rt)"

end
