(* ===== verification/EngineFacts.thy ===== *)
theory EngineFacts
  imports WorkspaceEngine TrackingFacts
begin

text \<open>
  What every operation behind a command does to the tables of the store: either it is a
  step of \<open>StoreMachine\<close>, or it writes beside the import tables and keeps the rows well
  formed.  A database is sound when its tables are a reachable state.
\<close>

subsection \<open>Sound databases\<close>

definition db_ok :: "workspace_db \<Rightarrow> bool" where
  "db_ok db \<longleftrightarrow> (\<exists>held. reachable (base db, held))"

lemma db_okI: "reachable (base db, held) \<Longrightarrow> db_ok db"
  by (auto simp: db_ok_def)

lemma db_ok_base: "db_ok db \<Longrightarrow> base db' = base db \<Longrightarrow> db_ok db'"
  by (simp add: db_ok_def)

lemma db_ok_inv: "db_ok db \<Longrightarrow> \<exists>held. store_inv held (base db)"
  using store_inv_reachable by (fastforce simp: db_ok_def)

lemma other_write_refl [simp]: "other_write s s"
  by (simp add: other_write_def)

lemma other_write_trans: "other_write s t \<Longrightarrow> other_write t u \<Longrightarrow> other_write s u"
  by (simp add: other_write_def)

lemma other_write_row_frame: "row_frame s t \<Longrightarrow> other_write s t"
  by (simp add: other_write_def row_frame_def import_tables_def)

lemma other_write_rows:
  assumes "sheets t = sheets s" "jobs t = jobs s" "items t = items s" "attempts t = attempts s"
    and "map (\<lambda>r. (r_id r, r_sheet_id r, r_position r)) (rows t) = map (\<lambda>r. (r_id r, r_sheet_id r, r_position r)) (rows s)"
  shows "other_write s t"
proof -
  have "rows_ok t" if ok: "rows_ok s"
  proof -
    have ids: "map r_id (rows t) = map r_id (rows s)" using arg_cong [OF assms(5), of "map fst"] by (simp add: comp_def)
    have keys: "(\<lambda>r. (r_id r, r_sheet_id r, r_position r)) ` set (rows t) = (\<lambda>r. (r_id r, r_sheet_id r, r_position r)) ` set (rows s)"
      using arg_cong [OF assms(5), of set] by simp
    have origin: "\<exists>r' \<in> set (rows s). r_id r' = r_id r \<and> r_sheet_id r' = r_sheet_id r \<and> r_position r' = r_position r"
      if "r \<in> set (rows t)" for r
    proof -
      have "(r_id r, r_sheet_id r, r_position r) \<in> (\<lambda>r. (r_id r, r_sheet_id r, r_position r)) ` set (rows s)"
        unfolding keys [symmetric] using that by blast
      then show ?thesis by auto
    qed
    have "positions_unique (rows t)"
    proof (rule positions_uniqueI)
      fix a b assume ab: "a \<in> set (rows t)" "b \<in> set (rows t)" "r_sheet_id a = r_sheet_id b" "r_position a = r_position b"
      from origin [OF ab(1)] origin [OF ab(2)] ab(3,4) ok show "r_id a = r_id b"
        unfolding rows_ok_def positions_unique_def by metis
    qed
    moreover have "sheet_exists t (r_sheet_id r)" if "r \<in> set (rows t)" for r
      using origin [OF that] ok assms(1) by (auto simp: rows_ok_def sheet_exists_def)
    ultimately show ?thesis using ok ids by (simp add: rows_ok_def)
  qed
  with assms show ?thesis by (simp add: other_write_def)
qed

lemma db_ok_other: "db_ok db \<Longrightarrow> other_write (base db) (base db') \<Longrightarrow> db_ok db'"
  by (auto simp: db_ok_def dest: Step [OF _ Others])

lemma db_ok_row_frame: "db_ok db \<Longrightarrow> row_frame (base db) (base db') \<Longrightarrow> db_ok db'"
  by (blast intro: db_ok_other other_write_row_frame)

text \<open>The rows of a sheet survive as long as their sheets do.\<close>

lemma other_write_sheets:
  assumes "rows t = rows s" "jobs t = jobs s" "items t = items s" "attempts t = attempts s"
    and "\<And>x. sheet_exists s x \<Longrightarrow> sheet_exists t x"
  shows "other_write s t"
  using assms by (auto simp: other_write_def rows_ok_def)

subsection \<open>Operations on one database\<close>

lemma db_ok_create_workspace: "db_ok db \<Longrightarrow> db_ok (snd (create_workspace env wid name db))"
  by (rule db_ok_base) (simp_all add: create_workspace_def)

lemma db_ok_create_sheet: "db_ok db \<Longrightarrow> db_ok (snd (create_sheet env sid wid name position db))"
  by (rule db_ok_other, assumption)
    (auto simp: create_sheet_def Let_def sheet_exists_def find_by_append intro!: other_write_sheets split: option.splits)

lemma db_ok_rename_sheet: "db_ok db \<Longrightarrow> db_ok (snd (rename_sheet env sid name db))"
  by (rule db_ok_other, assumption)
    (auto simp: rename_sheet_def Let_def sheet_exists_def find_by_update_where intro!: other_write_sheets split: option.splits)

lemma db_ok_on_base:
  assumes "db_ok db" and "\<And>s held. reachable (s, held) \<Longrightarrow> \<exists>held'. reachable (snd (f s), held')"
  shows "db_ok (snd (on_base f db))"
  using assms by (fastforce simp: db_ok_def on_base_def split: prod.splits)

lemma db_ok_row_command: "db_ok db \<Longrightarrow> db_ok (snd (on_base (run_row_command env c) db))"
  by (erule db_ok_on_base) (metis Step Rows prod.collapse)

lemma db_ok_delete_sheet: "db_ok db \<Longrightarrow> db_ok (db\<lparr>base := delete_sheet sid (base db)\<rparr>)"
  by (auto simp: db_ok_def dest: Step [OF _ Delete_Sheet])

lemma db_ok_cancel: "db_ok db \<Longrightarrow> db_ok (snd (on_base (cancel_import_job env jid) db))"
  by (erule db_ok_on_base) (metis Step Cancel prod.collapse)

lemma db_ok_recover: "db_ok db \<Longrightarrow> db_ok (snd (on_base (recover_interrupted_import_jobs env) db))"
  by (erule db_ok_on_base) (metis Step Restart prod.collapse)

lemma db_ok_create_job: "db_ok db \<Longrightarrow> db_ok (db\<lparr>base := snd (create_job env plan (base db))\<rparr>)"
proof -
  assume "db_ok db"
  then obtain held where held: "reachable (base db, held)" by (auto simp: db_ok_def)
  have "reachable (t, held)" if "create_import_job_with_items env job cs (base db) = (r, t)" for job cs r t
    by (rule Step [OF held Create [OF that]])
  then have "reachable (snd (create_job env plan (base db)), held)"
    using held by (auto simp: create_job_def store_call_def Let_def split: sum.splits prod.splits)
  then show ?thesis by (auto intro: db_okI)
qed

lemma db_ok_run_job:
  assumes "db_ok db"
  shows "\<exists>r events s. run_job_with_progress envs src jid (base db) = Some (r, events, s) \<and> db_ok (db\<lparr>base := s\<rparr>)"
proof -
  obtain held where "reachable (base db, held)" using assms by (auto simp: db_ok_def)
  from run_job_returns [OF this, of envs src jid] show ?thesis by (fastforce intro: db_okI)
qed

lemma db_ok_retry_job:
  assumes "db_ok db"
  shows "\<exists>r events s. retry_failed_and_run_with_progress env envs src jid n (base db) = Some (r, events, s)
    \<and> db_ok (db\<lparr>base := s\<rparr>)"
proof -
  obtain held where held: "reachable (base db, held)" using assms by (auto simp: db_ok_def)
  obtain r t where retry: "retry_import_job_failed env jid n (base db) = (r, t)" by fastforce
  have t: "db_ok (db\<lparr>base := t\<rparr>)" using Step [OF held Retry [OF retry]] by (auto intro: db_okI)
  show ?thesis
  proof (cases r)
    case (Inl e)
    with t retry show ?thesis by (simp add: retry_failed_and_run_with_progress_def store_call_def)
  next
    case (Inr v)
    with db_ok_run_job [OF t, of envs src jid] retry show ?thesis
      by (simp add: retry_failed_and_run_with_progress_def store_call_def)
  qed
qed

subsection \<open>The tracking writes\<close>

text \<open>A write that changes cells of rows, but no row's id, sheet or position.\<close>

definition row_place :: "sheet_row \<Rightarrow> string \<times> string \<times> nat" where
  "row_place r = (r_id r, r_sheet_id r, r_position r)"

definition cell_write :: "workspace_db \<Rightarrow> workspace_db \<Rightarrow> bool" where
  "cell_write db db' \<longleftrightarrow> sheets (base db') = sheets (base db) \<and> jobs (base db') = jobs (base db)
     \<and> items (base db') = items (base db) \<and> attempts (base db') = attempts (base db)
     \<and> map row_place (db_rows db') = map row_place (db_rows db)"

lemma cell_write_refl [simp]: "cell_write db db"
  by (simp add: cell_write_def)

lemma cell_write_trans: "cell_write a b \<Longrightarrow> cell_write b c \<Longrightarrow> cell_write a c"
  by (simp add: cell_write_def)

lemma cell_write_base: "base db' = base db \<Longrightarrow> cell_write db db'"
  by (simp add: cell_write_def)

lemma db_ok_cell_write:
  assumes "db_ok db" "cell_write db db'"
  shows "db_ok db'"
proof (rule db_ok_other [OF assms(1) other_write_rows])
  show "map (\<lambda>r. (r_id r, r_sheet_id r, r_position r)) (db_rows db') = map (\<lambda>r. (r_id r, r_sheet_id r, r_position r)) (db_rows db)"
    using assms(2) by (simp add: cell_write_def row_place_def [abs_def])
qed (use assms(2) in \<open>simp_all add: cell_write_def\<close>)

lemma cell_write_drop_cache [simp]: "cell_write db (drop_cache_of sids db')  \<longleftrightarrow> cell_write db db'"
  by (simp add: cell_write_def drop_cache_of_def)

lemma cell_write_invalidate [simp]:
  "cell_write db (invalidate_analytics_cache_for_row rid db') \<longleftrightarrow> cell_write db db'"
  "cell_write db (invalidate_analytics_cache_for_tracking_record tid db') \<longleftrightarrow> cell_write db db'"
  by (simp_all add: invalidate_analytics_cache_for_row_def invalidate_analytics_cache_for_tracking_record_def)

lemma cell_write_map_rows:
  assumes "\<And>r. row_place (f r) = row_place r"
  shows "cell_write db (map_rows (update_where P f) db)"
proof -
  have "map row_place (update_where P f rs) = map row_place rs" for rs
    by (induction rs) (simp_all add: assms)
  then show ?thesis by (simp add: cell_write_def map_rows_def)
qed

lemma cell_write_update_row: "cell_write db (snd (update_row env st message row db))"
  unfolding update_row_def update_sheet_row_status_if_lookup_matches_def Let_def
  by (auto intro!: cell_write_map_rows simp: set_status_def row_place_def)

lemma cell_write_store_failed: "cell_write db (snd (store_failed_tracking_lookup env row message db))"
  using cell_write_update_row [of db env Row_Failed "Some message" row]
  by (simp add: store_failed_tracking_lookup_def Let_def case_prod_beta)

lemma cell_write_attach:
  "cell_write db (snd (upsert_tracking_record_and_attach_if_row_matches env record a l g db))"
proof -
  have "cell_write db db2" if "upsert_record_on env record db = Inr db1" "attach_where env P a db1 = Inr (n, db2)" for db1 db2 n P
  proof -
    have "cell_write db1 db2"
      using that(2) by (auto simp: attach_where_def Let_def row_place_def split: if_splits intro!: cell_write_map_rows)
    with cell_write_base [OF upsert_record_on_base [OF that(1)]] show ?thesis by (rule cell_write_trans)
  qed
  then show ?thesis
    by (auto simp: upsert_tracking_record_and_attach_if_row_matches_def Let_def split: sum.splits if_splits)
qed

lemma cell_write_store_successful: "cell_write db (snd (store_successful_tracking_response host env row response db))"
proof -
  obtain b db1 where blob: "store_raw_response_blob host env response db = (b, db1)" by fastforce
  note same = cell_write_base [OF store_raw_response_blob_rows [OF blob]]
  show ?thesis
    using same cell_write_trans [OF same cell_write_attach]
    by (auto simp: store_successful_tracking_response_def blob split: sum.splits prod.splits) (metis snd_conv)+
qed

lemma cell_write_setup_row: "cell_write (g_db g) (g_db (setup_row env sheet_id raw_id g))"
  using cell_write_update_row [of "g_db g" env Row_Pending None]
  by (auto simp: setup_row_def Let_def split: option.splits prod.splits) (metis snd_conv)+

lemma cell_write_setup_rows: "cell_write (g_db g) (g_db (fold (setup_row env sheet_id) ids g))"
  by (induction ids arbitrary: g) (auto intro: cell_write_trans cell_write_setup_row)

lemma cell_write_activate_rows: "cell_write db (snd (snd (activate_rows env rs db)))"
proof (induction rs arbitrary: db)
  case (Cons row rs)
  show ?case
    using cell_write_trans [OF cell_write_update_row Cons.IH, of db env Row_Loading None row]
    by (simp add: Let_def case_prod_beta)
qed simp

lemma cell_write_activate_groups: "cell_write db (snd (snd (activate_groups env gs db)))"
proof (induction gs arbitrary: db)
  case (Cons g gs)
  show ?case
    using cell_write_trans [OF cell_write_activate_rows Cons.IH, of db env "snd g"]
    by (cases g) (simp add: Let_def case_prod_beta)
qed simp

lemma cell_write_setup_body:
  assumes "refresh_setup_body env expected sheet_id row_ids db = Inr ((g, activated), db1)"
  shows "cell_write db db1" and "g_db g = db1"
proof -
  let ?g = "fold (setup_row env sheet_id) row_ids \<lparr>g_seen = [], g_groups = [], g_targets = [], g_db = db\<rparr>"
  have "cell_write db (g_db ?g)"
    using cell_write_setup_rows [of "\<lparr>g_seen = [], g_groups = [], g_targets = [], g_db = db\<rparr>"] by simp
  then show "cell_write db db1"
    using assms cell_write_trans [OF _ cell_write_activate_groups]
    by (auto simp: refresh_setup_body_def Let_def split: sum.splits prod.splits) (metis snd_conv)
  show "g_db g = db1"
    using assms by (auto simp: refresh_setup_body_def Let_def split: sum.splits prod.splits)
qed

lemma f_db_finish_row [simp]: "f_db (finish_row sc success row f) = f_db f"
  by (simp add: finish_row_def Let_def)

lemma cell_write_store_successes: "cell_write (f_db f) (f_db (store_successes host env sc response rs f))"
proof (induction rs arbitrary: f)
  case (Cons row rs)
  obtain r db1 where "store_successful_tracking_response host env row response (f_db f) = (r, db1)" by fastforce
  with cell_write_store_successful [of "f_db f" host env row response] show ?case
    by (auto split: sum.splits option.splits intro: cell_write_trans [OF _ Cons.IH, simplified])
qed simp

lemma cell_write_store_failures: "cell_write (f_db f) (f_db (store_failures env sc message rs f))"
proof (induction rs arbitrary: f)
  case (Cons row rs)
  obtain r db1 where "store_failed_tracking_lookup env row message (f_db f) = (r, db1)" by fastforce
  with cell_write_store_failed [of "f_db f" env row message] show ?case
    by (auto split: option.splits intro: cell_write_trans [OF _ Cons.IH, simplified])
qed simp

lemma cell_write_activate_next: "cell_write (f_db f) (f_db (activate_next env sc f))"
  using cell_write_activate_rows [of "f_db f" env "snd (f_groups f ! f_next f)"]
  by (simp add: activate_next_def Let_def case_prod_beta)

lemma db_ok_deliver:
  assumes "db_ok (f_db f)" and "\<And>db. db_ok db \<Longrightarrow> db_ok (dl_world d db)"
  shows "db_ok (f_db (deliver host sc d f))"
proof -
  let ?f = "f\<lparr>f_db := dl_world d (f_db f)\<rparr>"
  have start: "db_ok (f_db ?f)" using assms by simp
  have step: "db_ok (f_db g) \<Longrightarrow> cell_write (f_db g) (f_db h) \<Longrightarrow> db_ok (f_db h)" for g h :: refresh_run
    by (rule db_ok_cell_write)
  have stored: "db_ok (f_db (store_successes host env sc response rs (?f\<lparr>f_groups := gs\<rparr>)))"
    "db_ok (f_db (store_failures env sc message rs (?f\<lparr>f_groups := gs\<rparr>)))" for env response message rs gs
    using step [OF _ cell_write_store_successes, of "?f\<lparr>f_groups := gs\<rparr>"]
      step [OF _ cell_write_store_failures, of "?f\<lparr>f_groups := gs\<rparr>"] start by simp_all
  show ?thesis
    using start stored
    by (auto simp: deliver_def Let_def split: option.splits sum.splits intro: step [OF _ cell_write_activate_next])
qed

lemma db_ok_deliveries:
  assumes "db_ok (f_db f)" and "\<And>d db. d \<in> set ds \<Longrightarrow> db_ok db \<Longrightarrow> db_ok (dl_world d db)"
  shows "db_ok (f_db (fold (deliver host sc) ds f))"
  using assms by (induction ds arbitrary: f) (simp_all add: db_ok_deliver)

lemma cell_write_finish_groups: "cell_write (f_db f) (f_db (finish_groups env sc message rs f))"
proof (induction rs arbitrary: f)
  case (Cons row rs)
  obtain r db1 where "store_failed_tracking_lookup env row message (f_db f) = (r, db1)" by fastforce
  with cell_write_store_failed [of "f_db f" env row message] Cons.IH [of f] show ?case
    by (auto split: option.splits intro: cell_write_trans [OF _ Cons.IH, simplified])
qed simp

lemma cell_write_finish_target: "cell_write (f_db f) (f_db (finish_target env sc message k f))"
proof (cases k)
  case (fields row_id lookup g)
  show ?thesis
    using cell_write_store_failed [of "f_db f" env _ message]
    by (auto simp: fields finish_target_def split: option.splits prod.splits) (metis snd_conv)+
qed

lemma cell_write_finish_run: "cell_write (f_db f) (f_db (finish_run host env sc batch_error targets f))"
proof -
  have "cell_write (f_db g) (f_db (fold (finish_target env sc message) ks g))" for message ks g
    by (induction ks arbitrary: g) (auto intro: cell_write_trans cell_write_finish_target)
  then show ?thesis
    unfolding finish_run_def Let_def by (blast intro: cell_write_trans cell_write_finish_groups)
qed

lemma db_ok_refresh_rows:
  assumes "db_ok db" and "\<And>d db. d \<in> set (bo_deliveries batch) \<Longrightarrow> db_ok db \<Longrightarrow> db_ok (dl_world d db)"
    and "\<And>db. db_ok db \<Longrightarrow> db_ok (bo_others batch db)"
  shows "db_ok (snd (snd (refresh_sheet_rows_with_progress host env rq batch db)))"
proof (cases "refresh_setup_body env (rq_expected rq) (rq_sheet_id rq) (requested_row_ids rq db) db")
  case (Inl e)
  with assms(1) show ?thesis by (simp add: refresh_sheet_rows_with_progress_def atomic_write_def)
next
  case (Inr v)
  obtain g activated db1 where v: "v = ((g, activated), db1)" by (cases v) auto
  note prepared = cell_write_setup_body [OF Inr [unfolded v]]
  obtain sc f0 where started: "started_run (rq_run_id rq) (rq_sheet_id rq) (g, activated) = (sc, f0)" by fastforce
  then have "f_db f0 = db1" using prepared(2) by (auto simp: started_run_def Let_def)
  with db_ok_cell_write [OF assms(1) prepared(1)] have "db_ok (f_db f0)" by simp
  then have "db_ok (f_db (fold (deliver host sc) (bo_deliveries batch) f0))" by (rule db_ok_deliveries) (rule assms(2))
  then have "db_ok (bo_others batch (f_db (fold (deliver host sc) (bo_deliveries batch) f0)))" by (rule assms(3))
  then have "db_ok (f_db (finish_run host (bo_env batch) sc (bo_error batch) (g_targets g)
      ((fold (deliver host sc) (bo_deliveries batch) f0)\<lparr>f_db := bo_others batch (f_db (fold (deliver host sc) (bo_deliveries batch) f0))\<rparr>)))"
    using db_ok_cell_write [OF _ cell_write_finish_run] by fastforce
  with Inr v started show ?thesis
    by (simp add: refresh_sheet_rows_with_progress_def atomic_write_def Let_def)
qed

lemma db_ok_refresh_row:
  assumes "db_ok db" and "\<And>db. db_ok db \<Longrightarrow> db_ok (others db)"
  shows "db_ok (snd (refresh_sheet_row host env env' expected others fetch row_id db))"
proof -
  have update: "db_ok db1" if "update_row e st m row db0 = (u, db1)" "db_ok db0" for e st m row db0 u db1
    using db_ok_cell_write [OF that(2) cell_write_update_row, of e st m row] that(1) by simp
  have store: "db_ok db1" if "store_successful_tracking_response host e row response db0 = (u, db1)" "db_ok db0"
    for e row response db0 u db1
    using db_ok_cell_write [OF that(2) cell_write_store_successful, of host e row response] that(1) by simp
  show ?thesis
    using assms
    by (auto simp: refresh_sheet_row_def atomic_write_def Let_def split: sum.splits option.splits prod.splits if_splits
        dest: update store)
qed

subsection \<open>The restore of a document\<close>

lemma db_ok_place_shipment:
  assumes "place_shipment env k row db = Inr db2" and "db_ok db"
  shows "db_ok db2"
proof (cases "re_shipment row")
  case None
  with assms show ?thesis by (simp add: place_shipment_def)
next
  case (Some v)
  with assms(1) have "attach_shipment env k row (resolve_tracking_id (re_display_tracking_id row)) v db = Inr db2"
    by (simp add: place_shipment_def)
  then show ?thesis
  proof (cases rule: attach_shipment_Inr)
    case (1 d st h t)
    let ?db1 = "db\<lparr>records := records db @ [t]\<rparr>"
    have "cell_write ?db1 db2" unfolding 1(8) by (rule cell_write_map_rows) (simp add: row_place_def)
    moreover have "db_ok ?db1" by (rule db_ok_base [OF assms(2)]) simp
    ultimately show ?thesis by (rule db_ok_cell_write [rotated])
  qed
qed

lemma db_ok_restore_rows:
  "restore_rows env sid k ids ps rs db = Inr (k', ids', db') \<Longrightarrow> db_ok db \<Longrightarrow> db_ok db'"
proof (induction rs arbitrary: k ids ps db)
  case (Cons row rs)
  from Cons.prems(1) show ?case
  proof (cases rule: restore_rows_cons)
    case (1 s db2 k2)
    have "row_frame (base db) s" using 1(3) by (auto simp: upsert_sheet_row_on_def intro: row_frame_upsert)
    then have "db_ok (db\<lparr>base := s\<rparr>)" using db_ok_row_frame [OF Cons.prems(2)] by simp
    with 1 Cons.IH show ?thesis by (blast intro: db_ok_place_shipment)
  qed
qed simp

lemma db_ok_upsert_document_sheet:
  assumes "upsert_document_sheet env wid sheet db = Inr db1" and "db_ok db"
  shows "db_ok db1"
  using assms(1)
  by (auto simp: upsert_document_sheet_def sheet_exists_def find_by_append find_by_update_where
      intro!: db_ok_other [OF assms(2)] other_write_sheets split: option.splits if_splits)

lemma db_ok_drop_cache: "db_ok db \<Longrightarrow> db_ok (drop_cache_of sids db)"
  by (erule db_ok_cell_write) simp

lemma db_ok_restore_sheets:
  "restore_sheets env wid seed k sids sps ids ss db = Inr db' \<Longrightarrow> db_ok db \<Longrightarrow> db_ok db'"
proof (induction ss arbitrary: k sids sps ids db)
  case (Cons sheet ss)
  from Cons.prems(1) show ?case
  proof (cases rule: restore_sheets_cons)
    case (skipped db1)
    with Cons show ?thesis by (blast intro: db_ok_upsert_document_sheet)
  next
    case (restored db1 k2 ids2 db2)
    have "db_ok db2"
      using restored(3) db_ok_restore_rows db_ok_upsert_document_sheet [OF restored(2) Cons.prems(2)] by blast
    with restored(4) Cons.IH show ?thesis by (blast intro: db_ok_drop_cache)
  qed
qed simp

lemma db_ok_delete_sheets: "db_ok db \<Longrightarrow> db_ok (db\<lparr>base := fold delete_sheet sids (base db)\<rparr>)"
proof (induction sids arbitrary: db)
  case (Cons sid sids)
  from Cons.IH [OF db_ok_delete_sheet [OF Cons.prems]] show ?case by simp
qed (auto elim: db_ok_base)

lemma db_ok_restore_workspace:
  assumes "db_ok db"
  shows "db_ok (snd (restore_workspace env input db))"
proof (cases "primary_workspace_id db")
  case (Some wid)
  let ?db1 = "if rw_seed_only input then db else delete_sheets_of_workspace wid (db\<lparr>generation := generation db + 1\<rparr>)"
  have next_generation: "db_ok (db\<lparr>generation := generation db + 1\<rparr>)" by (rule db_ok_base [OF assms]) simp
  have "db_ok (delete_sheets_of_workspace wid (db\<lparr>generation := generation db + 1\<rparr>))"
    unfolding delete_sheets_of_workspace_def by (rule db_ok_delete_sheets [OF next_generation])
  with assms have start: "db_ok ?db1" by simp
  have "db_ok (delete_orphan_documents db2)"
    if "restore_sheets env wid (rw_seed_only input) 0 {} {} {} (rw_sheets input) ?db1 = Inr db2" for db2
    by (rule db_ok_base [OF db_ok_restore_sheets [OF that start]]) (simp add: delete_orphan_documents_def)
  then show ?thesis
    using assms Some by (auto simp: restore_workspace_def atomic_write_def Let_def and_then_def split: sum.splits)
qed (use assms in \<open>simp add: restore_workspace_def\<close>)

end
