(* ===== verification/AnalyticsProperties.thy ===== *)
theory AnalyticsProperties
  imports Analytics
begin

text \<open>
  The properties of the pivots: they are computed from every row in their scope and
  return every group or an error, the columns of a pivot are bound one to one, and the
  names that go into the SQL can be read back from it.
\<close>

subsection \<open>The source rows\<close>

definition in_scope :: "sqlite_cells \<Rightarrow> pivot_query \<Rightarrow> workspace_db \<Rightarrow> sheet_row \<Rightarrow> bool" where
  "in_scope c q db r \<longleftrightarrow> r_sheet_id r = pq_sheet_id q \<and>
     (case pq_source_scope q of
        All_Rows \<Rightarrow> True
      | Filtered_Rows \<Rightarrow> list_all (filter_meets c (join_row db r)) (pq_filters q)
          \<and> list_all (value_filter_meets c (join_row db r)) (pq_value_filters q)
      | Selected_Rows \<Rightarrow> r_id r \<noteq> [] \<and> r_id r \<in> trim ` set (pq_selected_row_ids q))"

definition scope_query :: "nat \<Rightarrow> pivot_query \<Rightarrow> sheet_rows_query" where
  "scope_query m q =
     \<lparr>sq_sheet_id = pq_sheet_id q, sq_offset = 0, sq_limit = m,
      sq_filters = (case pq_source_scope q of Filtered_Rows \<Rightarrow> pq_filters q | _ \<Rightarrow> []),
      sq_value_filters = (case pq_source_scope q of Filtered_Rows \<Rightarrow> pq_value_filters q | _ \<Rightarrow> []), sq_sort = []\<rparr>"

lemma window_query_result:
  assumes "query_sheet_rows c q max_limit db = Inr w" and "sq_offset q = 0"
    and "sq_limit q \<le> max_limit" and "length (db_rows db) < 2 ^ 32"
    and "\<not> sw_has_more w" and "sw_total_count w \<le> sq_limit q"
  shows "sw_rows w = query_result c q db" and "sw_total_count w = length (sw_rows w)"
    and "length (sw_rows w) < 4294967296"
proof -
  obtain cs bs where built: "build_sheet_filter (sq_sheet_id q) (sq_filters q) (sq_value_filters q) = Inr (cs, bs)"
    using assms(1) by (auto simp: query_sheet_rows_def clamp_query_window_def and_then_Inr_iff)
  let ?found = "selected_rows c cs bs db"
  have "length ?found \<le> length (db_rows db)"
    using length_filter_le [of _ "map (join_row db) (db_rows db)"] by (simp add: selected_rows_def)
  with assms(4) have small: "length ?found < 4294967296" by simp
  have total: "sw_total_count w = length ?found"
    using assms(1, 2) built small by (auto simp: query_sheet_rows_def clamp_query_window_def Let_def as_u32_def)
  have rows: "sw_rows w = map (project_row db \<circ> fst)
      (take (sq_limit q) (Sorting_Algorithms.sort (row_order c (sq_sort q)) ?found))"
    using assms(1-3) built by (auto simp: query_sheet_rows_def clamp_query_window_def Let_def min_def)
  show "sw_rows w = query_result c q db" and "sw_total_count w = length (sw_rows w)"
    and "length (sw_rows w) < 4294967296"
    using rows total assms(6) small by (simp_all add: query_result_def built)
qed

lemma query_sheet_rows_small:
  assumes "build_sheet_filter (sq_sheet_id q) (sq_filters q) (sq_value_filters q) = Inr (cs, bs)"
    and "length (selected_rows c cs bs db) \<le> sq_limit q" and "sq_limit q \<le> max_limit" and "max_limit \<le> u32_max"
    and "sq_offset q = 0"
  shows "\<exists>w. query_sheet_rows c q max_limit db = Inr w \<and> \<not> sw_has_more w \<and> sw_total_count w \<le> sq_limit q"
  using assms by (simp add: query_sheet_rows_def clamp_query_window_def Let_def as_u32_def)

lemma source_rows_in_scope:
  assumes "query_source_rows c m q db = Inr w" and "length (db_rows db) < 2 ^ 32"
    and plain: "pq_source_scope q = Filtered_Rows \<Longrightarrow> filters_plain (pq_filters q) (pq_value_filters q)"
  shows "mset (sw_rows w) = image_mset (project_row db) (mset (filter (in_scope c q db) (db_rows db)))"
    and "sw_total_count w = length (sw_rows w)"
proof -
  obtain w0 where w0: "query_sheet_rows c (scope_query m q) m db = Inr w0" "\<not> sw_has_more w0" "sw_total_count w0 \<le> m"
    and w: "w = (if pq_source_scope q = Selected_Rows
        then let kept = filter (\<lambda>row. p_row_id row \<in> set (filter (\<lambda>x. x \<noteq> []) (map trim (pq_selected_row_ids q)))) (sw_rows w0)
             in w0\<lparr>sw_rows := kept, sw_total_count := as_u32 (length kept)\<rparr>
        else w0)"
    using assms(1) by (auto simp: query_source_rows_def scope_query_def Let_def split: sum.splits if_splits)
  obtain cs bs where built: "build_sheet_filter (sq_sheet_id (scope_query m q)) (sq_filters (scope_query m q))
      (sq_value_filters (scope_query m q)) = Inr (cs, bs)"
    using w0(1) by (auto simp: query_sheet_rows_def clamp_query_window_def and_then_Inr_iff)
  have found: "sw_rows w0 = query_result c (scope_query m q) db" "sw_total_count w0 = length (sw_rows w0)"
    "length (sw_rows w0) < 4294967296"
    by (rule window_query_result [OF w0(1)]; use w0 assms(2) in \<open>simp add: scope_query_def\<close>)+
  have "filters_plain (sq_filters (scope_query m q)) (sq_value_filters (scope_query m q))"
    using plain by (cases "pq_source_scope q") (simp_all add: scope_query_def filters_plain_def)
  from query_result_meets [OF built this] have all: "mset (sw_rows w0) = image_mset (project_row db)
      (mset (filter (\<lambda>r. r_sheet_id r = pq_sheet_id q
        \<and> list_all (filter_meets c (join_row db r)) (sq_filters (scope_query m q))
        \<and> list_all (value_filter_meets c (join_row db r)) (sq_value_filters (scope_query m q))) (db_rows db)))"
    unfolding found(1) by (simp add: scope_query_def)
  have id: "p_row_id (project_row db r) = r_id r" for r by (simp add: project_row_def Let_def)
  have kept_small: "length (filter P (sw_rows w0)) < 4294967296" for P
    by (rule le_less_trans [OF length_filter_le found(3)])
  show "mset (sw_rows w) = image_mset (project_row db) (mset (filter (in_scope c q db) (db_rows db)))"
  proof (cases "pq_source_scope q")
    case Selected_Rows
    have "mset (sw_rows w) = filter_mset (\<lambda>row. p_row_id row \<noteq> [] \<and> p_row_id row \<in> trim ` set (pq_selected_row_ids q))
        (mset (sw_rows w0))"
      using w Selected_Rows by (auto simp: Let_def mset_filter intro!: filter_mset_cong)
    also have "\<dots> = image_mset (project_row db) (mset (filter (\<lambda>r. r_id r \<noteq> [] \<and> r_id r \<in> trim ` set (pq_selected_row_ids q))
        (filter (\<lambda>r. r_sheet_id r = pq_sheet_id q) (db_rows db))))"
      unfolding all using Selected_Rows
      by (simp add: filter_mset_image_mset id scope_query_def mset_filter [symmetric] del: mset_filter)
    also have "filter (\<lambda>r. r_id r \<noteq> [] \<and> r_id r \<in> trim ` set (pq_selected_row_ids q))
        (filter (\<lambda>r. r_sheet_id r = pq_sheet_id q) (db_rows db)) = filter (in_scope c q db) (db_rows db)"
      unfolding filter_filter by (rule filter_cong) (auto simp: in_scope_def Selected_Rows)
    finally show ?thesis .
  qed (use w all in \<open>simp_all add: in_scope_def scope_query_def\<close>)
  show "sw_total_count w = length (sw_rows w)"
    using w found(2) kept_small by (auto simp: Let_def as_u32_def)
qed

subsection \<open>The groups\<close>

lemma mset_insert_by [simp]: "mset (insert_by cmp x ys) = add_mset x (mset ys)"
  by (induction ys) auto

lemma mset_apply_pivot_sort [simp]: "mset (apply_pivot_sort fl libs sorts groups) = mset groups"
proof -
  have "mset (foldr (insert_by cmp) groups []) = mset groups" for cmp :: "'a pivot_row \<Rightarrow> 'a pivot_row \<Rightarrow> comp"
    by (induction groups) auto
  then show ?thesis by (simp add: apply_pivot_sort_def)
qed

lemma length_apply_pivot_sort [simp]: "length (apply_pivot_sort fl libs sorts groups) = length groups"
  by (metis mset_apply_pivot_sort size_mset)

lemma query_pivot_Inr:
  assumes "query_pivot fl libs duck c date m q db = Inr res"
  obtains window today groups where "query_source_rows c m q db = Inr window"
    and "parse_year_month_day libs date = Some today"
    and "query_duckdb_pivot_rows fl duck (pivot_script fl libs (sw_rows window) q today) q = Inr groups"
    and "pv_rows res = apply_pivot_sort fl libs (pq_sort q) groups" and "length groups \<le> pq_limit q"
    and "pv_source_row_count res = as_u32 (length (sw_rows window))"
proof -
  obtain window today where window: "query_source_rows c m q db = Inr window"
    and today: "parse_year_month_day libs date = Some today"
    and run: "query_pivot_from_rows_on_date fl libs duck (sw_rows window) q today = Inr res"
    using assms by (auto simp: query_pivot_def and_then_Inr_iff split: option.splits)
  then obtain groups where "query_duckdb_pivot_rows fl duck (pivot_script fl libs (sw_rows window) q today) q = Inr groups"
    by (auto simp: query_pivot_from_rows_on_date_def split: sum.splits)
  with run window today show thesis
    by (intro that [of window today groups])
       (auto simp: query_pivot_from_rows_on_date_def Let_def split: if_splits)
qed

subsection \<open>Sample data\<close>

text \<open>A stand-in for \<open>f64\<close> by rationals scaled to integers, and an engine that answers one group.\<close>

definition whole_floats :: "int floats" where
  "whole_floats = \<lparr>fl_of_int = (\<lambda>i. i), fl_parse = (\<lambda>_. None), fl_div = (div), fl_mul = (*),
     fl_partial_cmp = (\<lambda>x y. Some (if x < y then Less else if x > y then Greater else Equiv)),
     fl_whole = (\<lambda>_. True), fl_to_int = (\<lambda>i. i), fl_text = show_int, fl_json = JInt\<rparr>"

definition sample_libraries :: analytics_libraries where
  "sample_libraries = \<lparr>julian_day = (\<lambda>y m d. Some (366 * y + 31 * int m + int d)), json_text = (\<lambda>_. ''{}'')\<rparr>"

definition counting_engine :: "int duck_engine" where
  "counting_engine script = Inr [[Duck_Int (int (length (ds_rows script)))]]"

definition count_query :: pivot_query where
  "count_query = \<lparr>pq_sheet_id = ''A'', pq_source_scope = Selected_Rows, pq_filters = [], pq_value_filters = [],
     pq_selected_row_ids = ['' b '', ''z''], pq_row_fields = [], pq_column_fields = [], pq_values = [], pq_sort = [], pq_limit = 5\<rparr>"


definition count_run :: "analytics_error + int pivot_result" where
  "count_run = query_pivot whole_floats sample_libraries counting_engine sample_cells ''2024-05-06'' 10 count_query tracking_db"

lemma count_run_Inr: "\<exists>res. count_run = Inr res"
proof -
  have engine: "\<exists>res. query_pivot_from_rows_on_date whole_floats sample_libraries counting_engine source count_query today = Inr res"
    for source today
    by (simp add: query_pivot_from_rows_on_date_def query_duckdb_pivot_rows_def counting_engine_def read_pivot_row_def
        read_texts_def get_cell_def read_metrics_def count_query_def Let_def)
  have "build_sheet_filter ''A'' [] [] = Inr ([Sheet_Is 1], [''A''])"
    by (simp add: build_sheet_filter_def)
  moreover have "length (selected_rows sample_cells [Sheet_Is 1] [''A''] tracking_db) \<le> 10"
    by (rule order_trans [of _ "length (map (join_row tracking_db) (db_rows tracking_db))"],
        simp only: selected_rows_def length_filter_le) (simp add: tracking_db_rows)
  ultimately have "\<exists>w. query_sheet_rows sample_cells (scope_query 10 count_query) 10 tracking_db = Inr w
      \<and> \<not> sw_has_more w \<and> sw_total_count w \<le> sq_limit (scope_query 10 count_query)"
    by (intro query_sheet_rows_small) (simp_all add: scope_query_def count_query_def)
  then obtain w where "query_sheet_rows sample_cells (scope_query 10 count_query) 10 tracking_db = Inr w"
    "\<not> sw_has_more w" "sw_total_count w \<le> sq_limit (scope_query 10 count_query)"
    by blast
  then have "\<exists>w. query_source_rows sample_cells 10 count_query tracking_db = Inr w"
    by (simp only: query_source_rows_def scope_query_def [symmetric] Let_def) (simp add: scope_query_def)
  moreover have "\<exists>today. parse_year_month_day sample_libraries ''2024-05-06'' = Some today"
  proof -
    have "trim ''2024-05-06'' = ''2024-05-06''" by code_simp
    then show ?thesis
      by (simp add: parse_year_month_day_def str_get_def is_char_boundary_def continuation_byte_def parse_int_def
          parse_uint_def is_ascii_digit_def digits_val_def sample_libraries_def)
  qed
  ultimately show ?thesis
    using engine by (auto simp: count_run_def query_pivot_def)
qed


subsection \<open>Names in the SQL\<close>

text \<open>How SQL reads a quoted identifier, from behind its opening quote: a doubled quote is a quote.\<close>

fun read_quoted :: "string \<Rightarrow> (string \<times> string) option" where
  "read_quoted [] = None"
| "read_quoted [ch] = (if ch = dq then Some ([], []) else None)"
| "read_quoted (ch # d # s) =
     (if ch \<noteq> dq then map_option (\<lambda>(w, r). (ch # w, r)) (read_quoted (d # s))
      else if d = dq then map_option (\<lambda>(w, r). (dq # w, r)) (read_quoted s)
      else Some ([], d # s))"

definition read_identifier :: "string \<Rightarrow> (string \<times> string) option" where
  "read_identifier s = (case s of [] \<Rightarrow> None | ch # t \<Rightarrow> if ch = dq then read_quoted t else None)"

lemma read_quoted_Cons:
  "ch \<noteq> dq \<Longrightarrow> s \<noteq> [] \<Longrightarrow> read_quoted (ch # s) = map_option (\<lambda>(w, r). (ch # w, r)) (read_quoted s)"
  by (cases s) auto

lemma read_identifier_quote:
  assumes "rest = [] \<or> hd rest \<noteq> dq"
  shows "read_identifier (quote_identifier v @ rest) = Some (v, rest)"
proof -
  have "read_quoted (concat (map (\<lambda>ch. if ch = dq then [dq, dq] else [ch]) v) @ dq # rest) = Some (v, rest)"
  proof (induction v)
    case Nil
    with assms show ?case by (cases rest) auto
  next
    case (Cons ch v)
    then show ?case by (cases "ch = dq") (auto simp: read_quoted_Cons)
  qed
  then show ?thesis by (simp add: read_identifier_def quote_identifier_def)
qed

lemma column_names_differ:
  assumes "show_nat m @ CHR ''_'' # a = show_nat n @ CHR ''_'' # b"
  shows "m = n \<and> a = b"
proof -
  have "takeWhile (\<lambda>x. x \<noteq> CHR ''_'') (show_nat k @ CHR ''_'' # c) = show_nat k" for k c
    by (subst takeWhile_append2) (auto dest: show_nat_digits simp: is_ascii_digit_def)
  with assms have "show_nat m = show_nat n" by metis
  with assms show ?thesis by simp
qed

lemma distinct_concat_upt:
  assumes "\<And>i. distinct (g i)" and "\<And>i j a. i < j \<Longrightarrow> a \<in> set (g i) \<Longrightarrow> a \<notin> set (g j)"
  shows "distinct (concat (map g [0..<n]))"
proof (induction n)
  case (Suc n)
  have "set (concat (map g [0..<n])) \<inter> set (g n) = {}" using assms(2) by auto
  with Suc assms(1) show ?case by simp
qed simp

lemma fold_bind_field:
  assumes "\<And>i. i < length bs \<Longrightarrow> bs ! i = field_binding_of i (fb_path (bs ! i))"
    and "distinct (map fb_path bs)" and "[] \<notin> set (map fb_path bs)"
  shows "(\<forall>i < length (fold bind_field paths bs).
            fold bind_field paths bs ! i = field_binding_of i (fb_path (fold bind_field paths bs ! i)))
     \<and> distinct (map fb_path (fold bind_field paths bs))
     \<and> set (map fb_path (fold bind_field paths bs)) = set (map fb_path bs) \<union> (trim ` set paths - {[]})"
  using assms
proof (induction paths arbitrary: bs)
  case (Cons path paths)
  let ?bs = "bind_field path bs"
  have "\<And>i. i < length ?bs \<Longrightarrow> ?bs ! i = field_binding_of i (fb_path (?bs ! i))"
    using Cons.prems(1) by (auto simp: bind_field_def Let_def nth_append field_binding_of_def less_Suc_eq)
  moreover have "distinct (map fb_path ?bs)" "[] \<notin> set (map fb_path ?bs)"
    "set (map fb_path ?bs) = set (map fb_path bs) \<union> (if trim path = [] then {} else {trim path})"
    using Cons.prems(2, 3) by (auto simp: bind_field_def Let_def field_binding_of_def)
  ultimately show ?case using Cons.IH [of ?bs] by auto
qed auto


subsection \<open>Where the pivots fall short\<close>

text \<open>
  A field with whitespace around it is bound under its trimmed name but looked up under
  the given one, so its column is left out of the \<open>SELECT\<close> while its value is still read.
\<close>

lemma padded_field_unbound:
  assumes "trim path \<noteq> path"
  shows "binding_for (create_field_bindings q) path = None"
proof -
  have "set (map fb_path (create_field_bindings q))
      = trim ` set (pq_row_fields q @ pq_column_fields q @ map av_field (pq_values q)) - {[]}"
    using fold_bind_field [of "[]" "pq_row_fields q @ pq_column_fields q @ map av_field (pq_values q)"]
    by (simp add: create_field_bindings_def)
  moreover have "path \<notin> trim ` A" for A using assms by (metis imageE trim_trim)
  ultimately have "path \<notin> set (map fb_path (create_field_bindings q))" by simp
  then show ?thesis by (auto simp: binding_for_def find_by_None_iff)
qed

lemma padded_field_fails:
  assumes "pq_row_fields q = [path]" and "pq_column_fields q = []" and "pq_values q = []" and "trim path \<noteq> path"
  shows "select_sql (create_field_bindings q) q = ''SELECT count(*) AS __row_count FROM shipflow_rows''"
    and "read_pivot_row fl q [Duck_Int n] = Inl (Invalid_Column_Type 0)"
  using padded_field_unbound [OF assms(4), of q] assms
  by (simp_all add: select_sql_def Let_def List.map_filter_def read_pivot_row_def read_texts_def get_cell_def)

text \<open>SQL's \<open>sum\<close> over no rows is \<open>NULL\<close>, which is not an \<open>i64\<close>: counting an empty sheet without groups fails.\<close>

lemma count_of_no_rows_fails:
  "read_pivot_row fl (count_query\<lparr>pq_values := [\<lparr>av_field = f, av_aggregation = Agg_Count\<rparr>]\<rparr>) [Duck_Int 0, Duck_Null]
   = Inl (Invalid_Column_Type 1)"
  by (simp add: read_pivot_row_def read_texts_def get_cell_def read_metrics_def metric_value_def count_query_def)

text \<open>
  An entry without a bag id ends the search for the last bag, while the column of the
  sheet (\<open>latest_bagging_status_filter_sql\<close>) passes over such entries.
\<close>

lemma bag_status_stops_at_nameless_entry:
  "latest_bag_status_text (JObj [(''history_summary'', JObj [(''bagging_unbagging'',
     JArr [JObj [(''nomor_kantung'', JStr ''K1''), (''bagging'', JObj [])], JObj [(''bagging'', JObj [])]])])]) = None"
  by (simp add: latest_bag_status_text_def summary_entries_def)

end
