(* ===== verification/EngineProperties.thy ===== *)
theory EngineProperties
  imports EngineFacts AnalyticsProperties
begin

text \<open>
  What the commands of the engine promise: every command returns and leaves a sound
  database, queries and failed edits leave the database as it was, a start leaves
  nothing running or waiting, and a name that passes the check of a staged document
  stays in the staging directory.
\<close>

subsection \<open>Every action keeps the database sound\<close>

definition keeps :: "'a db_action \<Rightarrow> bool" where
  "keeps f \<longleftrightarrow> (\<forall>db. db_ok db \<longrightarrow> db_ok (snd (f db)))"

lemma keepsD: "keeps f \<Longrightarrow> db_ok db \<Longrightarrow> db_ok (snd (f db))"
  by (simp add: keeps_def)

lemma keeps_and_then: "keeps f \<Longrightarrow> (\<And>v. keeps (g v)) \<Longrightarrow> keeps (\<lambda>db. and_then_db (f db) (\<lambda>v db. g v db))"
  unfolding keeps_def and_then_db_def by (fastforce split: prod.splits sum.splits)

lemma snd_engine_call [simp]: "snd (engine_call f r) = snd r"
  by (simp add: engine_call_def case_prod_beta)

lemma keeps_engine_call: "(\<And>db. db_ok db \<Longrightarrow> db_ok (snd (f db))) \<Longrightarrow> keeps (\<lambda>db. engine_call e (f db))"
  by (simp add: keeps_def engine_call_def case_prod_beta)

lemma keeps_base_call: "(\<And>db. db_ok db \<Longrightarrow> db_ok (snd (on_base f db))) \<Longrightarrow> keeps (base_call f)"
  by (simp add: keeps_def base_call_def engine_call_def case_prod_beta)

lemma keeps_pure [simp]: "keeps (\<lambda>db. (r db, db))"
  by (simp add: keeps_def)

lemma keeps_store_query [simp]: "keeps (store_query f)"
  by (simp add: keeps_def store_query_def)

lemma keeps_window [simp]: "keeps (query_first_sheet_row_window c sid)"
  by (simp add: query_first_sheet_row_window_def)

lemma keeps_row_command: "run_row_command env c = f \<Longrightarrow> keeps (base_call f)"
  by (rule keeps_base_call) (use db_ok_row_command in blast)

lemma keeps_rows [simp]:
  "keeps (base_call (clear_sheet_rows sid))"
  "keeps (base_call (delete_sheet_rows env sid ids))"
  "keeps (base_call (transfer_sheet_rows env input))"
  "keeps (base_call (copy_sheet_rows env src tgt))"
  "keeps (base_call (append_sheet_rows_atomic env sid inputs))"
  "keeps (base_call (edit_sheet_rows_atomic env sid inputs replace_existing))"
  by (rule keeps_row_command [where c = "Clear_Rows sid"] keeps_row_command [where c = "Delete_Rows sid ids"]
        keeps_row_command [where c = "Transfer_Rows input"] keeps_row_command [where c = "Copy_Rows src tgt"]
        keeps_row_command [where c = "Append_Rows sid inputs"]
        keeps_row_command [where c = "Upsert_Rows sid inputs replace_existing True"],
      simp add: edit_sheet_rows_atomic_def)+

lemma keeps_ensure [simp]: "keeps (ensure_sheet_exists env sid)"
proof -
  have "keeps (\<lambda>db. and_then_db (engine_call Engine_Store (create_sheet env sid wid sid 0 db)) (\<lambda>_ db. (Inr (), db)))" for wid
    by (intro keeps_and_then keeps_engine_call db_ok_create_sheet keeps_pure)
  then show ?thesis by (auto simp: keeps_def ensure_sheet_exists_def split: sum.splits)
qed

lemma keeps_clear: "keeps (clear_sheet_rows_command w sid)"
  unfolding clear_sheet_rows_command_def by (intro keeps_and_then) simp_all

lemma keeps_delete_rows: "keeps (delete_sheet_rows_command w sid ids)"
  unfolding delete_sheet_rows_command_def by (intro keeps_and_then) simp_all

lemma keeps_transfer: "keeps (transfer_sheet_rows_command w request)"
  unfolding transfer_sheet_rows_command_def by (intro keeps_and_then) simp_all

lemma keeps_copy: "keeps (copy_sheet_rows_command w src tgt)"
  unfolding copy_sheet_rows_command_def by (intro keeps_and_then) simp_all

lemma keeps_upsert: "keeps (upsert_sheet_rows_command w request)"
  unfolding upsert_sheet_rows_command_def
  by (cases "us_append_at_end request"; cases "us_replace_existing request") (auto intro!: keeps_and_then)

lemma keeps_create_sheet: "keeps (create_sheet_command env request)"
  by (auto simp: keeps_def create_sheet_command_def Let_def db_ok_create_sheet split: sum.splits)

lemma keeps_rename_sheet: "keeps (rename_sheet_command env sid name)"
  by (auto simp: keeps_def rename_sheet_command_def Let_def db_ok_rename_sheet)

lemma keeps_delete_sheet: "keeps (delete_sheet_command sid)"
  unfolding delete_sheet_command_def
  by (intro keeps_and_then keeps_base_call keeps_pure) (simp add: on_base_def db_ok_delete_sheet)

lemma keeps_restore: "keeps (restore_workspace_command env request)"
  unfolding restore_workspace_command_def
  by (intro keeps_and_then keeps_engine_call db_ok_restore_workspace keeps_pure)

lemma keeps_get_job: "keeps (get_import_job_command jid)"
  by (simp add: keeps_def get_import_job_command_def)

lemma keeps_cancel: "keeps (cancel_import_job_command env jid)"
  unfolding cancel_import_job_command_def
  by (intro keeps_and_then keeps_base_call db_ok_cancel keeps_get_job)

lemma keeps_preview: "keeps (preview_import_source_command w kind ids)"
  by (simp add: keeps_def preview_import_source_command_def engine_call_def)

subsection \<open>Every command returns\<close>

text \<open>What other connections write keeps the database sound too.\<close>

definition world_ok :: "('r, 'f) engine_world \<Rightarrow> bool" where
  "world_ok w \<longleftrightarrow> (\<forall>db. db_ok db \<longrightarrow> db_ok (ew_others w db)
     \<and> (\<forall>force. db_ok (bo_others (ew_batch w force) db)
          \<and> (\<forall>d \<in> set (bo_deliveries (ew_batch w force)). db_ok (dl_world d db))))"

definition answers :: "((engine_error + 'f workspace_response) \<times> runtime) option \<Rightarrow> bool" where
  "answers r \<longleftrightarrow> (\<exists>v rt. r = Some (v, rt) \<and> db_ok (rt_db rt))"

lemma answers_Some [simp]: "answers (Some r) \<longleftrightarrow> db_ok (rt_db (snd r))"
  by (cases r) (simp add: answers_def)

lemma snd_responded [simp]: "snd (responded f r) = snd r"
  by (simp add: responded_def case_prod_beta)

lemma db_ok_on_db: "keeps f \<Longrightarrow> db_ok (rt_db rt) \<Longrightarrow> db_ok (rt_db (snd (on_db f rt)))"
  by (simp add: on_db_def case_prod_beta Let_def keepsD)

lemma db_ok_create_import_job:
  assumes "db_ok (rt_db rt)"
  shows "db_ok (rt_db (snd (create_import_job_command w request rt)))"
proof -
  obtain r rt1 where ensured: "on_db (ensure_sheet_exists (ew_clock w 0) (cr_sheet_id request)) rt = (r, rt1)" by fastforce
  with db_ok_on_db [OF keeps_ensure assms] have "db_ok (rt_db rt1)" by (metis snd_conv)
  with ensured show ?thesis
    by (auto simp: create_import_job_command_def next_import_job_id_def Let_def case_prod_beta split: sum.split
        intro: db_ok_create_job)
qed

lemma answers_run:
  assumes "db_ok (rt_db rt)"
  shows "answers (handle_command w (Cmd_Run_Import_Job job_id) rt)"
proof -
  from db_ok_run_job [OF assms] obtain r events s where
    "run_job_with_progress (ew_clock w) (import_source_of w rt) job_id (base (rt_db rt)) = Some (r, events, s)"
    "db_ok ((rt_db rt)\<lparr>base := s\<rparr>)" by blast
  then show ?thesis by (simp add: run_import_job_with_progress_def finished_import_def without_events_def)
qed

lemma answers_retry:
  assumes "db_ok (rt_db rt)"
  shows "answers (handle_command w (Cmd_Retry_Import_Job_Failed job_id) rt)"
proof -
  from db_ok_retry_job [OF assms] obtain r events s where
    "retry_failed_and_run_with_progress (ew_clock w 0) (\<lambda>k. ew_clock w (Suc k)) (import_source_of w rt) job_id
       (rp_max_attempts (wc_retry_policy (rt_config rt))) (base (rt_db rt)) = Some (r, events, s)"
    "db_ok ((rt_db rt)\<lparr>base := s\<rparr>)" by blast
  then show ?thesis by (simp add: retry_import_job_failed_with_progress_def finished_import_def without_events_def)
qed

lemma command_answers:
  assumes "db_ok (rt_db rt)" and "world_ok w"
  shows "answers (handle_command w command rt)"
proof (cases command)
  case (Cmd_Refresh_Sheet_Row_Tracking row_id force)
  with assms show ?thesis
    by (simp add: refresh_sheet_row_tracking_def Let_def case_prod_beta world_ok_def db_ok_refresh_row)
next
  case (Cmd_Refresh_Sheet_Rows_Tracking request)
  with assms show ?thesis
    by (simp add: refresh_sheet_rows_tracking_with_progress_def without_events_def Let_def case_prod_beta world_ok_def
        db_ok_refresh_rows)
next
  case (Cmd_Run_Import_Job job_id)
  show ?thesis unfolding Cmd_Run_Import_Job by (rule answers_run [OF assms(1)])
next
  case (Cmd_Retry_Import_Job_Failed job_id)
  show ?thesis unfolding Cmd_Retry_Import_Job_Failed by (rule answers_retry [OF assms(1)])
qed (simp_all add: assms db_ok_create_import_job db_ok_on_db keeps_clear keeps_delete_rows keeps_transfer keeps_copy
    keeps_upsert keeps_create_sheet keeps_rename_sheet keeps_delete_sheet keeps_restore keeps_get_job keeps_cancel
    keeps_preview)


subsection \<open>A start\<close>

lemma recover_leaves_nothing_running:
  assumes "import_inv held s"
  shows "\<exists>summary t. recover_interrupted_import_jobs env s = (Inr summary, t)
    \<and> (\<forall>i \<in> set (items t). i_status i \<noteq> Item_Running) \<and> (\<forall>a \<in> set (attempts t). a_status a \<noteq> Attempt_Running)
    \<and> rows t = rows s \<and> sheets t = sheets s"
proof -
  from recover_total [OF assms] obtain t where t: "recover_interrupted_import_jobs env s = (Inr (recovery_summary s), t)"
    "items t = items (recovery_store env s)" "attempts t = attempts (recovery_store env s)"
    "rows t = rows s" "sheets t = sheets s" by blast
  have "a_finished_at a = None" if "a \<in> set (attempts s)" "a_status a = Attempt_Running" for a
    using attempts_ok_finished [of held s, OF _ that(1)] that(2) assms by (simp add: import_inv_def)
  then have "\<forall>a \<in> set (attempts t). a_status a \<noteq> Attempt_Running"
    by (auto simp: t recovery_store_def in_update_where)
  moreover have "\<forall>i \<in> set (items t). i_status i \<noteq> Item_Running"
    by (auto simp: t recovery_store_def in_update_where)
  ultimately show ?thesis using t by blast
qed

lemma initial_sheet_listed:
  assumes "create_workspace env wid name db = (workspace, db1)"
  shows "\<exists>sheet db2. (case list_sheets db1 of
        sheet # _ \<Rightarrow> (Inr sheet, db1)
      | [] \<Rightarrow> engine_call Engine_Store (create_sheet env' sid (wr_workspace_id workspace) sheet_name 0 db1)) = (Inr sheet, db2)
    \<and> (\<exists>others. list_sheets db2 = sheet # others) \<and> db_rows db2 = db_rows db"
proof (cases "list_sheets db1")
  case (Cons sheet others)
  with assms show ?thesis by (auto simp: create_workspace_def)
next
  case Nil
  then have none: "sheets (base db1) = []" by (auto simp: list_sheets_def dest: arg_cong [of _ _ length])
  have known: "find_by w_id (wr_workspace_id workspace) (workspaces db1) \<noteq> None"
    using assms by (auto simp: create_workspace_def find_by_append find_by_update_where split: if_splits)
  from assms have "db_rows db1 = db_rows db" by (auto simp: create_workspace_def)
  with none known show ?thesis
    by (auto simp: Nil create_sheet_def Let_def find_by_def get_sheet_def list_sheets_def engine_call_def)
qed

lemma open_persistent_recovers:
  assumes "db_ok db"
  shows "\<exists>rt st. open_persistent clock config bc db = (Inr (rt, st), rt_db rt) \<and> db_ok (rt_db rt)
    \<and> (\<forall>r \<in> set (db_rows (rt_db rt)). r_status r \<noteq> Row_Pending \<and> r_status r \<noteq> Row_Loading)
    \<and> (\<forall>i \<in> set (items (base (rt_db rt))). i_status i \<noteq> Item_Running)
    \<and> (\<forall>a \<in> set (attempts (base (rt_db rt))). a_status a \<noteq> Attempt_Running)
    \<and> map row_place (db_rows (rt_db rt)) = map row_place (db_rows db)
    \<and> (\<forall>r \<in> set (db_rows db). r_status r \<noteq> Row_Pending \<and> r_status r \<noteq> Row_Loading \<longrightarrow> r \<in> set (db_rows (rt_db rt)))
    \<and> (\<exists>others. list_sheets (rt_db rt) = bs_initial_sheet st # others)"
proof -
  obtain workspace db1 where ws: "create_workspace (clock 0) (bc_workspace_id bc) (bc_workspace_name bc) db = (workspace, db1)"
    by fastforce
  have ok1: "db_ok db1" using db_ok_create_workspace [OF assms] ws by (metis snd_conv)
  from initial_sheet_listed [OF ws, of "clock 1" "bc_initial_sheet_id bc" "bc_initial_sheet_name bc"]
  obtain sheet db2 others where first: "(case list_sheets db1 of sheet # _ \<Rightarrow> (Inr sheet, db1)
      | [] \<Rightarrow> engine_call Engine_Store (create_sheet (clock 1) (bc_initial_sheet_id bc) (wr_workspace_id workspace)
               (bc_initial_sheet_name bc) 0 db1)) = (Inr sheet, db2)"
    and listed: "list_sheets db2 = sheet # others" and rows2: "db_rows db2 = db_rows db" by blast
  have ok2: "db_ok db2"
  proof (cases "list_sheets db1")
    case Nil
    with first have "db2 = snd (create_sheet (clock 1) (bc_initial_sheet_id bc) (wr_workspace_id workspace) (bc_initial_sheet_name bc) 0 db1)"
      by (metis list.simps(4) snd_conv snd_engine_call)
    then show ?thesis using db_ok_create_sheet [OF ok1] by simp
  qed (use ok1 first in simp)
  obtain held where "import_inv held (base db2)" using db_ok_inv [OF ok2] by (auto simp: store_inv_def)
  from recover_leaves_nothing_running [OF this, of "clock 2"] obtain summary t where
    recovered: "recover_interrupted_import_jobs (clock 2) (base db2) = (Inr summary, t)"
    and quiet: "\<forall>i \<in> set (items t). i_status i \<noteq> Item_Running" "\<forall>a \<in> set (attempts t). a_status a \<noteq> Attempt_Running"
    and same: "rows t = rows (base db2)" "sheets t = sheets (base db2)" by blast
  let ?db3 = "db2\<lparr>base := t\<rparr>"
  define db4 where "db4 = snd (recover_interrupted_tracking_rows (clock 3) ?db3)"
  have ok3: "db_ok ?db3" using db_ok_recover [OF ok2, of "clock 2"] by (simp add: on_base_def recovered)
  have written: "cell_write ?db3 db4"
    unfolding db4_def recover_interrupted_tracking_rows_def Let_def snd_conv by (rule cell_write_map_rows) (simp add: row_place_def)
  let ?rt = "\<lparr>rt_config = config, rt_db = db4, rt_expected = None, rt_has_blob_root = True, rt_import_job_sequence = 0\<rparr>"
  let ?st = "\<lparr>bs_workspace = workspace, bs_initial_sheet = sheet, bs_recovery = summary\<rparr>"
  have run: "open_persistent clock config bc db = (Inr (?rt, ?st), db4)"
    unfolding open_persistent_def ws Let_def prod.case first
    by (simp add: and_then_db_def base_call_def on_base_def recovered engine_call_def case_prod_beta db4_def)
  have waiting: "\<forall>r \<in> set (db_rows db4). r_status r \<noteq> Row_Pending \<and> r_status r \<noteq> Row_Loading"
    by (auto simp: db4_def recover_interrupted_tracking_rows_def Let_def map_rows_def in_update_where)
  have kept: "\<forall>r \<in> set (db_rows db). r_status r \<noteq> Row_Pending \<and> r_status r \<noteq> Row_Loading \<longrightarrow> r \<in> set (db_rows db4)"
    using same(1) rows2 by (auto simp: db4_def recover_interrupted_tracking_rows_def Let_def map_rows_def in_update_where)
  have sheets4: "list_sheets db4 = sheet # others" using listed written same(2) by (simp add: list_sheets_def cell_write_def)
  have quiet4: "\<forall>i \<in> set (items (base db4)). i_status i \<noteq> Item_Running"
    "\<forall>a \<in> set (attempts (base db4)). a_status a \<noteq> Attempt_Running"
    using quiet written by (simp_all add: cell_write_def)
  have places: "map row_place (db_rows db4) = map row_place (db_rows db)"
    using written same(1) rows2 by (simp add: cell_write_def)
  have "db_ok db4" by (rule db_ok_cell_write [OF ok3 written])
  with waiting kept sheets4 quiet4 places run show ?thesis
    by (intro exI [of _ ?rt] exI [of _ ?st], unfold runtime.simps bootstrap_state.simps) blast
qed

text \<open>
  \<open>C20.\<close> Opening a sound database always succeeds, whatever an earlier process left in
  it: afterwards no row waits for a lookup, no import item and no attempt is running,
  every row is still in its place and the rows that were not waiting are untouched, and
  the sheet reported as the initial one is the first sheet of the workspace.
\<close>

theorem start_leaves_nothing_interrupted:
  assumes "db_ok db"
  shows "\<exists>rt st. open_persistent clock config bc db = (Inr (rt, st), rt_db rt) \<and> db_ok (rt_db rt)
    \<and> (\<forall>r \<in> set (db_rows (rt_db rt)). r_status r \<noteq> Row_Pending \<and> r_status r \<noteq> Row_Loading)
    \<and> (\<forall>i \<in> set (items (base (rt_db rt))). i_status i \<noteq> Item_Running)
    \<and> (\<forall>a \<in> set (attempts (base (rt_db rt))). a_status a \<noteq> Attempt_Running)
    \<and> map row_place (db_rows (rt_db rt)) = map row_place (db_rows db)
    \<and> (\<forall>r \<in> set (db_rows db). r_status r \<noteq> Row_Pending \<and> r_status r \<noteq> Row_Loading \<longrightarrow> r \<in> set (db_rows (rt_db rt)))
    \<and> (\<exists>others. list_sheets (rt_db rt) = bs_initial_sheet st # others)"
  by (rule open_persistent_recovers [OF assms])

subsection \<open>A refused command\<close>

text \<open>What a command that only adds an empty sheet leaves alone.\<close>

definition only_sheets_added :: "workspace_db \<Rightarrow> workspace_db \<Rightarrow> bool" where
  "only_sheets_added db db' \<longleftrightarrow>
     (\<exists>added. db' = db\<lparr>base := (base db)\<lparr>sheets := sheets (base db) @ added\<rparr>\<rparr>)"

lemma only_sheets_added_refl [simp]: "only_sheets_added db db"
  by (auto simp: only_sheets_added_def intro: exI [of _ "[]"])

lemma only_sheets_added_trans: "only_sheets_added a b \<Longrightarrow> only_sheets_added b c \<Longrightarrow> only_sheets_added a c"
  unfolding only_sheets_added_def by force

lemma ensure_only_adds: "only_sheets_added db (snd (ensure_sheet_exists env sid db))"
  by (auto simp: ensure_sheet_exists_def and_then_db_def engine_call_def create_sheet_def Let_def only_sheets_added_def
      split: sum.splits option.splits if_splits intro: exI [of _ "[]"])

text \<open>An action that, when it fails, has at most added sheets.\<close>

definition refuses :: "'a db_action \<Rightarrow> bool" where
  "refuses f \<longleftrightarrow> (\<forall>db e db'. f db = (Inl e, db') \<longrightarrow> only_sheets_added db db')"

lemma refuses_ensure: "refuses g \<Longrightarrow> refuses (\<lambda>db. and_then_db (ensure_sheet_exists env sid db) (\<lambda>_ db. g db))"
  unfolding refuses_def
proof (intro allI impI)
  fix db e db'
  assume g: "\<forall>db e db'. g db = (Inl e, db') \<longrightarrow> only_sheets_added db db'"
    and run: "and_then_db (ensure_sheet_exists env sid db) (\<lambda>_ db. g db) = (Inl e, db')"
  obtain r db1 where ensured: "ensure_sheet_exists env sid db = (r, db1)" by fastforce
  with ensure_only_adds [of db env sid] have "only_sheets_added db db1" by simp
  with g run ensured show "only_sheets_added db db'"
    by (auto simp: and_then_db_def split: sum.splits intro: only_sheets_added_trans)
qed

lemma query_without_filters: "\<exists>window. query_first_sheet_row_window c sid db = (Inr window, db)"
  by (auto simp: query_first_sheet_row_window_def store_query_def query_sheet_rows_def clamp_query_window_def Let_def
      build_sheet_filter_def and_then_def split: sum.splits)

lemma refuses_rows:
  assumes "run_row_command env c = f"
  shows "refuses (\<lambda>db. and_then_db (base_call f db) (\<lambda>_ db. query_first_sheet_row_window cells sid db))"
  unfolding refuses_def
proof (intro allI impI)
  fix db e db'
  assume run: "and_then_db (base_call f db) (\<lambda>_ db. query_first_sheet_row_window cells sid db) = (Inl e, db')"
  obtain r s where "f (base db) = (r, s)" by fastforce
  with run row_command_rollback [of env c "base db"] assms query_without_filters [of cells sid "db\<lparr>base := s\<rparr>"]
  show "only_sheets_added db db'"
    by (cases r) (auto simp: and_then_db_def base_call_def on_base_def engine_call_def)
qed

lemma refuses_upsert: "refuses (upsert_sheet_rows_command w request)"
proof -
  have middle: "refuses (\<lambda>db. and_then_db
       (if us_append_at_end request
        then if us_replace_existing request
             then (Inl (Engine_Store (Invalid_Value ''append_at_end'' ''cannot replace existing rows'')), db)
             else base_call (append_sheet_rows_atomic (ew_clock w 1) (us_sheet_id request) (requested_rows request)) db
        else base_call (edit_sheet_rows_atomic (ew_clock w 1) (us_sheet_id request) (requested_rows request)
               (us_replace_existing request)) db)
       (\<lambda>_ db. query_first_sheet_row_window (ew_cells w) (us_sheet_id request) db))"
    using refuses_rows [OF run_row_command.simps(2)]
      refuses_rows [of "ew_clock w 1" "Upsert_Rows (us_sheet_id request) (requested_rows request) (us_replace_existing request) True"]
    by (cases "us_append_at_end request"; cases "us_replace_existing request")
      (simp_all add: edit_sheet_rows_atomic_def, simp add: refuses_def and_then_db_def)
  then show ?thesis unfolding upsert_sheet_rows_command_def by (rule refuses_ensure)
qed

fun row_edit :: "workspace_command \<Rightarrow> bool" where
  "row_edit (Cmd_Clear_Sheet_Rows _) = True"
| "row_edit (Cmd_Delete_Sheet_Rows _ _) = True"
| "row_edit (Cmd_Transfer_Sheet_Rows _) = True"
| "row_edit (Cmd_Copy_Sheet_Rows _ _) = True"
| "row_edit (Cmd_Upsert_Sheet_Rows _) = True"
| "row_edit _ = False"

lemma refuses_on_db: "refuses f \<Longrightarrow> responded g (on_db f rt) = (Inl e, rt') \<Longrightarrow> only_sheets_added (rt_db rt) (rt_db rt')"
  by (auto simp: refuses_def responded_def on_db_def Let_def split: prod.splits sum.splits)

text \<open>
  \<open>C37.\<close> An edit of rows that is answered with an error has changed no row: whether a
  clear, delete, transfer, copy or upsert fails at its checks or in the middle of its
  rows, the whole database is as before, but for sheets the command created for sheet
  ids that did not exist yet.
\<close>

theorem refused_edit_changes_no_row:
  assumes "row_edit command" and "handle_command w command rt = Some (Inl e, rt')"
  shows "\<exists>added. rt_db rt' = (rt_db rt)\<lparr>base := (base (rt_db rt))\<lparr>sheets := sheets (base (rt_db rt)) @ added\<rparr>\<rparr>"
proof -
  have "only_sheets_added (rt_db rt) (rt_db rt')"
  proof (cases command)
    case (Cmd_Clear_Sheet_Rows sid)
    have "refuses (clear_sheet_rows_command w sid)"
      unfolding clear_sheet_rows_command_def
      by (intro refuses_ensure refuses_rows [where c = "Clear_Rows sid" and env = "ew_clock w 0"]) simp
    with assms Cmd_Clear_Sheet_Rows refuses_on_db show ?thesis by fastforce
  next
    case (Cmd_Delete_Sheet_Rows sid ids)
    have "refuses (delete_sheet_rows_command w sid ids)"
      unfolding delete_sheet_rows_command_def
      by (intro refuses_ensure refuses_rows [where c = "Delete_Rows sid ids" and env = "ew_clock w 1"]) simp
    with assms Cmd_Delete_Sheet_Rows refuses_on_db show ?thesis by fastforce
  next
    case (Cmd_Transfer_Sheet_Rows request)
    have "refuses (transfer_sheet_rows_command w request)"
      unfolding transfer_sheet_rows_command_def
      by (intro refuses_ensure refuses_rows [where env = "ew_clock w 2"], rule run_row_command.simps(5))
    with assms Cmd_Transfer_Sheet_Rows refuses_on_db show ?thesis by fastforce
  next
    case (Cmd_Copy_Sheet_Rows src tgt)
    have "refuses (copy_sheet_rows_command w src tgt)"
      unfolding copy_sheet_rows_command_def
      by (intro refuses_ensure refuses_rows [where c = "Copy_Rows src tgt" and env = "ew_clock w 2"]) simp
    with assms Cmd_Copy_Sheet_Rows refuses_on_db show ?thesis by fastforce
  next
    case (Cmd_Upsert_Sheet_Rows request)
    with assms refuses_on_db [OF refuses_upsert] show ?thesis by fastforce
  qed (use assms(1) in simp_all)
  then show ?thesis by (simp add: only_sheets_added_def)
qed

subsection \<open>Examples\<close>

definition demo_world :: "(string option list, int) engine_world" where
  "demo_world = \<lparr>ew_clock = (\<lambda>_. sample_env), ew_nanos = ''1700'', ew_source = demo_source,
     ew_preview = \<lparr>fetch_bags = fetch_bags_in_turn demo_source, fetch_manifests = fetch_manifests_in_turn demo_source,
       response_fields = (\<lambda>r. r), one_response_text = (\<lambda>_. None), responses_text = (\<lambda>_. None)\<rparr>,
     ew_host = plain_host, ew_others = (\<lambda>db. db), ew_fetch = (\<lambda>_ _. Inr sample_response), ew_batch = (\<lambda>_. silent_batch),
     ew_staged = (\<lambda>_. Not_A_Regular_File), ew_cells = sample_cells, ew_floats = whole_floats,
     ew_libraries = sample_libraries, ew_duck = counting_engine, ew_local_date = ''2024-05-06''\<rparr>"

definition demo_db :: "store \<Rightarrow> workspace_db" where
  "demo_db s = \<lparr>base = s, records = [], blobs = [], workspaces = [], generation = 7\<rparr>"

definition demo_runtime :: runtime where
  "demo_runtime = \<lparr>rt_config = default_engine_config, rt_db = demo_db demo_store, rt_expected = None,
     rt_has_blob_root = False, rt_import_job_sequence = 0\<rparr>"

lemma world_ok_demo: "world_ok demo_world"
  by (simp add: world_ok_def demo_world_def silent_batch_def)

lemma db_ok_demo: "db_ok (demo_db demo_store)" "db_ok (demo_db demo_started)"
  by (rule db_okI, simp add: demo_db_def, rule reachable_demo_store reachable_demo_started)+


theorem start_leaves_nothing_interrupted_witness:
  "\<exists>rt st. open_persistent (\<lambda>_. sample_env) default_engine_config
      \<lparr>bc_workspace_id = ''w'', bc_workspace_name = ''W'', bc_initial_sheet_id = ''s0'', bc_initial_sheet_name = ''S''\<rparr>
      (demo_db demo_started) = (Inr (rt, st), rt_db rt)
    \<and> Item_Running \<in> i_status ` set (items demo_started) \<and> Item_Running \<notin> i_status ` set (items (base (rt_db rt)))"
proof -
  have "Item_Running \<in> i_status ` set (items demo_started)"
    by (simp add: demo_started_eq demo_items_def demo_item_def started_item_def claimed_item_def)
  with start_leaves_nothing_interrupted [OF db_ok_demo(2), of "\<lambda>_. sample_env" default_engine_config
      "\<lparr>bc_workspace_id = ''w'', bc_workspace_name = ''W'', bc_initial_sheet_id = ''s0'', bc_initial_sheet_name = ''S''\<rparr>"]
  show ?thesis by fastforce
qed

definition refused_append :: workspace_command where
  "refused_append = Cmd_Upsert_Sheet_Rows \<lparr>us_sheet_id = ''s'', us_rows = [], us_replace_existing = True, us_append_at_end = True\<rparr>"

lemma refused_append_run:
  "handle_command demo_world refused_append demo_runtime =
     Some (Inl (Engine_Store (Invalid_Value ''append_at_end'' ''cannot replace existing rows'')), demo_runtime)"
proof -
  have "sheet_exists demo_store ''s''" by (simp add: demo_store_eq sheet_exists_def find_by_def sample_sheet_def)
  then show ?thesis
    by (simp add: refused_append_def upsert_sheet_rows_command_def ensure_sheet_exists_def demo_runtime_def demo_db_def
        and_then_db_def on_db_def responded_def)
qed

theorem refused_edit_changes_no_row_witness:
  "\<exists>added. rt_db demo_runtime = (rt_db demo_runtime)\<lparr>base := (base (rt_db demo_runtime))
      \<lparr>sheets := sheets (base (rt_db demo_runtime)) @ added\<rparr>\<rparr>"
  using refused_edit_changes_no_row [OF _ refused_append_run] by (simp add: refused_append_def)

subsection \<open>The name of a staged document\<close>

lemma valid_staging_name_iff:
  "valid_staging_name f \<longleftrightarrow> (\<exists>nonce. f = ''workspace-restore-'' @ nonce @ ''.json'' \<and> length nonce = 36
     \<and> (\<forall>c \<in> set nonce. is_ascii_hexdigit c \<or> c = CHR ''-''))"
proof
  assume "valid_staging_name f"
  then obtain nonce where nonce: "staged_nonce f = Some nonce" "length nonce = 36"
    "list_all (\<lambda>c. is_ascii_hexdigit c \<or> c = CHR ''-'') nonce" by (auto simp: valid_staging_name_def split: option.splits)
  let ?name = "drop (length ''workspace-restore-'') f"
  have prefix: "starts_with ''workspace-restore-'' f" and suffix: "ends_with ''.json'' ?name"
    and cut: "nonce = take (length ?name - length ''.json'') ?name"
    using nonce(1) unfolding staged_nonce_def Let_def by (auto split: if_splits)
  have "f = ''workspace-restore-'' @ ?name"
    using prefix unfolding starts_with_def by (metis append_take_drop_id)
  moreover have "?name = nonce @ ''.json''"
    using suffix cut unfolding ends_with_def by (metis append_take_drop_id)
  ultimately show "\<exists>nonce. f = ''workspace-restore-'' @ nonce @ ''.json'' \<and> length nonce = 36
      \<and> (\<forall>c \<in> set nonce. is_ascii_hexdigit c \<or> c = CHR ''-'')"
    using nonce(2,3) by (auto simp: list_all_iff)
next
  assume "\<exists>nonce. f = ''workspace-restore-'' @ nonce @ ''.json'' \<and> length nonce = 36
      \<and> (\<forall>c \<in> set nonce. is_ascii_hexdigit c \<or> c = CHR ''-'')"
  then obtain nonce where f: "f = ''workspace-restore-'' @ nonce @ ''.json''" "length nonce = 36"
    "\<forall>c \<in> set nonce. is_ascii_hexdigit c \<or> c = CHR ''-''" by blast
  have "staged_nonce f = Some nonce"
    by (simp add: f(1) staged_nonce_def starts_with_def ends_with_def Let_def)
  with f show "valid_staging_name f" by (simp add: valid_staging_name_def list_all_iff)
qed

text \<open>Such a name is one component of a path: no separator, no parent.\<close>

lemma staged_name_is_one_component:
  assumes "valid_staging_name f"
  shows "CHR ''/'' \<notin> set f \<and> CHR 0x5C \<notin> set f \<and> f \<noteq> ''..''"
proof -
  from assms obtain nonce where f: "f = ''workspace-restore-'' @ nonce @ ''.json''"
    and digits: "\<forall>c \<in> set nonce. is_ascii_hexdigit c \<or> c = CHR ''-''"
    by (auto simp: valid_staging_name_iff)
  have "\<not> is_ascii_hexdigit (CHR ''/'')" "\<not> is_ascii_hexdigit (CHR 0x5C)"
    by (simp_all add: is_ascii_hexdigit_def is_ascii_digit_def)
  with digits have "CHR ''/'' \<notin> set nonce" "CHR 0x5C \<notin> set nonce" by auto
  then show ?thesis by (simp add: f)
qed

end
