(* ===== verification/Rpc.thy ===== *)
theory Rpc
  imports JsonValues Prelude
begin

text \<open>
  The local protocol of the three processes (\<open>shipflow-ipc/src/lib.rs\<close>): requests and
  messages, and the frames that carry them, one JSON text a line.  serde's text of a
  value comes in as an argument; a compact JSON text holds no line feed and does not
  end in a carriage return.
\<close>

subsection \<open>Requests and messages\<close>

abbreviation "protocol_version \<equiv> (1 :: nat)"

record rpc_request =
  rpc_protocol_version :: nat
  rpc_id :: string
  rpc_method :: string
  rpc_auth_token :: "string option"
  rpc_params :: json

record rpc_error =
  er_code :: string
  er_message :: string

definition rpc_error_new :: "string \<Rightarrow> string \<Rightarrow> rpc_error" where
  "rpc_error_new code message = \<lparr>er_code = code, er_message = message\<rparr>"

definition validate_request :: "rpc_request \<Rightarrow> rpc_error + unit" where
  "validate_request request =
     (if rpc_protocol_version request \<noteq> protocol_version
      then Inl (rpc_error_new ''unsupported_protocol''
        (''Unsupported ShipFlow IPC protocol version '' @ show_nat (rpc_protocol_version request) @ ''. Expected ''
           @ show_nat protocol_version @ ''.''))
      else if trim (rpc_id request) = [] then Inl (rpc_error_new ''invalid_request'' ''Request id is required.'')
      else if trim (rpc_method request) = [] then Inl (rpc_error_new ''invalid_request'' ''Request method is required.'')
      else Inr ())"

text \<open>A message carries the version of the protocol, the id of the request and its content.\<close>

datatype rpc_message =
    Msg_Ready nat string nat
  | Msg_Response nat string json
  | Msg_Error nat string rpc_error
  | Msg_Event nat string json

definition ready_message :: "nat \<Rightarrow> string \<Rightarrow> rpc_message" where
  "ready_message process_id product = Msg_Ready protocol_version product process_id"

definition response_message :: "string \<Rightarrow> json \<Rightarrow> rpc_message" where
  "response_message rid result = Msg_Response protocol_version rid result"

definition error_message :: "string \<Rightarrow> rpc_error \<Rightarrow> rpc_message" where
  "error_message rid e = Msg_Error protocol_version rid e"

definition event_message :: "string \<Rightarrow> json \<Rightarrow> rpc_message" where
  "event_message rid event = Msg_Event protocol_version rid event"

subsection \<open>Frames\<close>

definition max_frame_bytes :: nat where
  "max_frame_bytes = 16 * 1024 * 1024"

datatype frame_error =
    Frame_Invalid_Data string
  | Frame_Unexpected_Eof string

abbreviation line_feed :: char where
  "line_feed \<equiv> CHR 0x0A"

abbreviation carriage_return :: char where
  "carriage_return \<equiv> CHR 0x0D"

text \<open>\<open>write_json_frame\<close>: the bytes it writes; \<open>payload\<close> is serde's text, or its error.\<close>

definition write_frame :: "string + string \<Rightarrow> frame_error + string" where
  "write_frame payload =
     (case payload of
        Inl e \<Rightarrow> Inl (Frame_Invalid_Data e)
      | Inr text \<Rightarrow>
          if max_frame_bytes < length text then Inl (Frame_Invalid_Data ''ShipFlow IPC frame exceeds the maximum size.'')
          else Inr (text @ [line_feed]))"

text \<open>\<open>take(n)\<close> and \<open>read_until(line feed)\<close>: what is read of the bytes the peer sends.\<close>

definition read_until_line_feed :: "nat \<Rightarrow> string \<Rightarrow> string" where
  "read_until_line_feed n s =
     take n (takeWhile (\<lambda>c. c \<noteq> line_feed) s @ (if line_feed \<in> set s then [line_feed] else []))"

definition strip_line_end :: "string \<Rightarrow> string" where
  "strip_line_end payload = rev (dropWhile (\<lambda>c. c = line_feed \<or> c = carriage_return) (rev payload))"

text \<open>\<open>read_json_frame\<close> up to the text it hands to serde.\<close>

definition read_frame :: "string \<Rightarrow> frame_error + string" where
  "read_frame s =
     (let payload = read_until_line_feed (max_frame_bytes + 1) s
      in if payload = [] then Inl (Frame_Unexpected_Eof ''ShipFlow IPC peer closed before sending a response.'')
         else if max_frame_bytes < length payload
         then Inl (Frame_Invalid_Data ''ShipFlow IPC frame exceeds the maximum size.'')
         else Inr (strip_line_end payload))"

text \<open>
  The loop of the workspace host over its standard input: the texts it decodes, and
  whether it stopped at a frame that is too large.  Blank lines are skipped.
\<close>

definition is_blank :: "string \<Rightarrow> bool" where
  "is_blank payload \<longleftrightarrow> list_all (\<lambda>c. c \<in> {CHR '' '', CHR 0x09, line_feed, CHR 0x0C, carriage_return}) payload"

function host_frames :: "string \<Rightarrow> string list \<times> bool" where
  "host_frames s =
     (let payload = read_until_line_feed (max_frame_bytes + 1) s
      in if payload = [] then ([], False)
         else if max_frame_bytes < length payload then ([], True)
         else let stripped = strip_line_end payload;
                  (frames, too_large) = host_frames (drop (length payload) s)
              in (if is_blank stripped then frames else stripped # frames, too_large))"
  by pat_completeness auto

lemma length_read_until: "length (read_until_line_feed n s) \<le> length s"
proof (cases "line_feed \<in> set s")
  case True
  then obtain a b where s: "s = a @ line_feed # b" "line_feed \<notin> set a" by (meson split_list_first)
  then have "takeWhile (\<lambda>c. c \<noteq> line_feed) s = a" by (auto simp: takeWhile_append)
  with s show ?thesis by (simp add: read_until_line_feed_def)
next
  case False
  then show ?thesis using length_takeWhile_le [of "\<lambda>c. c \<noteq> line_feed" s] by (simp add: read_until_line_feed_def min_def)
qed

termination host_frames
proof (relation "measure length")
  fix s payload stripped
  assume "payload = read_until_line_feed (max_frame_bytes + 1) s" "payload \<noteq> []"
  with length_read_until [of "max_frame_bytes + 1" s] show "(drop (length payload) s, s) \<in> measure length"
    by (cases s) (auto simp: read_until_line_feed_def)
qed simp

declare host_frames.simps [simp del]

subsection \<open>What is written is read\<close>

text \<open>A text serde may write.\<close>

definition frame_text :: "string \<Rightarrow> bool" where
  "frame_text text \<longleftrightarrow> line_feed \<notin> set text \<and> text \<noteq> [] \<and> last text \<noteq> carriage_return"

lemma read_until_frame:
  assumes "line_feed \<notin> set text"
  shows "read_until_line_feed n (text @ line_feed # rest) = take n (text @ [line_feed])"
proof -
  have "takeWhile (\<lambda>c. c \<noteq> line_feed) (text @ line_feed # rest) = text"
    using assms by (subst takeWhile_append2) auto
  then show ?thesis by (simp add: read_until_line_feed_def)
qed

lemma strip_frame:
  assumes "frame_text text"
  shows "strip_line_end (text @ [line_feed]) = text"
proof -
  obtain c cs where c: "rev text = c # cs" using assms by (cases "rev text") (auto simp: frame_text_def)
  then have "c = last text" by (metis append.simps(1) last_snoc rev.simps(2) rev_rev_ident)
  moreover have "last text \<in> set text" using assms by (simp add: frame_text_def)
  ultimately have "c \<noteq> line_feed" "c \<noteq> carriage_return" using assms unfolding frame_text_def by metis+
  with c have "dropWhile (\<lambda>c. c = line_feed \<or> c = carriage_return) (rev (text @ [line_feed])) = rev text" by simp
  then show ?thesis unfolding strip_line_end_def by simp
qed

lemma frame_roundtrip:
  assumes "frame_text text" and "length text < max_frame_bytes"
  shows "write_frame (Inr text) = Inr (text @ [line_feed])" and "read_frame (text @ line_feed # rest) = Inr text"
proof -
  show "write_frame (Inr text) = Inr (text @ [line_feed])" using assms(2) by (simp add: write_frame_def)
  have "read_until_line_feed (max_frame_bytes + 1) (text @ line_feed # rest) = text @ [line_feed]"
    using assms by (simp add: read_until_frame frame_text_def)
  with assms show "read_frame (text @ line_feed # rest) = Inr text"
    by (simp add: read_frame_def strip_frame Let_def)
qed

lemma host_frame:
  assumes "frame_text text" and "length text < max_frame_bytes"
  shows "host_frames (text @ line_feed # rest) =
    (let (frames, too_large) = host_frames rest in (if is_blank text then frames else text # frames, too_large))"
proof -
  have "read_until_line_feed (max_frame_bytes + 1) (text @ line_feed # rest) = text @ [line_feed]"
    using assms by (simp add: read_until_frame frame_text_def)
  with assms show ?thesis by (subst host_frames.simps) (simp add: strip_frame Let_def)
qed

lemma host_frames_written:
  assumes "\<forall>text \<in> set texts. frame_text text \<and> length text < max_frame_bytes \<and> \<not> is_blank text"
  shows "host_frames (concat (map (\<lambda>text. text @ [line_feed]) texts)) = (texts, False)"
  using assms
proof (induction texts)
  case Nil
  show ?case by (simp add: host_frames.simps read_until_line_feed_def)
next
  case (Cons t texts)
  then show ?case by (simp add: host_frame)
qed

text \<open>
  \<open>C38.\<close> What one process writes, the other reads: the frames of any texts serde may
  write, one after the other on the pipe, are taken apart by the loop of the host into
  exactly these texts, and \<open>read_json_frame\<close> reads the first of them, provided each is
  shorter than the largest frame and is not blank.
\<close>

theorem frames_are_read_back:
  assumes "\<forall>t \<in> set texts. frame_text t \<and> length t < max_frame_bytes \<and> \<not> is_blank t"
  shows "\<exists>frames. map (\<lambda>t. write_frame (Inr t)) texts = map Inr frames
    \<and> host_frames (concat frames) = (texts, False)
    \<and> (\<forall>t rest. texts = t # rest \<longrightarrow> read_frame (concat frames) = Inr t)"
proof (intro exI conjI)
  let ?frames = "map (\<lambda>t. t @ [line_feed]) texts"
  show "map (\<lambda>t. write_frame (Inr t)) texts = map Inr ?frames"
    using assms by (auto simp: write_frame_def)
  show "host_frames (concat ?frames) = (texts, False)" by (rule host_frames_written [OF assms])
  show "\<forall>t rest. texts = t # rest \<longrightarrow> read_frame (concat ?frames) = Inr t"
    using assms frame_roundtrip(2) by auto
qed

theorem frames_are_read_back_witness:
  "host_frames (''{}'' @ [line_feed] @ ''[1]'' @ [line_feed]) = ([''{}'', ''[1]''], False)"
proof -
  have "\<forall>t \<in> set [''{}'', ''[1]'']. frame_text t \<and> length t < max_frame_bytes \<and> \<not> is_blank t"
    by (simp add: frame_text_def max_frame_bytes_def is_blank_def)
  from frames_are_read_back [OF this] show ?thesis by (auto simp: write_frame_def split: if_splits)
qed

text \<open>
  The bound of the writer leaves out the line feed, the bound of the reader counts it:
  a text of exactly the largest size is written and refused by every reader.
\<close>

lemma largest_frame_is_refused:
  assumes "line_feed \<notin> set t" and "length t = max_frame_bytes"
  shows "write_frame (Inr t) = Inr (t @ [line_feed])"
    and "read_frame (t @ [line_feed]) = Inl (Frame_Invalid_Data ''ShipFlow IPC frame exceeds the maximum size.'')"
proof -
  show "write_frame (Inr t) = Inr (t @ [line_feed])" using assms(2) by (simp add: write_frame_def)
  have "read_until_line_feed (max_frame_bytes + 1) (t @ [line_feed]) = t @ [line_feed]"
    using assms read_until_frame [OF assms(1), of "max_frame_bytes + 1" "[]"] by simp
  then show "read_frame (t @ [line_feed]) = Inl (Frame_Invalid_Data ''ShipFlow IPC frame exceeds the maximum size.'')"
    using assms(2) by (simp add: read_frame_def Let_def)
qed

end
