(* ===== verification/InternalIpc.thy ===== *)
theory InternalIpc
  imports Rpc CoreTypes
begin

unbundle bit_operations_syntax

text \<open>
  The private channel between the workspace host and the lookup service: the server
  (\<open>internal_ipc.rs\<close>, with the token comparison of \<open>http_api.rs\<close>) and the client
  (\<open>shipflow-service-client\<close>, over IPC or HTTP).  What the service resolves, sockets and
  HTTP, the parsing of addresses and of JSON are parameters.
\<close>

subsection \<open>The server\<close>

text \<open>\<open>constant_time_token_eq\<close>: every byte is looked at, a missing one is 0.\<close>

definition byte_at :: "string \<Rightarrow> nat \<Rightarrow> nat" where
  "byte_at s i = (if i < length s then byte (s ! i) else 0)"

definition constant_time_token_eq :: "string \<Rightarrow> string \<Rightarrow> bool" where
  "constant_time_token_eq candidate expected \<longleftrightarrow>
     fold (\<lambda>i difference. difference OR (byte_at candidate i XOR byte_at expected i))
       [0..<max (length candidate) (length expected)] (length candidate XOR length expected) = 0"

record lookup_params =
  lp_lookup_id :: string
  lp_force_refresh :: bool

text \<open>
  serde on the parameters of a lookup: an object, or the fields in order; the text of
  the error is serde's.
\<close>

fun decode_lookup_params :: "(json \<Rightarrow> string) \<Rightarrow> json \<Rightarrow> string + lookup_params" where
  "decode_lookup_params serde_error (JObj ms) =
     (case (map_of ms ''lookupId'', map_of ms ''forceRefresh'') of
        (Some (JStr i), None) \<Rightarrow> Inr \<lparr>lp_lookup_id = i, lp_force_refresh = False\<rparr>
      | (Some (JStr i), Some (JBool b)) \<Rightarrow> Inr \<lparr>lp_lookup_id = i, lp_force_refresh = b\<rparr>
      | _ \<Rightarrow> Inl (serde_error (JObj ms)))"
| "decode_lookup_params serde_error (JArr [JStr i]) = Inr \<lparr>lp_lookup_id = i, lp_force_refresh = False\<rparr>"
| "decode_lookup_params serde_error (JArr [JStr i, JBool b]) = Inr \<lparr>lp_lookup_id = i, lp_force_refresh = b\<rparr>"
| "decode_lookup_params serde_error v = Inl (serde_error v)"

text \<open>
  The state of the service as the channel sees it; \<open>is_resolve\<close> is
  \<open>resolve_tracking_payload\<close> and its siblings, with the answer as JSON, or serde's error.
\<close>

record internal_service =
  is_token :: string
  is_process_id :: nat
  is_mode :: json
  is_bind_address :: string
  is_port :: nat
  is_resolve :: "lookup_kind \<Rightarrow> string \<Rightarrow> bool \<Rightarrow> tracking_error + (string + json)"
  is_serde_error :: "json \<Rightarrow> string"

definition parse_lookup_params :: "internal_service \<Rightarrow> json \<Rightarrow> rpc_error + lookup_params" where
  "parse_lookup_params svc params =
     (case decode_lookup_params (is_serde_error svc) params of
        Inl e \<Rightarrow> Inl (rpc_error_new ''invalid_params'' e)
      | Inr p \<Rightarrow> if trim (lp_lookup_id p) = [] then Inl (rpc_error_new ''bad_request'' ''Lookup id is required.'') else Inr p)"

fun rpc_error_from_tracking_error :: "tracking_error \<Rightarrow> rpc_error" where
  "rpc_error_from_tracking_error (Bad_Request m) = rpc_error_new ''bad_request'' m"
| "rpc_error_from_tracking_error (Not_Found m) = rpc_error_new ''not_found'' m"
| "rpc_error_from_tracking_error (Rate_Limited m) = rpc_error_new ''rate_limited'' m"
| "rpc_error_from_tracking_error (Service_Unavailable m) = rpc_error_new ''service_unavailable'' m"
| "rpc_error_from_tracking_error (Upstream_Failure m) = rpc_error_new ''upstream'' m"

definition serialize_lookup_result :: "tracking_error + (string + json) \<Rightarrow> rpc_error + json" where
  "serialize_lookup_result result =
     (case result of
        Inl e \<Rightarrow> Inl (rpc_error_from_tracking_error e)
      | Inr (Inl e) \<Rightarrow> Inl (rpc_error_new ''serialization_error'' e)
      | Inr (Inr payload) \<Rightarrow> Inr payload)"

definition internal_lookup :: "internal_service \<Rightarrow> lookup_kind \<Rightarrow> json \<Rightarrow> rpc_error + json" where
  "internal_lookup svc kind params =
     and_then (parse_lookup_params svc params) (\<lambda>p.
       serialize_lookup_result (is_resolve svc kind (lp_lookup_id p) (lp_force_refresh p)))"

definition service_status_product :: string where
  "service_status_product = ''shipflow-service''"

definition internal_status :: "internal_service \<Rightarrow> json" where
  "internal_status svc = JObj [(''service'', JStr ''running''), (''product'', JStr service_status_product),
     (''processId'', JInt (int (is_process_id svc))), (''mode'', is_mode svc),
     (''bindAddress'', JStr (is_bind_address svc)), (''port'', JInt (int (is_port svc)))]"

text \<open>The answer and whether the service shuts down after it.\<close>

definition handle_internal_request :: "internal_service \<Rightarrow> rpc_request \<Rightarrow> rpc_error + (rpc_message \<times> bool)" where
  "handle_internal_request svc request =
     and_then (validate_request request) (\<lambda>_.
       let token = (case rpc_auth_token request of None \<Rightarrow> [] | Some t \<Rightarrow> t);
           answer = (\<lambda>result. Inr (response_message (rpc_id request) result, False))
       in if is_token svc = [] \<or> \<not> constant_time_token_eq token (is_token svc)
          then Inl (rpc_error_new ''unauthorized'' ''Internal ShipFlow credential is invalid.'')
          else if rpc_method request = ''service.status'' then answer (internal_status svc)
          else if rpc_method request = ''service.shutdown''
          then Inr (response_message (rpc_id request) (JObj [(''status'', JStr ''stopping'')]), True)
          else if rpc_method request = ''tracking.track''
          then and_then (internal_lookup svc Lookup_Track (rpc_params request)) answer
          else if rpc_method request = ''tracking.bag''
          then and_then (internal_lookup svc Lookup_Bag (rpc_params request)) answer
          else if rpc_method request = ''tracking.manifest''
          then and_then (internal_lookup svc Lookup_Manifest (rpc_params request)) answer
          else Inl (rpc_error_new ''method_not_found''
            (''Unsupported ShipFlow Service IPC method: '' @ rpc_method request)))"

text \<open>The message a connection answers with.\<close>

definition answer_connection :: "internal_service \<Rightarrow> rpc_request \<Rightarrow> rpc_message \<times> bool" where
  "answer_connection svc request =
     (case handle_internal_request svc request of
        Inl e \<Rightarrow> (error_message (rpc_id request) e, False)
      | Inr answer \<Rightarrow> answer)"

text \<open>What the log keeps of an id or a method.\<close>

definition audit_value :: "string \<Rightarrow> string" where
  "audit_value v = concat (map (\<lambda>ch. case ch of
       [c] \<Rightarrow> if is_ascii_alphanumeric c \<or> c \<in> set ''-_.:'' then [c] else ''_''
     | _ \<Rightarrow> ''_'') (take 128 (chars v)))"

subsection \<open>The client\<close>

datatype connection_transport = Http_Transport string | Local_Ipc string

record connection_config =
  cc_transport :: connection_transport
  cc_auth_token :: string

text \<open>
  The libraries: \<open>Url\<close>, the HTTP client (an error of sending, or the status and the body
  or the error of reading it), the IPC stream, serde and the hasher.
\<close>

datatype ipc_outcome =
    Connect_Failed string
  | Ipc_Write_Failed string
  | Ipc_Read_Failed string
  | Ipc_Timed_Out
  | Ipc_Replied rpc_message

record 'u client_libraries =
  url_parse :: "string \<Rightarrow> string + 'u"
  url_scheme :: "'u \<Rightarrow> string"
  url_host :: "'u \<Rightarrow> string option"
  url_push :: "string list \<Rightarrow> 'u \<Rightarrow> 'u option"
  http_get :: "'u \<Rightarrow> string option \<Rightarrow> bool \<Rightarrow> string + (nat \<times> (string + string))"
  status_text :: "nat \<Rightarrow> string"
  ipc_exchange :: "string \<Rightarrow> rpc_request \<Rightarrow> ipc_outcome"
  client_json :: "string \<Rightarrow> string + json"
  hash_text :: "string \<Rightarrow> string"
  client_process :: string

record service_ipc_error =
  si_code :: string
  si_message :: string

definition transport_error :: "string \<Rightarrow> service_ipc_error" where
  "transport_error message = \<lparr>si_code = ''transport_error'', si_message = message\<rparr>"

definition ipc_error_text :: "service_ipc_error \<Rightarrow> string" where
  "ipc_error_text e = si_code e @ '': '' @ si_message e"

definition validate_connection :: "'u client_libraries \<Rightarrow> connection_config \<Rightarrow> string + unit" where
  "validate_connection libs config =
     and_then
       (case cc_transport config of
          Http_Transport base_url \<Rightarrow>
            (case url_parse libs (trim base_url) of
               Inl e \<Rightarrow> Inl (''ShipFlow Service URL is invalid: '' @ e)
             | Inr url \<Rightarrow>
                 if url_scheme libs url \<notin> {''http'', ''https''} \<or> url_host libs url = None
                 then Inl ''ShipFlow Service URL must be an HTTP or HTTPS URL with a host.''
                 else Inr ())
        | Local_Ipc endpoint \<Rightarrow>
            if trim endpoint = [] then Inl ''ShipFlow Service IPC endpoint is missing.'' else Inr ())
       (\<lambda>_. if trim (cc_auth_token config) = [] then Inl ''ShipFlow Service internal credential is missing.'' else Inr ())"

text \<open>The state of the process: requests made, and until when a connection counts as verified.\<close>

record client_state =
  cl_sequence :: nat
  cl_verified :: "string \<Rightarrow> nat option"

definition request_ipc ::
  "'u client_libraries \<Rightarrow> connection_config \<Rightarrow> string \<Rightarrow> json \<Rightarrow> client_state
   \<Rightarrow> (service_ipc_error + json) \<times> client_state" where
  "request_ipc libs config method params st =
     (case cc_transport config of
        Http_Transport _ \<Rightarrow> (Inl (transport_error ''ShipFlow Service IPC transport is not configured.''), st)
      | Local_Ipc endpoint \<Rightarrow>
          let sequence_number = cl_sequence st + 1;
              rid = ''service-client-'' @ client_process libs @ ''-'' @ show_nat sequence_number
          in (case ipc_exchange libs endpoint \<lparr>rpc_protocol_version = protocol_version, rpc_id = rid, rpc_method = method,
                     rpc_auth_token = Some (cc_auth_token config), rpc_params = params\<rparr> of
                Connect_Failed e \<Rightarrow> Inl (transport_error (''Unable to connect to ShipFlow Service IPC: '' @ e))
              | Ipc_Write_Failed e \<Rightarrow> Inl (transport_error (''Unable to write ShipFlow Service IPC request: '' @ e))
              | Ipc_Read_Failed e \<Rightarrow> Inl (transport_error (''Unable to read ShipFlow Service IPC response: '' @ e))
              | Ipc_Timed_Out \<Rightarrow> Inl (transport_error ''ShipFlow Service IPC request timed out.'')
              | Ipc_Replied (Msg_Response _ i result) \<Rightarrow>
                  if i = rid then Inr result
                  else Inl (transport_error ''ShipFlow Service returned an invalid IPC correlation id.'')
              | Ipc_Replied (Msg_Error _ i e) \<Rightarrow>
                  if i = rid then Inl \<lparr>si_code = er_code e, si_message = er_message e\<rparr>
                  else Inl (transport_error ''ShipFlow Service returned an invalid IPC correlation id.'')
              | Ipc_Replied _ \<Rightarrow> Inl (transport_error ''ShipFlow Service returned an invalid IPC correlation id.''),
              st\<lparr>cl_sequence := sequence_number\<rparr>))"

definition tracking_error_from_ipc_error :: "service_ipc_error \<Rightarrow> tracking_error" where
  "tracking_error_from_ipc_error e =
     (if si_code e \<in> {''bad_request'', ''invalid_params''} then Bad_Request (si_message e)
      else if si_code e = ''not_found'' then Not_Found (si_message e)
      else if si_code e = ''rate_limited'' then Rate_Limited (si_message e)
      else if si_code e = ''service_unavailable'' then Service_Unavailable (si_message e)
      else Upstream_Failure (ipc_error_text e))"

definition extract_service_error_message :: "'u client_libraries \<Rightarrow> nat \<Rightarrow> string option \<Rightarrow> string" where
  "extract_service_error_message libs status raw_body =
     (case raw_body of
        Some raw \<Rightarrow>
          let body = trim raw
          in if body = [] then ''ShipFlow Service returned HTTP '' @ status_text libs status @ ''.''
             else (case client_json libs body of
                     Inr payload \<Rightarrow>
                       (case Option.bind (Option.bind (json_get ''error'' payload) (json_get ''message'')) as_str of
                          Some message \<Rightarrow> trim message
                        | None \<Rightarrow> ''ShipFlow Service returned HTTP '' @ status_text libs status @ '': '' @ body)
                   | Inl _ \<Rightarrow> ''ShipFlow Service returned HTTP '' @ status_text libs status @ '': '' @ body)
      | None \<Rightarrow> ''ShipFlow Service returned HTTP '' @ status_text libs status @ ''.'')"

definition verify_status_payload :: "'u client_libraries \<Rightarrow> string \<Rightarrow> string \<Rightarrow> string + unit" where
  "verify_status_payload libs product raw_body =
     (case client_json libs raw_body of
        Inl e \<Rightarrow> Inl (''ShipFlow Service returned invalid status JSON: '' @ e)
      | Inr payload \<Rightarrow>
          (case json_get ''data'' payload of
             None \<Rightarrow> Inl ''ShipFlow Service status response is missing data.''
           | Some d \<Rightarrow>
               if Option.bind (json_get ''product'' d) as_str \<noteq> Some product
               then Inl ''The configured endpoint is not a ShipFlow Service instance.''
               else if Option.bind (json_get ''service'' d) as_str \<noteq> Some ''running''
               then Inl ''ShipFlow Service is not reporting a running status.''
               else Inr ()))"

text \<open>\<open>build_v1_endpoint\<close> and \<open>build_lookup_endpoint\<close>: segments pushed onto the base.\<close>

definition push_segments :: "'u client_libraries \<Rightarrow> string list \<Rightarrow> string \<Rightarrow> string + 'u" where
  "push_segments libs segments base_url =
     (case url_parse libs base_url of
        Inl e \<Rightarrow> Inl (''ShipFlow Service URL is invalid: '' @ e)
      | Inr url \<Rightarrow> ok_or ''ShipFlow Service URL cannot be used as an HTTP base URL.'' (url_push libs segments url))"

definition build_v1_endpoint :: "'u client_libraries \<Rightarrow> string \<Rightarrow> string \<Rightarrow> string + 'u" where
  "build_v1_endpoint libs base_url endpoint =
     push_segments libs (''v1'' # filter (\<lambda>x. x \<noteq> []) (split_on (\<lambda>c. c = CHR ''/'') endpoint)) base_url"

definition build_lookup_endpoint :: "'u client_libraries \<Rightarrow> string \<Rightarrow> string \<Rightarrow> string \<Rightarrow> string + 'u" where
  "build_lookup_endpoint libs base_url route lookup_id = push_segments libs [''v1'', route, trim lookup_id] base_url"

text \<open>One HTTP exchange with the messages of its failures.\<close>

definition http_exchange ::
  "'u client_libraries \<Rightarrow> string \<Rightarrow> string \<Rightarrow> 'u \<Rightarrow> string option \<Rightarrow> bool \<Rightarrow> string + (nat \<times> string)" where
  "http_exchange libs send_text read_text url bearer force =
     (case http_get libs url bearer force of
        Inl e \<Rightarrow> Inl (send_text @ e)
      | Inr (status, Inl e) \<Rightarrow> Inl (read_text @ e)
      | Inr (status, Inr body) \<Rightarrow> Inr (status, body))"

definition is_success :: "nat \<Rightarrow> bool" where
  "is_success status \<longleftrightarrow> 200 \<le> status \<and> status < 300"

definition verify_service_connection ::
  "'u client_libraries \<Rightarrow> connection_config \<Rightarrow> client_state \<Rightarrow> (string + unit) \<times> client_state" where
  "verify_service_connection libs config st =
     (case validate_connection libs config of
        Inl e \<Rightarrow> (Inl e, st)
      | Inr _ \<Rightarrow>
          (case cc_transport config of
             Local_Ipc _ \<Rightarrow>
               (case request_ipc libs config ''service.status'' (JObj []) st of
                  (Inl e, st1) \<Rightarrow> (Inl (ipc_error_text e), st1)
                | (Inr v, st1) \<Rightarrow>
                    (if Option.bind (json_get ''product'' v) as_str \<noteq> Some service_status_product
                        \<or> Option.bind (json_get ''service'' v) as_str \<noteq> Some ''running''
                     then Inl ''The configured IPC endpoint is not a running ShipFlow Service.'' else Inr (), st1))
           | Http_Transport base_url \<Rightarrow>
               (and_then (build_v1_endpoint libs base_url ''status'') (\<lambda>status_endpoint.
                and_then (http_exchange libs ''Unable to reach ShipFlow Service: '' ''Unable to read ShipFlow Service status: ''
                   status_endpoint None False) (\<lambda>(status, body).
                if \<not> is_success status then Inl (extract_service_error_message libs status (Some body))
                else and_then (verify_status_payload libs service_status_product body) (\<lambda>_.
                and_then (build_v1_endpoint libs base_url ''auth/check'') (\<lambda>auth_endpoint.
                and_then (http_exchange libs ''Unable to verify ShipFlow Service credential: ''
                   ''Unable to read ShipFlow Service auth response: '' auth_endpoint (Some (trim (cc_auth_token config))) False)
                   (\<lambda>(status, body).
                if \<not> is_success status then Inl (extract_service_error_message libs status (Some body)) else Inr ()))))), st)))"

definition verification_cache_key :: "'u client_libraries \<Rightarrow> connection_config \<Rightarrow> string" where
  "verification_cache_key libs config =
     (case cc_transport config of Http_Transport base_url \<Rightarrow> to_ascii_lowercase base_url | Local_Ipc endpoint \<Rightarrow> endpoint)
     @ '':'' @ hash_text libs (cc_auth_token config)"

text \<open>Instants are milliseconds; a verification counts for ten seconds from its end.\<close>

definition verify_service_connection_cached ::
  "'u client_libraries \<Rightarrow> nat \<Rightarrow> nat \<Rightarrow> connection_config \<Rightarrow> client_state \<Rightarrow> (string + unit) \<times> client_state" where
  "verify_service_connection_cached libs now_ms later_ms config st =
     (let key = verification_cache_key libs config
      in if (case cl_verified st key of None \<Rightarrow> False | Some verified_until \<Rightarrow> now_ms < verified_until) then (Inr (), st)
         else (case verify_service_connection libs config st of
                 (Inl e, st1) \<Rightarrow> (Inl e, st1)
               | (Inr _, st1) \<Rightarrow> (Inr (), st1\<lparr>cl_verified := (cl_verified st1)(key \<mapsto> later_ms + 10000)\<rparr>)))"

fun lookup_route :: "lookup_kind \<Rightarrow> string" where
  "lookup_route Lookup_Track = ''track''"
| "lookup_route Lookup_Bag = ''bag''"
| "lookup_route Lookup_Manifest = ''manifest''"

fun lookup_method :: "lookup_kind \<Rightarrow> string" where
  "lookup_method Lookup_Track = ''tracking.track''"
| "lookup_method Lookup_Bag = ''tracking.bag''"
| "lookup_method Lookup_Manifest = ''tracking.manifest''"

fun lookup_label :: "lookup_kind \<Rightarrow> string" where
  "lookup_label Lookup_Track = ''tracking''"
| "lookup_label Lookup_Bag = ''bag''"
| "lookup_label Lookup_Manifest = ''manifest''"

definition fetch_lookup_ipc ::
  "'u client_libraries \<Rightarrow> (json \<Rightarrow> string + 'a) \<Rightarrow> connection_config \<Rightarrow> lookup_kind \<Rightarrow> string \<Rightarrow> bool \<Rightarrow> client_state
   \<Rightarrow> (tracking_error + 'a) \<times> client_state" where
  "fetch_lookup_ipc libs decode config kind lookup_id force_refresh st =
     (case request_ipc libs config (lookup_method kind)
             (JObj [(''lookupId'', JStr lookup_id), (''forceRefresh'', JBool force_refresh)]) st of
        (Inl e, st1) \<Rightarrow> (Inl (tracking_error_from_ipc_error e), st1)
      | (Inr result, st1) \<Rightarrow>
          (case decode result of
             Inl e \<Rightarrow> (Inl (Upstream_Failure (''ShipFlow Service returned an invalid IPC lookup response: '' @ e)), st1)
           | Inr v \<Rightarrow> (Inr v, st1)))"

definition http_lookup_error :: "nat \<Rightarrow> string \<Rightarrow> tracking_error" where
  "http_lookup_error status message =
     (if status = 400 then Bad_Request message
      else if status = 404 then Not_Found message
      else if status = 429 then Rate_Limited message
      else if status = 503 then Service_Unavailable message
      else Upstream_Failure message)"

text \<open>\<open>decode_body\<close> is serde on the body, an object with the answer as its \<open>data\<close>.\<close>

definition fetch_lookup_http ::
  "'u client_libraries \<Rightarrow> (string \<Rightarrow> string + 'a) \<Rightarrow> string \<Rightarrow> connection_config \<Rightarrow> lookup_kind \<Rightarrow> string \<Rightarrow> bool
   \<Rightarrow> tracking_error + 'a" where
  "fetch_lookup_http libs decode_body base_url config kind lookup_id force_refresh =
     (case build_lookup_endpoint libs base_url (lookup_route kind) lookup_id of
        Inl e \<Rightarrow> Inl (Upstream_Failure e)
      | Inr endpoint \<Rightarrow>
          (case http_exchange libs ''Unable to reach ShipFlow Service: ''
                  (''Unable to read ShipFlow Service '' @ lookup_label kind @ '' response: '')
                  endpoint (Some (trim (cc_auth_token config))) force_refresh of
             Inl e \<Rightarrow> Inl (Upstream_Failure e)
           | Inr (status, body) \<Rightarrow>
               if is_success status
               then (case decode_body body of
                       Inl e \<Rightarrow> Inl (Upstream_Failure
                         (''ShipFlow Service returned an invalid '' @ lookup_label kind @ '' response: '' @ e))
                     | Inr v \<Rightarrow> Inr v)
               else Inl (http_lookup_error status (extract_service_error_message libs status (Some body)))))"

definition fetch_lookup ::
  "'u client_libraries \<Rightarrow> (json \<Rightarrow> string + 'a) \<Rightarrow> (string \<Rightarrow> string + 'a) \<Rightarrow> nat \<Rightarrow> nat \<Rightarrow> connection_config \<Rightarrow> lookup_kind \<Rightarrow> string \<Rightarrow> bool
   \<Rightarrow> client_state \<Rightarrow> (tracking_error + 'a) \<times> client_state" where
  "fetch_lookup libs decode decode_body now_ms later_ms config kind lookup_id force_refresh st =
     (case validate_connection libs config of
        Inl e \<Rightarrow> (Inl (Bad_Request e), st)
      | Inr _ \<Rightarrow>
          (case verify_service_connection_cached libs now_ms later_ms config st of
             (Inl e, st1) \<Rightarrow> (Inl (Upstream_Failure e), st1)
           | (Inr _, st1) \<Rightarrow>
               (case cc_transport config of
                  Local_Ipc _ \<Rightarrow> fetch_lookup_ipc libs decode config kind lookup_id force_refresh st1
                | Http_Transport base_url \<Rightarrow>
                    (fetch_lookup_http libs decode_body base_url config kind lookup_id force_refresh, st1))))"

end
