(* ===== verification/IpcProperties.thy ===== *)
theory IpcProperties
  imports InternalIpc
begin

text \<open>
  What the private channel promises: only the holder of the credential is served, and a
  lookup over the channel gives the workspace host what the service resolved.
\<close>

subsection \<open>The credential\<close>

lemma fold_or_eq_0:
  "fold (\<lambda>i d. d OR f i) xs (d :: nat) = 0 \<longleftrightarrow> d = 0 \<and> (\<forall>i \<in> set xs. f i = 0)"
  by (induction xs arbitrary: d) (auto simp: or_eq_0_iff)

lemma xor_eq_0_iff_nat: "a XOR b = 0 \<longleftrightarrow> a = (b :: nat)"
  by (auto simp: bit_eq_iff bit_xor_iff)

lemma constant_time_token_eq_iff: "constant_time_token_eq candidate expected \<longleftrightarrow> candidate = expected"
proof
  assume "constant_time_token_eq candidate expected"
  then have same: "length candidate = length expected"
    and bytes: "\<forall>i \<in> set [0..<max (length candidate) (length expected)]. byte_at candidate i = byte_at expected i"
    by (simp_all add: constant_time_token_eq_def fold_or_eq_0 xor_eq_0_iff_nat)
  show "candidate = expected"
  proof (rule nth_equalityI [OF same])
    fix i assume i: "i < length candidate"
    then have "byte_at candidate i = byte_at expected i" using bytes by simp
    with i same have "byte (candidate ! i) = byte (expected ! i)" by (simp add: byte_at_def)
    then show "candidate ! i = expected ! i" by (simp only: char_eq_byte)
  qed
next
  show "constant_time_token_eq candidate expected" if "candidate = expected"
    unfolding constant_time_token_eq_def fold_or_eq_0 that by simp
qed

lemma handle_internal_request_Inr:
  assumes "handle_internal_request svc request = Inr (message, stop)"
  shows "is_token svc \<noteq> []" and "rpc_auth_token request = Some (is_token svc)"
    and "\<exists>result. message = response_message (rpc_id request) result"
    and "stop \<longleftrightarrow> rpc_method request = ''service.shutdown''"
proof -
  let ?token = "case rpc_auth_token request of None \<Rightarrow> [] | Some t \<Rightarrow> t"
  have allowed: "\<not> (is_token svc = [] \<or> \<not> constant_time_token_eq ?token (is_token svc))"
    using assms by (auto simp: handle_internal_request_def and_then_Inr_iff Let_def split: if_splits)
  then show "is_token svc \<noteq> []" "rpc_auth_token request = Some (is_token svc)"
    by (auto simp: constant_time_token_eq_iff split: option.splits)
  show "\<exists>result. message = response_message (rpc_id request) result"
    using assms allowed by (auto simp: handle_internal_request_def and_then_Inr_iff Let_def split: if_splits)
  show "stop \<longleftrightarrow> rpc_method request = ''service.shutdown''"
    using assms allowed by (auto simp: handle_internal_request_def and_then_Inr_iff Let_def split: if_splits)
qed

text \<open>
  \<open>C39.\<close> The comparison of tokens, which looks at every byte of both, accepts exactly
  the expected token, and nobody without it is served: a request that gets a response,
  or shuts the service down, carried the credential of the service, which is not
  empty; the response answers that request, and only a shutdown request stops the service.
\<close>

theorem only_the_credential_is_served:
  "(constant_time_token_eq candidate expected \<longleftrightarrow> candidate = expected)
   \<and> (answer_connection svc request = (Msg_Response version i result, stop) \<longrightarrow>
        is_token svc \<noteq> [] \<and> rpc_auth_token request = Some (is_token svc) \<and> i = rpc_id request
        \<and> (stop \<longleftrightarrow> rpc_method request = ''service.shutdown''))
   \<and> (snd (answer_connection svc request) \<longrightarrow> rpc_auth_token request = Some (is_token svc))"
proof (intro conjI impI)
  show "constant_time_token_eq candidate expected \<longleftrightarrow> candidate = expected" by (rule constant_time_token_eq_iff)
next
  assume "answer_connection svc request = (Msg_Response version i result, stop)"
  then have "handle_internal_request svc request = Inr (Msg_Response version i result, stop)"
    by (auto simp: answer_connection_def error_message_def split: sum.splits)
  note served = handle_internal_request_Inr [OF this]
  show "is_token svc \<noteq> []" "rpc_auth_token request = Some (is_token svc)" by (fact served)+
  show "i = rpc_id request" "stop \<longleftrightarrow> rpc_method request = ''service.shutdown''"
    using served(3,4) by (auto simp: response_message_def)
next
  assume "snd (answer_connection svc request)"
  then obtain message where "handle_internal_request svc request = Inr (message, True)"
    by (auto simp: answer_connection_def split: sum.splits)
  then show "rpc_auth_token request = Some (is_token svc)" by (rule handle_internal_request_Inr)
qed

subsection \<open>A lookup from end to end\<close>

lemma trim_ascii_head:
  assumes "byte c < 128" and "32 < byte c"
  shows "trim (c # s) \<noteq> []"
proof -
  have "utf8_len c = 1" using assms(1) by (simp add: utf8_len_def)
  then have chars: "chars (c # s) = [c] # chars s" by simp
  have "\<not> is_whitespace [c]" by (rule not_whitespace_ascii [OF assms])
  then show ?thesis unfolding trim_eq_Nil_iff strip_chunks_def chars by simp
qed

definition connected :: "'u client_libraries \<Rightarrow> internal_service \<Rightarrow> bool" where
  "connected libs svc \<longleftrightarrow>
     (\<forall>endpoint request. ipc_exchange libs endpoint request = Ipc_Replied (fst (answer_connection svc request)))"

text \<open>What a request of the client gets from the service it is connected to.\<close>

lemma request_ipc_connected:
  assumes "connected libs svc" and "cc_transport config = Local_Ipc endpoint"
    and "cc_auth_token config = is_token svc" and "is_token svc \<noteq> []"
  shows "fst (request_ipc libs config ''service.status'' params st) = Inr (internal_status svc)"
    and "fst (request_ipc libs config (lookup_method kind) params st) =
      (case internal_lookup svc kind params of
         Inl e \<Rightarrow> Inl \<lparr>si_code = er_code e, si_message = er_message e\<rparr> | Inr v \<Rightarrow> Inr v)"
proof -
  have named: "trim (''service-client-'' @ x) \<noteq> []" for x by (simp add: trim_ascii_head)
  have name: "trim ''service.status'' \<noteq> []" "trim (lookup_method kind) \<noteq> []"
    by (simp add: trim_ascii_head) (cases kind; simp add: trim_ascii_head)
  have exchange: "ipc_exchange libs endpoint request = Ipc_Replied (fst (answer_connection svc request))" for request
    using assms(1) by (simp add: connected_def)
  show "fst (request_ipc libs config ''service.status'' params st) = Inr (internal_status svc)"
    using named name(1)
    by (simp add: request_ipc_def assms(2-4) exchange answer_connection_def handle_internal_request_def Let_def
        validate_request_def constant_time_token_eq_iff response_message_def)
  show "fst (request_ipc libs config (lookup_method kind) params st) =
      (case internal_lookup svc kind params of
         Inl e \<Rightarrow> Inl \<lparr>si_code = er_code e, si_message = er_message e\<rparr> | Inr v \<Rightarrow> Inr v)"
    using named name(2)
    by (cases kind; cases "internal_lookup svc kind params")
      (simp_all add: request_ipc_def assms(2-4) exchange answer_connection_def handle_internal_request_def Let_def
        validate_request_def constant_time_token_eq_iff response_message_def error_message_def)
qed

text \<open>How the errors of the service arrive: the kind survives, and the message but for the kind's name before an upstream one.\<close>

lemma tracking_error_over_ipc:
  "tracking_error_from_ipc_error \<lparr>si_code = er_code (rpc_error_from_tracking_error e),
      si_message = er_message (rpc_error_from_tracking_error e)\<rparr> =
    (case e of Upstream_Failure m \<Rightarrow> Upstream_Failure (''upstream: '' @ m) | _ \<Rightarrow> e)"
  by (cases e) (simp_all add: rpc_error_new_def tracking_error_from_ipc_error_def ipc_error_text_def)

lemma internal_lookup_params:
  "trim i \<noteq> [] \<Longrightarrow> internal_lookup svc kind (JObj [(''lookupId'', JStr i), (''forceRefresh'', JBool b)]) =
     serialize_lookup_result (is_resolve svc kind i b)"
  by (simp add: internal_lookup_def parse_lookup_params_def)

lemma fetch_lookup_connected:
  assumes "connected libs svc" and "cc_transport config = Local_Ipc endpoint" and "trim endpoint \<noteq> []"
    and "cc_auth_token config = is_token svc" and "trim (is_token svc) \<noteq> []" and "trim i \<noteq> []"
  shows "fst (fetch_lookup libs decode decode_body t0 t1 config kind i force st) =
    (case is_resolve svc kind i force of
       Inl (Upstream_Failure m) \<Rightarrow> Inl (Upstream_Failure (''upstream: '' @ m))
     | Inl e \<Rightarrow> Inl e
     | Inr (Inl e) \<Rightarrow> Inl (Upstream_Failure (''serialization_error: '' @ e))
     | Inr (Inr payload) \<Rightarrow>
         (case decode payload of
            Inl e \<Rightarrow> Inl (Upstream_Failure (''ShipFlow Service returned an invalid IPC lookup response: '' @ e))
          | Inr v \<Rightarrow> Inr v))"
proof -
  have token: "is_token svc \<noteq> []" using assms(5) by auto
  note request = request_ipc_connected [OF assms(1,2,4) token]
  have valid: "validate_connection libs config = Inr ()"
    using assms by (simp add: validate_connection_def)
  have verified: "\<exists>st1. verify_service_connection libs config st2 = (Inr (), st1)" for st2
  proof -
    obtain r st1 where r: "request_ipc libs config ''service.status'' (JObj []) st2 = (r, st1)" by fastforce
    with request(1) [of "JObj []" st2] have "r = Inr (internal_status svc)" by simp
    with r valid assms(2) show ?thesis
      by (simp add: verify_service_connection_def internal_status_def)
  qed
  have cached: "\<exists>st1. verify_service_connection_cached libs t0 t1 config st = (Inr (), st1)"
    using verified [of st] by (auto simp: verify_service_connection_cached_def Let_def)
  then obtain st1 where st1: "verify_service_connection_cached libs t0 t1 config st = (Inr (), st1)" by blast
  obtain r st2 where r: "request_ipc libs config (lookup_method kind)
      (JObj [(''lookupId'', JStr i), (''forceRefresh'', JBool force)]) st1 = (r, st2)" by fastforce
  with request(2) [of kind "JObj [(''lookupId'', JStr i), (''forceRefresh'', JBool force)]" st1] internal_lookup_params [OF assms(6), of svc kind force]
  have answer: "r = (case serialize_lookup_result (is_resolve svc kind i force) of
      Inl e \<Rightarrow> Inl \<lparr>si_code = er_code e, si_message = er_message e\<rparr> | Inr v \<Rightarrow> Inr v)" by simp
  have "fst (fetch_lookup libs decode decode_body t0 t1 config kind i force st) =
      fst (fetch_lookup_ipc libs decode config kind i force st1)"
    by (simp add: fetch_lookup_def valid st1 assms(2))
  also have "\<dots> = (case r of
       Inl e \<Rightarrow> Inl (tracking_error_from_ipc_error e)
     | Inr result \<Rightarrow> (case decode result of
         Inl e \<Rightarrow> Inl (Upstream_Failure (''ShipFlow Service returned an invalid IPC lookup response: '' @ e))
       | Inr v \<Rightarrow> Inr v))"
    by (simp add: fetch_lookup_ipc_def r split: sum.split)
  finally show ?thesis
    using tracking_error_over_ipc
    by (auto simp: answer serialize_lookup_result_def rpc_error_new_def tracking_error_from_ipc_error_def ipc_error_text_def
        split: sum.splits tracking_error.splits)
qed


subsection \<open>Examples\<close>

definition demo_service :: internal_service where
  "demo_service = \<lparr>is_token = ''sf'', is_process_id = 7, is_mode = JStr ''desktop'', is_bind_address = ''127.0.0.1'',
     is_port = 18422, is_resolve = (\<lambda>_ i _. if i = ''P1'' then Inr (Inr (JStr i)) else Inl (Not_Found ''no shipment'')),
     is_serde_error = (\<lambda>_. ''invalid type'')\<rparr>"

definition demo_libraries :: "string client_libraries" where
  "demo_libraries = \<lparr>url_parse = Inr, url_scheme = (\<lambda>_. ''http''), url_host = (\<lambda>_. None), url_push = (\<lambda>_ _. None),
     http_get = (\<lambda>_ _ _. Inl ''offline''), status_text = show_nat,
     ipc_exchange = (\<lambda>_ request. Ipc_Replied (fst (answer_connection demo_service request))),
     client_json = (\<lambda>_. Inl ''no json''), hash_text = (\<lambda>t. t), client_process = ''42''\<rparr>"

definition demo_connection :: connection_config where
  "demo_connection = \<lparr>cc_transport = Local_Ipc ''shipflow'', cc_auth_token = ''sf''\<rparr>"


definition status_request :: "string option \<Rightarrow> rpc_request" where
  "status_request token = \<lparr>rpc_protocol_version = 1, rpc_id = ''r'', rpc_method = ''service.status'',
     rpc_auth_token = token, rpc_params = JObj []\<rparr>"

theorem only_the_credential_is_served_witness:
  "answer_connection demo_service (status_request (Some ''sf'')) =
     (Msg_Response 1 ''r'' (internal_status demo_service), False) \<and> rpc_auth_token (status_request (Some ''sf'')) = Some ''sf''"
proof -
  have "trim ''r'' \<noteq> []" "trim ''service.status'' \<noteq> []" by (simp_all add: trim_ascii_head)
  then have run: "answer_connection demo_service (status_request (Some ''sf'')) =
      (Msg_Response 1 ''r'' (internal_status demo_service), False)"
    by (simp add: answer_connection_def handle_internal_request_def status_request_def demo_service_def Let_def
        validate_request_def constant_time_token_eq_iff response_message_def)
  with only_the_credential_is_served [of "[]" "[]" demo_service "status_request (Some ''sf'')" 1 "''r''" "internal_status demo_service" False]
  show ?thesis by (simp add: demo_service_def)
qed

end
