(* ===== verification/PreviewRegistry.thy ===== *)
theory PreviewRegistry
  imports Prelude "HOL-Library.AList"
begin

text \<open>
  The cancellation registry of import previews in the workspace host
  (\<open>PreviewCancellationRegistry\<close> of \<open>workspace-host/src/main.rs\<close>): one run a scope, with the
  request key that owns it, the number of its requests and the sender of a watch
  channel.  A channel is a number; its sender is dropped with the run that holds it.  A
  preview waits on its channel and gives up when a cancellation was sent, or when the
  sender is gone.
\<close>

subsection \<open>The registry\<close>

record preview_run =
  pn_request_key :: string
  pn_active_requests :: nat
  pn_channel :: nat

record preview_registry =
  pr_runs :: "(string \<times> preview_run) list"
  pr_cancelled :: "nat set"
  pr_next_channel :: nat

definition empty_registry :: preview_registry where
  "empty_registry = \<lparr>pr_runs = [], pr_cancelled = {}, pr_next_channel = 0\<rparr>"

text \<open>The channel the caller listens on, and the registry.\<close>

definition register_preview :: "string \<Rightarrow> string \<Rightarrow> preview_registry \<Rightarrow> nat \<times> preview_registry" where
  "register_preview scope_key request_key reg =
     (let insert_run = (\<lambda>reg. (pr_next_channel reg,
            reg\<lparr>pr_runs := AList.update scope_key \<lparr>pn_request_key = request_key, pn_active_requests = 1,
                  pn_channel = pr_next_channel reg\<rparr> (pr_runs reg),
                pr_next_channel := pr_next_channel reg + 1\<rparr>))
      in case map_of (pr_runs reg) scope_key of
           None \<Rightarrow> insert_run reg
         | Some run \<Rightarrow>
             if pn_request_key run = request_key
             then (pn_channel run, reg\<lparr>pr_runs := AList.update scope_key
                    (run\<lparr>pn_active_requests := min (pn_active_requests run + 1) u64_max\<rparr>) (pr_runs reg)\<rparr>)
             else insert_run (reg\<lparr>pr_cancelled := insert (pn_channel run) (pr_cancelled reg)\<rparr>))"

definition cancel_preview :: "string \<Rightarrow> string option \<Rightarrow> preview_registry \<Rightarrow> bool \<times> preview_registry" where
  "cancel_preview scope_key request_key reg =
     (case map_of (pr_runs reg) scope_key of
        None \<Rightarrow> (False, reg)
      | Some run \<Rightarrow>
          if (case request_key of None \<Rightarrow> False | Some key \<Rightarrow> key \<noteq> pn_request_key run) then (False, reg)
          else (True, reg\<lparr>pr_cancelled := insert (pn_channel run) (pr_cancelled reg)\<rparr>))"

definition complete_preview :: "string \<Rightarrow> string \<Rightarrow> preview_registry \<Rightarrow> preview_registry" where
  "complete_preview scope_key request_key reg =
     (case map_of (pr_runs reg) scope_key of
        None \<Rightarrow> reg
      | Some run \<Rightarrow>
          if pn_request_key run \<noteq> request_key then reg
          else let active = pn_active_requests run - 1
               in if active = 0 then reg\<lparr>pr_runs := AList.delete scope_key (pr_runs reg)\<rparr>
                  else reg\<lparr>pr_runs := AList.update scope_key (run\<lparr>pn_active_requests := active\<rparr>) (pr_runs reg)\<rparr>)"

text \<open>\<open>wait_for_preview_cancellation\<close> returns: cancelled, or the sender was dropped.\<close>

definition channel_open :: "preview_registry \<Rightarrow> nat \<Rightarrow> bool" where
  "channel_open reg channel \<longleftrightarrow> channel \<in> (pn_channel \<circ> snd) ` set (pr_runs reg)"

definition wakes :: "preview_registry \<Rightarrow> nat \<Rightarrow> bool" where
  "wakes reg channel \<longleftrightarrow> channel \<in> pr_cancelled reg \<or> \<not> channel_open reg channel"

subsection \<open>Previews in flight\<close>

text \<open>
  A preview is (scope key, request key, channel).  It is admitted while fewer than 64
  are in flight, ends at any time, by its result or because it wakes, and may be
  cancelled by a request at any time.  With \<open>orderly\<close> a request key is not used again
  while a preview of an earlier run under it is still in flight.
\<close>

type_synonym preview = "string \<times> string \<times> nat"

abbreviation "max_buffered_import_previews \<equiv> (64 :: nat)"

definition same_run :: "preview_registry \<Rightarrow> preview list \<Rightarrow> string \<Rightarrow> string \<Rightarrow> bool" where
  "same_run reg live scope_key request_key \<longleftrightarrow>
     (\<forall>(s, k, c) \<in> set live. s = scope_key \<and> k = request_key \<longrightarrow>
        (\<exists>run. map_of (pr_runs reg) scope_key = Some run \<and> pn_request_key run = k \<and> pn_channel run = c))"

inductive registry_step :: "bool \<Rightarrow> preview_registry \<times> preview list \<Rightarrow> preview_registry \<times> preview list \<Rightarrow> bool"
  for orderly :: bool where
  Admit: "length live < max_buffered_import_previews \<Longrightarrow> orderly \<longrightarrow> same_run reg live s k \<Longrightarrow>
    register_preview s k reg = (c, reg') \<Longrightarrow> registry_step orderly (reg, live) (reg', (s, k, c) # live)"
| Finish: "registry_step orderly (reg, before @ (s, k, c) # behind) (complete_preview s k reg, before @ behind)"
| Cancel: "cancel_preview s k reg = (found, reg') \<Longrightarrow> registry_step orderly (reg, live) (reg', live)"

inductive previews_reachable :: "bool \<Rightarrow> preview_registry \<times> preview list \<Rightarrow> bool" for orderly :: bool where
  No_Previews: "previews_reachable orderly (empty_registry, [])"
| Preview_Step: "previews_reachable orderly st \<Longrightarrow> registry_step orderly st st' \<Longrightarrow> previews_reachable orderly st'"

subsection \<open>The invariant\<close>

definition in_flight :: "preview list \<Rightarrow> string \<Rightarrow> string \<Rightarrow> nat" where
  "in_flight live s k = length (filter (\<lambda>(s', k', c). s' = s \<and> k' = k) live)"

lemma in_flight_simps [simp]:
  "in_flight [] s k = 0"
  "in_flight ((s', k', c) # live) s k = (if s' = s \<and> k' = k then Suc (in_flight live s k) else in_flight live s k)"
  "in_flight (a @ b) s k = in_flight a s k + in_flight b s k"
  by (auto simp: in_flight_def)

text \<open>
  Every run has at least one request, and no more than there are previews in flight
  under its scope and key; channels are fresh, and a preview whose channel is open is one
  of the run of its scope.
\<close>

definition counts_fit :: "(string \<Rightarrow> preview_run option) \<Rightarrow> preview list \<Rightarrow> bool" where
  "counts_fit m live \<longleftrightarrow> (\<forall>s run. m s = Some run \<longrightarrow>
     1 \<le> pn_active_requests run \<and> pn_active_requests run \<le> in_flight live s (pn_request_key run))"

definition channels_fresh :: "(string \<Rightarrow> preview_run option) \<Rightarrow> nat \<Rightarrow> preview list \<Rightarrow> bool" where
  "channels_fresh m n live \<longleftrightarrow> (\<forall>s run. m s = Some run \<longrightarrow> pn_channel run < n) \<and> (\<forall>(s, k, c) \<in> set live. c < n)"

definition channels_own :: "(string \<Rightarrow> preview_run option) \<Rightarrow> preview list \<Rightarrow> bool" where
  "channels_own m live \<longleftrightarrow>
     (\<forall>s s' run run'. m s = Some run \<longrightarrow> m s' = Some run' \<longrightarrow> pn_channel run = pn_channel run' \<longrightarrow> s = s')
     \<and> (\<forall>(s, k, c) \<in> set live. \<forall>s' run. m s' = Some run \<longrightarrow> pn_channel run = c \<longrightarrow> s' = s \<and> pn_request_key run = k)"

definition registry_ok :: "preview_registry \<Rightarrow> preview list \<Rightarrow> bool" where
  "registry_ok reg live \<longleftrightarrow> distinct (map fst (pr_runs reg)) \<and> length live \<le> max_buffered_import_previews
     \<and> counts_fit (map_of (pr_runs reg)) live \<and> channels_fresh (map_of (pr_runs reg)) (pr_next_channel reg) live
     \<and> channels_own (map_of (pr_runs reg)) live"

lemma open_iff: "distinct (map fst (pr_runs reg)) \<Longrightarrow>
    channel_open reg c \<longleftrightarrow> (\<exists>s run. map_of (pr_runs reg) s = Some run \<and> pn_channel run = c)"
  by (force simp: channel_open_def dest: map_of_SomeD)

lemma registry_ok_empty: "registry_ok empty_registry []"
  by (simp add: registry_ok_def empty_registry_def counts_fit_def channels_fresh_def channels_own_def)

text \<open>A new run, one more request of a run, one request less.\<close>

lemma new_run:
  assumes "counts_fit m live" "channels_fresh m n live" "channels_own m live" "r = \<lparr>pn_request_key = k, pn_active_requests = 1, pn_channel = n\<rparr>"
  shows "counts_fit (m(s \<mapsto> r)) ((s, k, n) # live)" "channels_fresh (m(s \<mapsto> r)) (n + 1) ((s, k, n) # live)"
    "channels_own (m(s \<mapsto> r)) ((s, k, n) # live)"
proof -
  show "counts_fit (m(s \<mapsto> r)) ((s, k, n) # live)"
    using assms(1) by (simp add: counts_fit_def assms(4) le_SucI)
  show "channels_fresh (m(s \<mapsto> r)) (n + 1) ((s, k, n) # live)"
    using assms(2) by (fastforce simp: channels_fresh_def assms(4))
  have "c \<noteq> n" if "(s', k', c) \<in> set live" for s' k' c
    using assms(2) that by (fastforce simp: channels_fresh_def)
  moreover have "pn_channel run \<noteq> n" if "m s' = Some run" for s' run
    using assms(2) that by (fastforce simp: channels_fresh_def)
  ultimately show "channels_own (m(s \<mapsto> r)) ((s, k, n) # live)"
    using assms(3) by (fastforce simp: channels_own_def assms(4))
qed

lemma joined_run:
  assumes "counts_fit m live" "channels_fresh m n live" "channels_own m live" "m s = Some run" "pn_request_key run = k"
  shows "counts_fit (m(s \<mapsto> run\<lparr>pn_active_requests := min (pn_active_requests run + 1) u64_max\<rparr>)) ((s, k, pn_channel run) # live)"
    "channels_fresh (m(s \<mapsto> run\<lparr>pn_active_requests := j\<rparr>)) n ((s, k, pn_channel run) # live)"
    "channels_own (m(s \<mapsto> run\<lparr>pn_active_requests := j\<rparr>)) ((s, k, pn_channel run) # live)"
proof -
  have "1 \<le> min (pn_active_requests run + 1) u64_max" "min (pn_active_requests run + 1) u64_max \<le> Suc (in_flight live s k)"
    using assms(1,4,5) by (auto simp: counts_fit_def intro: min.coboundedI1)
  then show "counts_fit (m(s \<mapsto> run\<lparr>pn_active_requests := min (pn_active_requests run + 1) u64_max\<rparr>)) ((s, k, pn_channel run) # live)"
    using assms(1,5) by (simp add: counts_fit_def le_SucI)
  show "channels_fresh (m(s \<mapsto> run\<lparr>pn_active_requests := j\<rparr>)) n ((s, k, pn_channel run) # live)"
    using assms(2,4) by (fastforce simp: channels_fresh_def)
  show "channels_own (m(s \<mapsto> run\<lparr>pn_active_requests := j\<rparr>)) ((s, k, pn_channel run) # live)"
    using assms(3,4,5) by (fastforce simp: channels_own_def)
qed

lemma in_flight_removed:
  "in_flight (before @ behind) s' k' =
     in_flight (before @ (s, k, c) # behind) s' k' - (if s' = s \<and> k' = k then 1 else 0)"
  by simp

lemma fewer_previews:
  assumes "channels_fresh m n live" "channels_own m live" "set live' \<subseteq> set live"
  shows "channels_fresh m n live'" "channels_own m live'"
  using assms unfolding channels_fresh_def channels_own_def by blast+

lemma left_run:
  assumes "channels_fresh m n live" "channels_own m live" "m s = Some run"
  shows "channels_fresh (m(s \<mapsto> run\<lparr>pn_active_requests := j\<rparr>)) n live" "channels_own (m(s \<mapsto> run\<lparr>pn_active_requests := j\<rparr>)) live"
    "channels_fresh (m(s := None)) n live" "channels_own (m(s := None)) live"
  using assms unfolding channels_fresh_def channels_own_def by (fastforce split: if_splits)+

lemma registry_ok_register:
  assumes ok: "registry_ok reg live" and room: "length live < max_buffered_import_previews"
    and reg: "register_preview s k reg = (c, reg')"
  shows "registry_ok reg' ((s, k, c) # live)"
proof -
  note inv = ok [unfolded registry_ok_def]
  let ?m = "map_of (pr_runs reg)"
  have fresh: "registry_ok reg' ((s, k, c) # live)"
    if "c = pr_next_channel reg" "pr_runs reg' = AList.update s \<lparr>pn_request_key = k, pn_active_requests = 1, pn_channel = c\<rparr> (pr_runs reg)"
      "pr_next_channel reg' = c + 1"
    using inv room new_run [of ?m live "pr_next_channel reg" "\<lparr>pn_request_key = k, pn_active_requests = 1, pn_channel = c\<rparr>" k s] that
    by (simp add: registry_ok_def update_conv' distinct_update)
  show ?thesis
  proof (cases "?m s")
    case None
    with reg show ?thesis by (intro fresh) (auto simp: register_preview_def Let_def)
  next
    case (Some run)
    show ?thesis
    proof (cases "pn_request_key run = k")
      case True
      with Some reg have r: "c = pn_channel run" "pr_next_channel reg' = pr_next_channel reg"
        "pr_runs reg' = AList.update s (run\<lparr>pn_active_requests := min (pn_active_requests run + 1) u64_max\<rparr>) (pr_runs reg)"
        by (auto simp: register_preview_def Let_def)
      from inv room joined_run [of ?m live "pr_next_channel reg" s run k, OF _ _ _ Some True] show ?thesis
        unfolding registry_ok_def r update_conv' by (simp add: distinct_update)
    next
      case False
      with Some reg show ?thesis by (intro fresh) (auto simp: register_preview_def Let_def)
    qed
  qed
qed

lemma counts_fitI:
  "(\<And>s run. m s = Some run \<Longrightarrow>
     1 \<le> pn_active_requests run \<and> pn_active_requests run \<le> in_flight live s (pn_request_key run)) \<Longrightarrow> counts_fit m live"
  by (simp add: counts_fit_def)

lemma registry_ok_complete:
  assumes ok: "registry_ok reg (before @ (s, k, c) # behind)"
  shows "registry_ok (complete_preview s k reg) (before @ behind)"
proof -
  note inv = ok [unfolded registry_ok_def]
  let ?m = "map_of (pr_runs reg)" and ?n = "pr_next_channel reg" and ?live = "before @ behind"
  have less: "channels_fresh ?m ?n ?live" "channels_own ?m ?live"
    using inv fewer_previews [of ?m ?n "before @ (s, k, c) # behind" ?live] by auto
  have fits: "1 \<le> pn_active_requests run \<and> pn_active_requests run \<le> in_flight ?live s' (pn_request_key run)
        + (if s' = s \<and> pn_request_key run = k then 1 else 0)" if "?m s' = Some run" for s' run
    using inv that by (auto simp: counts_fit_def split: if_splits)
  show ?thesis
  proof (cases "?m s")
    case None
    have "counts_fit ?m ?live"
      by (rule counts_fitI) (use fits None in \<open>fastforce split: if_splits\<close>)
    with None less inv show ?thesis by (simp add: registry_ok_def complete_preview_def)
  next
    case (Some run)
    note left = left_run [OF less Some]
    show ?thesis
    proof (cases "pn_request_key run = k")
      case False
      have "counts_fit ?m ?live"
        by (rule counts_fitI) (use fits Some False in \<open>fastforce split: if_splits\<close>)
      with False Some less inv show ?thesis by (simp add: registry_ok_def complete_preview_def)
    next
      case True
      show ?thesis
      proof (cases "pn_active_requests run - 1 = 0")
        case last: True
        have "counts_fit (?m(s := None)) ?live"
          by (rule counts_fitI) (use fits in \<open>fastforce split: if_splits\<close>)
        with last True Some left inv show ?thesis
          by (simp add: registry_ok_def complete_preview_def Let_def delete_conv' distinct_delete)
      next
        case more: False
        have "counts_fit (?m(s \<mapsto> run\<lparr>pn_active_requests := pn_active_requests run - 1\<rparr>)) ?live"
        proof (rule counts_fitI)
          fix s' run' assume m: "(?m(s \<mapsto> run\<lparr>pn_active_requests := pn_active_requests run - 1\<rparr>)) s' = Some run'"
          show "1 \<le> pn_active_requests run' \<and> pn_active_requests run' \<le> in_flight ?live s' (pn_request_key run')"
          proof (cases "s' = s")
            case same: True
            with m have "run' = run\<lparr>pn_active_requests := pn_active_requests run - 1\<rparr>" by simp
            with fits [OF Some] more True same show ?thesis by auto
          next
            case False
            with m fits [of s' run'] show ?thesis by simp
          qed
        qed
        with more True Some left inv show ?thesis
          by (simp add: registry_ok_def complete_preview_def Let_def update_conv' distinct_update)
      qed
    qed
  qed
qed

lemma cancel_keeps_runs:
  "cancel_preview s k reg = (found, reg') \<Longrightarrow> pr_runs reg' = pr_runs reg \<and> pr_next_channel reg' = pr_next_channel reg"
  by (auto simp: cancel_preview_def split: option.splits if_splits)

lemma registry_ok_reachable: "previews_reachable orderly st \<Longrightarrow> registry_ok (fst st) (snd st)"
proof (induction rule: previews_reachable.induct)
  case No_Previews
  show ?case by (simp add: registry_ok_empty)
next
  case (Preview_Step st st')
  from Preview_Step.hyps(2) Preview_Step.IH show ?case
  proof (cases rule: registry_step.cases)
    case (Admit live reg s k c reg')
    with Preview_Step.IH show ?thesis using registry_ok_register [of reg live s k c reg'] by simp
  next
    case (Finish reg before s k c behind)
    with Preview_Step.IH show ?thesis using registry_ok_complete by simp
  next
    case (Cancel s k reg found reg' live)
    with Preview_Step.IH show ?thesis using cancel_keeps_runs [OF Cancel(3)] by (simp add: registry_ok_def)
  qed
qed

subsection \<open>What the registry promises\<close>

lemma runs_within_previews:
  assumes "registry_ok reg live"
  shows "length (pr_runs reg) \<le> length live"
proof -
  have keys: "distinct (map fst (pr_runs reg))" using assms by (simp add: registry_ok_def)
  have "fst ` set (pr_runs reg) \<subseteq> fst ` set live"
  proof
    fix s assume "s \<in> fst ` set (pr_runs reg)"
    then obtain run where run: "map_of (pr_runs reg) s = Some run" using keys by force
    then have "1 \<le> in_flight live s (pn_request_key run)"
      using assms by (fastforce simp: registry_ok_def counts_fit_def)
    then have "filter (\<lambda>(s', k', c). s' = s \<and> k' = pn_request_key run) live \<noteq> []"
      unfolding in_flight_def by (metis One_nat_def Suc_n_not_le_n list.size(3))
    then show "s \<in> fst ` set live" by (force simp: filter_empty_conv)
  qed
  then have "card (fst ` set (pr_runs reg)) \<le> card (fst ` set live)" by (intro card_mono) auto
  also have "\<dots> \<le> length live" by (metis card_length length_map list.set_map)
  finally show ?thesis using distinct_card [OF keys] by simp
qed

lemma superseded_wakes:
  assumes ok: "registry_ok reg live" and reg: "register_preview s k reg = (c, reg')"
    and live: "(s, k', c') \<in> set live" and other: "k' \<noteq> k"
  shows "wakes reg' c'"
proof (cases "channel_open reg c'")
  case False
  moreover have "c' < pr_next_channel reg" using ok live by (fastforce simp: registry_ok_def channels_fresh_def)
  moreover have "channel_open reg' c' \<longrightarrow> channel_open reg c' \<or> c' = c"
  proof -
    have keys: "distinct (map fst (pr_runs reg))" "distinct (map fst (pr_runs reg'))"
      using ok reg by (auto simp: registry_ok_def register_preview_def Let_def distinct_update split: option.splits if_splits)
    show ?thesis
      unfolding open_iff [OF keys(1)] open_iff [OF keys(2)]
      using reg by (auto simp: register_preview_def Let_def update_conv' split: option.splits if_splits) blast+
  qed
  moreover have "c = pr_next_channel reg \<or> channel_open reg c"
    using reg ok open_iff [of reg c] by (auto simp: register_preview_def registry_ok_def Let_def split: option.splits if_splits)
  ultimately show ?thesis by (auto simp: wakes_def)
next
  case True
  then obtain s' run where run: "map_of (pr_runs reg) s' = Some run" "pn_channel run = c'"
    using open_iff [of reg c'] ok by (auto simp: registry_ok_def)
  with ok live have "s' = s" "pn_request_key run = k'" by (fastforce simp: registry_ok_def channels_own_def)+
  with run reg other show ?thesis by (auto simp: register_preview_def wakes_def Let_def)
qed

lemma cancelled_wakes:
  assumes ok: "registry_ok reg live" and "cancel_preview s key reg = (True, reg')"
    and live: "(s, k, c) \<in> set live" and key: "key = None \<or> key = Some k"
  shows "wakes reg' c"
proof (cases "channel_open reg c")
  case False
  with assms(2) cancel_keeps_runs [OF assms(2)] show ?thesis by (simp add: wakes_def channel_open_def)
next
  case True
  then obtain s' run where run: "map_of (pr_runs reg) s' = Some run" "pn_channel run = c"
    using open_iff [of reg c] ok by (auto simp: registry_ok_def)
  with ok live have "s' = s" by (fastforce simp: registry_ok_def channels_own_def)
  with run assms(2) key show ?thesis by (auto simp: cancel_preview_def wakes_def split: if_splits)
qed

text \<open>With orderly keys a preview wakes only when a cancellation was sent on its channel.\<close>

definition runs_complete :: "preview_registry \<Rightarrow> preview list \<Rightarrow> bool" where
  "runs_complete reg live \<longleftrightarrow>
     (\<forall>s run. map_of (pr_runs reg) s = Some run \<longrightarrow> pn_active_requests run = in_flight live s (pn_request_key run)
        \<and> (\<forall>k c. (s, k, c) \<in> set live \<longrightarrow> k = pn_request_key run \<longrightarrow> c = pn_channel run))
     \<and> (\<forall>s k c. (s, k, c) \<in> set live \<longrightarrow> c \<notin> pr_cancelled reg \<longrightarrow>
          (\<exists>run. map_of (pr_runs reg) s = Some run \<and> pn_request_key run = k \<and> pn_channel run = c))"

lemma runs_completeD:
  assumes "runs_complete reg live"
  shows "map_of (pr_runs reg) s = Some run \<Longrightarrow> pn_active_requests run = in_flight live s (pn_request_key run)"
    and "map_of (pr_runs reg) s = Some run \<Longrightarrow> (s, pn_request_key run, c) \<in> set live \<Longrightarrow> c = pn_channel run"
    and "(s, k, c) \<in> set live \<Longrightarrow> c \<notin> pr_cancelled reg \<Longrightarrow>
      \<exists>run. map_of (pr_runs reg) s = Some run \<and> pn_request_key run = k \<and> pn_channel run = c"
  using assms unfolding runs_complete_def by blast+

lemma runs_completeI:
  assumes "\<And>s run. map_of (pr_runs reg) s = Some run \<Longrightarrow> pn_active_requests run = in_flight live s (pn_request_key run)"
    and "\<And>s run c. map_of (pr_runs reg) s = Some run \<Longrightarrow> (s, pn_request_key run, c) \<in> set live \<Longrightarrow> c = pn_channel run"
    and "\<And>s k c. (s, k, c) \<in> set live \<Longrightarrow> c \<notin> pr_cancelled reg \<Longrightarrow>
      \<exists>run. map_of (pr_runs reg) s = Some run \<and> pn_request_key run = k \<and> pn_channel run = c"
  shows "runs_complete reg live"
  unfolding runs_complete_def using assms by blast

lemma in_flight_le: "in_flight live s k \<le> length live"
  by (simp add: in_flight_def)

lemma in_flight_0_iff: "in_flight live s k = 0 \<longleftrightarrow> (\<forall>c. (s, k, c) \<notin> set live)"
  by (auto simp: in_flight_def filter_empty_conv)

lemma runs_complete_register:
  assumes runs: "runs_complete reg live" and room: "length live < max_buffered_import_previews"
    and orderly: "same_run reg live s k" and reg: "register_preview s k reg = (c, reg')"
  shows "runs_complete reg' ((s, k, c) # live)"
proof (cases "\<exists>run. map_of (pr_runs reg) s = Some run \<and> pn_request_key run = k")
  case True
  then obtain run where run: "map_of (pr_runs reg) s = Some run" "pn_request_key run = k" by blast
  with runs have active: "pn_active_requests run = in_flight live s k" by (auto simp: runs_complete_def)
  have "in_flight live s k + 1 \<le> u64_max" using in_flight_le [of live s k] room by linarith
  with reg run active have r: "c = pn_channel run" "pr_cancelled reg' = pr_cancelled reg"
    "map_of (pr_runs reg') = (map_of (pr_runs reg))(s \<mapsto> run\<lparr>pn_active_requests := in_flight live s k + 1\<rparr>)"
    by (auto simp: register_preview_def Let_def update_conv' min_def)
  show ?thesis using runs run by (fastforce simp: runs_complete_def r)
next
  case False
  then have none: "\<forall>c. (s, k, c) \<notin> set live" using orderly by (fastforce simp: same_run_def)
  from False reg have r: "map_of (pr_runs reg') = (map_of (pr_runs reg))(s \<mapsto> \<lparr>pn_request_key = k, pn_active_requests = 1, pn_channel = c\<rparr>)"
    "pr_cancelled reg' = pr_cancelled reg \<union> (case map_of (pr_runs reg) s of None \<Rightarrow> {} | Some run \<Rightarrow> {pn_channel run})"
    by (auto simp: register_preview_def Let_def update_conv' split: option.splits)
  have alone: "in_flight live s k = 0" using none by (simp add: in_flight_0_iff)
  show ?thesis
    unfolding runs_complete_def
  proof (intro conjI allI impI)
    fix s' run' assume m: "map_of (pr_runs reg') s' = Some run'"
    show "pn_active_requests run' = in_flight ((s, k, c) # live) s' (pn_request_key run')"
      using m runs alone by (auto simp: r(1) runs_complete_def split: if_splits)
    show "c' = pn_channel run'" if "(s', k', c') \<in> set ((s, k, c) # live)" "k' = pn_request_key run'" for k' c'
      using m runs none that by (auto simp: r(1) runs_complete_def split: if_splits)
  next
    fix s' k' c' assume t: "(s', k', c') \<in> set ((s, k, c) # live)" and quiet: "c' \<notin> pr_cancelled reg'"
    show "\<exists>run'. map_of (pr_runs reg') s' = Some run' \<and> pn_request_key run' = k' \<and> pn_channel run' = c'"
    proof (cases "(s', k', c') = (s, k, c)")
      case False
      with t have "(s', k', c') \<in> set live" by auto
      moreover have "c' \<notin> pr_cancelled reg" using quiet r(2) by auto
      ultimately obtain run' where run': "map_of (pr_runs reg) s' = Some run'" "pn_request_key run' = k'" "pn_channel run' = c'"
        using runs unfolding runs_complete_def by blast
      have "s' \<noteq> s"
      proof
        assume "s' = s"
        with run' r(2) have "c' \<in> pr_cancelled reg'" by simp
        with quiet show False ..
      qed
      with run' show ?thesis by (simp add: r(1))
    qed (simp add: r(1))
  qed
qed

lemma runs_complete_complete:
  assumes runs: "runs_complete reg (before @ (s, k, c) # behind)"
  shows "runs_complete (complete_preview s k reg) (before @ behind)"
proof (cases "\<exists>run. map_of (pr_runs reg) s = Some run \<and> pn_request_key run = k")
  case False
  then have "complete_preview s k reg = reg" by (auto simp: complete_preview_def split: option.splits)
  with runs False show ?thesis by (fastforce simp: runs_complete_def)
next
  case True
  let ?live = "before @ behind"
  obtain run where run: "map_of (pr_runs reg) s = Some run" "pn_request_key run = k" using True by blast
  with runs have active: "pn_active_requests run = Suc (in_flight ?live s k)" by (simp add: runs_complete_def)
  have live: "x \<in> set ?live \<Longrightarrow> x \<in> set (before @ (s, k, c) # behind)" for x by auto
  note chan = runs_completeD(2) [OF runs _ live] and own = runs_completeD(3) [OF runs live]
  have count: "pn_active_requests run' = in_flight ?live s' (pn_request_key run')"
    if "map_of (pr_runs reg) s' = Some run'" "s' \<noteq> s" for s' run'
    using runs_completeD(1) [OF runs that(1)] that(2) by simp
  show ?thesis
  proof (cases "in_flight ?live s k = 0")
    case zero: True
    then have r: "complete_preview s k reg = reg\<lparr>pr_runs := AList.delete s (pr_runs reg)\<rparr>"
      using run active by (simp add: complete_preview_def Let_def)
    show ?thesis
    proof (rule runs_completeI)
      fix s' k' c' assume m: "(s', k', c') \<in> set ?live" "c' \<notin> pr_cancelled (complete_preview s k reg)"
      then obtain run' where run': "map_of (pr_runs reg) s' = Some run'" "pn_request_key run' = k'" "pn_channel run' = c'"
        using own [OF m(1)] by (auto simp: r)
      have "s' \<noteq> s"
      proof
        assume "s' = s"
        with run run' have "k' = k" by simp
        with m(1) zero \<open>s' = s\<close> show False by (auto simp: in_flight_0_iff simp del: in_flight_simps)
      qed
      with run' show "\<exists>run'. map_of (pr_runs (complete_preview s k reg)) s' = Some run'
          \<and> pn_request_key run' = k' \<and> pn_channel run' = c'"
        by (simp add: r delete_conv')
    next
      fix s' run' assume "map_of (pr_runs (complete_preview s k reg)) s' = Some run'"
      then have m: "map_of (pr_runs reg) s' = Some run'" "s' \<noteq> s" by (simp_all add: r delete_conv' split: if_splits)
      show "pn_active_requests run' = in_flight ?live s' (pn_request_key run')" by (rule count [OF m])
      show "c' = pn_channel run'" if "(s', pn_request_key run', c') \<in> set ?live" for c'
        by (rule chan [OF m(1) that])
    qed
  next
    case more: False
    let ?run = "run\<lparr>pn_active_requests := in_flight ?live s k\<rparr>"
    have r: "complete_preview s k reg = reg\<lparr>pr_runs := AList.update s ?run (pr_runs reg)\<rparr>"
      using more run active by (auto simp: complete_preview_def Let_def)
    show ?thesis
    proof (rule runs_completeI)
      fix s' k' c' assume m: "(s', k', c') \<in> set ?live" "c' \<notin> pr_cancelled (complete_preview s k reg)"
      then obtain run' where run': "map_of (pr_runs reg) s' = Some run'" "pn_request_key run' = k'" "pn_channel run' = c'"
        using own [OF m(1)] by (auto simp: r)
      with run show "\<exists>run'. map_of (pr_runs (complete_preview s k reg)) s' = Some run'
          \<and> pn_request_key run' = k' \<and> pn_channel run' = c'"
        by (cases "s' = s") (simp_all add: r update_conv')
    next
      fix s' run' assume m: "map_of (pr_runs (complete_preview s k reg)) s' = Some run'"
      show "pn_active_requests run' = in_flight ?live s' (pn_request_key run')"
        using m run count [of s' run'] by (cases "s' = s") (auto simp: r update_conv')
      show "c' = pn_channel run'" if "(s', pn_request_key run', c') \<in> set ?live" for c'
        using m run chan [of s' _ c'] that by (cases "s' = s") (auto simp: r update_conv')
    qed
  qed
qed

lemma runs_complete_cancel:
  assumes "runs_complete reg live" and "cancel_preview s key reg = (found, reg')"
  shows "runs_complete reg' live"
  using assms by (auto simp: runs_complete_def cancel_preview_def split: option.splits if_splits)

lemma orderly_runs_complete: "previews_reachable True st \<Longrightarrow> runs_complete (fst st) (snd st)"
proof (induction rule: previews_reachable.induct)
  case No_Previews
  show ?case by (simp add: runs_complete_def empty_registry_def)
next
  case (Preview_Step st st')
  from Preview_Step.hyps(2) Preview_Step.IH show ?case
  proof (cases rule: registry_step.cases)
    case (Admit live reg s k c reg')
    with Preview_Step.IH show ?thesis using runs_complete_register [of reg live s k c reg'] by simp
  next
    case (Finish reg before s k c behind)
    with Preview_Step.IH show ?thesis using runs_complete_complete by simp
  next
    case (Cancel s k reg found reg' live)
    with Preview_Step.IH show ?thesis using runs_complete_cancel [OF _ Cancel(3)] by simp
  qed
qed

text \<open>
  \<open>C11.\<close> The registry of previews, under any interleaving of arrivals, ends and
  cancellations: it never holds more entries than previews are in flight, of which there
  are at most 64, so nothing is left when all have ended; a preview that another request
  key supersedes in its scope wakes, and so does every preview of a scope whose
  cancellation is answered with true; and as long as a request key is not used again
  while a preview of an earlier run under it is in flight, no preview wakes without a
  cancellation sent to its run.
\<close>

theorem previews_are_cancelled_when_superseded:
  assumes "previews_reachable orderly (reg, live)"
  shows "length (pr_runs reg) \<le> length live \<and> length live \<le> max_buffered_import_previews
    \<and> (\<forall>(s, k, c) \<in> set live.
         (\<forall>k' c' reg'. register_preview s k' reg = (c', reg') \<and> k' \<noteq> k \<longrightarrow> wakes reg' c)
         \<and> (\<forall>key reg'. cancel_preview s key reg = (True, reg') \<and> (key = None \<or> key = Some k) \<longrightarrow> wakes reg' c)
         \<and> (orderly \<and> wakes reg c \<longrightarrow> c \<in> pr_cancelled reg))"
proof -
  note ok = registry_ok_reachable [OF assms, simplified]
  have "wakes reg' c" if "(s, k, c) \<in> set live" "register_preview s k' reg = (c', reg')" "k' \<noteq> k" for s k c k' c' reg'
    using superseded_wakes [OF ok that(2,1)] that(3) by blast
  moreover have "wakes reg' c"
    if "(s, k, c) \<in> set live" "cancel_preview s key reg = (True, reg')" "key = None \<or> key = Some k" for s k c key reg'
    by (rule cancelled_wakes [OF ok that(2,1,3)])
  moreover have "c \<in> pr_cancelled reg" if live: "(s, k, c) \<in> set live" "orderly" "wakes reg c" for s k c
  proof (rule ccontr)
    assume quiet: "c \<notin> pr_cancelled reg"
    have "runs_complete reg live" using orderly_runs_complete [of "(reg, live)"] assms live(2) by simp
    then obtain run where "map_of (pr_runs reg) s = Some run" "pn_channel run = c"
      using live(1) quiet unfolding runs_complete_def by blast
    then have "channel_open reg c" using open_iff [of reg c] ok by (auto simp: registry_ok_def)
    with live(3) quiet show False by (simp add: wakes_def)
  qed
  moreover have "length live \<le> max_buffered_import_previews" using ok by (simp add: registry_ok_def)
  ultimately show ?thesis using runs_within_previews [OF ok] by blast
qed

theorem previews_are_cancelled_when_superseded_witness:
  "\<exists>c reg. register_preview ''s'' ''k'' empty_registry = (c, reg) \<and> \<not> wakes reg c
     \<and> wakes (snd (register_preview ''s'' ''k2'' reg)) c"
proof -
  obtain c reg where reg: "register_preview ''s'' ''k'' empty_registry = (c, reg)" by fastforce
  have "previews_reachable True (reg, [(''s'', ''k'', c)])"
    by (rule Preview_Step [OF No_Previews Admit [OF _ _ reg]]) (simp_all add: same_run_def)
  note facts = previews_are_cancelled_when_superseded [OF this]
  obtain c2 reg2 where reg2: "register_preview ''s'' ''k2'' reg = (c2, reg2)" by fastforce
  have "wakes reg2 c" using facts reg2 by fastforce
  moreover have "wakes reg c \<longrightarrow> c \<in> pr_cancelled reg" using facts by simp
  moreover have "pr_cancelled reg = {}" using reg by (auto simp: register_preview_def empty_registry_def Let_def)
  ultimately show ?thesis using reg reg2 by (intro exI [of _ c] exI [of _ reg]) simp
qed

subsection \<open>A key used again\<close>

text \<open>
  Two keys in turn: the first preview of key \<open>a\<close> is superseded by key \<open>b\<close>, and a new
  preview of key \<open>a\<close> supersedes that.  When the first one then ends, it takes away the run
  of the new one, whose sender is dropped: the newest preview, which nobody cancelled and
  which is the current one of its scope, gives up as cancelled.
\<close>

definition reused_key :: "preview_registry" where
  "reused_key = complete_preview ''s'' ''a'' (snd (register_preview ''s'' ''a''
     (snd (register_preview ''s'' ''b'' (snd (register_preview ''s'' ''a'' empty_registry))))))"

lemma reused_key_is_cancelled:
  "previews_reachable False (reused_key, [(''s'', ''a'', 2), (''s'', ''b'', 1)])"
  "wakes reused_key 2" "2 \<notin> pr_cancelled reused_key"
proof -
  let ?r1 = "snd (register_preview ''s'' ''a'' empty_registry)"
  let ?r2 = "snd (register_preview ''s'' ''b'' ?r1)"
  let ?r3 = "snd (register_preview ''s'' ''a'' ?r2)"
  have regs: "register_preview ''s'' ''a'' empty_registry = (0, ?r1)" "register_preview ''s'' ''b'' ?r1 = (1, ?r2)"
    "register_preview ''s'' ''a'' ?r2 = (2, ?r3)"
    by (simp_all add: register_preview_def empty_registry_def Let_def)
  have "previews_reachable False (?r1, [(''s'', ''a'', 0)])"
    by (rule Preview_Step [OF No_Previews Admit [OF _ _ regs(1)]]) simp_all
  then have "previews_reachable False (?r2, [(''s'', ''b'', 1), (''s'', ''a'', 0)])"
    by (rule Preview_Step [OF _ Admit [OF _ _ regs(2)]]) simp_all
  then have "previews_reachable False (?r3, [(''s'', ''a'', 2), (''s'', ''b'', 1), (''s'', ''a'', 0)])"
    by (rule Preview_Step [OF _ Admit [OF _ _ regs(3)]]) simp_all
  moreover have "registry_step False (?r3, [(''s'', ''a'', 2), (''s'', ''b'', 1)] @ (''s'', ''a'', 0) # [])
      (complete_preview ''s'' ''a'' ?r3, [(''s'', ''a'', 2), (''s'', ''b'', 1)] @ [])"
    by (rule Finish)
  ultimately show "previews_reachable False (reused_key, [(''s'', ''a'', 2), (''s'', ''b'', 1)])"
    unfolding reused_key_def by (auto intro: Preview_Step)
  show "wakes reused_key 2" "2 \<notin> pr_cancelled reused_key"
    by (simp_all add: reused_key_def register_preview_def empty_registry_def complete_preview_def Let_def wakes_def
        channel_open_def)
qed

end
