(* ===== verification/WorkspaceHost.thy ===== *)
theory WorkspaceHost
  imports PreviewRegistry Rpc EngineProperties "HOL-Library.Multiset"
begin

text \<open>
  The workspace host (\<open>workspace-host/src/main.rs\<close>): the handling of a request by the
  serial actor, by a long operation on a connection of its own, and by a preview, and
  the main loop that takes requests from standard input and hands them out.  Standard
  output takes every message.
\<close>

subsection \<open>Libraries\<close>

text \<open>serde's decoding of texts and parameters, and its encoding of answers and events.\<close>

record 'f host_libraries =
  hl_request :: "string \<Rightarrow> string + rpc_request"
  hl_command :: "json \<Rightarrow> string + workspace_command"
  hl_refresh :: "json \<Rightarrow> string + refresh_rows_request"
  hl_decode_error :: "json \<Rightarrow> string"
  hl_response :: "'f workspace_response \<Rightarrow> string + json_object"
  hl_event :: "refresh_event \<Rightarrow> json option"
  hl_engine_text :: "engine_error \<Rightarrow> string"
  hl_store_text :: "store_error \<Rightarrow> string"

definition json_as_i64 :: "json \<Rightarrow> int option" where
  "json_as_i64 v =
     (case v of JInt i \<Rightarrow> if - 9223372036854775808 \<le> i \<and> i \<le> 9223372036854775807 then Some i else None | _ \<Rightarrow> None)"

subsection \<open>Kinds of requests\<close>

definition command_name :: "rpc_request \<Rightarrow> string option" where
  "command_name request = Option.bind (json_get ''command'' (rpc_params request)) as_str"

definition is_import_preview_request :: "rpc_request \<Rightarrow> bool" where
  "is_import_preview_request request \<longleftrightarrow>
     rpc_method request = ''workspace.command'' \<and> command_name request = Some ''preview_import_source''"

definition is_long_running_request :: "rpc_request \<Rightarrow> bool" where
  "is_long_running_request request \<longleftrightarrow>
     rpc_method request = ''workspace.refresh_tracking_with_progress''
     \<or> (rpc_method request = ''workspace.command''
        \<and> command_name request \<in> {Some ''refresh_sheet_row_tracking'', Some ''refresh_sheet_rows_tracking''})"

fun is_obsolete_import_job_command :: "workspace_command \<Rightarrow> bool" where
  "is_obsolete_import_job_command (Cmd_Create_Import_Job _) = True"
| "is_obsolete_import_job_command (Cmd_Run_Import_Job _) = True"
| "is_obsolete_import_job_command (Cmd_Retry_Import_Job_Failed _) = True"
| "is_obsolete_import_job_command (Cmd_Cancel_Import_Job _) = True"
| "is_obsolete_import_job_command (Cmd_Get_Import_Job _) = True"
| "is_obsolete_import_job_command _ = False"

definition validate_preview_key :: "string \<Rightarrow> string \<Rightarrow> rpc_error + unit" where
  "validate_preview_key v label =
     (if trim v = [] \<or> 256 < length v
      then Inl (rpc_error_new ''invalid_params'' (label @ '' must contain between 1 and 256 characters.''))
      else Inr ())"

text \<open>The scope key and the request key of a preview; both default to the id.\<close>

definition import_preview_identity :: "rpc_request \<Rightarrow> rpc_error + string \<times> string" where
  "import_preview_identity request =
     and_then (ok_or (rpc_error_new ''invalid_params'' ''Import preview payload is required.'')
                (json_get ''payload'' (rpc_params request))) (\<lambda>payload.
       let key = (\<lambda>name. case Option.bind (json_get name payload) as_str of None \<Rightarrow> rpc_id request | Some k \<Rightarrow> k);
           scope_key = key ''scopeKey''; request_key = key ''requestKey''
       in and_then (validate_preview_key scope_key ''scopeKey'') (\<lambda>_.
          and_then (validate_preview_key request_key ''requestKey'') (\<lambda>_. Inr (scope_key, request_key))))"

text \<open>serde on the parameters of a cancellation: an object, or the two fields in order.\<close>

fun decode_cancel_request :: "(json \<Rightarrow> string) \<Rightarrow> json \<Rightarrow> string + string \<times> string option" where
  "decode_cancel_request serde_error (JObj ms) =
     (case (map_of ms ''scopeKey'', map_of ms ''requestKey'') of
        (Some (JStr s), None) \<Rightarrow> Inr (s, None)
      | (Some (JStr s), Some JNull) \<Rightarrow> Inr (s, None)
      | (Some (JStr s), Some (JStr k)) \<Rightarrow> Inr (s, Some k)
      | _ \<Rightarrow> Inl (serde_error (JObj ms)))"
| "decode_cancel_request serde_error (JArr [JStr s, JNull]) = Inr (s, None)"
| "decode_cancel_request serde_error (JArr [JStr s, JStr k]) = Inr (s, Some k)"
| "decode_cancel_request serde_error v = Inl (serde_error v)"

subsection \<open>A request of the workspace\<close>

text \<open>The outcome of a request, the messages sent on the way, and the runtime after it.\<close>

type_synonym request_outcome = "(rpc_error + unit) \<times> rpc_message list \<times> runtime"

definition send_result :: "string \<Rightarrow> string + json \<Rightarrow> runtime \<Rightarrow> request_outcome" where
  "send_result request_id result rt =
     (case result of
        Inl e \<Rightarrow> (Inl (rpc_error_new ''transport_error'' (''Unable to serialize Workspace Host result: '' @ e)), [], rt)
      | Inr v \<Rightarrow> (Inr (), [response_message request_id v], rt))"

text \<open>The answer of a command carries the generation of the document it left.\<close>

definition send_with_generation ::
  "'f host_libraries \<Rightarrow> string \<Rightarrow> (engine_error + 'f workspace_response) \<times> runtime \<Rightarrow> request_outcome" where
  "send_with_generation libs request_id = (\<lambda>(result, rt).
     case result of
       Inl e \<Rightarrow> (Inl (rpc_error_new ''workspace_error'' (hl_engine_text libs e)), [], rt)
     | Inr response \<Rightarrow>
         (case hl_response libs response of
            Inl e \<Rightarrow> (Inl (rpc_error_new ''workspace_error'' e), [], rt)
          | Inr ms \<Rightarrow> send_result request_id
              (Inr (JObj (AList.update ''documentGeneration'' (JInt (generation (rt_db rt))) ms))) rt))"

definition refuse :: "string \<Rightarrow> string \<Rightarrow> runtime \<Rightarrow> request_outcome" where
  "refuse code message rt = (Inl (rpc_error_new code message), [], rt)"

definition restore_file_request ::
  "'f host_libraries \<Rightarrow> ('r, 'f) engine_world \<Rightarrow> rpc_request \<Rightarrow> runtime \<Rightarrow> request_outcome" where
  "restore_file_request libs w request rt =
     (case Option.bind (json_get ''fileName'' (rpc_params request)) as_str of
        None \<Rightarrow> refuse ''invalid_params'' ''Missing restore staging filename.'' rt
      | Some file_name \<Rightarrow>
          send_with_generation libs (rpc_id request) (responded Resp_Sheets (restore_workspace_file w file_name rt)))"

definition command_request ::
  "'f host_libraries \<Rightarrow> ('r, 'f) engine_world \<Rightarrow> rpc_request \<Rightarrow> runtime \<Rightarrow> request_outcome option" where
  "command_request libs w request rt =
     (case hl_command libs (rpc_params request) of
        Inl e \<Rightarrow> Some (refuse ''invalid_params'' e rt)
      | Inr command \<Rightarrow>
          if is_obsolete_import_job_command command
          then Some (refuse ''method_not_found''
                 ''Persisted import jobs are no longer exposed. Use preview_import_source.'' rt)
          else map_option (send_with_generation libs (rpc_id request)) (handle_command w command rt))"

definition refresh_request_with_progress ::
  "'f host_libraries \<Rightarrow> ('r, 'f) engine_world \<Rightarrow> rpc_request \<Rightarrow> runtime \<Rightarrow> request_outcome" where
  "refresh_request_with_progress libs w request rt =
     (case hl_refresh libs (rpc_params request) of
        Inl e \<Rightarrow> refuse ''invalid_params'' e rt
      | Inr params \<Rightarrow>
          let (result, events, rt1) = refresh_sheet_rows_tracking_with_progress w params rt;
              sent = map (event_message (rpc_id request)) (List.map_filter (hl_event libs) events)
          in (case result of
                Inl e \<Rightarrow> (Inl (rpc_error_new ''workspace_error'' (hl_engine_text libs e)), sent, rt1)
              | Inr v \<Rightarrow>
                  let (outcome, answer, rt2) = send_result (rpc_id request)
                        (map_sum id JObj (hl_response libs (Resp_Sheet_Rows_Tracking_Refresh v))) rt1
                  in (outcome, sent @ answer, rt2)))"

text \<open>The methods that work on the document the request is bound to.\<close>

definition bound_request ::
  "'f host_libraries \<Rightarrow> ('r, 'f) engine_world \<Rightarrow> rpc_request \<Rightarrow> runtime \<Rightarrow> request_outcome option" where
  "bound_request libs w request rt =
     (if rpc_method request = ''workspace.restore_file'' then Some (restore_file_request libs w request rt)
      else if rpc_method request = ''workspace.command'' then command_request libs w request rt
      else if rpc_method request = ''workspace.refresh_tracking_with_progress''
      then Some (refresh_request_with_progress libs w request rt)
      else Some (refuse ''method_not_found'' (''Unsupported Workspace Host method: '' @ rpc_method request) rt))"

definition handle_request ::
  "'f host_libraries \<Rightarrow> ('r, 'f) engine_world \<Rightarrow> rpc_request \<Rightarrow> runtime \<Rightarrow> request_outcome option" where
  "handle_request libs w request rt =
     (case validate_request request of
        Inl e \<Rightarrow> Some (Inl e, [], rt)
      | Inr _ \<Rightarrow>
          if rpc_method request = ''workspace.document_generation''
          then Some (send_result (rpc_id request) (Inr (JObj [(''documentGeneration'', JInt (generation (rt_db rt)))])) rt)
          else (case Option.bind (json_get ''documentGeneration'' (rpc_params request)) json_as_i64 of
                  None \<Rightarrow> Some (refuse ''invalid_params'' ''Missing document generation.'' rt)
                | Some g \<Rightarrow>
                    let (expected, bound) = bind_document_generation g (rt_db rt);
                        rt1 = rt\<lparr>rt_expected := expected\<rparr>
                    in (case bound of
                          Inl e \<Rightarrow> Some (refuse ''stale_document'' (hl_store_text libs e) rt1)
                        | Inr _ \<Rightarrow> bound_request libs w request rt1)))"

text \<open>Who called sends the error, if there is one.\<close>

definition with_error :: "string \<Rightarrow> request_outcome \<Rightarrow> rpc_message list \<times> runtime" where
  "with_error request_id = (\<lambda>(outcome, messages, rt).
     (case outcome of Inl e \<Rightarrow> messages @ [error_message request_id e] | Inr _ \<Rightarrow> messages, rt))"

definition serve_request ::
  "'f host_libraries \<Rightarrow> ('r, 'f) engine_world \<Rightarrow> rpc_request \<Rightarrow> runtime \<Rightarrow> (rpc_message list \<times> runtime) option" where
  "serve_request libs w request rt = map_option (with_error (rpc_id request)) (handle_request libs w request rt)"

text \<open>\<open>build_existing_runtime\<close>: a connection of its own on the same file, if it opens.\<close>

definition existing_runtime :: "workspace_db \<Rightarrow> runtime" where
  "existing_runtime db = \<lparr>rt_config = default_engine_config, rt_db = db, rt_expected = None, rt_has_blob_root = True,
     rt_import_job_sequence = 0\<rparr>"

definition serve_long_operation ::
  "'f host_libraries \<Rightarrow> ('r, 'f) engine_world \<Rightarrow> string + workspace_db \<Rightarrow> rpc_request
   \<Rightarrow> (rpc_message list \<times> workspace_db option) option" where
  "serve_long_operation libs w opened request =
     (case opened of
        Inl e \<Rightarrow> Some ([error_message (rpc_id request) (rpc_error_new ''runtime_error'' e)], None)
      | Inr db \<Rightarrow> map_option (\<lambda>(messages, rt). (messages, Some (rt_db rt))) (serve_request libs w request (existing_runtime db)))"

text \<open>\<open>build_preview_runtime\<close>: an empty database in memory, if it opens.\<close>

definition memory_db :: workspace_db where
  "memory_db = \<lparr>base = \<lparr>sheets = [], rows = [], jobs = [], items = [], attempts = [], cache = []\<rparr>, records = [], blobs = [],
     workspaces = [], generation = 0\<rparr>"

definition preview_runtime :: runtime where
  "preview_runtime = \<lparr>rt_config = default_engine_config, rt_db = memory_db, rt_expected = None, rt_has_blob_root = False,
     rt_import_job_sequence = 0\<rparr>"

fun is_preview_command :: "workspace_command \<Rightarrow> bool" where
  "is_preview_command (Cmd_Preview_Import_Source _ _) = True"
| "is_preview_command _ = False"

definition handle_import_preview_request ::
  "'f host_libraries \<Rightarrow> ('r, 'f) engine_world \<Rightarrow> string option \<Rightarrow> rpc_request \<Rightarrow> request_outcome option" where
  "handle_import_preview_request libs w memory_error request =
     (case validate_request request of
        Inl e \<Rightarrow> Some (Inl e, [], preview_runtime)
      | Inr _ \<Rightarrow>
          (case hl_command libs (rpc_params request) of
             Inl e \<Rightarrow> Some (refuse ''invalid_params'' e preview_runtime)
           | Inr command \<Rightarrow>
               if \<not> is_preview_command command
               then Some (refuse ''invalid_request'' ''Request is not an import source preview.'' preview_runtime)
               else (case memory_error of
                       Some e \<Rightarrow> Some (refuse ''runtime_error'' e preview_runtime)
                     | None \<Rightarrow>
                         map_option (\<lambda>(result, rt).
                             case result of
                               Inl e \<Rightarrow> refuse ''workspace_error'' (hl_engine_text libs e) rt
                             | Inr v \<Rightarrow> send_result (rpc_id request) (map_sum id JObj (hl_response libs v)) rt)
                           (handle_command w command preview_runtime))))"

text \<open>The task of a preview: its result, unless a cancellation comes first.\<close>

definition serve_preview ::
  "'f host_libraries \<Rightarrow> ('r, 'f) engine_world \<Rightarrow> string option \<Rightarrow> bool \<Rightarrow> rpc_request \<Rightarrow> rpc_message list option" where
  "serve_preview libs w memory_error cancelled request =
     map_option (\<lambda>outcome. fst (with_error (rpc_id request) outcome))
       (if cancelled then Some (refuse ''cancelled'' ''Import preview was cancelled.'' preview_runtime)
        else handle_import_preview_request libs w memory_error request)"

subsection \<open>The main loop\<close>

text \<open>
  What the loop has handed out and nobody has answered yet: previews with their place in
  the registry, long operations, the queue of the serial actor and the request it is at.
  The end of a task and the return of its permit are one step.
\<close>

abbreviation "max_buffered_long_operations \<equiv> (64 :: nat)"
abbreviation "max_buffered_serial_requests \<equiv> (256 :: nat)"

record host_state =
  ho_registry :: preview_registry
  ho_previews :: "(rpc_request \<times> preview) list"
  ho_long :: "rpc_request list"
  ho_serial :: "rpc_request list"
  ho_actor :: "rpc_request option"
  ho_output :: "rpc_message list"
  ho_stopped :: bool

definition product :: string where
  "product = ''shipflow-workspace-host''"

definition started_host :: "nat \<Rightarrow> host_state" where
  "started_host process_id = \<lparr>ho_registry = empty_registry, ho_previews = [], ho_long = [], ho_serial = [],
     ho_actor = None, ho_output = [ready_message process_id product], ho_stopped = False\<rparr>"

definition emit :: "rpc_message list \<Rightarrow> host_state \<Rightarrow> host_state" where
  "emit messages st = st\<lparr>ho_output := ho_output st @ messages\<rparr>"

definition reject :: "string \<Rightarrow> string \<Rightarrow> string \<Rightarrow> host_state \<Rightarrow> host_state" where
  "reject request_id code message = emit [error_message request_id (rpc_error_new code message)]"

definition cancel_request ::
  "'f host_libraries \<Rightarrow> rpc_request \<Rightarrow> preview_registry \<Rightarrow> rpc_error + bool \<times> preview_registry" where
  "cancel_request libs request reg =
     and_then (validate_request request) (\<lambda>_.
     and_then (case decode_cancel_request (hl_decode_error libs) (rpc_params request) of
                 Inl e \<Rightarrow> Inl (rpc_error_new ''invalid_params'' e) | Inr p \<Rightarrow> Inr p) (\<lambda>(scope_key, request_key).
     and_then (validate_preview_key scope_key ''scopeKey'') (\<lambda>_.
     and_then (case request_key of None \<Rightarrow> Inr () | Some k \<Rightarrow> validate_preview_key k ''requestKey'') (\<lambda>_.
       Inr (cancel_preview scope_key request_key reg)))))"

definition receive_cancellation :: "'f host_libraries \<Rightarrow> rpc_request \<Rightarrow> host_state \<Rightarrow> host_state" where
  "receive_cancellation libs request st =
     (case cancel_request libs request (ho_registry st) of
        Inl e \<Rightarrow> emit [error_message (rpc_id request) e] st
      | Inr (cancelled, reg) \<Rightarrow>
          emit [response_message (rpc_id request) (JObj [(''cancelled'', JBool cancelled)])] (st\<lparr>ho_registry := reg\<rparr>))"

definition receive_preview :: "rpc_request \<Rightarrow> host_state \<Rightarrow> host_state" where
  "receive_preview request st =
     (case import_preview_identity request of
        Inl e \<Rightarrow> emit [error_message (rpc_id request) e] st
      | Inr (scope_key, request_key) \<Rightarrow>
          if max_buffered_import_previews \<le> length (ho_previews st)
          then reject (rpc_id request) ''busy'' ''Import preview queue is full. Retry the request.'' st
          else let (channel, reg) = register_preview scope_key request_key (ho_registry st)
               in st\<lparr>ho_registry := reg, ho_previews := (request, scope_key, request_key, channel) # ho_previews st\<rparr>)"

definition receive_request :: "'f host_libraries \<Rightarrow> rpc_request \<Rightarrow> host_state \<Rightarrow> host_state" where
  "receive_request libs request st =
     (if rpc_method request = ''workspace.cancel_import_preview'' then receive_cancellation libs request st
      else if is_import_preview_request request then receive_preview request st
      else if is_long_running_request request
      then if max_buffered_long_operations \<le> length (ho_long st)
           then reject (rpc_id request) ''busy'' ''Workspace operation queue is full. Retry the request.'' st
           else st\<lparr>ho_long := ho_long st @ [request]\<rparr>
      else if max_buffered_serial_requests \<le> length (ho_serial st)
      then reject (rpc_id request) ''busy'' ''Workspace command queue is full. Retry the request.'' st
      else st\<lparr>ho_serial := ho_serial st @ [request]\<rparr>)"

text \<open>What the loop reads: a text that is not blank, or a frame that is too large.\<close>

datatype host_input = Frame string | Oversized_Frame

definition receive :: "'f host_libraries \<Rightarrow> host_input \<Rightarrow> host_state \<Rightarrow> host_state" where
  "receive libs input st =
     (case input of
        Oversized_Frame \<Rightarrow>
          (reject ''invalid-request'' ''frame_too_large'' ''Workspace Host request exceeds the maximum frame size.'' st)
            \<lparr>ho_stopped := True\<rparr>
      | Frame payload \<Rightarrow>
          (case hl_request libs payload of
             Inl e \<Rightarrow> reject ''invalid-request'' ''invalid_json'' e st
           | Inr request \<Rightarrow> receive_request libs request st))"

definition request_id_of :: "'f host_libraries \<Rightarrow> host_input \<Rightarrow> string" where
  "request_id_of libs input =
     (case input of
        Oversized_Frame \<Rightarrow> ''invalid-request''
      | Frame payload \<Rightarrow> (case hl_request libs payload of Inl _ \<Rightarrow> ''invalid-request'' | Inr request \<Rightarrow> rpc_id request))"

text \<open>
  The actor takes requests in their order; previews and long operations end in any
  order.  The worlds and the databases they find are choices of the environment.
\<close>

inductive host_work :: "'f host_libraries \<Rightarrow> ('r, 'f) engine_world set \<Rightarrow> host_state \<Rightarrow> host_state \<Rightarrow> bool"
  for libs :: "'f host_libraries" and worlds :: "('r, 'f) engine_world set" where
  Actor_Takes: "ho_actor st = None \<Longrightarrow> ho_serial st = request # queue \<Longrightarrow>
    host_work libs worlds st (st\<lparr>ho_actor := Some request, ho_serial := queue\<rparr>)"
| Actor_Answers: "ho_actor st = Some request \<Longrightarrow> w \<in> worlds \<Longrightarrow> serve_request libs w request rt = Some (messages, rt') \<Longrightarrow>
    host_work libs worlds st (emit messages (st\<lparr>ho_actor := None\<rparr>))"
| Long_Operation_Ends: "ho_long st = before @ request # behind \<Longrightarrow> w \<in> worlds \<Longrightarrow>
    serve_long_operation libs w opened request = Some (messages, left) \<Longrightarrow>
    host_work libs worlds st (emit messages (st\<lparr>ho_long := before @ behind\<rparr>))"
| Preview_Ends: "ho_previews st = before @ (request, scope_key, request_key, channel) # behind \<Longrightarrow>
    w \<in> worlds \<Longrightarrow> cancelled \<longrightarrow> wakes (ho_registry st) channel \<Longrightarrow>
    serve_preview libs w memory_error cancelled request = Some messages \<Longrightarrow>
    host_work libs worlds st (emit messages (st\<lparr>ho_previews := before @ behind,
      ho_registry := complete_preview scope_key request_key (ho_registry st)\<rparr>))"

text \<open>The states the host reaches, with the inputs it has read.\<close>

inductive host_reachable :: "'f host_libraries \<Rightarrow> ('r, 'f) engine_world set \<Rightarrow> host_input list \<Rightarrow> host_state \<Rightarrow> bool"
  for libs :: "'f host_libraries" and worlds :: "('r, 'f) engine_world set" where
  Host_Started: "host_reachable libs worlds [] (started_host process_id)"
| Host_Receives: "host_reachable libs worlds inputs st \<Longrightarrow> \<not> ho_stopped st \<Longrightarrow>
    host_reachable libs worlds (inputs @ [input]) (receive libs input st)"
| Host_Works: "host_reachable libs worlds inputs st \<Longrightarrow> host_work libs worlds st st' \<Longrightarrow> host_reachable libs worlds inputs st'"

end
