(* ===== verification/HostProperties.thy ===== *)
theory HostProperties
  imports WorkspaceHost
begin

text \<open>
  What the workspace host promises to its peer: every request it reads is answered
  exactly once, whatever the order in which previews, long operations and the actor end,
  and a request bound to a document that has been replaced since changes nothing.
\<close>

subsection \<open>Every handler answers once\<close>

fun answered :: "rpc_message \<Rightarrow> string list" where
  "answered (Msg_Response _ i _) = [i]"
| "answered (Msg_Error _ i _) = [i]"
| "answered (Msg_Ready _ _ _) = []"
| "answered (Msg_Event _ _ _) = []"

definition answered_ids :: "rpc_message list \<Rightarrow> string list" where
  "answered_ids messages = concat (map answered messages)"

lemma answered_ids_simps [simp]:
  "answered_ids [] = []" "answered_ids (m # ms) = answered m @ answered_ids ms"
  "answered_ids (a @ b) = answered_ids a @ answered_ids b"
  "answered (response_message i v) = [i]" "answered (error_message i e) = [i]" "answered (event_message i v) = []"
  "answered (ready_message n p) = []"
  by (simp_all add: answered_ids_def response_message_def error_message_def event_message_def ready_message_def)

lemma answered_events [simp]: "answered_ids (map (event_message i) vs) = []"
  by (induction vs) simp_all

text \<open>An outcome that is answered once when its error is sent.\<close>

definition answers_once :: "string \<Rightarrow> request_outcome \<Rightarrow> bool" where
  "answers_once i outcome \<longleftrightarrow> answered_ids (fst (with_error i outcome)) = [i]"

lemma answers_once_simps [simp]:
  "answers_once i (Inl e, messages, rt) \<longleftrightarrow> answered_ids messages = []"
  "answers_once i (Inr u, messages, rt) \<longleftrightarrow> answered_ids messages = [i]"
  "answers_once i (refuse code message rt)"
  "answers_once i (send_result i r rt)"
  by (simp_all add: answers_once_def with_error_def refuse_def send_result_def split: sum.split)

lemma answers_once_send [simp]: "answers_once i (send_with_generation libs i r)"
  by (cases r) (simp add: send_with_generation_def split: sum.split)

text \<open>A handler that returns, with such an outcome.\<close>

definition replies :: "string \<Rightarrow> request_outcome option \<Rightarrow> bool" where
  "replies i result \<longleftrightarrow> (\<exists>outcome. result = Some outcome \<and> answers_once i outcome)"

lemma replies_Some [simp]: "replies i (Some outcome) \<longleftrightarrow> answers_once i outcome"
  by (simp add: replies_def)

lemma replies_map: "x \<noteq> None \<Longrightarrow> (\<And>r. answers_once i (f r)) \<Longrightarrow> replies i (map_option f x)"
  by (cases x) simp_all

lemma command_returns: "\<not> is_obsolete_import_job_command command \<Longrightarrow> handle_command w command rt \<noteq> None"
  by (cases command) simp_all

lemma preview_is_current: "is_preview_command command \<Longrightarrow> \<not> is_obsolete_import_job_command command"
  by (cases command) simp_all

lemma handle_request_replies: "replies (rpc_id request) (handle_request libs w request rt)"
proof -
  have "replies (rpc_id request) (command_request libs w request rt)" for rt
    unfolding command_request_def
    by (auto split: sum.split intro!: replies_map simp del: handle_command.simps dest: command_returns [of _ w rt])
  moreover have "answers_once (rpc_id request) (restore_file_request libs w request rt)" for rt
    by (simp add: restore_file_request_def split: option.split)
  moreover have "answers_once (rpc_id request) (refresh_request_with_progress libs w request rt)" for rt
    by (auto simp: refresh_request_with_progress_def send_result_def Let_def split: sum.split prod.split)
  ultimately have "replies (rpc_id request) (bound_request libs w request rt)" for rt
    by (simp add: bound_request_def)
  then show ?thesis
    by (simp add: handle_request_def Let_def split: sum.split option.split prod.split)
qed

lemma serve_request_answers:
  "\<exists>messages rt'. serve_request libs w request rt = Some (messages, rt') \<and> answered_ids messages = [rpc_id request]"
proof -
  from handle_request_replies obtain outcome where
    "handle_request libs w request rt = Some outcome" "answers_once (rpc_id request) outcome"
    unfolding replies_def by blast
  then show ?thesis by (cases "with_error (rpc_id request) outcome") (simp add: serve_request_def answers_once_def)
qed

lemma serve_long_answers:
  "\<exists>messages left. serve_long_operation libs w opened request = Some (messages, left) \<and> answered_ids messages = [rpc_id request]"
  using serve_request_answers [of libs w request] by (cases opened) (fastforce simp: serve_long_operation_def)+

lemma handle_preview_replies: "replies (rpc_id request) (handle_import_preview_request libs w memory_error request)"
  unfolding handle_import_preview_request_def
  by (auto split: sum.split option.split intro!: replies_map simp del: handle_command.simps
      dest: command_returns [OF preview_is_current, of _ w preview_runtime])

lemma serve_preview_answers:
  "\<exists>messages. serve_preview libs w memory_error cancelled request = Some messages \<and> answered_ids messages = [rpc_id request]"
  using handle_preview_replies [of request libs w memory_error]
  by (auto simp: serve_preview_def answers_once_def replies_def) (simp add: refuse_def with_error_def)

subsection \<open>Every request is answered once\<close>

definition in_flight_ids :: "host_state \<Rightarrow> string list" where
  "in_flight_ids st = map (rpc_id \<circ> fst) (ho_previews st) @ map rpc_id (ho_long st) @ map rpc_id (ho_serial st)
     @ (case ho_actor st of None \<Rightarrow> [] | Some request \<Rightarrow> [rpc_id request])"

text \<open>How many steps of the host are left when nothing more is read.\<close>

definition work_left :: "host_state \<Rightarrow> nat" where
  "work_left st = length (ho_previews st) + length (ho_long st) + 2 * length (ho_serial st)
     + (case ho_actor st of None \<Rightarrow> 0 | Some _ \<Rightarrow> 1)"

definition host_ok :: "string list \<Rightarrow> host_state \<Rightarrow> bool" where
  "host_ok ids st \<longleftrightarrow> mset ids = mset (answered_ids (ho_output st)) + mset (in_flight_ids st)
     \<and> length (ho_serial st) \<le> max_buffered_serial_requests \<and> length (ho_long st) \<le> max_buffered_long_operations
     \<and> previews_reachable False (ho_registry st, map snd (ho_previews st))"

lemma host_ok_started: "host_ok [] (started_host n)"
  by (simp add: host_ok_def started_host_def in_flight_ids_def previews_reachable.No_Previews)

text \<open>A request answered at once, with the registry in order.\<close>

lemma host_ok_emit:
  "host_ok ids st \<Longrightarrow> answered_ids messages = [i] \<Longrightarrow> previews_reachable False (reg, map snd (ho_previews st)) \<Longrightarrow>
   host_ok (ids @ [i]) (emit messages (st\<lparr>ho_registry := reg\<rparr>))"
  by (auto simp: host_ok_def emit_def in_flight_ids_def)

lemma host_ok_reply: "host_ok ids st \<Longrightarrow> answered_ids messages = [i] \<Longrightarrow> host_ok (ids @ [i]) (emit messages st)"
  by (auto simp: host_ok_def emit_def in_flight_ids_def)

lemma host_ok_reject: "host_ok ids st \<Longrightarrow> host_ok (ids @ [i]) (reject i code message st)"
  unfolding reject_def by (rule host_ok_reply) simp_all

lemma host_ok_receive_cancellation:
  assumes ok: "host_ok ids st"
  shows "host_ok (ids @ [rpc_id request]) (receive_cancellation libs request st)"
proof (cases "cancel_request libs request (ho_registry st)")
  case (Inl e)
  then show ?thesis by (simp add: receive_cancellation_def host_ok_reply [OF ok])
next
  case (Inr answer)
  then obtain found reg s k where answer: "answer = (found, reg)" "cancel_preview s k (ho_registry st) = (found, reg)"
    by (cases answer) (auto simp: cancel_request_def and_then_Inr_iff)
  have "previews_reachable False (reg, map snd (ho_previews st))"
    using ok previews_reachable.Preview_Step [OF _ registry_step.Cancel [OF answer(2)]] by (simp add: host_ok_def)
  with Inr answer(1) show ?thesis by (simp add: receive_cancellation_def host_ok_emit [OF ok])
qed

lemma host_ok_receive_preview:
  assumes ok: "host_ok ids st"
  shows "host_ok (ids @ [rpc_id request]) (receive_preview request st)"
proof (cases "import_preview_identity request")
  case (Inl e)
  then show ?thesis by (simp add: receive_preview_def host_ok_reply [OF ok])
next
  case (Inr identity)
  obtain s k where identity: "identity = (s, k)" by fastforce
  obtain c reg where reg: "register_preview s k (ho_registry st) = (c, reg)" by fastforce
  show ?thesis
  proof (cases "max_buffered_import_previews \<le> length (ho_previews st)")
    case True
    with Inr identity show ?thesis by (simp add: receive_preview_def host_ok_reject [OF ok])
  next
    case False
    have "registry_step False (ho_registry st, map snd (ho_previews st)) (reg, (s, k, c) # map snd (ho_previews st))"
      by (rule registry_step.Admit [OF _ _ reg]) (use False in simp_all)
    with ok have "previews_reachable False (reg, (s, k, c) # map snd (ho_previews st))"
      by (auto simp: host_ok_def intro: previews_reachable.Preview_Step)
    with False Inr identity reg ok show ?thesis
      by (simp add: receive_preview_def host_ok_def in_flight_ids_def)
  qed
qed

lemma host_ok_receive:
  assumes "host_ok ids st"
  shows "host_ok (ids @ [request_id_of libs input]) (receive libs input st)"
proof -
  have "host_ok (ids @ [rpc_id request]) (receive_request libs request st)" for request
    using assms host_ok_receive_cancellation [OF assms] host_ok_receive_preview [OF assms] host_ok_reject [OF assms]
    by (auto simp: receive_request_def) (auto simp: host_ok_def in_flight_ids_def)
  moreover have "host_ok ids' (st'\<lparr>ho_stopped := b\<rparr>) \<longleftrightarrow> host_ok ids' st'" for ids' st' b
    by (simp add: host_ok_def in_flight_ids_def)
  ultimately show ?thesis
    using host_ok_reject [OF assms]
    by (auto simp: receive_def request_id_of_def split: host_input.split sum.split)
qed

lemma host_ok_work:
  assumes "host_work libs worlds st st'" and ok: "host_ok ids st"
  shows "host_ok ids st' \<and> work_left st' < work_left st"
  using assms(1)
proof (cases rule: host_work.cases)
  case (Actor_Takes request queue)
  with ok show ?thesis by (auto simp: host_ok_def in_flight_ids_def work_left_def)
next
  case (Actor_Answers request w rt messages rt')
  with serve_request_answers [of libs w request rt] have "answered_ids messages = [rpc_id request]" by auto
  with Actor_Answers ok show ?thesis by (simp add: host_ok_def emit_def in_flight_ids_def work_left_def)
next
  case (Long_Operation_Ends before request behind w opened messages left)
  with serve_long_answers [of libs w opened request] have "answered_ids messages = [rpc_id request]" by auto
  with Long_Operation_Ends ok show ?thesis by (simp add: host_ok_def emit_def in_flight_ids_def work_left_def)
next
  case (Preview_Ends before request s k c behind w cancelled memory_error messages)
  with serve_preview_answers [of libs w memory_error cancelled request] have "answered_ids messages = [rpc_id request]" by auto
  moreover have "previews_reachable False (complete_preview s k (ho_registry st), map snd (before @ behind))"
    using ok Preview_Ends(2) previews_reachable.Preview_Step [OF _ registry_step.Finish]
    by (fastforce simp: host_ok_def)
  ultimately show ?thesis
    using Preview_Ends ok by (simp add: host_ok_def emit_def in_flight_ids_def work_left_def)
qed

lemma host_ok_reachable: "host_reachable libs worlds inputs st \<Longrightarrow> host_ok (map (request_id_of libs) inputs) st"
  by (induction rule: host_reachable.induct) (simp_all add: host_ok_started host_ok_receive host_ok_work)

lemma host_works_on:
  assumes "w \<in> worlds" and "in_flight_ids st \<noteq> []"
  shows "\<exists>st'. host_work libs worlds st st'"
proof (cases "ho_actor st")
  case (Some request)
  obtain messages rt' where "serve_request libs w request preview_runtime = Some (messages, rt')"
    using serve_request_answers by blast
  with Some assms(1) show ?thesis by (blast intro: host_work.Actor_Answers)
next
  case None
  consider request queue where "ho_serial st = request # queue" | request queue where "ho_long st = [] @ request # queue"
    | request s k c queue where "ho_previews st = [] @ (request, s, k, c) # queue"
    using assms(2) None by (cases "ho_serial st"; cases "ho_long st"; cases "ho_previews st") (auto simp: in_flight_ids_def)
  then show ?thesis
  proof cases
    case 1
    with None show ?thesis by (blast intro: host_work.Actor_Takes)
  next
    case 2
    obtain messages left where "serve_long_operation libs w (Inr memory_db) request = Some (messages, left)"
      using serve_long_answers by blast
    with 2 assms(1) show ?thesis by (blast intro: host_work.Long_Operation_Ends)
  next
    case 3
    obtain messages where "serve_preview libs w None False request = Some messages" using serve_preview_answers by blast
    with 3 assms(1) show ?thesis using host_work.Preview_Ends [OF 3 assms(1), of False] by blast
  qed
qed


subsection \<open>A document that was replaced\<close>

definition bound_to :: "int \<Rightarrow> rpc_request \<Rightarrow> bool" where
  "bound_to g request \<longleftrightarrow> rpc_method request \<noteq> ''workspace.document_generation''
     \<and> Option.bind (json_get ''documentGeneration'' (rpc_params request)) json_as_i64 = Some g"

lemma stale_request:
  assumes "validate_request request = Inr ()" and "bound_to g request" and "g \<noteq> generation (rt_db rt)"
  shows "serve_request libs w request rt = Some ([error_message (rpc_id request) (rpc_error_new ''stale_document''
       (hl_store_text libs (Invalid_Value ''document_generation'' ''Document changed; retry in the current document.'')))],
     rt\<lparr>rt_expected := Some g\<rparr>)"
  using assms
  by (simp add: serve_request_def handle_request_def bound_to_def bind_document_generation_def check_document_generation_def
      refuse_def with_error_def)

text \<open>A restore that is answered with a result has replaced the document.\<close>

lemma restore_command_generation:
  assumes "restore_workspace_command env input db = (Inr answer, db')" and "\<not> rw_seed_only input"
  shows "generation db' = generation db + 1"
proof -
  from assms(1) obtain r where "restore_workspace env input db = (Inr r, db')"
    by (auto simp: restore_workspace_command_def and_then_db_def engine_call_def split: prod.splits sum.splits if_splits)
  with restore_generation assms(2) show ?thesis by (cases r) auto
qed

text \<open>A result is only sent for a command that succeeded, with the generation it left.\<close>

lemma send_with_generation_response:
  assumes "with_error i (send_with_generation libs i (result, rt)) = (messages, rt')" and "Msg_Response p j v \<in> set messages"
  shows "(\<exists>response. result = Inr response) \<and> rt' = rt
    \<and> json_get ''documentGeneration'' v = Some (JInt (generation (rt_db rt)))"
  using assms
  by (auto simp: send_with_generation_def with_error_def send_result_def error_message_def response_message_def update_conv'
      split: sum.splits)

lemma error_no_response:
  "with_error i (Inl e, [], rt) = (messages, rt') \<Longrightarrow> Msg_Response p j v \<notin> set messages"
  by (auto simp: with_error_def error_message_def)

lemma restored_before_response:
  assumes restore: "rpc_method restore = ''workspace.restore_file''"
    "json_get ''fileName'' (rpc_params restore) = Some (JStr f)"
    and served: "serve_request libs w restore rt = Some (messages, rt1)" and answer: "Msg_Response p i v \<in> set messages"
  shows "\<exists>rt0. rt_db rt0 = rt_db rt
    \<and> with_error (rpc_id restore) (send_with_generation libs (rpc_id restore)
         (responded Resp_Sheets (restore_workspace_file w f rt0))) = (messages, rt1)"
proof -
  obtain outcome where outcome: "handle_request libs w restore rt = Some outcome"
    "with_error (rpc_id restore) outcome = (messages, rt1)"
    using served by (auto simp: serve_request_def)
  have no_error: "outcome \<noteq> (Inl e, [], rt')" for e rt'
    using error_no_response [of "rpc_id restore" e rt'] outcome(2) answer by blast
  obtain g where g: "Option.bind (json_get ''documentGeneration'' (rpc_params restore)) json_as_i64 = Some g"
    using outcome(1) no_error restore(1)
    by (cases "Option.bind (json_get ''documentGeneration'' (rpc_params restore)) json_as_i64")
      (auto simp: handle_request_def refuse_def split: sum.splits)
  then have "handle_request libs w restore rt
      = Some (send_with_generation libs (rpc_id restore) (responded Resp_Sheets
          (restore_workspace_file w f (rt\<lparr>rt_expected := Some g\<rparr>))))"
    using outcome(1) no_error restore
    by (auto simp: handle_request_def bind_document_generation_def bound_request_def restore_file_request_def refuse_def
        Let_def split: sum.splits)
  with outcome show ?thesis by (intro exI [of _ "rt\<lparr>rt_expected := Some g\<rparr>"]) simp
qed

lemma restore_file_answered:
  assumes "restore_workspace_file w f rt = (Inr answer, rt1)" and "ew_staged w f = Staged_Document input"
    and "\<not> rw_seed_only input"
  shows "generation (rt_db rt1) = generation (rt_db rt) + 1"
proof -
  from assms(1,2) obtain db where "restore_workspace_command (ew_clock w 0) input (rt_db rt) = (Inr answer, db)"
    "rt1 = rt\<lparr>rt_db := db\<rparr>"
    by (cases "restore_workspace_command (ew_clock w 0) input (rt_db rt)")
      (auto simp: restore_workspace_file_def on_db_def split: if_splits)
  with restore_command_generation [OF _ assms(3)] show ?thesis by simp
qed

definition stale_answer :: "'f host_libraries \<Rightarrow> rpc_request \<Rightarrow> rpc_message" where
  "stale_answer libs request = error_message (rpc_id request) (rpc_error_new ''stale_document''
     (hl_store_text libs (Invalid_Value ''document_generation'' ''Document changed; retry in the current document.'')))"


subsection \<open>Examples\<close>

definition demo_host_libraries :: "int host_libraries" where
  "demo_host_libraries = \<lparr>hl_request = (\<lambda>payload. if payload = ''list'' then Inr \<lparr>rpc_protocol_version = 1, rpc_id = ''r1'',
       rpc_method = ''workspace.command'', rpc_auth_token = None,
       rpc_params = JObj [(''command'', JStr ''list_sheets''), (''documentGeneration'', JInt 0)]\<rparr> else Inl ''expected value''),
     hl_command = (\<lambda>_. Inr Cmd_List_Sheets), hl_refresh = (\<lambda>_. Inl ''missing field''), hl_decode_error = (\<lambda>_. ''invalid''),
     hl_response = (\<lambda>_. Inr [(''type'', JStr ''sheets'')]), hl_event = (\<lambda>_. None), hl_engine_text = (\<lambda>_. ''failed''),
     hl_store_text = (\<lambda>_. ''stale'')\<rparr>"


text \<open>A restore over the sample database, and a request made for the document before.\<close>

definition staged_name :: string where
  "staged_name = ''workspace-restore-'' @ replicate 36 CHR ''a'' @ ''.json''"

definition demo_request :: "string \<Rightarrow> (string \<times> json) list \<Rightarrow> rpc_request" where
  "demo_request rid params = \<lparr>rpc_protocol_version = 1, rpc_id = rid, rpc_method = ''workspace.restore_file'',
     rpc_auth_token = None, rpc_params = JObj ((''documentGeneration'', JInt (generation document_db)) # params)\<rparr>"

definition restoring_world :: "(string option list, int) engine_world" where
  "restoring_world = demo_world\<lparr>ew_staged := \<lambda>_. Staged_Document one_sheet_document\<rparr>"

lemma valid_staged_name: "valid_staging_name staged_name"
  unfolding valid_staging_name_iff staged_name_def
  by (rule exI [of _ "replicate 36 CHR ''a''"]) (simp add: is_ascii_hexdigit_def)

lemma demo_request_bound:
  "validate_request (demo_request ''q'' params) = Inr ()" "bound_to (generation document_db) (demo_request ''q'' params)"
proof -
  have "trim ''q'' = ''q''" "trim ''workspace.restore_file'' = ''workspace.restore_file''" by code_simp+
  then show "validate_request (demo_request ''q'' params) = Inr ()" "bound_to (generation document_db) (demo_request ''q'' params)"
    by (simp_all add: validate_request_def demo_request_def bound_to_def json_as_i64_def document_db_def tracking_db_def)
qed


end
