(* ===== verification/HostBatches.thy ===== *)
theory HostBatches
  imports ImportPreview "HOL-Library.Multiset"
begin

text \<open>
  The concurrent lookups of the workspace host (\<open>ServiceLookupSource\<close> of
  \<open>workspace-host/src/main.rs\<close>): the bags and manifests of a preview, whose results come
  back in the order of the ids, and the shipments of a refresh, which are delivered as
  they come in.  A worker ends when it likes; which one ends next is a choice of the
  environment.
\<close>

subsection \<open>Bags and manifests\<close>

text \<open>
  \<open>spawn_lookup\<close>: the worker waits for a slot, then looks up under the timeout.  The
  error of a lookup is already a text.
\<close>

datatype 'a lookup_end = Limiter_Closed | Lookup_Timed_Out | Lookup_Returned "string + 'a"

fun worker_result :: "nat \<Rightarrow> 'a lookup_end \<Rightarrow> string + 'a" where
  "worker_result seconds Limiter_Closed = Inl ''Import lookup limiter is unavailable.''"
| "worker_result seconds Lookup_Timed_Out = Inl (''Timeout ambil data setelah '' @ show_nat seconds @ '' detik.'')"
| "worker_result seconds (Lookup_Returned result) = result"

record 'a lookup_batch =
  lb_next :: nat
  lb_running :: "nat list"
  lb_results :: "(string + 'a) option list"

definition batch_concurrency :: "nat \<Rightarrow> string list \<Rightarrow> nat" where
  "batch_concurrency max_concurrency ids = min (max max_concurrency 1) (max (length ids) 1)"

definition spawn_next :: "string list \<Rightarrow> 'a lookup_batch \<Rightarrow> 'a lookup_batch" where
  "spawn_next ids b =
     (if lb_next b < length ids then b\<lparr>lb_running := lb_running b @ [lb_next b], lb_next := lb_next b + 1\<rparr> else b)"

definition start_batch :: "nat \<Rightarrow> string list \<Rightarrow> 'a lookup_batch" where
  "start_batch max_concurrency ids =
     (spawn_next ids ^^ batch_concurrency max_concurrency ids)
       \<lparr>lb_next = 0, lb_running = [], lb_results = replicate (length ids) None\<rparr>"

text \<open>\<open>join_next\<close>: worker \<open>i\<close> ended, with its result or, as \<open>None\<close>, because it failed.\<close>

definition worker_joined :: "string list \<Rightarrow> nat \<Rightarrow> (string + 'a) option \<Rightarrow> 'a lookup_batch \<Rightarrow> 'a lookup_batch" where
  "worker_joined ids i ended b =
     spawn_next ids (b\<lparr>lb_running := remove1 i (lb_running b),
       lb_results := (case ended of Some r \<Rightarrow> (lb_results b)[i := Some r] | None \<Rightarrow> lb_results b)\<rparr>)"

definition batch_results :: "string \<Rightarrow> string list \<Rightarrow> 'a lookup_batch \<Rightarrow> (string \<times> (string + 'a)) list" where
  "batch_results stopped_message ids b =
     zip ids (map (\<lambda>r. case r of Some r \<Rightarrow> r | None \<Rightarrow> Inl stopped_message) (lb_results b))"

text \<open>\<open>ends i\<close> is how the worker of the i-th id ends.\<close>

inductive batch_reaches :: "nat \<Rightarrow> string list \<Rightarrow> (nat \<Rightarrow> (string + 'a) option) \<Rightarrow> 'a lookup_batch \<Rightarrow> bool"
  for max_concurrency :: nat and ids :: "string list" and ends :: "nat \<Rightarrow> (string + 'a) option" where
  Batch_Started: "batch_reaches max_concurrency ids ends (start_batch max_concurrency ids)"
| Worker_Joined: "batch_reaches max_concurrency ids ends b \<Longrightarrow> i \<in> set (lb_running b) \<Longrightarrow>
    batch_reaches max_concurrency ids ends (worker_joined ids i (ends i) b)"

subsection \<open>The results of a batch\<close>

text \<open>
  Every id below the next one is running, or its end is in the results; no more run than
  allowed, and while ids are left as many run as are allowed.
\<close>

definition batch_ok :: "nat \<Rightarrow> string list \<Rightarrow> (nat \<Rightarrow> (string + 'a) option) \<Rightarrow> 'a lookup_batch \<Rightarrow> bool" where
  "batch_ok c ids ends b \<longleftrightarrow> distinct (lb_running b) \<and> set (lb_running b) \<subseteq> {..<lb_next b} \<and> lb_next b \<le> length ids
     \<and> length (lb_results b) = length ids \<and> length (lb_running b) \<le> c
     \<and> (lb_next b < length ids \<longrightarrow> length (lb_running b) = c)
     \<and> (\<forall>i < length ids. lb_results b ! i = (if i < lb_next b \<and> i \<notin> set (lb_running b) then ends i else None))"

lemma batch_ok_spawn:
  assumes "distinct (lb_running b) \<and> set (lb_running b) \<subseteq> {..<lb_next b} \<and> lb_next b \<le> length ids"
    and "length (lb_results b) = length ids" and "length (lb_running b) < c"
    and "lb_next b < length ids \<longrightarrow> length (lb_running b) = c - 1"
    and "\<forall>i < length ids. lb_results b ! i = (if i < lb_next b \<and> i \<notin> set (lb_running b) then ends i else None)"
  shows "batch_ok c ids ends (spawn_next ids b)"
  using assms unfolding batch_ok_def spawn_next_def by (auto simp: less_Suc_eq)

lemma batch_ok_start: "batch_ok (batch_concurrency m ids) ids ends (start_batch m ids)"
proof -
  let ?b = "\<lparr>lb_next = 0, lb_running = [], lb_results = replicate (length ids) None\<rparr>"
  have started: "(spawn_next ids ^^ n) ?b
      = ?b\<lparr>lb_next := min n (length ids), lb_running := [0..<min n (length ids)]\<rparr>" for n
    by (induction n) (auto simp: spawn_next_def min_def)
  show ?thesis
    unfolding start_batch_def started
    by (auto simp: batch_ok_def batch_concurrency_def)
qed

lemma batch_ok_joined:
  assumes ok: "batch_ok c ids ends b" and i: "i \<in> set (lb_running b)"
  shows "batch_ok c ids ends (worker_joined ids i (ends i) b)"
  unfolding worker_joined_def
proof (rule batch_ok_spawn)
  have "length (remove1 i (lb_running b)) < length (lb_running b)"
    using length_pos_if_in_set [OF i] i by (simp add: length_remove1)
  with ok show "length (lb_running (b\<lparr>lb_running := remove1 i (lb_running b),
      lb_results := case ends i of None \<Rightarrow> lb_results b | Some r \<Rightarrow> (lb_results b)[i := Some r]\<rparr>)) < c"
    by (simp add: batch_ok_def)
qed (use ok i in \<open>auto simp: batch_ok_def length_remove1 nth_list_update set_remove1_eq split: option.split\<close>)

lemma batch_ok_reaches: "batch_reaches m ids ends b \<Longrightarrow> batch_ok (batch_concurrency m ids) ids ends b"
  by (induction rule: batch_reaches.induct) (simp_all add: batch_ok_start batch_ok_joined)

text \<open>Each end of a worker brings the batch closer to its end.\<close>

definition lookups_left :: "string list \<Rightarrow> 'a lookup_batch \<Rightarrow> nat" where
  "lookups_left ids b = length ids - lb_next b + length (lb_running b)"

lemma lookups_left_joined:
  assumes "batch_ok c ids ends b" and "i \<in> set (lb_running b)"
  shows "lookups_left ids (worker_joined ids i r b) < lookups_left ids b"
proof -
  have "length (remove1 i (lb_running b)) < length (lb_running b)"
    using length_pos_if_in_set [OF assms(2)] assms(2) by (simp add: length_remove1)
  then show ?thesis by (simp add: lookups_left_def worker_joined_def spawn_next_def) arith
qed

lemma batch_results_done:
  assumes ok: "batch_ok c ids ends b" and "lb_running b = []" and "0 < c"
  shows "batch_results stopped ids b
    = map (\<lambda>(i, x). (x, case ends i of Some r \<Rightarrow> r | None \<Rightarrow> Inl stopped)) (enumerate 0 ids)"
proof -
  have "lb_next b = length ids" using assms by (auto simp: batch_ok_def)
  with ok assms(2) have "\<forall>i < length ids. lb_results b ! i = ends i" and "length (lb_results b) = length ids"
    by (simp_all add: batch_ok_def)
  then show ?thesis
    by (intro nth_equalityI) (auto simp: batch_results_def nth_enumerate_eq)
qed

text \<open>How the lookups of the import's source end, with its timeout of 125 seconds.\<close>

definition source_end :: "(nat \<Rightarrow> string \<Rightarrow> (string + 'a) option) \<Rightarrow> string list \<Rightarrow> nat \<Rightarrow> (string + 'a) option" where
  "source_end fetch ids i = Some (worker_result 125
     (case fetch i (ids ! i) of None \<Rightarrow> Lookup_Timed_Out | Some r \<Rightarrow> Lookup_Returned r))"

lemma source_end_timeout:
  "source_end fetch ids i = Some (case fetch i (ids ! i) of None \<Rightarrow> Inl import_lookup_timeout_message | Some r \<Rightarrow> r)"
proof -
  have "show_nat 125 = ''125''" by code_simp
  then show ?thesis by (simp add: source_end_def import_lookup_timeout_message_def split: option.split)
qed

lemma concurrent_batch:
  assumes "batch_reaches m ids (source_end fetch ids) b"
  shows "length (lb_running b) \<le> max m 1
    \<and> (\<forall>i \<in> set (lb_running b). lookups_left ids (worker_joined ids i (source_end fetch ids i) b) < lookups_left ids b)
    \<and> (lb_running b = [] \<longrightarrow> batch_results stopped ids b
        = map (\<lambda>(i, x). (x, case fetch i x of None \<Rightarrow> Inl import_lookup_timeout_message | Some r \<Rightarrow> r)) (enumerate 0 ids))"
proof -
  have limit: "batch_concurrency m ids \<le> max m 1" "0 < batch_concurrency m ids"
    by (simp_all add: batch_concurrency_def less_max_iff_disj)
  have in_turn: "map (\<lambda>(i, x). (x, case source_end fetch ids i of Some r \<Rightarrow> r | None \<Rightarrow> Inl stopped)) (enumerate 0 ids)
      = map (\<lambda>(i, x). (x, case fetch i x of None \<Rightarrow> Inl import_lookup_timeout_message | Some r \<Rightarrow> r)) (enumerate 0 ids)"
    by (auto simp: source_end_timeout in_set_enumerate_eq)
  note ok = batch_ok_reaches [OF assms]
  have "length (lb_running b) \<le> max m 1" using ok limit(1) by (simp add: batch_ok_def)
  with lookups_left_joined [OF ok] batch_results_done [OF ok _ limit(2)] in_turn show ?thesis by simp
qed

text \<open>
  \<open>C19.\<close> The concurrent lookups of the bags, and of the manifests, of an import: in
  whatever order the workers end, never more of them run than the limit asks for, every
  end brings the batch closer to being done, and when no worker is left the results are,
  in the order of the ids, exactly those of looking up one id after the other.
\<close>

theorem concurrent_batch_is_the_sequential_one:
  "(batch_reaches m ids (source_end (fetch_bag src) ids) b \<longrightarrow>
      length (lb_running b) \<le> max m 1
      \<and> (\<forall>i \<in> set (lb_running b). lookups_left ids (worker_joined ids i (source_end (fetch_bag src) ids i) b) < lookups_left ids b)
      \<and> (lb_running b = [] \<longrightarrow>
           batch_results ''Manifest bag lookup worker stopped unexpectedly.'' ids b = fetch_bags_in_turn src ids))
    \<and> (batch_reaches m ids (source_end (fetch_manifest src) ids) b' \<longrightarrow>
      length (lb_running b') \<le> max m 1
      \<and> (\<forall>i \<in> set (lb_running b'). lookups_left ids (worker_joined ids i (source_end (fetch_manifest src) ids i) b') < lookups_left ids b')
      \<and> (lb_running b' = [] \<longrightarrow>
           batch_results ''Manifest lookup worker stopped unexpectedly.'' ids b' = fetch_manifests_in_turn src ids))"
  unfolding fetch_bags_in_turn_def fetch_manifests_in_turn_def fetch_bag_with_timeout_def fetch_manifest_with_timeout_def
  using concurrent_batch by blast

theorem concurrent_batch_is_the_sequential_one_witness:
  "\<exists>b. batch_reaches 1 [''B1'', ''B2''] (source_end (fetch_bag demo_source) [''B1'', ''B2'']) b \<and> lb_running b = []
     \<and> batch_results ''Manifest bag lookup worker stopped unexpectedly.'' [''B1'', ''B2''] b = fetch_bags_in_turn demo_source [''B1'', ''B2'']"
proof -
  let ?ids = "[''B1'', ''B2'']"
  let ?b0 = "start_batch 1 ?ids"
  let ?b1 = "worker_joined ?ids 0 (source_end (fetch_bag demo_source) ?ids 0) ?b0"
  let ?b2 = "worker_joined ?ids 1 (source_end (fetch_bag demo_source) ?ids 1) ?b1"
  have run: "lb_running ?b0 = [0]" "lb_running ?b1 = [1]" "lb_running ?b2 = []"
    by (simp_all add: start_batch_def batch_concurrency_def spawn_next_def worker_joined_def)
  have "batch_reaches 1 ?ids (source_end (fetch_bag demo_source) ?ids) ?b2"
    by (rule Worker_Joined [OF Worker_Joined [OF Batch_Started]]) (simp_all only: run list.set insert_iff simp_thms)
  with concurrent_batch_is_the_sequential_one [of 1 ?ids demo_source ?b2] run(3) show ?thesis by blast
qed

subsection \<open>The shipments of a refresh\<close>

text \<open>
  \<open>fetch_tracking_batch_with_progress\<close>: at most five lookups run; the callback may ask
  to stop, and a worker that fails ends the batch with an error.
\<close>

abbreviation "max_concurrent_tracking_lookups \<equiv> (5 :: nat)"

record 'r tracking_batch =
  tb_queue :: "string list"
  tb_running :: "string list"
  tb_delivered :: "(string \<times> 'r) list"
  tb_result :: "(string + unit) option"

definition fill_workers :: "'r tracking_batch \<Rightarrow> 'r tracking_batch" where
  "fill_workers b =
     (let n = max_concurrent_tracking_lookups - length (tb_running b)
      in b\<lparr>tb_running := tb_running b @ take n (tb_queue b), tb_queue := drop n (tb_queue b)\<rparr>)"

text \<open>The head of the loop: done when nothing is queued or running.\<close>

definition batch_turn :: "'r tracking_batch \<Rightarrow> 'r tracking_batch" where
  "batch_turn b = (if tb_queue b = [] \<and> tb_running b = [] then b\<lparr>tb_result := Some (Inr ())\<rparr> else fill_workers b)"

definition start_tracking_batch :: "string list \<Rightarrow> 'r tracking_batch" where
  "start_tracking_batch ids = batch_turn \<lparr>tb_queue = ids, tb_running = [], tb_delivered = [], tb_result = None\<rparr>"

definition deliver_result :: "string \<Rightarrow> 'r \<Rightarrow> bool \<Rightarrow> 'r tracking_batch \<Rightarrow> 'r tracking_batch" where
  "deliver_result lookup_id result go_on b =
     (let b1 = b\<lparr>tb_running := remove1 lookup_id (tb_running b), tb_delivered := tb_delivered b @ [(lookup_id, result)]\<rparr>
      in if go_on then batch_turn b1 else b1\<lparr>tb_running := [], tb_result := Some (Inr ())\<rparr>)"

definition worker_panicked :: "nat \<Rightarrow> string \<Rightarrow> 'r tracking_batch \<Rightarrow> 'r tracking_batch" where
  "worker_panicked batch_id e b =
     b\<lparr>tb_running := [], tb_result := Some (Inl (''tracking worker failed in batch '' @ show_nat batch_id @ '': '' @ e))\<rparr>"

text \<open>\<open>fetch\<close> looks an id up, \<open>go_on\<close> is the answer of the callback.\<close>

inductive tracking_batch_reaches ::
  "nat \<Rightarrow> (string \<Rightarrow> 'r) \<Rightarrow> (string \<Rightarrow> 'r \<Rightarrow> bool) \<Rightarrow> string list \<Rightarrow> 'r tracking_batch \<Rightarrow> bool"
  for batch_id :: nat and fetch :: "string \<Rightarrow> 'r" and go_on :: "string \<Rightarrow> 'r \<Rightarrow> bool" and ids :: "string list" where
  Batch_Begins: "tracking_batch_reaches batch_id fetch go_on ids (start_tracking_batch ids)"
| Result_Delivered: "tracking_batch_reaches batch_id fetch go_on ids b \<Longrightarrow> tb_result b = None \<Longrightarrow>
    lookup_id \<in> set (tb_running b) \<Longrightarrow>
    tracking_batch_reaches batch_id fetch go_on ids (deliver_result lookup_id (fetch lookup_id) (go_on lookup_id (fetch lookup_id)) b)"
| Worker_Failed: "tracking_batch_reaches batch_id fetch go_on ids b \<Longrightarrow> tb_result b = None \<Longrightarrow>
    lookup_id \<in> set (tb_running b) \<Longrightarrow> tracking_batch_reaches batch_id fetch go_on ids (worker_panicked batch_id e b)"

definition tracking_batch_ok :: "(string \<Rightarrow> 'r) \<Rightarrow> (string \<Rightarrow> 'r \<Rightarrow> bool) \<Rightarrow> string list \<Rightarrow> 'r tracking_batch \<Rightarrow> bool" where
  "tracking_batch_ok fetch go_on ids b \<longleftrightarrow>
     length (tb_running b) \<le> max_concurrent_tracking_lookups
     \<and> (\<forall>(i, r) \<in> set (tb_delivered b). r = fetch i)
     \<and> mset (map fst (tb_delivered b)) + mset (tb_running b) + mset (tb_queue b) \<subseteq># mset ids
     \<and> (tb_result b = None \<longrightarrow> mset (map fst (tb_delivered b)) + mset (tb_running b) + mset (tb_queue b) = mset ids
          \<and> tb_running b \<noteq> [] \<and> (\<forall>(i, r) \<in> set (tb_delivered b). go_on i r))
     \<and> (tb_result b = Some (Inr ()) \<longrightarrow> mset (map fst (tb_delivered b)) = mset ids
          \<or> (\<exists>front i r. tb_delivered b = front @ [(i, r)] \<and> \<not> go_on i r))"

lemma mset_take_drop: "mset (take n xs) + mset (drop n xs) = mset xs"
  by (metis append_take_drop_id mset_append)

lemma without_middle: "a + r + q \<subseteq># x \<Longrightarrow> a + q \<subseteq># (x :: 'a multiset)"
  by (metis add.assoc add.commute mset_subset_eq_add_left subset_mset.order_trans)

lemma tracking_batch_ok_turn:
  assumes "length (tb_running b) < max_concurrent_tracking_lookups" and "tb_result b = None"
    and "\<forall>(i, r) \<in> set (tb_delivered b). r = fetch i \<and> go_on i r"
    and "mset (map fst (tb_delivered b)) + mset (tb_running b) + mset (tb_queue b) = mset ids"
  shows "tracking_batch_ok fetch go_on ids (batch_turn b)"
proof (cases "tb_queue b = [] \<and> tb_running b = []")
  case True
  with assms show ?thesis by (auto simp: batch_turn_def tracking_batch_ok_def)
next
  case False
  let ?n = "max_concurrent_tracking_lookups - length (tb_running b)"
  have "mset (map fst (tb_delivered b)) + mset (tb_running b @ take ?n (tb_queue b)) + mset (drop ?n (tb_queue b)) = mset ids"
    using assms(4) mset_take_drop [of ?n "tb_queue b"] by (simp add: ac_simps)
  moreover have "tb_running b @ take ?n (tb_queue b) \<noteq> []"
    using False assms(1) by (cases "tb_queue b"; cases "tb_running b") auto
  ultimately show ?thesis
    using False assms by (auto simp: batch_turn_def tracking_batch_ok_def fill_workers_def Let_def simp del: append_is_Nil_conv)
qed

lemma tracking_batch_ok_reaches:
  "tracking_batch_reaches batch_id fetch go_on ids b \<Longrightarrow> tracking_batch_ok fetch go_on ids b"
proof (induction rule: tracking_batch_reaches.induct)
  case Batch_Begins
  show ?case unfolding start_tracking_batch_def by (rule tracking_batch_ok_turn) simp_all
next
  case (Result_Delivered b i)
  let ?b = "b\<lparr>tb_running := remove1 i (tb_running b), tb_delivered := tb_delivered b @ [(i, fetch i)]\<rparr>"
  have fewer: "length (remove1 i (tb_running b)) < length (tb_running b)"
    using length_pos_if_in_set [OF Result_Delivered.hyps(3)] Result_Delivered.hyps(3) by (simp add: length_remove1)
  have m: "mset (tb_running b) = add_mset i (mset (remove1 i (tb_running b)))" using Result_Delivered.hyps(3) by simp
  have "mset (map fst (tb_delivered b)) + mset (tb_running b) + mset (tb_queue b) = mset ids"
    using Result_Delivered.IH Result_Delivered.hyps(2) by (simp add: tracking_batch_ok_def)
  from this [unfolded m]
  have all: "mset (map fst (tb_delivered ?b)) + mset (tb_running ?b) + mset (tb_queue ?b) = mset ids"
    by (simp add: ac_simps)
  show ?case
  proof (cases "go_on i (fetch i)")
    case True
    have "tracking_batch_ok fetch go_on ids (batch_turn ?b)"
      by (rule tracking_batch_ok_turn)
        (use fewer all True Result_Delivered.IH Result_Delivered.hyps(2) in \<open>auto simp: tracking_batch_ok_def simp del: length_remove1\<close>)
    with True show ?thesis by (simp add: deliver_result_def)
  next
    case False
    have "mset (map fst (tb_delivered ?b)) + mset (tb_queue ?b) \<subseteq># mset ids"
      by (rule without_middle [of _ "mset (tb_running ?b)"]) (simp only: all subset_mset.order_refl)
    moreover have "\<forall>(j, r) \<in> set (tb_delivered ?b). r = fetch j"
      using Result_Delivered.IH unfolding tracking_batch_ok_def by simp
    moreover have "\<exists>front j r. tb_delivered ?b = front @ [(j, r)] \<and> \<not> go_on j r" using False by simp
    ultimately show ?thesis using False unfolding tracking_batch_ok_def deliver_result_def Let_def by simp
  qed
next
  case (Worker_Failed b i e)
  from Worker_Failed.IH have "mset (map fst (tb_delivered b)) + mset (tb_queue b) \<subseteq># mset ids"
    unfolding tracking_batch_ok_def by (blast intro: without_middle)
  with Worker_Failed.IH show ?case by (auto simp: worker_panicked_def tracking_batch_ok_def)
qed

text \<open>
  A batch that ends well has delivered every id exactly as often as it was asked for,
  each with the result of its lookup, unless its last delivery asked to stop; before, no
  more than five lookups run, and one of them is always there to end.
\<close>

lemma tracking_batch_delivers:
  assumes "tracking_batch_reaches batch_id fetch go_on ids b"
  shows "length (tb_running b) \<le> 5 \<and> (\<forall>(i, r) \<in> set (tb_delivered b). r = fetch i)
    \<and> (tb_result b = None \<longrightarrow> tb_running b \<noteq> [])
    \<and> (tb_result b = Some (Inr ()) \<longrightarrow> mset (map fst (tb_delivered b)) = mset ids
         \<or> (\<exists>front i r. tb_delivered b = front @ [(i, r)] \<and> \<not> go_on i r))"
  using tracking_batch_ok_reaches [OF assms] by (simp add: tracking_batch_ok_def)

end
