(* ===== verification/PersistentStore.thy ===== *)
theory PersistentStore
  imports Prelude RustStrings "HOL-Library.Product_Lexorder"
begin

text \<open>
  The lookup store on disk (\<open>persistent_store.rs\<close>): a table of payloads with their expiry,
  a bounded queue of writes, and the writer thread, which takes up to 128 of them into
  one transaction.  Unlike the other stores this one handles the failures of SQLite
  itself, so they are choices of the environment here.
\<close>

subsection \<open>The table\<close>

record lookup_row =
  lr_key :: string
  lr_expires_at :: int
  lr_payload :: string
  lr_updated_at :: int

definition max_persisted_lookup_payload_bytes :: nat where
  "max_persisted_lookup_payload_bytes = 128 * 1024"

definition embedded_data_image_marker :: string where
  "embedded_data_image_marker = ''data:image''"

definition persistent_lookup_skip_reason :: "string \<Rightarrow> string option" where
  "persistent_lookup_skip_reason payload =
     (if max_persisted_lookup_payload_bytes < length payload then Some ''payload_too_large''
      else if str_contains embedded_data_image_marker payload then Some ''embedded_data_image''
      else None)"

abbreviation "i64_largest \<equiv> (9223372036854775807 :: int)"

definition expires_at_unix_ms :: "int \<Rightarrow> nat \<Rightarrow> int" where
  "expires_at_unix_ms now_ms ttl_ms = min (now_ms + min (int ttl_ms) i64_largest) i64_largest"

definition upsert_lookup_entry :: "string \<Rightarrow> string \<Rightarrow> int \<Rightarrow> int \<Rightarrow> lookup_row list \<Rightarrow> lookup_row list" where
  "upsert_lookup_entry key payload expires_at now_ms table =
     (if find_by lr_key key table \<noteq> None
      then update_where (\<lambda>r. lr_key r = key)
             (\<lambda>r. r\<lparr>lr_expires_at := expires_at, lr_payload := payload, lr_updated_at := now_ms\<rparr>) table
      else table @ [\<lparr>lr_key = key, lr_expires_at = expires_at, lr_payload = payload, lr_updated_at = now_ms\<rparr>])"

definition delete_lookup_entry :: "string \<Rightarrow> lookup_row list \<Rightarrow> lookup_row list" where
  "delete_lookup_entry key = filter (\<lambda>r. lr_key r \<noteq> key)"

text \<open>SQLite's \<open>length\<close> of a text: its characters up to the first NUL.\<close>

definition sql_length :: "string \<Rightarrow> nat" where
  "sql_length s = length (chars (takeWhile (\<lambda>c. c \<noteq> CHR 0x00) s))"

text \<open>The limit is \<open>max_entries as i64\<close>; which of equally old rows go first is SQLite's choice, here the order of the table.\<close>

definition prune_lookup_entries_with_limit :: "int \<Rightarrow> nat \<Rightarrow> lookup_row list \<Rightarrow> lookup_row list" where
  "prune_lookup_entries_with_limit now_ms max_entries table =
     (let kept = filter (\<lambda>r. \<not> (lr_expires_at r \<le> now_ms
                   \<or> max_persisted_lookup_payload_bytes < sql_length (lr_payload r)
                   \<or> str_contains embedded_data_image_marker (lr_payload r))) table;
          excess = length kept - max_entries;
          oldest = map lr_key (take excess (sort_key (\<lambda>r. (lr_expires_at r, lr_updated_at r)) kept))
      in filter (\<lambda>r. lr_key r \<notin> set oldest) kept)"

subsection \<open>Writes\<close>

text \<open>An acknowledgement is the number of the channel it is sent on.\<close>

datatype write_command =
    Write_Upsert string string int "nat option"
  | Write_Remove string "nat option"
  | Write_Flush nat
  | Write_Shutdown

datatype write_reply = Stored bool | Flushed "string + unit"

text \<open>
  How a batch fares: whether the transaction begins, the clock at every statement and
  whether SQLite executes it, the pruning, and the commit.
\<close>

record batch_env =
  be_begins :: bool
  be_statement :: "nat \<Rightarrow> int \<times> bool"
  be_prune_now :: int
  be_prune_ok :: bool
  be_commit_ok :: bool

record write_batch =
  wb_table :: "lookup_row list"
  wb_failed :: bool
  wb_acks :: "(nat \<times> bool) list"
  wb_flushes :: "nat list"

definition ack_with :: "nat option \<Rightarrow> bool \<Rightarrow> (nat \<times> bool) list" where
  "ack_with ack result = (case ack of None \<Rightarrow> [] | Some a \<Rightarrow> [(a, result)])"

fun run_statement :: "int \<times> bool \<Rightarrow> write_command \<Rightarrow> write_batch \<Rightarrow> write_batch" where
  "run_statement (now_ms, ok) (Write_Upsert key payload expires_at ack) b =
     b\<lparr>wb_table := (if ok then upsert_lookup_entry key payload expires_at now_ms (wb_table b) else wb_table b),
       wb_failed := wb_failed b \<or> \<not> ok, wb_acks := wb_acks b @ ack_with ack ok\<rparr>"
| "run_statement (now_ms, ok) (Write_Remove key ack) b =
     b\<lparr>wb_table := (if ok then delete_lookup_entry key (wb_table b) else wb_table b),
       wb_failed := wb_failed b \<or> \<not> ok,
       wb_acks := wb_acks b @ ack_with ack (ok \<and> find_by lr_key key (wb_table b) \<noteq> None)\<rparr>"
| "run_statement (now_ms, ok) (Write_Flush a) b = b\<lparr>wb_flushes := wb_flushes b @ [a]\<rparr>"
| "run_statement (now_ms, ok) Write_Shutdown b = b"

fun failed_reply :: "write_command \<Rightarrow> (nat \<times> write_reply) list" where
  "failed_reply (Write_Upsert key payload expires_at ack) = map (\<lambda>(a, r). (a, Stored r)) (ack_with ack False)"
| "failed_reply (Write_Remove key ack) = map (\<lambda>(a, r). (a, Stored r)) (ack_with ack False)"
| "failed_reply (Write_Flush a) = [(a, Flushed (Inl ''Persistent writer failed.''))]"
| "failed_reply Write_Shutdown = []"

definition acknowledge_failed_batch :: "write_command list \<Rightarrow> (nat \<times> write_reply) list" where
  "acknowledge_failed_batch commands = concat (map failed_reply commands)"

definition run_statements :: "batch_env \<Rightarrow> write_command list \<Rightarrow> lookup_row list \<Rightarrow> write_batch" where
  "run_statements env commands table =
     fold (\<lambda>(k, command). run_statement (be_statement env k) command) (enumerate 0 commands)
       \<lparr>wb_table = table, wb_failed = False, wb_acks = [], wb_flushes = []\<rparr>"

text \<open>Whether it was committed, the replies, and the table.\<close>

definition process_write_batch ::
  "nat \<Rightarrow> batch_env \<Rightarrow> write_command list \<Rightarrow> lookup_row list \<Rightarrow> bool \<times> (nat \<times> write_reply) list \<times> lookup_row list" where
  "process_write_batch max_entries env commands table =
     (if \<not> be_begins env then (False, acknowledge_failed_batch commands, table)
      else let b = run_statements env commands table;
               failed = (wb_failed b \<or> \<not> be_prune_ok env);
               committed = (\<not> failed \<and> be_commit_ok env)
           in (committed,
               map (\<lambda>(a, result). (a, Stored (committed \<and> result))) (wb_acks b)
                 @ map (\<lambda>a. (a, Flushed (if committed then Inr () else Inl ''Persistent transaction failed.''))) (wb_flushes b),
               if committed then prune_lookup_entries_with_limit (be_prune_now env) max_entries (wb_table b) else table))"

subsection \<open>The store and its writer\<close>

datatype writer_mode = Writing | Rejecting | Writer_Stopped

record lookup_store =
  ls_table :: "lookup_row list"
  ls_queue :: "write_command list"
  ls_failed :: bool
  ls_replies :: "(nat \<times> write_reply) list"
  ls_mode :: writer_mode

abbreviation "max_buffered_persistent_writes \<equiv> (1024 :: nat)"
abbreviation "max_writes_per_transaction \<equiv> (128 :: nat)"

text \<open>\<open>try_send\<close>: the queue may be full or its receiver gone.\<close>

definition try_send :: "write_command \<Rightarrow> lookup_store \<Rightarrow> bool \<times> lookup_store" where
  "try_send command st =
     (if ls_mode st = Writer_Stopped \<or> max_buffered_persistent_writes \<le> length (ls_queue st) then (False, st)
      else (True, st\<lparr>ls_queue := ls_queue st @ [command]\<rparr>))"

definition enqueue_remove_success :: "string \<Rightarrow> lookup_store \<Rightarrow> bool \<times> lookup_store" where
  "enqueue_remove_success key = try_send (Write_Remove key None)"

definition enqueue_store_success :: "int \<Rightarrow> string \<Rightarrow> string \<Rightarrow> nat \<Rightarrow> lookup_store \<Rightarrow> bool \<times> lookup_store" where
  "enqueue_store_success now_ms key payload ttl_ms st =
     (if persistent_lookup_skip_reason payload \<noteq> None then (False, snd (enqueue_remove_success key st))
      else try_send (Write_Upsert key payload (expires_at_unix_ms now_ms ttl_ms) None) st)"

text \<open>What \<open>store_success\<close> and \<open>remove_success\<close> send before they wait for the acknowledgement \<open>a\<close>.\<close>

definition store_success_command :: "int \<Rightarrow> nat \<Rightarrow> string \<Rightarrow> string \<Rightarrow> nat \<Rightarrow> write_command" where
  "store_success_command now_ms a key payload ttl_ms =
     (if persistent_lookup_skip_reason payload \<noteq> None then Write_Remove key (Some a)
      else Write_Upsert key payload (expires_at_unix_ms now_ms ttl_ms) (Some a))"

definition load_success_fresh :: "int \<Rightarrow> string \<Rightarrow> nat option \<Rightarrow> lookup_store \<Rightarrow> string option \<times> lookup_store" where
  "load_success_fresh now_ms key max_age_ms st =
     (case find_by lr_key key (ls_table st) of
        None \<Rightarrow> (None, st)
      | Some r \<Rightarrow>
          let too_old = (case max_age_ms of
                           None \<Rightarrow> False
                         | Some max_age \<Rightarrow> min (int max_age) i64_largest < min (now_ms - lr_updated_at r) i64_largest)
          in if lr_expires_at r \<le> now_ms \<or> too_old \<or> persistent_lookup_skip_reason (lr_payload r) \<noteq> None
             then (None, snd (enqueue_remove_success key st))
             else (Some (lr_payload r), st))"

text \<open>The answer of \<open>flush\<close>, once its command is answered, and if that comes in time.\<close>

definition flush_answer :: "write_reply option \<Rightarrow> lookup_store \<Rightarrow> string + unit" where
  "flush_answer reply st =
     (case reply of
        Some (Flushed (Inl e)) \<Rightarrow> Inl e
      | Some (Flushed (Inr _)) \<Rightarrow>
          if ls_failed st then Inl ''A persistent write failed during this service lifetime.'' else Inr ()
      | _ \<Rightarrow> Inl ''Persistent writer did not acknowledge flush.'')"

text \<open>One batch of the writer.\<close>

definition write_batch_turn :: "nat \<Rightarrow> batch_env \<Rightarrow> nat \<Rightarrow> lookup_store \<Rightarrow> lookup_store" where
  "write_batch_turn max_entries env n st =
     (let (committed, replies, table) = process_write_batch max_entries env (take n (ls_queue st)) (ls_table st)
      in st\<lparr>ls_table := table, ls_queue := drop n (ls_queue st), ls_failed := ls_failed st \<or> \<not> committed,
            ls_replies := ls_replies st @ replies\<rparr>)"

text \<open>
  What can happen: a command is sent while there is room, the writer processes a batch,
  stops at a shutdown, or, when it could not open the database, rejects what comes.  The
  indices are the commands sent and the batches processed so far.
\<close>

definition opened_store :: "bool \<Rightarrow> lookup_row list \<Rightarrow> lookup_store" where
  "opened_store writer_opens table = \<lparr>ls_table = table, ls_queue = [], ls_failed = False, ls_replies = [],
     ls_mode = (if writer_opens then Writing else Rejecting)\<rparr>"

inductive store_reaches ::
  "nat \<Rightarrow> lookup_row list \<Rightarrow> write_command list \<Rightarrow> (batch_env \<times> write_command list) list \<Rightarrow> lookup_store \<Rightarrow> bool"
  for max_entries :: nat and table :: "lookup_row list" where
  Store_Opened: "store_reaches max_entries table [] [] (opened_store writer_opens table)"
| Command_Sent: "store_reaches max_entries table sent batches st \<Longrightarrow> try_send command st = (True, st') \<Longrightarrow>
    store_reaches max_entries table (sent @ [command]) batches st'"
| Batch_Written: "store_reaches max_entries table sent batches st \<Longrightarrow> ls_mode st = Writing \<Longrightarrow>
    0 < n \<Longrightarrow> n \<le> max_writes_per_transaction \<Longrightarrow> n \<le> length (ls_queue st) \<Longrightarrow> Write_Shutdown \<notin> set (take n (ls_queue st)) \<Longrightarrow>
    store_reaches max_entries table sent (batches @ [(env, take n (ls_queue st))]) (write_batch_turn max_entries env n st)"
| Command_Rejected: "store_reaches max_entries table sent batches st \<Longrightarrow> ls_mode st = Rejecting \<Longrightarrow>
    ls_queue st = command # queue \<Longrightarrow> command \<noteq> Write_Shutdown \<Longrightarrow>
    store_reaches max_entries table sent batches (st\<lparr>ls_queue := queue, ls_replies := ls_replies st @ failed_reply command\<rparr>)"
| Writer_Stops: "store_reaches max_entries table sent batches st \<Longrightarrow> ls_queue st = Write_Shutdown # queue \<Longrightarrow>
    store_reaches max_entries table sent batches (st\<lparr>ls_queue := [], ls_mode := Writer_Stopped\<rparr>)"

subsection \<open>The legacy file\<close>

text \<open>Entries of the former JSON store, with expiries of 128 bits; an insert that fails is skipped.\<close>

definition import_legacy_entry ::
  "int \<Rightarrow> string \<times> nat \<times> string \<Rightarrow> bool \<Rightarrow> lookup_row list \<Rightarrow> lookup_row list" where
  "import_legacy_entry now_ms entry ok table =
     (case entry of (key, expires_at, payload) \<Rightarrow>
        if i64_largest < int expires_at \<or> int expires_at \<le> now_ms \<or> persistent_lookup_skip_reason payload \<noteq> None
           \<or> \<not> ok \<or> find_by lr_key key table \<noteq> None
        then table
        else table @ [\<lparr>lr_key = key, lr_expires_at = int expires_at, lr_payload = payload, lr_updated_at = now_ms\<rparr>])"

definition import_legacy_entries ::
  "int \<Rightarrow> bool \<Rightarrow> (string \<times> nat \<times> string) list \<Rightarrow> (string \<Rightarrow> bool) \<Rightarrow> lookup_row list \<Rightarrow> lookup_row list" where
  "import_legacy_entries now_ms prepared entries ok table =
     (if prepared then fold (\<lambda>entry. import_legacy_entry now_ms entry (ok (fst entry))) entries table else table)"

end
