(* ===== verification/PersistentClaims.thy ===== *)
theory PersistentClaims
  imports PersistentStore
begin

text \<open>
  What the lookup store on disk promises: a batch takes effect as a whole or not at all,
  a payload that is read is the last one written, a flush that succeeds means that
  everything sent before it is on disk, and the table stays within its limit.
\<close>

subsection \<open>The contents of the table\<close>

definition content :: "string \<Rightarrow> lookup_row list \<Rightarrow> (string \<times> int) option" where
  "content key table = map_option (\<lambda>r. (lr_payload r, lr_expires_at r)) (find_by lr_key key table)"

definition keys_distinct :: "lookup_row list \<Rightarrow> bool" where
  "keys_distinct table \<longleftrightarrow> distinct (map lr_key table)"

lemma content_upsert: "content k (upsert_lookup_entry key p e now_ms table) = (if k = key then Some (p, e) else content k table)"
proof -
  have "find_by lr_key k (update_where (\<lambda>r. lr_key r = key)
      (\<lambda>r. r\<lparr>lr_expires_at := e, lr_payload := p, lr_updated_at := now_ms\<rparr>) table)
    = map_option (\<lambda>r. if lr_key r = key then r\<lparr>lr_expires_at := e, lr_payload := p, lr_updated_at := now_ms\<rparr> else r)
        (find_by lr_key k table)"
    by (rule find_by_update_where) simp
  then show ?thesis
    by (auto simp: upsert_lookup_entry_def content_def find_by_append split: option.split dest: find_by_SomeD)
qed

lemma content_delete: "content k (delete_lookup_entry key table) = (if k = key then None else content k table)"
  by (induction table) (auto simp: delete_lookup_entry_def content_def)

lemma keys_upsert:
  "lr_key ` set (upsert_lookup_entry key p e now_ms table) = insert key (lr_key ` set table)"
  "keys_distinct table \<Longrightarrow> keys_distinct (upsert_lookup_entry key p e now_ms table)"
proof -
  have same: "map lr_key (update_where (\<lambda>r. lr_key r = key)
      (\<lambda>r. r\<lparr>lr_expires_at := e, lr_payload := p, lr_updated_at := now_ms\<rparr>) table) = map lr_key table"
    by (simp add: update_where_def)
  then have "lr_key ` set (update_where (\<lambda>r. lr_key r = key)
      (\<lambda>r. r\<lparr>lr_expires_at := e, lr_payload := p, lr_updated_at := now_ms\<rparr>) table) = lr_key ` set table"
    by (metis list.set_map)
  then show "lr_key ` set (upsert_lookup_entry key p e now_ms table) = insert key (lr_key ` set table)"
    by (auto simp: upsert_lookup_entry_def find_by_None_iff dest: find_by_SomeD)
  show "keys_distinct (upsert_lookup_entry key p e now_ms table)" if "keys_distinct table"
    using that by (auto simp: keys_distinct_def upsert_lookup_entry_def same find_by_None_iff)
qed

lemma keys_delete:
  "lr_key ` set (delete_lookup_entry key table) \<subseteq> lr_key ` set table"
  "keys_distinct table \<Longrightarrow> keys_distinct (delete_lookup_entry key table)"
  by (auto simp: delete_lookup_entry_def keys_distinct_def distinct_map_filter)

lemma keys_distinct_filter: "keys_distinct table \<Longrightarrow> keys_distinct (filter p table)"
  by (simp add: keys_distinct_def distinct_map_filter)

lemma content_filter:
  assumes "keys_distinct table"
  shows "content k (filter p table) =
    (case find_by lr_key k table of None \<Rightarrow> None | Some r \<Rightarrow> if p r then Some (lr_payload r, lr_expires_at r) else None)"
proof (cases "find_by lr_key k table")
  case None
  then have "find_by lr_key k (filter p table) = None" by (auto simp: find_by_None_iff)
  with None show ?thesis by (simp add: content_def)
next
  case (Some r)
  have "r \<in> set table \<and> lr_key r = k" using Some by (rule find_by_SomeD)
  moreover have "find_by lr_key k (filter p table) = Some s \<longleftrightarrow> s \<in> set table \<and> p s \<and> lr_key s = k" for s
    using find_by_Some_iff [of lr_key "filter p table" k s] assms by (auto simp: keys_distinct_def distinct_map_filter)
  moreover have "s = r" if "s \<in> set table" "lr_key s = k" for s
    using find_by_eq [of lr_key table s k] that assms Some by (auto simp: keys_distinct_def)
  ultimately have "find_by lr_key k (filter p table) = (if p r then Some r else None)"
    by (cases "find_by lr_key k (filter p table)") auto
  with Some show ?thesis by (simp add: content_def)
qed

subsection \<open>Pruning\<close>

lemma length_chars_le: "length (chars s) \<le> length s"
  by (induction s rule: chars.induct) auto

lemma sql_length_le: "sql_length s \<le> length s"
  unfolding sql_length_def by (meson length_chars_le length_takeWhile_le order_trans)

text \<open>What the first statement of a pruning leaves.\<close>

definition lasting :: "int \<Rightarrow> lookup_row \<Rightarrow> bool" where
  "lasting now_ms r \<longleftrightarrow> now_ms < lr_expires_at r \<and> sql_length (lr_payload r) \<le> max_persisted_lookup_payload_bytes
     \<and> \<not> str_contains embedded_data_image_marker (lr_payload r)"

lemma kept_lasting: "(\<lambda>r. \<not> (lr_expires_at r \<le> now_ms \<or> max_persisted_lookup_payload_bytes < sql_length (lr_payload r)
    \<or> str_contains embedded_data_image_marker (lr_payload r))) = lasting now_ms"
  by (auto simp: lasting_def fun_eq_iff)

lemma prune_is_filter:
  "\<exists>q. prune_lookup_entries_with_limit now_ms m table = filter q table \<and> (\<forall>r. q r \<longrightarrow> lasting now_ms r)
     \<and> (length (filter (lasting now_ms) table) \<le> m \<longrightarrow> q = lasting now_ms)"
proof -
  let ?kept = "filter (lasting now_ms) table"
  let ?gone = "set (map lr_key (take (length ?kept - m) (sort_key (\<lambda>r. (lr_expires_at r, lr_updated_at r)) ?kept)))"
  have "prune_lookup_entries_with_limit now_ms m table = filter (\<lambda>r. lasting now_ms r \<and> lr_key r \<notin> ?gone) table"
    unfolding prune_lookup_entries_with_limit_def kept_lasting Let_def filter_filter by (rule filter_cong) auto
  then show ?thesis by (intro exI [of _ "\<lambda>r. lasting now_ms r \<and> lr_key r \<notin> ?gone"]) auto
qed

lemma length_prune:
  assumes "keys_distinct table"
  shows "length (prune_lookup_entries_with_limit now_ms m table) \<le> m"
proof -
  let ?kept = "filter (lasting now_ms) table"
  let ?old = "take (length ?kept - m) (sort_key (\<lambda>r. (lr_expires_at r, lr_updated_at r)) ?kept)"
  have keys: "distinct (map lr_key ?kept)" using keys_distinct_filter [OF assms] by (simp add: keys_distinct_def)
  then have inj: "inj_on lr_key (set ?kept)" and dist: "distinct ?kept" by (simp_all add: distinct_map)
  have sub: "set ?old \<subseteq> set ?kept" by (metis set_sort set_take_subset)
  then have stay: "filter (\<lambda>r. lr_key r \<notin> set (map lr_key ?old)) ?kept = filter (\<lambda>r. r \<notin> set ?old) ?kept"
    using inj by (intro filter_cong) (auto simp: inj_on_def)
  have "distinct (sort_key (\<lambda>r. (lr_expires_at r, lr_updated_at r)) ?kept)" using dist by simp
  then have "card (set ?old) = length ?old" by (intro distinct_card distinct_take)
  then have old: "card (set ?old) = length ?kept - m" by simp
  have "length (filter (\<lambda>r. r \<notin> set ?old) ?kept) = card (set (filter (\<lambda>r. r \<notin> set ?old) ?kept))"
    by (rule distinct_card [symmetric, OF distinct_filter [OF dist]])
  also have "\<dots> = card (set ?kept - set ?old)" by (rule arg_cong [where f = card]) auto
  also have "\<dots> = length ?kept - (length ?kept - m)"
    using sub dist old by (simp add: card_Diff_subset distinct_card del: set_filter)
  finally show ?thesis
    unfolding prune_lookup_entries_with_limit_def kept_lasting Let_def stay by simp
qed

subsection \<open>Batches\<close>

text \<open>The last thing the commands say of a key: nothing, a removal, or a payload with its expiry.\<close>

fun says :: "string \<Rightarrow> write_command \<Rightarrow> (string \<times> int) option option" where
  "says k (Write_Upsert key payload expires_at ack) = (if key = k then Some (Some (payload, expires_at)) else None)"
| "says k (Write_Remove key ack) = (if key = k then Some None else None)"
| "says k _ = None"

definition last_said :: "string \<Rightarrow> write_command list \<Rightarrow> (string \<times> int) option \<Rightarrow> (string \<times> int) option" where
  "last_said k commands = fold (\<lambda>c v. case says k c of None \<Rightarrow> v | Some w \<Rightarrow> w) commands"

definition upserted :: "write_command list \<Rightarrow> string set" where
  "upserted commands = {key. \<exists>payload expires_at ack. Write_Upsert key payload expires_at ack \<in> set commands}"

lemma upserted_simps [simp]: "upserted [] = {}" "upserted (a @ b) = upserted a \<union> upserted b"
  by (auto simp: upserted_def)

lemma run_statement_ok:
  assumes "keys_distinct (wb_table b)" and "\<not> wb_failed (run_statement e c b)"
  shows "\<not> wb_failed b \<and> content k (wb_table (run_statement e c b)) = (case says k c of None \<Rightarrow> content k (wb_table b) | Some w \<Rightarrow> w)
    \<and> keys_distinct (wb_table (run_statement e c b))
    \<and> lr_key ` set (wb_table (run_statement e c b)) \<subseteq> lr_key ` set (wb_table b) \<union> upserted [c]"
  using assms keys_delete [where table = "wb_table b"] keys_upsert [where table = "wb_table b"]
  by (cases e; cases c) (auto simp: content_upsert content_delete upserted_def)

lemma run_statements_ok:
  assumes "keys_distinct (wb_table b)" and "\<not> wb_failed (fold (\<lambda>(i, c). run_statement (se i) c) ics b)"
  shows "content k (wb_table (fold (\<lambda>(i, c). run_statement (se i) c) ics b)) = last_said k (map snd ics) (content k (wb_table b))
    \<and> keys_distinct (wb_table (fold (\<lambda>(i, c). run_statement (se i) c) ics b))
    \<and> lr_key ` set (wb_table (fold (\<lambda>(i, c). run_statement (se i) c) ics b)) \<subseteq> lr_key ` set (wb_table b) \<union> upserted (map snd ics)"
  using assms
proof (induction ics rule: rev_induct)
  case Nil
  then show ?case by (simp add: last_said_def)
next
  case (snoc ic ics)
  obtain i c where ic: "ic = (i, c)" by fastforce
  let ?b = "fold (\<lambda>(i, c). run_statement (se i) c) ics b"
  have failed: "\<not> wb_failed (run_statement (se i) c ?b)" using snoc.prems(2) by (simp add: ic)
  then have "\<not> wb_failed ?b" by (cases "se i"; cases c) auto
  with snoc.IH snoc.prems(1) have IH: "content k (wb_table ?b) = last_said k (map snd ics) (content k (wb_table b))"
    "keys_distinct (wb_table ?b)" "lr_key ` set (wb_table ?b) \<subseteq> lr_key ` set (wb_table b) \<union> upserted (map snd ics)"
    by blast+
  note step = run_statement_ok [OF IH(2) failed, of k]
  have "lr_key ` set (wb_table (run_statement (se i) c ?b)) \<subseteq> lr_key ` set (wb_table b) \<union> (upserted (map snd ics) \<union> upserted [c])"
    using step IH(3) by blast
  moreover have "content k (wb_table (run_statement (se i) c ?b)) = last_said k (map snd ics @ [c]) (content k (wb_table b))"
    using step IH(1) by (simp add: last_said_def split: option.split)
  ultimately show ?case using step by (simp add: ic)
qed

text \<open>A committed batch: the statements in order, then the pruning.\<close>

lemma committed_batch:
  assumes "process_write_batch m env commands table = (True, replies, table')" and "keys_distinct table"
  shows "\<exists>t. table' = prune_lookup_entries_with_limit (be_prune_now env) m t \<and> keys_distinct t
    \<and> (\<forall>k. content k t = last_said k commands (content k table))
    \<and> lr_key ` set t \<subseteq> lr_key ` set table \<union> upserted commands"
proof -
  let ?b = "run_statements env commands table"
  have ok: "\<not> wb_failed ?b" and t: "table' = prune_lookup_entries_with_limit (be_prune_now env) m (wb_table ?b)"
    using assms(1) by (auto simp: process_write_batch_def Let_def split: if_splits)
  have "map snd (enumerate 0 commands) = commands" by simp
  with run_statements_ok [of "\<lparr>wb_table = table, wb_failed = False, wb_acks = [], wb_flushes = []\<rparr>"
      "be_statement env" "enumerate 0 commands"] ok assms(2)
  have "\<forall>k. content k (wb_table ?b) = last_said k commands (content k table)" "keys_distinct (wb_table ?b)"
    "lr_key ` set (wb_table ?b) \<subseteq> lr_key ` set table \<union> upserted commands"
    by (simp_all add: run_statements_def)
  with t show ?thesis by (intro exI [of _ "wb_table ?b"]) simp
qed

text \<open>A batch that is not committed changes nothing, and answers every command so.\<close>

lemma uncommitted_batch:
  assumes "process_write_batch m env commands table = (False, replies, table')"
  shows "table' = table \<and> (\<forall>(a, r) \<in> set replies. r = Stored False \<or> (\<exists>e. r = Flushed (Inl e)))"
proof (cases "be_begins env")
  case True
  with assms show ?thesis by (auto simp: process_write_batch_def Let_def)
next
  case False
  have "\<forall>(a, r) \<in> set (failed_reply c). r = Stored False \<or> (\<exists>e. r = Flushed (Inl e))" for c
    by (cases c) (auto simp: ack_with_def split: option.splits)
  then have "\<forall>(a, r) \<in> set (acknowledge_failed_batch commands). r = Stored False \<or> (\<exists>e. r = Flushed (Inl e))"
    unfolding acknowledge_failed_batch_def by fastforce
  with False assms show ?thesis by (simp add: process_write_batch_def)
qed

subsection \<open>The batches of a store\<close>

definition batch_turn_of :: "nat \<Rightarrow> batch_env \<times> write_command list \<Rightarrow> bool \<times> lookup_row list \<Rightarrow> bool \<times> lookup_row list" where
  "batch_turn_of m = (\<lambda>(env, commands) (ok, table).
     let (committed, replies, table') = process_write_batch m env commands table in (ok \<and> committed, table'))"

text \<open>Whether all were committed, and the table they leave.\<close>

definition run_history :: "nat \<Rightarrow> (batch_env \<times> write_command list) list \<Rightarrow> lookup_row list \<Rightarrow> bool \<times> lookup_row list" where
  "run_history m batches table = fold (batch_turn_of m) batches (True, table)"

abbreviation processed :: "(batch_env \<times> write_command list) list \<Rightarrow> write_command list" where
  "processed batches \<equiv> concat (map snd batches)"

lemma last_said_append: "last_said k (a @ b) v = last_said k b (last_said k a v)"
  by (simp add: last_said_def)

lemma last_said_cases: "(\<forall>v. last_said k commands v = v) \<or> (\<exists>w. \<forall>v. last_said k commands v = w)"
proof (induction commands rule: rev_induct)
  case (snoc c commands)
  have "last_said k (commands @ [c]) v = (case says k c of None \<Rightarrow> last_said k commands v | Some w \<Rightarrow> w)" for v
    by (simp add: last_said_def split: option.split)
  with snoc.IH show ?case by (cases "says k c") auto
qed (simp add: last_said_def)

lemma history_snoc:
  assumes "run_history m (batches @ [(env, commands)]) table = (True, t')"
  obtains t replies where "run_history m batches table = (True, t)" "process_write_batch m env commands t = (True, replies, t')"
  using assms by (cases "run_history m batches table") (auto simp: run_history_def batch_turn_of_def split: prod.splits)

lemma history_ok:
  assumes "keys_distinct table" and "run_history m batches table = (True, t)"
  shows "keys_distinct t \<and> (batches \<noteq> [] \<longrightarrow> length t \<le> m)
    \<and> lr_key ` set t \<subseteq> lr_key ` set table \<union> upserted (processed batches)
    \<and> (\<forall>v. content k t = Some v \<longrightarrow> last_said k (processed batches) (content k table) = Some v)"
  using assms(2)
proof (induction batches arbitrary: t rule: rev_induct)
  case Nil
  with assms(1) show ?case by (simp add: run_history_def last_said_def)
next
  case (snoc batch batches)
  obtain env commands where batch: "batch = (env, commands)" by fastforce
  from snoc.prems [unfolded batch] obtain t0 replies where t0: "run_history m batches table = (True, t0)"
    "process_write_batch m env commands t0 = (True, replies, t)" by (rule history_snoc)
  note IH = snoc.IH [OF t0(1)]
  then obtain t1 where t1: "t = prune_lookup_entries_with_limit (be_prune_now env) m t1" "keys_distinct t1"
    "\<forall>k. content k t1 = last_said k commands (content k t0)" "lr_key ` set t1 \<subseteq> lr_key ` set t0 \<union> upserted commands"
    using committed_batch [OF t0(2)] by blast
  obtain q where q: "t = filter q t1" using prune_is_filter t1(1) by metis
  have said: "last_said k (processed (batches @ [batch])) (content k table) = Some v" if "content k t = Some v" for v
  proof -
    have v: "content k t1 = Some v" using that content_filter [OF t1(2), of k q]
      by (auto simp: q content_def split: option.splits if_splits)
    have IH': "content k t0 = Some v \<Longrightarrow> last_said k (processed batches) (content k table) = Some v" using IH by blast
    have "last_said k commands (last_said k (processed batches) (content k table)) = Some v"
      using last_said_cases [of k commands] v t1(3) IH' by metis
    then show ?thesis by (simp add: last_said_append batch)
  qed
  have "lr_key ` set t \<subseteq> lr_key ` set table \<union> upserted (processed (batches @ [batch]))"
    using t1(4) IH by (auto simp: q batch)
  moreover have "keys_distinct t" unfolding q by (rule keys_distinct_filter [OF t1(2)])
  moreover have "length t \<le> m" unfolding t1(1) by (rule length_prune [OF t1(2)])
  ultimately show ?case using said by blast
qed

lemma history_keeps:
  assumes "keys_distinct table" and "run_history m batches table = (True, t)"
    and room: "card (lr_key ` set table \<union> upserted (processed batches)) \<le> m"
    and said: "last_said k (processed batches) (content k table) = Some (p, e)"
    and good: "persistent_lookup_skip_reason p = None" and late: "\<forall>(env, commands) \<in> set batches. be_prune_now env < e"
  shows "content k t = Some (p, e)"
  using assms(2-4) late
proof (induction batches arbitrary: t rule: rev_induct)
  case Nil
  then show ?case by (simp add: run_history_def last_said_def)
next
  case (snoc batch batches)
  obtain env commands where batch: "batch = (env, commands)" by fastforce
  from snoc.prems(1) [unfolded batch] obtain t0 replies where t0: "run_history m batches table = (True, t0)"
    "process_write_batch m env commands t0 = (True, replies, t)" by (rule history_snoc)
  note before = history_ok [OF assms(1) t0(1)]
  obtain t1 where t1: "t = prune_lookup_entries_with_limit (be_prune_now env) m t1" "keys_distinct t1"
    "\<forall>k. content k t1 = last_said k commands (content k t0)" "lr_key ` set t1 \<subseteq> lr_key ` set t0 \<union> upserted commands"
    using committed_batch [OF t0(2)] before by blast
  have finite: "finite (lr_key ` set table \<union> upserted (processed (batches @ [batch])))"
  proof -
    have "upserted cs \<subseteq> (\<lambda>c. case c of Write_Upsert key _ _ _ \<Rightarrow> key | _ \<Rightarrow> []) ` set cs" for cs
      by (force simp: upserted_def)
    then show ?thesis by (meson finite_Un finite_imageI finite_set finite_subset)
  qed
  have "card (lr_key ` set table \<union> upserted (processed batches)) \<le> m"
    by (rule order_trans [OF card_mono [OF finite] snoc.prems(2)]) auto
  note IH = snoc.IH [OF t0(1) this]
  have now: "content k t1 = Some (p, e)"
    using last_said_cases [of k commands] snoc.prems(3) t1(3) IH snoc.prems(4) by (auto simp: last_said_append batch)
  have "length (filter (lasting (be_prune_now env)) t1) \<le> length (map lr_key t1)" by simp
  also have "\<dots> = card (set (map lr_key t1))" using t1(2) by (simp only: keys_distinct_def distinct_card)
  also have "\<dots> \<le> card (lr_key ` set table \<union> upserted (processed (batches @ [batch])))"
    by (rule card_mono [OF finite]) (use t1(4) before in \<open>auto simp: batch\<close>)
  also have "\<dots> \<le> m" by (rule snoc.prems(2))
  finally have t: "t = filter (lasting (be_prune_now env)) t1"
    using prune_is_filter [of "be_prune_now env" m t1] t1(1) by auto
  obtain r where r: "find_by lr_key k t1 = Some r" "lr_payload r = p" "lr_expires_at r = e"
    using now by (auto simp: content_def)
  have "lasting (be_prune_now env) r"
    using good snoc.prems(4) sql_length_le [of p] r(2,3)
    by (auto simp: lasting_def persistent_lookup_skip_reason_def batch split: if_splits)
  with r show ?case by (simp add: t content_filter [OF t1(2)])
qed

subsection \<open>The store\<close>

definition store_ok :: "nat \<Rightarrow> lookup_row list \<Rightarrow> write_command list \<Rightarrow> (batch_env \<times> write_command list) list \<Rightarrow> lookup_store \<Rightarrow> bool" where
  "store_ok m table sent batches st \<longleftrightarrow>
     (\<not> ls_failed st, ls_table st) = run_history m batches table
     \<and> (\<exists>later. sent = processed batches @ later \<and> (ls_mode st = Writing \<longrightarrow> later = ls_queue st))
     \<and> (\<forall>a. (a, Flushed (Inr ())) \<in> set (ls_replies st) \<longrightarrow> Write_Flush a \<in> set (processed batches))
     \<and> length (ls_queue st) \<le> max_buffered_persistent_writes"

lemma failed_reply_no_flush: "(a, Flushed (Inr u)) \<notin> set (failed_reply c)"
  by (cases c) (auto simp: ack_with_def split: option.splits)

lemma run_statements_flushes:
  "set (wb_flushes (fold (\<lambda>(i, c). run_statement (se i) c) ics b)) \<subseteq> set (wb_flushes b) \<union> {a. Write_Flush a \<in> set (map snd ics)}"
proof (induction ics rule: rev_induct)
  case (snoc ic ics)
  obtain i c where ic: "ic = (i, c)" by fastforce
  from snoc.IH show ?case by (cases "se i"; cases c) (auto simp: ic)
qed simp

lemma batch_flush_reply:
  assumes "process_write_batch m env commands table = (committed, replies, table')" and "(a, Flushed (Inr u)) \<in> set replies"
  shows "Write_Flush a \<in> set commands"
proof (cases "be_begins env")
  case False
  with assms failed_reply_no_flush show ?thesis by (auto simp: process_write_batch_def acknowledge_failed_batch_def)
next
  case True
  with assms have "a \<in> set (wb_flushes (run_statements env commands table))"
    by (auto simp: process_write_batch_def Let_def split: if_splits)
  with run_statements_flushes show ?thesis unfolding run_statements_def by fastforce
qed

lemma store_ok_sent:
  assumes "store_ok m table sent batches st" and "try_send command st = (True, st')"
  shows "store_ok m table (sent @ [command]) batches st'"
  using assms unfolding store_ok_def by (auto simp: try_send_def split: if_splits)

lemma store_ok_batch:
  assumes ok: "store_ok m table sent batches st" and writing: "ls_mode st = Writing"
  shows "store_ok m table sent (batches @ [(env, take n (ls_queue st))]) (write_batch_turn m env n st)"
proof -
  let ?cs = "take n (ls_queue st)"
  obtain committed replies t where b: "process_write_batch m env ?cs (ls_table st) = (committed, replies, t)"
    by (metis prod_cases3)
  have "run_history m (batches @ [(env, ?cs)]) table = (\<not> ls_failed st \<and> committed, t)"
  proof -
    have "run_history m batches table = (\<not> ls_failed st, ls_table st)" using ok by (simp add: store_ok_def)
    with b show ?thesis by (simp add: run_history_def) (simp add: batch_turn_of_def)
  qed
  moreover have "sent = processed batches @ ls_queue st" using ok writing by (auto simp: store_ok_def)
  moreover have "Write_Flush a \<in> set (processed (batches @ [(env, ?cs)]))"
    if "(a, Flushed (Inr ())) \<in> set (ls_replies st @ replies)" for a
    using that ok batch_flush_reply [OF b, of a] by (auto simp: store_ok_def)
  moreover have "write_batch_turn m env n st = st\<lparr>ls_table := t, ls_queue := drop n (ls_queue st),
      ls_failed := ls_failed st \<or> \<not> committed, ls_replies := ls_replies st @ replies\<rparr>"
    by (simp add: write_batch_turn_def b)
  moreover have "length (drop n (ls_queue st)) \<le> max_buffered_persistent_writes" using ok by (auto simp: store_ok_def)
  moreover have "\<exists>later. ls_queue st = ?cs @ later \<and> (ls_mode st = Writing \<longrightarrow> later = drop n (ls_queue st))"
    by (intro exI [of _ "drop n (ls_queue st)"]) simp
  ultimately show ?thesis unfolding store_ok_def by simp
qed

lemma store_ok_reaches: "store_reaches m table sent batches st \<Longrightarrow> store_ok m table sent batches st"
proof (induction rule: store_reaches.induct)
  case (Store_Opened opens)
  show ?case by (simp add: store_ok_def opened_store_def run_history_def)
next
  case (Command_Sent sent batches st command st')
  then show ?case by (blast intro: store_ok_sent)
next
  case (Batch_Written sent batches st n env)
  then show ?case by (blast intro: store_ok_batch)
next
  case (Command_Rejected sent batches st command queue)
  then show ?case using failed_reply_no_flush by (auto simp: store_ok_def)
next
  case (Writer_Stops sent batches st queue)
  then show ?case by (auto simp: store_ok_def)
qed

lemma load_content:
  "load_success_fresh now_ms k age st = (Some p, st') \<Longrightarrow> \<exists>e. content k (ls_table st) = Some (p, e) \<and> now_ms < e"
  by (auto simp: load_success_fresh_def content_def Let_def split: option.splits if_splits)

lemma load_contentI:
  "content k (ls_table st) = Some (p, e) \<Longrightarrow> now_ms < e \<Longrightarrow> persistent_lookup_skip_reason p = None \<Longrightarrow>
   load_success_fresh now_ms k None st = (Some p, st)"
  by (auto simp: load_success_fresh_def content_def)

text \<open>
  \<open>C21.\<close> When \<open>flush\<close> returns without an error, every command sent before it has been
  committed: the commands sent so far are those of the committed batches, which hold the
  flush, and later ones.  From then on a payload that is loaded is the one last written
  for its key, is not expired, and was not removed since; and if the keys fit into the
  limit, every payload that may be stored, is not yet expired and was not expired at a
  pruning is loaded.  The table never holds more rows than the limit, and one a key.
\<close>

theorem flushed_writes_are_read_back:
  assumes "store_reaches m table sent batches st" and "keys_distinct table"
    and "(a, Flushed (Inr ())) \<in> set (ls_replies st)" and "flush_answer (Some (Flushed (Inr ()))) st = Inr ()"
  shows "(\<exists>later. sent = concat (map snd batches) @ later) \<and> Write_Flush a \<in> set (concat (map snd batches))
    \<and> length (ls_table st) \<le> m \<and> distinct (map lr_key (ls_table st))
    \<and> (\<forall>now_ms k age p st'. load_success_fresh now_ms k age st = (Some p, st') \<longrightarrow>
         (\<exists>e. last_said k (concat (map snd batches)) (content k table) = Some (p, e) \<and> now_ms < e))
    \<and> (card (lr_key ` set table \<union> upserted (concat (map snd batches))) \<le> m \<longrightarrow>
         (\<forall>k p e now_ms. last_said k (concat (map snd batches)) (content k table) = Some (p, e)
            \<and> persistent_lookup_skip_reason p = None \<and> now_ms < e
            \<and> (\<forall>(env, commands) \<in> set batches. be_prune_now env < e) \<longrightarrow>
            load_success_fresh now_ms k None st = (Some p, st)))"
proof -
  note ok = store_ok_reaches [OF assms(1)]
  have "\<not> ls_failed st" using assms(4) by (simp add: flush_answer_def split: if_splits)
  with ok have history: "run_history m batches table = (True, ls_table st)" by (simp add: store_ok_def)
  have flushed: "Write_Flush a \<in> set (processed batches)" using ok assms(3) by (simp add: store_ok_def)
  then have "batches \<noteq> []" by auto
  with history_ok [OF assms(2) history] have table: "length (ls_table st) \<le> m" "keys_distinct (ls_table st)" by auto
  have said: "\<And>k v. content k (ls_table st) = Some v \<Longrightarrow> last_said k (processed batches) (content k table) = Some v"
    using history_ok [OF assms(2) history] by blast
  have read: "\<exists>e. last_said k (processed batches) (content k table) = Some (p, e) \<and> now_ms < e"
    if "load_success_fresh now_ms k age st = (Some p, st')" for now_ms k age p st'
    using load_content [OF that] said by blast
  have kept: "load_success_fresh now_ms k None st = (Some p, st)"
    if "card (lr_key ` set table \<union> upserted (processed batches)) \<le> m"
      "last_said k (processed batches) (content k table) = Some (p, e)" "persistent_lookup_skip_reason p = None" "now_ms < e"
      "\<forall>(env, commands) \<in> set batches. be_prune_now env < e" for now_ms k p e
    using load_contentI history_keeps [OF assms(2) history that(1-3,5)] that(3,4) by blast
  have "\<exists>later. sent = processed batches @ later" using ok by (auto simp: store_ok_def)
  with flushed table read kept show ?thesis unfolding keys_distinct_def by blast
qed

definition quiet_batch :: batch_env where
  "quiet_batch = \<lparr>be_begins = True, be_statement = (\<lambda>_. (100, True)), be_prune_now = 100, be_prune_ok = True, be_commit_ok = True\<rparr>"

theorem flushed_writes_are_read_back_witness:
  "\<exists>sent batches st. store_reaches 2 [] sent batches st \<and> (7, Flushed (Inr ())) \<in> set (ls_replies st)
     \<and> fst (load_success_fresh 200 ''track:P1'' None st) = Some ''new''"
proof -
  let ?up1 = "Write_Upsert ''track:P1'' ''old'' 900 None" and ?up2 = "Write_Upsert ''track:P1'' ''new'' 800 (Some 3)"
  let ?st0 = "opened_store True []"
  let ?st3 = "?st0\<lparr>ls_queue := [?up1, ?up2, Write_Flush 7]\<rparr>"
  have "store_reaches 2 [] ([] @ [?up1]) [] (?st0\<lparr>ls_queue := [?up1]\<rparr>)"
    by (rule Command_Sent [OF Store_Opened [of _ _ True]]) (simp add: try_send_def opened_store_def)
  then have "store_reaches 2 [] (([] @ [?up1]) @ [?up2]) [] (?st0\<lparr>ls_queue := [?up1, ?up2]\<rparr>)"
    by (rule Command_Sent) (simp add: try_send_def opened_store_def)
  then have "store_reaches 2 [] ((([] @ [?up1]) @ [?up2]) @ [Write_Flush 7]) [] ?st3"
    by (rule Command_Sent) (simp add: try_send_def opened_store_def)
  then have r: "store_reaches 2 [] ((([] @ [?up1]) @ [?up2]) @ [Write_Flush 7]) ([] @ [(quiet_batch, take 3 (ls_queue ?st3))])
      (write_batch_turn 2 quiet_batch 3 ?st3)"
    by (rule Batch_Written) (simp_all add: opened_store_def)
  have contains: "\<not> str_contains embedded_data_image_marker ''new''" by code_simp
  have run: "process_write_batch 2 quiet_batch [?up1, ?up2, Write_Flush 7] [] = (True, [(3, Stored True), (7, Flushed (Inr ()))],
      [\<lparr>lr_key = ''track:P1'', lr_expires_at = 800, lr_payload = ''new'', lr_updated_at = 100\<rparr>])"
    using contains sql_length_le [of "''new''"]
    by (simp add: process_write_batch_def run_statements_def quiet_batch_def upsert_lookup_entry_def update_where_def ack_with_def
        prune_lookup_entries_with_limit_def max_persisted_lookup_payload_bytes_def)
  have flushed: "(7, Flushed (Inr ())) \<in> set (ls_replies (write_batch_turn 2 quiet_batch 3 ?st3))"
    "flush_answer (Some (Flushed (Inr ()))) (write_batch_turn 2 quiet_batch 3 ?st3) = Inr ()"
    by (simp_all add: write_batch_turn_def opened_store_def run flush_answer_def)
  have said: "last_said ''track:P1'' (concat (map snd ([] @ [(quiet_batch, take 3 (ls_queue ?st3))]))) (content ''track:P1'' [])
      = Some (''new'', 800)"
    by (simp add: last_said_def)
  have keys: "upserted (concat (map snd ([] @ [(quiet_batch, take 3 (ls_queue ?st3))]))) = {''track:P1''}"
    by (auto simp: upserted_def)
  have good: "persistent_lookup_skip_reason ''new'' = None"
    using contains by (simp add: persistent_lookup_skip_reason_def max_persisted_lookup_payload_bytes_def)
  have kd: "keys_distinct []" by (simp add: keys_distinct_def)
  have late: "\<forall>(env, commands) \<in> set ([] @ [(quiet_batch, take 3 (ls_queue ?st3))]). be_prune_now env < 800"
    by (simp add: quiet_batch_def)
  have room: "card (lr_key ` set [] \<union> upserted (concat (map snd ([] @ [(quiet_batch, take 3 (ls_queue ?st3))])))) \<le> 2"
    unfolding keys by simp
  have "(200 :: int) < 800" by simp
  with flushed_writes_are_read_back [OF r kd flushed] room said good late
  have "load_success_fresh 200 ''track:P1'' None (write_batch_turn 2 quiet_batch 3 ?st3) = (Some ''new'', write_batch_turn 2 quiet_batch 3 ?st3)"
    by blast
  with r flushed(1) show ?thesis by (metis fst_conv)
qed

subsection \<open>A removal that comes late\<close>

text \<open>
  A reader that finds an expired row sends a removal of its key.  When a fresh payload
  was sent in between, the removal is behind it in the queue and takes it away.
\<close>

definition crossing_store :: lookup_store where
  "crossing_store = \<lparr>ls_table = [\<lparr>lr_key = ''k'', lr_expires_at = 50, lr_payload = ''old'', lr_updated_at = 0\<rparr>],
     ls_queue = [Write_Upsert ''k'' ''fresh'' 900 None], ls_failed = False, ls_replies = [], ls_mode = Writing\<rparr>"

lemma late_removal_drops_fresh_payload:
  "ls_table (write_batch_turn m quiet_batch 1 crossing_store) = prune_lookup_entries_with_limit 100 m
     [\<lparr>lr_key = ''k'', lr_expires_at = 900, lr_payload = ''fresh'', lr_updated_at = 100\<rparr>]"
  "ls_table (write_batch_turn m quiet_batch 2 (snd (load_success_fresh 100 ''k'' None crossing_store))) = []"
  by (simp_all add: crossing_store_def load_success_fresh_def enqueue_remove_success_def try_send_def write_batch_turn_def
      process_write_batch_def quiet_batch_def run_statements_def upsert_lookup_entry_def update_where_def delete_lookup_entry_def
      prune_lookup_entries_with_limit_def)

end
