(* ===== verification/BagRouteEnrichment.thy ===== *)
theory BagRouteEnrichment
  imports ManifestCache "HOL-Library.Multiset"
begin

text \<open>
  The routes of bags in the answer of a shipment (\<open>http_api.rs\<close>): how a route is chosen
  between the label of a bag and the manifests, how the cache, the leases and the
  upstream give the label's route, and how up to four lookups at a time put the routes
  into the history of a shipment.
\<close>

subsection \<open>The history of a shipment\<close>

record bagging_event =
  be_petugas :: "string option"
  be_lokasi :: "string option"
  be_tujuan :: "string option"
  be_tanggal :: "string option"
  be_waktu :: "string option"

record unbagging_event =
  ue_petugas :: "string option"
  ue_lokasi :: "string option"
  ue_tanggal :: "string option"
  ue_waktu :: "string option"

record bagging_summary =
  bu_nomor_kantung :: string
  bu_bagging :: "bagging_event option"
  bu_unbagging :: "unbagging_event option"
  bu_unbagging_sesuai_tujuan :: "bool option"

subsection \<open>The label of a bag\<close>

text \<open>
  The page of the label (\<open>bag_route.rs\<close>).  The parser is a parameter: the bold blocks of the
  page in order, each with the text of its first italic element, if it has one, and its text.
\<close>

fun join_spaces :: "string list \<Rightarrow> string" where
  "join_spaces [] = []"
| "join_spaces [w] = w"
| "join_spaces (w # ws) = w @ '' '' @ join_spaces ws"

definition single_spaced :: "string \<Rightarrow> string" where
  "single_spaced v = join_spaces (split_whitespace v)"

definition label_key :: "string \<Rightarrow> string" where
  "label_key v = to_ascii_lowercase (rev (dropWhile (\<lambda>c. c = CHR '':'') (rev (single_spaced v))))"

definition label_value :: "string \<Rightarrow> string option" where
  "label_value v =
     (case split_once '':'' (single_spaced v) of
        None \<Rightarrow> None
      | Some (_, value) \<Rightarrow>
          if trim value = [] \<or> to_ascii_lowercase (trim value) \<in> {''-'', ''null'', ''undefined''} then None
          else Some (trim value))"

definition read_block :: "string option \<times> string \<Rightarrow> string option \<times> string option \<Rightarrow> string option \<times> string option" where
  "read_block = (\<lambda>(label, content) (lokasi_asal, tujuan).
     case label of
       None \<Rightarrow> (lokasi_asal, tujuan)
     | Some label \<Rightarrow>
         if label_key label = ''from'' then (label_value content, tujuan)
         else if label_key label = ''to'' then (lokasi_asal, label_value content)
         else (lokasi_asal, tujuan))"

definition parse_bag_route_html ::
  "(string \<Rightarrow> (string option \<times> string) list) \<Rightarrow> string \<Rightarrow> string \<Rightarrow> string \<Rightarrow> string + bag_route" where
  "parse_bag_route_html bold_blocks html bag_id url =
     (let (lokasi_asal, tujuan) = fold read_block (bold_blocks html) (None, None)
      in if lokasi_asal = None \<and> tujuan = None
         then Inl ''Bag label response does not contain From or To route fields.''
         else Inr \<lparr>br_nomor_kantung = bag_id, br_lokasi_asal = lokasi_asal, br_tujuan = tujuan, br_url = url\<rparr>)"

subsection \<open>Offices\<close>

definition has_digit :: "string \<Rightarrow> bool" where
  "has_digit part \<longleftrightarrow> list_ex (\<lambda>c. is_ascii_digit c) part"

definition normalized_location_identity :: "string \<Rightarrow> string" where
  "normalized_location_identity v =
     (let normalized = to_ascii_uppercase (single_spaced v)
      in case find has_digit (rev (split_whitespace normalized)) of
           Some part \<Rightarrow> filter is_ascii_alphanumeric part
         | None \<Rightarrow> normalized)"

definition locations_match :: "string \<Rightarrow> string \<Rightarrow> bool" where
  "locations_match expected actual \<longleftrightarrow>
     (let e = normalized_location_identity expected; a = normalized_location_identity actual in e \<noteq> [] \<and> e = a)"

subsection \<open>A route\<close>

definition complete_route :: "bag_route option \<Rightarrow> bool" where
  "complete_route r = (case r of None \<Rightarrow> False | Some r \<Rightarrow> br_lokasi_asal r \<noteq> None \<and> br_tujuan r \<noteq> None)"

definition select_bag_route :: "bag_route option \<Rightarrow> bag_route option \<Rightarrow> bag_route option" where
  "select_bag_route label manifest =
     (if complete_route label then label
      else if complete_route manifest then manifest
      else case label of Some r \<Rightarrow> Some r | None \<Rightarrow> manifest)"

definition apply_to_summary :: "bag_route \<Rightarrow> bagging_summary \<Rightarrow> bagging_summary" where
  "apply_to_summary route summary =
     (if \<not> eq_ignore_ascii_case (bu_nomor_kantung summary) (br_nomor_kantung route) then summary
      else case bu_bagging summary of
        None \<Rightarrow> summary
      | Some b \<Rightarrow>
          let b1 = (if be_lokasi b = None then b\<lparr>be_lokasi := br_lokasi_asal route\<rparr> else b);
              b2 = (if br_tujuan route \<noteq> None then b1\<lparr>be_tujuan := br_tujuan route\<rparr> else b1)
          in summary\<lparr>bu_bagging := Some b2,
               bu_unbagging_sesuai_tujuan :=
                 (case (be_tujuan b2, Option.bind (bu_unbagging summary) ue_lokasi) of
                    (Some expected, Some actual) \<Rightarrow> Some (locations_match expected actual)
                  | _ \<Rightarrow> None)\<rparr>)"

definition apply_bag_route :: "bag_route \<Rightarrow> bagging_summary list \<Rightarrow> bagging_summary list" where
  "apply_bag_route route = map (apply_to_summary route)"

subsection \<open>The route of one bag\<close>

text \<open>
  One turn of \<open>resolve_cached_bag_route\<close> up to its answer, its wait, or its fetch.  After a
  wait the next turn does not force a refresh, and starts from the route known so far.
\<close>

datatype route_turn =
    Route_Answer "bag_route option"
  | Route_Waits nat "bag_route option"
  | Route_Fetches nat "bag_route option"

definition bag_route_turn ::
  "route_serde \<Rightarrow> nat \<Rightarrow> nat \<Rightarrow> string \<Rightarrow> bag_route option \<Rightarrow> bag_route option \<Rightarrow> bool
   \<Rightarrow> bag_route_row list \<times> in_flight \<Rightarrow> route_turn \<times> bag_route_row list \<times> in_flight" where
  "bag_route_turn sd now_ms fresh bag_id manifest known force_refresh = (\<lambda>(table, flights).
     let (entry, table1) = bag_route_get sd now_ms bag_id table;
         known1 = (case entry of Some e \<Rightarrow> be_route e | None \<Rightarrow> known)
     in if (case entry of Some e \<Rightarrow> \<not> force_refresh \<and> \<not> route_retry_due now_ms e | None \<Rightarrow> False)
           \<or> \<not> force_refresh \<and> complete_route manifest
        then (Route_Answer (select_bag_route known1 manifest), table1, flights)
        else case route_begin_fetch bag_id fresh flights of
               (Wait_Lease n, flights1) \<Rightarrow> (Route_Waits n known1, table1, flights1)
             | (Start_Lease n, flights1) \<Rightarrow> (Route_Fetches n known1, table1, flights1))"

text \<open>How a fetch ends: no permit, the page of the label, an error, or the timeout.\<close>

datatype route_fetch = Permit_Refused | Route_Fetched bag_route | Route_Failed_Or_Late

definition bag_route_fetched ::
  "route_serde \<Rightarrow> nat \<Rightarrow> string \<Rightarrow> nat \<Rightarrow> bag_route option \<Rightarrow> bag_route option \<Rightarrow> route_fetch
   \<Rightarrow> bag_route_row list \<times> in_flight \<Rightarrow> bag_route option \<times> bag_route_row list \<times> in_flight" where
  "bag_route_fetched sd now_ms bag_id n manifest known outcome = (\<lambda>(table, flights).
     let (route, table1) =
           (case outcome of
              Permit_Refused \<Rightarrow> (known, table)
            | Route_Fetched route \<Rightarrow>
                let (entry, table1) = bag_route_store_async sd now_ms bag_id route table in (be_route entry, table1)
            | Route_Failed_Or_Late \<Rightarrow>
                let (entry, table1) = bag_route_store_failure sd now_ms bag_id table in (be_route entry, table1))
     in (select_bag_route route manifest, table1, route_drop_lease bag_id n flights))"

subsection \<open>The routes of a shipment\<close>

abbreviation "max_concurrent_bag_route_enrichments_per_track \<equiv> (4 :: nat)"

text \<open>The bags to look up: those that were bagged, once each, in upper case.\<close>

fun pending_bags :: "string set \<Rightarrow> bagging_summary list \<Rightarrow> string list" where
  "pending_bags seen [] = []"
| "pending_bags seen (s # ss) =
     (let bag_id = to_ascii_uppercase (trim (bu_nomor_kantung s))
      in if bu_bagging s \<noteq> None \<and> bag_id \<noteq> [] \<and> bag_id \<notin> seen
         then bag_id # pending_bags (insert bag_id seen) ss
         else pending_bags seen ss)"

record route_enrichment =
  en_pending :: "string list"
  en_running :: "string list"
  en_summaries :: "bagging_summary list"

definition fill_enrichment :: "route_enrichment \<Rightarrow> route_enrichment" where
  "fill_enrichment e =
     (let n = max_concurrent_bag_route_enrichments_per_track - length (en_running e)
      in e\<lparr>en_running := en_running e @ take n (en_pending e), en_pending := drop n (en_pending e)\<rparr>)"

definition start_enrichment :: "bagging_summary list \<Rightarrow> route_enrichment" where
  "start_enrichment summaries =
     fill_enrichment \<lparr>en_pending = pending_bags {} summaries, en_running = [], en_summaries = summaries\<rparr>"

text \<open>A task ended: with a route, without one, or, also \<open>None\<close>, by failing.\<close>

definition bag_joined :: "string \<Rightarrow> bag_route option \<Rightarrow> route_enrichment \<Rightarrow> route_enrichment" where
  "bag_joined bag_id route e =
     fill_enrichment (e\<lparr>en_running := remove1 bag_id (en_running e),
       en_summaries := (case route of Some r \<Rightarrow> apply_bag_route r (en_summaries e) | None \<Rightarrow> en_summaries e)\<rparr>)"

text \<open>The budget may end the enrichment in any of these states.\<close>

inductive enrichment_reaches :: "(string \<Rightarrow> bag_route option) \<Rightarrow> bagging_summary list \<Rightarrow> route_enrichment \<Rightarrow> bool"
  for route_of :: "string \<Rightarrow> bag_route option" and summaries :: "bagging_summary list" where
  Enrichment_Starts: "enrichment_reaches route_of summaries (start_enrichment summaries)"
| Bag_Joined: "enrichment_reaches route_of summaries e \<Longrightarrow> bag_id \<in> set (en_running e) \<Longrightarrow>
    enrichment_reaches route_of summaries (bag_joined bag_id (route_of bag_id) e)"

subsection \<open>A route is that of its bag\<close>

definition own_route :: "string \<Rightarrow> bag_route option \<Rightarrow> bool" where
  "own_route i r \<longleftrightarrow> (case r of None \<Rightarrow> True | Some r \<Rightarrow> eq_ignore_ascii_case (br_nomor_kantung r) i)"

text \<open>Every row of the table that can be read holds a route of its own bag.\<close>

definition table_owned :: "route_serde \<Rightarrow> bag_route_row list \<Rightarrow> bool" where
  "table_owned sd table \<longleftrightarrow>
     (\<forall>row \<in> set table. own_route (rr_bag_id row) (Option.bind (rr_route_json row) (route_from_json sd)))"

text \<open>The codec keeps the number of the bag.\<close>

definition keeps_number :: "route_serde \<Rightarrow> bool" where
  "keeps_number sd \<longleftrightarrow> (\<forall>r json r'. route_to_json sd r = Some json \<longrightarrow> route_from_json sd json = Some r'
     \<longrightarrow> br_nomor_kantung r' = br_nomor_kantung r)"

lemma own_route_simps [simp]:
  "own_route i None" "own_route i (Some (normalize_route r)) = own_route i (Some r)"
  by (simp_all add: own_route_def normalize_route_def)

lemma own_select: "own_route i label \<Longrightarrow> own_route i manifest \<Longrightarrow> own_route i (select_bag_route label manifest)"
  by (cases label) (auto simp: select_bag_route_def)

lemma label_is_own: "parse_bag_route_html bold_blocks html bag_id url = Inr route \<Longrightarrow> own_route bag_id (Some route)"
  by (auto simp: parse_bag_route_html_def own_route_def eq_ignore_ascii_case_def split: prod.splits if_splits)

lemma table_owned_filter: "table_owned sd table \<Longrightarrow> table_owned sd (filter P table)"
  by (simp add: table_owned_def)

lemma table_owned_map:
  assumes "table_owned sd table" "\<And>row. row \<in> set table \<Longrightarrow> P row \<Longrightarrow> own_route (rr_bag_id (f row)) (Option.bind (rr_route_json (f row)) (route_from_json sd))"
  shows "table_owned sd (update_where P f table)"
  using assms by (auto simp: table_owned_def update_where_def)

lemma own_found:
  "table_owned sd table \<Longrightarrow> find_by rr_bag_id bag_id table = Some row
   \<Longrightarrow> rr_bag_id row = bag_id \<and> own_route bag_id (Option.bind (rr_route_json row) (route_from_json sd))"
  by (auto simp: table_owned_def find_by_def find_Some_iff)

lemma get_own:
  assumes "table_owned sd table" "bag_route_get sd now bag_id table = (entry, table1)"
  shows "table_owned sd table1 \<and> (\<forall>e. entry = Some e \<longrightarrow> own_route bag_id (be_route e))"
proof (cases "find_by rr_bag_id bag_id table")
  case None
  with assms show ?thesis by (simp add: bag_route_get_def)
next
  case (Some row)
  have own: "own_route bag_id (Option.bind (rr_route_json row) (route_from_json sd))"
    using own_found [OF assms(1) Some] by simp
  have deleted: "table_owned sd (delete_route bag_id table)"
    using assms(1) by (simp add: delete_route_def table_owned_filter)
  have touched: "table_owned sd (touch_route now row table)"
  proof -
    have "table_owned sd (update_where P (\<lambda>r. r\<lparr>rr_last_used_at := v\<rparr>) table)" for P v
      by (rule table_owned_map [OF assms(1)]) (use assms(1) in \<open>auto simp: table_owned_def\<close>)
    then show ?thesis using assms(1) by (simp add: touch_route_def)
  qed
  show ?thesis
    using assms(2) Some own deleted touched
    by (auto simp: bag_route_get_def Let_def split: option.splits if_splits)
qed

lemma merge_own: "own_route i previous \<Longrightarrow> own_route i route \<Longrightarrow> own_route i (fst (merge_route previous route status))"
  by (auto simp: merge_route_def own_route_def Let_def split: option.splits)

lemma store_own:
  assumes "table_owned sd table" "keeps_number sd" "own_route bag_id given"
  shows "own_route bag_id (be_route (fst (bag_route_store sd now bag_id given requested table)))
    \<and> table_owned sd (snd (bag_route_store sd now bag_id given requested table))"
proof -
  obtain route status where merged: "merge_route (previous_route sd bag_id table) given requested = (route, status)"
    by fastforce
  have "own_route bag_id (previous_route sd bag_id table)"
  proof (cases "find_by rr_bag_id bag_id table")
    case (Some row)
    with own_found [OF assms(1) this] show ?thesis
      by (cases "Option.bind (rr_route_json row) (route_from_json sd)") (auto simp: previous_route_def)
  qed (simp add: previous_route_def)
  with merge_own [of bag_id "previous_route sd bag_id table" given requested] merged assms(3)
  have route: "own_route bag_id route" by simp
  have written: "own_route bag_id (Option.bind (Option.bind route (route_to_json sd)) (route_from_json sd))"
  proof (cases "Option.bind (Option.bind route (route_to_json sd)) (route_from_json sd)")
    case (Some r')
    then obtain r json where "route = Some r" "route_to_json sd r = Some json" "route_from_json sd json = Some r'"
      by (auto simp: bind_eq_Some_conv)
    with assms(2) have "br_nomor_kantung r' = br_nomor_kantung r" unfolding keeps_number_def by blast
    with Some route \<open>route = Some r\<close> show ?thesis by (simp add: own_route_def)
  qed simp
  have "table_owned sd (upsert_route row table)"
    if "rr_bag_id row = bag_id" "rr_route_json row = Option.bind route (route_to_json sd)" for row
  proof (cases "find_by rr_bag_id bag_id table = None")
    case True
    with that assms(1) written show ?thesis by (simp add: upsert_route_def table_owned_def)
  next
    case False
    have "table_owned sd (update_where (\<lambda>r. rr_bag_id r = bag_id) (\<lambda>_. row) table)"
      by (rule table_owned_map [OF assms(1)]) (use that written in simp)
    with False that show ?thesis by (simp add: upsert_route_def del: not_None_eq)
  qed
  with route merged show ?thesis
    by (simp add: bag_route_store_def route_prune_connection_def Let_def table_owned_filter)
qed

text \<open>Every turn and every fetch answers with a route of the bag, and leaves the table so.\<close>

lemma turn_own:
  assumes "table_owned sd table" "own_route bag_id manifest" "own_route bag_id known"
    and "bag_route_turn sd now fresh bag_id manifest known force (table, flights) = (turn, table1, flights1)"
  shows "table_owned sd table1 \<and> (case turn of Route_Answer r \<Rightarrow> own_route bag_id r
    | Route_Waits n r \<Rightarrow> own_route bag_id r | Route_Fetches n r \<Rightarrow> own_route bag_id r)"
proof -
  obtain entry table2 where get: "bag_route_get sd now bag_id table = (entry, table2)" by fastforce
  show ?thesis
    using assms(2-4) get_own [OF assms(1) get]
    by (auto simp: bag_route_turn_def get Let_def own_select split: option.splits if_splits prod.splits fetch_action.splits)
qed

lemma fetched_own:
  assumes "table_owned sd table" "keeps_number sd" "own_route bag_id manifest" "own_route bag_id known"
    and "\<And>route. outcome = Route_Fetched route \<Longrightarrow> own_route bag_id (Some route)"
    and "bag_route_fetched sd now bag_id n manifest known outcome (table, flights) = (answer, table1, flights1)"
  shows "table_owned sd table1 \<and> own_route bag_id answer"
proof (cases outcome)
  case Permit_Refused
  with assms show ?thesis by (auto simp: bag_route_fetched_def own_select)
next
  case (Route_Fetched route)
  with assms store_own [of sd table bag_id "Some (normalize_route route)" now "route_status (Some (normalize_route route))"]
  show ?thesis by (auto simp: bag_route_fetched_def bag_route_store_async_def Let_def own_select split: prod.splits)
next
  case Route_Failed_Or_Late
  with assms store_own [of sd table bag_id None now Route_Failed]
  show ?thesis by (auto simp: bag_route_fetched_def bag_route_store_failure_def Let_def own_select split: prod.splits)
qed

subsection \<open>The order does not matter\<close>

lemma upper_of_lower: "to_ascii_uppercase (to_ascii_lowercase s) = to_ascii_uppercase s"
proof -
  have "ascii_upper (ascii_lower c) = ascii_upper c" for c
    by (auto simp: char_eq_byte byte_ascii_upper byte_ascii_lower is_ascii_lowercase_def is_ascii_uppercase_def)
  then show ?thesis by (simp add: to_ascii_uppercase_def to_ascii_lowercase_def)
qed

lemma pending_bags_props:
  "distinct (pending_bags seen ss) \<and> set (pending_bags seen ss) \<inter> seen = {}
   \<and> (\<forall>i \<in> set (pending_bags seen ss). to_ascii_uppercase i = i)"
proof (induction ss arbitrary: seen)
  case (Cons s ss)
  let ?i = "to_ascii_uppercase (trim (bu_nomor_kantung s))"
  from Cons.IH [of "insert ?i seen"] Cons.IH [of seen] show ?case by (auto simp: Let_def)
qed simp

text \<open>The bag whose route a summary takes, and the summary with it.\<close>

definition bag_of :: "string list \<Rightarrow> bagging_summary \<Rightarrow> string option" where
  "bag_of ids s = find (\<lambda>i. eq_ignore_ascii_case (bu_nomor_kantung s) i) ids"

definition enriched :: "(string \<Rightarrow> bag_route option) \<Rightarrow> string list \<Rightarrow> bagging_summary \<Rightarrow> bagging_summary" where
  "enriched route_of ids s =
     (case Option.bind (bag_of ids s) route_of of None \<Rightarrow> s | Some r \<Rightarrow> apply_to_summary r s)"

definition enriched_for :: "(string \<Rightarrow> bag_route option) \<Rightarrow> string list \<Rightarrow> string set \<Rightarrow> bagging_summary \<Rightarrow> bagging_summary" where
  "enriched_for route_of ids ended s = (if bag_of ids s \<in> Some ` ended then enriched route_of ids s else s)"

definition own_routes :: "(string \<Rightarrow> bag_route option) \<Rightarrow> bool" where
  "own_routes route_of \<longleftrightarrow> (\<forall>i. own_route i (route_of i))"

lemma nomor_apply [simp]: "bu_nomor_kantung (apply_to_summary r s) = bu_nomor_kantung s"
  by (simp add: apply_to_summary_def Let_def split: option.split)

lemma nomor_enriched [simp]: "bu_nomor_kantung (enriched_for route_of ids ended s) = bu_nomor_kantung s"
  by (simp add: enriched_for_def enriched_def split: option.split)

lemma bag_of_Some_iff:
  assumes "distinct ids" and "\<forall>i \<in> set ids. to_ascii_uppercase i = i" and "i \<in> set ids"
  shows "bag_of ids s = Some i \<longleftrightarrow> eq_ignore_ascii_case (bu_nomor_kantung s) i"
proof
  show "eq_ignore_ascii_case (bu_nomor_kantung s) i" if "bag_of ids s = Some i"
    using that by (auto simp: bag_of_def find_Some_iff)
next
  assume eq: "eq_ignore_ascii_case (bu_nomor_kantung s) i"
  then have "bag_of ids s \<noteq> None" using assms(3) by (auto simp: bag_of_def find_None_iff)
  then obtain j where j: "bag_of ids s = Some j" by blast
  then have "eq_ignore_ascii_case (bu_nomor_kantung s) j" "j \<in> set ids" by (auto simp: bag_of_def find_Some_iff)
  with eq have "to_ascii_lowercase i = to_ascii_lowercase j" by (simp add: eq_ignore_ascii_case_def)
  then have "to_ascii_uppercase i = to_ascii_uppercase j" by (metis upper_of_lower)
  with assms(2,3) \<open>j \<in> set ids\<close> j show "bag_of ids s = Some i" by simp
qed

text \<open>A further bag that ended.\<close>

lemma enriched_for_insert:
  assumes ids: "distinct ids" "\<forall>i \<in> set ids. to_ascii_uppercase i = i" "i \<in> set ids" and own: "own_routes route_of"
    and new: "i \<notin> ended"
  shows "enriched_for route_of ids (insert i ended) s =
    (case route_of i of None \<Rightarrow> enriched_for route_of ids ended s | Some r \<Rightarrow> apply_to_summary r (enriched_for route_of ids ended s))"
proof (cases "bag_of ids s = Some i")
  case True
  with new show ?thesis by (auto simp: enriched_for_def enriched_def split: option.split)
next
  case False
  have "apply_to_summary r (enriched_for route_of ids ended s) = enriched_for route_of ids ended s" if "route_of i = Some r" for r
  proof -
    have "\<not> eq_ignore_ascii_case (bu_nomor_kantung s) (br_nomor_kantung r)"
      using False bag_of_Some_iff [OF ids, of s] spec [OF own [unfolded own_routes_def], of i] that
      by (auto simp: own_route_def eq_ignore_ascii_case_def)
    then show ?thesis by (simp add: apply_to_summary_def)
  qed
  with False show ?thesis by (auto simp: enriched_for_def split: option.split)
qed

definition enrichment_ok :: "(string \<Rightarrow> bag_route option) \<Rightarrow> bagging_summary list \<Rightarrow> route_enrichment \<Rightarrow> bool" where
  "enrichment_ok route_of summaries e \<longleftrightarrow>
     (let ids = pending_bags {} summaries
      in distinct (en_running e @ en_pending e) \<and> set (en_running e @ en_pending e) \<subseteq> set ids
         \<and> length (en_running e) \<le> max_concurrent_bag_route_enrichments_per_track
         \<and> (en_pending e \<noteq> [] \<longrightarrow> en_running e \<noteq> [])
         \<and> en_summaries e = map (enriched_for route_of ids (set ids - set (en_running e @ en_pending e))) summaries)"

lemma enrichment_ok_fill:
  assumes "distinct (en_running e @ en_pending e)" and "set (en_running e @ en_pending e) \<subseteq> set (pending_bags {} summaries)"
    and "length (en_running e) < max_concurrent_bag_route_enrichments_per_track"
    and "en_summaries e = map (enriched_for route_of (pending_bags {} summaries)
          (set (pending_bags {} summaries) - set (en_running e @ en_pending e))) summaries"
  shows "enrichment_ok route_of summaries (fill_enrichment e)"
proof -
  let ?n = "max_concurrent_bag_route_enrichments_per_track - length (en_running e)"
  have same: "(en_running e @ take ?n (en_pending e)) @ drop ?n (en_pending e) = en_running e @ en_pending e" by simp
  have "drop ?n (en_pending e) \<noteq> [] \<longrightarrow> en_running e @ take ?n (en_pending e) \<noteq> []"
    using assms(3) by (cases "en_pending e") auto
  moreover have "length (en_running e @ take ?n (en_pending e)) \<le> max_concurrent_bag_route_enrichments_per_track"
    using assms(3) by simp
  moreover have "fill_enrichment e = \<lparr>en_pending = drop ?n (en_pending e), en_running = en_running e @ take ?n (en_pending e),
      en_summaries = en_summaries e\<rparr>"
    by (cases e) (simp add: fill_enrichment_def Let_def)
  ultimately show ?thesis
    using assms(1,2,4) unfolding enrichment_ok_def Let_def by (simp only: route_enrichment.select_convs same)
qed

lemma enrichment_ok_reaches:
  assumes "enrichment_reaches route_of summaries e" and own: "own_routes route_of"
  shows "enrichment_ok route_of summaries e"
  using assms(1)
proof (induction rule: enrichment_reaches.induct)
  case Enrichment_Starts
  have "map (enriched_for route_of ids {}) ss = ss" for ids ss by (rule map_idI) (simp add: enriched_for_def)
  then show ?case
    unfolding start_enrichment_def
    by (intro enrichment_ok_fill) (simp_all add: pending_bags_props)
next
  case (Bag_Joined e i)
  let ?ids = "pending_bags {} summaries"
  let ?ended = "set ?ids - set (en_running e @ en_pending e)"
  from Bag_Joined.IH have IH: "distinct (en_running e @ en_pending e)" "set (en_running e @ en_pending e) \<subseteq> set ?ids"
    "length (en_running e) \<le> max_concurrent_bag_route_enrichments_per_track"
    "en_summaries e = map (enriched_for route_of ?ids ?ended) summaries"
    by (simp_all add: enrichment_ok_def Let_def)
  have left: "set (remove1 i (en_running e) @ en_pending e) = set (en_running e @ en_pending e) - {i}"
    using IH(1) Bag_Joined.hyps(2) by auto
  have i: "i \<in> set ?ids" using IH(2) Bag_Joined.hyps(2) by auto
  have ended: "set ?ids - set (remove1 i (en_running e) @ en_pending e) = insert i ?ended" "i \<notin> ?ended"
    using left i Bag_Joined.hyps(2) by auto
  have "(case route_of i of Some r \<Rightarrow> apply_bag_route r (en_summaries e) | None \<Rightarrow> en_summaries e)
      = map (enriched_for route_of ?ids (insert i ?ended)) summaries"
    using pending_bags_props [of "{}" summaries] i own ended(2)
    by (simp add: IH(4) apply_bag_route_def enriched_for_insert split: option.split)
  moreover have "length (remove1 i (en_running e)) < length (en_running e)"
    using length_pos_if_in_set [OF Bag_Joined.hyps(2)] Bag_Joined.hyps(2) by (simp add: length_remove1)
  moreover have "distinct (remove1 i (en_running e) @ en_pending e)" using IH(1) by auto
  moreover have "set (remove1 i (en_running e) @ en_pending e) \<subseteq> set ?ids" using left IH(2) by blast
  ultimately show ?case
    unfolding bag_joined_def
    by (intro enrichment_ok_fill) (use ended(1) IH(3) in simp_all)
qed


definition sample_summary :: "string \<Rightarrow> bagging_summary" where
  "sample_summary n = \<lparr>bu_nomor_kantung = n,
     bu_bagging = Some \<lparr>be_petugas = None, be_lokasi = None, be_tujuan = None, be_tanggal = None, be_waktu = None\<rparr>,
     bu_unbagging = Some \<lparr>ue_petugas = None, ue_lokasi = Some ''DC Jayapura 9910a'', ue_tanggal = None, ue_waktu = None\<rparr>,
     bu_unbagging_sesuai_tujuan = None\<rparr>"

definition sample_route_of :: "string \<Rightarrow> bag_route option" where
  "sample_route_of i = Some \<lparr>br_nomor_kantung = i, br_lokasi_asal = Some ''KCU JAYAPURA 99000'', br_tujuan = Some ''JAYAPURA 9910A'', br_url = ''u''\<rparr>"


end
