(* ===== verification/Spec2Isabelle.thy ===== *)
theory Spec2Isabelle
  imports ImportRun ImportPreview LookupCacheClaims ContactClaims ManifestCache Backpressure UpstreamClaims ServiceConfig EngineProperties
    IpcProperties HostProperties HostBatches PersistentClaims BagRouteEnrichment
begin

text \<open>
  ShipFlow: a verification library for the workspace engine and the lookup service.

  \<^bold>\<open>The program.\<close>  ShipFlow keeps sheets of shipments in a SQLite database and looks
  the shipments up at a courier's web site.  Two Rust programs do the work.  The
  \<^emph>\<open>workspace host\<close> (\<open>src/apps/workspace-host\<close>) runs the \<^emph>\<open>workspace engine\<close>
  (\<open>src/crates/shipflow-workspace-engine\<close>), which owns the database: sheets
  and rows, tracking records, import jobs (a list of bag or manifest numbers is turned
  into rows), the refresh of the rows of a sheet, and the queries and pivots of the user
  interface.  The \<^emph>\<open>service runtime\<close> (\<open>src/crates/shipflow-service-runtime\<close>) answers the
  lookups: from an in-memory cache shared by concurrent callers, from stores on disk
  (contacts, bag routes, manifest snapshots), or from the upstream web site behind a
  queue that bounds the concurrent requests.  \<open>src/crates/shipflow-core\<close> is the client of
  the web site and the data model both share.  The engine asks the service through a
  source of lookups, which is a parameter of its model here; the host implements it with
  \<open>shipflow-service-client\<close> over the frames of \<open>shipflow-ipc\<close>, and the private channel of the
  service (\<open>internal_ipc.rs\<close>) answers.  The caches of the service ask the client of the
  core, whose answers are a parameter of theirs.

  \<^bold>\<open>Conventions.\<close>  A Rust struct or table is a \<open>record\<close>, an enum a \<open>datatype\<close>; a \<open>String\<close>
  is the list of its UTF-8 bytes; \<open>Result\<close> is a sum with \<open>Inl\<close> the error, and \<open>and_then\<close>
  is the question mark.  A table is a list of records: an \<open>UPDATE\<close> is \<open>update_where\<close>, a
  lookup by key \<open>find_by\<close>.  The constraints of \<open>schema.rs\<close> are checked where a statement
  could break them and are errors of the model too.  A transaction is
  \<open>in_transaction\<close> or \<open>atomic_write\<close>: an error leaves the database as it was.  Unsigned
  32-bit casts are \<open>as_u32\<close> (modulo \<open>2 ^ 32\<close>) and saturating additions are written with
  \<open>min\<close>.  What a clock, a random token or a library returns comes in as an argument
  (\<open>env\<close> carries the clock and the tokens of one call).

  \<^bold>\<open>The theories, in the order they build on each other.\<close>

  \<^item> \<open>Prelude\<close>: sequencing of fallible steps, tables, 32-bit arithmetic, and the locale
    \<open>draining_loop\<close>, a loop that a rank bounds (interpreted by the run of an import job).
  \<^item> \<open>RustStrings\<close>: \<open>trim\<close>, \<open>split\<close>, \<open>chars\<close>, ASCII case and decimal numbers on UTF-8 bytes.
  \<^item> \<open>StoreTypes\<close>, \<open>SheetRows\<close>, \<open>ImportJobs\<close> (\<open>storage.rs\<close>, \<open>imports.rs\<close>, \<open>jobs.rs\<close>,
    \<open>schema.rs\<close>): the types and database encodings; the operations on sheet rows (upsert,
    append, edit, delete with compaction, clear, transfer, copy, delete of a sheet); the
    import-job tables (create, claim, start and finish an attempt with its variants for
    bags and manifests, cancel, recover, retry, recount).  \<open>StoreMachine\<close> is the step
    relation of any number of workers on one store.  \<open>SheetProperties\<close> and
    \<open>StoreProperties\<close> hold the results: positions stay unique and compact, an append or
    transfer does what it says or nothing, and in every reachable state the counters of
    a job are the counts of its items, an item has at most one running attempt, a finish
    takes effect once, a cancellation is final, a recovery leaves nothing running.
  \<^item> \<open>TrackingIds\<close>, \<open>ImportEngine\<close>, \<open>ImportRun\<close> (\<open>imports.rs\<close>, \<open>import_engine.rs\<close>,
    \<open>tracking.rs\<close>): parsing and limits of pasted ids; \<open>create_job\<close>, the loop over the items
    of a job with its timeouts, and what a finished bag or manifest leaves on the sheet.
    The loop is a \<open>partial_function (option)\<close>, so that not returning would be \<open>None\<close>; that it
    returns is proved by a rank on the pending items.
  \<^item> \<open>JsonValues\<close>, \<open>TrackingRecords\<close>, \<open>BlobStore\<close>, \<open>DocumentRestore\<close>, \<open>TrackingRefresh\<close>
    (\<open>storage.rs\<close>, \<open>blob_store.rs\<close>, \<open>tracking.rs\<close>): tracking records, blobs, workspaces and the
    document generation; the guarded updates of a row; \<open>restore_workspace\<close>, which replaces
    a workspace by a document; the refresh of one row and of a batch grouped by lookup
    id, where the source delivers results in any order and number and other
    connections write between two deliveries.  \<open>TrackingFacts\<close> reasons in the manner of
    rely and guarantee; \<open>TrackingProperties\<close> and \<open>DocumentProperties\<close> conclude that no row is
    left waiting, an edited row is never overwritten, progress adds up, a replaced
    document refuses old refreshes, and a restored workspace is the document.
  \<^item> \<open>SheetQuery\<close>, \<open>QueryFacts\<close>, \<open>QueryProperties\<close> (\<open>storage.rs\<close>): the tables of fields with their
    SQL expressions, the \<open>WHERE\<close> and \<open>ORDER BY\<close> texts and bindings, their meaning, and the
    windows of a query: the text is free of anything a user typed, the conditions mean
    what the filters say, and the pages partition the result (locale \<open>paged_result\<close>).
  \<^item> \<open>CoreTypes\<close>, \<open>LookupCache\<close>, \<open>LookupCacheFacts\<close>, \<open>LookupCacheMachine\<close>,
    \<open>LookupCacheProperties\<close>, \<open>LookupCacheClaims\<close> (\<open>model.rs\<close>, \<open>lookup_cache.rs\<close>): the critical
    sections of the cache, a state machine per caller with cancellation at every await,
    and what holds in every interleaving: limits, single flight, no lost wake-up, results
    that belong to their key, and no store by a fetch that an invalidation overtook.
  \<^item> \<open>ParserText\<close>, \<open>Leases\<close>, \<open>ContactCache\<close>, \<open>ContactClaims\<close>, \<open>BagRouteCache\<close>, \<open>ManifestCache\<close>
    (\<open>parser.rs\<close>, \<open>contact_cache.rs\<close>, \<open>bag_route_cache.rs\<close>, \<open>manifest_cache.rs\<close>): the stores on
    disk with merging, expiry and eviction, and the leases on running fetches, stated
    once as the locale \<open>lease_registry\<close> and interpreted by both caches that hand them out.
  \<^item> \<open>Backpressure\<close> (\<open>upstream_backpressure.rs\<close>): the two compare-and-swap loops as steps of
    concurrent callers, refined by an atomic bounded queue.
  \<^item> \<open>Upstream\<close>, \<open>UpstreamClaims\<close> (\<open>upstream.rs\<close>): ids, attempts and waits, reading of responses,
    errors, addresses, the external API and its fallback routes.
  \<^item> \<open>PersistentStore\<close>, \<open>PersistentClaims\<close> (\<open>persistent_store.rs\<close>): the store behind the lookup
    cache, with the writer thread and the failures of its transactions: after a flush
    that succeeds, what was written is read back.
  \<^item> \<open>BagRouteEnrichment\<close> (\<open>http_api.rs\<close>, \<open>bag_route.rs\<close>): the label of a bag, the choice between label
    and manifest, and the concurrent lookups that put the routes into a shipment's
    history: their order does not matter.
  \<^item> \<open>ServiceConfig\<close> (\<open>runtime_options.rs\<close>, \<open>model.rs\<close>): the validation of the configuration.
  \<^item> \<open>ImportPreview\<close> (\<open>import_engine.rs\<close>): the preview of bags and manifests without a job.
  \<^item> \<open>Analytics\<close>, \<open>AnalyticsProperties\<close> (\<open>analytics.rs\<close>): the source rows of a pivot, the bindings
    of its fields, the SQL text handed to DuckDB, the sorting and the charts: a pivot is
    never computed from part of a sheet, and names cannot escape their quotes.
  \<^item> \<open>WorkspaceEngine\<close>, \<open>EngineFacts\<close>, \<open>EngineProperties\<close> (\<open>engine.rs\<close>, \<open>commands.rs\<close>, \<open>jobs.rs\<close>): every
    command with its guards, the start on an existing database and the restore from a
    staged file, composed of the operations above.  Every command returns and keeps the
    invariant \<open>db_ok\<close> (the reachable states of \<open>StoreMachine\<close>), a start leaves nothing
    running, a refused edit changes no row.
  \<^item> \<open>Rpc\<close>, \<open>InternalIpc\<close>, \<open>IpcProperties\<close> (\<open>shipflow-ipc\<close>, \<open>internal_ipc.rs\<close>,
    \<open>shipflow-service-client\<close>): frames are read back as they were written, only the holder of
    the credential is served, and a lookup over the channel is the service's answer.
  \<^item> \<open>PreviewRegistry\<close>, \<open>WorkspaceHost\<close>, \<open>HostProperties\<close>, \<open>HostBatches\<close>
    (\<open>workspace-host/src/main.rs\<close>): the cancellation of previews, the requests, the main loop
    as a state machine over the actor, the long operations and the previews, and the
    concurrent lookups: every request is answered once, a request for a replaced document
    changes nothing, and a concurrent batch gives what a sequential one gives.

  \<^bold>\<open>Groups of lemmas.\<close>  Each component theory proves the case lemmas of its operations
  (what each returns on every branch) and the preservation of its invariant
  (\<open>rows_ok\<close>, \<open>run_good\<close>, \<open>run_ok\<close>, the invariants of the cache and of the queue); the theories
  named \<open>Properties\<close> or \<open>Claims\<close> state the results and close each with a witness on
  concrete data.

  \<^bold>\<open>Bounds and fuel.\<close>  \<open>follow_pages\<close> takes one unit of fuel a page, and one more than the
  number of rows is enough since every page but the last holds a row.  The loops of the
  code are structural recursions, recursions with a measure, or, for the import run, a
  partial function whose termination is proved.  Positions are bounded by \<open>u32_max\<close> where
  the code converts them; a hypothesis says so where a claim needs it.

  \<^bold>\<open>Parameters.\<close>  SQLite's arithmetic on columns and its collations, serde's texts, the
  SHA-256 digest, reqwest, \<open>url\<close> and \<open>base64\<close>, the tokio semaphore, timers and clocks, the DOM
  of a page.  A hypothesis on them is stated in the theorem that uses it.

  \<^bold>\<open>Not modelled.\<close>  Failures of SQLite's input and output, which every operation can return
  at any statement: the models give what an operation does when the disk works, so the
  fallbacks of the refresh for a failed read are absent.  What DuckDB and SQLite compute,
  the text
  analysis of the pages behind the DOM selectors (\<open>parser.rs\<close>, \<open>bag.rs\<close>, \<open>manifest.rs\<close>,
  \<open>manifest_print.rs\<close>), the other HTTP routes and their description (\<open>http_api.rs\<close>, \<open>openapi.rs\<close>, \<open>api_contract.rs\<close>), sockets
  and pipes with the accept loop and its drain, the runtime log, and the command lines and
  the process start of the binaries.  The loaders that connect the caches with the
  upstream client (\<open>lookup_cache.rs\<close>) are known to the cache as an answer per key.  The
  database that a long operation of the host shares with the actor is, in the state
  machine of the host, any database: what other connections write during a refresh is
  part of the refresh itself (\<open>TrackingRefresh\<close>).
\<close>

end
